(* ===== verification/BDE_Prelude.thy ===== *)
theory BDE_Prelude
  imports Complex_Main "HOL-Library.Char_ord" "HOL-Library.List_Lexorder"
begin

text \<open>
  Shared vocabulary of the development.

  The C++ program is written in three styles, and each has its own type here:
  \<^item> a function that may throw and changes nothing: \<open>'e result = 'e + 'a\<close>, with \<open>Inl\<close> for the
    exception (\<open>bind_r\<close> is the sequencing of two such functions);
  \<^item> a function that changes state and may throw: \<open>('s, 'e, 'a) act\<close>, a function from the state to
    the outcome and the state it left behind. An exception does not roll the state back
    (\<open>bind_a\<close> keeps the state of the failing step), as in C++;
  \<^item> a block of statements run for their effect: \<open>seq_a\<close>, which runs a list of actions in order
    and stops at the first exception.

  \<open>double\<close> values (rates, capacities) are rational numbers: every finite double is one, and all
  sums and differences the program forms of integral rates below \<open>2 ^ 53\<close> are exact in both.
\<close>

named_theorems run_simps \<open>one-step unfoldings of actions and results\<close>
named_theorems exec \<open>definitions unfolded when a concrete run is evaluated by the simplifier\<close>
named_theorems frame_intros \<open>closure rules: which part of the state an action leaves alone\<close>

type_synonym double = rat

text \<open>
  The exceptions of the program. \<open>Undefined\<close> marks what C++ leaves undefined (a dangling or null
  pointer, an index past the end of a vector): the model stops there instead of inventing a value.
\<close>

datatype exn =
    Runtime_error string      \<comment> \<open>\<open>std::runtime_error\<close>, with its message\<close>
  | Json_error                \<comment> \<open>\<open>Json::LogicError\<close> and \<open>Json::RuntimeError\<close>\<close>
  | Bad_cast                  \<comment> \<open>\<open>std::bad_cast\<close>\<close>
  | Out_of_range              \<comment> \<open>\<open>std::out_of_range\<close>\<close>
  | Invalid_argument          \<comment> \<open>\<open>std::invalid_argument\<close>\<close>
  | Text_thrown string        \<comment> \<open>a string literal, which no handler for \<open>std::exception\<close> catches\<close>
  | Undefined

section \<open>Results: functions that may throw\<close>

type_synonym ('e, 'a) result = "'e + 'a"

definition bind_r :: "('e, 'a) result \<Rightarrow> ('a \<Rightarrow> ('e, 'b) result) \<Rightarrow> ('e, 'b) result" where
  "bind_r m f = (case m of Inl e \<Rightarrow> Inl e | Inr a \<Rightarrow> f a)"

lemma bind_r_simps [simp, run_simps]:
  "bind_r (Inl e) f = Inl e"
  "bind_r (Inr a) f = f a"
  by (simp_all add: bind_r_def)

lemma bind_r_Inr_iff: "bind_r m f = Inr b \<longleftrightarrow> (\<exists>a. m = Inr a \<and> f a = Inr b)"
  by (cases m) simp_all

lemma bind_r_InrE [elim]:
  assumes "bind_r m f = Inr b"
  obtains a where "m = Inr a" and "f a = Inr b"
  using assms by (auto simp: bind_r_Inr_iff)

text \<open>For evaluation: what comes after a step is left alone until the step has been computed.\<close>

lemma bind_r_lazy: "m = m' \<Longrightarrow> bind_r m f = bind_r m' f"
  by simp

definition opt_r :: "'e \<Rightarrow> 'a option \<Rightarrow> ('e, 'a) result" where
  "opt_r e x = (case x of None \<Rightarrow> Inl e | Some a \<Rightarrow> Inr a)"

lemma opt_r_simps [simp, run_simps]: "opt_r e None = Inl e" "opt_r e (Some a) = Inr a"
  by (simp_all add: opt_r_def)

lemma opt_r_Inr_iff [simp]: "opt_r e x = Inr a \<longleftrightarrow> x = Some a"
  by (cases x) simp_all

text \<open>A loop whose body may throw: the state of the last completed round is what a round starts from.\<close>

fun fold_r :: "('x \<Rightarrow> 's \<Rightarrow> ('e, 's) result) \<Rightarrow> 'x list \<Rightarrow> 's \<Rightarrow> ('e, 's) result" where
  "fold_r f [] s = Inr s"
| "fold_r f (x # xs) s = bind_r (f x s) (fold_r f xs)"

lemma fold_r_append: "fold_r f (xs @ ys) s = bind_r (fold_r f xs s) (fold_r f ys)"
  by (induction xs arbitrary: s) (auto simp: bind_r_def split: sum.splits)

lemma fold_r_invariant:
  assumes "fold_r f xs s = Inr t" and "P s"
    and "\<And>x s t. x \<in> set xs \<Longrightarrow> P s \<Longrightarrow> f x s = Inr t \<Longrightarrow> P t"
  shows "P t"
  using assms
proof (induction xs arbitrary: s)
  case Nil
  then show ?case by simp
next
  case (Cons x xs)
  from Cons.prems(1) obtain u where u: "f x s = Inr u" "fold_r f xs u = Inr t"
    by auto
  have "P u" using Cons.prems(2,3) u(1) by auto
  then show ?case using Cons.IH [OF u(2)] Cons.prems(3) by auto
qed

text \<open>A loop that collects results.\<close>

fun map_r :: "('x \<Rightarrow> ('e, 'y) result) \<Rightarrow> 'x list \<Rightarrow> ('e, 'y list) result" where
  "map_r f [] = Inr []"
| "map_r f (x # xs) = bind_r (f x) (\<lambda>y. bind_r (map_r f xs) (\<lambda>ys. Inr (y # ys)))"

lemma map_r_Cons_Inr: "map_r f (x # xs) = Inr zs \<longleftrightarrow> (\<exists>y ys. f x = Inr y \<and> map_r f xs = Inr ys \<and> zs = y # ys)"
  by (auto simp: bind_r_Inr_iff)

lemma map_r_Inr: "map_r f xs = Inr ys \<longleftrightarrow> list_all2 (\<lambda>x y. f x = Inr y) xs ys"
proof (induction xs arbitrary: ys)
  case (Cons x xs)
  then show ?case by (auto simp: bind_r_Inr_iff list_all2_Cons1)
qed auto

section \<open>Actions: functions that change state and may throw\<close>

type_synonym ('s, 'e, 'a) act = "'s \<Rightarrow> ('e, 'a) result \<times> 's"

definition ret_a :: "'a \<Rightarrow> ('s, 'e, 'a) act" where
  "ret_a a = (\<lambda>s. (Inr a, s))"

definition throw_a :: "'e \<Rightarrow> ('s, 'e, 'a) act" where
  "throw_a e = (\<lambda>s. (Inl e, s))"

definition bind_a :: "('s, 'e, 'a) act \<Rightarrow> ('a \<Rightarrow> ('s, 'e, 'b) act) \<Rightarrow> ('s, 'e, 'b) act" where
  "bind_a m f = (\<lambda>s. case m s of (Inl e, s') \<Rightarrow> (Inl e, s') | (Inr a, s') \<Rightarrow> f a s')"

definition get_a :: "('s \<Rightarrow> 'a) \<Rightarrow> ('s, 'e, 'a) act" where
  "get_a f = (\<lambda>s. (Inr (f s), s))"

definition upd_a :: "('s \<Rightarrow> 's) \<Rightarrow> ('s, 'e, unit) act" where
  "upd_a f = (\<lambda>s. (Inr (), f s))"

definition lift_r :: "('e, 'a) result \<Rightarrow> ('s, 'e, 'a) act" where
  "lift_r r = (\<lambda>s. (r, s))"

text \<open>\<open>try { m } catch (...) { h }\<close>: the handler starts from the state the failing step left.\<close>

definition catch_a :: "('s, 'e, 'a) act \<Rightarrow> ('s, 'e, 'a) act \<Rightarrow> ('s, 'e, 'a) act" where
  "catch_a m h = (\<lambda>s. case m s of (Inl e, s') \<Rightarrow> h s' | (Inr a, s') \<Rightarrow> (Inr a, s'))"

definition when_a :: "bool \<Rightarrow> ('s, 'e, unit) act \<Rightarrow> ('s, 'e, unit) act" where
  "when_a b m = (if b then m else ret_a ())"

fun seq_a :: "('s, 'e, unit) act list \<Rightarrow> ('s, 'e, unit) act" where
  "seq_a [] = ret_a ()"
| "seq_a (m # ms) = bind_a m (\<lambda>_. seq_a ms)"

fun foreach_a :: "('x \<Rightarrow> ('s, 'e, unit) act) \<Rightarrow> 'x list \<Rightarrow> ('s, 'e, unit) act" where
  "foreach_a f [] = ret_a ()"
| "foreach_a f (x # xs) = bind_a (f x) (\<lambda>_. foreach_a f xs)"

text \<open>A loop that carries a local variable, and a loop that collects results.\<close>

fun fold_a :: "('x \<Rightarrow> 'b \<Rightarrow> ('s, 'e, 'b) act) \<Rightarrow> 'x list \<Rightarrow> 'b \<Rightarrow> ('s, 'e, 'b) act" where
  "fold_a f [] b = ret_a b"
| "fold_a f (x # xs) b = bind_a (f x b) (fold_a f xs)"

fun map_a :: "('x \<Rightarrow> ('s, 'e, 'b) act) \<Rightarrow> 'x list \<Rightarrow> ('s, 'e, 'b list) act" where
  "map_a f [] = ret_a []"
| "map_a f (x # xs) = bind_a (f x) (\<lambda>y. bind_a (map_a f xs) (\<lambda>ys. ret_a (y # ys)))"

lemma act_simps [simp, run_simps]:
  "ret_a a s = (Inr a, s)"
  "throw_a e s = (Inl e, s)"
  "get_a g s = (Inr (g s), s)"
  "upd_a u s = (Inr (), u s)"
  "lift_r r s = (r, s)"
  "when_a True m = m"
  "when_a False m = ret_a ()"
  by (simp_all add: ret_a_def throw_a_def get_a_def upd_a_def lift_r_def when_a_def)

lemma bind_a_run [run_simps, exec]:
  "bind_a m f s = (case m s of (Inl e, s') \<Rightarrow> (Inl e, s') | (Inr a, s') \<Rightarrow> f a s')"
  by (simp add: bind_a_def)

lemma bind_a_lazy: "m = m' \<Longrightarrow> bind_a m f = bind_a m' f"
  by simp

lemma bind_a_simps [simp]:
  "m s = (Inl e, s') \<Longrightarrow> bind_a m f s = (Inl e, s')"
  "m s = (Inr a, s') \<Longrightarrow> bind_a m f s = f a s'"
  by (simp_all add: bind_a_def)

lemma bind_a_assoc: "bind_a (bind_a m f) g = bind_a m (\<lambda>x. bind_a (f x) g)"
  by (rule ext) (simp add: bind_a_def split: prod.splits sum.splits)

lemma bind_ret_a [simp]: "bind_a (ret_a a) f = f a" "bind_a m ret_a = m"
  by (rule ext, simp add: bind_a_def ret_a_def split: prod.splits sum.splits)+

lemma bind_a_InrE:
  assumes "bind_a m f s = (Inr b, t)"
  obtains a u where "m s = (Inr a, u)" and "f a u = (Inr b, t)"
  using assms by (auto simp: bind_a_def split: prod.splits sum.splits)

lemma bind_a_InlE:
  assumes "bind_a m f s = (Inl e, t)"
  obtains (first) "m s = (Inl e, t)" | (second) a u where "m s = (Inr a, u)" and "f a u = (Inl e, t)"
  using assms by (auto simp: bind_a_def split: prod.splits sum.splits)

lemma seq_a_append: "seq_a (ms @ ns) = bind_a (seq_a ms) (\<lambda>_. seq_a ns)"
  by (induction ms) (simp_all add: bind_a_assoc)

declare catch_a_def [exec]

text \<open>
  \<open>keeps P m\<close>: whatever the outcome of \<open>m\<close>, a state that satisfies \<open>P\<close> is left in a state that
  satisfies \<open>P\<close>. The closure rules are collected in \<open>frame_intros\<close>.
\<close>

definition keeps :: "('s \<Rightarrow> bool) \<Rightarrow> ('s, 'e, 'a) act \<Rightarrow> bool" where
  "keeps P m \<longleftrightarrow> (\<forall>s. P s \<longrightarrow> P (snd (m s)))"

lemma keepsD: "keeps P m \<Longrightarrow> P s \<Longrightarrow> P (snd (m s))"
  by (simp add: keeps_def)

lemma keeps_ret [frame_intros]: "keeps P (ret_a a)"
  and keeps_throw [frame_intros]: "keeps P (throw_a e)"
  and keeps_get [frame_intros]: "keeps P (get_a g)"
  and keeps_lift [frame_intros]: "keeps P (lift_r r)"
  by (simp_all add: keeps_def)

lemma keeps_upd [frame_intros]: "(\<And>s. P s \<Longrightarrow> P (u s)) \<Longrightarrow> keeps P (upd_a u)"
  by (simp add: keeps_def)

lemma keeps_bind [frame_intros]:
  assumes "keeps P m" and "\<And>a. keeps P (f a)"
  shows "keeps P (bind_a m f)"
proof (unfold keeps_def, intro allI impI)
  fix s assume "P s"
  obtain r u where m: "m s = (r, u)" by (cases "m s")
  with \<open>P s\<close> assms(1) have "P u" by (auto dest: keepsD)
  then show "P (snd (bind_a m f s))"
    using m assms(2) by (cases r) (auto dest: keepsD)
qed

lemma keeps_catch [frame_intros]:
  assumes "keeps P m" and "keeps P h"
  shows "keeps P (catch_a m h)"
proof (unfold keeps_def, intro allI impI)
  fix s assume "P s"
  obtain r u where m: "m s = (r, u)" by (cases "m s")
  with \<open>P s\<close> assms(1) have "P u" by (auto dest: keepsD)
  then show "P (snd (catch_a m h s))"
    using m assms(2) by (cases r) (auto simp: catch_a_def dest: keepsD)
qed

lemma keeps_when [frame_intros]: "(b \<Longrightarrow> keeps P m) \<Longrightarrow> keeps P (when_a b m)"
  by (cases b) (simp_all add: keeps_ret)

lemma keeps_seq [frame_intros]: "(\<And>m. m \<in> set ms \<Longrightarrow> keeps P m) \<Longrightarrow> keeps P (seq_a ms)"
  by (induction ms) (auto intro!: keeps_bind keeps_ret)

lemma keeps_foreach [frame_intros]: "(\<And>x. x \<in> set xs \<Longrightarrow> keeps P (f x)) \<Longrightarrow> keeps P (foreach_a f xs)"
  by (induction xs) (auto intro!: keeps_bind keeps_ret)

lemma keeps_fold [frame_intros]: "(\<And>x b. x \<in> set xs \<Longrightarrow> keeps P (f x b)) \<Longrightarrow> keeps P (fold_a f xs b)"
  by (induction xs arbitrary: b) (auto intro!: keeps_bind keeps_ret)

lemma keeps_map [frame_intros]: "(\<And>x. x \<in> set xs \<Longrightarrow> keeps P (f x)) \<Longrightarrow> keeps P (map_a f xs)"
  by (induction xs) (auto intro!: keeps_bind keeps_ret)

lemma keeps_if [frame_intros]: "(b \<Longrightarrow> keeps P m) \<Longrightarrow> (\<not> b \<Longrightarrow> keeps P n) \<Longrightarrow> keeps P (if b then m else n)"
  by simp

section \<open>Lists\<close>

lemma sum_list_map_nonneg:
  fixes f :: "'a \<Rightarrow> 'b::ordered_comm_monoid_add"
  shows "(\<And>x. x \<in> set xs \<Longrightarrow> 0 \<le> f x) \<Longrightarrow> 0 \<le> sum_list (map f xs)"
  by (induction xs) auto

end
