(* ===== verification/Std_Map.thy ===== *)
theory Std_Map
  imports BDE_Prelude
begin

text \<open>
  \<open>std::map\<close> as the program uses it: an association list in strictly ascending key order, so
  that a range-based \<open>for\<close> over the map is a traversal of the list. \<open>emplace\<close> inserts only when
  the key is absent, \<open>put\<close> is \<open>m[k] = v\<close>, \<open>adjust\<close> is a mutation through a reference or pointer
  to the mapped value, \<open>erase\<close> removes the key. The order on \<open>string\<close> is the one of
  \<open>std::string\<close>: bytes compared as unsigned values, a proper prefix first.

  The locale \<open>ordered_map\<close> states what a client may rely on; the sorted association list is its
  interpretation \<open>sm\<close>, whose laws are the simplification rules every component uses.
\<close>

type_synonym ('k, 'v) stdmap = "('k \<times> 'v) list"

fun emplace :: "'k::linorder \<Rightarrow> 'v \<Rightarrow> ('k, 'v) stdmap \<Rightarrow> ('k, 'v) stdmap" where
  "emplace k v [] = [(k, v)]"
| "emplace k v ((k', v') # m) =
     (if k < k' then (k, v) # (k', v') # m
      else if k = k' then (k', v') # m
      else (k', v') # emplace k v m)"

fun put :: "'k::linorder \<Rightarrow> 'v \<Rightarrow> ('k, 'v) stdmap \<Rightarrow> ('k, 'v) stdmap" where
  "put k v [] = [(k, v)]"
| "put k v ((k', v') # m) =
     (if k < k' then (k, v) # (k', v') # m
      else if k = k' then (k, v) # m
      else (k', v') # put k v m)"

fun adjust :: "'k \<Rightarrow> ('v \<Rightarrow> 'v) \<Rightarrow> ('k, 'v) stdmap \<Rightarrow> ('k, 'v) stdmap" where
  "adjust k f [] = []"
| "adjust k f ((k', v') # m) = (if k = k' then (k', f v') # m else (k', v') # adjust k f m)"

fun erase :: "'k \<Rightarrow> ('k, 'v) stdmap \<Rightarrow> ('k, 'v) stdmap" where
  "erase k [] = []"
| "erase k ((k', v') # m) = (if k = k' then m else (k', v') # erase k m)"

definition keys :: "('k, 'v) stdmap \<Rightarrow> 'k list" where
  "keys m = map fst m"

definition has_key :: "('k, 'v) stdmap \<Rightarrow> 'k \<Rightarrow> bool" where
  "has_key m k \<longleftrightarrow> map_of m k \<noteq> None"

definition map_ok :: "('k::linorder, 'v) stdmap \<Rightarrow> bool" where
  "map_ok m \<longleftrightarrow> sorted_wrt (<) (keys m)"

section \<open>The contract of an ordered map\<close>

locale ordered_map =
  fixes find :: "'m \<Rightarrow> 'k::linorder \<Rightarrow> 'v option"
    and ins :: "'k \<Rightarrow> 'v \<Rightarrow> 'm \<Rightarrow> 'm"
    and upd :: "'k \<Rightarrow> 'v \<Rightarrow> 'm \<Rightarrow> 'm"
    and modify :: "'k \<Rightarrow> ('v \<Rightarrow> 'v) \<Rightarrow> 'm \<Rightarrow> 'm"
    and del :: "'k \<Rightarrow> 'm \<Rightarrow> 'm"
    and ok :: "'m \<Rightarrow> bool"
  assumes find_ins: "ok m \<Longrightarrow>
      find (ins k v m) k' = (if k' = k \<and> find m k = None then Some v else find m k')"
    and find_upd: "ok m \<Longrightarrow> find (upd k v m) k' = (if k' = k then Some v else find m k')"
    and find_modify: "ok m \<Longrightarrow> find (modify k f m) k' =
      (if k' = k then map_option f (find m k) else find m k')"
    and find_del: "ok m \<Longrightarrow> find (del k m) k' = (if k' = k then None else find m k')"
    and ok_ins: "ok m \<Longrightarrow> ok (ins k v m)"
    and ok_upd: "ok m \<Longrightarrow> ok (upd k v m)"
    and ok_modify: "ok m \<Longrightarrow> ok (modify k f m)"
    and ok_del: "ok m \<Longrightarrow> ok (del k m)"
begin

lemma ins_keeps_old: "ok m \<Longrightarrow> find m k = Some w \<Longrightarrow> find (ins k v m) k = Some w"
  by (simp add: find_ins)

lemma ins_then_modify:
  "ok m \<Longrightarrow> find (modify k f (ins k v m)) k =
     Some (f (case find m k of None \<Rightarrow> v | Some w \<Rightarrow> w))"
  by (simp add: find_modify find_ins ok_ins split: option.splits)

lemma del_then_ins: "ok m \<Longrightarrow> find (ins k v (del k m)) k = Some v"
  by (simp add: find_ins find_del ok_del)

lemma dom_ins: "ok m \<Longrightarrow> dom (find (ins k v m)) = insert k (dom (find m))"
  by (auto simp: find_ins split: if_splits)

lemma dom_upd: "ok m \<Longrightarrow> dom (find (upd k v m)) = insert k (dom (find m))"
  by (auto simp: find_upd split: if_splits)

lemma dom_modify: "ok m \<Longrightarrow> dom (find (modify k f m)) = dom (find m)"
  by (auto simp: find_modify split: if_splits)

lemma dom_del: "ok m \<Longrightarrow> dom (find (del k m)) = dom (find m) - {k}"
  by (auto simp: find_del split: if_splits)

end

section \<open>The sorted association list meets it\<close>

lemma keys_simps [simp]: "keys [] = []" "keys ((k, v) # m) = k # keys m"
  by (simp_all add: keys_def)

lemma map_ok_simps [simp]:
  "map_ok []"
  "map_ok ((k, v) # m) \<longleftrightarrow> (\<forall>k' \<in> set (keys m). k < k') \<and> map_ok m"
  by (simp_all add: map_ok_def)

lemma map_of_None_keys: "map_of m k = None \<longleftrightarrow> k \<notin> set (keys m)"
  by (simp add: keys_def map_of_eq_None_iff)

lemma has_key_keys: "has_key m k \<longleftrightarrow> k \<in> set (keys m)"
  by (simp add: has_key_def map_of_None_keys)

lemma map_ok_distinct: "map_ok m \<Longrightarrow> distinct (keys m)"
  by (induction m) (auto dest: less_imp_neq)

lemma set_keys_emplace [simp]: "set (keys (emplace k v m)) = insert k (set (keys m))"
  by (induction k v m rule: emplace.induct) auto

lemma set_keys_put [simp]: "set (keys (put k v m)) = insert k (set (keys m))"
  by (induction k v m rule: put.induct) auto

lemma keys_adjust [simp]: "keys (adjust k f m) = keys m"
  by (induction k f m rule: adjust.induct) auto

lemma keys_erase: "set (keys (erase k m)) \<subseteq> set (keys m)"
  by (induction k m rule: erase.induct) auto

lemma map_ok_emplace [simp]: "map_ok m \<Longrightarrow> map_ok (emplace k v m)"
  by (induction k v m rule: emplace.induct) (auto dest: order.strict_trans)

lemma map_ok_put [simp]: "map_ok m \<Longrightarrow> map_ok (put k v m)"
  by (induction k v m rule: put.induct) (auto dest: order.strict_trans)

lemma map_ok_adjust [simp]: "map_ok (adjust k f m) = map_ok m"
  by (simp add: map_ok_def)

lemma map_ok_erase [simp]: "map_ok m \<Longrightarrow> map_ok (erase k m)"
  by (induction k m rule: erase.induct) (auto dest: subsetD [OF keys_erase])

lemma map_of_emplace [simp]:
  "map_ok m \<Longrightarrow> map_of (emplace k v m) k' =
     (if k' = k \<and> map_of m k = None then Some v else map_of m k')"
proof (induction k v m rule: emplace.induct)
  case (2 k v l w m)
  have "k < l \<Longrightarrow> map_of ((l, w) # m) k = None"
    using "2.prems" by (auto simp: map_of_None_keys dest: order.strict_trans)
  with 2 show ?case by auto
qed simp

lemma map_of_put [simp]: "map_of (put k v m) k' = (if k' = k then Some v else map_of m k')"
  by (induction k v m rule: put.induct) auto

lemma map_of_adjust [simp]:
  "map_of (adjust k f m) k' = (if k' = k then map_option f (map_of m k) else map_of m k')"
  by (induction k f m rule: adjust.induct) auto

lemma map_of_erase [simp]:
  "map_ok m \<Longrightarrow> map_of (erase k m) k' = (if k' = k then None else map_of m k')"
  by (induction k m rule: erase.induct) (auto simp: map_of_None_keys)

interpretation sm: ordered_map
  "map_of :: ('k::linorder, 'v) stdmap \<Rightarrow> 'k \<Rightarrow> 'v option" emplace put adjust erase map_ok
  by unfold_locales (simp_all split: if_splits)

lemma has_key_simps [simp]:
  "map_ok m \<Longrightarrow> has_key (emplace k v m) k' \<longleftrightarrow> k' = k \<or> has_key m k'"
  "has_key (put k v m) k' \<longleftrightarrow> k' = k \<or> has_key m k'"
  "has_key (adjust k f m) k' = has_key m k'"
  "map_ok m \<Longrightarrow> has_key (erase k m) k' \<longleftrightarrow> k' \<noteq> k \<and> has_key m k'"
  by (auto simp: has_key_def)

lemma emplace_present: "map_ok m \<Longrightarrow> map_of m k = Some w \<Longrightarrow> emplace k v m = m"
proof (induction k v m rule: emplace.induct)
  case (2 k v l w m)
  then show ?case by (auto simp: map_of_None_keys dest: map_of_SomeD split: if_splits)
      (metis fst_conv image_eqI keys_def list.set_map map_of_SomeD not_less_iff_gr_or_eq)
qed simp

lemma adjust_id: "(\<And>v. map_of m k = Some v \<Longrightarrow> f v = v) \<Longrightarrow> adjust k f m = m"
  by (induction k f m rule: adjust.induct) auto

lemma adjust_absent: "map_of m k = None \<Longrightarrow> adjust k f m = m"
  by (rule adjust_id) simp

lemma erase_absent: "map_of m k = None \<Longrightarrow> erase k m = m"
  by (induction k m rule: erase.induct) (auto split: if_splits)

lemma map_ok_entry_iff: "map_ok m \<Longrightarrow> (k, v) \<in> set m \<longleftrightarrow> map_of m k = Some v"
  using map_ok_distinct [of m] by (simp add: keys_def)

lemma map_ok_ext:
  assumes "map_ok m" and "map_ok n" and "map_of m = map_of n"
  shows "m = n"
proof -
  have "set m = set n"
    using assms by (metis (no_types, opaque_lifting) map_ok_entry_iff surj_pair subrelI subset_antisym)
  moreover have "keys m = keys n"
    using assms \<open>set m = set n\<close>
    by (metis keys_def list.set_map map_ok_def sorted_list_of_set.idem_if_sorted_distinct
        strict_sorted_iff)
  ultimately show ?thesis
    using map_ok_distinct [OF assms(1)] unfolding keys_def
    by (metis inj_on_map_eq_map distinct_map sup.idem)
qed

end
