(* ===== verification/Job_Manager.thy ===== *)
theory Job_Manager
  imports Std_Map
begin

text \<open>
  The job manager of \<open>src/server/jobmanager.h\<close>: the table of DTN-to-DTN jobs that the nodes and edges
  of the resource graph point into. A \<open>BaseJob *\<close> is the key of the job in that table; jobs are never
  erased from it, so such a pointer never dangles.
\<close>

datatype JobState = JS_running | JS_stopped | JS_finished | JS_reserved | JS_marked_for_prealloc

datatype JobGroup = JG_base | JG_extra

fun JobState_int :: "JobState \<Rightarrow> int" where
  "JobState_int JS_running = 0"
| "JobState_int JS_stopped = 1"
| "JobState_int JS_finished = 2"
| "JobState_int JS_reserved = 3"
| "JobState_int JS_marked_for_prealloc = 4"

fun JobGroup_int :: "JobGroup \<Rightarrow> int" where
  "JobGroup_int JG_base = 0"
| "JobGroup_int JG_extra = 1"

record basejob =
  job_id :: string
  job_group :: JobGroup
  job_state :: JobState
  job_rate :: double

definition BaseJob :: "string \<Rightarrow> JobGroup \<Rightarrow> JobState \<Rightarrow> double \<Rightarrow> basejob" where
  "BaseJob i g s r = \<lparr>job_id = i, job_group = g, job_state = s, job_rate = r\<rparr>"

definition set_state :: "JobState \<Rightarrow> basejob \<Rightarrow> basejob" where
  "set_state s j = j\<lparr>job_state := s\<rparr>"

record jobmanager =
  basic_jobs :: "(string, basejob) stdmap"

definition JobManager :: jobmanager where
  "JobManager = \<lparr>basic_jobs = []\<rparr>"

text \<open>Dereferencing the end iterator, for an unknown id, is undefined.\<close>

definition get_basic_job :: "jobmanager \<Rightarrow> string \<Rightarrow> (exn, basejob) result" where
  "get_basic_job jm i = opt_r Undefined (map_of (basic_jobs jm) i)"

text \<open>The result of \<open>add_basic_job\<close> is a reference to the entry, that is, the key itself.\<close>

definition add_basic_job :: "string \<Rightarrow> JobGroup \<Rightarrow> JobState \<Rightarrow> double \<Rightarrow> jobmanager \<Rightarrow> jobmanager" where
  "add_basic_job i g s r jm = jm\<lparr>basic_jobs := emplace i (BaseJob i g s r) (basic_jobs jm)\<rparr>"

definition set_job_state :: "string \<Rightarrow> JobState \<Rightarrow> jobmanager \<Rightarrow> jobmanager" where
  "set_job_state i s jm = jm\<lparr>basic_jobs := adjust i (set_state s) (basic_jobs jm)\<rparr>"

text \<open>Every job is stored under its own id, and the table is a proper map.\<close>

definition jm_wf :: "jobmanager \<Rightarrow> bool" where
  "jm_wf jm \<longleftrightarrow> map_ok (basic_jobs jm) \<and> (\<forall>(k, j) \<in> set (basic_jobs jm). job_id j = k)"

lemma jm_wf_iff: "jm_wf jm \<longleftrightarrow> map_ok (basic_jobs jm) \<and> (\<forall>k j. map_of (basic_jobs jm) k = Some j \<longrightarrow> job_id j = k)"
  unfolding jm_wf_def using map_ok_entry_iff [of "basic_jobs jm"] by blast

lemma jm_wf_JobManager: "jm_wf JobManager"
  by (simp add: jm_wf_def JobManager_def)

lemma jm_wf_add: "jm_wf jm \<Longrightarrow> jm_wf (add_basic_job i g s r jm)"
  by (auto simp: jm_wf_iff add_basic_job_def BaseJob_def)

lemma jm_wf_set_state: "jm_wf jm \<Longrightarrow> jm_wf (set_job_state i s jm)"
  by (auto simp: jm_wf_iff set_job_state_def set_state_def)

lemma basic_jobs_update [simp]:
  "basic_jobs (add_basic_job i g s r jm) = emplace i (BaseJob i g s r) (basic_jobs jm)"
  "basic_jobs (set_job_state i s jm) = adjust i (set_state s) (basic_jobs jm)"
  by (simp_all add: add_basic_job_def set_job_state_def)

text \<open>The number of running extra jobs: what a preemption decreases.\<close>

definition running_extra :: "basejob \<Rightarrow> bool" where
  "running_extra j \<longleftrightarrow> job_group j = JG_extra \<and> job_state j = JS_running"

definition extra_count :: "jobmanager \<Rightarrow> nat" where
  "extra_count jm = length (filter (\<lambda>(k, j). running_extra j) (basic_jobs jm))"

lemma filter_adjust_less:
  assumes "map_of m k = Some v" and "P v" and "\<not> P (f v)"
  shows "length (filter (\<lambda>(k, j). P j) (adjust k f m)) < length (filter (\<lambda>(k, j). P j) m)"
  using assms by (induction m) (auto split: if_splits)

lemma extra_count_suspend:
  assumes "map_of (basic_jobs jm) k = Some j" and "running_extra j" and "s \<noteq> JS_running"
  shows "extra_count (set_job_state k s jm) < extra_count jm"
  unfolding extra_count_def basic_jobs_update
  using assms
  by (intro filter_adjust_less [where P = running_extra and v = j]) (simp_all add: running_extra_def set_state_def)

end
