(* ===== verification/Json_Value.thy ===== *)
theory Json_Value
  imports Std_Map "HOL-Library.Monad_Syntax"
begin

text \<open>
  \<open>Json::Value\<close> of \<open>src/utils/jsoncpp.cc\<close>, the type of every message, configuration and database
  document of the program. A value is one of the eight \<open>ValueType\<close>s. Arrays and objects are ordered
  maps, from indices and from member names, as in the source: a range-based \<open>for\<close> visits the mapped
  values in key order, and \<open>size()\<close> of an array is its highest index plus one.

  An accessor whose precondition fails throws \<open>Json::LogicError\<close> (\<open>JSON_FAIL_MESSAGE\<close>); it is the only
  exception of this component, so the accessors return an \<open>option\<close> and \<open>None\<close> is the throw.
\<close>

section \<open>Values\<close>

datatype json =
    JNull
  | JInt int
  | JUInt int
  | JReal double
  | JStr string
  | JBool bool
  | JArr "(nat \<times> json) list"
  | JObj "(string \<times> json) list"

fun value_type :: "json \<Rightarrow> nat" where
  "value_type JNull = 0"
| "value_type (JInt _) = 1"
| "value_type (JUInt _) = 2"
| "value_type (JReal _) = 3"
| "value_type (JStr _) = 4"
| "value_type (JBool _) = 5"
| "value_type (JArr _) = 6"
| "value_type (JObj _) = 7"

definition minInt :: int where "minInt = - (2 ^ 31)"
definition maxInt :: int where "maxInt = 2 ^ 31 - 1"
definition maxUInt :: int where "maxUInt = 2 ^ 32 - 1"
definition minInt64 :: int where "minInt64 = - (2 ^ 63)"
definition maxInt64 :: int where "maxInt64 = 2 ^ 63 - 1"
definition maxUInt64 :: int where "maxUInt64 = 2 ^ 64 - 1"

lemmas int_limits = minInt_def maxInt_def maxUInt_def minInt64_def maxInt64_def maxUInt64_def

definition isNull :: "json \<Rightarrow> bool" where "isNull j \<longleftrightarrow> value_type j = 0"
definition isBool :: "json \<Rightarrow> bool" where "isBool j \<longleftrightarrow> value_type j = 5"
definition isString :: "json \<Rightarrow> bool" where "isString j \<longleftrightarrow> value_type j = 4"
definition isArray :: "json \<Rightarrow> bool" where "isArray j \<longleftrightarrow> value_type j = 6"
definition isObject :: "json \<Rightarrow> bool" where "isObject j \<longleftrightarrow> value_type j = 7"

text \<open>
  A double converted to an integer type is truncated towards zero. \<open>InRange\<close> compares the double
  with the limits converted to double, and the 64-bit limits round up to \<open>2 ^ 63\<close> and \<open>2 ^ 64\<close>;
  at exactly that value the C++ conversion is undefined, which the model leaves out.
\<close>

definition trunc :: "double \<Rightarrow> int" where
  "trunc x = (if x < 0 then - \<lfloor>- x\<rfloor> else \<lfloor>x\<rfloor>)"

definition InRange :: "double \<Rightarrow> int \<Rightarrow> int \<Rightarrow> bool" where
  "InRange d lo hi \<longleftrightarrow> of_int lo \<le> d \<and> d \<le> of_int hi"

section \<open>Printing numbers\<close>

function uintToString :: "int \<Rightarrow> string \<Rightarrow> string" where
  "uintToString n current =
     (let current' = char_of (n mod 10 + 48) # current
      in if 0 < n div 10 then uintToString (n div 10) current' else current')"
  by pat_completeness auto
termination
  by (relation "measure (nat \<circ> fst)") auto

declare uintToString.simps [simp del]

definition valueToString_uint :: "int \<Rightarrow> string" where
  "valueToString_uint n = uintToString n []"

definition valueToString_int :: "int \<Rightarrow> string" where
  "valueToString_int n = (if n < 0 then ''-'' @ uintToString (- n) [] else uintToString n [])"

text \<open>
  \<open>snprintf\<close> with \<open>%.pg\<close>: \<open>p\<close> significant digits, ties to even, trailing zeros dropped;
  fixed notation when the decimal exponent is between \<open>-4\<close> and \<open>p - 1\<close>.
\<close>

definition num_digits :: "int \<Rightarrow> nat" where
  "num_digits n = (if n = 0 then 0 else length (uintToString n []))"

definition dec_exponent :: "double \<Rightarrow> int" where
  "dec_exponent x = (if 1 \<le> x then int (num_digits \<lfloor>x\<rfloor>) - 1
     else - int (num_digits (\<lceil>1 / x\<rceil> - 1)))"

definition scale10 :: "double \<Rightarrow> int \<Rightarrow> double" where
  "scale10 x k = (if 0 \<le> k then x * 10 ^ nat k else x / 10 ^ nat (- k))"

definition round_even :: "double \<Rightarrow> int" where
  "round_even x = (let n = \<lfloor>x\<rfloor>; r = x - of_int n
     in if r < 1 / 2 then n else if 1 / 2 < r then n + 1 else if even n then n else n + 1)"

definition drop_trailing_zeros :: "string \<Rightarrow> string" where
  "drop_trailing_zeros s = rev (dropWhile (\<lambda>c. c = CHR ''0'') (rev s))"

definition with_fraction :: "string \<Rightarrow> string \<Rightarrow> string" where
  "with_fraction i f = (let f' = drop_trailing_zeros f in if f' = [] then i else i @ ''.'' @ f')"

definition printf_g :: "nat \<Rightarrow> double \<Rightarrow> string" where
  "printf_g p x = (if x = 0 then ''0'' else
     let sign = (if x < 0 then ''-'' else []); a = \<bar>x\<bar>; e0 = dec_exponent a;
         d0 = round_even (scale10 a (int p - 1 - e0));
         e = (if d0 = 10 ^ p then e0 + 1 else e0);
         d = (if d0 = 10 ^ p then 10 ^ (p - 1) else d0);
         ds = uintToString d []
     in sign @ (if e < -4 \<or> int p \<le> e then
            with_fraction (take 1 ds) (drop 1 ds) @ ''e'' @ (if e < 0 then ''-'' else ''+'') @
              (let es = uintToString \<bar>e\<bar> [] in if length es < 2 then ''0'' @ es else es)
          else if 0 \<le> e then with_fraction (take (Suc (nat e)) ds) (drop (Suc (nat e)) ds)
          else with_fraction ''0'' (replicate (nat (- e) - 1) (CHR ''0'') @ ds)))"

definition valueToString_double :: "double \<Rightarrow> string" where
  "valueToString_double x = printf_g 17 x"

section \<open>Conversions\<close>

fun asString :: "json \<Rightarrow> string option" where
  "asString JNull = Some ''''"
| "asString (JStr s) = Some s"
| "asString (JBool b) = Some (if b then ''true'' else ''false'')"
| "asString (JInt n) = Some (valueToString_int n)"
| "asString (JUInt n) = Some (valueToString_uint n)"
| "asString (JReal x) = Some (valueToString_double x)"
| "asString _ = None"

fun asInt :: "json \<Rightarrow> int option" where
  "asInt (JInt n) = (if minInt \<le> n \<and> n \<le> maxInt then Some n else None)"
| "asInt (JUInt n) = (if n \<le> maxInt then Some n else None)"
| "asInt (JReal x) = (if InRange x minInt maxInt then Some (trunc x) else None)"
| "asInt JNull = Some 0"
| "asInt (JBool b) = Some (if b then 1 else 0)"
| "asInt _ = None"

fun asInt64 :: "json \<Rightarrow> int option" where
  "asInt64 (JInt n) = Some n"
| "asInt64 (JUInt n) = (if n \<le> maxInt64 then Some n else None)"
| "asInt64 (JReal x) = (if InRange x minInt64 maxInt64 then Some (trunc x) else None)"
| "asInt64 JNull = Some 0"
| "asInt64 (JBool b) = Some (if b then 1 else 0)"
| "asInt64 _ = None"

fun asUInt64 :: "json \<Rightarrow> int option" where
  "asUInt64 (JInt n) = (if 0 \<le> n then Some n else None)"
| "asUInt64 (JUInt n) = Some n"
| "asUInt64 (JReal x) = (if InRange x 0 maxUInt64 then Some (trunc x) else None)"
| "asUInt64 JNull = Some 0"
| "asUInt64 (JBool b) = Some (if b then 1 else 0)"
| "asUInt64 _ = None"

fun asDouble :: "json \<Rightarrow> double option" where
  "asDouble (JInt n) = Some (of_int n)"
| "asDouble (JUInt n) = Some (of_int n)"
| "asDouble (JReal x) = Some x"
| "asDouble JNull = Some 0"
| "asDouble (JBool b) = Some (if b then 1 else 0)"
| "asDouble _ = None"

fun asBool :: "json \<Rightarrow> bool option" where
  "asBool (JBool b) = Some b"
| "asBool JNull = Some False"
| "asBool (JInt n) = Some (n \<noteq> 0)"
| "asBool (JUInt n) = Some (n \<noteq> 0)"
| "asBool (JReal x) = Some (x \<noteq> 0)"
| "asBool _ = None"

section \<open>Size, iteration and comparison\<close>

fun jsize :: "json \<Rightarrow> nat" where
  "jsize (JArr m) = (if m = [] then 0 else Suc (fst (last m)))"
| "jsize (JObj m) = length m"
| "jsize _ = 0"

definition jempty :: "json \<Rightarrow> bool" where
  "jempty j = (if isNull j \<or> isArray j \<or> isObject j then jsize j = 0 else False)"

fun elems :: "json \<Rightarrow> json list" where
  "elems (JArr m) = map snd m"
| "elems (JObj m) = map snd m"
| "elems _ = []"

fun getMemberNames :: "json \<Rightarrow> string list option" where
  "getMemberNames JNull = Some []"
| "getMemberNames (JObj m) = Some (keys m)"
| "getMemberNames _ = None"

definition json_eq :: "json \<Rightarrow> json \<Rightarrow> bool" where
  "json_eq a b \<longleftrightarrow> a = b"

text \<open>
  \<open>operator<\<close>: values of different types are ordered by type; arrays and objects by size, then
  lexicographically by their (key, value) pairs, as \<open>std::map\<close> compares.
\<close>

function json_less :: "json \<Rightarrow> json \<Rightarrow> bool"
  and arr_less :: "(nat \<times> json) list \<Rightarrow> (nat \<times> json) list \<Rightarrow> bool"
  and obj_less :: "(string \<times> json) list \<Rightarrow> (string \<times> json) list \<Rightarrow> bool" where
  "json_less x y =
     (if value_type x \<noteq> value_type y then value_type x < value_type y
      else case x of
        JNull \<Rightarrow> False
      | JInt a \<Rightarrow> (case y of JInt b \<Rightarrow> a < b | _ \<Rightarrow> False)
      | JUInt a \<Rightarrow> (case y of JUInt b \<Rightarrow> a < b | _ \<Rightarrow> False)
      | JReal a \<Rightarrow> (case y of JReal b \<Rightarrow> a < b | _ \<Rightarrow> False)
      | JBool a \<Rightarrow> (case y of JBool b \<Rightarrow> \<not> a \<and> b | _ \<Rightarrow> False)
      | JStr a \<Rightarrow> (case y of JStr b \<Rightarrow> a < b | _ \<Rightarrow> False)
      | JArr a \<Rightarrow> (case y of JArr b \<Rightarrow>
            if length a \<noteq> length b then length a < length b else arr_less a b | _ \<Rightarrow> False)
      | JObj a \<Rightarrow> (case y of JObj b \<Rightarrow>
            if length a \<noteq> length b then length a < length b else obj_less a b | _ \<Rightarrow> False))"
| "arr_less a b = (case a of
        [] \<Rightarrow> b \<noteq> []
      | (i, x) # a' \<Rightarrow> (case b of
          [] \<Rightarrow> False
        | (j, y) # b' \<Rightarrow>
            (if i < j \<or> (i = j \<and> json_less x y) then True
             else if j < i \<or> (i = j \<and> json_less y x) then False
             else arr_less a' b')))"
| "obj_less a b = (case a of
        [] \<Rightarrow> b \<noteq> []
      | (k, x) # a' \<Rightarrow> (case b of
          [] \<Rightarrow> False
        | (l, y) # b' \<Rightarrow>
            (if k < l \<or> (k = l \<and> json_less x y) then True
             else if l < k \<or> (k = l \<and> json_less y x) then False
             else obj_less a' b')))"
  by pat_completeness auto
termination
  by (relation "measure (case_sum (\<lambda>(a, b). size a + size b)
        (case_sum (\<lambda>(a, b). size_list (size_prod (\<lambda>_. 0) size) a + size_list (size_prod (\<lambda>_. 0) size) b)
                  (\<lambda>(a, b). size_list (size_prod (\<lambda>_. 0) size) a + size_list (size_prod (\<lambda>_. 0) size) b)))")
     auto

declare json_less.simps [simp del] arr_less.simps [simp del] obj_less.simps [simp del]

definition json_ge :: "json \<Rightarrow> json \<Rightarrow> bool" where
  "json_ge a b \<longleftrightarrow> \<not> json_less a b"

section \<open>Members and elements\<close>

text \<open>
  \<open>at_key\<close> and \<open>at_index\<close> are the const \<open>operator[]\<close>: a missing member, or any member of null, reads as
  null. \<open>ref_key\<close> and \<open>ref_index\<close> are the non-const ones, which turn null into a container and create
  a missing member as null; \<open>f\<close> is what the caller does through the reference it gets.
\<close>

definition or_null :: "json option \<Rightarrow> json" where
  "or_null x = (case x of None \<Rightarrow> JNull | Some v \<Rightarrow> v)"

fun at_key :: "json \<Rightarrow> string \<Rightarrow> json option" where
  "at_key JNull k = Some JNull"
| "at_key (JObj m) k = Some (or_null (map_of m k))"
| "at_key _ k = None"

fun at_index :: "json \<Rightarrow> nat \<Rightarrow> json option" where
  "at_index JNull i = Some JNull"
| "at_index (JArr m) i = Some (or_null (map_of m i))"
| "at_index _ i = None"

fun ref_key :: "string \<Rightarrow> (json \<Rightarrow> json option) \<Rightarrow> json \<Rightarrow> json option" where
  "ref_key k f JNull = map_option (\<lambda>v. JObj [(k, v)]) (f JNull)"
| "ref_key k f (JObj m) = map_option (\<lambda>v. JObj (put k v m)) (f (or_null (map_of m k)))"
| "ref_key k f _ = None"

fun ref_index :: "nat \<Rightarrow> (json \<Rightarrow> json option) \<Rightarrow> json \<Rightarrow> json option" where
  "ref_index i f JNull = map_option (\<lambda>v. JArr [(i, v)]) (f JNull)"
| "ref_index i f (JArr m) = map_option (\<lambda>v. JArr (put i v m)) (f (or_null (map_of m i)))"
| "ref_index i f _ = None"

text \<open>A chain of subscripts, \<open>j["a"]["b"][0]\<close>.\<close>

datatype sel = K string | I nat

fun jget :: "json \<Rightarrow> sel list \<Rightarrow> json option" where
  "jget j [] = Some j"
| "jget j (K k # p) = Option.bind (at_key j k) (\<lambda>v. jget v p)"
| "jget j (I i # p) = Option.bind (at_index j i) (\<lambda>v. jget v p)"

fun jref :: "sel list \<Rightarrow> (json \<Rightarrow> json option) \<Rightarrow> json \<Rightarrow> json option" where
  "jref [] f j = f j"
| "jref (K k # p) f j = ref_key k (jref p f) j"
| "jref (I i # p) f j = ref_index i (jref p f) j"

definition jset :: "sel list \<Rightarrow> json \<Rightarrow> json \<Rightarrow> json option" where
  "jset p v = jref p (\<lambda>_. Some v)"

definition append_j :: "json \<Rightarrow> json \<Rightarrow> json option" where
  "append_j v j = ref_index (jsize j) (\<lambda>_. Some v) j"

text \<open>The key-only forms, which are by far the most frequent.\<close>

definition getk :: "json \<Rightarrow> string list \<Rightarrow> json option" where
  "getk j ks = jget j (map K ks)"

definition setk :: "string list \<Rightarrow> json \<Rightarrow> json \<Rightarrow> json option" where
  "setk ks v = jset (map K ks) v"

fun isMember :: "json \<Rightarrow> string \<Rightarrow> bool option" where
  "isMember JNull k = Some False"
| "isMember (JObj m) k = Some (has_key m k)"
| "isMember _ k = None"

fun removeMember :: "string \<Rightarrow> json \<Rightarrow> json option" where
  "removeMember k JNull = Some JNull"
| "removeMember k (JObj m) = Some (JObj (erase k m))"
| "removeMember k _ = None"

fun get_default :: "json \<Rightarrow> string \<Rightarrow> json \<Rightarrow> json option" where
  "get_default JNull k d = Some d"
| "get_default (JObj m) k d = Some (case map_of m k of None \<Rightarrow> d | Some v \<Rightarrow> v)"
| "get_default _ k d = None"

fun clear_j :: "json \<Rightarrow> json option" where
  "clear_j JNull = Some JNull"
| "clear_j (JArr _) = Some (JArr [])"
| "clear_j (JObj _) = Some (JObj [])"
| "clear_j _ = None"

text \<open>Documents written down member by member and arrays appended element by element.\<close>

definition jobj :: "(string \<times> json) list \<Rightarrow> json" where
  "jobj kvs = JObj (foldl (\<lambda>m (k, v). put k v m) [] kvs)"

definition jarr :: "json list \<Rightarrow> json" where
  "jarr vs = JArr (zip [0..<length vs] vs)"

text \<open>\<open>json_wf\<close>: every container of the value keeps its keys in strictly ascending order.\<close>

fun json_wf :: "json \<Rightarrow> bool" where
  "json_wf (JArr m) \<longleftrightarrow> map_ok m \<and> list_all (\<lambda>e. json_wf (snd e)) m"
| "json_wf (JObj m) \<longleftrightarrow> map_ok m \<and> list_all (\<lambda>e. json_wf (snd e)) m"
| "json_wf _ \<longleftrightarrow> True"

section \<open>Laws\<close>

lemma or_null_simps [simp]: "or_null None = JNull" "or_null (Some v) = v"
  by (simp_all add: or_null_def)

lemma jobj_simps [simp]:
  "jobj [] = JObj []"
  "jobj ((k, v) # kvs) = JObj (foldl (\<lambda>m (k, v). put k v m) [(k, v)] kvs)"
  by (simp_all add: jobj_def)

text \<open>
  One subscript as a field: what a container promises about the member a subscript writes and the
  members it leaves alone. Object members and array elements are the two instances.
\<close>

locale json_field =
  fixes get :: "json \<Rightarrow> 'k \<Rightarrow> json option"
    and ref :: "'k \<Rightarrow> (json \<Rightarrow> json option) \<Rightarrow> json \<Rightarrow> json option"
  assumes get_ref_same: "ref k f j = Some j' \<Longrightarrow> \<exists>v w. get j k = Some v \<and> f v = Some w \<and> get j' k = Some w"
    and get_ref_other: "ref k f j = Some j' \<Longrightarrow> k' \<noteq> k \<Longrightarrow> get j' k' = get j k'"
    and ref_defined: "ref k f j \<noteq> None \<longleftrightarrow> (\<exists>v. get j k = Some v \<and> f v \<noteq> None)"
    and ref_wf: "ref k f j = Some j' \<Longrightarrow> json_wf j \<Longrightarrow>
      (\<And>v w. json_wf v \<Longrightarrow> f v = Some w \<Longrightarrow> json_wf w) \<Longrightarrow> json_wf j'"
begin

lemma write_read: "ref k (\<lambda>_. Some v) j = Some j' \<Longrightarrow> get j' k = Some v"
  using get_ref_same by fastforce

lemma write_defined: "ref k (\<lambda>_. Some v) j \<noteq> None \<longleftrightarrow> get j k \<noteq> None"
  using ref_defined by auto

lemma write_wf: "ref k (\<lambda>_. Some v) j = Some j' \<Longrightarrow> json_wf j \<Longrightarrow> json_wf v \<Longrightarrow> json_wf j'"
  using ref_wf by fastforce

end

lemma json_wf_put:
  "map_ok m \<Longrightarrow> list_all (\<lambda>e. json_wf (snd e)) m \<Longrightarrow> json_wf v \<Longrightarrow> list_all (\<lambda>e. json_wf (snd e)) (put k v m)"
  by (induction k v m rule: put.induct) auto

lemma json_wf_or_null: "list_all (\<lambda>e. json_wf (snd e)) m \<Longrightarrow> json_wf (or_null (map_of m k))"
  by (induction m) auto

interpretation key: json_field at_key ref_key
proof unfold_locales
  fix k f j j' assume r: "ref_key k f j = Some j'"
  show "\<exists>v w. at_key j k = Some v \<and> f v = Some w \<and> at_key j' k = Some w"
    using r by (cases j) auto
  show "at_key j' k' = at_key j k'" if "k' \<noteq> k" for k'
    using r that by (cases j) auto
  show "json_wf j'" if "json_wf j" and "\<And>v w. json_wf v \<Longrightarrow> f v = Some w \<Longrightarrow> json_wf w"
    using r that(1)
    by (cases j) (auto intro!: json_wf_put intro: that(2) [OF json_wf_or_null] that(2) [of JNull, simplified])
next
  fix k f j
  show "ref_key k f j \<noteq> None \<longleftrightarrow> (\<exists>v. at_key j k = Some v \<and> f v \<noteq> None)"
    by (cases j) auto
qed

interpretation idx: json_field at_index ref_index
proof unfold_locales
  fix k f j j' assume r: "ref_index k f j = Some j'"
  show "\<exists>v w. at_index j k = Some v \<and> f v = Some w \<and> at_index j' k = Some w"
    using r by (cases j) auto
  show "at_index j' k' = at_index j k'" if "k' \<noteq> k" for k'
    using r that by (cases j) auto
  show "json_wf j'" if "json_wf j" and "\<And>v w. json_wf v \<Longrightarrow> f v = Some w \<Longrightarrow> json_wf w"
    using r that(1)
    by (cases j) (auto intro!: json_wf_put intro: that(2) [OF json_wf_or_null] that(2) [of JNull, simplified])
next
  fix k f j
  show "ref_index k f j \<noteq> None \<longleftrightarrow> (\<exists>v. at_index j k = Some v \<and> f v \<noteq> None)"
    by (cases j) auto
qed

lemma jget_append: "jget j (p @ q) = Option.bind (jget j p) (\<lambda>v. jget v q)"
  by (induction j p rule: jget.induct) (auto split: Option.bind_splits)

lemma jget_jset: "jset p v j = Some j' \<Longrightarrow> jget j' p = Some v"
  unfolding jset_def
proof (induction p arbitrary: j j')
  case (Cons s p)
  then show ?case
    by (cases s) (auto dest!: key.get_ref_same idx.get_ref_same)
qed simp

fun sel_kind :: "sel \<Rightarrow> bool" where
  "sel_kind (K _) = True"
| "sel_kind (I _) = False"

text \<open>Writing at one path leaves every path that branches off it unchanged.\<close>

lemma jget_jset_other:
  assumes "jset (p @ a # q) v j = Some j'" and "a \<noteq> b" and "sel_kind a = sel_kind b"
  shows "jget j' (p @ b # r) = jget j (p @ b # r)"
  using assms unfolding jset_def
proof (induction p arbitrary: j j')
  case Nil
  then show ?case
    by (cases a; cases b) (auto simp: key.get_ref_other idx.get_ref_other)
next
  case (Cons s p)
  then show ?case
    by (cases s) (auto dest!: key.get_ref_same idx.get_ref_same)
qed

lemma jset_wf: "jset p v j = Some j' \<Longrightarrow> json_wf j \<Longrightarrow> json_wf v \<Longrightarrow> json_wf j'"
  unfolding jset_def
proof (induction p arbitrary: j j')
  case (Cons s p)
  then show ?case
    by (cases s) (auto intro: key.ref_wf idx.ref_wf)
qed simp

lemma jset_defined: "jset p v j \<noteq> None \<longleftrightarrow> jget j p \<noteq> None"
  unfolding jset_def
proof (induction p arbitrary: j)
  case (Cons s p)
  then show ?case
    using key.ref_defined [of _ _ j] idx.ref_defined [of _ _ j]
    by (cases s) (auto split: Option.bind_splits)
qed simp

lemma getk_simps [simp]:
  "getk j [] = Some j"
  "getk j (k # ks) = Option.bind (at_key j k) (\<lambda>v. getk v ks)"
  by (simp_all add: getk_def)

lemma setk_simps [simp]:
  "setk [] v j = Some v"
  "setk (k # ks) v j = ref_key k (setk ks v) j"
  by (simp_all add: setk_def jset_def)

lemma elems_jarr [simp]: "elems (jarr vs) = vs"
  by (simp add: jarr_def)

lemma jsize_jarr [simp]: "jsize (jarr vs) = length vs"
  by (cases vs rule: rev_cases) (auto simp: jarr_def)

lemma map_ok_zip: "map_ok (zip [m..<n] vs)"
proof (induction vs arbitrary: m)
  case (Cons v vs)
  show ?case
  proof (cases "m < n")
    case True
    then show ?thesis
      using Cons [of "Suc m"] by (auto simp: upt_rec [of m n] keys_def dest: set_zip_leftD)
  qed simp
qed simp

text \<open>Reading a document that was written member by member: the last write of a member counts.\<close>

lemma map_of_writes: "map_of (foldl (\<lambda>m (k, v). put k v m) m kvs) = map_of m ++ map_of (rev kvs)"
proof (induction kvs arbitrary: m)
  case (Cons kv kvs)
  then show ?case by (cases kv) (simp add: fun_eq_iff map_add_def split: option.splits)
qed simp

lemma at_key_jobj: "at_key (jobj kvs) k = Some (or_null (map_of (rev kvs) k))"
  by (simp add: jobj_def map_of_writes)

text \<open>With these, a run on documents is evaluated without sorting their members.\<close>

lemma ref_key_jobj:
  "ref_key k f (jobj kvs) = map_option (\<lambda>v. jobj (kvs @ [(k, v)])) (f (or_null (map_of (rev kvs) k)))"
  by (simp add: jobj_def map_of_writes)

lemma isMember_jobj: "isMember (jobj kvs) k = Some (map_of (rev kvs) k \<noteq> None)"
  by (simp add: jobj_def map_of_writes has_key_def)

lemmas jobj_reads = at_key_jobj ref_key_jobj isMember_jobj

lemma put_snoc: "\<forall>k' \<in> set (keys m). k' < k \<Longrightarrow> put k v m = m @ [(k, v)]"
  by (induction m) auto

lemma append_jarr [simp]: "append_j v (jarr vs) = Some (jarr (vs @ [v]))"
proof -
  have "put (length vs) v (zip [0..<length vs] vs) = zip [0..<length vs] vs @ [(length vs, v)]"
    by (rule put_snoc) (auto simp: keys_def)
  then have "Some (JArr (put (length vs) v (zip [0..<length vs] vs))) = Some (jarr (vs @ [v]))"
    by (simp add: jarr_def)
  moreover have "append_j v (jarr vs) = Some (JArr (put (length vs) v (zip [0..<length vs] vs)))"
    unfolding append_j_def jsize_jarr by (simp add: jarr_def)
  ultimately show ?thesis by simp
qed

end
