(* ===== verification/Resource_Graph.thy ===== *)
theory Resource_Graph
  imports Job_Manager Json_Value
begin

text \<open>
  The resource graph of \<open>src/server/resourcegraph.h\<close> and \<open>src/server/resourcegraph.cc\<close>: storage nodes,
  DTN nodes, general nodes (gateway, launcher, SDN agent) and the directed edges between them, each
  with a capacity and the jobs that run on it.

  The four \<open>std::map\<close>s of \<open>RGraph\<close> are ordered maps here. A pointer is the key of what it points to:
  an \<open>REdge *\<close> is a key of \<open>edges\<close>, an \<open>RNode *\<close> is a \<open>node_ptr\<close> that says which of the three node maps
  it points into, a \<open>BaseJob *\<close> is a key of the job manager. Following a pointer whose target has been
  erased is \<open>Undefined\<close>. The guid of a new edge is an argument.
\<close>

section \<open>Nodes and edges\<close>

datatype StorageType = ST_internal | ST_cluster

datatype node_ptr = PStorage string | PDtn string | PGeneral string

record rbase =
  rid :: string
  rname :: string
  rqueue :: string
  properties :: json
  capacity :: double
  connected :: bool
  rjobs :: "(string, string) stdmap"

record rnode = rbase +
  in_edges :: "string list"
  out_edges :: "string list"

record redge = rbase +
  src_node :: "node_ptr option"
  dst_node :: "node_ptr option"

record storage_node = rnode +
  st :: StorageType
  root_folder :: string
  p_dtn :: "string option"

record dtn_node = rnode +
  ctrl_ip :: string

record rgraph =
  s_nodes :: "(string, storage_node) stdmap"
  dtn_nodes :: "(string, dtn_node) stdmap"
  general_nodes :: "(string, rnode) stdmap"
  edges :: "(string, redge) stdmap"

definition RNode :: "string \<Rightarrow> string \<Rightarrow> double \<Rightarrow> rnode" where
  "RNode i n cap = \<lparr>rid = i, rname = n, rqueue = [], properties = JNull, capacity = cap, connected = False,
     rjobs = [], in_edges = [], out_edges = []\<rparr>"

definition REdge :: "string \<Rightarrow> double \<Rightarrow> redge" where
  "REdge g cap = \<lparr>rid = g, rname = [], rqueue = [], properties = JNull, capacity = cap, connected = False,
     rjobs = [], src_node = None, dst_node = None\<rparr>"

definition StorageNode :: "string \<Rightarrow> string \<Rightarrow> StorageType \<Rightarrow> double \<Rightarrow> storage_node" where
  "StorageNode i n t cap = rnode.extend (RNode i n cap) (storage_node.fields t ''/'' None)"

definition DTNNode :: "string \<Rightarrow> string \<Rightarrow> double \<Rightarrow> dtn_node" where
  "DTNNode i n cap = rnode.extend (RNode i n cap) (dtn_node.fields [])"

section \<open>Jobs on a resource\<close>

text \<open>The jobs a resource points to, in the order of \<open>jobs_\<close>, each with the key it is stored under.\<close>

definition jobs_on :: "jobmanager \<Rightarrow> 'a rbase_scheme \<Rightarrow> (string \<times> basejob) list" where
  "jobs_on jm r = List.map_filter (\<lambda>(_, p). map_option (Pair p) (map_of (basic_jobs jm) p)) (rjobs r)"

definition find_job :: "jobmanager \<Rightarrow> 'a rbase_scheme \<Rightarrow> string \<Rightarrow> (exn, string) result" where
  "find_job jm r i = opt_r (Runtime_error ''job not found in this node/edge'') (map_of (rjobs r) i)"

definition pick_larger :: "(string \<times> basejob) \<Rightarrow> double \<times> string option \<Rightarrow> double \<times> string option" where
  "pick_larger = (\<lambda>(p, job) (largest_rate, largest_job).
     if job_group job = JG_extra \<and> job_state job = JS_running \<and> largest_rate < job_rate job
     then (job_rate job, Some p) else (largest_rate, largest_job))"

definition find_largest_re_job :: "jobmanager \<Rightarrow> 'a rbase_scheme \<Rightarrow> (exn, string) result" where
  "find_largest_re_job jm r =
     (if rjobs r = [] then Inl (Runtime_error ''find_largest_re_job: no job on this node.'')
      else opt_r (Runtime_error ''find_largest_re_job: all job rate < -1.0?'')
        (snd (fold pick_larger (jobs_on jm r) (- 1, None))))"

definition add_job :: "basejob \<Rightarrow> 'a rbase_scheme \<Rightarrow> 'a rbase_scheme" where
  "add_job j r = r\<lparr>rjobs := emplace (job_id j) (job_id j) (rjobs r)\<rparr>"

definition del_job :: "string \<Rightarrow> 'a rbase_scheme \<Rightarrow> 'a rbase_scheme" where
  "del_job i r = r\<lparr>rjobs := erase i (rjobs r)\<rparr>"

definition sum_re :: "jobmanager \<Rightarrow> 'a rbase_scheme \<Rightarrow> double" where
  "sum_re jm r = fold (\<lambda>(_, job) sum.
     if job_state job = JS_running \<and> job_group job = JG_extra then sum + job_rate job else sum) (jobs_on jm r) 0"

definition sum_rb :: "jobmanager \<Rightarrow> 'a rbase_scheme \<Rightarrow> double" where
  "sum_rb jm r = fold (\<lambda>(_, job) sum.
     if job_state job = JS_running \<and> job_group job = JG_base then sum + job_rate job else sum) (jobs_on jm r) 0"

definition available_rate :: "jobmanager \<Rightarrow> 'a rbase_scheme \<Rightarrow> double" where
  "available_rate jm r = capacity r - sum_re jm r - sum_rb jm r"

section \<open>Edge lists of a node\<close>

definition add_in_edge :: "string \<Rightarrow> 'a rnode_scheme \<Rightarrow> 'a rnode_scheme" where
  "add_in_edge e n = n\<lparr>in_edges := in_edges n @ [e], connected := True\<rparr>"

definition add_out_edge :: "string \<Rightarrow> 'a rnode_scheme \<Rightarrow> 'a rnode_scheme" where
  "add_out_edge e n = n\<lparr>out_edges := out_edges n @ [e], connected := True\<rparr>"

text \<open>The loops erase the first entry with that id and stop.\<close>

definition del_in_edge :: "string \<Rightarrow> 'a rnode_scheme \<Rightarrow> 'a rnode_scheme" where
  "del_in_edge e n = n\<lparr>in_edges := remove1 e (in_edges n)\<rparr>"

definition del_out_edge :: "string \<Rightarrow> 'a rnode_scheme \<Rightarrow> 'a rnode_scheme" where
  "del_out_edge e n = n\<lparr>out_edges := remove1 e (out_edges n)\<rparr>"

text \<open>Following an \<open>RNode *\<close>.\<close>

definition node_at :: "rgraph \<Rightarrow> node_ptr \<Rightarrow> rnode option" where
  "node_at g p = (case p of
     PStorage k \<Rightarrow> map_option rnode.truncate (map_of (s_nodes g) k)
   | PDtn k \<Rightarrow> map_option rnode.truncate (map_of (dtn_nodes g) k)
   | PGeneral k \<Rightarrow> map_of (general_nodes g) k)"

definition node_add_in :: "node_ptr \<Rightarrow> string \<Rightarrow> rgraph \<Rightarrow> rgraph" where
  "node_add_in p e g = (case p of
     PStorage k \<Rightarrow> g\<lparr>s_nodes := adjust k (add_in_edge e) (s_nodes g)\<rparr>
   | PDtn k \<Rightarrow> g\<lparr>dtn_nodes := adjust k (add_in_edge e) (dtn_nodes g)\<rparr>
   | PGeneral k \<Rightarrow> g\<lparr>general_nodes := adjust k (add_in_edge e) (general_nodes g)\<rparr>)"

definition node_add_out :: "node_ptr \<Rightarrow> string \<Rightarrow> rgraph \<Rightarrow> rgraph" where
  "node_add_out p e g = (case p of
     PStorage k \<Rightarrow> g\<lparr>s_nodes := adjust k (add_out_edge e) (s_nodes g)\<rparr>
   | PDtn k \<Rightarrow> g\<lparr>dtn_nodes := adjust k (add_out_edge e) (dtn_nodes g)\<rparr>
   | PGeneral k \<Rightarrow> g\<lparr>general_nodes := adjust k (add_out_edge e) (general_nodes g)\<rparr>)"

definition node_del_in :: "node_ptr \<Rightarrow> string \<Rightarrow> rgraph \<Rightarrow> rgraph" where
  "node_del_in p e g = (case p of
     PStorage k \<Rightarrow> g\<lparr>s_nodes := adjust k (del_in_edge e) (s_nodes g)\<rparr>
   | PDtn k \<Rightarrow> g\<lparr>dtn_nodes := adjust k (del_in_edge e) (dtn_nodes g)\<rparr>
   | PGeneral k \<Rightarrow> g\<lparr>general_nodes := adjust k (del_in_edge e) (general_nodes g)\<rparr>)"

definition node_del_out :: "node_ptr \<Rightarrow> string \<Rightarrow> rgraph \<Rightarrow> rgraph" where
  "node_del_out p e g = (case p of
     PStorage k \<Rightarrow> g\<lparr>s_nodes := adjust k (del_out_edge e) (s_nodes g)\<rparr>
   | PDtn k \<Rightarrow> g\<lparr>dtn_nodes := adjust k (del_out_edge e) (dtn_nodes g)\<rparr>
   | PGeneral k \<Rightarrow> g\<lparr>general_nodes := adjust k (del_out_edge e) (general_nodes g)\<rparr>)"

section \<open>The graph\<close>

definition RGraph :: rgraph where
  "RGraph = \<lparr>s_nodes = [], dtn_nodes = [], general_nodes = [], edges = []\<rparr>"

definition gateway_id :: string where "gateway_id = ''RGRAPH_ID_GATEWAY''"
definition launcher_id :: string where "launcher_id = ''RGRAPH_ID_LAUNCHER''"
definition sdn_id :: string where "sdn_id = ''RGRAPH_ID_SDN''"

lemmas special_ids = gateway_id_def launcher_id_def sdn_id_def

definition has_storage_node :: "rgraph \<Rightarrow> string \<Rightarrow> bool" where
  "has_storage_node g i \<longleftrightarrow> has_key (s_nodes g) i"

definition has_dtn_node :: "rgraph \<Rightarrow> string \<Rightarrow> bool" where
  "has_dtn_node g i \<longleftrightarrow> has_key (dtn_nodes g) i"

definition has_general_node :: "rgraph \<Rightarrow> string \<Rightarrow> bool" where
  "has_general_node g i \<longleftrightarrow> has_key (general_nodes g) i"

definition has_node :: "rgraph \<Rightarrow> string \<Rightarrow> bool" where
  "has_node g i \<longleftrightarrow> has_storage_node g i \<or> has_dtn_node g i \<or> has_general_node g i"

definition has_gateway :: "rgraph \<Rightarrow> bool" where "has_gateway g = has_general_node g gateway_id"
definition has_launcher :: "rgraph \<Rightarrow> bool" where "has_launcher g = has_general_node g launcher_id"
definition has_sdn :: "rgraph \<Rightarrow> bool" where "has_sdn g = has_general_node g sdn_id"

definition ptr_rid :: "rgraph \<Rightarrow> node_ptr option \<Rightarrow> (exn, string) result" where
  "ptr_rid g p = (case p of None \<Rightarrow> Inl Undefined | Some p \<Rightarrow> opt_r Undefined (map_option rid (node_at g p)))"

definition edge_matches :: "rgraph \<Rightarrow> string \<Rightarrow> string \<Rightarrow> redge \<Rightarrow> (exn, bool) result" where
  "edge_matches g s d e = bind_r (ptr_rid g (src_node e)) (\<lambda>rs.
     if rs = s then bind_r (ptr_rid g (dst_node e)) (\<lambda>rd. Inr (rd = d)) else Inr False)"

text \<open>The scan shared by \<open>has_edge\<close> and \<open>get_edge\<close>: the key of the first edge in key order that matches.\<close>

fun scan_edges :: "rgraph \<Rightarrow> string \<Rightarrow> string \<Rightarrow> (string, redge) stdmap \<Rightarrow> (exn, string option) result" where
  "scan_edges g s d [] = Inr None"
| "scan_edges g s d ((k, e) # es) = bind_r (edge_matches g s d e) (\<lambda>b. if b then Inr (Some k) else scan_edges g s d es)"

definition has_edge :: "rgraph \<Rightarrow> string \<Rightarrow> string \<Rightarrow> (exn, bool) result" where
  "has_edge g s d = bind_r (scan_edges g s d (edges g)) (\<lambda>k. Inr (k \<noteq> None))"

definition get_edge :: "rgraph \<Rightarrow> string \<Rightarrow> string \<Rightarrow> (exn, string) result" where
  "get_edge g s d = bind_r (scan_edges g s d (edges g))
     (opt_r (Runtime_error (''edge not found. from id: '' @ s @ '', to id: '' @ d)))"

definition get_storage_node :: "rgraph \<Rightarrow> string \<Rightarrow> (exn, storage_node) result" where
  "get_storage_node g i = opt_r (Runtime_error (''storage node not found. id: '' @ i)) (map_of (s_nodes g) i)"

definition get_dtn_node :: "rgraph \<Rightarrow> string \<Rightarrow> (exn, dtn_node) result" where
  "get_dtn_node g i = opt_r (Runtime_error (''dtn node not found. id: '' @ i)) (map_of (dtn_nodes g) i)"

definition get_general_node :: "rgraph \<Rightarrow> string \<Rightarrow> (exn, rnode) result" where
  "get_general_node g i = opt_r (Runtime_error (''general node not found. id: '' @ i)) (map_of (general_nodes g) i)"

text \<open>\<open>get_node\<close> returns an \<open>RNode &\<close>: which node, as a pointer.\<close>

definition get_node :: "rgraph \<Rightarrow> string \<Rightarrow> (exn, node_ptr) result" where
  "get_node g i =
     (if has_storage_node g i then Inr (PStorage i)
      else if has_dtn_node g i then Inr (PDtn i)
      else if has_general_node g i then Inr (PGeneral i)
      else Inl (Runtime_error (''node not fund. id: '' @ i)))"

definition get_gateway :: "rgraph \<Rightarrow> (exn, rnode) result" where
  "get_gateway g = (if \<not> has_gateway g then Inl (Runtime_error ''gateway node not registered'')
     else get_general_node g gateway_id)"

definition get_launcher :: "rgraph \<Rightarrow> (exn, rnode) result" where
  "get_launcher g = (if \<not> has_launcher g then Inl (Runtime_error ''launcher node not registered'')
     else get_general_node g launcher_id)"

definition get_sdn :: "rgraph \<Rightarrow> (exn, rnode) result" where
  "get_sdn g = (if \<not> has_sdn g then Inl (Runtime_error ''sdn node not registered'')
     else get_general_node g sdn_id)"

definition add_storage_node :: "string \<Rightarrow> string \<Rightarrow> StorageType \<Rightarrow> double \<Rightarrow> rgraph \<Rightarrow> rgraph" where
  "add_storage_node i n t cap g = g\<lparr>s_nodes := emplace i (StorageNode i n t cap) (s_nodes g)\<rparr>"

definition add_dtn_node :: "string \<Rightarrow> string \<Rightarrow> double \<Rightarrow> rgraph \<Rightarrow> rgraph" where
  "add_dtn_node i n cap g = g\<lparr>dtn_nodes := emplace i (DTNNode i n cap) (dtn_nodes g)\<rparr>"

definition add_general_node :: "string \<Rightarrow> string \<Rightarrow> string \<Rightarrow> double \<Rightarrow> rgraph \<Rightarrow> rgraph" where
  "add_general_node i r n cap g = g\<lparr>general_nodes := emplace i (RNode r n cap) (general_nodes g)\<rparr>"

definition add_gateway :: "rgraph \<Rightarrow> rgraph" where
  "add_gateway = add_general_node gateway_id ''gateway'' ''Gateway'' 0"

definition set_general_queue :: "string \<Rightarrow> string \<Rightarrow> rgraph \<Rightarrow> rgraph" where
  "set_general_queue i q g = g\<lparr>general_nodes := adjust i (\<lambda>n. n\<lparr>rqueue := q\<rparr>) (general_nodes g)\<rparr>"

definition add_launcher :: "string \<Rightarrow> string \<Rightarrow> rgraph \<Rightarrow> rgraph" where
  "add_launcher r q g = set_general_queue launcher_id q (add_general_node launcher_id r ''Launcher Agent'' 0 g)"

definition add_sdn :: "string \<Rightarrow> string \<Rightarrow> rgraph \<Rightarrow> rgraph" where
  "add_sdn r q g = set_general_queue sdn_id q (add_general_node sdn_id r ''SDN Agent'' 0 g)"

definition connect :: "string \<Rightarrow> node_ptr \<Rightarrow> node_ptr \<Rightarrow> rgraph \<Rightarrow> rgraph" where
  "connect e s d g = node_add_in d e (node_add_out s e
     (g\<lparr>edges := adjust e (\<lambda>r. r\<lparr>src_node := Some s, dst_node := Some d, connected := True\<rparr>) (edges g)\<rparr>))"

text \<open>
  \<open>add_edge\<close> with \<open>uid\<close> the guid the constructor of \<open>REdge\<close> draws. An edge that is already there is left
  alone. The source ends without a \<open>return\<close> statement after \<open>connect\<close>, which is undefined for a function that returns a
  reference. This is the one place where undefined behaviour is not \<open>Undefined\<close> here: no caller uses the
  reference, and the definition is what the code does when it is compiled so that control goes back to the caller.
\<close>

definition add_edge :: "string \<Rightarrow> string \<Rightarrow> string \<Rightarrow> double \<Rightarrow> rgraph \<Rightarrow> (exn, rgraph) result" where
  "add_edge uid s d cap g = bind_r (has_edge g s d) (\<lambda>present.
     if present then Inr g
     else bind_r (get_node g s) (\<lambda>sp. bind_r (get_node g d) (\<lambda>dp.
       Inr (connect uid sp dp (g\<lparr>edges := emplace uid (REdge uid cap) (edges g)\<rparr>)))))"

definition add_edge_to_gateway :: "string \<Rightarrow> string \<Rightarrow> double \<Rightarrow> rgraph \<Rightarrow> (exn, rgraph) result" where
  "add_edge_to_gateway uid s cap g =
     (if \<not> has_dtn_node g s
      then Inl (Runtime_error (''node '' @ s @ '' does not exist, or is not registered as a DTN node''))
      else add_edge uid s gateway_id cap g)"

text \<open>One round of each erasing loop of \<open>del_node\<close>, then the whole.\<close>

definition erase_in_edge :: "string \<Rightarrow> rgraph \<Rightarrow> (exn, rgraph) result" where
  "erase_in_edge e g = (case map_of (edges g) e of
     None \<Rightarrow> Inl Undefined
   | Some r \<Rightarrow> (case src_node r of
       None \<Rightarrow> Inl Undefined
     | Some p \<Rightarrow> if node_at g p = None then Inl Undefined
         else Inr ((node_del_out p (rid r) g)\<lparr>edges := erase (rid r) (edges g)\<rparr>)))"

definition erase_out_edge :: "string \<Rightarrow> rgraph \<Rightarrow> (exn, rgraph) result" where
  "erase_out_edge e g = (case map_of (edges g) e of
     None \<Rightarrow> Inl Undefined
   | Some r \<Rightarrow> (case dst_node r of
       None \<Rightarrow> Inl Undefined
     | Some p \<Rightarrow> if node_at g p = None then Inl Undefined
         else Inr ((node_del_in p (rid r) g)\<lparr>edges := erase (rid r) (edges g)\<rparr>)))"

definition ins :: "rgraph \<Rightarrow> node_ptr \<Rightarrow> string list" where
  "ins g p = (case node_at g p of None \<Rightarrow> [] | Some n \<Rightarrow> in_edges n)"

definition outs :: "rgraph \<Rightarrow> node_ptr \<Rightarrow> string list" where
  "outs g p = (case node_at g p of None \<Rightarrow> [] | Some n \<Rightarrow> out_edges n)"

definition erase_node :: "string \<Rightarrow> rgraph \<Rightarrow> rgraph" where
  "erase_node i g =
     (if has_storage_node g i then g\<lparr>s_nodes := erase i (s_nodes g)\<rparr>
      else if has_dtn_node g i then g\<lparr>dtn_nodes := erase i (dtn_nodes g)\<rparr>
      else g\<lparr>general_nodes := erase i (general_nodes g)\<rparr>)"

definition special_node_id :: "rgraph \<Rightarrow> string \<Rightarrow> string option" where
  "special_node_id g i =
     (if has_node g i then Some i
      else case map_of (general_nodes g) launcher_id of
        Some l \<Rightarrow> if i = rid l then Some launcher_id
          else (case map_of (general_nodes g) sdn_id of
            Some s \<Rightarrow> if i = rid s then Some sdn_id else None | None \<Rightarrow> None)
      | None \<Rightarrow> (case map_of (general_nodes g) sdn_id of
            Some s \<Rightarrow> if i = rid s then Some sdn_id else None | None \<Rightarrow> None))"

definition del_node :: "string \<Rightarrow> rgraph \<Rightarrow> (exn, rgraph) result" where
  "del_node i g =
     (if i = ''gateway'' then Inl (Runtime_error ''not allowed to delete the gateway node'')
      else case special_node_id g i of
        None \<Rightarrow> Inr g
      | Some nid \<Rightarrow>
          bind_r (get_node g nid) (\<lambda>p.
          bind_r (fold_r erase_in_edge (ins g p) g) (\<lambda>g1.
          bind_r (fold_r erase_out_edge (outs g1 p) g1) (\<lambda>g2.
          Inr (erase_node nid g2)))))"

definition del_launcher :: "rgraph \<Rightarrow> (exn, rgraph) result" where
  "del_launcher g = (if \<not> has_launcher g then Inr g else del_node launcher_id g)"

definition del_sdn :: "rgraph \<Rightarrow> (exn, rgraph) result" where
  "del_sdn g = (if \<not> has_sdn g then Inr g else del_node sdn_id g)"

definition reset :: "rgraph \<Rightarrow> rgraph" where
  "reset g = g\<lparr>s_nodes := [], dtn_nodes := [], general_nodes := [], edges := []\<rparr>"

definition set_one_dtn_node :: "string \<Rightarrow> string \<Rightarrow> rgraph \<Rightarrow> rgraph" where
  "set_one_dtn_node s d g = g\<lparr>s_nodes := adjust s (\<lambda>n. n\<lparr>p_dtn := Some d\<rparr>) (s_nodes g)\<rparr>"

text \<open>\<open>get_one_dtn_node\<close> follows a pointer that \<open>del_node\<close> does not clear.\<close>

definition get_one_dtn_node :: "rgraph \<Rightarrow> storage_node \<Rightarrow> (exn, dtn_node) result" where
  "get_one_dtn_node g s = (case p_dtn s of
     None \<Rightarrow> Inl (Runtime_error ''no associated dtn node with this storage'')
   | Some d \<Rightarrow> opt_r Undefined (map_of (dtn_nodes g) d))"

lemmas graph_exec [exec] =
  add_storage_node_def add_dtn_node_def add_gateway_def add_general_node_def RGraph_def StorageNode_def DTNNode_def
  RNode_def REdge_def add_edge_def add_edge_to_gateway_def has_edge_def has_dtn_node_def has_storage_node_def
  has_general_node_def get_node_def connect_def node_add_in_def node_add_out_def add_in_edge_def add_out_edge_def
  edge_matches_def ptr_rid_def get_storage_node_def get_dtn_node_def get_general_node_def set_one_dtn_node_def
  has_key_def rnode.defs storage_node.defs dtn_node.defs jobs_on_def sum_re_def sum_rb_def available_rate_def
  find_largest_re_job_def pick_larger_def List.map_filter_simps

section \<open>Following the edge lists\<close>

lemma truncate_edges [simp]:
  "rnode.truncate (add_in_edge e n) = add_in_edge e (rnode.truncate n)"
  "rnode.truncate (add_out_edge e n) = add_out_edge e (rnode.truncate n)"
  "rnode.truncate (del_in_edge e n) = del_in_edge e (rnode.truncate n)"
  "rnode.truncate (del_out_edge e n) = del_out_edge e (rnode.truncate n)"
  by (simp_all add: rnode.defs add_in_edge_def add_out_edge_def del_in_edge_def del_out_edge_def)

lemma edge_fields [simp]:
  "in_edges (add_in_edge e n) = in_edges n @ [e]" "out_edges (add_in_edge e n) = out_edges n"
  "in_edges (add_out_edge e n) = in_edges n" "out_edges (add_out_edge e n) = out_edges n @ [e]"
  "in_edges (del_in_edge e n) = remove1 e (in_edges n)" "out_edges (del_in_edge e n) = out_edges n"
  "in_edges (del_out_edge e n) = in_edges n" "out_edges (del_out_edge e n) = remove1 e (out_edges n)"
  "rid (add_in_edge e n) = rid n" "rid (add_out_edge e n) = rid n"
  "rid (del_in_edge e n) = rid n" "rid (del_out_edge e n) = rid n"
  by (simp_all add: add_in_edge_def add_out_edge_def del_in_edge_def del_out_edge_def)

lemma node_at_simps [simp]:
  "node_at g (PStorage k) = map_option rnode.truncate (map_of (s_nodes g) k)"
  "node_at g (PDtn k) = map_option rnode.truncate (map_of (dtn_nodes g) k)"
  "node_at g (PGeneral k) = map_of (general_nodes g) k"
  by (simp_all add: node_at_def)

lemma node_at_edge_ops:
  "node_at (node_add_in p e g) q = (if q = p then map_option (add_in_edge e) (node_at g p) else node_at g q)"
  "node_at (node_add_out p e g) q = (if q = p then map_option (add_out_edge e) (node_at g p) else node_at g q)"
  "node_at (node_del_in p e g) q = (if q = p then map_option (del_in_edge e) (node_at g p) else node_at g q)"
  "node_at (node_del_out p e g) q = (if q = p then map_option (del_out_edge e) (node_at g p) else node_at g q)"
  by (cases p; cases q; simp add: node_add_in_def node_add_out_def node_del_in_def node_del_out_def
      option.map_comp comp_def)+

lemma node_ops_edges [simp]:
  "edges (node_add_in p e g) = edges g" "edges (node_add_out p e g) = edges g"
  "edges (node_del_in p e g) = edges g" "edges (node_del_out p e g) = edges g"
  by (cases p; simp add: node_add_in_def node_add_out_def node_del_in_def node_del_out_def)+

lemma node_at_edges_update [simp]: "node_at (g\<lparr>edges := es\<rparr>) p = node_at g p"
  by (cases p) simp_all

lemma ins_outs_edges_update [simp]:
  "ins (g\<lparr>edges := es\<rparr>) p = ins g p" "outs (g\<lparr>edges := es\<rparr>) p = outs g p"
  by (simp_all add: ins_def outs_def)

lemma ins_edge_ops [simp]:
  "ins (node_add_in p e g) q = (if q = p \<and> node_at g p \<noteq> None then ins g q @ [e] else ins g q)"
  "ins (node_add_out p e g) q = ins g q"
  "ins (node_del_in p e g) q = (if q = p then remove1 e (ins g q) else ins g q)"
  "ins (node_del_out p e g) q = ins g q"
  by (auto simp: ins_def node_at_edge_ops split: option.splits)

lemma outs_edge_ops [simp]:
  "outs (node_add_in p e g) q = outs g q"
  "outs (node_add_out p e g) q = (if q = p \<and> node_at g p \<noteq> None then outs g q @ [e] else outs g q)"
  "outs (node_del_in p e g) q = outs g q"
  "outs (node_del_out p e g) q = (if q = p then remove1 e (outs g q) else outs g q)"
  by (auto simp: outs_def node_at_edge_ops split: option.splits)

section \<open>Well-formed graphs\<close>

text \<open>
  The maps are ordered; storage nodes, DTN nodes and edges are stored under their own id; and the
  edge lists of the nodes and the end points of the edges say the same thing.
\<close>

definition maps_ok :: "rgraph \<Rightarrow> bool" where
  "maps_ok g \<longleftrightarrow> map_ok (s_nodes g) \<and> map_ok (dtn_nodes g) \<and> map_ok (general_nodes g) \<and> map_ok (edges g)"

definition rids_ok :: "rgraph \<Rightarrow> bool" where
  "rids_ok g \<longleftrightarrow> (\<forall>k n. map_of (s_nodes g) k = Some n \<longrightarrow> rid n = k)
     \<and> (\<forall>k n. map_of (dtn_nodes g) k = Some n \<longrightarrow> rid n = k)
     \<and> (\<forall>k e. map_of (edges g) k = Some e \<longrightarrow> rid e = k)"

definition links_ok :: "(string \<rightharpoonup> redge) \<Rightarrow> (node_ptr \<Rightarrow> string list) \<Rightarrow> (node_ptr \<Rightarrow> string list) \<Rightarrow> bool" where
  "links_ok E os ns \<longleftrightarrow>
     (\<forall>k p. k \<in> set (os p) \<longleftrightarrow> (\<exists>e. E k = Some e \<and> src_node e = Some p))
     \<and> (\<forall>k p. k \<in> set (ns p) \<longleftrightarrow> (\<exists>e. E k = Some e \<and> dst_node e = Some p))
     \<and> (\<forall>k e. E k = Some e \<longrightarrow> src_node e \<noteq> None \<and> dst_node e \<noteq> None)
     \<and> (\<forall>p. distinct (os p) \<and> distinct (ns p))"

definition rg_wf :: "rgraph \<Rightarrow> bool" where
  "rg_wf g \<longleftrightarrow> maps_ok g \<and> rids_ok g \<and> links_ok (map_of (edges g)) (outs g) (ins g)"

lemmas rg_wf_defs = rg_wf_def maps_ok_def rids_ok_def

lemma rg_wf_RGraph: "rg_wf RGraph"
proof -
  have "node_at RGraph p = None" for p by (cases p) (simp_all add: RGraph_def)
  then show ?thesis by (simp add: rg_wf_defs links_ok_def outs_def ins_def) (simp add: RGraph_def)
qed

lemma rg_wfD:
  assumes "rg_wf g"
  shows "map_ok (s_nodes g)" "map_ok (dtn_nodes g)" "map_ok (general_nodes g)" "map_ok (edges g)"
    and "map_of (s_nodes g) k = Some n \<Longrightarrow> rid n = k"
    and "map_of (dtn_nodes g) k = Some d \<Longrightarrow> rid d = k"
    and "map_of (edges g) k = Some e \<Longrightarrow> rid e = k"
    and "distinct (outs g p)" "distinct (ins g p)"
  using assms by (auto simp: rg_wf_defs links_ok_def)

lemma rg_wf_edgeE:
  assumes "rg_wf g" and "map_of (edges g) k = Some e"
  obtains s d where "src_node e = Some s" "dst_node e = Some d" "k \<in> set (outs g s)" "k \<in> set (ins g d)"
      "node_at g s \<noteq> None" "node_at g d \<noteq> None"
proof -
  from assms obtain s d where *: "src_node e = Some s" "dst_node e = Some d" "k \<in> set (outs g s)" "k \<in> set (ins g d)"
    by (fastforce simp: rg_wf_defs links_ok_def)
  moreover from * have "node_at g s \<noteq> None" "node_at g d \<noteq> None"
    by (cases "node_at g s"; cases "node_at g d"; simp add: outs_def ins_def)+
  ultimately show thesis by (rule that)
qed

lemma outs_iff: "rg_wf g \<Longrightarrow> k \<in> set (outs g p) \<longleftrightarrow> (\<exists>e. map_of (edges g) k = Some e \<and> src_node e = Some p)"
  and ins_iff: "rg_wf g \<Longrightarrow> k \<in> set (ins g p) \<longleftrightarrow> (\<exists>e. map_of (edges g) k = Some e \<and> dst_node e = Some p)"
  by (simp_all add: rg_wf_defs links_ok_def)

lemma edge_ends: "rg_wf g \<Longrightarrow> map_of (edges g) k = Some e \<Longrightarrow> src_node e \<noteq> None \<and> dst_node e \<noteq> None"
  by (simp add: rg_wf_defs links_ok_def)

text \<open>A step that changes neither edges nor edge lists keeps the links.\<close>

lemma rg_wf_cong:
  assumes "rg_wf g" and "maps_ok g'" and "rids_ok g'"
    and "edges g' = edges g" and "\<And>p. outs g' p = outs g p" and "\<And>p. ins g' p = ins g p"
  shows "rg_wf g'"
proof -
  have "outs g' = outs g" "ins g' = ins g" using assms(5,6) by auto
  with assms show ?thesis by (simp add: rg_wf_def)
qed

section \<open>Adding nodes\<close>

lemma fresh_nodes [simp]:
  "rid (RNode i n c) = i" "in_edges (RNode i n c) = []" "out_edges (RNode i n c) = []"
  "rid (StorageNode i n t c) = i" "rnode.truncate (StorageNode i n t c) = RNode i n c"
  "rid (DTNNode i n c) = i" "rnode.truncate (DTNNode i n c) = RNode i n c"
  by (simp_all add: RNode_def StorageNode_def DTNNode_def rnode.defs storage_node.defs dtn_node.defs)

lemma rg_wf_add_storage_node: "rg_wf g \<Longrightarrow> rg_wf (add_storage_node i n t c g)"
  by (rule rg_wf_cong, assumption)
     (auto simp: rg_wf_defs add_storage_node_def outs_def ins_def node_at_def split: node_ptr.splits if_splits option.splits)

lemma rg_wf_add_dtn_node: "rg_wf g \<Longrightarrow> rg_wf (add_dtn_node i n c g)"
  by (rule rg_wf_cong, assumption)
     (auto simp: rg_wf_defs add_dtn_node_def outs_def ins_def node_at_def split: node_ptr.splits if_splits option.splits)

lemma rg_wf_add_general_node: "rg_wf g \<Longrightarrow> rg_wf (add_general_node i r n c g)"
  by (rule rg_wf_cong, assumption)
     (auto simp: rg_wf_defs add_general_node_def outs_def ins_def node_at_def split: node_ptr.splits if_splits option.splits)

lemma rg_wf_set_general_queue: "rg_wf g \<Longrightarrow> rg_wf (set_general_queue i q g)"
  by (rule rg_wf_cong, assumption)
     (auto simp: rg_wf_defs set_general_queue_def outs_def ins_def node_at_def split: node_ptr.splits if_splits option.splits)

lemma rg_wf_add_launcher: "rg_wf g \<Longrightarrow> rg_wf (add_launcher r q g)"
  and rg_wf_add_sdn: "rg_wf g \<Longrightarrow> rg_wf (add_sdn r q g)"
  and rg_wf_add_gateway: "rg_wf g \<Longrightarrow> rg_wf (add_gateway g)"
  by (simp_all add: add_launcher_def add_sdn_def add_gateway_def rg_wf_add_general_node rg_wf_set_general_queue)

lemma rg_wf_set_one_dtn_node: "rg_wf g \<Longrightarrow> rg_wf (set_one_dtn_node s d g)"
  by (rule rg_wf_cong, assumption)
     (auto simp: rg_wf_defs set_one_dtn_node_def outs_def ins_def node_at_def rnode.defs
       split: node_ptr.splits if_splits option.splits)

section \<open>Adding edges\<close>

lemma maps_ok_node_ops [simp]:
  "maps_ok (node_add_in p e g) = maps_ok g" "maps_ok (node_add_out p e g) = maps_ok g"
  "maps_ok (node_del_in p e g) = maps_ok g" "maps_ok (node_del_out p e g) = maps_ok g"
  by (cases p; simp add: maps_ok_def node_add_in_def node_add_out_def node_del_in_def node_del_out_def)+

lemma rids_ok_node_ops:
  assumes "rids_ok g"
  shows "rids_ok (node_add_in p e g)" "rids_ok (node_add_out p e g)"
    "rids_ok (node_del_in p e g)" "rids_ok (node_del_out p e g)"
  using assms
  by (cases p; auto simp: rids_ok_def node_add_in_def node_add_out_def node_del_in_def node_del_out_def)+

lemma get_node_at: "get_node g i = Inr p \<Longrightarrow> node_at g p \<noteq> None"
  by (auto simp: get_node_def has_storage_node_def has_dtn_node_def has_general_node_def has_key_def split: if_splits)

lemma edge_matches_wf:
  assumes "rg_wf g" and "map_of (edges g) k = Some e"
  obtains b where "edge_matches g s d e = Inr b"
proof -
  from assms obtain p q where "src_node e = Some p" "dst_node e = Some q" "node_at g p \<noteq> None" "node_at g q \<noteq> None"
    by (rule rg_wf_edgeE)
  then have "\<exists>b. edge_matches g s d e = Inr b"
    by (auto simp: edge_matches_def ptr_rid_def)
  with that show thesis by blast
qed

lemma scan_edges_defined:
  assumes "rg_wf g" and "set es \<subseteq> set (edges g)"
  obtains r where "scan_edges g s d es = Inr r"
  using assms(2)
proof (induction es arbitrary: thesis)
  case (Cons x es)
  obtain k e where x: "x = (k, e)" by (cases x)
  with Cons.prems(2) assms(1) have "map_of (edges g) k = Some e"
    by (simp add: rg_wfD map_ok_entry_iff)
  then obtain b where b: "edge_matches g s d e = Inr b" by (rule edge_matches_wf [OF assms(1)])
  obtain r where "scan_edges g s d es = Inr r" using Cons by auto
  then show ?case using Cons.prems(1) x b by (cases b) auto
qed simp

lemma has_edge_defined:
  assumes "rg_wf g"
  obtains b where "has_edge g s d = Inr b"
  using scan_edges_defined [OF assms subset_refl] by (metis bind_r_simps(2) has_edge_def)

lemma connect_new_edge:
  assumes wf: "rg_wf g" and fresh: "map_of (edges g) uid = None"
    and s: "node_at g s \<noteq> None" and d: "node_at g d \<noteq> None"
  shows "rg_wf (connect uid s d (g\<lparr>edges := emplace uid (REdge uid cap) (edges g)\<rparr>))"
    (is "rg_wf ?g'")
proof -
  let ?e = "(REdge uid cap)\<lparr>src_node := Some s, dst_node := Some d, connected := True\<rparr>"
  note ok = rg_wfD [OF wf]
  have E: "map_of (edges ?g') k = (if k = uid then Some ?e else map_of (edges g) k)" for k
    using ok(4) fresh by (simp add: connect_def)
  have outs': "outs ?g' q = (if q = s then outs g q @ [uid] else outs g q)"
    and ins': "ins ?g' q = (if q = d then ins g q @ [uid] else ins g q)" for q
    using s d by (auto simp: connect_def node_at_edge_ops)
  have new: "uid \<notin> set (outs g q)" "uid \<notin> set (ins g q)" for q
    using fresh by (simp_all add: outs_iff [OF wf] ins_iff [OF wf])
  have "maps_ok ?g'" using wf by (simp add: connect_def) (simp add: rg_wf_defs)
  moreover have "rids_ok ?g'"
    using wf by (auto simp: connect_def REdge_def intro!: rids_ok_node_ops) (auto simp: rg_wf_defs split: if_splits)
  moreover have "links_ok (map_of (edges ?g')) (outs ?g') (ins ?g')"
    using ok(8,9) new fresh edge_ends [OF wf]
    by (auto simp: links_ok_def E outs' ins' outs_iff [OF wf] ins_iff [OF wf])
  ultimately show ?thesis by (simp add: rg_wf_def)
qed

lemma rg_wf_add_edge:
  assumes "rg_wf g" and "map_of (edges g) uid = None" and "add_edge uid s d cap g = Inr g'"
  shows "rg_wf g'"
proof -
  obtain b where "has_edge g s d = Inr b" using assms(1) by (rule has_edge_defined)
  with assms show ?thesis
    by (cases b) (auto simp: add_edge_def bind_r_Inr_iff dest!: get_node_at intro: connect_new_edge)
qed

lemma rg_wf_add_edge_to_gateway:
  assumes "rg_wf g" and "map_of (edges g) uid = None" and "add_edge_to_gateway uid s cap g = Inr g'"
  shows "rg_wf g'"
  using assms by (auto simp: add_edge_to_gateway_def split: if_splits intro: rg_wf_add_edge)

section \<open>Deleting a node\<close>

text \<open>
  The loop over the incoming edges, in closed form: the listed edges are gone from \<open>edges\<close> and from
  the \<open>out_edges\<close> of their source nodes, and nothing else has changed. The loop over the outgoing
  edges is its mirror image.
\<close>

definition drop_outs :: "string list \<Rightarrow> rnode \<Rightarrow> rnode" where
  "drop_outs L n = n\<lparr>out_edges := filter (\<lambda>k. k \<notin> set L) (out_edges n)\<rparr>"

definition drop_ins :: "string list \<Rightarrow> rnode \<Rightarrow> rnode" where
  "drop_ins L n = n\<lparr>in_edges := filter (\<lambda>k. k \<notin> set L) (in_edges n)\<rparr>"

lemma drop_fields [simp]:
  "out_edges (drop_outs L n) = filter (\<lambda>k. k \<notin> set L) (out_edges n)" "in_edges (drop_outs L n) = in_edges n"
  "in_edges (drop_ins L n) = filter (\<lambda>k. k \<notin> set L) (in_edges n)" "out_edges (drop_ins L n) = out_edges n"
  "rid (drop_outs L n) = rid n" "rid (drop_ins L n) = rid n"
  by (simp_all add: drop_outs_def drop_ins_def)

lemma del_as_drop:
  "distinct (out_edges n) \<Longrightarrow> del_out_edge e n = drop_outs [e] n"
  "distinct (in_edges n) \<Longrightarrow> del_in_edge e n = drop_ins [e] n"
  by (simp_all add: del_out_edge_def del_in_edge_def drop_outs_def drop_ins_def distinct_remove1_removeAll
      removeAll_filter_not_eq neq_commute)

lemma drop_drop:
  "drop_outs L (drop_outs [e] n) = drop_outs (e # L) n" "drop_ins L (drop_ins [e] n) = drop_ins (e # L) n"
  by (simp_all add: drop_outs_def drop_ins_def filter_filter conj_commute)

lemma drop_none: "(\<And>k. k \<in> set L \<Longrightarrow> k \<notin> set (out_edges n)) \<Longrightarrow> drop_outs L n = n"
  "(\<And>k. k \<in> set L \<Longrightarrow> k \<notin> set (in_edges n)) \<Longrightarrow> drop_ins L n = n"
  by (simp_all add: drop_outs_def drop_ins_def filter_id_conv)
     (metis (no_types, lifting) rnode.surjective rnode.update_convs(2) rnode.update_convs(1) filter_True)+

text \<open>What the loops need of a graph whose edge lists are being taken apart.\<close>

definition out_side_ok :: "rgraph \<Rightarrow> bool" where
  "out_side_ok g \<longleftrightarrow> maps_ok g \<and> rids_ok g \<and> (\<forall>p. distinct (outs g p)) \<and>
     (\<forall>k e q. map_of (edges g) k = Some e \<longrightarrow> k \<in> set (outs g q) \<longrightarrow> src_node e = Some q)"

definition in_side_ok :: "rgraph \<Rightarrow> bool" where
  "in_side_ok g \<longleftrightarrow> maps_ok g \<and> rids_ok g \<and> (\<forall>p. distinct (ins g p)) \<and>
     (\<forall>k e q. map_of (edges g) k = Some e \<longrightarrow> k \<in> set (ins g q) \<longrightarrow> dst_node e = Some q)"

lemma rg_wf_sides: "rg_wf g \<Longrightarrow> out_side_ok g" "rg_wf g \<Longrightarrow> in_side_ok g"
  using rg_wfD(8,9) by (auto simp: out_side_ok_def in_side_ok_def outs_iff ins_iff) (auto simp: rg_wf_def)

lemma node_at_outs: "node_at g p = Some n \<Longrightarrow> outs g p = out_edges n"
  and node_at_ins: "node_at g p = Some n \<Longrightarrow> ins g p = in_edges n"
  by (simp_all add: outs_def ins_def)

locale edge_loop =
  fixes step :: "string \<Rightarrow> rgraph \<Rightarrow> (exn, rgraph) result"
    and good :: "rgraph \<Rightarrow> bool"
    and far :: "redge \<Rightarrow> node_ptr option"
    and cut :: "string list \<Rightarrow> rnode \<Rightarrow> rnode"
  assumes one_edge: "good g \<Longrightarrow> map_of (edges g) e = Some r \<Longrightarrow> far r = Some q \<Longrightarrow> node_at g q \<noteq> None \<Longrightarrow>
      \<exists>g'. step e g = Inr g' \<and> good g' \<and>
        (\<forall>k. map_of (edges g') k = (if k = e then None else map_of (edges g) k)) \<and>
        (\<forall>p. node_at g' p = map_option (cut [e]) (node_at g p))"
    and cut_nil: "cut [] n = n"
    and cut_cons: "cut L (cut [e] n) = cut (e # L) n"
begin

lemma all_edges:
  assumes "good g" and "distinct L"
    and "\<And>e. e \<in> set L \<Longrightarrow> \<exists>r q. map_of (edges g) e = Some r \<and> far r = Some q \<and> node_at g q \<noteq> None"
  shows "\<exists>g'. fold_r step L g = Inr g' \<and> good g' \<and>
    (\<forall>k. map_of (edges g') k = (if k \<in> set L then None else map_of (edges g) k)) \<and>
    (\<forall>p. node_at g' p = map_option (cut L) (node_at g p))"
  using assms
proof (induction L arbitrary: g)
  case Nil
  then show ?case by (auto simp: cut_nil option.map_ident)
next
  case (Cons e L)
  obtain r q where "map_of (edges g) e = Some r" "far r = Some q" "node_at g q \<noteq> None"
    using Cons.prems(3) [of e] by auto
  then obtain g1 where g1: "step e g = Inr g1" "good g1"
    "\<And>k. map_of (edges g1) k = (if k = e then None else map_of (edges g) k)"
    "\<And>p. node_at g1 p = map_option (cut [e]) (node_at g p)"
    using one_edge [OF Cons.prems(1)] by blast
  have "\<exists>r q. map_of (edges g1) k = Some r \<and> far r = Some q \<and> node_at g1 q \<noteq> None" if "k \<in> set L" for k
    using Cons.prems(2,3) that g1(3,4) by fastforce
  then obtain g2 where g2: "fold_r step L g1 = Inr g2" "good g2"
    "\<And>k. map_of (edges g2) k = (if k \<in> set L then None else map_of (edges g1) k)"
    "\<And>p. node_at g2 p = map_option (cut L) (node_at g1 p)"
    using Cons.IH [OF g1(2)] Cons.prems(2) by auto
  then show ?case
    by (intro exI [of _ g2]) (auto simp: g1 option.map_comp comp_def cut_cons)
qed

end

lemma erase_in_edge_step:
  assumes ok: "out_side_ok g" and e: "map_of (edges g) e = Some r" "src_node r = Some q" "node_at g q \<noteq> None"
  shows "\<exists>g'. erase_in_edge e g = Inr g' \<and> out_side_ok g' \<and>
    (\<forall>k. map_of (edges g') k = (if k = e then None else map_of (edges g) k)) \<and>
    (\<forall>p. node_at g' p = map_option (drop_outs [e]) (node_at g p))"
proof -
  let ?g = "(node_del_out q e g)\<lparr>edges := erase e (edges g)\<rparr>"
  have mo: "map_ok (edges g)" and rid: "rid r = e"
    using ok e(1) by (auto simp: out_side_ok_def maps_ok_def rids_ok_def)
  have E: "map_of (edges ?g) k = (if k = e then None else map_of (edges g) k)" for k
    using mo by simp
  have N: "node_at ?g p = map_option (drop_outs [e]) (node_at g p)" for p
  proof (cases "node_at g p")
    case (Some n)
    then have "p \<noteq> q \<Longrightarrow> e \<notin> set (out_edges n)"
      using ok e(1,2) node_at_outs [OF Some] by (force simp: out_side_ok_def)
    moreover have "distinct (out_edges n)"
      using ok node_at_outs [OF Some] by (metis out_side_ok_def)
    ultimately show ?thesis
      using Some by (auto simp: node_at_edge_ops del_as_drop intro!: drop_none(1) [symmetric])
  qed (auto simp: node_at_edge_ops)
  have outs': "outs ?g p = filter (\<lambda>k. k \<noteq> e) (outs g p)" for p
    using N [of p] by (cases "node_at g p") (simp_all add: outs_def)
  have "maps_ok ?g" using ok maps_ok_node_ops(4) [of q e g] by (simp add: out_side_ok_def maps_ok_def)
  moreover have "rids_ok ?g"
    using ok rids_ok_node_ops(4) [of g q e] mo by (auto simp: out_side_ok_def rids_ok_def split: if_splits)
  ultimately have "out_side_ok ?g" using ok by (auto simp: out_side_ok_def outs' mo split: if_splits)
  moreover have "erase_in_edge e g = Inr ?g" using e rid by (simp add: erase_in_edge_def)
  ultimately show ?thesis using E N by blast
qed

lemma erase_out_edge_step:
  assumes ok: "in_side_ok g" and e: "map_of (edges g) e = Some r" "dst_node r = Some q" "node_at g q \<noteq> None"
  shows "\<exists>g'. erase_out_edge e g = Inr g' \<and> in_side_ok g' \<and>
    (\<forall>k. map_of (edges g') k = (if k = e then None else map_of (edges g) k)) \<and>
    (\<forall>p. node_at g' p = map_option (drop_ins [e]) (node_at g p))"
proof -
  let ?g = "(node_del_in q e g)\<lparr>edges := erase e (edges g)\<rparr>"
  have mo: "map_ok (edges g)" and rid: "rid r = e"
    using ok e(1) by (auto simp: in_side_ok_def maps_ok_def rids_ok_def)
  have E: "map_of (edges ?g) k = (if k = e then None else map_of (edges g) k)" for k
    using mo by simp
  have N: "node_at ?g p = map_option (drop_ins [e]) (node_at g p)" for p
  proof (cases "node_at g p")
    case (Some n)
    then have "p \<noteq> q \<Longrightarrow> e \<notin> set (in_edges n)"
      using ok e(1,2) node_at_ins [OF Some] by (force simp: in_side_ok_def)
    moreover have "distinct (in_edges n)"
      using ok node_at_ins [OF Some] by (metis in_side_ok_def)
    ultimately show ?thesis
      using Some by (auto simp: node_at_edge_ops del_as_drop intro!: drop_none(2) [symmetric])
  qed (auto simp: node_at_edge_ops)
  have ins': "ins ?g p = filter (\<lambda>k. k \<noteq> e) (ins g p)" for p
    using N [of p] by (cases "node_at g p") (simp_all add: ins_def)
  have "maps_ok ?g" using ok maps_ok_node_ops(3) [of q e g] by (simp add: in_side_ok_def maps_ok_def)
  moreover have "rids_ok ?g"
    using ok rids_ok_node_ops(3) [of g q e] mo by (auto simp: in_side_ok_def rids_ok_def split: if_splits)
  ultimately have "in_side_ok ?g" using ok by (auto simp: in_side_ok_def ins' mo split: if_splits)
  moreover have "erase_out_edge e g = Inr ?g" using e rid by (simp add: erase_out_edge_def)
  ultimately show ?thesis using E N by blast
qed

lemma drop_nil: "drop_outs [] n = n" "drop_ins [] n = n"
  by (rule drop_none, simp)+

interpretation in_loop: edge_loop erase_in_edge out_side_ok src_node drop_outs
  by unfold_locales (simp_all add: erase_in_edge_step drop_nil drop_drop)

interpretation out_loop: edge_loop erase_out_edge in_side_ok dst_node drop_ins
  by unfold_locales (simp_all add: erase_out_edge_step drop_nil drop_drop)

lemma get_node_Inr:
  "get_node g i = Inr p \<Longrightarrow> p = PStorage i \<and> has_storage_node g i
     \<or> p = PDtn i \<and> \<not> has_storage_node g i \<and> has_dtn_node g i
     \<or> p = PGeneral i \<and> \<not> has_storage_node g i \<and> \<not> has_dtn_node g i"
  by (auto simp: get_node_def split: if_splits)

lemma has_node_at:
  "has_storage_node g i \<longleftrightarrow> node_at g (PStorage i) \<noteq> None"
  "has_dtn_node g i \<longleftrightarrow> node_at g (PDtn i) \<noteq> None"
  "has_general_node g i \<longleftrightarrow> node_at g (PGeneral i) \<noteq> None"
  by (auto simp: has_storage_node_def has_dtn_node_def has_general_node_def has_key_def)

lemma erase_node_at:
  assumes "maps_ok g" and "get_node g i = Inr p"
  shows "node_at (erase_node i g) q = (if q = p then None else node_at g q)"
    and "edges (erase_node i g) = edges g"
  using get_node_Inr [OF assms(2)] assms(1)
  by (cases q; auto simp: erase_node_def maps_ok_def)+

lemma erase_node_keys_ok:
  assumes "maps_ok g" and "rids_ok g"
  shows "maps_ok (erase_node i g)" "rids_ok (erase_node i g)"
  using assms by (auto simp: erase_node_def maps_ok_def rids_ok_def split: if_splits)

text \<open>
  The graph left behind when a node is deleted: the node and every edge at it are gone, and these
  edges are gone from the lists of their other end points.
\<close>

lemma del_known_node:
  assumes wf: "rg_wf g" and p: "get_node g i = Inr p"
  shows "\<exists>g1 g2. fold_r erase_in_edge (ins g p) g = Inr g1 \<and> fold_r erase_out_edge (outs g1 p) g1 = Inr g2 \<and>
    rg_wf (erase_node i g2) \<and>
    (\<forall>k. map_of (edges (erase_node i g2)) k =
       (if k \<in> set (ins g p) \<union> set (outs g p) then None else map_of (edges g) k)) \<and>
    (\<forall>q. node_at (erase_node i g2) q = (if q = p then None
       else map_option (drop_ins (outs g p) \<circ> drop_outs (ins g p)) (node_at g q)))"
proof -
  let ?I = "ins g p" and ?O = "filter (\<lambda>k. k \<notin> set (ins g p)) (outs g p)"
  have known: "\<exists>r q. map_of (edges g) k = Some r \<and> src_node r = Some q \<and> node_at g q \<noteq> None" if "k \<in> set ?I" for k
    using that wf by (auto simp: ins_iff elim: rg_wf_edgeE)
  obtain g1 where g1: "fold_r erase_in_edge ?I g = Inr g1" "out_side_ok g1"
    "\<And>k. map_of (edges g1) k = (if k \<in> set ?I then None else map_of (edges g) k)"
    "\<And>q. node_at g1 q = map_option (drop_outs ?I) (node_at g q)"
    using in_loop.all_edges [OF rg_wf_sides(1) [OF wf] rg_wfD(9) [OF wf] known] by blast
  have lists1: "ins g1 q = ins g q" "outs g1 q = filter (\<lambda>k. k \<notin> set ?I) (outs g q)" for q
    using g1(4) [of q] by (cases "node_at g q"; simp add: ins_def outs_def)+
  have in_ok: "in_side_ok g1"
    using g1(2) rg_wf_sides(2) [OF wf] by (auto simp: out_side_ok_def in_side_ok_def lists1 g1(3))
  have known': "\<exists>r q. map_of (edges g1) k = Some r \<and> dst_node r = Some q \<and> node_at g1 q \<noteq> None" if "k \<in> set ?O" for k
    using that wf g1(3,4) by (auto simp: outs_iff elim!: rg_wf_edgeE)
  have "distinct ?O" using rg_wfD(8) [OF wf] by simp
  then obtain g2 where g2: "fold_r erase_out_edge ?O g1 = Inr g2" "in_side_ok g2"
    "\<And>k. map_of (edges g2) k = (if k \<in> set ?O then None else map_of (edges g1) k)"
    "\<And>q. node_at g2 q = map_option (drop_ins ?O) (node_at g1 q)"
    using out_loop.all_edges [OF in_ok _ known'] by blast
  let ?g = "erase_node i g2"
  have maps2: "maps_ok g2" "rids_ok g2" using g2(2) by (auto simp: in_side_ok_def)
  have p2: "get_node g2 i = Inr p"
    using p g1(4) g2(4) by (simp add: get_node_def has_node_at del: node_at_simps split: if_splits)
  have E: "map_of (edges ?g) k = (if k \<in> set (ins g p) \<union> set (outs g p) then None else map_of (edges g) k)" for k
    by (auto simp: erase_node_at(2) [OF maps2(1) p2] g2(3) g1(3))
  have drops: "drop_ins ?O n = drop_ins (outs g p) n" if "node_at g1 q = Some n" "q \<noteq> p" for n q
  proof -
    have "k \<notin> set ?I" if "k \<in> set (in_edges n)" for k
    proof -
      have "k \<in> set (ins g q)"
        using that node_at_ins [OF \<open>node_at g1 q = Some n\<close>] lists1(1) [of q] by simp
      with \<open>q \<noteq> p\<close> wf show ?thesis by (auto simp: ins_iff)
    qed
    then have "filter (\<lambda>k. k \<notin> set ?O) (in_edges n) = filter (\<lambda>k. k \<notin> set (outs g p)) (in_edges n)"
      by (intro filter_cong) auto
    then show ?thesis by (simp add: drop_ins_def)
  qed
  have N: "node_at ?g q = (if q = p then None else map_option (drop_ins (outs g p) \<circ> drop_outs ?I) (node_at g q))" for q
    using erase_node_at(1) [OF maps2(1) p2] g2(4) [of q] g1(4) [of q] drops [of q]
    by (cases "node_at g q") auto
  have lists: "outs ?g q = (if q = p then [] else filter (\<lambda>k. k \<notin> set ?I) (outs g q))"
    "ins ?g q = (if q = p then [] else filter (\<lambda>k. k \<notin> set (outs g p)) (ins g q))" for q
    using N [of q] by (cases "node_at g q"; simp add: outs_def ins_def)+
  have "links_ok (map_of (edges ?g)) (outs ?g) (ins ?g)"
    using rg_wfD(8,9) [OF wf] edge_ends [OF wf]
    by (auto simp: links_ok_def E lists outs_iff [OF wf] ins_iff [OF wf] split: if_splits)
  with erase_node_keys_ok [OF maps2] have "rg_wf ?g" by (simp add: rg_wf_def)
  moreover have "fold_r erase_out_edge (outs g1 p) g1 = Inr g2" using g2(1) lists1 by simp
  ultimately show ?thesis using g1(1) E N by blast
qed

text \<open>The three ways \<open>del_node\<close> can go.\<close>

lemma special_node_id_known: "special_node_id g i = Some nid \<Longrightarrow> \<exists>p. get_node g nid = Inr p"
  by (auto simp: special_node_id_def get_node_def has_node_def has_general_node_def has_key_def
      split: if_splits option.splits)

lemma del_node_unknown: "i \<noteq> ''gateway'' \<Longrightarrow> special_node_id g i = None \<Longrightarrow> del_node i g = Inr g"
  by (simp add: del_node_def)

lemma del_node_known:
  assumes "rg_wf g" and "i \<noteq> ''gateway''" and "special_node_id g i = Some nid" and "get_node g nid = Inr p"
  shows "\<exists>g'. del_node i g = Inr g' \<and> rg_wf g' \<and>
    (\<forall>k. map_of (edges g') k = (if k \<in> set (ins g p) \<union> set (outs g p) then None else map_of (edges g) k)) \<and>
    (\<forall>q. node_at g' q = (if q = p then None
       else map_option (drop_ins (outs g p) \<circ> drop_outs (ins g p)) (node_at g q)))"
proof -
  obtain g1 g2 where "fold_r erase_in_edge (ins g p) g = Inr g1" "fold_r erase_out_edge (outs g1 p) g1 = Inr g2"
    and post: "rg_wf (erase_node nid g2) \<and>
    (\<forall>k. map_of (edges (erase_node nid g2)) k =
       (if k \<in> set (ins g p) \<union> set (outs g p) then None else map_of (edges g) k)) \<and>
    (\<forall>q. node_at (erase_node nid g2) q = (if q = p then None
       else map_option (drop_ins (outs g p) \<circ> drop_outs (ins g p)) (node_at g q)))"
    using del_known_node [OF assms(1,4)] by blast
  then have "del_node i g = Inr (erase_node nid g2)" using assms by (simp add: del_node_def)
  with post show ?thesis by blast
qed

lemma rg_wf_del_node: "rg_wf g \<Longrightarrow> del_node i g = Inr g' \<Longrightarrow> rg_wf g'"
proof -
  assume wf: "rg_wf g" and del: "del_node i g = Inr g'"
  then have ne: "i \<noteq> ''gateway''" by (auto simp: del_node_def)
  show "rg_wf g'"
  proof (cases "special_node_id g i")
    case (Some nid)
    then obtain p where "get_node g nid = Inr p" using special_node_id_known by blast
    then show ?thesis using del_node_known [OF wf ne Some] del by auto
  qed (use wf del ne del_node_unknown in auto)
qed

lemma del_node_total: "rg_wf g \<Longrightarrow> i \<noteq> ''gateway'' \<Longrightarrow> \<exists>g'. del_node i g = Inr g'"
  using del_node_known del_node_unknown special_node_id_known by (metis option.exhaust)

lemma rg_wf_del_launcher: "rg_wf g \<Longrightarrow> del_launcher g = Inr g' \<Longrightarrow> rg_wf g'"
  and rg_wf_del_sdn: "rg_wf g \<Longrightarrow> del_sdn g = Inr g' \<Longrightarrow> rg_wf g'"
  by (auto simp: del_launcher_def del_sdn_def rg_wf_del_node split: if_splits)

lemma reset_RGraph [simp]: "reset g = RGraph"
  by (simp add: reset_def RGraph_def)

section \<open>Rates\<close>

lemma fold_pick:
  assumes "fold pick_larger js (r, o1) = (r', o2)"
  shows "r \<le> r' \<and> (\<forall>(p, j) \<in> set js. running_extra j \<longrightarrow> job_rate j \<le> r') \<and>
    (o2 = o1 \<and> r' = r \<or> (\<exists>p j. o2 = Some p \<and> (p, j) \<in> set js \<and> running_extra j \<and> job_rate j = r'))"
  using assms
proof (induction js arbitrary: r o1)
  case (Cons x js)
  obtain p j where x: "x = (p, j)" by (cases x)
  show ?case
  proof (cases "running_extra j \<and> r < job_rate j")
    case True
    then have step: "fold pick_larger js (job_rate j, Some p) = (r', o2)"
      using Cons.prems x by (simp add: pick_larger_def running_extra_def)
    show ?thesis using Cons.IH [OF step] True x by fastforce
  next
    case False
    then have step: "fold pick_larger js (r, o1) = (r', o2)"
      using Cons.prems x by (auto simp: pick_larger_def running_extra_def split: if_splits)
    show ?thesis using Cons.IH [OF step] False x by fastforce
  qed
qed simp

lemma jobs_on_resolves: "(p, j) \<in> set (jobs_on jm r) \<Longrightarrow> map_of (basic_jobs jm) p = Some j"
  by (auto simp: jobs_on_def List.map_filter_def)

lemma find_largest_running:
  assumes "find_largest_re_job jm r = Inr p"
  shows "\<exists>j. (p, j) \<in> set (jobs_on jm r) \<and> map_of (basic_jobs jm) p = Some j \<and> running_extra j \<and>
    (\<forall>(q, k) \<in> set (jobs_on jm r). running_extra k \<longrightarrow> job_rate k \<le> job_rate j)"
proof -
  obtain r' o' where f: "fold pick_larger (jobs_on jm r) (- 1, None) = (r', o')"
    by (cases "fold pick_larger (jobs_on jm r) (- 1, None)")
  with assms have "o' = Some p" by (auto simp: find_largest_re_job_def split: if_splits)
  then have "\<exists>j. (p, j) \<in> set (jobs_on jm r) \<and> running_extra j \<and> job_rate j = r' \<and>
      (\<forall>(q, k) \<in> set (jobs_on jm r). running_extra k \<longrightarrow> job_rate k \<le> r')"
    using fold_pick [OF f] by auto
  then show ?thesis using jobs_on_resolves by blast
qed

lemma fold_sum_if:
  "fold (\<lambda>(_, job) sum. if P job then sum + f job else sum) js (a :: double) =
     a + sum_list (map (\<lambda>(_, j). f j) (filter (\<lambda>(_, j). P j) js))"
  by (induction js arbitrary: a) auto

lemma sum_re_eq: "sum_re jm r = sum_list (map (\<lambda>(_, j). job_rate j)
    (filter (\<lambda>(_, j). job_state j = JS_running \<and> job_group j = JG_extra) (jobs_on jm r)))"
  and sum_rb_eq: "sum_rb jm r = sum_list (map (\<lambda>(_, j). job_rate j)
    (filter (\<lambda>(_, j). job_state j = JS_running \<and> job_group j = JG_base) (jobs_on jm r)))"
  unfolding sum_re_def sum_rb_def by (subst fold_sum_if; simp)+

text \<open>Every job has a rate of at least zero.\<close>

definition rates_ok :: "jobmanager \<Rightarrow> bool" where
  "rates_ok jm \<longleftrightarrow> (\<forall>(_, j) \<in> set (basic_jobs jm). 0 \<le> job_rate j)"

lemma jobs_on_rate: "rates_ok jm \<Longrightarrow> (p, j) \<in> set (jobs_on jm r) \<Longrightarrow> 0 \<le> job_rate j"
  by (auto simp: rates_ok_def dest!: jobs_on_resolves map_of_SomeD)

lemma sums_nonneg: "rates_ok jm \<Longrightarrow> 0 \<le> sum_re jm r" "rates_ok jm \<Longrightarrow> 0 \<le> sum_rb jm r"
  unfolding sum_re_eq sum_rb_eq by (auto intro!: sum_list_map_nonneg dest: jobs_on_rate)

section \<open>The graph as its clients see it\<close>

text \<open>
  The abstract graph: a set of nodes and, for every edge, its end points and capacity. \<open>add_edge\<close> and
  \<open>del_node\<close> are the textbook operations on it.
\<close>

type_synonym agraph = "node_ptr set \<times> (string \<rightharpoonup> node_ptr \<times> node_ptr \<times> double)"

definition abs_edge :: "redge \<Rightarrow> node_ptr \<times> node_ptr \<times> double" where
  "abs_edge e = (the (src_node e), the (dst_node e), capacity e)"

definition abs_graph :: "rgraph \<Rightarrow> agraph" where
  "abs_graph g = ({p. node_at g p \<noteq> None}, map_option abs_edge \<circ> map_of (edges g))"

definition spec_add_edge :: "string \<Rightarrow> node_ptr \<Rightarrow> node_ptr \<Rightarrow> double \<Rightarrow> agraph \<Rightarrow> agraph" where
  "spec_add_edge k s d cap = (\<lambda>(N, E). (N, E(k \<mapsto> (s, d, cap))))"

definition spec_del_node :: "node_ptr \<Rightarrow> agraph \<Rightarrow> agraph" where
  "spec_del_node p = (\<lambda>(N, E). (N - {p}, \<lambda>k. case E k of None \<Rightarrow> None
     | Some (s, d, c) \<Rightarrow> if s = p \<or> d = p then None else Some (s, d, c)))"

lemma abs_del:
  assumes wf: "rg_wf g"
    and E: "\<And>k. map_of (edges g') k = (if k \<in> set (ins g p) \<union> set (outs g p) then None else map_of (edges g) k)"
    and N: "\<And>q. node_at g' q = (if q = p then None else map_option f (node_at g q))"
  shows "abs_graph g' = spec_del_node p (abs_graph g)"
proof -
  have "map_option abs_edge (map_of (edges g') k) = (case map_option abs_edge (map_of (edges g) k) of None \<Rightarrow> None
     | Some (s, d, c) \<Rightarrow> if s = p \<or> d = p then None else Some (s, d, c))" for k
  proof (cases "map_of (edges g) k")
    case (Some e)
    then show ?thesis
      using wf by (auto simp: E ins_iff outs_iff abs_edge_def elim: rg_wf_edgeE)
  qed (simp add: E)
  then show ?thesis by (auto simp: abs_graph_def spec_del_node_def N)
qed

lemma abs_add:
  assumes "rg_wf g" and "map_of (edges g) uid = None"
  shows "abs_graph (connect uid s d (g\<lparr>edges := emplace uid (REdge uid cap) (edges g)\<rparr>)) = spec_add_edge uid s d cap (abs_graph g)"
proof -
  let ?g = "connect uid s d (g\<lparr>edges := emplace uid (REdge uid cap) (edges g)\<rparr>)"
  have "node_at ?g q \<noteq> None \<longleftrightarrow> node_at g q \<noteq> None" for q
    by (simp add: connect_def node_at_edge_ops)
  moreover have "map_option abs_edge (map_of (edges ?g) k) = (if k = uid then Some (s, d, cap) else map_option abs_edge (map_of (edges g) k))" for k
    using assms rg_wfD(4) [OF assms(1)] by (simp add: connect_def abs_edge_def REdge_def)
  ultimately show ?thesis by (auto simp: abs_graph_def spec_add_edge_def fun_eq_iff)
qed

lemma scan_edges_found:
  assumes "rg_wf g" and "set es \<subseteq> set (edges g)" and "(k, e) \<in> set es" and "edge_matches g s d e = Inr True"
  shows "\<exists>k'. scan_edges g s d es = Inr (Some k')"
  using assms(2,3)
proof (induction es)
  case (Cons x es)
  obtain l f where x: "x = (l, f)" by (cases x)
  with Cons.prems(1) assms(1) have "map_of (edges g) l = Some f" by (simp add: rg_wfD map_ok_entry_iff)
  then obtain b where b: "edge_matches g s d f = Inr b" by (rule edge_matches_wf [OF assms(1)])
  then show ?case using Cons x assms(4) by (cases b) auto
qed simp

lemma has_edge_found:
  assumes "rg_wf g" and "map_of (edges g) k = Some e" and "edge_matches g s d e = Inr True"
  shows "has_edge g s d = Inr True"
proof -
  have "(k, e) \<in> set (edges g)" using assms(2) by (rule map_of_SomeD)
  from scan_edges_found [OF assms(1) order_refl this assms(3)] show ?thesis by (auto simp: has_edge_def)
qed

section \<open>Properties\<close>

text \<open>
  C9: deleting a node. On a well-formed graph \<open>del_node\<close> never follows a dangling pointer; it removes
  exactly the node and the edges that start or end at it, and leaves a well-formed graph, in which
  every edge list again agrees with the end points of the edges.
\<close>

theorem del_node_refines:
  assumes "rg_wf g" and "i \<noteq> ''gateway''" and "special_node_id g i = Some nid" and "get_node g nid = Inr p"
  shows "\<exists>g'. del_node i g = Inr g' \<and> rg_wf g' \<and> abs_graph g' = spec_del_node p (abs_graph g)"
proof -
  obtain g' where "del_node i g = Inr g'" "rg_wf g'"
    "\<And>k. map_of (edges g') k = (if k \<in> set (ins g p) \<union> set (outs g p) then None else map_of (edges g) k)"
    "\<And>q. node_at g' q = (if q = p then None else map_option (drop_ins (outs g p) \<circ> drop_outs (ins g p)) (node_at g q))"
    using del_node_known [OF assms] by blast
  then show ?thesis using abs_del [OF assms(1)] by blast
qed

text \<open>A small site: one storage, one DTN, the gateway, and the two edges of the path.\<close>

definition demo_graph :: rgraph where
  "demo_graph = connect ''E2'' (PStorage ''s'') (PDtn ''d'') ((connect ''E1'' (PDtn ''d'') (PGeneral gateway_id)
     ((add_storage_node ''s'' ''S'' ST_internal 5000 (add_dtn_node ''d'' ''D'' 0 (add_gateway RGraph)))
        \<lparr>edges := emplace ''E1'' (REdge ''E1'' 7000) []\<rparr>))\<lparr>edges := emplace ''E2'' (REdge ''E2'' 9000)
          [(''E1'', (REdge ''E1'' 7000)\<lparr>src_node := Some (PDtn ''d''), dst_node := Some (PGeneral gateway_id), connected := True\<rparr>)]\<rparr>)"

lemma rg_wf_demo: "rg_wf demo_graph"
proof -
  let ?g0 = "add_storage_node ''s'' ''S'' ST_internal 5000 (add_dtn_node ''d'' ''D'' 0 (add_gateway RGraph))"
  have e0: "edges ?g0 = []"
    by (simp add: add_storage_node_def add_dtn_node_def add_gateway_def add_general_node_def RGraph_def)
  have n0: "node_at ?g0 (PStorage ''s'') \<noteq> None" "node_at ?g0 (PDtn ''d'') \<noteq> None" "node_at ?g0 (PGeneral gateway_id) \<noteq> None"
    by (simp_all add: add_storage_node_def add_dtn_node_def add_gateway_def add_general_node_def RGraph_def)
  have "rg_wf ?g0" by (intro rg_wf_add_storage_node rg_wf_add_dtn_node rg_wf_add_gateway rg_wf_RGraph)
  from connect_new_edge [OF this _ n0(2,3), of "''E1''" 7000] e0
  have wf1: "rg_wf (connect ''E1'' (PDtn ''d'') (PGeneral gateway_id) (?g0\<lparr>edges := emplace ''E1'' (REdge ''E1'' 7000) []\<rparr>))"
    (is "rg_wf ?g1") by simp
  have e1: "edges ?g1 = [(''E1'', (REdge ''E1'' 7000)\<lparr>src_node := Some (PDtn ''d''), dst_node := Some (PGeneral gateway_id), connected := True\<rparr>)]"
    by (simp add: connect_def)
  have n1: "node_at ?g1 (PStorage ''s'') \<noteq> None" "node_at ?g1 (PDtn ''d'') \<noteq> None"
    using n0 by (simp_all add: connect_def node_at_edge_ops del: node_at_simps)
  from connect_new_edge [OF wf1 _ n1, of "''E2''" 9000] e1 show ?thesis
    by (simp add: demo_graph_def)
qed

theorem del_node_refines_witness:
  "\<exists>g'. del_node ''d'' demo_graph = Inr g' \<and> rg_wf g' \<and> abs_graph g' = spec_del_node (PDtn ''d'') (abs_graph demo_graph)"
proof (rule del_node_refines [OF rg_wf_demo])
  show "special_node_id demo_graph ''d'' = Some ''d''" "get_node demo_graph ''d'' = Inr (PDtn ''d'')"
    by code_simp+
qed simp

text \<open>
  Adding an edge. Between known nodes that \<open>has_edge\<close> does not connect yet, and with a guid that is
  not in use, \<open>add_edge\<close> adds exactly the one edge and keeps the graph well-formed.
\<close>

lemma add_edge_refines:
  assumes "rg_wf g" and "map_of (edges g) uid = None" and "has_edge g s d = Inr False"
    and "get_node g s = Inr sp" and "get_node g d = Inr dp"
  shows "\<exists>g'. add_edge uid s d cap g = Inr g' \<and> rg_wf g' \<and> abs_graph g' = spec_add_edge uid sp dp cap (abs_graph g)"
  using assms connect_new_edge [OF assms(1,2)] abs_add [OF assms(1,2)] get_node_at
  by (auto simp: add_edge_def)

lemma add_edge_refines_witness:
  "\<exists>g'. add_edge ''E3'' ''d'' ''s'' 10 demo_graph = Inr g' \<and> rg_wf g' \<and>
     abs_graph g' = spec_add_edge ''E3'' (PDtn ''d'') (PStorage ''s'') 10 (abs_graph demo_graph)"
  by (rule add_edge_refines [OF rg_wf_demo]) code_simp+

text \<open>
  Registering the link between a storage (or DTN) and a DTN twice is harmless: after \<open>add_edge\<close> the
  edge is found again, and a second \<open>add_edge\<close> with any guid changes nothing.
\<close>

lemma add_edge_idempotent:
  assumes "rg_wf g" and "map_of (edges g) uid = None" and "add_edge uid s d cap g = Inr g'"
    and "has_storage_node g s \<or> has_dtn_node g s" and "has_storage_node g d \<or> has_dtn_node g d"
  shows "has_edge g' s d = Inr True \<and> add_edge uid2 s d cap2 g' = Inr g'"
proof -
  have wf': "rg_wf g'" using assms(1-3) by (rule rg_wf_add_edge)
  have "has_edge g' s d = Inr True"
  proof (cases "has_edge g s d = Inr True")
    case True
    with assms(3) show ?thesis by (simp add: add_edge_def)
  next
    case False
    then have new: "has_edge g s d = Inr False" using has_edge_defined [OF assms(1)] by (metis (full_types))
    obtain sp dp where n: "get_node g s = Inr sp" "get_node g d = Inr dp"
      and g': "g' = connect uid sp dp (g\<lparr>edges := emplace uid (REdge uid cap) (edges g)\<rparr>)"
      using assms(3) new by (auto simp: add_edge_def bind_r_Inr_iff)
    have rid: "\<exists>m. node_at g p = Some m \<and> rid m = i" if "get_node g i = Inr p" "has_storage_node g i \<or> has_dtn_node g i" for i p
      using that rg_wfD(5,6) [OF assms(1)]
      by (auto simp: get_node_def has_storage_node_def has_dtn_node_def has_key_def rnode.defs split: if_splits)
    let ?e = "(REdge uid cap)\<lparr>src_node := Some sp, dst_node := Some dp, connected := True\<rparr>"
    have "map_of (edges g') uid = Some ?e" using assms(2) rg_wfD(4) [OF assms(1)] by (simp add: g' connect_def)
    moreover have "edge_matches g' s d ?e = Inr True"
      using rid [OF n(1) assms(4)] rid [OF n(2) assms(5)]
      by (auto simp: edge_matches_def ptr_rid_def g' connect_def node_at_edge_ops)
    ultimately show ?thesis by (rule has_edge_found [OF wf'])
  qed
  then show ?thesis by (simp add: add_edge_def)
qed

lemma add_edge_idempotent_witness:
  "\<exists>g'. add_edge ''E3'' ''d'' ''s'' 10 demo_graph = Inr g' \<and>
     has_edge g' ''d'' ''s'' = Inr True \<and> add_edge ''E4'' ''d'' ''s'' 20 g' = Inr g'"
proof -
  have "\<not> isl (add_edge ''E3'' ''d'' ''s'' 10 demo_graph)" by code_simp
  then obtain g' where g': "add_edge ''E3'' ''d'' ''s'' 10 demo_graph = Inr g'"
    by (cases "add_edge ''E3'' ''d'' ''s'' 10 demo_graph") simp_all
  have "map_of (edges demo_graph) ''E3'' = None" "has_dtn_node demo_graph ''d''" "has_storage_node demo_graph ''s''"
    by code_simp+
  then show ?thesis using add_edge_idempotent [OF rg_wf_demo _ g'] g' by blast
qed

text \<open>
  The link of a DTN to the gateway is not found again. The gateway is stored under
  \<open>RGRAPH_ID_GATEWAY\<close> but its id is \<open>gateway\<close>, and \<open>has_edge\<close> compares ids; so \<open>add_edge_to_gateway\<close>
  always adds another edge, and the DTN ends up with one outgoing edge more.
\<close>

lemma gateway_edge_duplicated:
  assumes "rg_wf g" and "map_of (edges g) uid = None" and "add_edge_to_gateway uid d cap g = Inr g'"
    and "map_of (general_nodes g) gateway_id = Some gw" and "rid gw = ''gateway''"
    and "\<not> has_storage_node g gateway_id" and "\<not> has_dtn_node g gateway_id" and "\<not> has_storage_node g d"
    and "\<And>k n. map_of (general_nodes g) k = Some n \<Longrightarrow> rid n \<noteq> gateway_id"
  shows "outs g' (PDtn d) = outs g (PDtn d) @ [uid]"
proof -
  have dtn: "has_dtn_node g d" and add: "add_edge uid d gateway_id cap g = Inr g'"
    using assms(3) by (auto simp: add_edge_to_gateway_def split: if_splits)
  have no_rid: "rid m \<noteq> gateway_id" if "node_at g p = Some m" for p m
    using that assms(6,7,9) rg_wfD(5,6) [OF assms(1)]
    by (cases p) (auto simp: has_storage_node_def has_dtn_node_def has_key_def rnode.defs)
  have "edge_matches g d gateway_id e \<noteq> Inr True" for e
    using no_rid by (auto simp: edge_matches_def ptr_rid_def bind_r_Inr_iff split: option.splits if_splits)
  then have "scan_edges g d gateway_id es \<noteq> Inr (Some k)" for es k
    by (induction es) (auto simp: bind_r_Inr_iff split: if_splits)
  moreover obtain r where "scan_edges g d gateway_id (edges g) = Inr r"
    using scan_edges_defined [OF assms(1) order_refl] by blast
  ultimately have "has_edge g d gateway_id = Inr False" by (cases r) (simp_all add: has_edge_def)
  moreover have "get_node g d = Inr (PDtn d)" "get_node g gateway_id = Inr (PGeneral gateway_id)"
    using dtn assms(4,6,7,8) by (simp_all add: get_node_def has_general_node_def has_key_def)
  ultimately show ?thesis
    using add dtn by (auto simp: add_edge_def connect_def has_dtn_node_def has_key_def)
qed

lemma gateway_edge_duplicated_witness:
  "\<exists>g'. add_edge_to_gateway ''E9'' ''d'' 10 demo_graph = Inr g' \<and>
     outs g' (PDtn ''d'') = outs demo_graph (PDtn ''d'') @ [''E9'']"
proof -
  have "\<not> isl (add_edge_to_gateway ''E9'' ''d'' 10 demo_graph)" by code_simp
  then obtain g' where g': "add_edge_to_gateway ''E9'' ''d'' 10 demo_graph = Inr g'"
    by (cases "add_edge_to_gateway ''E9'' ''d'' 10 demo_graph") simp_all
  have gn: "general_nodes demo_graph = [(gateway_id, add_in_edge ''E1'' (RNode ''gateway'' ''Gateway'' 0))]"
    by (simp add: demo_graph_def connect_def node_add_in_def node_add_out_def add_storage_node_def add_dtn_node_def
        add_gateway_def add_general_node_def RGraph_def)
  have "outs g' (PDtn ''d'') = outs demo_graph (PDtn ''d'') @ [''E9'']"
  proof (rule gateway_edge_duplicated [OF rg_wf_demo _ g'])
    show "map_of (edges demo_graph) ''E9'' = None" "\<not> has_storage_node demo_graph gateway_id"
      "\<not> has_dtn_node demo_graph gateway_id" "\<not> has_storage_node demo_graph ''d''" by code_simp+
    show "map_of (general_nodes demo_graph) gateway_id = Some (add_in_edge ''E1'' (RNode ''gateway'' ''Gateway'' 0))"
      using gn by simp
    show "rid n \<noteq> gateway_id" if "map_of (general_nodes demo_graph) k = Some n" for k n
    proof -
      have "n = add_in_edge ''E1'' (RNode ''gateway'' ''Gateway'' 0)" using that gn by (simp split: if_splits)
      then show ?thesis by (simp add: gateway_id_def)
    qed
  qed simp
  with g' show ?thesis by blast
qed

end
