(* ===== verification/Utils.thy ===== *)
theory Utils
  imports BDE_Prelude "HOL-Library.Word" "HOL-Library.Sublist"
begin

text \<open>
  The string utilities of \<open>src/utils/utils.h\<close> and \<open>src/utils/utils.cc\<close>: \<open>split\<close>, \<open>find_and_replace\<close>,
  \<open>guid\<close>, \<open>is_private_ip\<close> and \<open>string2size\<close>. The random numbers \<open>guid\<close> draws are its arguments.
\<close>

section \<open>Splitting\<close>

text \<open>
  \<open>split\<close> repeats \<open>std::getline(ss, item, delim)\<close>: a line ends at the delimiter, which is dropped, or
  at the end of the input; reading at the end of the input fails, so that a trailing delimiter does
  not start another (empty) element.
\<close>

function split :: "string \<Rightarrow> char \<Rightarrow> string list" where
  "split s delim = (if s = [] then []
     else takeWhile (\<lambda>c. c \<noteq> delim) s # split (drop 1 (dropWhile (\<lambda>c. c \<noteq> delim) s)) delim)"
  by pat_completeness auto
termination
proof (relation "measure (length \<circ> fst)")
  fix s :: string and delim assume "s \<noteq> []"
  then show "((drop 1 (dropWhile (\<lambda>c. c \<noteq> delim) s), delim), s, delim) \<in> measure (length \<circ> fst)"
    using length_dropWhile_le [of "\<lambda>c. c \<noteq> delim" s]
    by (cases s) (auto simp: le_imp_diff_is_add intro: le_less_trans [OF diff_le_self])
qed simp

declare split.simps [simp del]

lemma split_Nil [simp]: "split [] d = []"
  by (simp add: split.simps)

fun join_with :: "char \<Rightarrow> string list \<Rightarrow> string" where
  "join_with d [] = []"
| "join_with d (x # xs) = x @ d # join_with d xs"

lemma split_cons: "d \<notin> set x \<Longrightarrow> split (x @ d # s) d = x # split s d"
proof -
  assume "d \<notin> set x"
  then have "takeWhile (\<lambda>c. c \<noteq> d) (x @ d # s) = x" "dropWhile (\<lambda>c. c \<noteq> d) (x @ d # s) = d # s"
    by (induction x) auto
  then show ?thesis by (subst split.simps) simp
qed

lemma split_join: "\<forall>x \<in> set xs. d \<notin> set x \<Longrightarrow> split (join_with d xs) d = xs"
  by (induction xs) (simp_all add: split_cons)

lemma split_single: "d \<notin> set x \<Longrightarrow> split x d = (if x = [] then [] else [x])"
proof -
  assume "d \<notin> set x"
  then have "takeWhile (\<lambda>c. c \<noteq> d) x = x" and drop: "dropWhile (\<lambda>c. c \<noteq> d) x = []"
    by (induction x) auto
  then show ?thesis by (subst split.simps) (simp only: drop drop_Nil split_Nil)
qed

lemma split_no_delim: "x \<in> set (split s d) \<Longrightarrow> d \<notin> set x"
proof (induction s d rule: split.induct)
  case (1 s d)
  show ?case
  proof (cases "s = []")
    case False
    with "1.prems" have "x = takeWhile (\<lambda>c. c \<noteq> d) s \<or> x \<in> set (split (drop 1 (dropWhile (\<lambda>c. c \<noteq> d) s)) d)"
      by (subst (asm) split.simps) simp
    with "1.IH" False show ?thesis by (auto dest: set_takeWhileD)
  qed (use "1.prems" in simp)
qed

section \<open>Search and replace\<close>

text \<open>\<open>std::string::find(find, i)\<close>: the first position from \<open>i\<close> on where \<open>find\<close> occurs.\<close>

definition str_find :: "string \<Rightarrow> string \<Rightarrow> nat \<Rightarrow> nat option" where
  "str_find s f i = List.find (\<lambda>j. prefix f (drop j s)) [i..<Suc (length s)]"

definition str_replace :: "string \<Rightarrow> nat \<Rightarrow> nat \<Rightarrow> string \<Rightarrow> string" where
  "str_replace s i n r = take i s @ r @ drop (i + n) s"

lemma str_find_Some:
  "str_find s f i = Some j \<Longrightarrow> i \<le> j \<and> prefix f (drop j s) \<and> (\<forall>k. i \<le> k \<longrightarrow> k < j \<longrightarrow> \<not> prefix f (drop k s))"
proof -
  assume "str_find s f i = Some j"
  then obtain n where n: "n < length [i..<Suc (length s)]" "prefix f (drop ([i..<Suc (length s)] ! n) s)"
      "j = [i..<Suc (length s)] ! n" "\<forall>m<n. \<not> prefix f (drop ([i..<Suc (length s)] ! m) s)"
    by (auto simp: str_find_def find_Some_iff)
  then have j: "j = i + n" by (simp del: upt_Suc)
  have "\<not> prefix f (drop k s)" if "i \<le> k" "k < j" for k
    using n(4) [rule_format, of "k - i"] n(1) that j by (simp del: upt_Suc)
  with n(2,3) j show ?thesis by auto
qed

lemma str_find_bound: "str_find s f i = Some j \<Longrightarrow> f \<noteq> [] \<Longrightarrow> j + length f \<le> length s"
proof -
  assume j: "str_find s f i = Some j" and "f \<noteq> []"
  have "length f \<le> length s - j" "length f \<noteq> 0"
    using prefix_length_le [of f "drop j s"] str_find_Some [OF j] \<open>f \<noteq> []\<close> by auto
  then show ?thesis by linarith
qed

text \<open>
  The loop of \<open>find_and_replace\<close>. Every occurrence is replaced in place and the search goes on behind
  the replacement. With an empty \<open>find\<close> the loop of the source never ends.
\<close>

function find_and_replace_from :: "string \<Rightarrow> string \<Rightarrow> string \<Rightarrow> nat \<Rightarrow> string option" where
  "find_and_replace_from s f r i =
     (if f = [] then None else
      case str_find s f i of
        None \<Rightarrow> Some s
      | Some j \<Rightarrow> find_and_replace_from (str_replace s j (length f) r) f r (j + length r))"
  by pat_completeness auto
termination
proof (relation "measure (\<lambda>(s, f, r, i). length s - i)")
  fix s f r i j assume f: "f \<noteq> ([] :: string)" and j: "str_find s f i = Some j"
  have "i \<le> j" "j + length f \<le> length s"
    using str_find_Some [OF j] str_find_bound [OF j f] by auto
  then show "((str_replace s j (length f) r, f, r, j + length r), s, f, r, i) \<in> measure (\<lambda>(s, f, r, i). length s - i)"
    using f by (cases f) (auto simp: str_replace_def)
qed simp

declare find_and_replace_from.simps [simp del]

definition find_and_replace :: "string \<Rightarrow> string \<Rightarrow> string \<Rightarrow> string option" where
  "find_and_replace s f r = find_and_replace_from s f r 0"

text \<open>The reference: one left-to-right pass over the input.\<close>

function replace_all :: "string \<Rightarrow> string \<Rightarrow> string \<Rightarrow> string" where
  "replace_all f r s = (if s = [] \<or> f = [] then s
     else if prefix f s then r @ replace_all f r (drop (length f) s)
     else hd s # replace_all f r (tl s))"
  by pat_completeness auto
termination
  by (relation "measure (\<lambda>(f, r, s). length s)") auto

declare replace_all.simps [simp del]

lemma replace_all_skip:
  assumes "f \<noteq> []" and "\<And>k. k < n \<Longrightarrow> \<not> prefix f (drop k s)" and "n \<le> length s"
  shows "replace_all f r s = take n s @ replace_all f r (drop n s)"
  using assms(2,3)
proof (induction n arbitrary: s)
  case (Suc n)
  from Suc.prems(2) obtain c t where s: "s = c # t" by (cases s) auto
  have "\<not> prefix f s" using Suc.prems(1) [of 0] by simp
  then have "replace_all f r s = c # replace_all f r t"
    using assms(1) s by (subst replace_all.simps) simp
  moreover have "replace_all f r t = take n t @ replace_all f r (drop n t)"
  proof (rule Suc.IH)
    show "\<not> prefix f (drop k t)" if "k < n" for k
      using Suc.prems(1) [of "Suc k"] that s by simp
  qed (use Suc.prems s in simp)
  ultimately show ?case using s by simp
qed simp

lemma replace_all_none:
  assumes "f \<noteq> []" and "\<And>k. k \<le> length s \<Longrightarrow> \<not> prefix f (drop k s)"
  shows "replace_all f r s = s"
proof -
  have "replace_all f r s = take (length s) s @ replace_all f r (drop (length s) s)"
    using assms by (intro replace_all_skip) auto
  then show ?thesis by (simp add: replace_all.simps)
qed

lemma find_and_replace_from_eq:
  "f \<noteq> [] \<Longrightarrow> i \<le> length s \<Longrightarrow> find_and_replace_from s f r i = Some (take i s @ replace_all f r (drop i s))"
proof (induction s f r i rule: find_and_replace_from.induct)
  case (1 s f r i)
  show ?case
  proof (cases "str_find s f i")
    case None
    have "\<not> prefix f (drop k (drop i s))" if "k \<le> length (drop i s)" for k
      using None that "1.prems"(2) by (auto simp: str_find_def find_None_iff add.commute simp del: upt_Suc)
    then have "replace_all f r (drop i s) = drop i s"
      using "1.prems"(1) by (intro replace_all_none) auto
    with None "1.prems" show ?thesis by (subst find_and_replace_from.simps) simp
  next
    case (Some j)
    note j = str_find_Some [OF Some] and b = str_find_bound [OF Some "1.prems"(1)]
    let ?t = "str_replace s j (length f) r"
    have t: "take (j + length r) ?t = take j s @ r" "drop (j + length r) ?t = drop (j + length f) s"
      using b by (simp_all add: str_replace_def)
    have skip: "replace_all f r (drop i s) = take (j - i) (drop i s) @ replace_all f r (drop j s)"
      using replace_all_skip [OF "1.prems"(1), of "j - i" "drop i s"] j b by (auto simp: less_diff_conv)
    have "drop j s \<noteq> []" using b "1.prems"(1) by (cases f) auto
    then have "replace_all f r (drop j s) = r @ replace_all f r (drop (j + length f) s)"
      using j "1.prems"(1) by (subst replace_all.simps) (simp add: add.commute)
    moreover have "find_and_replace_from ?t f r (j + length r) = Some (take j s @ r @ replace_all f r (drop (j + length f) s))"
      using "1.IH" [OF "1.prems"(1) Some] "1.prems"(1) t b by (simp add: str_replace_def)
    moreover have "take j s = take i s @ take (j - i) (drop i s)"
      using j by (metis add_diff_inverse_nat not_less take_add)
    ultimately show ?thesis
      using skip Some "1.prems"(1) by (subst find_and_replace_from.simps) simp
  qed
qed

section \<open>Identifiers\<close>

definition hex_digit :: "int \<Rightarrow> char" where
  "hex_digit n = ''0123456789ABCDEF'' ! nat n"

text \<open>\<open>std::uppercase << std::setfill('0') << std::setw(4) << std::hex << (std::rand() % 65536)\<close>.\<close>

definition hex4 :: "int \<Rightarrow> string" where
  "hex4 x = (let n = x mod 65536
     in [hex_digit (n div 4096), hex_digit (n div 256 mod 16), hex_digit (n div 16 mod 16), hex_digit (n mod 16)])"

definition guid :: "int \<Rightarrow> int \<Rightarrow> int \<Rightarrow> int \<Rightarrow> string" where
  "guid a b c d = hex4 a @ ''-'' @ hex4 b @ ''-'' @ hex4 c @ ''-'' @ hex4 d"

text \<open>Drawing a guid from the sequence \<open>std::rand()\<close> will return.\<close>

type_synonym rand = "nat \<Rightarrow> int"

definition guid_of :: "rand \<Rightarrow> string" where
  "guid_of r = guid (r 0) (r 1) (r 2) (r 3)"

definition after_guid :: "rand \<Rightarrow> rand" where
  "after_guid r = (\<lambda>n. r (n + 4))"

lemma hex_digit_inj: "0 \<le> m \<Longrightarrow> m < 16 \<Longrightarrow> 0 \<le> n \<Longrightarrow> n < 16 \<Longrightarrow> hex_digit m = hex_digit n \<longleftrightarrow> m = n"
  unfolding hex_digit_def by (subst nth_eq_iff_index_eq) auto

lemma hex4_digits: "n = 4096 * (n div 4096) + 256 * (n div 256 mod 16) + 16 * (n div 16 mod 16) + n mod 16" for n :: int
proof -
  have "n div 16 = 16 * (n div 256) + n div 16 mod 16" "n div 256 = 16 * (n div 4096) + n div 256 mod 16"
    using mult_div_mod_eq [of 16 "n div 16"] mult_div_mod_eq [of 16 "n div 256"]
    by (simp_all add: zdiv_zmult2_eq [symmetric])
  then show ?thesis using mult_div_mod_eq [of 16 n] by linarith
qed

lemma hex4_inj: "hex4 a = hex4 b \<longleftrightarrow> a mod 65536 = b mod 65536"
proof
  let ?m = "a mod 65536" and ?n = "b mod 65536"
  assume "hex4 a = hex4 b"
  moreover have "0 \<le> ?m div 4096 \<and> ?m div 4096 < 16" "0 \<le> ?n div 4096 \<and> ?n div 4096 < 16"
    by (simp_all add: div_less_iff_less_mult pos_imp_zdiv_nonneg_iff)
  ultimately have "?m div 4096 = ?n div 4096" "?m div 256 mod 16 = ?n div 256 mod 16"
      "?m div 16 mod 16 = ?n div 16 mod 16" "?m mod 16 = ?n mod 16"
    by (simp_all add: hex4_def Let_def hex_digit_inj)
  then show "?m = ?n"
    by (metis hex4_digits)
qed (simp add: hex4_def)

lemma length_hex4 [simp]: "length (hex4 n) = 4"
  by (simp add: hex4_def Let_def)

text \<open>Two draws give the same guid only if all four numbers agree modulo 65536.\<close>

lemma guid_eq_iff: "guid a b c d = guid a' b' c' d' \<longleftrightarrow>
    a mod 65536 = a' mod 65536 \<and> b mod 65536 = b' mod 65536 \<and> c mod 65536 = c' mod 65536 \<and> d mod 65536 = d' mod 65536"
  by (simp add: guid_def hex4_inj)

section \<open>Addresses and sizes\<close>

text \<open>\<open>ip.compare(0, n, lit)\<close> is zero iff the first \<open>n\<close> characters are the literal.\<close>

definition is_private_ip :: "string \<Rightarrow> bool" where
  "is_private_ip ip \<longleftrightarrow> take 4 ip = ''192.'' \<or> take 4 ip = ''172.'' \<or> take 3 ip = ''10.''"

text \<open>
  \<open>sscanf(str, "%zu%s", &size, unit)\<close>: leading blanks, an optional sign, digits; then blanks and a
  word. A negative number wraps around; a value too large for \<open>size_t\<close> is undefined in C and left out.
\<close>

definition is_space :: "char \<Rightarrow> bool" where
  "is_space c \<longleftrightarrow> c \<in> {CHR '' '', CHR 0x09, CHR 0x0A, CHR 0x0B, CHR 0x0C, CHR 0x0D}"

definition is_digit :: "char \<Rightarrow> bool" where
  "is_digit c \<longleftrightarrow> 48 \<le> (of_char c :: nat) \<and> (of_char c :: nat) \<le> 57"

definition digits_value :: "string \<Rightarrow> nat" where
  "digits_value ds = foldl (\<lambda>n c. 10 * n + (of_char c - 48)) 0 ds"

definition scan_size :: "string \<Rightarrow> 64 word \<times> string" where
  "scan_size str =
     (let s = dropWhile is_space str;
          neg = (s \<noteq> [] \<and> hd s = CHR ''-'');
          s' = (if s \<noteq> [] \<and> (hd s = CHR ''-'' \<or> hd s = CHR ''+'') then tl s else s);
          ds = takeWhile is_digit s'
      in if ds = [] then (0, [])
         else (let n = word_of_nat (digits_value ds)
               in (if neg then - n else n,
                   takeWhile (\<lambda>c. \<not> is_space c) (dropWhile is_space (dropWhile is_digit s')))))"

definition size_units :: "(string \<times> 64 word) list" where
  "size_units =
    [(''KB'', 1000), (''kB'', 1000), (''K'', 1000), (''k'', 1000),
     (''MB'', 1000000), (''M'', 1000000),
     (''GB'', 1000000000), (''G'', 1000000000),
     (''TB'', 1000000000000), (''T'', 1000000000000),
     (''P'', 1000000000000000), (''PB'', 1000000000000000),
     (''KiB'', 1024), (''MiB'', 1048576), (''GiB'', 1073741824)]"

definition string2size :: "string \<Rightarrow> (exn, 64 word) result" where
  "string2size str =
     (let (size, unit) = scan_size str
      in case map_of size_units unit of
           None \<Rightarrow> if unit \<noteq> [] then Inl (Runtime_error (''Don'' @ [CHR 0x27] @ ''t know how to handle unit '' @ [CHR 0x22] @ unit @ [CHR 0x22])) else Inr size
         | Some f \<Rightarrow> Inr (size * f))"

section \<open>Numbers in strings\<close>

text \<open>
  \<open>std::stoi\<close> and \<open>std::stod\<close>: leading blanks, a sign, then as many characters as form a number; no digit at
  all is \<open>std::invalid_argument\<close>, a value outside \<open>int\<close> is \<open>std::out_of_range\<close>. For \<open>std::stod\<close> the decimal
  notation is modelled (digits, fraction, exponent), not hexadecimal, infinities and NaN.
\<close>

definition sign_of :: "string \<Rightarrow> int \<times> string" where
  "sign_of s = (case s of
     c # t \<Rightarrow> if c = CHR ''-'' then (- 1, t) else if c = CHR ''+'' then (1, t) else (1, s)
   | [] \<Rightarrow> (1, s))"

definition stoi :: "string \<Rightarrow> (exn, int) result" where
  "stoi str =
     (let (sg, t) = sign_of (dropWhile is_space str); ds = takeWhile is_digit t; n = sg * int (digits_value ds)
      in if ds = [] then Inl Invalid_argument
         else if - (2 ^ 31) \<le> n \<and> n \<le> 2 ^ 31 - 1 then Inr n else Inl Out_of_range)"

definition exponent_of :: "string \<Rightarrow> int" where
  "exponent_of s = (case s of
     c # t \<Rightarrow> if c = CHR ''e'' \<or> c = CHR ''E''
       then (let (sg, u) = sign_of t in sg * int (digits_value (takeWhile is_digit u))) else 0
   | [] \<Rightarrow> 0)"

definition stod :: "string \<Rightarrow> (exn, double) result" where
  "stod str =
     (let (sg, t) = sign_of (dropWhile is_space str); ip = takeWhile is_digit t; r1 = dropWhile is_digit t;
          (fp, r2) = (case r1 of c # u \<Rightarrow> if c = CHR ''.'' then (takeWhile is_digit u, dropWhile is_digit u) else ([], r1) | [] \<Rightarrow> ([], r1));
          m = of_int (sg * int (digits_value (ip @ fp))) / 10 ^ length fp; e = exponent_of r2
      in if ip = [] \<and> fp = [] then Inl Invalid_argument
         else Inr (if 0 \<le> e then m * 10 ^ nat e else m / 10 ^ nat (- e)))"

text \<open>\<open>std::to_string\<close> of an integer is the decimal notation.\<close>

function dec_digits :: "int \<Rightarrow> string \<Rightarrow> string" where
  "dec_digits n acc = (let acc' = ''0123456789'' ! nat (n mod 10) # acc
     in if 0 < n div 10 then dec_digits (n div 10) acc' else acc')"
  by pat_completeness auto
termination
  by (relation "measure (nat \<circ> fst)") auto

declare dec_digits.simps [simp del]

definition to_string :: "int \<Rightarrow> string" where
  "to_string n = (if n < 0 then CHR ''-'' # dec_digits (- n) [] else dec_digits n [])"

section \<open>Properties\<close>

text \<open>
  \<open>find_and_replace\<close> ends for every non-empty search string and returns what one left-to-right pass over
  the input gives, in which every occurrence is replaced and no replacement is searched again.
\<close>

lemma find_and_replace_spec:
  assumes "f \<noteq> []"
  shows "find_and_replace s f r = Some (replace_all f r s)"
  using find_and_replace_from_eq [OF assms, of 0 s r] by (simp add: find_and_replace_def)

lemma find_and_replace_spec_witness: "find_and_replace ''a/b/c'' ''/'' ''//'' = Some ''a//b//c''"
proof -
  have "find_and_replace ''a/b/c'' ''/'' ''//'' = Some (replace_all ''/'' ''//'' ''a/b/c'')"
    by (rule find_and_replace_spec) simp
  also have "replace_all ''/'' ''//'' ''a/b/c'' = ''a//b//c''" by (simp add: replace_all.simps)
  finally show ?thesis .
qed

text \<open>
  \<open>split\<close> inverts joining. Pieces without the delimiter, each followed by it, are split into exactly these
  pieces, empty ones included, and whatever the input, no piece contains the delimiter.
\<close>

lemma split_roundtrip:
  assumes "\<forall>x \<in> set xs. d \<notin> set x"
  shows "split (join_with d xs) d = xs \<and> (\<forall>s. \<forall>y \<in> set (split s d). d \<notin> set y)"
  using split_join [OF assms] split_no_delim by blast

lemma split_roundtrip_witness: "split ''a,,bc,'' (CHR '','') = [''a'', [], ''bc'']"
  using split_roundtrip [of "[''a'', [], ''bc'']" "CHR '',''"] by simp

end
