(* ===== verification/Resource_Manager.thy ===== *)
theory Resource_Manager
  imports Resource_Graph Utils
begin

text \<open>
  The resource manager of \<open>src/server/resourcemanager.cc\<close>: building the resource graph from the site
  store and from the modules that agents register, admission control (\<open>probe_path_rate\<close>), DTN
  provisioning with preemption of extra jobs (\<open>query_path_dtns\<close>), the pairing of source and destination
  DTNs (\<open>match_path_dtns\<close>) and job creation.

  The state holds the job manager, the graph, the random numbers still to be drawn (for guids) and the
  commands sent to the site store. What the store returns is an argument.
\<close>

section \<open>State\<close>

datatype stream_cmd = UpdateStreamState string int | InsertStream json

record rm_state =
  rm_jm :: jobmanager
  rm_rg :: rgraph
  rm_rand :: rand
  rm_cmds :: "stream_cmd list"

type_synonym 'a rm_act = "(rm_state, exn, 'a) act"

definition str_at :: "json \<Rightarrow> string list \<Rightarrow> (exn, string) result" where
  "str_at j ks = opt_r Json_error (Option.bind (getk j ks) asString)"

definition double_at :: "json \<Rightarrow> sel list \<Rightarrow> (exn, double) result" where
  "double_at j p = opt_r Json_error (Option.bind (jget j p) asDouble)"

definition on_graph :: "(rgraph \<Rightarrow> rgraph) \<Rightarrow> unit rm_act" where
  "on_graph f = upd_a (\<lambda>s. s\<lparr>rm_rg := f (rm_rg s)\<rparr>)"

definition try_graph :: "(rgraph \<Rightarrow> (exn, rgraph) result) \<Rightarrow> unit rm_act" where
  "try_graph f = (\<lambda>s. case f (rm_rg s) of Inl e \<Rightarrow> (Inl e, s) | Inr g \<Rightarrow> (Inr (), s\<lparr>rm_rg := g\<rparr>))"

text \<open>Adding an edge draws a guid when, and only when, a new \<open>REdge\<close> is constructed: then the graph changes.\<close>

definition with_guid :: "(string \<Rightarrow> rgraph \<Rightarrow> (exn, rgraph) result) \<Rightarrow> unit rm_act" where
  "with_guid f = (\<lambda>s. case f (guid_of (rm_rand s)) (rm_rg s) of
     Inl e \<Rightarrow> (Inl e, s)
   | Inr g \<Rightarrow> (Inr (), s\<lparr>rm_rg := g, rm_rand := if g = rm_rg s then rm_rand s else after_guid (rm_rand s)\<rparr>))"

definition rm_add_edge :: "string \<Rightarrow> string \<Rightarrow> double \<Rightarrow> unit rm_act" where
  "rm_add_edge s d cap = with_guid (\<lambda>uid. add_edge uid s d cap)"

definition rm_add_edge_to_gateway :: "string \<Rightarrow> double \<Rightarrow> unit rm_act" where
  "rm_add_edge_to_gateway s cap = with_guid (\<lambda>uid. add_edge_to_gateway uid s cap)"

definition upd_storage :: "string \<Rightarrow> (storage_node \<Rightarrow> storage_node) \<Rightarrow> unit rm_act" where
  "upd_storage i f = on_graph (\<lambda>g. g\<lparr>s_nodes := adjust i f (s_nodes g)\<rparr>)"

definition upd_dtn :: "string \<Rightarrow> (dtn_node \<Rightarrow> dtn_node) \<Rightarrow> unit rm_act" where
  "upd_dtn i f = on_graph (\<lambda>g. g\<lparr>dtn_nodes := adjust i f (dtn_nodes g)\<rparr>)"

definition ResourceManager :: "jobmanager \<Rightarrow> rand \<Rightarrow> rm_state" where
  "ResourceManager jm r = \<lparr>rm_jm = jm, rm_rg = add_gateway RGraph, rm_rand = r, rm_cmds = []\<rparr>"

section \<open>Building the graph\<close>

definition construct_storage :: "json \<Rightarrow> unit rm_act" where
  "construct_storage s =
     bind_a (lift_r (str_at s [''id''])) (\<lambda>i.
     bind_a (lift_r (str_at s [''name''])) (\<lambda>n.
     bind_a (lift_r (double_at s [K ''io_capacity''])) (\<lambda>cap.
     bind_a (on_graph (add_storage_node i n ST_internal cap)) (\<lambda>_.
     bind_a (lift_r (str_at s [''queue_name''])) (\<lambda>q.
     bind_a (upd_storage i (\<lambda>x. x\<lparr>rqueue := q\<rparr>)) (\<lambda>_.
     bind_a (lift_r (str_at s [''root_folder''])) (\<lambda>rf.
     bind_a (upd_storage i (\<lambda>x. x\<lparr>root_folder := rf\<rparr>)) (\<lambda>_.
     upd_storage i (\<lambda>x. x\<lparr>properties := s\<rparr>)))))))))"

definition construct_dtn :: "json \<Rightarrow> unit rm_act" where
  "construct_dtn d =
     bind_a (lift_r (str_at d [''id''])) (\<lambda>i.
     bind_a (lift_r (str_at d [''name''])) (\<lambda>n.
     bind_a (on_graph (add_dtn_node i n 0)) (\<lambda>_.
     bind_a (lift_r (str_at d [''ctrl_interface'', ''ip''])) (\<lambda>ip.
     bind_a (upd_dtn i (\<lambda>x. x\<lparr>ctrl_ip := ip\<rparr>)) (\<lambda>_.
     bind_a (lift_r (str_at d [''queue_name''])) (\<lambda>q.
     bind_a (upd_dtn i (\<lambda>x. x\<lparr>rqueue := q\<rparr>)) (\<lambda>_.
     bind_a (upd_dtn i (\<lambda>x. x\<lparr>properties := d\<rparr>)) (\<lambda>_.
     bind_a (lift_r (double_at d [K ''data_interfaces'', I 0, K ''rate''])) (\<lambda>rate.
     rm_add_edge_to_gateway i rate)))))))))"

text \<open>\<open>rg.add_edge(s, d, rate); rg.get_storage_node(s).set_one_dtn_node(rg.get_dtn_node(d));\<close>\<close>

definition link_storage_dtn :: "string \<Rightarrow> string \<Rightarrow> double \<Rightarrow> unit rm_act" where
  "link_storage_dtn s d rate =
     bind_a (rm_add_edge s d rate) (\<lambda>_.
     bind_a (get_a rm_rg) (\<lambda>g.
     bind_a (lift_r (get_storage_node g s)) (\<lambda>_.
     bind_a (lift_r (get_dtn_node g d)) (\<lambda>_.
     on_graph (set_one_dtn_node s d)))))"

text \<open>The handler prints two members of the entry, which throws again when the entry is no object.\<close>

definition construct_sdmap :: "json \<Rightarrow> unit rm_act" where
  "construct_sdmap sd = catch_a
     (bind_a (lift_r (str_at sd [''storage''])) (\<lambda>s.
      bind_a (lift_r (str_at sd [''dtn''])) (\<lambda>d.
      link_storage_dtn s d 40000000000)))
     (bind_a (lift_r (opt_r Json_error (at_key sd ''storage''))) (\<lambda>_.
      bind_a (lift_r (opt_r Json_error (at_key sd ''dtn''))) (\<lambda>_. ret_a ())))"

definition construct :: "json \<Rightarrow> json \<Rightarrow> json \<Rightarrow> unit rm_act" where
  "construct storages dtns sdmaps = seq_a
     [on_graph reset,
      on_graph add_gateway,
      foreach_a construct_storage (elems storages),
      foreach_a construct_dtn (elems dtns),
      foreach_a construct_sdmap (elems sdmaps)]"

section \<open>Registering modules\<close>

definition add_module_dtn :: "string \<Rightarrow> string \<Rightarrow> string \<Rightarrow> json \<Rightarrow> unit rm_act" where
  "add_module_dtn i n q m =
     bind_a (on_graph (add_dtn_node i n 0)) (\<lambda>_.
     bind_a (lift_r (str_at m [''ctrl_interface'', ''ip''])) (\<lambda>ip.
     bind_a (upd_dtn i (\<lambda>x. x\<lparr>ctrl_ip := ip\<rparr>)) (\<lambda>_.
     bind_a (upd_dtn i (\<lambda>x. x\<lparr>rqueue := q\<rparr>)) (\<lambda>_.
     bind_a (upd_dtn i (\<lambda>x. x\<lparr>properties := m\<rparr>)) (\<lambda>_.
     bind_a (lift_r (double_at m [K ''data_interfaces'', I 0, K ''rate''])) (\<lambda>rate.
     rm_add_edge_to_gateway i rate))))))"

definition add_module_storage :: "string \<Rightarrow> string \<Rightarrow> string \<Rightarrow> json \<Rightarrow> unit rm_act" where
  "add_module_storage i n q m =
     bind_a (on_graph (add_storage_node i n ST_internal 1000000)) (\<lambda>_.
     bind_a (upd_storage i (\<lambda>x. x\<lparr>rqueue := q\<rparr>)) (\<lambda>_.
     bind_a (lift_r (str_at m [''root_folder''])) (\<lambda>rf.
     bind_a (upd_storage i (\<lambda>x. x\<lparr>root_folder := rf\<rparr>)) (\<lambda>_.
     upd_storage i (\<lambda>x. x\<lparr>properties := m\<rparr>)))))"

definition add_module :: "string \<Rightarrow> json \<Rightarrow> unit rm_act" where
  "add_module q m =
     bind_a (lift_r (str_at m [''id''])) (\<lambda>i.
     bind_a (lift_r (str_at m [''type''])) (\<lambda>t.
     bind_a (lift_r (str_at m [''name''])) (\<lambda>n.
     if t = ''DTN'' then add_module_dtn i n q m
     else if t = ''LocalStorage'' then add_module_storage i n q m
     else if t = ''Launcher'' then
       bind_a (get_a rm_rg) (\<lambda>g.
       bind_a (when_a (has_launcher g) (try_graph del_launcher)) (\<lambda>_.
       on_graph (add_launcher i q)))
     else if t = ''SDN'' then
       bind_a (get_a rm_rg) (\<lambda>g.
       bind_a (when_a (has_sdn g) (try_graph del_sdn)) (\<lambda>_.
       on_graph (add_sdn i q)))
     else ret_a ())))"

definition link_module_storage :: "string \<Rightarrow> json \<Rightarrow> unit rm_act" where
  "link_module_storage i s =
     bind_a (lift_r (str_at s [''id''])) (\<lambda>sid.
     bind_a (lift_r (str_at s [''type''])) (\<lambda>_.
     bind_a (lift_r (str_at s [''name''])) (\<lambda>_.
     catch_a (link_storage_dtn sid i 40000000000) (ret_a ()))))"

definition link_module :: "json \<Rightarrow> unit rm_act" where
  "link_module m =
     bind_a (lift_r (str_at m [''id''])) (\<lambda>i.
     bind_a (lift_r (str_at m [''type''])) (\<lambda>t.
     bind_a (lift_r (str_at m [''name''])) (\<lambda>_.
     if t = ''DTN'' then
       bind_a (lift_r (opt_r Json_error (at_key m ''storages''))) (\<lambda>ss.
       foreach_a (link_module_storage i) (elems ss))
     else ret_a ())))"

section \<open>Listing the graph\<close>

definition edge_dst :: "rgraph \<Rightarrow> string \<Rightarrow> (exn, node_ptr) result" where
  "edge_dst g k = opt_r Undefined (Option.bind (map_of (edges g) k) dst_node)"

definition edge_src :: "rgraph \<Rightarrow> string \<Rightarrow> (exn, node_ptr) result" where
  "edge_src g k = opt_r Undefined (Option.bind (map_of (edges g) k) src_node)"

text \<open>\<open>dynamic_cast<DTNNode const &>\<close> of a node that is no DTN throws \<open>std::bad_cast\<close>.\<close>

definition cast_dtn :: "rgraph \<Rightarrow> node_ptr \<Rightarrow> (exn, dtn_node) result" where
  "cast_dtn g p = (case p of
     PDtn k \<Rightarrow> opt_r Undefined (map_of (dtn_nodes g) k)
   | _ \<Rightarrow> if node_at g p = None then Inl Undefined else Inl Bad_cast)"

definition active_storage :: "rgraph \<Rightarrow> storage_node \<Rightarrow> (exn, json) result" where
  "active_storage g s =
     bind_r (edge_dst g (hd (out_edges s))) (\<lambda>p.
     bind_r (cast_dtn g p) (\<lambda>d.
     opt_r Json_error (setk [''dtn''] (JStr (ctrl_ip d)) (properties s))))"

definition get_active_storage_list :: "rgraph \<Rightarrow> (exn, json) result" where
  "get_active_storage_list g =
     bind_r (map_r (active_storage g) (filter (\<lambda>s. out_edges s \<noteq> []) (map snd (s_nodes g)))) (\<lambda>js. Inr (jarr js))"

definition get_active_dtn_list :: "rgraph \<Rightarrow> json" where
  "get_active_dtn_list g = jarr (map properties (filter (\<lambda>d. out_edges d \<noteq> []) (map snd (dtn_nodes g))))"

definition topology_ls :: "rgraph \<Rightarrow> string \<Rightarrow> (exn, json) result" where
  "topology_ls g k =
     bind_r (edge_src g k) (\<lambda>p.
     bind_r (opt_r Undefined (node_at g p)) (\<lambda>s.
     bind_r (opt_r Json_error (at_key (properties s) ''name'')) (\<lambda>n.
     bind_r (opt_r Json_error (at_key (properties s) ''root_folders'')) (\<lambda>r.
     bind_r (opt_r Json_error (at_key (properties s) ''id'')) (\<lambda>i.
     Inr (jobj [(''device'', n), (''roots'', r), (''id'', i)]))))))"

definition topology_dtn :: "rgraph \<Rightarrow> dtn_node \<Rightarrow> (exn, json) result" where
  "topology_dtn g d =
     bind_r (opt_r Json_error (at_key (properties d) ''id'')) (\<lambda>i.
     bind_r (opt_r Json_error (at_key (properties d) ''name'')) (\<lambda>n.
     bind_r (map_r (topology_ls g) (in_edges d)) (\<lambda>ls.
     Inr (jobj [(''id'', i), (''label'', n), (''ls'', jarr ls)]))))"

definition get_active_dtn_topology :: "rgraph \<Rightarrow> (exn, json) result" where
  "get_active_dtn_topology g =
     bind_r (map_r (topology_dtn g) (filter (\<lambda>d. out_edges d \<noteq> []) (map snd (dtn_nodes g))))
       (\<lambda>ds. Inr (jobj [(''dtns'', jarr ds)]))"

text \<open>\<open>add_modules\<close> ends by computing the topology, only to log it; an exception there propagates.\<close>

definition add_modules :: "string \<Rightarrow> json \<Rightarrow> unit rm_act" where
  "add_modules q modules = seq_a
     [foreach_a (add_module q) (elems modules),
      foreach_a link_module (elems modules),
      bind_a (get_a rm_rg) (\<lambda>g. bind_a (lift_r (get_active_dtn_topology g)) (\<lambda>_. ret_a ()))]"

definition del_module :: "json \<Rightarrow> unit rm_act" where
  "del_module m =
     bind_a (lift_r (str_at m [''id''])) (\<lambda>i.
     bind_a (lift_r (str_at m [''type''])) (\<lambda>_.
     bind_a (lift_r (str_at m [''name''])) (\<lambda>_.
     try_graph (del_node i))))"

definition del_modules :: "json \<Rightarrow> unit rm_act" where
  "del_modules modules = foreach_a del_module (elems modules)"

definition get_node_queue_name :: "rgraph \<Rightarrow> string \<Rightarrow> (exn, string) result" where
  "get_node_queue_name g i = bind_r (get_node g i) (\<lambda>p. opt_r Undefined (map_option rqueue (node_at g p)))"

definition get_storage_connected_dtns :: "rgraph \<Rightarrow> string \<Rightarrow> (exn, string option list) result" where
  "get_storage_connected_dtns g s =
     (if \<not> has_storage_node g s
      then Inl (Runtime_error ''invalid storage id while trying to get the connected dtns'')
      else bind_r (get_storage_node g s) (\<lambda>sn.
        map_r (\<lambda>k. bind_r (edge_dst g k) (\<lambda>p.
          Inr (case p of PDtn d \<Rightarrow> Some d | _ \<Rightarrow> None))) (out_edges sn)))"

section \<open>Admission control\<close>

text \<open>The rate a path storage - DTN - gateway has left, and what it would have without extra jobs.\<close>

definition path_rates :: "jobmanager \<Rightarrow> rgraph \<Rightarrow> string \<Rightarrow> (exn, double \<times> double) result" where
  "path_rates jm g k =
     bind_r (opt_r Undefined (map_of (edges g) k)) (\<lambda>sd.
     let sd_rate = capacity sd - sum_re jm sd - sum_rb jm sd;
         sd_rate_extra = capacity sd - sum_rb jm sd
     in bind_r (opt_r Undefined (Option.bind (dst_node sd) (node_at g))) (\<lambda>dtn.
        case out_edges dtn of
          [dk] \<Rightarrow>
            bind_r (opt_r Undefined (map_of (edges g) dk)) (\<lambda>dg.
            let dg_rate = capacity dg - sum_re jm dg - sum_rb jm dg;
                dg_rate_extra = capacity dg - sum_rb jm dg;
                rate = (if sd_rate < dg_rate then sd_rate else dg_rate);
                rate_extra = (if sd_rate_extra < dg_rate_extra then sd_rate_extra else dg_rate_extra)
            in Inr (if rate < 1000 then 0 else rate, if rate_extra < 1000 then 0 else rate_extra))
        | _ \<Rightarrow> Inl (Runtime_error ''dtn to gateway edge != 1'')))"

definition sum_path_rates :: "jobmanager \<Rightarrow> rgraph \<Rightarrow> string list \<Rightarrow> (exn, double \<times> double) result" where
  "sum_path_rates jm g ks = fold_r (\<lambda>k (a, b). bind_r (path_rates jm g k) (\<lambda>(r, x). Inr (a + r, b + x))) ks (0, 0)"

definition probe_path_rate :: "jobmanager \<Rightarrow> rgraph \<Rightarrow> string \<Rightarrow> double \<Rightarrow> (exn, int) result" where
  "probe_path_rate jm g storage rate =
     bind_r (get_storage_node g storage) (\<lambda>snode.
     let cap = capacity snode; sre = sum_re jm snode; srb = sum_rb jm snode
     in if cap < rate then Inr 4
        else if \<not> rate < cap - srb - sre \<and> \<not> rate < cap - srb then Inr 3
        else let res_storage = (if rate < cap - srb - sre then 1 else 2 :: int)
          in bind_r (sum_path_rates jm g (out_edges snode)) (\<lambda>(avail, avail_extra).
             if \<not> rate < avail \<and> \<not> rate < avail_extra then Inr 3
             else let res_edges = (if rate < avail then 1 else 2 :: int)
               in if res_storage = 1 \<and> res_edges = 1 then Inr 1 else Inr 2))"

section \<open>Provisioning\<close>

text \<open>
  The preemption loop. Its condition reads \<open>int r = probe_path_rate(...) != 1\<close>, so that \<open>r\<close> is the truth
  value of the comparison, 0 or 1; the test \<open>r == 3\<close> in the body is part of the model as it stands.
  The result says whether the loop ended normally (\<open>True\<close>) or returned early.
\<close>

function suspend_loop :: "rgraph \<Rightarrow> string \<Rightarrow> double \<Rightarrow> jobmanager \<Rightarrow> stream_cmd list
    \<Rightarrow> (exn, bool) result \<times> jobmanager \<times> stream_cmd list" where
  "suspend_loop g sid rate jm cmds =
     (case probe_path_rate jm g sid rate of
        Inl e \<Rightarrow> (Inl e, jm, cmds)
      | Inr code \<Rightarrow>
          (let r = (if code \<noteq> 1 then 1 else 0 :: int)
           in if r = 0 then (Inr True, jm, cmds)
              else if r = 3 then (Inr False, jm, cmds)
              else case get_storage_node g sid of
                Inl e \<Rightarrow> (Inl e, jm, cmds)
              | Inr snode \<Rightarrow>
                  if rjobs snode = [] then (Inr False, jm, cmds)
                  else (case find_largest_re_job jm snode of
                      Inl e \<Rightarrow> (Inl e, jm, cmds)
                    | Inr p \<Rightarrow> suspend_loop g sid rate (set_job_state p JS_marked_for_prealloc jm)
                        (cmds @ [UpdateStreamState p (JobState_int JS_marked_for_prealloc)]))))"
  by pat_completeness auto
termination
proof (relation "measure (\<lambda>(g, sid, rate, jm, cmds). extra_count jm)")
  fix g :: rgraph and sid rate jm cmds e r snode p
  assume "find_largest_re_job jm (snode :: storage_node) = Inr p"
  then obtain j where "map_of (basic_jobs jm) p = Some j" "running_extra j"
    using find_largest_running by blast
  then have "extra_count (set_job_state p JS_marked_for_prealloc jm) < extra_count jm"
    by (rule extra_count_suspend) simp
  then show "((g, sid, rate, set_job_state p JS_marked_for_prealloc jm,
      cmds @ [UpdateStreamState p (JobState_int JS_marked_for_prealloc)]), g, sid, rate, jm, cmds)
      \<in> measure (\<lambda>(g, sid, rate, jm, cmds). extra_count jm)"
    by simp
qed simp

declare suspend_loop.simps [simp del]

text \<open>The rate of one path as the provisioning loop sees it: the smaller of the two links.\<close>

definition link_rate :: "jobmanager \<Rightarrow> rgraph \<Rightarrow> string \<Rightarrow> (exn, string \<times> double) result" where
  "link_rate jm g k =
     bind_r (opt_r Undefined (map_of (edges g) k)) (\<lambda>sd.
     bind_r (opt_r Undefined (Option.bind (dst_node sd) (node_at g))) (\<lambda>dtn.
     bind_r (if out_edges dtn = [] then Inl Undefined
             else opt_r Undefined (map_of (edges g) (hd (out_edges dtn)))) (\<lambda>dg.
     Inr (rid dtn, min (available_rate jm sd) (available_rate jm dg)))))"

fun alloc_dtns :: "jobmanager \<Rightarrow> rgraph \<Rightarrow> string list \<Rightarrow> double \<Rightarrow> (exn, (string \<times> double) list) result" where
  "alloc_dtns jm g [] remaining = Inr []"
| "alloc_dtns jm g (k # ks) remaining =
     bind_r (link_rate jm g k) (\<lambda>(dtn, edge_rate).
     if edge_rate < 1000 then alloc_dtns jm g ks remaining
     else if remaining < edge_rate then Inr [(dtn, remaining)]
     else bind_r (alloc_dtns jm g ks (remaining - edge_rate)) (\<lambda>v. Inr ((dtn, edge_rate) # v)))"

definition query_path_dtns :: "string \<Rightarrow> double \<Rightarrow> (string \<times> double) list rm_act" where
  "query_path_dtns sid rate = (\<lambda>s.
     case get_storage_node (rm_rg s) sid of
       Inl e \<Rightarrow> (Inl e, s)
     | Inr snode \<Rightarrow>
         (let (r, jm, cmds) = suspend_loop (rm_rg s) sid rate (rm_jm s) (rm_cmds s);
              s' = s\<lparr>rm_jm := jm, rm_cmds := cmds\<rparr>
          in case r of
               Inl e \<Rightarrow> (Inl e, s')
             | Inr enough \<Rightarrow>
                 if enough then (alloc_dtns jm (rm_rg s) (out_edges snode) rate, s') else (Inr [], s')))"

section \<open>Pairing source and destination DTNs\<close>

text \<open>
  One round works on the entries at \<open>isrc\<close> and \<open>idst\<close>; the two \<open>if\<close> statements follow each other, so that
  equal rates run the first branch and then the \<open>else\<close> branch of the second. The result carries the
  vectors as the caller sees them afterwards (they are passed by reference).
\<close>

type_synonym dtn_rates = "(string \<times> double) list"

function match_loop :: "dtn_rates \<Rightarrow> dtn_rates \<Rightarrow> nat \<Rightarrow> nat \<Rightarrow> (string \<times> string \<times> double) list
    \<Rightarrow> (exn, (string \<times> string \<times> double) list \<times> dtn_rates \<times> dtn_rates) result" where
  "match_loop src dst isrc idst acc =
     (if length src \<le> isrc \<or> length dst \<le> idst then Inl Undefined
      else
        let s_rate = snd (src ! isrc); d_rate = snd (dst ! idst);
            sub = (\<lambda>i x v. v[i := (fst (v ! i), snd (v ! i) - x)]);
            (src1, dst1, isrc1, idst1) =
              (if s_rate = d_rate then (sub isrc s_rate src, sub idst d_rate dst, Suc isrc, Suc idst)
               else (src, dst, isrc, idst));
            (rate, src2, dst2, isrc2, idst2) =
              (if d_rate < s_rate then (d_rate, sub isrc d_rate src1, sub idst d_rate dst1, isrc1, Suc idst1)
               else (s_rate, sub isrc s_rate src1, sub idst s_rate dst1, Suc isrc1, idst1));
            acc' = acc @ [(fst (src ! isrc), fst (dst ! idst), rate)]
        in if length src \<le> isrc2 \<and> length dst \<le> idst2 then Inr (acc', src2, dst2)
           else if length src \<le> isrc2 \<or> length dst \<le> idst2 then Inl (Runtime_error ''something wrong in dtn matching'')
           else match_loop src2 dst2 isrc2 idst2 acc')"
  by pat_completeness auto
termination
  by (relation "measure (\<lambda>(src, dst, isrc, idst, acc). (length src - isrc) + (length dst - idst))")
     (auto simp: Let_def split: if_splits)

declare match_loop.simps [simp del]

definition match_path_dtns :: "dtn_rates \<Rightarrow> dtn_rates \<Rightarrow>
    (exn, (string \<times> string \<times> double) list \<times> dtn_rates \<times> dtn_rates) result" where
  "match_path_dtns src dst = match_loop src dst 0 0 []"

section \<open>Creating a job\<close>

definition on_edge :: "string \<Rightarrow> string \<Rightarrow> basejob \<Rightarrow> unit rm_act" where
  "on_edge a b job =
     bind_a (get_a rm_rg) (\<lambda>g.
     bind_a (lift_r (get_edge g a b)) (\<lambda>k.
     on_graph (\<lambda>g. g\<lparr>edges := adjust k (add_job job) (edges g)\<rparr>)))"

definition stream_doc :: "string \<Rightarrow> string \<Rightarrow> string \<Rightarrow> string \<Rightarrow> string \<Rightarrow> string \<Rightarrow> double \<Rightarrow> JobGroup \<Rightarrow> json" where
  "stream_doc rawjob_id i src_storage dst_storage src_dtn dst_dtn rate jg = jobj
     [(''rawjob'', jobj [(''$oid'', JStr rawjob_id)]),
      (''guid'', JStr i),
      (''srcstorage'', JStr src_storage),
      (''dststorage'', JStr dst_storage),
      (''srcdtn'', JStr src_dtn),
      (''dstdtn'', JStr dst_dtn),
      (''rate'', JReal rate),
      (''type'', JInt (JobGroup_int jg)),
      (''state'', JInt (JobState_int JS_running))]"

definition create_job :: "string \<Rightarrow> string \<Rightarrow> string \<Rightarrow> string \<Rightarrow> string \<Rightarrow> double \<Rightarrow> bool \<Rightarrow> unit rm_act" where
  "create_job rawjob_id src_storage dst_storage src_dtn dst_dtn rate extra =
     (let jg = (if extra then JG_extra else JG_base)
      in bind_a (get_a (\<lambda>s. guid_of (rm_rand s))) (\<lambda>i.
         bind_a (upd_a (\<lambda>s. s\<lparr>rm_rand := after_guid (rm_rand s), rm_jm := add_basic_job i jg JS_running rate (rm_jm s)\<rparr>)) (\<lambda>_.
         bind_a (get_a rm_jm) (\<lambda>jm.
         bind_a (lift_r (get_basic_job jm i)) (\<lambda>job.
         bind_a (get_a rm_rg) (\<lambda>g.
         bind_a (lift_r (get_storage_node g src_storage)) (\<lambda>_.
         bind_a (lift_r (get_dtn_node g src_dtn)) (\<lambda>_.
         bind_a (lift_r (get_general_node g ''gateway'')) (\<lambda>_.
         seq_a
           [upd_storage src_storage (add_job job),
            upd_dtn src_dtn (add_job job),
            on_graph (\<lambda>g. g\<lparr>general_nodes := adjust ''gateway'' (add_job job) (general_nodes g)\<rparr>),
            on_edge src_storage src_dtn job,
            on_edge src_dtn ''gateway'' job,
            upd_a (\<lambda>s. s\<lparr>rm_cmds := rm_cmds s @
              [InsertStream (stream_doc rawjob_id i src_storage dst_storage src_dtn dst_dtn rate jg)]\<rparr>)])))))))))"

lemmas rm_exec [exec] =
  ResourceManager_def JobManager_def add_modules_def add_module_def add_module_dtn_def add_module_storage_def
  link_module_def link_module_storage_def link_storage_dtn_def on_graph_def try_graph_def with_guid_def rm_add_edge_def
  rm_add_edge_to_gateway_def upd_storage_def upd_dtn_def str_at_def double_at_def get_active_dtn_topology_def
  topology_dtn_def topology_ls_def edge_src_def path_rates_def sum_path_rates_def probe_path_rate_def link_rate_def
  query_path_dtns_def create_job_def stream_doc_def on_edge_def

section \<open>Well-formedness under every operation\<close>

text \<open>
  A new edge is stored under the guid drawn for it, and a guid that is already in use would break the
  graph. \<open>rm_ok n s\<close>: the graph is well-formed and the next \<open>n\<close> guids are new. An action that
  \<open>spends n\<close> draws at most \<open>n\<close> guids: it turns \<open>rm_ok (n + k)\<close> into \<open>rm_ok k\<close>, also when it throws.
\<close>

definition guid_at :: "rand \<Rightarrow> nat \<Rightarrow> string" where
  "guid_at r n = guid (r (4 * n)) (r (4 * n + 1)) (r (4 * n + 2)) (r (4 * n + 3))"

definition fresh_guids :: "nat \<Rightarrow> rand \<Rightarrow> string set \<Rightarrow> bool" where
  "fresh_guids n r used \<longleftrightarrow> (\<forall>i<n. guid_at r i \<notin> used) \<and> (\<forall>i<n. \<forall>j<n. guid_at r i = guid_at r j \<longrightarrow> i = j)"

definition rm_ok :: "nat \<Rightarrow> rm_state \<Rightarrow> bool" where
  "rm_ok n s \<longleftrightarrow> rg_wf (rm_rg s) \<and> fresh_guids n (rm_rand s) (dom (map_of (edges (rm_rg s))))"

definition spends :: "nat \<Rightarrow> 'a rm_act \<Rightarrow> bool" where
  "spends n m \<longleftrightarrow> (\<forall>k s. rm_ok (n + k) s \<longrightarrow> rm_ok k (snd (m s)))"

lemma guid_at_0: "guid_at r 0 = guid_of r"
  and guid_at_after: "guid_at (after_guid r) n = guid_at r (Suc n)"
  by (simp_all add: guid_at_def guid_of_def after_guid_def algebra_simps numeral_eq_Suc)

lemma fresh_guids_less: "fresh_guids n r S \<Longrightarrow> m \<le> n \<Longrightarrow> T \<subseteq> S \<Longrightarrow> fresh_guids m r T"
  unfolding fresh_guids_def by (meson less_le_trans subsetD)

lemma fresh_guids_after:
  assumes "fresh_guids (Suc n) r S"
  shows "guid_of r \<notin> S" and "fresh_guids n (after_guid r) (insert (guid_of r) S)"
proof -
  have out: "guid_at r i \<notin> S" if "i < Suc n" for i
    using assms that by (simp add: fresh_guids_def)
  have inj: "i = j" if "guid_at r i = guid_at r j" "i < Suc n" "j < Suc n" for i j
    using assms that by (auto simp: fresh_guids_def)
  show "guid_of r \<notin> S" using out [of 0] by (simp add: guid_at_0)
  have "guid_at r (Suc i) \<noteq> guid_of r" if "i < n" for i
    using inj [of "Suc i" 0] that by (auto simp: guid_at_0)
  then show "fresh_guids n (after_guid r) (insert (guid_of r) S)"
    unfolding fresh_guids_def guid_at_after using out inj by (metis Suc_less_eq insert_iff nat.inject)
qed

lemma rm_ok_less: "rm_ok n s \<Longrightarrow> m \<le> n \<Longrightarrow> rm_ok m s"
  by (auto simp: rm_ok_def intro: fresh_guids_less)

lemma spends_bind: "spends a m \<Longrightarrow> (\<And>x. spends b (f x)) \<Longrightarrow> spends (a + b) (bind_a m f)"
  unfolding spends_def bind_a_def
  by (auto simp: add.assoc split: prod.splits sum.splits) (metis le_add2 rm_ok_less snd_conv)+

lemma spends_more: "spends a m \<Longrightarrow> a \<le> b \<Longrightarrow> spends b m"
  unfolding spends_def by (metis add.commute add.left_commute le_add_diff_inverse2 le_add1 rm_ok_less)

lemma spends_0 [frame_intros]: "spends 0 (ret_a x)" "spends 0 (throw_a e)" "spends 0 (get_a q)" "spends 0 (lift_r r)"
  by (simp_all add: spends_def)

lemma spends_pre [frame_intros]: "(\<And>x. spends b (f x)) \<Longrightarrow> spends b (bind_a (get_a q) f)"
  "(\<And>x. spends b (f x)) \<Longrightarrow> spends b (bind_a (lift_r r) f)"
  using spends_bind [OF spends_0(3), of b f q] spends_bind [OF spends_0(4), of b f r] by simp_all

lemma spends_bind_0 [frame_intros]: "spends 0 m \<Longrightarrow> (\<And>x. spends b (f x)) \<Longrightarrow> spends b (bind_a m f)"
  using spends_bind [of 0 m b f] by simp

lemma spends_bind_last: "spends a m \<Longrightarrow> (\<And>x. spends 0 (f x)) \<Longrightarrow> spends a (bind_a m f)"
  using spends_bind [of a m 0 f] by simp

lemma spends_catch: "spends a m \<Longrightarrow> spends 0 h \<Longrightarrow> spends a (catch_a m h)"
  unfolding spends_def catch_a_def by (auto split: prod.splits sum.splits) (metis add_0 snd_conv)+

lemma spends_when [frame_intros]: "spends a m \<Longrightarrow> spends a (when_a b m)"
  by (cases b) (auto intro: spends_more spends_0)

lemma spends_foreach:
  "(\<And>x. x \<in> set xs \<Longrightarrow> spends (c x) (f x)) \<Longrightarrow> spends (sum_list (map c xs)) (foreach_a f xs)"
  by (induction xs) (auto intro!: spends_bind spends_0)

lemma spends_on_graph [frame_intros]:
  assumes "\<And>g. rg_wf g \<Longrightarrow> rg_wf (f g)" and "\<And>g. edges (f g) = edges g"
  shows "spends 0 (on_graph f)"
  using assms by (simp add: spends_def on_graph_def rm_ok_def)

lemma spends_with_guid:
  assumes "\<And>g g' uid. rg_wf g \<Longrightarrow> map_of (edges g) uid = None \<Longrightarrow> f uid g = Inr g' \<Longrightarrow> rg_wf g'"
    and "\<And>g g' uid. rg_wf g \<Longrightarrow> f uid g = Inr g' \<Longrightarrow> dom (map_of (edges g')) \<subseteq> insert uid (dom (map_of (edges g)))"
  shows "spends 1 (with_guid f)"
proof (unfold spends_def, intro allI impI)
  fix k s assume ok: "rm_ok (1 + k) s"
  let ?uid = "guid_of (rm_rand s)"
  have wf: "rg_wf (rm_rg s)" and new: "?uid \<notin> dom (map_of (edges (rm_rg s)))"
    and rest: "fresh_guids k (after_guid (rm_rand s)) (insert ?uid (dom (map_of (edges (rm_rg s)))))"
    using ok fresh_guids_after by (auto simp: rm_ok_def)
  show "rm_ok k (snd (with_guid f s))"
  proof (cases "f ?uid (rm_rg s)")
    case (Inl e)
    with ok show ?thesis by (auto simp: with_guid_def intro: rm_ok_less)
  next
    case (Inr g)
    have "rg_wf g" "dom (map_of (edges g)) \<subseteq> insert ?uid (dom (map_of (edges (rm_rg s))))"
      using assms wf new Inr by (auto simp: domIff)
    with rest ok Inr show ?thesis
      by (auto simp: with_guid_def rm_ok_def intro: fresh_guids_less)
  qed
qed

lemma dom_add_edge:
  "rg_wf g \<Longrightarrow> add_edge uid s d cap g = Inr g' \<Longrightarrow> dom (map_of (edges g')) \<subseteq> insert uid (dom (map_of (edges g)))"
  using rg_wfD(4) [of g]
  by (auto simp: add_edge_def connect_def bind_r_Inr_iff map_ok_emplace split: if_splits)

lemma spends_rm_add_edge: "spends 1 (rm_add_edge s d cap)"
  unfolding rm_add_edge_def by (rule spends_with_guid) (auto intro: rg_wf_add_edge dest: dom_add_edge)

lemma spends_rm_add_edge_to_gateway: "spends 1 (rm_add_edge_to_gateway s cap)"
  unfolding rm_add_edge_to_gateway_def
  by (rule spends_with_guid)
     (auto simp: add_edge_to_gateway_def intro: rg_wf_add_edge dest: dom_add_edge split: if_splits)


lemma rg_wf_upd_storage:
  assumes "rg_wf g" and "\<And>n. rid (f n) = rid n" and "\<And>n. out_edges (f n) = out_edges n" and "\<And>n. in_edges (f n) = in_edges n"
  shows "rg_wf (g\<lparr>s_nodes := adjust i f (s_nodes g)\<rparr>)"
proof (rule rg_wf_cong [OF assms(1)])
  have [simp]: "out_edges (rnode.truncate n) = out_edges n" "in_edges (rnode.truncate n) = in_edges n" for n :: storage_node
    by (simp_all add: rnode.defs)
  show "outs (g\<lparr>s_nodes := adjust i f (s_nodes g)\<rparr>) p = outs g p"
    "ins (g\<lparr>s_nodes := adjust i f (s_nodes g)\<rparr>) p = ins g p" for p
    by (cases p; simp add: outs_def ins_def assms split: option.splits)+
qed (use assms in \<open>auto simp: rg_wf_defs\<close>)

lemma rg_wf_upd_dtn:
  assumes "rg_wf g" and "\<And>n. rid (f n) = rid n" and "\<And>n. out_edges (f n) = out_edges n" and "\<And>n. in_edges (f n) = in_edges n"
  shows "rg_wf (g\<lparr>dtn_nodes := adjust i f (dtn_nodes g)\<rparr>)"
proof (rule rg_wf_cong [OF assms(1)])
  have [simp]: "out_edges (rnode.truncate n) = out_edges n" "in_edges (rnode.truncate n) = in_edges n" for n :: dtn_node
    by (simp_all add: rnode.defs)
  show "outs (g\<lparr>dtn_nodes := adjust i f (dtn_nodes g)\<rparr>) p = outs g p"
    "ins (g\<lparr>dtn_nodes := adjust i f (dtn_nodes g)\<rparr>) p = ins g p" for p
    by (cases p; simp add: outs_def ins_def assms split: option.splits)+
qed (use assms in \<open>auto simp: rg_wf_defs\<close>)

lemma spends_upd_storage [frame_intros]:
  "(\<And>n. rid (f n) = rid n \<and> out_edges (f n) = out_edges n \<and> in_edges (f n) = in_edges n) \<Longrightarrow> spends 0 (upd_storage i f)"
  unfolding upd_storage_def by (intro spends_on_graph rg_wf_upd_storage) simp_all

lemma spends_upd_dtn [frame_intros]:
  "(\<And>n. rid (f n) = rid n \<and> out_edges (f n) = out_edges n \<and> in_edges (f n) = in_edges n) \<Longrightarrow> spends 0 (upd_dtn i f)"
  unfolding upd_dtn_def by (intro spends_on_graph rg_wf_upd_dtn) simp_all

lemma add_node_edges [simp]:
  "edges (add_storage_node i n t c g) = edges g" "edges (add_dtn_node i n c g) = edges g"
  "edges (add_launcher i q g) = edges g" "edges (add_sdn i q g) = edges g"
  "edges (set_one_dtn_node a b g) = edges g" "edges (add_gateway g) = edges g"
  by (simp_all add: add_storage_node_def add_dtn_node_def add_launcher_def add_sdn_def set_one_dtn_node_def
      add_gateway_def add_general_node_def set_general_queue_def)

lemma spends_graph_ops [frame_intros]:
  "spends 0 (on_graph (add_storage_node i n t c))" "spends 0 (on_graph (add_dtn_node i n c))"
  "spends 0 (on_graph (add_launcher i q))" "spends 0 (on_graph (add_sdn i q))"
  "spends 0 (on_graph (set_one_dtn_node a b))" "spends 0 (on_graph add_gateway)"
  by (intro conjI spends_on_graph;
      simp add: rg_wf_add_storage_node rg_wf_add_dtn_node rg_wf_add_launcher rg_wf_add_sdn rg_wf_set_one_dtn_node
        rg_wf_add_gateway add_node_edges)+

lemma spends_link [frame_intros]: "spends 1 (link_storage_dtn s d rate)"
  unfolding link_storage_dtn_def
  by (rule spends_bind_last [OF spends_rm_add_edge]) (intro frame_intros)

lemma spends_construct_storage [frame_intros]: "spends 0 (construct_storage s)"
  unfolding construct_storage_def by (intro frame_intros) simp_all

lemma spends_construct_dtn: "spends 1 (construct_dtn d)"
  unfolding construct_dtn_def by (intro frame_intros spends_rm_add_edge_to_gateway) simp_all

lemma spends_construct_sdmap: "spends 1 (construct_sdmap d)"
  unfolding construct_sdmap_def by (intro spends_catch frame_intros)

lemma spends_try_graph:
  assumes "\<And>g g'. rg_wf g \<Longrightarrow> f g = Inr g' \<Longrightarrow> rg_wf g' \<and> dom (map_of (edges g')) \<subseteq> dom (map_of (edges g))"
  shows "spends 0 (try_graph f)"
proof (unfold spends_def, intro allI impI)
  fix k s assume ok: "rm_ok (0 + k) s"
  show "rm_ok k (snd (try_graph f s))"
  proof (cases "f (rm_rg s)")
    case (Inr g)
    with ok assms show ?thesis
      by (simp add: try_graph_def rm_ok_def) (meson fresh_guids_less order_refl)
  qed (use ok in \<open>simp add: try_graph_def\<close>)
qed

lemma dom_del_node:
  assumes "rg_wf g" and "del_node i g = Inr g'"
  shows "dom (map_of (edges g')) \<subseteq> dom (map_of (edges g))"
proof -
  have ne: "i \<noteq> ''gateway''" using assms(2) by (auto simp: del_node_def)
  show ?thesis
  proof (cases "special_node_id g i")
    case (Some nid)
    then obtain p where "get_node g nid = Inr p" using special_node_id_known by blast
    then obtain h where "del_node i g = Inr h"
      "\<And>k. map_of (edges h) k = (if k \<in> set (ins g p) \<union> set (outs g p) then None else map_of (edges g) k)"
      using del_node_known [OF assms(1) ne Some] by blast
    with assms(2) show ?thesis by (auto split: if_splits)
  qed (use assms ne del_node_unknown in auto)
qed

lemma spends_del [frame_intros]:
  "spends 0 (try_graph (del_node i))" "spends 0 (try_graph del_launcher)" "spends 0 (try_graph del_sdn)"
  by (rule spends_try_graph,
      simp add: del_launcher_def del_sdn_def dom_del_node rg_wf_del_node split: if_splits)+

lemma spends_add_module: "spends 1 (add_module q m)"
proof -
  have "spends 1 (add_module_dtn i n q m)" for i n
    unfolding add_module_dtn_def by (intro frame_intros spends_rm_add_edge_to_gateway) simp_all
  moreover have "spends 1 (add_module_storage i n q m)" for i n
    unfolding add_module_storage_def by (intro spends_more [where a = 0 and b = 1] frame_intros) simp_all
  moreover have "spends 1 (bind_a (get_a rm_rg) (\<lambda>g. bind_a (when_a (has_launcher g) (try_graph del_launcher)) (\<lambda>_. on_graph (add_launcher i q))))"
    "spends 1 (bind_a (get_a rm_rg) (\<lambda>g. bind_a (when_a (has_sdn g) (try_graph del_sdn)) (\<lambda>_. on_graph (add_sdn i q))))"
    "spends 1 (ret_a () :: unit rm_act)" for i
    by (rule spends_more [where a = 0], intro frame_intros, simp)+
  ultimately show ?thesis
    unfolding add_module_def by (intro spends_pre) simp
qed


lemma spends_del_module: "spends 0 (del_module m)"
  unfolding del_module_def by (intro frame_intros)

lemma spends_link_module_storage: "spends 1 (link_module_storage i s)"
  unfolding link_module_storage_def by (intro frame_intros spends_catch)

text \<open>How many edges a list of modules can ask for.\<close>

definition module_links :: "json \<Rightarrow> nat" where
  "module_links m = (case at_key m ''storages'' of None \<Rightarrow> 0 | Some ss \<Rightarrow> length (elems ss))"

definition module_edges :: "json \<Rightarrow> nat" where
  "module_edges modules = sum_list (map (\<lambda>m. 1 + module_links m) (elems modules))"

lemma spends_link_module: "spends (module_links m) (link_module m)"
proof -
  have "spends (module_links m) (bind_a (lift_r (opt_r Json_error (at_key m ''storages''))) (\<lambda>ss. foreach_a (link_module_storage i) (elems ss)))" for i
  proof (cases "at_key m ''storages''")
    case None
    then show ?thesis by (simp add: spends_def module_links_def)
  next
    case (Some ss)
    have "spends (sum_list (map (\<lambda>_. 1) (elems ss))) (foreach_a (link_module_storage i) (elems ss))"
      by (rule spends_foreach) (rule spends_link_module_storage)
    then show ?thesis using Some by (simp add: module_links_def sum_list_triv bind_a_def)
  qed
  moreover have "spends (module_links m) (ret_a () :: unit rm_act)"
    by (rule spends_more [OF spends_0(1)]) simp
  ultimately show ?thesis unfolding link_module_def by (intro spends_pre) simp
qed

lemma spends_add_modules: "spends (module_edges modules) (add_modules q modules)"
proof -
  have "spends (sum_list (map (\<lambda>_. 1) (elems modules)) + (sum_list (map module_links (elems modules)) + 0)) (add_modules q modules)"
    unfolding add_modules_def seq_a.simps
    by (intro spends_bind spends_foreach spends_add_module spends_link_module) (intro frame_intros)
  then show ?thesis by (simp only: module_edges_def sum_list_addf add_0_right)
qed

lemma spends_del_modules: "spends 0 (del_modules modules)"
  using spends_foreach [of "elems modules" "\<lambda>_. 0" del_module] spends_del_module by (simp add: del_modules_def)

text \<open>\<open>construct\<close> starts from an empty graph, so nothing is asked of the graph it replaces.\<close>

lemma rm_ok_construct:
  assumes "fresh_guids (length (elems dtns) + length (elems sdmaps)) (rm_rand s) {}"
  shows "rg_wf (rm_rg (snd (construct storages dtns sdmaps s)))"
proof -
  let ?s0 = "s\<lparr>rm_rg := RGraph\<rparr>"
  let ?rest = "seq_a [on_graph add_gateway, foreach_a construct_storage (elems storages),
      foreach_a construct_dtn (elems dtns), foreach_a construct_sdmap (elems sdmaps)]"
  have "spends (0 + (sum_list (map (\<lambda>_. 0) (elems storages)) + (sum_list (map (\<lambda>_. 1) (elems dtns))
      + (sum_list (map (\<lambda>_. 1) (elems sdmaps)) + 0)))) ?rest"
    unfolding seq_a.simps
    by (intro spends_bind spends_foreach spends_construct_dtn spends_construct_sdmap frame_intros)
  then have *: "spends (length (elems dtns) + length (elems sdmaps)) ?rest"
    by (simp add: sum_list_triv)
  have "rm_ok (length (elems dtns) + length (elems sdmaps) + 0) ?s0"
    using assms by (simp add: rm_ok_def rg_wf_RGraph) (simp add: RGraph_def)
  with * have "rm_ok 0 (snd (?rest ?s0))" unfolding spends_def by blast
  moreover have "construct storages dtns sdmaps s = ?rest ?s0"
    by (simp add: construct_def on_graph_def bind_a_def)
  ultimately show ?thesis by (simp add: rm_ok_def)
qed

section \<open>Admission and provisioning\<close>

lemma sum_path_rates_iff:
  "sum_path_rates jm g ks = Inr (a, b) \<longleftrightarrow>
     (\<exists>prs. map_r (path_rates jm g) ks = Inr prs \<and> a = sum_list (map fst prs) \<and> b = sum_list (map snd prs))"
proof -
  let ?f = "\<lambda>k (a, b). bind_r (path_rates jm g k) (\<lambda>(r, x). Inr (a + r, b + x))"
  have "fold_r ?f ks (a0, b0) = Inr (a, b) \<longleftrightarrow>
     (\<exists>prs. map_r (path_rates jm g) ks = Inr prs \<and> a = a0 + sum_list (map fst prs) \<and> b = b0 + sum_list (map snd prs))" for a0 b0
  proof (induction ks arbitrary: a0 b0)
    case Nil
    then show ?case by auto
  next
    case (Cons k ks)
    show ?case
    proof (cases "path_rates jm g k")
      case (Inr rx)
      then show ?thesis by (cases rx) (auto simp: Cons map_r_Cons_Inr add.assoc)
    qed simp
  qed
  from this [of 0 0] show ?thesis by (simp add: sum_path_rates_def)
qed

text \<open>Admission code 1 in full: room on the storage and on its paths for more than the rate.\<close>

lemma probe_1_iff:
  "probe_path_rate jm g sid rate = Inr 1 \<longleftrightarrow>
     (\<exists>sn prs. get_storage_node g sid = Inr sn \<and> rate \<le> capacity sn \<and> rate < capacity sn - sum_rb jm sn - sum_re jm sn \<and>
        map_r (path_rates jm g) (out_edges sn) = Inr prs \<and> rate < sum_list (map fst prs))"
proof (cases "get_storage_node g sid")
  case (Inr sn)
  show ?thesis
  proof (cases "sum_path_rates jm g (out_edges sn)")
    case (Inl e)
    then have "map_r (path_rates jm g) (out_edges sn) \<noteq> Inr prs" for prs
      using sum_path_rates_iff [of jm g "out_edges sn"] by (metis Inl_Inr_False)
    with Inl Inr show ?thesis by (auto simp: probe_path_rate_def Let_def)
  next
    case (Inr ab)
    obtain a b where ab: "ab = (a, b)" by (cases ab)
    with Inr obtain prs where "map_r (path_rates jm g) (out_edges sn) = Inr prs" "a = sum_list (map fst prs)"
      using sum_path_rates_iff by blast
    with \<open>get_storage_node g sid = Inr sn\<close> Inr ab show ?thesis
      by (auto simp: probe_path_rate_def Let_def split: if_splits)
  qed
qed (simp add: probe_path_rate_def)

lemma probe_codes: "probe_path_rate jm g sid rate = Inr c \<Longrightarrow> c \<in> {1, 2, 3, 4}"
  by (auto simp: probe_path_rate_def Let_def bind_r_Inr_iff split: if_splits)

text \<open>The two loops see the same rate of a path.\<close>

lemma link_rate_path:
  assumes "path_rates jm g k = Inr (a, b)"
  shows "\<exists>d L. link_rate jm g k = Inr (d, L) \<and> a = (if L < 1000 then 0 else L)"
proof -
  from assms obtain sd dtn where sd: "map_of (edges g) k = Some sd" "Option.bind (dst_node sd) (node_at g) = Some dtn"
    by (auto simp: path_rates_def Let_def bind_r_Inr_iff)
  from assms sd obtain dk where dk: "out_edges dtn = [dk]"
    by (auto simp: path_rates_def Let_def split: list.splits)
  from assms sd dk obtain dg where dg: "map_of (edges g) dk = Some dg"
    by (auto simp: path_rates_def Let_def bind_r_Inr_iff)
  have "link_rate jm g k = Inr (rid dtn, min (available_rate jm sd) (available_rate jm dg))"
    using sd dk dg by (simp add: link_rate_def)
  moreover have "a = (if min (available_rate jm sd) (available_rate jm dg) < 1000 then 0
      else min (available_rate jm sd) (available_rate jm dg))"
    using assms sd dk dg by (auto simp: path_rates_def Let_def available_rate_def split: if_splits)
  ultimately show ?thesis by blast
qed

lemma alloc_dtns_exact:
  assumes "map_r (path_rates jm g) ks = Inr prs" and "0 \<le> rate" and "rate < sum_list (map fst prs)"
  shows "\<exists>v. alloc_dtns jm g ks rate = Inr v \<and> sum_list (map snd v) = rate \<and>
    (\<forall>(d, x) \<in> set v. 0 \<le> x \<and> (\<exists>k \<in> set ks. \<exists>L. link_rate jm g k = Inr (d, L) \<and> x \<le> L))"
  using assms
proof (induction ks arbitrary: prs rate)
  case (Cons k ks)
  from Cons.prems(1) obtain a b ps where k: "path_rates jm g k = Inr (a, b)"
    and ps: "map_r (path_rates jm g) ks = Inr ps" "prs = (a, b) # ps"
    unfolding map_r_Cons_Inr by (metis surj_pair)
  from link_rate_path [OF k] obtain d L where L: "link_rate jm g k = Inr (d, L)" "a = (if L < 1000 then 0 else L)"
    by blast
  show ?case
  proof (cases "L < 1000")
    case True
    then have "rate < sum_list (map fst ps)" using Cons.prems(3) ps(2) L(2) by simp
    from Cons.IH [OF ps(1) Cons.prems(2) this] True L(1) show ?thesis by auto
  next
    case big: False
    show ?thesis
    proof (cases "rate < L")
      case True
      with big L(1) Cons.prems(2) show ?thesis by auto
    next
      case False
      then have "0 \<le> rate - L" "rate - L < sum_list (map fst ps)"
        using Cons.prems(3) ps(2) L(2) big by auto
      from Cons.IH [OF ps(1) this] obtain v where v: "alloc_dtns jm g ks (rate - L) = Inr v" "sum_list (map snd v) = rate - L"
        "\<forall>(d, x) \<in> set v. 0 \<le> x \<and> (\<exists>k \<in> set ks. \<exists>L. link_rate jm g k = Inr (d, L) \<and> x \<le> L)"
        by blast
      then show ?thesis using big False L(1) by auto
    qed
  qed
qed simp

text \<open>What the preemption loop does to the job table, whatever its outcome.\<close>

lemma suspend_loop_effect:
  assumes "suspend_loop g sid rate jm cmds = (r, jm', cmds')"
  shows "\<exists>ps. cmds' = cmds @ map (\<lambda>p. UpdateStreamState p 4) ps \<and> distinct ps \<and>
    (\<forall>p \<in> set ps. \<exists>j. map_of (basic_jobs jm) p = Some j \<and> running_extra j) \<and>
    (\<forall>k. map_of (basic_jobs jm') k =
       (if k \<in> set ps then map_option (set_state JS_marked_for_prealloc) (map_of (basic_jobs jm) k)
        else map_of (basic_jobs jm) k))"
  using assms
proof (induction g sid rate jm cmds rule: suspend_loop.induct)
  case (1 g sid rate jm cmds)
  show ?case
  proof (cases "\<exists>c sn p. probe_path_rate jm g sid rate = Inr c \<and> c \<noteq> 1 \<and> get_storage_node g sid = Inr sn \<and>
      rjobs sn \<noteq> [] \<and> find_largest_re_job jm sn = Inr p")
    case False
    then have "jm' = jm" "cmds' = cmds"
      using "1.prems" by (subst (asm) suspend_loop.simps; auto split: sum.splits if_splits)+
    then show ?thesis by (intro exI [of _ "[]"]) simp
  next
    case True
    then obtain c sn p where c: "probe_path_rate jm g sid rate = Inr c" "c \<noteq> 1" "get_storage_node g sid = Inr sn"
      "rjobs sn \<noteq> []" "find_largest_re_job jm sn = Inr p" by blast
    let ?jm = "set_job_state p JS_marked_for_prealloc jm"
    obtain j where j: "map_of (basic_jobs jm) p = Some j" "running_extra j"
      using find_largest_running [OF c(5)] by blast
    have "suspend_loop g sid rate ?jm (cmds @ [UpdateStreamState p 4]) = (r, jm', cmds')"
      using "1.prems" c by (subst (asm) suspend_loop.simps) simp
    then obtain ps where ps: "cmds' = (cmds @ [UpdateStreamState p 4]) @ map (\<lambda>p. UpdateStreamState p 4) ps" "distinct ps"
      "\<forall>q \<in> set ps. \<exists>j. map_of (basic_jobs ?jm) q = Some j \<and> running_extra j"
      "\<forall>k. map_of (basic_jobs jm') k = (if k \<in> set ps then map_option (set_state JS_marked_for_prealloc) (map_of (basic_jobs ?jm) k)
        else map_of (basic_jobs ?jm) k)"
      using "1.IH" [OF c(1) refl _ _ c(3,4,5)] c(2) by (simp del: basic_jobs_update) blast
    have "p \<notin> set ps" using ps(3) [rule_format, of p] j(1) by (auto simp: set_state_def running_extra_def)
    moreover have "\<forall>q \<in> set ps. \<exists>j. map_of (basic_jobs jm) q = Some j \<and> running_extra j"
      using ps(3) \<open>p \<notin> set ps\<close> by (auto split: if_splits)
    ultimately show ?thesis
      using ps(1,2,4) j by (intro exI [of _ "p # ps"]) auto
  qed
qed

lemma suspend_loop_enough:
  assumes "suspend_loop g sid rate jm cmds = (Inr True, jm', cmds')"
  shows "probe_path_rate jm' g sid rate = Inr 1"
  using assms
proof (induction g sid rate jm cmds rule: suspend_loop.induct)
  case (1 g sid rate jm cmds)
  from "1.prems" obtain c where c: "probe_path_rate jm g sid rate = Inr c"
    by (subst (asm) suspend_loop.simps) (auto split: sum.splits)
  show ?case
  proof (cases "c = 1")
    case True
    with "1.prems" c show ?thesis by (subst (asm) suspend_loop.simps) simp
  next
    case False
    with "1.prems" c obtain sn p where "get_storage_node g sid = Inr sn" "rjobs sn \<noteq> []" "find_largest_re_job jm sn = Inr p"
        "suspend_loop g sid rate (set_job_state p JS_marked_for_prealloc jm)
           (cmds @ [UpdateStreamState p (JobState_int JS_marked_for_prealloc)]) = (Inr True, jm', cmds')"
      by (subst (asm) suspend_loop.simps) (auto split: sum.splits if_splits)
    then show ?thesis using "1.IH" [OF c refl] False by simp
  qed
qed

text \<open>
  A rate beyond the capacity of the storage is refused with code 4 whatever runs on it, so the loop of
  \<open>query_path_dtns\<close> can only end in an exception or an early return.
\<close>

lemma suspend_loop_refused:
  assumes "suspend_loop g sid rate jm cmds = (r, jm', cmds')" and "get_storage_node g sid = Inr sn" and "capacity sn < rate"
  shows "rjobs sn = [] \<and> r = Inr False \<or> rjobs sn \<noteq> [] \<and> (\<exists>e. r = Inl e \<and> find_largest_re_job jm' sn = Inl e)"
  using assms
proof (induction g sid rate jm cmds rule: suspend_loop.induct)
  case (1 g sid rate jm cmds)
  have p4: "probe_path_rate jm g sid rate = Inr 4" using "1.prems"(2,3) by (simp add: probe_path_rate_def Let_def)
  show ?case
  proof (cases "find_largest_re_job jm sn")
    case (Inl e)
    with "1.prems"(1,2) p4 show ?thesis by (subst (asm) suspend_loop.simps) (auto split: if_splits)
  next
    case (Inr p)
    then have ne: "rjobs sn \<noteq> []" by (auto simp: find_largest_re_job_def)
    have "suspend_loop g sid rate (set_job_state p JS_marked_for_prealloc jm)
        (cmds @ [UpdateStreamState p (JobState_int JS_marked_for_prealloc)]) = (r, jm', cmds')"
      using "1.prems"(1,2) p4 Inr ne by (subst (asm) suspend_loop.simps) simp
    then show ?thesis using "1.IH" [OF p4 refl _ _ "1.prems"(2) ne Inr] "1.prems"(2,3) by simp
  qed
qed

lemma find_largest_none:
  assumes "find_largest_re_job jm r = Inl e" and "(p, j) \<in> set (jobs_on jm r)" and "0 \<le> job_rate j"
  shows "\<not> running_extra j"
proof
  assume run: "running_extra j"
  obtain r' o' where f: "fold pick_larger (jobs_on jm r) (- 1, None) = (r', o')"
    by (cases "fold pick_larger (jobs_on jm r) (- 1, None)")
  have "rjobs r \<noteq> []" using assms(2) by (auto simp: jobs_on_def List.map_filter_def)
  then have "o' = None" using assms(1) f by (cases o') (auto simp: find_largest_re_job_def)
  then have "r' = - 1" using fold_pick [OF f] by auto
  then show False using fold_pick [OF f] assms(2,3) run by fastforce
qed

section \<open>Pairing\<close>

text \<open>
  The reference pairing: hand out the smaller of the two rates at the front and go on with what is left.
  \<open>no_tie src dst\<close>: the totals agree, and no proper initial segments of the two lists have equal totals.
\<close>

function greedy_pairs :: "dtn_rates \<Rightarrow> dtn_rates \<Rightarrow> (string \<times> string \<times> double) list" where
  "greedy_pairs [] ys = []"
| "greedy_pairs (x # xs) [] = []"
| "greedy_pairs ((s, a) # xs) ((d, b) # ys) = (s, d, min a b) #
     (if b < a then greedy_pairs ((s, a - b) # xs) ys
      else if a < b then greedy_pairs xs ((d, b - a) # ys)
      else greedy_pairs xs ys)"
  by pat_completeness auto
termination
  by (relation "measure (\<lambda>(xs, ys). length xs + length ys)") auto

function no_tie :: "dtn_rates \<Rightarrow> dtn_rates \<Rightarrow> bool" where
  "no_tie [] ys = False"
| "no_tie (x # xs) [] = False"
| "no_tie ((s, a) # xs) ((d, b) # ys) =
     (if b < a then no_tie ((s, a - b) # xs) ys
      else if a < b then no_tie xs ((d, b - a) # ys)
      else xs = [] \<and> ys = [])"
  by pat_completeness auto
termination
  by (relation "measure (\<lambda>(xs, ys). length xs + length ys)") auto

lemma no_tie_nonempty: "no_tie xs ys \<Longrightarrow> xs \<noteq> [] \<and> ys \<noteq> []"
  by (cases xs; cases ys) auto

lemma drop_front: "drop i l = x # xs \<Longrightarrow> i < length l \<and> l ! i = x \<and> drop (Suc i) l = xs"
  by (cases "i < length l") (auto simp: Cons_nth_drop_Suc [symmetric])

lemma drop_update: "i < length v \<Longrightarrow> drop i (v[i := x]) = x # drop (Suc i) v"
  by (simp add: Cons_nth_drop_Suc [symmetric])

lemma match_loop_greedy:
  assumes "no_tie xs ys" and "drop i src = xs" and "drop j dst = ys"
  shows "\<exists>src' dst'. match_loop src dst i j acc = Inr (acc @ greedy_pairs xs ys, src', dst')"
  using assms
proof (induction xs ys arbitrary: src dst i j acc rule: no_tie.induct)
  case (3 s a xs d b ys)
  have i: "i < length src" "src ! i = (s, a)" "drop (Suc i) src = xs"
    and j: "j < length dst" "dst ! j = (d, b)" "drop (Suc j) dst = ys"
    using drop_front [OF "3.prems"(2)] drop_front [OF "3.prems"(3)] by auto
  consider "b < a" | "a < b" | "a = b" by linarith
  then show ?case
  proof cases
    case 1
    then have nt: "no_tie ((s, a - b) # xs) ys" using "3.prems"(1) by simp
    then have "Suc j < length dst" using no_tie_nonempty j(3) by (metis drop_eq_Nil not_less)
    moreover have "drop i (src[i := (s, a - b)]) = (s, a - b) # xs" "drop (Suc j) (dst[j := (d, 0)]) = ys"
      using i j by (simp_all add: drop_update)
    ultimately show ?thesis
      using "3.IH"(1) [OF 1 nt, of i "src[i := (s, a - b)]" "Suc j" "dst[j := (d, 0)]" "acc @ [(s, d, b)]"] 1 i j
      by (subst match_loop.simps) (simp add: Let_def min_def)
  next
    case 2
    then have nt: "no_tie xs ((d, b - a) # ys)" using "3.prems"(1) by simp
    then have "Suc i < length src" using no_tie_nonempty i(3) by (metis drop_eq_Nil not_less)
    moreover have "drop (Suc i) (src[i := (s, 0)]) = xs" "drop j (dst[j := (d, b - a)]) = (d, b - a) # ys"
      using i j by (simp_all add: drop_update)
    ultimately show ?thesis
      using "3.IH"(2) [OF _ 2 nt, of "Suc i" "src[i := (s, 0)]" j "dst[j := (d, b - a)]" "acc @ [(s, d, a)]"] 2 i j
      by (subst match_loop.simps) (simp add: Let_def min_def)
  next
    case 3
    then have "xs = []" "ys = []" using "3.prems"(1) by auto
    moreover from this have "length src = Suc i" "length dst = Suc j"
      using i j by (metis drop_eq_Nil le_antisym Suc_leI)+
    ultimately show ?thesis using 3 i j by (subst match_loop.simps) (simp add: Let_def)
  qed
qed simp_all

text \<open>Under \<open>no_tie\<close>, what is handed out from (or to) a name is what the list holds for it.\<close>

definition from_total :: "string \<Rightarrow> (string \<times> string \<times> double) list \<Rightarrow> double" where
  "from_total n ps = sum_list (map (\<lambda>(s, d, r). if s = n then r else 0) ps)"

definition to_total :: "string \<Rightarrow> (string \<times> string \<times> double) list \<Rightarrow> double" where
  "to_total n ps = sum_list (map (\<lambda>(s, d, r). if d = n then r else 0) ps)"

definition rate_total :: "string \<Rightarrow> dtn_rates \<Rightarrow> double" where
  "rate_total n xs = sum_list (map (\<lambda>(s, r). if s = n then r else 0) xs)"

lemmas totals_def = from_total_def to_total_def rate_total_def

lemma greedy_totals:
  "no_tie xs ys \<Longrightarrow> from_total n (greedy_pairs xs ys) = rate_total n xs \<and> to_total n (greedy_pairs xs ys) = rate_total n ys"
  by (induction xs ys rule: no_tie.induct) (auto simp: totals_def min_def split: if_splits)


section \<open>General nodes\<close>

text \<open>
  The general nodes are stored under the three special ids, never under \<open>gateway\<close>; \<open>create_job\<close> looks
  the gateway up under that name.
\<close>

definition general_ok :: "rgraph \<Rightarrow> bool" where
  "general_ok g \<longleftrightarrow> (\<forall>k \<in> set (keys (general_nodes g)). k \<in> {gateway_id, launcher_id, sdn_id})"

lemma general_ok_no_gateway: "general_ok g \<Longrightarrow> map_of (general_nodes g) ''gateway'' = None"
proof -
  have "''gateway'' \<notin> {gateway_id, launcher_id, sdn_id}" by (simp add: special_ids)
  then show "general_ok g \<Longrightarrow> ?thesis" unfolding general_ok_def map_of_None_keys by blast
qed

lemma general_ok_cong: "keys (general_nodes g') = keys (general_nodes g) \<Longrightarrow> general_ok g' = general_ok g"
  by (simp add: general_ok_def)

lemma create_job_throws:
  assumes "general_ok (rm_rg s)"
  shows "\<exists>e. create_job rj ss ds sd dd rate extra s = (Inl e, s\<lparr>rm_rand := after_guid (rm_rand s),
      rm_jm := add_basic_job (guid_of (rm_rand s)) (if extra then JG_extra else JG_base) JS_running rate (rm_jm s)\<rparr>)"
proof -
  have g: "get_general_node (rm_rg s) ''gateway'' = Inl (Runtime_error ''general node not found. id: gateway'')"
    using general_ok_no_gateway [OF assms] by (simp add: get_general_node_def)
  let ?j = "get_basic_job (add_basic_job (guid_of (rm_rand s)) (if extra then JG_extra else JG_base) JS_running rate (rm_jm s))
      (guid_of (rm_rand s))"
  show ?thesis
    by (cases ?j; cases "get_storage_node (rm_rg s) ss"; cases "get_dtn_node (rm_rg s) sd")
       (simp_all add: create_job_def Let_def g del: seq_a.simps)
qed

lemma general_keys [simp]:
  "keys (general_nodes (node_add_in p e g)) = keys (general_nodes g)"
  "keys (general_nodes (node_add_out p e g)) = keys (general_nodes g)"
  "keys (general_nodes (node_del_in p e g)) = keys (general_nodes g)"
  "keys (general_nodes (node_del_out p e g)) = keys (general_nodes g)"
  by (cases p; simp add: node_add_in_def node_add_out_def node_del_in_def node_del_out_def)+

lemma general_ok_add_edge: "add_edge uid s d cap g = Inr g' \<Longrightarrow> general_ok g \<Longrightarrow> general_ok g'"
  by (auto simp: add_edge_def connect_def bind_r_Inr_iff general_ok_def split: if_splits)

lemma general_ok_erase_edges:
  "erase_in_edge e g = Inr g' \<Longrightarrow> general_ok g \<Longrightarrow> general_ok g'"
  "erase_out_edge e g = Inr g' \<Longrightarrow> general_ok g \<Longrightarrow> general_ok g'"
  by (auto simp: erase_in_edge_def erase_out_edge_def general_ok_def split: option.splits if_splits)

lemma general_ok_erase_node: "general_ok g \<Longrightarrow> general_ok (erase_node i g)"
  using keys_erase [of i "general_nodes g"] by (auto simp: erase_node_def general_ok_def simp del: insert_iff)

lemma general_ok_del_node: "del_node i g = Inr g' \<Longrightarrow> general_ok g \<Longrightarrow> general_ok g'"
  by (auto simp: del_node_def bind_r_Inr_iff split: if_splits option.splits
      intro!: general_ok_erase_node elim!: fold_r_invariant [where P = general_ok] general_ok_erase_edges)

abbreviation keeps_general :: "'a rm_act \<Rightarrow> bool" where
  "keeps_general \<equiv> keeps (\<lambda>s. general_ok (rm_rg s))"

lemma keeps_general_ops [frame_intros]:
  "(\<And>g. general_ok g \<Longrightarrow> general_ok (f g)) \<Longrightarrow> keeps_general (on_graph f)"
  "(\<And>g g'. general_ok g \<Longrightarrow> h g = Inr g' \<Longrightarrow> general_ok g') \<Longrightarrow> keeps_general (try_graph h)"
  "(\<And>g g' u. general_ok g \<Longrightarrow> k u g = Inr g' \<Longrightarrow> general_ok g') \<Longrightarrow> keeps_general (with_guid k)"
  by (auto simp: keeps_def on_graph_def try_graph_def with_guid_def split: sum.splits)

lemma general_ok_adds:
  "general_ok (g\<lparr>s_nodes := x\<rparr>) = general_ok g" "general_ok (g\<lparr>dtn_nodes := y\<rparr>) = general_ok g"
  "general_ok (add_storage_node i n t c g) = general_ok g" "general_ok (add_dtn_node i n c g) = general_ok g"
  "general_ok (set_one_dtn_node a b g) = general_ok g"
  "general_ok g \<Longrightarrow> general_ok (add_launcher i q g)" "general_ok g \<Longrightarrow> general_ok (add_sdn i q g)"
  "general_ok g \<Longrightarrow> general_ok (add_gateway g)" "general_ok RGraph"
  by (simp_all add: general_ok_def add_storage_node_def add_dtn_node_def set_one_dtn_node_def add_launcher_def add_sdn_def
      add_gateway_def set_general_queue_def add_general_node_def RGraph_def)

lemma keeps_general_link [frame_intros]: "keeps_general (link_storage_dtn s d rate)"
  unfolding link_storage_dtn_def rm_add_edge_def
  by (intro frame_intros) (auto simp: general_ok_adds intro: general_ok_add_edge)

lemma keeps_general_gateway [frame_intros]: "keeps_general (rm_add_edge_to_gateway s cap)"
  unfolding rm_add_edge_to_gateway_def
  by (intro frame_intros) (auto simp: add_edge_to_gateway_def intro: general_ok_add_edge split: if_splits)

lemma keeps_general_upd [frame_intros]: "keeps_general (upd_storage i f)" "keeps_general (upd_dtn i h)"
  unfolding upd_storage_def upd_dtn_def by (intro frame_intros; simp add: general_ok_adds)+

lemma keeps_general_add_module [frame_intros]: "keeps_general (add_module q m)"
  unfolding add_module_def add_module_dtn_def add_module_storage_def del_launcher_def del_sdn_def
  by (intro frame_intros) (auto simp: general_ok_adds intro: general_ok_del_node split: if_splits)

lemma keeps_general_link_module [frame_intros]: "keeps_general (link_module m)"
  unfolding link_module_def link_module_storage_def by (intro frame_intros)

lemma keeps_general_add_modules: "keeps_general (add_modules q modules)"
  unfolding add_modules_def seq_a.simps by (intro frame_intros)

lemma keeps_general_del_modules: "keeps_general (del_modules modules)"
  unfolding del_modules_def del_module_def by (intro frame_intros) (auto intro: general_ok_del_node)

lemma keeps_general_construct: "keeps_general (construct ss ds sds)"
  unfolding construct_def seq_a.simps construct_storage_def construct_dtn_def construct_sdmap_def
  by (intro frame_intros) (auto simp: general_ok_adds)

lemma general_ok_ResourceManager: "general_ok (rm_rg (ResourceManager jm r))"
  by (simp add: ResourceManager_def general_ok_def add_gateway_def add_general_node_def RGraph_def)

section \<open>Reachable states\<close>

text \<open>
  The resource manager as a step relation: every operation the server calls on it, run to its end,
  normal or exceptional. A step that constructs edges needs guids that are not in use.
\<close>

inductive rm_step :: "rm_state \<Rightarrow> rm_state \<Rightarrow> bool" where
  step_construct: "fresh_guids (length (elems ds) + length (elems sds)) (rm_rand s) {} \<Longrightarrow>
    rm_step s (snd (construct ss ds sds s))"
| step_add_modules: "fresh_guids (module_edges ms) (rm_rand s) (dom (map_of (edges (rm_rg s)))) \<Longrightarrow>
    rm_step s (snd (add_modules q ms s))"
| step_del_modules: "rm_step s (snd (del_modules ms s))"
| step_query: "rm_step s (snd (query_path_dtns sid rate s))"
| step_create: "rm_step s (snd (create_job rj ss ds sd dd rate extra s))"

inductive rm_reach :: "rm_state \<Rightarrow> bool" where
  reach_init: "rm_reach (ResourceManager JobManager r)"
| reach_step: "rm_reach s \<Longrightarrow> rm_step s t \<Longrightarrow> rm_reach t"

lemma spends_wf: "spends n m \<Longrightarrow> rg_wf (rm_rg s) \<Longrightarrow>
    fresh_guids n (rm_rand s) (dom (map_of (edges (rm_rg s)))) \<Longrightarrow> rg_wf (rm_rg (snd (m s)))"
  by (auto simp: spends_def rm_ok_def dest: spec [where x = 0])

lemma query_graph [simp]: "rm_rg (snd (query_path_dtns sid rate s)) = rm_rg s"
  by (auto simp: query_path_dtns_def Let_def split: sum.splits prod.splits)

lemma keeps_jm_construct: "keeps (\<lambda>s. rm_jm s = jm) (construct ss ds sds)"
  unfolding construct_def seq_a.simps construct_storage_def construct_dtn_def construct_sdmap_def
    link_storage_dtn_def rm_add_edge_def rm_add_edge_to_gateway_def upd_storage_def upd_dtn_def on_graph_def
  by (intro frame_intros) (auto simp: keeps_def with_guid_def split: sum.splits)

lemma keeps_jm_add_modules: "keeps (\<lambda>s. rm_jm s = jm) (add_modules q ms)"
  unfolding add_modules_def seq_a.simps add_module_def add_module_dtn_def add_module_storage_def link_module_def
    link_module_storage_def link_storage_dtn_def rm_add_edge_def rm_add_edge_to_gateway_def upd_storage_def upd_dtn_def on_graph_def
  by (intro frame_intros) (auto simp: keeps_def with_guid_def try_graph_def split: sum.splits)

lemma keeps_jm_del_modules: "keeps (\<lambda>s. rm_jm s = jm) (del_modules ms)"
  unfolding del_modules_def del_module_def
  by (intro frame_intros) (auto simp: keeps_def try_graph_def split: sum.splits)

lemma jm_wf_suspend_loop:
  "suspend_loop g sid rate jm cmds = (r, jm', cmds') \<Longrightarrow> jm_wf jm \<Longrightarrow> jm_wf jm'"
proof (induction g sid rate jm cmds rule: suspend_loop.induct)
  case (1 g sid rate jm cmds)
  show ?case
  proof (cases "\<exists>c sn p. probe_path_rate jm g sid rate = Inr c \<and> c \<noteq> 1 \<and> get_storage_node g sid = Inr sn \<and>
      rjobs sn \<noteq> [] \<and> find_largest_re_job jm sn = Inr p")
    case False
    then have "jm' = jm" using "1.prems"(1) by (subst (asm) suspend_loop.simps) (auto split: sum.splits if_splits)
    with "1.prems"(2) show ?thesis by simp
  next
    case True
    then obtain c sn p where c: "probe_path_rate jm g sid rate = Inr c" "c \<noteq> 1" "get_storage_node g sid = Inr sn"
      "rjobs sn \<noteq> []" "find_largest_re_job jm sn = Inr p" by blast
    then have "suspend_loop g sid rate (set_job_state p JS_marked_for_prealloc jm)
        (cmds @ [UpdateStreamState p (JobState_int JS_marked_for_prealloc)]) = (r, jm', cmds')"
      using "1.prems"(1) by (subst (asm) suspend_loop.simps) simp
    then show ?thesis using "1.IH" [OF c(1) refl _ _ c(3,4,5)] c(2) jm_wf_set_state [OF "1.prems"(2)] by simp
  qed
qed

lemma jm_wf_query: "jm_wf (rm_jm s) \<Longrightarrow> jm_wf (rm_jm (snd (query_path_dtns sid rate s)))"
  by (auto simp: query_path_dtns_def Let_def jm_wf_suspend_loop split: sum.splits prod.splits)

lemma rm_reach_wf:
  assumes "rm_reach s"
  shows "rg_wf (rm_rg s) \<and> general_ok (rm_rg s) \<and> jm_wf (rm_jm s)"
  using assms
proof induction
  case (reach_init r)
  then show ?case
    using general_ok_ResourceManager
    by (simp add: ResourceManager_def rg_wf_add_gateway rg_wf_RGraph jm_wf_JobManager)
next
  case (reach_step s t)
  from reach_step.hyps(2) reach_step.IH show ?case
  proof cases
    case (step_construct ds sds ss)
    then show ?thesis
      using rm_ok_construct reach_step.IH keepsD [OF keeps_general_construct]
        keepsD [OF keeps_jm_construct [of "rm_jm s"], of s] by auto
  next
    case (step_add_modules ms q)
    then show ?thesis
      using spends_wf [OF spends_add_modules] reach_step.IH keepsD [OF keeps_general_add_modules]
        keepsD [OF keeps_jm_add_modules [of "rm_jm s"], of s] by auto
  next
    case (step_del_modules ms)
    then show ?thesis
      using spends_wf [OF spends_del_modules] reach_step.IH keepsD [OF keeps_general_del_modules]
        keepsD [OF keeps_jm_del_modules [of "rm_jm s"], of s] by (auto simp: fresh_guids_def)
  next
    case (step_query sid rate)
    then show ?thesis using reach_step.IH jm_wf_query by auto
  next
    case (step_create rj ss ds sd dd rate extra)
    then show ?thesis
      using create_job_throws [of s rj ss ds sd dd rate extra] reach_step.IH jm_wf_add by auto
  qed
qed

section \<open>Properties\<close>

text \<open>
  C2: in every state the resource manager can reach, whichever operations ran and whether they threw or
  not, the resource graph is well-formed, the job table is well-formed, and the only general nodes are
  the gateway, the launcher and the SDN agent under their special keys.
\<close>

theorem rm_reachable_ok:
  assumes "rm_reach s"
  shows "rg_wf (rm_rg s) \<and> general_ok (rm_rg s) \<and> jm_wf (rm_jm s)"
  by (rule rm_reach_wf [OF assms])

definition demo_modules :: json where
  "demo_modules = jarr
     [jobj [(''id'', JStr ''s1''), (''type'', JStr ''LocalStorage''), (''name'', JStr ''disk''), (''root_folder'', JStr ''/data'')],
      jobj [(''id'', JStr ''d1''), (''type'', JStr ''DTN''), (''name'', JStr ''dtn1''),
            (''ctrl_interface'', jobj [(''ip'', JStr ''10.0.0.1'')]),
            (''data_interfaces'', jarr [jobj [(''rate'', JInt 800000)]]),
            (''storages'', jarr [jobj [(''id'', JStr ''s1''), (''type'', JStr ''local''), (''name'', JStr ''disk'')]])]]"

definition demo_state :: rm_state where
  "demo_state = snd (add_modules ''q1'' demo_modules (ResourceManager JobManager int))"

lemma guid_int: "guid_of int = ''0000-0001-0002-0003''" "guid_of (after_guid int) = ''0004-0005-0006-0007''"
  by code_simp+

lemmas demo_exec = exec demo_modules_def demo_state_def jarr_def jobj_def guid_int gateway_id_def

lemma demo_fresh: "fresh_guids 3 int {}"
  by (auto simp: fresh_guids_def guid_at_def guid_eq_iff)

lemma demo_reach: "rm_reach demo_state"
proof -
  have "module_edges demo_modules = 3" by code_simp
  moreover have "edges (rm_rg (ResourceManager JobManager int)) = []"
    by (simp add: ResourceManager_def) (simp add: RGraph_def)
  ultimately show ?thesis
    unfolding demo_state_def
    using demo_fresh
    by (intro reach_step [OF reach_init [of int]] step_add_modules) (simp add: ResourceManager_def)
qed

theorem rm_reachable_ok_witness:
  "rg_wf (rm_rg demo_state) \<and> general_ok (rm_rg demo_state) \<and> jm_wf (rm_jm demo_state)"
  by (rule rm_reachable_ok [OF demo_reach])

text \<open>
  Admission control is monotone: a storage that admits a rate unconditionally (code 1) admits every
  smaller rate unconditionally.
\<close>

lemma probe_monotone:
  assumes "probe_path_rate jm g sid rate = Inr 1" and "rate' \<le> rate"
  shows "probe_path_rate jm g sid rate' = Inr 1"
  using assms unfolding probe_1_iff by (meson le_less_trans order_trans)

lemma probe_monotone_witness:
  "probe_path_rate (rm_jm demo_state) (rm_rg demo_state) ''s1'' 200000 = Inr 1"
  by (rule probe_monotone [where rate = 500000]) (simp_all add: demo_exec Let_def cong: bind_a_lazy bind_r_lazy)

text \<open>
  C8: provisioning is exact. When \<open>query_path_dtns\<close> returns DTNs for a non-negative rate, their rates add
  up to exactly the rate asked for, and no DTN is given more than the rate its links have left.
\<close>

theorem query_path_dtns_exact:
  assumes "query_path_dtns sid rate s = (Inr v, s')" and "0 \<le> rate" and "v \<noteq> []"
  shows "sum_list (map snd v) = rate \<and>
    (\<forall>(d, x) \<in> set v. 0 \<le> x \<and> (\<exists>k L. link_rate (rm_jm s') (rm_rg s') k = Inr (d, L) \<and> x \<le> L))"
proof -
  obtain sn jm' cmds' where sn: "get_storage_node (rm_rg s) sid = Inr sn"
    and loop: "suspend_loop (rm_rg s) sid rate (rm_jm s) (rm_cmds s) = (Inr True, jm', cmds')"
    and v: "alloc_dtns jm' (rm_rg s) (out_edges sn) rate = Inr v" and s': "s' = s\<lparr>rm_jm := jm', rm_cmds := cmds'\<rparr>"
    using assms(1,3) by (auto simp: query_path_dtns_def Let_def split: sum.splits prod.splits if_splits)
  from suspend_loop_enough [OF loop] sn obtain prs where
    "map_r (path_rates jm' (rm_rg s)) (out_edges sn) = Inr prs" "rate < sum_list (map fst prs)"
    unfolding probe_1_iff by auto
  from alloc_dtns_exact [OF this(1) assms(2) this(2)] v s' show ?thesis by fastforce
qed

theorem query_path_dtns_exact_witness:
  "\<exists>v s'. query_path_dtns ''s1'' 300000 demo_state = (Inr v, s') \<and> v \<noteq> [] \<and> sum_list (map snd v) = 300000"
proof -
  have "fst (query_path_dtns ''s1'' 300000 demo_state) = Inr [(''d1'', 300000)]"
    by (simp add: demo_exec suspend_loop.simps Let_def cong: bind_a_lazy bind_r_lazy)
  then obtain s' where "query_path_dtns ''s1'' 300000 demo_state = (Inr [(''d1'', 300000)], s')"
    by (cases "query_path_dtns ''s1'' 300000 demo_state") simp
  then show ?thesis using query_path_dtns_exact by fastforce
qed

text \<open>
  C10: preemption is confined. Whatever \<open>query_path_dtns\<close> returns or throws, the only jobs it changes are
  extra jobs that were running; each is marked for preallocation, keeps its id, group and rate, and is
  reported to the store exactly once, in the order of suspension.
\<close>

theorem query_path_dtns_preempts:
  assumes "query_path_dtns sid rate s = (r, s')"
  shows "\<exists>ps. rm_cmds s' = rm_cmds s @ map (\<lambda>p. UpdateStreamState p (JobState_int JS_marked_for_prealloc)) ps \<and> distinct ps \<and>
    (\<forall>p \<in> set ps. \<exists>j. map_of (basic_jobs (rm_jm s)) p = Some j \<and> running_extra j) \<and>
    (\<forall>k. map_of (basic_jobs (rm_jm s')) k =
       (if k \<in> set ps then map_option (set_state JS_marked_for_prealloc) (map_of (basic_jobs (rm_jm s)) k)
        else map_of (basic_jobs (rm_jm s)) k))"
proof (cases "get_storage_node (rm_rg s) sid")
  case (Inl e)
  with assms show ?thesis by (intro exI [of _ "[]"]) (auto simp: query_path_dtns_def)
next
  case (Inr sn)
  obtain q jm' cmds' where loop: "suspend_loop (rm_rg s) sid rate (rm_jm s) (rm_cmds s) = (q, jm', cmds')"
    by (cases "suspend_loop (rm_rg s) sid rate (rm_jm s) (rm_cmds s)") auto
  then have "s' = s\<lparr>rm_jm := jm', rm_cmds := cmds'\<rparr>"
    using assms Inr by (auto simp: query_path_dtns_def Let_def split: sum.splits if_splits)
  with suspend_loop_effect [OF loop] show ?thesis by simp
qed

text \<open>A storage with two extra jobs and one base job on it.\<close>

definition demo_jobs :: jobmanager where
  "demo_jobs = add_basic_job ''j1'' JG_extra JS_running 300000 (add_basic_job ''j2'' JG_extra JS_running 100000
     (add_basic_job ''j3'' JG_base JS_running 50000 JobManager))"

definition busy_state :: rm_state where
  "busy_state = demo_state\<lparr>rm_jm := demo_jobs, rm_rg := (rm_rg demo_state)\<lparr>s_nodes :=
     adjust ''s1'' (\<lambda>n. n\<lparr>rjobs := [(''j1'', ''j1''), (''j2'', ''j2''), (''j3'', ''j3'')]\<rparr>) (s_nodes (rm_rg demo_state))\<rparr>\<rparr>"

lemmas busy_exec = demo_exec busy_state_def demo_jobs_def add_basic_job_def BaseJob_def set_job_state_def set_state_def

theorem query_path_dtns_preempts_witness:
  "\<exists>r s'. query_path_dtns ''s1'' 2000000 busy_state = (r, s') \<and>
    (\<exists>ps. rm_cmds s' = rm_cmds busy_state @ map (\<lambda>p. UpdateStreamState p (JobState_int JS_marked_for_prealloc)) ps \<and> distinct ps)"
  using query_path_dtns_preempts [of "''s1''" 2000000 busy_state] by (metis surj_pair)

text \<open>
  A request beyond the capacity of a storage is refused only after every running extra job on it
  has been suspended. The variable that should hold the admission code holds the truth value of the
  comparison with 1, so the early return for insufficient bandwidth is never taken.
\<close>

lemma refused_request_suspends_all:
  assumes "get_storage_node (rm_rg s) sid = Inr sn" and "capacity sn < rate" and "rjobs sn \<noteq> []"
    and "query_path_dtns sid rate s = (r, s')"
    and "(p, j) \<in> set (jobs_on (rm_jm s') sn)" and "0 \<le> job_rate j"
  shows "isl r \<and> \<not> running_extra j"
proof -
  obtain q jm' cmds' where loop: "suspend_loop (rm_rg s) sid rate (rm_jm s) (rm_cmds s) = (q, jm', cmds')"
    by (cases "suspend_loop (rm_rg s) sid rate (rm_jm s) (rm_cmds s)") auto
  then obtain e where q: "q = Inl e" "find_largest_re_job jm' sn = Inl e"
    using suspend_loop_refused [OF loop assms(1,2)] assms(3) by auto
  with assms(1,4) loop have "r = Inl e" "rm_jm s' = jm'" by (auto simp: query_path_dtns_def Let_def)
  with q(2) find_largest_none [OF _ assms(5,6)] show ?thesis by auto
qed

definition tiny_rm :: rm_state where
  "tiny_rm = \<lparr>rm_jm = demo_jobs,
     rm_rg = (add_storage_node ''s1'' ''S'' ST_internal 1000000 RGraph)\<lparr>s_nodes :=
       [(''s1'', (StorageNode ''s1'' ''S'' ST_internal 1000000)\<lparr>rjobs := [(''j1'', ''j1''), (''j2'', ''j2'')]\<rparr>)]\<rparr>,
     rm_rand = int, rm_cmds = []\<rparr>"

lemma refused_request_suspends_all_witness:
  "\<exists>r s'. query_path_dtns ''s1'' 2000000 tiny_rm = (r, s') \<and> isl r \<and>
     map_of (basic_jobs (rm_jm s')) ''j2'' = Some (BaseJob ''j2'' JG_extra JS_marked_for_prealloc 100000)"
proof -
  let ?sn = "(StorageNode ''s1'' ''S'' ST_internal 1000000)\<lparr>rjobs := [(''j1'', ''j1''), (''j2'', ''j2'')]\<rparr>"
  obtain r s' where q: "query_path_dtns ''s1'' 2000000 tiny_rm = (r, s')" by (metis surj_pair)
  have j2: "map_of (basic_jobs (rm_jm s')) ''j2'' = Some (BaseJob ''j2'' JG_extra JS_marked_for_prealloc 100000)"
    using q by (simp add: tiny_rm_def busy_exec suspend_loop.simps Let_def cong: bind_a_lazy bind_r_lazy) fastforce
  have "isl r \<and> \<not> running_extra (BaseJob ''j2'' JG_extra JS_marked_for_prealloc 100000)"
  proof (rule refused_request_suspends_all [OF _ _ _ q])
    show "get_storage_node (rm_rg tiny_rm) ''s1'' = Inr ?sn" by (simp add: tiny_rm_def get_storage_node_def)
    show "(''j2'', BaseJob ''j2'' JG_extra JS_marked_for_prealloc 100000) \<in> set (jobs_on (rm_jm s') ?sn)"
      using j2 by (auto simp: jobs_on_def List.map_filter_simps split: option.splits)
  qed (simp_all add: StorageNode_def RNode_def rnode.defs storage_node.defs BaseJob_def)
  with q j2 show ?thesis by blast
qed

text \<open>
  C11: pairing conserves rates. When the totals of the two lists agree and no proper initial segments of
  them have equal totals, \<open>match_path_dtns\<close> returns the reference pairing; every source DTN sends and every
  destination DTN receives exactly the rate it was provisioned with.
\<close>

theorem match_path_dtns_conserves:
  assumes "no_tie src dst"
  shows "\<exists>ps src' dst'. match_path_dtns src dst = Inr (ps, src', dst') \<and> ps = greedy_pairs src dst \<and>
    (\<forall>n. from_total n ps = rate_total n src \<and> to_total n ps = rate_total n dst)"
  using match_loop_greedy [OF assms, of 0 src 0 dst "[]"] greedy_totals [OF assms]
  by (auto simp: match_path_dtns_def)

theorem match_path_dtns_conserves_witness:
  "\<exists>ps src' dst'. match_path_dtns [(''a'', 30), (''b'', 20)] [(''c'', 40), (''d'', 10)] = Inr (ps, src', dst') \<and>
     ps = [(''a'', ''c'', 30), (''b'', ''c'', 10), (''b'', ''d'', 10)] \<and> to_total ''c'' ps = 40"
  using match_path_dtns_conserves [of "[(''a'', 30), (''b'', 20)]" "[(''c'', 40), (''d'', 10)]"]
  by (auto simp: rate_total_def)

text \<open>
  Equal rates in the middle break the pairing. Two sources and two destinations with pairwise equal
  rates, which could be paired one to one, end in an exception: the missing \<open>else\<close> makes the round advance
  the source twice.
\<close>

lemma match_path_dtns_tie_throws:
  "match_path_dtns [(s1, a), (s2, b)] [(d1, a), (d2, b)] = Inl (Runtime_error ''something wrong in dtn matching'')"
  by (simp add: match_path_dtns_def match_loop.simps [of "[(s1, a), (s2, b)]"] Let_def)

text \<open>
  No job is ever created. In every reachable state \<open>create_job\<close> throws, because the gateway is not
  stored under the key \<open>gateway\<close>: nothing is inserted into the database and no node or edge learns of the
  job, but the job stays behind, running, in the job manager.
\<close>

lemma create_job_never_succeeds:
  assumes "rm_reach s"
  shows "\<exists>e. create_job rj ss ds sd dd rate extra s = (Inl e, s\<lparr>rm_rand := after_guid (rm_rand s),
      rm_jm := add_basic_job (guid_of (rm_rand s)) (if extra then JG_extra else JG_base) JS_running rate (rm_jm s)\<rparr>)"
proof -
  have "general_ok (rm_rg s)"
    using assms
  proof induction
    case (reach_step s t)
    have "general_ok (rm_rg (snd (create_job rj ss ds sd dd rate extra s)))" for rj ss ds sd dd rate extra
      using create_job_throws [OF reach_step.IH, of rj ss ds sd dd rate extra] reach_step.IH by auto
    with reach_step.hyps(2) reach_step.IH show ?case
      by cases (auto intro: keepsD [OF keeps_general_construct] keepsD [OF keeps_general_add_modules]
          keepsD [OF keeps_general_del_modules])
  qed (rule general_ok_ResourceManager)
  then show ?thesis by (rule create_job_throws)
qed

lemma create_job_never_succeeds_witness:
  "\<exists>e. fst (create_job ''r'' ''s1'' ''s2'' ''d1'' ''d2'' 1000 True demo_state) = Inl e"
  using create_job_never_succeeds [OF demo_reach, of "''r''" "''s1''" "''s2''" "''d1''" "''d2''" 1000 True] by auto

end
