(* ===== verification/Tsdb.thy ===== *)
theory Tsdb
  imports Json_Value Utils
begin

text \<open>
  The line protocol of \<open>src/utils/tsdb.h\<close>, \<open>src/utils/tsdb-helpers.h\<close> and \<open>src/utils/tsdb.cc\<close>: how
  \<open>TimeSeriesMeasurement::insert\<close> turns a row of fields and tags into the text that is posted to the
  time-series database. The post itself (\<open>run_post\<close>, curl) is outside; its outcome is a flag that every
  caller ignores.
\<close>

section \<open>Formatting\<close>

text \<open>\<open>std::to_string(double)\<close>: \<open>%f\<close>, six digits after the point.\<close>

definition pad6 :: "string \<Rightarrow> string" where
  "pad6 s = replicate (6 - length s) (CHR ''0'') @ s"

definition to_string_double :: "double \<Rightarrow> string" where
  "to_string_double x = (let n = round_even (\<bar>x\<bar> * 1000000)
     in (if x < 0 then ''-'' else []) @ to_string (n div 1000000) @ ''.'' @ pad6 (to_string (n mod 1000000)))"

datatype ts_value = TsDouble double | TsInt int | TsBool bool | TsString string

primrec format :: "ts_value \<Rightarrow> string" where
  "format (TsDouble x) = to_string_double x"
| "format (TsInt n) = to_string n"
| "format (TsBool b) = (if b then ''true'' else ''false'')"
| "format (TsString s) = CHR 0x22 # s @ [CHR 0x22]"

text \<open>A comma, an equals sign or white space gets a backslash in front; a backslash itself does not.\<close>

definition is_special :: "char \<Rightarrow> bool" where
  "is_special c \<longleftrightarrow> c = CHR '','' \<or> c = CHR ''='' \<or> is_space c"

fun escape :: "string \<Rightarrow> string" where
  "escape [] = []"
| "escape (c # s) = (if is_special c then CHR 0x5C # c # escape s else c # escape s)"

section \<open>Building a line\<close>

fun tag_set :: "string list \<Rightarrow> string list \<Rightarrow> string" where
  "tag_set (k # ks) (v # vs) =
     (if k \<noteq> [] \<and> v \<noteq> [] then '','' @ escape k @ ''='' @ escape v else []) @ tag_set ks vs"
| "tag_set _ _ = []"

text \<open>The first field is written without a comma, and only its key is escaped.\<close>

fun later_fields :: "string list \<Rightarrow> ts_value list \<Rightarrow> string" where
  "later_fields (k # ks) (v # vs) =
     (if k \<noteq> [] \<and> format v \<noteq> [] then '','' @ k @ ''='' @ format v else []) @ later_fields ks vs"
| "later_fields _ _ = []"

fun field_set :: "string list \<Rightarrow> ts_value list \<Rightarrow> string" where
  "field_set (k # ks) (v # vs) =
     (if k \<noteq> [] \<and> format v \<noteq> [] then escape k @ ''='' @ format v else []) @ later_fields ks vs"
| "field_set _ _ = []"

record measurement =
  ms_name :: string
  ms_fields :: "string list"
  ms_tags :: "string list"

text \<open>\<open>insert\<close>: the text it posts, none when there is no field to write.\<close>

definition ts_line :: "measurement \<Rightarrow> ts_value list \<Rightarrow> string list \<Rightarrow> string option" where
  "ts_line m vals tags =
     (let val_str = field_set (ms_fields m) vals
      in if val_str = [] then None else Some (ms_name m @ tag_set (ms_tags m) tags @ '' '' @ val_str))"

section \<open>Escaping\<close>

lemma special_chars [simp]:
  "is_special (CHR '','')" "is_special (CHR ''='')" "is_special (CHR '' '')" "\<not> is_special (CHR 0x5C)"
  by (simp_all add: is_special_def is_space_def)

lemma escape_hd: "s \<noteq> [] \<Longrightarrow> \<exists>d t. escape s = d # t \<and> \<not> is_special d"
  by (cases s) auto

lemma escape_not_special: "is_special c \<Longrightarrow> escape s \<noteq> c # t"
  using escape_hd [of s] by (cases "s = []") auto

text \<open>No two tags are written alike, though a backslash is not escaped.\<close>

lemma escape_inj: "escape s = escape t \<Longrightarrow> s = t"
proof (induction s arbitrary: t)
  case Nil
  then show ?case by (cases t) (auto split: if_splits)
next
  case (Cons c s)
  then obtain d u where t: "t = d # u" by (cases t) (auto split: if_splits)
  show ?case using Cons escape_not_special [of c u] escape_not_special [of d s] unfolding t
    by (cases "is_special c"; cases "is_special d") (auto dest: sym)
qed

text \<open>The separator after a tag that ends in a backslash is written with a backslash in front of it, as one within a tag is.\<close>

lemma trailing_backslash:
  "tag_set [''group''] [''f'' @ [CHR 0x5C]] @ '' '' = '',group=f'' @ [CHR 0x5C] @ '' ''"
  "tag_set [''group''] [''f ''] = '',group=f'' @ [CHR 0x5C] @ '' ''"
  by code_simp+

end
