(* ===== verification/Server_Env.thy ===== *)
theory Server_Env
  imports Resource_Manager Tsdb
begin

text \<open>
  The surroundings of the server. What the server talks to is not part of it: the MongoDB database
  (through \<open>utils::MongoStore\<close> and the mongocxx driver), the portals and the WAN controller (HTTP, through
  \<open>Portal\<close> and curl), the agents (RPC over MQTT), the clock and \<open>std::rand\<close>. They are functions on an
  opaque world \<open>'w\<close>, the fields of \<open>env\<close>; each may answer or throw, and each may change the world.

  The state of the server holds that environment, the world, the log of all exchanges so far, and the
  components it owns. The log is what most properties speak about.
\<close>

section \<open>Requests and the log\<close>

datatype http_req =
    HPost string json                     \<comment> \<open>\<open>portal.post(url, params)\<close>\<close>
  | HPostForm string string               \<comment> \<open>\<open>portal.post_form(url, params)\<close>\<close>
  | HPostAuth string string string json   \<comment> \<open>\<open>portal.post(url, acc, ref, params)\<close>\<close>
  | HPut string string string             \<comment> \<open>\<open>portal.put(url, acc, ref)\<close>\<close>
  | HDel string string string             \<comment> \<open>\<open>portal.del(url, acc, ref)\<close>\<close>

text \<open>
  Database requests carry the filter and the update as the documents the code builds; an object id
  \<open>bsoncxx::oid(id)\<close> is the document \<open>{"$oid": id}\<close>. A request returns documents: the matches of a query,
  the document of a \<open>find_one\<close> (none or one), the id of an inserted document.
\<close>

datatype db_req =
    DbFind string json json               \<comment> \<open>collection, filter, sort order (null: none)\<close>
  | DbFindOne string json
  | DbUpdateOne string json json
  | DbFindOneAndUpdate string json json   \<comment> \<open>returns the document after the update when asked to\<close>
  | DbInsertOne string json
  | DbDelMany string json

record 'w env =
  e_http :: "http_req \<Rightarrow> 'w \<Rightarrow> (exn, int \<times> json) result \<times> 'w"
  e_db :: "db_req \<Rightarrow> 'w \<Rightarrow> (exn, json list) result \<times> 'w"
  e_rpc :: "string \<Rightarrow> json \<Rightarrow> int \<Rightarrow> 'w \<Rightarrow> (exn, json) result \<times> 'w"
  e_now :: "'w \<Rightarrow> int \<times> 'w"
  e_rand :: "'w \<Rightarrow> int \<times> 'w"

datatype event =
    Http http_req "(exn, int \<times> json) result"
  | Db db_req "(exn, json list) result"
  | Rpc string json int "(exn, json) result"   \<comment> \<open>queue, message, timeout in seconds\<close>
  | Sleep int                                  \<comment> \<open>seconds\<close>
  | Ts string                                  \<comment> \<open>a line posted to the time-series database\<close>
  | Pub string json int bool                   \<comment> \<open>MQTT message: topic, content, quality of service, retained\<close>
  | Clr_retain string int                      \<comment> \<open>MQTT: the retained message of a topic is cleared\<close>

record acc_token =
  tok_acc :: string
  tok_ref :: string

record wan_conf =
  auth_url :: string
  base_url :: string
  wan_username :: string
  wan_password :: string
  client_id :: string
  client_secret :: string
  wan_configured :: bool

text \<open>The settings of \<open>Scheduler\<close> that are read once, in its constructor.\<close>

record sched_conf =
  ld_auth_password :: bool
  ld_auth_usr :: string
  ld_auth_pwd :: string
  ld_file :: bool
  ld_checksum :: bool
  ld_checksum_alg :: string
  ld_group_size :: int
  cmd_path :: string
  net_conf :: json
  inactive_timeout_ms :: int

record 'w srv =
  s_env :: "'w env"
  s_world :: 'w
  s_log :: "event list"
  s_rm :: rm_state
  s_wan :: wan_conf
  s_token :: acc_token
  s_conf :: sched_conf
  site_txrx :: "(string, int \<times> int) stdmap"

type_synonym ('w, 'a) srv_act = "('w srv, exn, 'a) act"

section \<open>Exchanges\<close>

definition http :: "http_req \<Rightarrow> ('w, int \<times> json) srv_act" where
  "http q = (\<lambda>s. let (r, w) = e_http (s_env s) q (s_world s)
     in (r, s\<lparr>s_world := w, s_log := s_log s @ [Http q r]\<rparr>))"

definition db :: "db_req \<Rightarrow> ('w, json list) srv_act" where
  "db q = (\<lambda>s. let (r, w) = e_db (s_env s) q (s_world s)
     in (r, s\<lparr>s_world := w, s_log := s_log s @ [Db q r]\<rparr>))"

definition rpc_call :: "string \<Rightarrow> json \<Rightarrow> int \<Rightarrow> ('w, json) srv_act" where
  "rpc_call queue m timeout = (\<lambda>s. let (r, w) = e_rpc (s_env s) queue m timeout (s_world s)
     in (r, s\<lparr>s_world := w, s_log := s_log s @ [Rpc queue m timeout r]\<rparr>))"

definition now_ms :: "('w, int) srv_act" where
  "now_ms = (\<lambda>s. let (t, w) = e_now (s_env s) (s_world s) in (Inr t, s\<lparr>s_world := w\<rparr>))"

definition rand_a :: "('w, int) srv_act" where
  "rand_a = (\<lambda>s. let (n, w) = e_rand (s_env s) (s_world s) in (Inr n, s\<lparr>s_world := w\<rparr>))"

definition guid_a :: "('w, string) srv_act" where
  "guid_a = bind_a rand_a (\<lambda>a. bind_a rand_a (\<lambda>b. bind_a rand_a (\<lambda>c. bind_a rand_a (\<lambda>d. ret_a (guid a b c d)))))"

definition sleep_s :: "int \<Rightarrow> ('w, unit) srv_act" where
  "sleep_s n = upd_a (\<lambda>s. s\<lparr>s_log := s_log s @ [Sleep n]\<rparr>)"

definition ts_insert :: "measurement \<Rightarrow> ts_value list \<Rightarrow> string list \<Rightarrow> ('w, unit) srv_act" where
  "ts_insert m vals tags = (case ts_line m vals tags of
       None \<Rightarrow> ret_a ()
     | Some q \<Rightarrow> upd_a (\<lambda>s. s\<lparr>s_log := s_log s @ [Ts q]\<rparr>))"

text \<open>Publishing goes through libmosquitto; the code ignores the return codes.\<close>

definition publish :: "string \<Rightarrow> json \<Rightarrow> int \<Rightarrow> bool \<Rightarrow> ('w, unit) srv_act" where
  "publish topic msg qos retain = upd_a (\<lambda>s. s\<lparr>s_log := s_log s @ [Pub topic msg qos retain]\<rparr>)"

definition clr_retain :: "string \<Rightarrow> int \<Rightarrow> ('w, unit) srv_act" where
  "clr_retain topic qos = upd_a (\<lambda>s. s\<lparr>s_log := s_log s @ [Clr_retain topic qos]\<rparr>)"

text \<open>Reading and writing JSON documents; a failed precondition is the exception of jsoncpp.\<close>

definition jget_a :: "json \<Rightarrow> sel list \<Rightarrow> ('w, json) srv_act" where
  "jget_a j p = lift_r (opt_r Json_error (jget j p))"

definition jstr_a :: "json \<Rightarrow> sel list \<Rightarrow> ('w, string) srv_act" where
  "jstr_a j p = lift_r (opt_r Json_error (Option.bind (jget j p) asString))"

definition jint_a :: "json \<Rightarrow> sel list \<Rightarrow> ('w, int) srv_act" where
  "jint_a j p = lift_r (opt_r Json_error (Option.bind (jget j p) asInt))"

definition jint64_a :: "json \<Rightarrow> sel list \<Rightarrow> ('w, int) srv_act" where
  "jint64_a j p = lift_r (opt_r Json_error (Option.bind (jget j p) asInt64))"

definition juint64_a :: "json \<Rightarrow> sel list \<Rightarrow> ('w, int) srv_act" where
  "juint64_a j p = lift_r (opt_r Json_error (Option.bind (jget j p) asUInt64))"

definition jdouble_a :: "json \<Rightarrow> sel list \<Rightarrow> ('w, double) srv_act" where
  "jdouble_a j p = lift_r (opt_r Json_error (Option.bind (jget j p) asDouble))"

definition jbool_a :: "json \<Rightarrow> sel list \<Rightarrow> ('w, bool) srv_act" where
  "jbool_a j p = lift_r (opt_r Json_error (Option.bind (jget j p) asBool))"

definition jset_a :: "sel list \<Rightarrow> json \<Rightarrow> json \<Rightarrow> ('w, json) srv_act" where
  "jset_a p v j = lift_r (opt_r Json_error (jset p v j))"

lemmas json_acts = jget_a_def jstr_a_def jint_a_def jint64_a_def juint64_a_def jdouble_a_def jbool_a_def jset_a_def

section \<open>What an action may add to the log\<close>

text \<open>
  \<open>emits P m\<close>: whatever its outcome, \<open>m\<close> only appends to the log, and every event it appends satisfies
  \<open>P\<close>. Together with the closure rules in \<open>frame_intros\<close> this bounds what a whole operation can ask of the
  outside, for every environment.
\<close>

definition emits :: "(event \<Rightarrow> bool) \<Rightarrow> ('w, 'a) srv_act \<Rightarrow> bool" where
  "emits P m \<longleftrightarrow> (\<forall>s. \<exists>l. s_log (snd (m s)) = s_log s @ l \<and> list_all P l)"

lemma emitsD: "emits P m \<Longrightarrow> m s = (r, t) \<Longrightarrow> \<exists>l. s_log t = s_log s @ l \<and> list_all P l"
  unfolding emits_def by (metis snd_conv)

lemma emits_mono: "emits P m \<Longrightarrow> (\<And>e. P e \<Longrightarrow> Q e) \<Longrightarrow> emits Q m"
  unfolding emits_def by (metis list.pred_mono_strong)

lemma emits_quiet [frame_intros]:
  "emits P (ret_a a)" "emits P (throw_a e)" "emits P (get_a g)" "emits P (lift_r r)"
  "emits P (jget_a j p)" "emits P (jstr_a j p)" "emits P (jint_a j p)" "emits P (jint64_a j p)" "emits P (juint64_a j p)"
  "emits P (jdouble_a j p)" "emits P (jbool_a j p)" "emits P (jset_a p v j)" "emits P now_ms" "emits P rand_a"
  by (simp_all add: emits_def json_acts now_ms_def rand_a_def split: prod.splits)

lemma emits_upd [frame_intros]: "(\<And>s. s_log (u s) = s_log s) \<Longrightarrow> emits P (upd_a u)"
  by (simp add: emits_def)

lemma emits_http [frame_intros]: "(\<And>r. P (Http q r)) \<Longrightarrow> emits P (http q)"
  and emits_db [frame_intros]: "(\<And>r. P (Db c r)) \<Longrightarrow> emits P (db c)"
  and emits_rpc [frame_intros]: "(\<And>r. P (Rpc k m t r)) \<Longrightarrow> emits P (rpc_call k m t)"
  and emits_sleep [frame_intros]: "P (Sleep n) \<Longrightarrow> emits P (sleep_s n)"
  and emits_publish [frame_intros]: "P (Pub k m i b) \<Longrightarrow> emits P (publish k m i b)"
  and emits_clr_retain [frame_intros]: "P (Clr_retain k i) \<Longrightarrow> emits P (clr_retain k i)"
  by (simp_all add: emits_def http_def db_def rpc_call_def sleep_s_def publish_def clr_retain_def split: prod.splits)

lemma emits_ts [frame_intros]: "(\<And>q. P (Ts q)) \<Longrightarrow> emits P (ts_insert m vals tags)"
  by (simp add: emits_def ts_insert_def split: option.splits)

lemma emits_bind [frame_intros]:
  assumes "emits P m" and "\<And>a. emits P (f a)"
  shows "emits P (bind_a m f)"
proof (unfold emits_def, intro allI)
  fix s
  obtain r t where m: "m s = (r, t)" by (cases "m s")
  obtain l where l: "s_log t = s_log s @ l" "list_all P l" using emitsD [OF assms(1) m] by blast
  show "\<exists>l. s_log (snd (bind_a m f s)) = s_log s @ l \<and> list_all P l"
  proof (cases r)
    case (Inl e)
    with m l show ?thesis by auto
  next
    case (Inr a)
    obtain r2 u where f: "f a t = (r2, u)" by (cases "f a t")
    obtain l2 where "s_log u = s_log t @ l2" "list_all P l2" using emitsD [OF assms(2) f] by blast
    with m Inr f l show ?thesis by auto
  qed
qed

lemma emits_catch [frame_intros]:
  assumes "emits P m" and "emits P h"
  shows "emits P (catch_a m h)"
proof (unfold emits_def, intro allI)
  fix s
  obtain r t where m: "m s = (r, t)" by (cases "m s")
  obtain l where l: "s_log t = s_log s @ l" "list_all P l" using emitsD [OF assms(1) m] by blast
  obtain r2 u where h: "h t = (r2, u)" by (cases "h t")
  obtain l2 where "s_log u = s_log t @ l2" "list_all P l2" using emitsD [OF assms(2) h] by blast
  with m h l show "\<exists>l. s_log (snd (catch_a m h s)) = s_log s @ l \<and> list_all P l"
    by (cases r) (auto simp: catch_a_def)
qed

lemma emits_when [frame_intros]: "(b \<Longrightarrow> emits P m) \<Longrightarrow> emits P (when_a b m)"
  by (cases b) (simp_all add: emits_quiet)

lemma emits_seq [frame_intros]: "(\<And>m. m \<in> set ms \<Longrightarrow> emits P m) \<Longrightarrow> emits P (seq_a ms)"
  by (induction ms) (auto intro!: emits_bind emits_quiet)

lemma emits_foreach [frame_intros]: "(\<And>x. x \<in> set xs \<Longrightarrow> emits P (f x)) \<Longrightarrow> emits P (foreach_a f xs)"
  by (induction xs) (auto intro!: emits_bind emits_quiet)

lemma emits_fold [frame_intros]: "(\<And>x b. x \<in> set xs \<Longrightarrow> emits P (f x b)) \<Longrightarrow> emits P (fold_a f xs b)"
  by (induction xs arbitrary: b) (auto intro!: emits_bind emits_quiet)

lemma emits_map [frame_intros]: "(\<And>x. x \<in> set xs \<Longrightarrow> emits P (f x)) \<Longrightarrow> emits P (map_a f xs)"
  by (induction xs) (auto intro!: emits_bind emits_quiet)

lemma emits_if [frame_intros]: "(b \<Longrightarrow> emits P m) \<Longrightarrow> (\<not> b \<Longrightarrow> emits P n) \<Longrightarrow> emits P (if b then m else n)"
  by simp

lemma emits_case_option [frame_intros]:
  "emits P n \<Longrightarrow> (\<And>x. emits P (f x)) \<Longrightarrow> emits P (case v of None \<Rightarrow> n | Some x \<Rightarrow> f x)"
  by (cases v) simp_all

lemma emits_case_prod [frame_intros]: "(\<And>x y. emits P (f x y)) \<Longrightarrow> emits P (case v of (x, y) \<Rightarrow> f x y)"
  by (cases v) simp_all

lemma emits_let [frame_intros]: "emits P (f v) \<Longrightarrow> emits P (let x = v in f x)"
  by simp

lemma emits_guid [frame_intros]: "emits P guid_a"
  unfolding guid_a_def by (intro frame_intros)

end
