(* ===== verification/Site_Store.thy ===== *)
theory Site_Store
  imports Server_Env
begin

text \<open>
  The site store of \<open>src/server/sitestore.h\<close> and \<open>src/server/sitestore.cc\<close>, and the states of raw jobs,
  scheduled jobs (sjobs), flows and blocks of \<open>src/server/typedefs.h\<close>: every query and update the server
  sends to the database, with the filter and update document the code builds.

  The driver turns the documents it returns into JSON text and \<open>Json::Reader\<close> parses it; the model starts
  from the parsed documents, so the branches for unparsable text are not part of it.
\<close>

section \<open>States\<close>

datatype rawjob_state = RJ_waiting | RJ_transferring | RJ_finished | RJ_error

datatype sjob_state = SJ_waiting | SJ_transferring | SJ_finished | SJ_error | SJ_bootstrap | SJ_dtn_matching
  | SJ_wan_setup | SJ_sdn_setup | SJ_path_verification | SJ_launching | SJ_checksum_verification
  | SJ_sdn_teardown | SJ_wan_teardown

datatype block_state = BL_waiting | BL_transferring | BL_finished

datatype flow_state = FL_scheduling | FL_setting | FL_transferring | FL_waiting | FL_waiting_to_be_teared
  | FL_tearing | FL_done | FL_error

datatype sjob_stage = SG_pending | SG_working | SG_success | SG_error

primrec rawjob_state_int :: "rawjob_state \<Rightarrow> int" where
  "rawjob_state_int RJ_waiting = 0"
| "rawjob_state_int RJ_transferring = 1"
| "rawjob_state_int RJ_finished = 2"
| "rawjob_state_int RJ_error = 3"

primrec sjob_state_int :: "sjob_state \<Rightarrow> int" where
  "sjob_state_int SJ_waiting = 0"
| "sjob_state_int SJ_transferring = 1"
| "sjob_state_int SJ_finished = 2"
| "sjob_state_int SJ_error = 3"
| "sjob_state_int SJ_bootstrap = 12"
| "sjob_state_int SJ_dtn_matching = 4"
| "sjob_state_int SJ_wan_setup = 5"
| "sjob_state_int SJ_sdn_setup = 6"
| "sjob_state_int SJ_path_verification = 7"
| "sjob_state_int SJ_launching = 8"
| "sjob_state_int SJ_checksum_verification = 9"
| "sjob_state_int SJ_sdn_teardown = 10"
| "sjob_state_int SJ_wan_teardown = 11"

primrec block_state_int :: "block_state \<Rightarrow> int" where
  "block_state_int BL_waiting = 0"
| "block_state_int BL_transferring = 1"
| "block_state_int BL_finished = 2"

primrec flow_state_int :: "flow_state \<Rightarrow> int" where
  "flow_state_int FL_scheduling = 0"
| "flow_state_int FL_setting = 1"
| "flow_state_int FL_transferring = 2"
| "flow_state_int FL_waiting = 3"
| "flow_state_int FL_waiting_to_be_teared = 4"
| "flow_state_int FL_tearing = 5"
| "flow_state_int FL_done = 6"
| "flow_state_int FL_error = 7"

primrec sjob_stage_int :: "sjob_stage \<Rightarrow> int" where
  "sjob_stage_int SG_pending = 0"
| "sjob_stage_int SG_working = 1"
| "sjob_stage_int SG_success = 2"
| "sjob_stage_int SG_error = 3"

section \<open>Helpers\<close>

definition oid :: "string \<Rightarrow> json" where
  "oid i = jobj [(''$oid'', JStr i)]"

definition by_id :: "string \<Rightarrow> json" where
  "by_id i = jobj [(''_id'', oid i)]"

definition set_doc :: "string \<Rightarrow> json \<Rightarrow> json" where
  "set_doc f v = jobj [(''$set'', jobj [(f, v)])]"

definition inc_doc :: "string \<Rightarrow> int \<Rightarrow> json" where
  "inc_doc f v = jobj [(''$inc'', jobj [(f, JInt v)])]"

definition json_from_bson :: "json list \<Rightarrow> string \<Rightarrow> json" where
  "json_from_bson docs err = (case docs of [] \<Rightarrow> jobj [(''error'', JStr err)] | d # _ \<Rightarrow> d)"

text \<open>\<open>view()[k].get_utf8()\<close> of the driver: a missing element or one of another type throws.\<close>

definition bson_utf8 :: "json option \<Rightarrow> ('w, string) srv_act" where
  "bson_utf8 v = (case v of Some (JStr s) \<Rightarrow> ret_a s | _ \<Rightarrow> throw_a (Runtime_error ''expected element type k_utf8''))"

definition bson_member :: "json \<Rightarrow> string \<Rightarrow> json option" where
  "bson_member d k = (case d of JObj m \<Rightarrow> map_of m k | _ \<Rightarrow> None)"

definition unit_a :: "('w, 'a) srv_act \<Rightarrow> ('w, unit) srv_act" where
  "unit_a m = bind_a m (\<lambda>_. ret_a ())"

section \<open>Queries\<close>

definition find_one_by_id :: "string \<Rightarrow> string \<Rightarrow> ('w, json list) srv_act" where
  "find_one_by_id c i = db (DbFindOne c (by_id i))"

definition get_site_info :: "string \<Rightarrow> ('w, json) srv_act" where
  "get_site_info i = bind_a (find_one_by_id ''site'' i) (\<lambda>d. ret_a (json_from_bson d ''site not found''))"

text \<open>The address of the DTN a storage is mapped to, empty when there is none that is alive.\<close>

definition alive_after :: "int \<Rightarrow> json" where
  "alive_after t = jobj [(''$gt'', JInt (t - 10 * 60 * 1000))]"

definition get_storage_dtn_addr :: "string \<Rightarrow> ('w, string) srv_act" where
  "get_storage_dtn_addr storage =
     bind_a (db (DbFindOne ''sdmap'' (jobj [(''storage'', JStr storage)]))) (\<lambda>sd.
     case sd of
       [] \<Rightarrow> ret_a []
     | m # _ \<Rightarrow>
         bind_a now_ms (\<lambda>t.
         bind_a (case bson_member m ''dtn'' of None \<Rightarrow> throw_a (Runtime_error ''unset element'') | Some v \<Rightarrow> ret_a v) (\<lambda>dv.
         bind_a (db (DbFindOne ''dtn'' (jobj [(''id'', dv), (''expire_at'', alive_after t)]))) (\<lambda>dtn.
         case dtn of
           [] \<Rightarrow> ret_a []
         | d # _ \<Rightarrow> bson_utf8 (Option.bind (bson_member d ''ctrl_interface'') (\<lambda>c. bson_member c ''ip''))))))"

text \<open>\<open>jdoc["id"]\<close> on the local copy creates the member when it is missing.\<close>

definition storage_entry :: "json \<Rightarrow> json list \<Rightarrow> ('w, json list) srv_act" where
  "storage_entry d res =
     bind_a (lift_r (opt_r Json_error (ref_key ''id'' Some d))) (\<lambda>jdoc.
     bind_a (jstr_a jdoc [K ''id'']) (\<lambda>i.
     bind_a (get_storage_dtn_addr i) (\<lambda>dtn.
     if dtn \<noteq> [] then bind_a (jset_a [K ''dtn''] (JStr dtn) jdoc) (\<lambda>j. ret_a (res @ [j]))
     else ret_a res)))"

definition get_storage_list :: "('w, json) srv_act" where
  "get_storage_list =
     bind_a (db (DbFind ''storage'' (jobj []) JNull)) (\<lambda>docs.
     bind_a (fold_a storage_entry docs []) (\<lambda>res. ret_a (jarr res)))"

definition get_dtn_list :: "('w, json) srv_act" where
  "get_dtn_list =
     bind_a now_ms (\<lambda>t.
     bind_a (db (DbFind ''dtn'' (jobj [(''expire_at'', alive_after t)]) JNull)) (\<lambda>docs. ret_a (jarr docs)))"

definition get_cn_dtn_user_mapping :: "('w, json) srv_act" where
  "get_cn_dtn_user_mapping = bind_a (db (DbFind ''usercndtn'' (jobj []) JNull)) (\<lambda>docs. ret_a (jarr docs))"

definition get_user_from_cn :: "string \<Rightarrow> string \<Rightarrow> ('w, string) srv_act" where
  "get_user_from_cn cn dtnid =
     bind_a (db (DbFindOne ''usercndtn'' (jobj [(''cn'', JStr cn), (''dtnid'', JStr dtnid)]))) (\<lambda>ucn.
     case ucn of [] \<Rightarrow> ret_a [] | d # _ \<Rightarrow> bson_utf8 (bson_member d ''username''))"

definition get_storage_dtn_map :: "('w, json) srv_act" where
  "get_storage_dtn_map = bind_a (db (DbFind ''sdmap'' (jobj []) JNull)) (\<lambda>docs. ret_a (jarr docs))"

definition get_user_keys :: "string \<Rightarrow> string \<Rightarrow> ('w, json) srv_act" where
  "get_user_keys user site =
     bind_a (db (DbFindOne ''usercert'' (jobj [(''user'', oid user), (''site'', oid site)])))
       (\<lambda>d. ret_a (json_from_bson d ''certificate not found''))"

definition get_rawjob_from_id :: "string \<Rightarrow> ('w, json) srv_act" where
  "get_rawjob_from_id i = bind_a (find_one_by_id ''rawjob'' i) (\<lambda>d. ret_a (json_from_bson d ''raw job not found''))"

definition get_rawjobs_from_state :: "rawjob_state \<Rightarrow> ('w, json) srv_act" where
  "get_rawjobs_from_state s =
     bind_a (db (DbFind ''rawjob'' (jobj [(''state'', JInt (rawjob_state_int s))]) JNull)) (\<lambda>docs. ret_a (jarr docs))"

definition get_sites :: "('w, json) srv_act" where
  "get_sites = bind_a (db (DbFind ''site'' (jobj []) JNull)) (\<lambda>docs. ret_a (jarr docs))"

definition get_block_files :: "string \<Rightarrow> ('w, json) srv_act" where
  "get_block_files b = bind_a (find_one_by_id ''block'' b) (\<lambda>d. ret_a (json_from_bson d ''block not found''))"

definition get_best_effort_sjobs :: "('w, json) srv_act" where
  "get_best_effort_sjobs =
     bind_a (db (DbFind ''sjob'' (jobj [(''type'', JStr ''best_effort'')]) (jobj [(''submittedat'', JInt 1)])))
       (\<lambda>docs. ret_a (jarr docs))"

definition get_active_best_effort_sjobs :: "('w, json) srv_act" where
  "get_active_best_effort_sjobs =
     bind_a (db (DbFind ''sjob''
       (jobj [(''$and'', jarr
          [jobj [(''type'', JStr ''best_effort'')],
           jobj [(''$or'', jarr
             [jobj [(''state'', JInt (sjob_state_int SJ_bootstrap))],
              jobj [(''state'', JInt (sjob_state_int SJ_transferring))]])]])])
       (jobj [(''submittedat'', JInt 1)])))
       (\<lambda>docs. ret_a (jarr docs))"

definition get_sjob_from_task_id :: "string \<Rightarrow> ('w, json) srv_act" where
  "get_sjob_from_task_id task =
     bind_a (db (DbFindOne ''sjob'' (jobj [(''flows'', jobj [(''$elemMatch'', jobj [(''task'', JStr task)])])])))
       (\<lambda>d. ret_a (json_from_bson d ''sjob not found''))"

definition get_sjobs_from_rawjob_id :: "string \<Rightarrow> ('w, json) srv_act" where
  "get_sjobs_from_rawjob_id i =
     bind_a (db (DbFind ''sjob'' (jobj [(''rawjob'', oid i)]) JNull)) (\<lambda>docs. ret_a (jarr docs))"

section \<open>Updates\<close>

text \<open>\<open>del_many\<close> returns the number of deleted documents, reported here as a single integer document.\<close>

definition del_sjobs :: "string \<Rightarrow> ('w, json list) srv_act" where
  "del_sjobs rawjob_id = db (DbDelMany ''sjob'' (jobj [(''rawjob'', oid rawjob_id)]))"

definition insert_doc :: "string \<Rightarrow> json \<Rightarrow> ('w, string) srv_act" where
  "insert_doc c d = bind_a (db (DbInsertOne c d)) (\<lambda>r. case r of JStr i # _ \<Rightarrow> ret_a i | _ \<Rightarrow> ret_a [])"

definition delete_all :: "string \<Rightarrow> ('w, unit) srv_act" where
  "delete_all c = unit_a (db (DbDelMany c (jobj [])))"

definition insert_flow :: "string \<Rightarrow> json \<Rightarrow> ('w, unit) srv_act" where
  "insert_flow sjob_id flow = unit_a (db (DbUpdateOne ''sjob'' (by_id sjob_id) (jobj [(''$push'', jobj [(''flows'', flow)])])))"

definition update_stream_state :: "string \<Rightarrow> int \<Rightarrow> ('w, unit) srv_act" where
  "update_stream_state g ns = unit_a (db (DbUpdateOne ''stream'' (jobj [(''guid'', JStr g)]) (set_doc ''state'' (JInt ns))))"

definition update_rawjob_size :: "string \<Rightarrow> double \<Rightarrow> ('w, unit) srv_act" where
  "update_rawjob_size i sz = unit_a (db (DbUpdateOne ''rawjob'' (by_id i) (set_doc ''size'' (JReal sz))))"

definition update_rawjob_state :: "string \<Rightarrow> rawjob_state \<Rightarrow> ('w, unit) srv_act" where
  "update_rawjob_state i ns = unit_a (db (DbUpdateOne ''rawjob'' (by_id i) (set_doc ''state'' (JInt (rawjob_state_int ns)))))"

definition increment_rawjob_field :: "string \<Rightarrow> string \<Rightarrow> int \<Rightarrow> ('w, unit) srv_act" where
  "increment_rawjob_field i f v = unit_a (db (DbUpdateOne ''rawjob'' (by_id i) (inc_doc f v)))"

definition update_sjob_state :: "string \<Rightarrow> sjob_state \<Rightarrow> ('w, unit) srv_act" where
  "update_sjob_state i ns =
     bind_a (db (DbUpdateOne ''sjob'' (by_id i) (set_doc ''state'' (JInt (sjob_state_int ns))))) (\<lambda>_.
     bind_a now_ms (\<lambda>t.
     unit_a (insert_doc ''sjobevent''
       (jobj [(''sjob'', oid i), (''state'', JInt (sjob_state_int ns)), (''ts'', JUInt t)]))))"

definition update_sjob_stage :: "string \<Rightarrow> string \<Rightarrow> sjob_stage \<Rightarrow> ('w, unit) srv_act" where
  "update_sjob_stage i stage v = unit_a (db (DbUpdateOne ''sjob'' (by_id i) (set_doc (''stage.'' @ stage) (JInt (sjob_stage_int v)))))"

definition increment_sjob_field :: "string \<Rightarrow> string \<Rightarrow> int \<Rightarrow> ('w, unit) srv_act" where
  "increment_sjob_field i f v = unit_a (db (DbUpdateOne ''sjob'' (by_id i) (inc_doc f v)))"

definition update_sjob_flow_state :: "string \<Rightarrow> flow_state \<Rightarrow> ('w, unit) srv_act" where
  "update_sjob_flow_state flow_id ns = unit_a (db (DbUpdateOne ''sjob'' (jobj [(''flows.task'', JStr flow_id)])
     (set_doc ''flows.$.state'' (JInt (flow_state_int ns)))))"

definition increment_sjob_flow_field :: "string \<Rightarrow> string \<Rightarrow> int \<Rightarrow> ('w, unit) srv_act" where
  "increment_sjob_flow_field flow_id f v = unit_a (db (DbUpdateOne ''sjob'' (jobj [(''flows.task'', JStr flow_id)])
     (inc_doc (''flows.$.'' @ f) v)))"

definition update_sjob_block_state :: "string \<Rightarrow> block_state \<Rightarrow> ('w, unit) srv_act" where
  "update_sjob_block_state b ns = unit_a (db (DbUpdateOne ''sjob'' (jobj [(''blocks.id'', JStr b)])
     (set_doc ''blocks.$.state'' (JInt (block_state_int ns)))))"

definition increment_sjob_block_field :: "string \<Rightarrow> string \<Rightarrow> int \<Rightarrow> ('w, unit) srv_act" where
  "increment_sjob_block_field b f v = unit_a (db (DbUpdateOne ''sjob'' (jobj [(''blocks.id'', JStr b)])
     (inc_doc (''blocks.$.'' @ f) v)))"

definition increment_site_field :: "string \<Rightarrow> string \<Rightarrow> int \<Rightarrow> ('w, json) srv_act" where
  "increment_site_field i f v = bind_a (db (DbFindOneAndUpdate ''site'' (by_id i) (inc_doc f v)))
     (\<lambda>d. ret_a (json_from_bson d ''failed to parse at increment site field''))"

definition update_collection_field :: "string \<Rightarrow> string \<Rightarrow> string \<Rightarrow> json \<Rightarrow> ('w, unit) srv_act" where
  "update_collection_field c i f v = unit_a (db (DbFindOneAndUpdate c (by_id i) (set_doc f v)))"

definition update_sjob_block_field :: "string \<Rightarrow> string \<Rightarrow> json \<Rightarrow> ('w, unit) srv_act" where
  "update_sjob_block_field b f v = unit_a (db (DbFindOneAndUpdate ''sjob'' (jobj [(''blocks.id'', JStr b)])
     (set_doc (''blocks.$.'' @ f) v)))"

definition update_sjob_flow_field :: "string \<Rightarrow> string \<Rightarrow> json \<Rightarrow> ('w, unit) srv_act" where
  "update_sjob_flow_field flow_id f v = unit_a (db (DbFindOneAndUpdate ''sjob'' (jobj [(''flows.task'', JStr flow_id)])
     (set_doc (''flows.$.'' @ f) v)))"

lemmas store_updates = del_sjobs_def insert_doc_def delete_all_def insert_flow_def update_stream_state_def
  update_rawjob_size_def update_rawjob_state_def increment_rawjob_field_def update_sjob_state_def update_sjob_stage_def
  increment_sjob_field_def update_sjob_flow_state_def increment_sjob_flow_field_def update_sjob_block_state_def
  increment_sjob_block_field_def increment_site_field_def update_collection_field_def update_sjob_block_field_def
  update_sjob_flow_field_def unit_a_def

lemmas store_queries = find_one_by_id_def get_site_info_def get_storage_dtn_addr_def storage_entry_def get_storage_list_def
  get_dtn_list_def get_cn_dtn_user_mapping_def get_user_from_cn_def get_storage_dtn_map_def get_user_keys_def
  get_rawjob_from_id_def get_rawjobs_from_state_def get_sites_def get_block_files_def get_best_effort_sjobs_def
  get_active_best_effort_sjobs_def get_sjob_from_task_id_def get_sjobs_from_rawjob_id_def

end
