(* ===== verification/Wan.thy ===== *)
theory Wan
  imports Site_Store
begin

text \<open>
  The client of the WAN controller (SENSE), \<open>src/server/wan.h\<close> and \<open>src/server/wan.cc\<close>: create a path,
  reserve it, commit it, and take it down again with release, terminate and delete. Each call first
  fetches a new access token. The controller itself is part of the environment.
\<close>

record wan_create_res =
  cr_uuid :: string
  cr_src_vlan :: int
  cr_dst_vlan :: int
  cr_max_bw :: double

definition WAN :: "json \<Rightarrow> (exn, wan_conf) result" where
  "WAN wan =
     bind_r (str_at wan [''sense'', ''auth'']) (\<lambda>au.
     bind_r (str_at wan [''sense'', ''host'']) (\<lambda>bu.
     bind_r (str_at wan [''sense'', ''username'']) (\<lambda>un.
     bind_r (str_at wan [''sense'', ''password'']) (\<lambda>pw.
     bind_r (str_at wan [''sense'', ''client_id'']) (\<lambda>ci.
     bind_r (str_at wan [''sense'', ''client_secret'']) (\<lambda>cs.
     Inr \<lparr>auth_url = au, base_url = bu, wan_username = un, wan_password = pw, client_id = ci, client_secret = cs,
       wan_configured = (au \<noteq> [] \<and> bu \<noteq> [])\<rparr>))))))"

definition token_params :: "wan_conf \<Rightarrow> string" where
  "token_params c = ''grant_type=password'' @ ''&client_id='' @ client_id c @ ''&username='' @ wan_username c
     @ ''&password='' @ wan_password c @ ''&client_secret='' @ client_secret c"

definition get_token :: "('w, unit) srv_act" where
  "get_token =
     bind_a (get_a s_wan) (\<lambda>c.
     bind_a (http (HPostForm (auth_url c) (token_params c))) (\<lambda>(_, res).
     bind_a (jstr_a res [K ''access_token'']) (\<lambda>acc.
     bind_a (upd_a (\<lambda>s. s\<lparr>s_token := (s_token s)\<lparr>tok_acc := acc\<rparr>\<rparr>)) (\<lambda>_.
     bind_a (jstr_a res [K ''refresh_token'']) (\<lambda>ref.
     upd_a (\<lambda>s. s\<lparr>s_token := (s_token s)\<lparr>tok_ref := ref\<rparr>\<rparr>))))))"

section \<open>Creating a path\<close>

definition terminals :: "string \<Rightarrow> string \<Rightarrow> string \<Rightarrow> string \<Rightarrow> json" where
  "terminals src_stp src_vlan_s dst_stp dst_vlan_s = jarr
     [jobj [(''uri'', JStr src_stp), (''label'', JStr src_vlan_s)],
      jobj [(''uri'', JStr dst_stp), (''label'', JStr dst_vlan_s)]]"

definition create_sparql :: string where
  "create_sparql = ''SELECT DISTINCT ?port ?vlan WHERE {?port nml:hasBidirectionalPort ?vlanPort. ?vlanPort nml:hasLabel ?vlanLabel. ?vlanLabel nml:value ?vlan. FILTER NOT EXISTS {?port a mrs:SwitchingSubnet.}}''"

definition create_intent :: "string \<Rightarrow> string \<Rightarrow> string \<Rightarrow> string \<Rightarrow> json" where
  "create_intent src_stp dst_stp src_vlan_s dst_vlan_s = jobj
     [(''service_type'', JStr ''Multi-Path P2P VLAN''),
      (''service_alias'', JStr ''SENSE.Demo.X2''),
      (''connections'', jarr [jobj
         [(''name'', JStr ''connection 1''),
          (''terminals'', terminals src_stp src_vlan_s dst_stp dst_vlan_s),
          (''bandwidth'', jobj [(''qos_class'', JStr ''guaranteedCapped'')])]]),
      (''queries'', jarr
         [jobj [(''ask'', JStr ''maximum-bandwidth''), (''options'', jarr [jobj [(''name'', JStr ''connection 1'')]])],
          jobj [(''ask'', JStr ''extract-result-values''), (''options'', jarr [jobj [(''sparql'', JStr create_sparql)]])]])]"

text \<open>\<open>try { x = std::stoi(r["vlan"].asString()); } catch (...) { x = 0; }\<close>\<close>

definition vlan_of :: "json \<Rightarrow> int" where
  "vlan_of r = (case bind_r (opt_r Json_error (Option.bind (at_key r ''vlan'') asString)) stoi of Inl _ \<Rightarrow> 0 | Inr n \<Rightarrow> n)"

definition max_bw_of :: "json \<Rightarrow> double" where
  "max_bw_of q = (case bind_r (opt_r Json_error (Option.bind (jget q [K ''results'', I 0, K ''bandwidth'']) asString)) stod
     of Inl _ \<Rightarrow> 0 | Inr x \<Rightarrow> x)"

definition scan_port :: "string \<Rightarrow> string \<Rightarrow> json \<Rightarrow> wan_create_res \<Rightarrow> (exn, wan_create_res) result" where
  "scan_port src_stp dst_stp r res =
     bind_r (str_at r [''port'']) (\<lambda>port.
     if port = src_stp then Inr (res\<lparr>cr_src_vlan := vlan_of r\<rparr>)
     else if port = dst_stp then Inr (res\<lparr>cr_dst_vlan := vlan_of r\<rparr>)
     else Inr res)"

definition scan_query :: "string \<Rightarrow> string \<Rightarrow> json \<Rightarrow> wan_create_res \<Rightarrow> (exn, wan_create_res) result" where
  "scan_query src_stp dst_stp q res =
     bind_r (str_at q [''asked'']) (\<lambda>asked.
     if asked = ''maximum-bandwidth'' then Inr (res\<lparr>cr_max_bw := max_bw_of q\<rparr>)
     else if asked = ''extract-result-values'' then
       bind_r (opt_r Json_error (at_key q ''results'')) (\<lambda>rs. fold_r (scan_port src_stp dst_stp) (elems rs) res)
     else Inr res)"

definition parse_create :: "string \<Rightarrow> string \<Rightarrow> json \<Rightarrow> (exn, wan_create_res) result" where
  "parse_create src_stp dst_stp r =
     bind_r (str_at r [''service_uuid'']) (\<lambda>uuid.
     bind_r (opt_r Json_error (at_key r ''queries'')) (\<lambda>qs.
     fold_r (scan_query src_stp dst_stp) (elems qs) \<lparr>cr_uuid = uuid, cr_src_vlan = 0, cr_dst_vlan = 0, cr_max_bw = 0\<rparr>))"

definition wan_create :: "string \<Rightarrow> string \<Rightarrow> string \<Rightarrow> string \<Rightarrow> ('w, wan_create_res) srv_act" where
  "wan_create src_stp dst_stp src_vlan_s dst_vlan_s =
     bind_a get_token (\<lambda>_.
     bind_a (get_a (\<lambda>s. (base_url (s_wan s), s_token s))) (\<lambda>(bu, tk).
     bind_a (http (HPostAuth bu (tok_acc tk) (tok_ref tk) (create_intent src_stp dst_stp src_vlan_s dst_vlan_s))) (\<lambda>(_, r1).
     lift_r (parse_create src_stp dst_stp r1))))"

section \<open>Reserving and committing\<close>

definition vlan_label :: "int \<Rightarrow> string" where
  "vlan_label v = (if v = 0 then ''any'' else to_string v)"

text \<open>The requested bandwidth is an argument of \<open>reserve\<close> that its body does not use.\<close>

definition reserve_intent :: "string \<Rightarrow> string \<Rightarrow> int \<Rightarrow> int \<Rightarrow> json" where
  "reserve_intent src_stp dst_stp src_vlan dst_vlan = jobj
     [(''service_type'', JStr ''Multi-Path P2P VLAN''),
      (''service_alias'', JStr ''SENSE.Demo.X2''),
      (''connections'', jarr [jobj
         [(''name'', JStr ''connection 1''),
          (''terminals'', terminals src_stp (vlan_label src_vlan) dst_stp (vlan_label dst_vlan)),
          (''bandwidth'', jobj [(''qos_class'', JStr ''guaranteedCapped''), (''capacity'', JStr ''10000'')])]])]"

definition wan_reserve :: "string \<Rightarrow> string \<Rightarrow> string \<Rightarrow> int \<Rightarrow> int \<Rightarrow> double \<Rightarrow> ('w, bool) srv_act" where
  "wan_reserve uuid src_stp dst_stp src_vlan dst_vlan bandwidth =
     bind_a get_token (\<lambda>_.
     bind_a (get_a (\<lambda>s. (base_url (s_wan s), s_token s))) (\<lambda>(bu, tk).
     bind_a (http (HPostAuth (bu @ ''/'' @ uuid @ ''/reserve'') (tok_acc tk) (tok_ref tk)
       (reserve_intent src_stp dst_stp src_vlan dst_vlan))) (\<lambda>(code, _).
     ret_a (code = 201))))"

definition wan_put :: "string \<Rightarrow> ('w, int) srv_act" where
  "wan_put path =
     bind_a get_token (\<lambda>_.
     bind_a (get_a (\<lambda>s. (base_url (s_wan s), s_token s))) (\<lambda>(bu, tk).
     bind_a (http (HPut (bu @ path) (tok_acc tk) (tok_ref tk))) (\<lambda>(code, _). ret_a code)))"

definition wan_commit :: "string \<Rightarrow> ('w, bool) srv_act" where
  "wan_commit uuid = bind_a (wan_put (''/'' @ uuid @ ''/commit'')) (\<lambda>code. ret_a (code = 200))"

section \<open>Taking a path down\<close>

text \<open>
  The retry loop \<open>int retry = 0; while (++retry < max_retry) { ...; if (code == 200) return true; sleep(10); }\<close>
  shared by \<open>release\<close>, \<open>terminate\<close> and \<open>del\<close>; \<open>n\<close> is the number of rounds left, \<open>max_retry - 1\<close> at the start.
\<close>

fun retry_loop :: "('w, int) srv_act \<Rightarrow> nat \<Rightarrow> ('w, bool) srv_act" where
  "retry_loop attempt 0 = ret_a False"
| "retry_loop attempt (Suc n) =
     bind_a attempt (\<lambda>code.
     if code = 200 then ret_a True
     else bind_a (sleep_s 10) (\<lambda>_. retry_loop attempt n))"

definition wan_release :: "string \<Rightarrow> int \<Rightarrow> ('w, bool) srv_act" where
  "wan_release uuid max_retry = retry_loop (wan_put (''/'' @ uuid @ ''/release'')) (nat (max_retry - 1))"

definition wan_terminate :: "string \<Rightarrow> int \<Rightarrow> ('w, bool) srv_act" where
  "wan_terminate uuid max_retry = retry_loop (wan_put (''/'' @ uuid @ ''/terminate'')) (nat (max_retry - 1))"

definition wan_delete_once :: "string \<Rightarrow> ('w, int) srv_act" where
  "wan_delete_once uuid =
     bind_a get_token (\<lambda>_.
     bind_a (get_a (\<lambda>s. (base_url (s_wan s), s_token s))) (\<lambda>(bu, tk).
     bind_a (http (HDel (bu @ ''/'' @ uuid) (tok_acc tk) (tok_ref tk))) (\<lambda>(code, _). ret_a code)))"

definition wan_del :: "string \<Rightarrow> int \<Rightarrow> ('w, bool) srv_act" where
  "wan_del uuid max_retry = retry_loop (wan_delete_once uuid) (nat (max_retry - 1))"

lemmas wan_ops = get_token_def wan_create_def wan_reserve_def wan_put_def wan_commit_def wan_release_def
  wan_terminate_def wan_delete_once_def wan_del_def

section \<open>What the client sends\<close>

text \<open>Every exchange of the client is with the token service or below the base URL of the controller.\<close>

fun wan_event :: "wan_conf \<Rightarrow> event \<Rightarrow> bool" where
  "wan_event c (Http (HPostForm u _) _) = (u = auth_url c)"
| "wan_event c (Http (HPostAuth u _ _ _) _) = prefix (base_url c) u"
| "wan_event c (Http (HPut u _ _) _) = prefix (base_url c) u"
| "wan_event c (Http (HDel u _ _) _) = prefix (base_url c) u"
| "wan_event c (Http (HPost _ _) _) = False"
| "wan_event c (Sleep _) = True"
| "wan_event c _ = False"

text \<open>The requests of one kind in a log, recognised by the end of their URL.\<close>

fun is_put :: "string \<Rightarrow> event \<Rightarrow> bool" where
  "is_put p (Http (HPut u _ _) _) = suffix p u"
| "is_put p _ = False"

fun is_delete :: "string \<Rightarrow> event \<Rightarrow> bool" where
  "is_delete p (Http (HDel u _ _) _) = suffix p u"
| "is_delete p _ = False"

definition answered :: "int \<Rightarrow> event \<Rightarrow> bool" where
  "answered code e \<longleftrightarrow> (\<exists>q b. e = Http q (Inr (code, b)))"

text \<open>
  What the retry loop relies on: an attempt sends at most one request of its kind, and when it returns a
  code, that is the code this one request was answered with.
\<close>

locale one_attempt =
  fixes attempt :: "('w, int) srv_act" and counts :: "event \<Rightarrow> bool"
  assumes attempt_log: "attempt s = (r, t) \<Longrightarrow> \<exists>l. s_log t = s_log s @ l \<and> length (filter counts l) \<le> 1 \<and>
      (\<forall>c. r = Inr c \<longrightarrow> (\<exists>q b. filter counts l = [Http q (Inr (c, b))]))"
    and sleep_not_counted: "\<not> counts (Sleep n)"
begin

lemma retry_log:
  assumes "retry_loop attempt n s = (r, t)"
  shows "\<exists>l. s_log t = s_log s @ l \<and> length (filter counts l) \<le> n \<and>
    (r = Inr True \<longrightarrow> filter counts l \<noteq> [] \<and> answered 200 (last (filter counts l))) \<and>
    (r = Inr False \<longrightarrow> length (filter counts l) = n \<and> (\<forall>e \<in> set l. counts e \<longrightarrow> \<not> answered 200 e))"
  using assms
proof (induction n arbitrary: s)
  case 0
  then show ?case by auto
next
  case (Suc n)
  obtain q u where a: "attempt s = (q, u)" by (cases "attempt s")
  obtain l where l: "s_log u = s_log s @ l" "length (filter counts l) \<le> 1"
    "\<And>c. q = Inr c \<Longrightarrow> \<exists>h b. filter counts l = [Http h (Inr (c, b))]"
    using attempt_log [OF a] by blast
  show ?case
  proof (cases q)
    case (Inl e)
    with a Suc.prems l show ?thesis by (intro exI [of _ l]) auto
  next
    case (Inr c)
    then obtain h b where one: "filter counts l = [Http h (Inr (c, b))]" using l(3) by blast
    show ?thesis
    proof (cases "c = 200")
      case True
      with a Inr Suc.prems l one show ?thesis by (intro exI [of _ l]) (auto simp: answered_def)
    next
      case False
      let ?u = "u\<lparr>s_log := s_log u @ [Sleep 10]\<rparr>"
      have "retry_loop attempt n ?u = (r, t)"
        using Suc.prems a Inr False by (simp add: sleep_s_def)
      from Suc.IH [OF this] obtain l2 where l2: "s_log t = s_log ?u @ l2" "length (filter counts l2) \<le> n"
        "r = Inr True \<longrightarrow> filter counts l2 \<noteq> [] \<and> answered 200 (last (filter counts l2))"
        "r = Inr False \<longrightarrow> length (filter counts l2) = n \<and> (\<forall>e \<in> set l2. counts e \<longrightarrow> \<not> answered 200 e)"
        by blast
      have "\<not> answered 200 e" if "e \<in> set l" "counts e" for e
      proof -
        have "e \<in> set (filter counts l)" using that by simp
        with one False show ?thesis by (auto simp: answered_def)
      qed
      with l l2 one sleep_not_counted show ?thesis
        by (intro exI [of _ "l @ Sleep 10 # l2"]) auto
    qed
  qed
qed

end

lemma suffix_end [simp]: "suffix p (b @ p)"
  by (simp add: suffix_def)

lemma get_token_log: "get_token s = (r, t) \<Longrightarrow> \<exists>q x z. s_log t = s_log s @ [Http (HPostForm q x) z]"
  by (auto simp: get_token_def bind_a_def http_def json_acts split: prod.splits sum.splits if_splits)

lemma wan_put_log:
  assumes "wan_put p s = (r, t)"
  shows "\<exists>l. s_log t = s_log s @ l \<and> length (filter (is_put p) l) \<le> 1 \<and>
    (\<forall>c. r = Inr c \<longrightarrow> (\<exists>q b. filter (is_put p) l = [Http q (Inr (c, b))]))"
proof -
  obtain q u where a: "get_token s = (q, u)" by (cases "get_token s")
  obtain x y z where l: "s_log u = s_log s @ [Http (HPostForm x y) z]" using get_token_log [OF a] by blast
  show ?thesis
  proof (cases q)
    case (Inl e)
    with a assms l show ?thesis by (intro exI [of _ "[Http (HPostForm x y) z]"]) (auto simp: wan_put_def)
  next
    case (Inr v)
    let ?h = "HPut (base_url (s_wan u) @ p) (tok_acc (s_token u)) (tok_ref (s_token u))"
    obtain k w where e: "e_http (s_env u) ?h (s_world u) = (k, w)" by (cases "e_http (s_env u) ?h (s_world u)")
    have "s_log t = s_log s @ [Http (HPostForm x y) z, Http ?h k]" "\<forall>c. r = Inr c \<longrightarrow> (\<exists>b. k = Inr (c, b))"
      using assms a Inr l e by (auto simp: wan_put_def bind_a_def http_def split: sum.splits prod.splits)
    then show ?thesis by (intro exI [of _ "[Http (HPostForm x y) z, Http ?h k]"]) auto
  qed
qed

lemma wan_delete_log:
  assumes "wan_delete_once uuid s = (r, t)"
  shows "\<exists>l. s_log t = s_log s @ l \<and> length (filter (is_delete (''/'' @ uuid)) l) \<le> 1 \<and>
    (\<forall>c. r = Inr c \<longrightarrow> (\<exists>q b. filter (is_delete (''/'' @ uuid)) l = [Http q (Inr (c, b))]))"
proof -
  obtain q u where a: "get_token s = (q, u)" by (cases "get_token s")
  obtain x y z where l: "s_log u = s_log s @ [Http (HPostForm x y) z]" using get_token_log [OF a] by blast
  show ?thesis
  proof (cases q)
    case (Inl e)
    with a assms l show ?thesis by (intro exI [of _ "[Http (HPostForm x y) z]"]) (auto simp: wan_delete_once_def)
  next
    case (Inr v)
    let ?h = "HDel (base_url (s_wan u) @ ''/'' @ uuid) (tok_acc (s_token u)) (tok_ref (s_token u))"
    obtain k w where e: "e_http (s_env u) ?h (s_world u) = (k, w)" by (cases "e_http (s_env u) ?h (s_world u)")
    have "s_log t = s_log s @ [Http (HPostForm x y) z, Http ?h k]" "\<forall>c. r = Inr c \<longrightarrow> (\<exists>b. k = Inr (c, b))"
      using assms a Inr l e by (auto simp: wan_delete_once_def bind_a_def http_def split: sum.splits prod.splits)
    moreover have "is_delete (''/'' @ uuid) (Http ?h k)" by (simp del: append_Cons)
    ultimately show ?thesis by (intro exI [of _ "[Http (HPostForm x y) z, Http ?h k]"]) (auto simp del: is_delete.simps(1))
  qed
qed

interpretation put_retry: one_attempt "wan_put p" "is_put p" for p
  by unfold_locales (use wan_put_log in auto)

interpretation delete_retry: one_attempt "wan_delete_once uuid" "is_delete (''/'' @ uuid)" for uuid
  by unfold_locales (use wan_delete_log in auto)

section \<open>Properties\<close>

text \<open>
  Taking a WAN path down tries a bounded number of times. With \<open>max_retry = 5\<close>, the value every caller
  uses, \<open>release\<close> sends at most four requests; it reports success only if the last of them was answered
  with 200, and failure only after exactly four requests none of which was.
\<close>

lemma wan_release_attempts:
  assumes "wan_release uuid 5 s = (r, t)"
  shows "\<exists>l. s_log t = s_log s @ l \<and> length (filter (is_put (''/'' @ uuid @ ''/release'')) l) \<le> 4 \<and>
    (r = Inr True \<longrightarrow> filter (is_put (''/'' @ uuid @ ''/release'')) l \<noteq> [] \<and>
       answered 200 (last (filter (is_put (''/'' @ uuid @ ''/release'')) l))) \<and>
    (r = Inr False \<longrightarrow> length (filter (is_put (''/'' @ uuid @ ''/release'')) l) = 4 \<and>
       (\<forall>e \<in> set l. is_put (''/'' @ uuid @ ''/release'') e \<longrightarrow> \<not> answered 200 e))"
  using put_retry.retry_log [of "''/'' @ uuid @ ''/release''" 4 s r t] assms by (simp add: wan_release_def)

text \<open>An environment in which the controller refuses everything, and the server in it.\<close>

definition refusing_env :: "unit env" where
  "refusing_env = \<lparr>e_http = \<lambda>q w. (Inr (503, JNull), w), e_db = \<lambda>q w. (Inr [], w), e_rpc = \<lambda>k m t w. (Inr JNull, w),
     e_now = \<lambda>w. (0, w), e_rand = \<lambda>w. (4, w)\<rparr>"

definition plain_conf :: sched_conf where
  "plain_conf = \<lparr>ld_auth_password = True, ld_auth_usr = ''usr'', ld_auth_pwd = ''pwd'', ld_file = False, ld_checksum = False,
     ld_checksum_alg = ''sha1'', ld_group_size = 21474836480, cmd_path = [], net_conf = JNull, inactive_timeout_ms = 300000\<rparr>"

definition server_in :: "'w env \<Rightarrow> 'w \<Rightarrow> 'w srv" where
  "server_in e w = \<lparr>s_env = e, s_world = w, s_log = [], s_rm = ResourceManager JobManager int,
     s_wan = \<lparr>auth_url = ''https://a'', base_url = ''https://b'', wan_username = [], wan_password = [], client_id = [],
       client_secret = [], wan_configured = True\<rparr>,
     s_token = \<lparr>tok_acc = [], tok_ref = []\<rparr>, s_conf = plain_conf, site_txrx = []\<rparr>"

lemmas server_exec = server_in_def refusing_env_def plain_conf_def http_def db_def rpc_call_def now_ms_def rand_a_def sleep_s_def json_acts

lemma wan_release_attempts_witness:
  "\<exists>t. wan_release ''u1'' 5 (server_in refusing_env ()) = (Inr False, t) \<and>
     length (filter (is_put ''/u1/release'') (s_log t)) = 4"
proof -
  have "fst (wan_release ''u1'' 5 (server_in refusing_env ())) = Inr False"
    by (simp add: wan_ops server_exec bind_a_run numeral_eq_Suc cong: bind_a_lazy)
  then obtain t where t: "wan_release ''u1'' 5 (server_in refusing_env ()) = (Inr False, t)"
    by (cases "wan_release ''u1'' 5 (server_in refusing_env ())") simp
  moreover have "s_log (server_in refusing_env ()) = []" by (simp add: server_in_def)
  ultimately show ?thesis using wan_release_attempts [OF t] by auto
qed

end
