(* ===== verification/Log_Logic.thy ===== *)
theory Log_Logic
  imports Site_Store
begin

text \<open>
  Reasoning about what the server asks of the outside. Three judgements on an action, each closed under
  sequencing, besides \<open>emits\<close> (every new event satisfies a predicate):
  \<^item> \<open>at_most Q n m\<close>: \<open>m\<close> adds at most \<open>n\<close> events of kind \<open>Q\<close> to the log, whatever its outcome;
  \<^item> \<open>sees Q m \<Phi>\<close>: when \<open>m\<close> returns \<open>a\<close>, the events of kind \<open>Q\<close> it has added satisfy \<open>\<Phi> a\<close>;
  \<^item> \<open>guarded R Q past m\<close>: every event of kind \<open>Q\<close> that \<open>m\<close> adds comes after an event \<open>R\<close> relates to it, one that
    \<open>m\<close> added itself or one of \<open>past\<close>.
  Where the condition is on the whole log before the event, \<open>preceded\<close> and \<open>guarded_by\<close> stand for the last.
\<close>

definition at_most :: "(event \<Rightarrow> bool) \<Rightarrow> nat \<Rightarrow> ('w, 'a) srv_act \<Rightarrow> bool" where
  "at_most Q n m \<longleftrightarrow> (\<forall>s. \<exists>l. s_log (snd (m s)) = s_log s @ l \<and> length (filter Q l) \<le> n)"

definition sees :: "(event \<Rightarrow> bool) \<Rightarrow> ('w, 'a) srv_act \<Rightarrow> ('a \<Rightarrow> event list \<Rightarrow> bool) \<Rightarrow> bool" where
  "sees Q m \<Phi> \<longleftrightarrow> (\<forall>s a t. m s = (Inr a, t) \<longrightarrow> (\<exists>l. s_log t = s_log s @ l \<and> \<Phi> a (filter Q l)))"

fun after_ok :: "(event \<Rightarrow> event \<Rightarrow> bool) \<Rightarrow> (event \<Rightarrow> bool) \<Rightarrow> event list \<Rightarrow> event list \<Rightarrow> bool" where
  "after_ok R Q past [] = True"
| "after_ok R Q past (e # l) \<longleftrightarrow> (Q e \<longrightarrow> list_ex (\<lambda>d. R d e) past) \<and> after_ok R Q (past @ [e]) l"

definition guarded :: "(event \<Rightarrow> event \<Rightarrow> bool) \<Rightarrow> (event \<Rightarrow> bool) \<Rightarrow> event list \<Rightarrow> ('w, 'a) srv_act \<Rightarrow> bool" where
  "guarded R Q past m \<longleftrightarrow> (\<forall>s. \<exists>l. s_log (snd (m s)) = s_log s @ l \<and> after_ok R Q past l)"

abbreviation grows :: "('w, 'a) srv_act \<Rightarrow> bool" where
  "grows m \<equiv> emits (\<lambda>_. True) m"

lemma returnsE:
  assumes "\<not> isl (fst (m s))"
  obtains a t where "m s = (Inr a, t)"
  using assms by (metis isl_def prod.collapse sum.exhaust_sel)

section \<open>At most\<close>

lemma at_most_quiet: "emits (\<lambda>e. \<not> Q e) m \<Longrightarrow> at_most Q n m"
  unfolding emits_def at_most_def by (metis filter_False le0 list.pred_set list.size(3))

lemma at_most_bind:
  assumes "at_most Q a m" and "\<And>x. at_most Q b (f x)"
  shows "at_most Q (a + b) (bind_a m f)"
proof (unfold at_most_def, intro allI)
  fix s
  obtain r t where m: "m s = (r, t)" by (cases "m s")
  obtain l where l: "s_log t = s_log s @ l" "length (filter Q l) \<le> a"
    using assms(1) m unfolding at_most_def by (metis snd_conv)
  show "\<exists>l. s_log (snd (bind_a m f s)) = s_log s @ l \<and> length (filter Q l) \<le> a + b"
  proof (cases r)
    case (Inl e)
    with m l show ?thesis by auto
  next
    case (Inr x)
    obtain l2 where "s_log (snd (f x t)) = s_log t @ l2" "length (filter Q l2) \<le> b"
      using assms(2) unfolding at_most_def by blast
    with m Inr l show ?thesis by (intro exI [of _ "l @ l2"]) auto
  qed
qed

lemma at_most_bind0: "emits (\<lambda>e. \<not> Q e) m \<Longrightarrow> (\<And>x. at_most Q n (f x)) \<Longrightarrow> at_most Q n (bind_a m f)"
  using at_most_bind [of Q 0 m n f] at_most_quiet by (metis add_0)

lemma at_most_bindn: "at_most Q n m \<Longrightarrow> (\<And>x. emits (\<lambda>e. \<not> Q e) (f x)) \<Longrightarrow> at_most Q n (bind_a m f)"
  using at_most_bind [of Q n m 0 f] at_most_quiet by (metis add.right_neutral)

lemma at_most_if: "(b \<Longrightarrow> at_most Q n m) \<Longrightarrow> (\<not> b \<Longrightarrow> at_most Q n k) \<Longrightarrow> at_most Q n (if b then m else k)"
  by simp

lemma at_most_option: "at_most Q n m \<Longrightarrow> (\<And>x. at_most Q n (f x)) \<Longrightarrow> at_most Q n (case v of None \<Rightarrow> m | Some x \<Rightarrow> f x)"
  by (cases v) simp_all

lemma at_most_prod: "(\<And>x y. at_most Q n (f x y)) \<Longrightarrow> at_most Q n (case v of (x, y) \<Rightarrow> f x y)"
  by (cases v) simp_all

lemma at_most_one: "at_most Q 1 (http q)" "at_most Q 1 (db c)" "at_most Q 1 (rpc_call k m t)"
  by (simp_all add: at_most_def http_def db_def rpc_call_def split: prod.splits)

lemma at_most_foreach: "(\<And>x. x \<in> set xs \<Longrightarrow> at_most Q (c x) (f x)) \<Longrightarrow> at_most Q (sum_list (map c xs)) (foreach_a f xs)"
proof (induction xs)
  case Nil
  show ?case by (simp only: foreach_a.simps list.map sum_list.Nil) (intro at_most_quiet emits_quiet)
next
  case (Cons x xs)
  then have "at_most Q (c x + sum_list (map c xs)) (bind_a (f x) (\<lambda>_. foreach_a f xs))"
    by (intro at_most_bind) simp_all
  then show ?case by simp
qed

section \<open>Sees\<close>

lemma seesD: "sees Q m \<Phi> \<Longrightarrow> m s = (Inr a, t) \<Longrightarrow> \<exists>l. s_log t = s_log s @ l \<and> \<Phi> a (filter Q l)"
  unfolding sees_def by blast

lemma sees_mono: "sees Q m \<Phi> \<Longrightarrow> (\<And>a k. \<Phi> a k \<Longrightarrow> \<Psi> a k) \<Longrightarrow> sees Q m \<Psi>"
  unfolding sees_def by metis

lemma sees_bind_val:
  assumes "sees Q m \<Phi>"
    and "\<And>s a t k. m s = (Inr a, t) \<Longrightarrow> \<Phi> a k \<Longrightarrow> sees Q (f a) (\<lambda>b k'. \<Psi> b (k @ k'))"
  shows "sees Q (bind_a m f) \<Psi>"
  unfolding sees_def
proof (intro allI impI)
  fix s b t assume "bind_a m f s = (Inr b, t)"
  then obtain a u where m: "m s = (Inr a, u)" and f: "f a u = (Inr b, t)" by (rule bind_a_InrE)
  obtain l where l: "s_log u = s_log s @ l" "\<Phi> a (filter Q l)" using seesD [OF assms(1) m] by blast
  obtain l2 where "s_log t = s_log u @ l2" "\<Psi> b (filter Q l @ filter Q l2)"
    using seesD [OF assms(2) [OF m l(2)] f] by blast
  with l show "\<exists>l. s_log t = s_log s @ l \<and> \<Psi> b (filter Q l)" by (intro exI [of _ "l @ l2"]) simp
qed

lemma sees_bind:
  assumes "sees Q m \<Phi>" and "\<And>a k. \<Phi> a k \<Longrightarrow> sees Q (f a) (\<lambda>b k'. \<Psi> b (k @ k'))"
  shows "sees Q (bind_a m f) \<Psi>"
  using sees_bind_val [OF assms(1)] assms(2) by blast

lemma sees_quiet: "emits (\<lambda>e. \<not> Q e) m \<Longrightarrow> sees Q m (\<lambda>_ k. k = [])"
  unfolding emits_def sees_def by (metis filter_False list.pred_set snd_conv)

lemma sees_skip_val:
  assumes "emits (\<lambda>e. \<not> Q e) m" and "\<And>s a t. m s = (Inr a, t) \<Longrightarrow> sees Q (f a) \<Psi>"
  shows "sees Q (bind_a m f) \<Psi>"
  by (rule sees_bind_val [OF sees_quiet [OF assms(1)]]) (simp add: assms(2))

lemma sees_skip: "emits (\<lambda>e. \<not> Q e) m \<Longrightarrow> (\<And>a. sees Q (f a) \<Psi>) \<Longrightarrow> sees Q (bind_a m f) \<Psi>"
  by (rule sees_skip_val)

lemma sees_ret: "\<Psi> a [] \<Longrightarrow> sees Q (ret_a a) \<Psi>"
  by (simp add: sees_def)

lemma sees_throw: "sees Q (throw_a e) \<Psi>"
  by (simp add: sees_def)

lemma sees_end: "emits (\<lambda>e. \<not> Q e) m \<Longrightarrow> (\<And>a. \<Psi> a []) \<Longrightarrow> sees Q m \<Psi>"
  by (rule sees_mono [OF sees_quiet]) auto

lemma sees_if: "(b \<Longrightarrow> sees Q m \<Psi>) \<Longrightarrow> (\<not> b \<Longrightarrow> sees Q k \<Psi>) \<Longrightarrow> sees Q (if b then m else k) \<Psi>"
  by simp

lemma sees_case_option: "(v = None \<Longrightarrow> sees Q m \<Psi>) \<Longrightarrow> (\<And>x. v = Some x \<Longrightarrow> sees Q (f x) \<Psi>) \<Longrightarrow> sees Q (case v of None \<Rightarrow> m | Some x \<Rightarrow> f x) \<Psi>"
  by (cases v) simp_all

lemma sees_case_prod: "(\<And>x y. v = (x, y) \<Longrightarrow> sees Q (f x y) \<Psi>) \<Longrightarrow> sees Q (case v of (x, y) \<Rightarrow> f x y) \<Psi>"
  by (cases v) simp_all

lemma sees_http:
  assumes "\<And>a. Q (Http q (Inr a)) \<Longrightarrow> \<Psi> a [Http q (Inr a)]" and "\<And>a. \<not> Q (Http q (Inr a)) \<Longrightarrow> \<Psi> a []"
  shows "sees Q (http q) \<Psi>"
  using assms by (auto simp: sees_def http_def split: prod.splits)

lemma sees_db:
  assumes "\<And>a. Q (Db q (Inr a)) \<Longrightarrow> \<Psi> a [Db q (Inr a)]" and "\<And>a. \<not> Q (Db q (Inr a)) \<Longrightarrow> \<Psi> a []"
  shows "sees Q (db q) \<Psi>"
  using assms by (auto simp: sees_def db_def split: prod.splits)

lemma sees_sleep: "(Q (Sleep n) \<Longrightarrow> \<Psi> () [Sleep n]) \<Longrightarrow> (\<not> Q (Sleep n) \<Longrightarrow> \<Psi> () []) \<Longrightarrow> sees Q (sleep_s n) \<Psi>"
  by (auto simp: sees_def sleep_s_def)

text \<open>What a JSON access returned.\<close>

lemma json_act_val:
  "jget_a j p s = (Inr v, t) \<Longrightarrow> jget j p = Some v"
  "jstr_a j p s = (Inr b, t) \<Longrightarrow> Option.bind (jget j p) asString = Some b"
  "jint_a j p s = (Inr i, t) \<Longrightarrow> Option.bind (jget j p) asInt = Some i"
  "jbool_a j p s = (Inr c, t) \<Longrightarrow> Option.bind (jget j p) asBool = Some c"
  by (auto simp: json_acts opt_r_def split: option.splits)

lemma jset_a_val: "jset_a p v j s = (Inr j', t) \<Longrightarrow> jset p v j = Some j'"
  by (auto simp: jset_a_def opt_r_def split: option.splits)

lemma json_act_known:
  "jget j p = Some v \<Longrightarrow> jget_a j p = ret_a v"
  "Option.bind (jget j p) asString = Some b \<Longrightarrow> jstr_a j p = ret_a b"
  "Option.bind (jget j p) asInt = Some i \<Longrightarrow> jint_a j p = ret_a i"
  "Option.bind (jget j p) asBool = Some c \<Longrightarrow> jbool_a j p = ret_a c"
  "jset p w j = Some v \<Longrightarrow> jset_a p w j = ret_a v"
  by (rule ext, simp add: json_acts)+

section \<open>Guarded\<close>

lemma after_ok_append: "after_ok R Q past (k @ l) \<longleftrightarrow> after_ok R Q past k \<and> after_ok R Q (past @ k) l"
  by (induction k arbitrary: past) auto

lemma after_ok_known: "list_all (\<lambda>e. Q e \<longrightarrow> list_ex (\<lambda>d. R d e) past) l \<Longrightarrow> after_ok R Q past l"
proof (induction l arbitrary: past)
  case (Cons e l)
  then have "list_all (\<lambda>x. Q x \<longrightarrow> list_ex (\<lambda>d. R d x) (past @ [e])) l"
    by (auto simp: list_all_iff)
  from Cons.IH [OF this] Cons.prems show ?case by simp
qed simp

lemma after_okD: "after_ok R Q past (k @ e # l) \<Longrightarrow> Q e \<Longrightarrow> list_ex (\<lambda>d. R d e) (past @ k)"
  by (simp only: after_ok_append after_ok.simps)

lemma guarded_known:
  assumes "emits (\<lambda>e. Q e \<longrightarrow> list_ex (\<lambda>d. R d e) past) m"
  shows "guarded R Q past m"
  using assms unfolding emits_def guarded_def using after_ok_known by metis

lemma guarded_quiet: "emits (\<lambda>e. \<not> Q e) m \<Longrightarrow> guarded R Q past m"
  by (rule guarded_known) (erule emits_mono, simp)

text \<open>Sequencing: the second action may use whatever the first one has added to the log.\<close>

lemma guarded_bind:
  assumes "guarded R Q past m"
    and "\<And>s a t l. m s = (Inr a, t) \<Longrightarrow> s_log t = s_log s @ l \<Longrightarrow> guarded R Q (past @ l) (f a)"
  shows "guarded R Q past (bind_a m f)"
proof (unfold guarded_def, intro allI)
  fix s
  obtain r t where m: "m s = (r, t)" by (cases "m s")
  obtain l where l: "s_log t = s_log s @ l" "after_ok R Q past l"
    using assms(1) m unfolding guarded_def by (metis snd_conv)
  show "\<exists>l. s_log (snd (bind_a m f s)) = s_log s @ l \<and> after_ok R Q past l"
  proof (cases r)
    case (Inl e)
    with m l show ?thesis by auto
  next
    case (Inr a)
    obtain l2 where l2: "s_log (snd (f a t)) = s_log t @ l2" "after_ok R Q (past @ l) l2"
      using assms(2) [of s a t l] m Inr l(1) unfolding guarded_def by blast
    then have "after_ok R Q past (l @ l2)" using l(2) by (simp add: after_ok_append)
    with m Inr l(1) l2(1) show ?thesis by auto
  qed
qed

text \<open>The first action is of no interest, or the second is guarded whatever came before.\<close>

lemma guarded_skip:
  assumes "emits (\<lambda>e. \<not> Q e) m" and "\<And>a l. guarded R Q l (f a)"
  shows "guarded R Q past (bind_a m f)"
  using guarded_bind [OF guarded_quiet [OF assms(1)]] assms(2) by blast

lemma guarded_skip_val:
  assumes "emits (\<lambda>e. \<not> Q e) m" and "\<And>s a t l. m s = (Inr a, t) \<Longrightarrow> guarded R Q l (f a)"
  shows "guarded R Q past (bind_a m f)"
  using guarded_bind [OF guarded_quiet [OF assms(1)]] assms(2) by blast

lemma guarded_if: "(b \<Longrightarrow> guarded R Q past m) \<Longrightarrow> (\<not> b \<Longrightarrow> guarded R Q past k) \<Longrightarrow> guarded R Q past (if b then m else k)"
  by simp

text \<open>Values may matter for what follows: the closure of \<open>emits\<close> under such a sequencing.\<close>

lemma emits_bind_val:
  assumes "emits P m" and "\<And>s a t. m s = (Inr a, t) \<Longrightarrow> emits P (f a)"
  shows "emits P (bind_a m f)"
proof (unfold emits_def, intro allI)
  fix s
  obtain r t where m: "m s = (r, t)" by (cases "m s")
  obtain l where l: "s_log t = s_log s @ l" "list_all P l" using emitsD [OF assms(1) m] by blast
  show "\<exists>l. s_log (snd (bind_a m f s)) = s_log s @ l \<and> list_all P l"
  proof (cases r)
    case (Inl e)
    with m l show ?thesis by auto
  next
    case (Inr a)
    obtain r2 u where f: "f a t = (r2, u)" by (cases "f a t")
    have fa: "emits P (f a)" using assms(2) m Inr by blast
    obtain l2 where "s_log u = s_log t @ l2" "list_all P l2" using emitsD [OF fa f] by blast
    with m Inr f l show ?thesis by auto
  qed
qed

text \<open>
  Guards over the whole log: before every event with \<open>Q\<close>, the events up to it, those of the past included, satisfy \<open>P\<close>.
\<close>

definition preceded :: "(event list \<Rightarrow> event \<Rightarrow> bool) \<Rightarrow> (event \<Rightarrow> bool) \<Rightarrow> event list \<Rightarrow> event list \<Rightarrow> bool" where
  "preceded P Q past l \<longleftrightarrow> (\<forall>k e j. l = k @ e # j \<longrightarrow> Q e \<longrightarrow> P (past @ k) e)"

definition guarded_by :: "(event list \<Rightarrow> event \<Rightarrow> bool) \<Rightarrow> (event \<Rightarrow> bool) \<Rightarrow> event list \<Rightarrow> ('w, 'a) srv_act \<Rightarrow> bool" where
  "guarded_by P Q past m \<longleftrightarrow> (\<forall>s. \<exists>l. s_log (snd (m s)) = s_log s @ l \<and> preceded P Q past l)"

lemma preceded_append: "preceded P Q past (l @ l') \<longleftrightarrow> preceded P Q past l \<and> preceded P Q (past @ l) l'"
proof (intro iffI conjI)
  assume *: "preceded P Q past (l @ l')"
  show "preceded P Q past l" using * unfolding preceded_def by (metis append_assoc append_Cons)
  show "preceded P Q (past @ l) l'" using * unfolding preceded_def by (metis append_assoc)
next
  assume "preceded P Q past l \<and> preceded P Q (past @ l) l'"
  then show "preceded P Q past (l @ l')"
    unfolding preceded_def by (fastforce simp: append_eq_append_conv2 append_eq_Cons_conv Cons_eq_append_conv)
qed

lemma guarded_by_known:
  assumes "emits (\<lambda>e. Q e \<longrightarrow> (\<forall>k. P (past @ k) e)) m"
  shows "guarded_by P Q past m"
  unfolding guarded_by_def
proof
  fix s
  obtain l where "s_log (snd (m s)) = s_log s @ l" "list_all (\<lambda>e. Q e \<longrightarrow> (\<forall>k. P (past @ k) e)) l"
    using assms unfolding emits_def by blast
  then show "\<exists>l. s_log (snd (m s)) = s_log s @ l \<and> preceded P Q past l" by (auto simp: preceded_def)
qed

lemma guarded_by_quiet: "emits (\<lambda>e. \<not> Q e) m \<Longrightarrow> guarded_by P Q past m"
  by (rule guarded_by_known) (erule emits_mono, simp)

lemma guarded_by_bind:
  assumes "guarded_by P Q past m"
    and "\<And>s a t l. m s = (Inr a, t) \<Longrightarrow> s_log t = s_log s @ l \<Longrightarrow> guarded_by P Q (past @ l) (f a)"
  shows "guarded_by P Q past (bind_a m f)"
  unfolding guarded_by_def
proof
  fix s
  obtain r t where m: "m s = (r, t)" by (cases "m s")
  then obtain l where l: "s_log t = s_log s @ l" "preceded P Q past l"
    using assms(1) unfolding guarded_by_def by (metis snd_conv)
  show "\<exists>l. s_log (snd (bind_a m f s)) = s_log s @ l \<and> preceded P Q past l"
  proof (cases r)
    case (Inl x)
    then show ?thesis using m l by auto
  next
    case (Inr a)
    from assms(2) [OF m [unfolded Inr] l(1)] obtain l' where "s_log (snd (f a t)) = s_log t @ l'" "preceded P Q (past @ l) l'"
      unfolding guarded_by_def by blast
    then show ?thesis using m Inr l by (intro exI [of _ "l @ l'"]) (simp add: preceded_append)
  qed
qed

lemma guarded_by_quiet_bind:
  assumes "emits (\<lambda>e. \<not> Q e) m"
    and "\<And>s a t l. m s = (Inr a, t) \<Longrightarrow> s_log t = s_log s @ l \<Longrightarrow> guarded_by P Q (past @ l) (f a)"
  shows "guarded_by P Q past (bind_a m f)"
  using guarded_by_bind [OF guarded_by_quiet [OF assms(1)]] assms(2) by blast

lemma guarded_by_skip:
  assumes "emits (\<lambda>e. \<not> Q e) m" and "\<And>a l. guarded_by P Q l (f a)"
  shows "guarded_by P Q past (bind_a m f)"
  by (rule guarded_by_quiet_bind [OF assms(1)]) (rule assms(2))

lemma guarded_by_if: "(b \<Longrightarrow> guarded_by P Q past m) \<Longrightarrow> (\<not> b \<Longrightarrow> guarded_by P Q past k) \<Longrightarrow> guarded_by P Q past (if b then m else k)"
  by simp

lemma guarded_by_log:
  assumes "guarded_by P Q [] m" and "m s = (r, t)" and "s_log t = s_log s @ k @ e # l" and "Q e"
  shows "P k e"
  using assms unfolding guarded_by_def preceded_def by (metis append_Nil same_append_eq snd_conv)

section \<open>The store\<close>

lemma emits_unit_a [frame_intros]: "emits P m \<Longrightarrow> emits P (unit_a m)"
  unfolding unit_a_def by (intro frame_intros)

lemma emits_case_list [frame_intros]:
  "emits P n \<Longrightarrow> (\<And>x xs. emits P (f x xs)) \<Longrightarrow> emits P (case v of [] \<Rightarrow> n | x # xs \<Rightarrow> f x xs)"
  by (cases v) simp_all

lemma emits_bson [frame_intros]: "emits P (bson_utf8 v)"
  by (auto simp: bson_utf8_def emits_def split: option.splits json.splits)

primrec collection :: "db_req \<Rightarrow> string" where
  "collection (DbFind c f g) = c"
| "collection (DbFindOne c f) = c"
| "collection (DbUpdateOne c f u) = c"
| "collection (DbFindOneAndUpdate c f u) = c"
| "collection (DbInsertOne c d) = c"
| "collection (DbDelMany c f) = c"

definition on_sjob :: "db_req \<Rightarrow> bool" where
  "on_sjob q \<longleftrightarrow> collection q = ''sjob'' \<or> collection q = ''sjobevent''"

lemma emits_insert_doc [frame_intros]: "(\<And>r. P (Db (DbInsertOne c d) r)) \<Longrightarrow> emits P (insert_doc c d)"
  unfolding insert_doc_def by (intro frame_intros; simp add: emits_quiet split: json.splits)

lemma emits_sjob [frame_intros]:
  assumes "\<And>q r. on_sjob q \<Longrightarrow> P (Db q r)"
  shows "emits P (del_sjobs a)" "emits P (insert_flow a j)" "emits P (update_sjob_state a ss)" "emits P (update_sjob_stage a b sg)"
    "emits P (increment_sjob_field a b n)" "emits P (update_sjob_flow_state a fs)" "emits P (increment_sjob_flow_field a b n)"
    "emits P (update_sjob_block_state a bs)" "emits P (increment_sjob_block_field a b n)"
    "emits P (update_sjob_block_field a b j)" "emits P (update_sjob_flow_field a b j)"
  unfolding del_sjobs_def insert_flow_def update_sjob_state_def update_sjob_stage_def increment_sjob_field_def
    update_sjob_flow_state_def increment_sjob_flow_field_def update_sjob_block_state_def increment_sjob_block_field_def
    update_sjob_block_field_def update_sjob_flow_field_def
  by (intro frame_intros assms; simp add: on_sjob_def)+

lemma emits_store [frame_intros]:
  "(\<And>r. P (Db (DbDelMany c (jobj [])) r)) \<Longrightarrow> emits P (delete_all c)"
  "(\<And>f u r. P (Db (DbUpdateOne ''stream'' f u) r)) \<Longrightarrow> emits P (update_stream_state a n)"
  "(\<And>f u r. P (Db (DbUpdateOne ''rawjob'' f u) r)) \<Longrightarrow> emits P (update_rawjob_size a x)"
  "(\<And>f u r. P (Db (DbUpdateOne ''rawjob'' f u) r)) \<Longrightarrow> emits P (update_rawjob_state a rs)"
  "(\<And>f u r. P (Db (DbUpdateOne ''rawjob'' f u) r)) \<Longrightarrow> emits P (increment_rawjob_field a b n)"
  "(\<And>f u r. P (Db (DbFindOneAndUpdate ''site'' f u) r)) \<Longrightarrow> emits P (increment_site_field a b n)"
  "(\<And>f u r. P (Db (DbFindOneAndUpdate c f u) r)) \<Longrightarrow> emits P (update_collection_field c a b j)"
  unfolding store_updates by (intro frame_intros; assumption)+

lemma emits_queries [frame_intros]:
  assumes "\<And>c f g r. P (Db (DbFind c f g) r)" and "\<And>c f r. P (Db (DbFindOne c f) r)"
  shows "emits P (find_one_by_id a b)" "emits P (get_site_info a)" "emits P (get_storage_dtn_addr a)" "emits P get_storage_list"
    "emits P get_dtn_list" "emits P get_cn_dtn_user_mapping" "emits P (get_user_from_cn a b)" "emits P get_storage_dtn_map"
    "emits P (get_user_keys a b)" "emits P (get_rawjob_from_id a)" "emits P (get_rawjobs_from_state rs)" "emits P get_sites"
    "emits P (get_block_files a)" "emits P get_best_effort_sjobs" "emits P get_active_best_effort_sjobs"
    "emits P (get_sjob_from_task_id a)" "emits P (get_sjobs_from_rawjob_id a)"
  unfolding store_queries by (intro frame_intros assms)+

end
