(* ===== verification/Network_Path.thy ===== *)
theory Network_Path
  imports Wan Log_Logic
begin

text \<open>
  The network part of \<open>src/server/scheduler.cc\<close>: choosing a pair of DTNs, setting up the WAN path and the
  SDN paths at both sites, verifying the path with pings, and taking everything down again.
  Commands to the two sites go to their portals as HTTP posts.
\<close>

section \<open>Commands to a site\<close>

definition post_command :: "string \<Rightarrow> json \<Rightarrow> ('w, int \<times> json) srv_act" where
  "post_command url params = http (HPost (''https://'' @ url @ ''/bde/command'') params)"

definition is_member_a :: "json \<Rightarrow> string \<Rightarrow> ('w, bool) srv_act" where
  "is_member_a j k = lift_r (opt_r Json_error (isMember j k))"

section \<open>Pairing DTNs\<close>

definition available_request :: "string \<Rightarrow> string \<Rightarrow> json" where
  "available_request storage remote = jobj
     [(''cmd'', JStr ''get_available_best_effort_dtn''), (''storage'', JStr storage), (''remote'', JStr remote)]"

text \<open>
  The choice between the two answers: the first private pair, else the first public pair. Both branches
  assign \<open>src_storage\<close> twice, so that it ends up with the storage of the destination and there is no
  \<open>dst_storage\<close> in the result.
\<close>

definition pick_pair :: "json \<Rightarrow> json \<Rightarrow> string \<Rightarrow> bool \<Rightarrow> ('w, json) srv_act" where
  "pick_pair r_src r_dst which private =
     bind_a (jget_a r_src [K which, I 0]) (\<lambda>sd.
     bind_a (jget_a r_dst [K which, I 0]) (\<lambda>dd.
     bind_a (jget_a r_src [K ''storage'']) (\<lambda>_.
     bind_a (jget_a r_dst [K ''storage'']) (\<lambda>ds.
     ret_a (jobj [(''code'', JInt 0), (''error'', JStr ''success''), (''src_dtn'', sd), (''dst_dtn'', dd),
       (''src_storage'', ds), (''private'', JBool private)])))))"

definition choose_pair :: "json \<Rightarrow> json \<Rightarrow> ('w, json) srv_act" where
  "choose_pair r_src r_dst =
     bind_a (jget_a r_src [K ''private_dtns'']) (\<lambda>ps.
     bind_a (if jempty ps then ret_a True
             else bind_a (jget_a r_dst [K ''private_dtns'']) (\<lambda>pd. ret_a (jempty pd))) (\<lambda>no_private.
     if \<not> no_private then pick_pair r_src r_dst ''private_dtns'' True
     else
       bind_a (jget_a r_src [K ''public_dtns'']) (\<lambda>us.
       bind_a (if jempty us then ret_a True
               else bind_a (jget_a r_dst [K ''public_dtns'']) (\<lambda>ud. ret_a (jempty ud))) (\<lambda>no_public.
       if \<not> no_public then pick_pair r_src r_dst ''public_dtns'' False
       else ret_a (jobj [(''code'', JInt 201), (''error'', JStr ''unable to find either private or public DTN pairs'')])))))"

definition find_best_effort_dtn_pair :: "string \<Rightarrow> string \<Rightarrow> json \<Rightarrow> json \<Rightarrow> ('w, json) srv_act" where
  "find_best_effort_dtn_pair src_storage_id dst_storage_id src_site_info dst_site_info =
     bind_a (jstr_a src_site_info [K ''url'']) (\<lambda>src_url.
     bind_a (jstr_a dst_site_info [K ''url'']) (\<lambda>dst_url.
     bind_a (jstr_a src_site_info [K ''abbrev'']) (\<lambda>src_abbrev.
     bind_a (jstr_a dst_site_info [K ''abbrev'']) (\<lambda>dst_abbrev.
     bind_a (post_command src_url (available_request src_storage_id dst_abbrev)) (\<lambda>(c_src, r_src).
     bind_a (post_command dst_url (available_request dst_storage_id src_abbrev)) (\<lambda>(c_dst, r_dst).
     if c_src \<noteq> 200 then
       ret_a (jobj [(''code'', JInt 100), (''error'', JStr ''source site portal unreachable'')])
     else if c_dst \<noteq> 200 then
       ret_a (jobj [(''code'', JInt 101), (''error'', JStr ''destination site portal unreachable'')])
     else
       bind_a (choose_pair r_src r_dst) (\<lambda>res.
       bind_a (jint_a res [K ''code'']) (\<lambda>code.
       if code = 0 then
         bind_a (jset_a [K ''src_dtn'', K ''site''] src_site_info res) (\<lambda>res1.
         jset_a [K ''dst_dtn'', K ''site''] dst_site_info res1)
       else ret_a res))))))))"

section \<open>The WAN path\<close>

definition setup_wan_path :: "json \<Rightarrow> json \<Rightarrow> double \<Rightarrow> string \<Rightarrow> string \<Rightarrow> ('w, json) srv_act" where
  "setup_wan_path src_dtn dst_dtn bandwidth src_vlan_s dst_vlan_s =
     bind_a (jstr_a src_dtn [K ''stp'', K ''name'']) (\<lambda>src_stp.
     bind_a (jstr_a dst_dtn [K ''stp'', K ''name'']) (\<lambda>dst_stp.
     bind_a (wan_create src_stp dst_stp src_vlan_s dst_vlan_s) (\<lambda>cres.
     let uuid = cr_uuid cres;
         failed = (\<lambda>c e. jobj [(''code'', JInt c), (''error'', JStr e), (''wan_uuid'', JStr []),
           (''wan_src_vlan'', JInt (cr_src_vlan cres)), (''wan_dst_vlan'', JInt (cr_dst_vlan cres)),
           (''wan_max_bw'', JReal (cr_max_bw cres))])
     in if uuid = [] then
          ret_a (jobj [(''code'', JInt 300), (''error'', JStr ''WAN path creation failure''), (''wan_uuid'', JStr [])])
        else
          bind_a (sleep_s 2) (\<lambda>_.
          bind_a (wan_reserve uuid src_stp dst_stp (cr_src_vlan cres) (cr_dst_vlan cres) bandwidth) (\<lambda>r1.
          if \<not> r1 then bind_a (wan_del uuid 5) (\<lambda>_. ret_a (failed 301 ''WAN path reservation faiure''))
          else
            bind_a (sleep_s 2) (\<lambda>_.
            bind_a (wan_commit uuid) (\<lambda>r2.
            if \<not> r2 then bind_a (wan_del uuid 5) (\<lambda>_. ret_a (failed 302 ''WAN path commit faiure''))
            else ret_a (jobj [(''code'', JInt 0), (''error'', JStr []), (''wan_uuid'', JStr uuid),
              (''wan_src_vlan'', JInt (cr_src_vlan cres)), (''wan_dst_vlan'', JInt (cr_dst_vlan cres)),
              (''wan_max_bw'', JReal (cr_max_bw cres))]))))))))"

definition teardown_wan_path :: "string \<Rightarrow> string \<Rightarrow> ('w, int) srv_act" where
  "teardown_wan_path sid uuid =
     (if uuid = [] then ret_a 0
      else
        bind_a (update_sjob_state sid SJ_wan_teardown) (\<lambda>_.
        bind_a (update_sjob_stage sid ''teardown.wan_dynamic'' SG_working) (\<lambda>_.
        bind_a (sleep_s 10) (\<lambda>_.
        bind_a (wan_release uuid 5) (\<lambda>ok4.
        if \<not> ok4 then bind_a (update_sjob_stage sid ''teardown.wan_dynamic'' SG_error) (\<lambda>_. ret_a 1)
        else
          bind_a (sleep_s 30) (\<lambda>_.
          bind_a (wan_terminate uuid 5) (\<lambda>ok5.
          if \<not> ok5 then bind_a (update_sjob_stage sid ''teardown.wan_dynamic'' SG_error) (\<lambda>_. ret_a 2)
          else
            bind_a (sleep_s 2) (\<lambda>_.
            bind_a (wan_del uuid 5) (\<lambda>ok6.
            if \<not> ok6 then bind_a (update_sjob_stage sid ''teardown.wan_dynamic'' SG_error) (\<lambda>_. ret_a 3)
            else bind_a (update_sjob_stage sid ''teardown.wan_dynamic'' SG_success) (\<lambda>_. ret_a 0))))))))))"

section \<open>The SDN paths\<close>

definition ping_message :: "json \<Rightarrow> json \<Rightarrow> json" where
  "ping_message dtn_id destination = jobj
     [(''cmd'', JStr ''dtn_icmp_ping''), (''dtn'', dtn_id),
      (''params'', jobj [(''cmd'', JStr ''dtn_send_icmp_ping''), (''params'', jobj [(''destination'', destination)])])]"

definition ping_a :: "string \<Rightarrow> json \<Rightarrow> json \<Rightarrow> ('w, int \<times> json) srv_act" where
  "ping_a url own peer =
     bind_a (jget_a own [K ''id'']) (\<lambda>i.
     bind_a (jget_a peer [K ''data_ip'']) (\<lambda>ip.
     post_command url (ping_message i ip)))"

definition sdn_message :: "json \<Rightarrow> json \<Rightarrow> int \<Rightarrow> int \<Rightarrow> double \<Rightarrow> ('w, json) srv_act" where
  "sdn_message own peer vlan oscar rate =
     bind_a (jget_a own [K ''sdn_setup'']) (\<lambda>setup.
     bind_a (jget_a own [K ''id'']) (\<lambda>oid1. bind_a (jget_a peer [K ''id'']) (\<lambda>oid2.
     bind_a (jget_a own [K ''data_ip'']) (\<lambda>ip1. bind_a (jget_a peer [K ''data_ip'']) (\<lambda>ip2.
     bind_a (jget_a own [K ''data_mac'']) (\<lambda>mac1. bind_a (jget_a peer [K ''data_mac'']) (\<lambda>mac2.
     ret_a (jobj
       [(''cmd'', JStr ''sdn_reserve_request''),
        (''params'', jobj
           [(''cmd'', JStr ''reserve_request''), (''start'', JStr ''direct''), (''end'', JStr ''2020-12-30 16:35''),
            (''sdn_setup'', setup),
            (''dtns'', jobj
               [(''trafficType'', JStr ''1''), (''vlanId'', JStr (to_string vlan)), (''oscarsVlanId'', JStr (to_string oscar)),
                (''routeType'', JStr ''h2g''), (''rate'', JStr (to_string_double rate)),
                (''srcId'', oid1), (''dstId'', oid2), (''srcIp'', ip1), (''dstIp'', ip2), (''srcMac'', mac1), (''dstMac'', mac2)])])]))))))))"

text \<open>
  The retry loop at one site; \<open>n\<close> counts the attempts left, three at the start. The result is the path id
  the site reports, or the text of the error after the last attempt.
\<close>

fun sdn_attempts :: "string \<Rightarrow> string \<Rightarrow> bool \<Rightarrow> string \<Rightarrow> string \<Rightarrow> json \<Rightarrow> nat \<Rightarrow> ('w, string + int) srv_act" where
  "sdn_attempts sid lan setup url what msg 0 = throw_a Undefined"
| "sdn_attempts sid lan setup url what msg (Suc n) =
     bind_a (when_a setup (update_sjob_stage sid (''network.'' @ lan) SG_working)) (\<lambda>_.
     bind_a (post_command url msg) (\<lambda>(_, r).
     bind_a (jint_a r [K ''code'']) (\<lambda>code.
     bind_a (if code = 0 then bind_a (jget_a r [K ''sdn'']) (\<lambda>sdn. is_member_a sdn ''InstalledPathId'') else ret_a False) (\<lambda>ok.
     if ok then
       bind_a (jint_a r [K ''sdn'', K ''InstalledPathId'']) (\<lambda>pid.
       bind_a (when_a setup (seq_a
         [update_sjob_stage sid (''network.'' @ lan) SG_success,
          update_sjob_stage sid (''teardown.'' @ lan) SG_pending])) (\<lambda>_.
       ret_a (Inr pid)))
     else if 0 < n then bind_a (sleep_s 2) (\<lambda>_. sdn_attempts sid lan setup url what msg n)
     else
       bind_a (update_sjob_stage sid (''network.'' @ lan) SG_error) (\<lambda>_.
       bind_a (jstr_a r [K ''sdn'', K ''ErrorCode'']) (\<lambda>ec.
       bind_a (jstr_a r [K ''sdn'', K ''Description'']) (\<lambda>desc.
       ret_a (Inl (what @ ''. Code: '' @ ec @ ''. Desc: '' @ desc)))))))))"

definition sdn_result :: "int \<Rightarrow> int \<Rightarrow> int \<Rightarrow> string \<Rightarrow> json" where
  "sdn_result src_path dst_path code err = jobj
     [(''src_path_id'', JInt src_path), (''dst_path_id'', JInt dst_path), (''code'', JInt code), (''error'', JStr err)]"

definition setup_sdn_path :: "string \<Rightarrow> json \<Rightarrow> json \<Rightarrow> double \<Rightarrow> bool \<Rightarrow> int \<Rightarrow> int \<Rightarrow> ('w, json) srv_act" where
  "setup_sdn_path sid src_dtn dst_dtn rate pre_ping oscar_src oscar_dst =
     bind_a (jstr_a src_dtn [K ''site'', K ''url'']) (\<lambda>src_url.
     bind_a (jstr_a dst_dtn [K ''site'', K ''url'']) (\<lambda>dst_url.
     bind_a (jbool_a src_dtn [K ''sdn_setup'']) (\<lambda>src.
     bind_a (jbool_a dst_dtn [K ''sdn_setup'']) (\<lambda>dst.
     bind_a (if src then jint_a src_dtn [K ''data_vlan_id''] else ret_a 0) (\<lambda>src_vlan.
     bind_a (if dst then jint_a dst_dtn [K ''data_vlan_id''] else ret_a 0) (\<lambda>dst_vlan.
     bind_a (when_a pre_ping
       (bind_a (ping_a src_url src_dtn dst_dtn) (\<lambda>_. bind_a (ping_a dst_url dst_dtn src_dtn) (\<lambda>_. ret_a ())))) (\<lambda>_.
     bind_a (sdn_message src_dtn dst_dtn src_vlan oscar_src rate) (\<lambda>msg_src.
     bind_a (sdn_attempts sid ''lan_src'' src src_url ''Error at SDN source site'' msg_src 3) (\<lambda>p_src.
     case p_src of
       Inl err \<Rightarrow> ret_a (sdn_result (- 1) (- 1) (- 1) err)
     | Inr src_id \<Rightarrow>
         bind_a (sdn_message dst_dtn src_dtn dst_vlan oscar_dst rate) (\<lambda>msg_dst.
         bind_a (sdn_attempts sid ''lan_dst'' dst dst_url ''Error at SDN destination site'' msg_dst 3) (\<lambda>p_dst.
         case p_dst of
           Inl err \<Rightarrow> ret_a (sdn_result src_id (- 1) (- 2) err)
         | Inr dst_id \<Rightarrow> ret_a (sdn_result src_id dst_id 0 []))))))))))))"

definition release_message :: "json \<Rightarrow> json \<Rightarrow> json \<Rightarrow> json" where
  "release_message path_id dtn ip = jobj
     [(''cmd'', JStr ''sdn_release_request''),
      (''params'', jobj [(''installedPathId'', path_id), (''dtn'', dtn), (''ip'', ip)])]"

definition teardown_side :: "string \<Rightarrow> string \<Rightarrow> string \<Rightarrow> json \<Rightarrow> json \<Rightarrow> ('w, unit) srv_act" where
  "teardown_side sid lan url own peer =
     bind_a (jint_a own [K ''path_id'']) (\<lambda>pid.
     if pid = - 1 then ret_a ()
     else
       bind_a (jbool_a own [K ''sdn_setup'']) (\<lambda>setup.
       bind_a (when_a setup (update_sjob_stage sid (''teardown.'' @ lan) SG_working)) (\<lambda>_.
       bind_a (jget_a own [K ''path_id'']) (\<lambda>path_id.
       bind_a (jget_a own [K ''id'']) (\<lambda>i.
       bind_a (jget_a peer [K ''data_ip'']) (\<lambda>ip.
       bind_a (post_command url (release_message path_id i ip)) (\<lambda>_.
       when_a setup (update_sjob_stage sid (''teardown.'' @ lan) SG_success))))))))"

definition teardown_sdn_path :: "string \<Rightarrow> json \<Rightarrow> json \<Rightarrow> ('w, int) srv_act" where
  "teardown_sdn_path sid src_dtn dst_dtn =
     bind_a (update_sjob_state sid SJ_sdn_teardown) (\<lambda>_.
     bind_a (jstr_a src_dtn [K ''site'', K ''url'']) (\<lambda>src_url.
     bind_a (jstr_a dst_dtn [K ''site'', K ''url'']) (\<lambda>dst_url.
     bind_a (teardown_side sid ''lan_src'' src_url src_dtn dst_dtn) (\<lambda>_.
     bind_a (teardown_side sid ''lan_dst'' dst_url dst_dtn src_dtn) (\<lambda>_.
     ret_a 0)))))"

section \<open>Verifying a path\<close>

text \<open>The ping loop; \<open>n\<close> counts the attempts left.\<close>

fun verify_attempts :: "string \<Rightarrow> json \<Rightarrow> nat \<Rightarrow> ('w, json) srv_act" where
  "verify_attempts url msg 0 = throw_a Undefined"
| "verify_attempts url msg (Suc n) =
     bind_a (post_command url msg) (\<lambda>(_, r).
     bind_a (jint_a r [K ''code'']) (\<lambda>code.
     if code = 0 then ret_a (jobj [(''code'', JInt 0)])
     else if 0 < n then bind_a (sleep_s 10) (\<lambda>_. verify_attempts url msg n)
     else
       bind_a (jget_a r [K ''code'']) (\<lambda>c.
       bind_a (jstr_a r [K ''error'']) (\<lambda>e.
       ret_a (jobj [(''code'', c), (''error'', JStr (''path verification error: '' @ e))])))))"

definition verify_path :: "json \<Rightarrow> json \<Rightarrow> ('w, json) srv_act" where
  "verify_path src_dtn dst_dtn =
     bind_a (jstr_a src_dtn [K ''site'', K ''url'']) (\<lambda>src_url.
     bind_a (jstr_a dst_dtn [K ''site'', K ''url'']) (\<lambda>_.
     bind_a (jget_a src_dtn [K ''id'']) (\<lambda>i.
     bind_a (jget_a dst_dtn [K ''data_ip'']) (\<lambda>ip.
     bind_a (jstr_a src_dtn [K ''wan_uuid'']) (\<lambda>uuid.
     verify_attempts src_url (ping_message i ip) (if uuid = [] then 5 else 30))))))"

section \<open>Network configuration\<close>

fun any_str :: "string \<Rightarrow> json list \<Rightarrow> (exn, bool) result" where
  "any_str s [] = Inr False"
| "any_str s (d # ds) = bind_r (opt_r Json_error (asString d)) (\<lambda>x. if x = s then Inr True else any_str s ds)"

definition needs_sdn_setup :: "json \<Rightarrow> string \<Rightarrow> (exn, bool) result" where
  "needs_sdn_setup conf dtn =
     bind_r (opt_r Json_error (getk conf [''lan'', ''dtns''])) (\<lambda>ds. any_str dtn (elems ds))"

fun first_stp :: "string \<Rightarrow> json list \<Rightarrow> (exn, json) result" where
  "first_stp dtn [] = Inr (JObj [])"
| "first_stp dtn (stp # stps) =
     bind_r (opt_r Json_error (at_key stp ''dtns'')) (\<lambda>ds.
     bind_r (any_str dtn (elems ds)) (\<lambda>found. if found then Inr stp else first_stp dtn stps))"

definition find_dtn_stp :: "json \<Rightarrow> string \<Rightarrow> (exn, json) result" where
  "find_dtn_stp conf dtn =
     bind_r (opt_r Json_error (getk conf [''wan_dynamic'', ''stps''])) (\<lambda>ss. first_stp dtn (elems ss))"

section \<open>Network handling\<close>

text \<open>The first static circuit to the remote site: bandwidth and the two VLAN ids.\<close>

fun find_static :: "string \<Rightarrow> json list \<Rightarrow> ('w, (double \<times> int \<times> int) option) srv_act" where
  "find_static site [] = ret_a None"
| "find_static site (p # ps) =
     bind_a (jstr_a p [K ''remote_site'']) (\<lambda>r.
     if r = site then
       bind_a (jget_a p [K ''circuits'', I 0]) (\<lambda>c.
       bind_a (jdouble_a c [K ''bandwidth'']) (\<lambda>bw.
       bind_a (jint_a c [K ''local_vlan_id'']) (\<lambda>lv.
       bind_a (jint_a c [K ''remote_vlan_id'']) (\<lambda>rv.
       ret_a (Some (bw, lv, rv))))))
     else find_static site ps)"

text \<open>
  The VLAN a dynamic path asks for at one end. The second test of the code reads the constraints of the
  source, also when the VLAN of the destination is chosen: \<open>tested\<close> is the DTN it looks at.
\<close>

definition dynamic_vlan :: "json \<Rightarrow> json \<Rightarrow> bool \<Rightarrow> int \<Rightarrow> ('w, string) srv_act" where
  "dynamic_vlan own tested sdn vlan =
     (if sdn then
        bind_a (jget_a own [K ''stp'']) (\<lambda>stp.
        bind_a (is_member_a stp ''local_vlan_constraints'') (\<lambda>has.
        bind_a (if has then bind_a (jstr_a tested [K ''stp'', K ''local_vlan_constraints'']) (\<lambda>c. ret_a (c \<noteq> [])) else ret_a False) (\<lambda>use.
        if use then jstr_a own [K ''stp'', K ''local_vlan_constraints''] else ret_a ''any'')))
      else ret_a (to_string vlan))"

definition plan_dynamic :: "json \<Rightarrow> json \<Rightarrow> ('w, (string \<times> string) option) srv_act" where
  "plan_dynamic src_dtn dst_dtn =
     bind_a (jget_a src_dtn [K ''stp'']) (\<lambda>sstp.
     bind_a (jget_a dst_dtn [K ''stp'']) (\<lambda>dstp.
     if \<not> jempty sstp \<and> \<not> jempty dstp then
       bind_a (jbool_a src_dtn [K ''sdn_setup'']) (\<lambda>src_sdn.
       bind_a (jint_a src_dtn [K ''data_vlan_id'']) (\<lambda>src_vlan.
       bind_a (jbool_a dst_dtn [K ''sdn_setup'']) (\<lambda>dst_sdn.
       bind_a (jint_a dst_dtn [K ''data_vlan_id'']) (\<lambda>dst_vlan.
       bind_a (dynamic_vlan src_dtn src_dtn src_sdn src_vlan) (\<lambda>sv.
       bind_a (dynamic_vlan dst_dtn src_dtn dst_sdn dst_vlan) (\<lambda>dv.
       ret_a (Some (sv, dv))))))))
     else ret_a None))"

definition lan_pending :: "string \<Rightarrow> json \<Rightarrow> json \<Rightarrow> ('w, unit) srv_act" where
  "lan_pending sid src_dtn dst_dtn =
     bind_a (jbool_a src_dtn [K ''sdn_setup'']) (\<lambda>s.
     bind_a (when_a s (update_sjob_stage sid ''network.lan_src'' SG_pending)) (\<lambda>_.
     bind_a (jbool_a dst_dtn [K ''sdn_setup'']) (\<lambda>d.
     when_a d (update_sjob_stage sid ''network.lan_dst'' SG_pending))))"

definition net_result :: "json \<Rightarrow> json \<Rightarrow> json \<Rightarrow> json \<Rightarrow> json \<Rightarrow> (string \<times> json) list \<Rightarrow> json" where
  "net_result code err uuid src_path dst_path extra_fields = jobj
     ([(''code'', code), (''error'', err), (''wan_uuid'', uuid), (''src_sdn_path_id'', src_path), (''dst_sdn_path_id'', dst_path)] @ extra_fields)"

text \<open>The second half of \<open>network_handling\<close>: the SDN paths, with the VLAN ids of the WAN path.\<close>

definition network_sdn :: "string \<Rightarrow> json \<Rightarrow> json \<Rightarrow> json \<Rightarrow> (string \<times> json) list \<Rightarrow> double \<Rightarrow> int \<Rightarrow> int \<Rightarrow> ('w, json) srv_act" where
  "network_sdn sid src_dtn dst_dtn uuid extra_fields max_bw wan_src_vlan wan_dst_vlan =
     bind_a (update_sjob_state sid SJ_sdn_setup) (\<lambda>_.
     bind_a (setup_sdn_path sid src_dtn dst_dtn max_bw False wan_src_vlan wan_dst_vlan) (\<lambda>res_sdn.
     bind_a (jget_a res_sdn [K ''src_path_id'']) (\<lambda>sp.
     bind_a (jget_a res_sdn [K ''dst_path_id'']) (\<lambda>dp.
     bind_a (jint_a res_sdn [K ''code'']) (\<lambda>code.
     bind_a (jget_a res_sdn [K ''code'']) (\<lambda>c.
     bind_a (jget_a res_sdn [K ''error'']) (\<lambda>e.
     if code \<noteq> 0 then ret_a (net_result c e uuid sp dp extra_fields)
     else ret_a (net_result (JInt 0) (JStr ''success'') uuid sp dp extra_fields))))))))"

definition network_handling :: "string \<Rightarrow> json \<Rightarrow> json \<Rightarrow> ('w, json) srv_act" where
  "network_handling sid src_dtn dst_dtn =
     bind_a (jstr_a src_dtn [K ''site'', K ''abbrev'']) (\<lambda>_.
     bind_a (jstr_a dst_dtn [K ''site'', K ''abbrev'']) (\<lambda>dst_site.
     bind_a (jget_a src_dtn [K ''wan_static'', K ''paths'']) (\<lambda>paths.
     bind_a (find_static dst_site (elems paths)) (\<lambda>static.
     case static of
       Some (bw, lv, rv) \<Rightarrow>
         bind_a (update_sjob_stage sid ''network.planning'' SG_success) (\<lambda>_.
         bind_a (update_sjob_stage sid ''network.wan_static'' SG_success) (\<lambda>_.
         bind_a (update_sjob_stage sid ''network.ping'' SG_pending) (\<lambda>_.
         bind_a (lan_pending sid src_dtn dst_dtn) (\<lambda>_.
         network_sdn sid src_dtn dst_dtn (JStr []) [] bw lv rv))))
     | None \<Rightarrow>
         bind_a (plan_dynamic src_dtn dst_dtn) (\<lambda>dynamic.
         case dynamic of
           Some (sv, dv) \<Rightarrow>
             bind_a (update_sjob_state sid SJ_wan_setup) (\<lambda>_.
             bind_a (update_sjob_stage sid ''network.planning'' SG_success) (\<lambda>_.
             bind_a (update_sjob_stage sid ''network.wan_dynamic'' SG_working) (\<lambda>_.
             bind_a (update_sjob_stage sid ''network.ping'' SG_pending) (\<lambda>_.
             bind_a (lan_pending sid src_dtn dst_dtn) (\<lambda>_.
             bind_a (setup_wan_path src_dtn dst_dtn 10000 sv dv) (\<lambda>res_wan.
             bind_a (jint_a res_wan [K ''code'']) (\<lambda>code.
             if code \<noteq> 0 then
               bind_a (update_sjob_stage sid ''network.wan_dynamic'' SG_error) (\<lambda>_.
               bind_a (jget_a res_wan [K ''code'']) (\<lambda>c.
               bind_a (jget_a res_wan [K ''error'']) (\<lambda>e.
               ret_a (net_result c e (JStr []) (JInt (- 1)) (JInt (- 1)) []))))
             else
               bind_a (update_sjob_stage sid ''network.wan_dynamic'' SG_success) (\<lambda>_.
               bind_a (update_sjob_stage sid ''teardown.wan_dynamic'' SG_pending) (\<lambda>_.
               bind_a (jget_a res_wan [K ''wan_uuid'']) (\<lambda>uuid.
               bind_a (jget_a res_wan [K ''wan_src_vlan'']) (\<lambda>wsv.
               bind_a (jget_a res_wan [K ''wan_dst_vlan'']) (\<lambda>wdv.
               bind_a (jget_a res_wan [K ''wan_max_bw'']) (\<lambda>wbw.
               bind_a (jint_a res_wan [K ''wan_src_vlan'']) (\<lambda>src_vlan.
               bind_a (jint_a res_wan [K ''wan_dst_vlan'']) (\<lambda>dst_vlan.
               network_sdn sid src_dtn dst_dtn uuid
                 [(''wan_src_vlan'', wsv), (''wan_dst_vlan'', wdv), (''wan_max_bw'', wbw)] 10000 src_vlan dst_vlan)))))))))))))))
         | None \<Rightarrow>
             bind_a (update_sjob_stage sid ''network.planning'' SG_error) (\<lambda>_.
             ret_a (net_result (JInt 101) (JStr ''unable to find valid static or dynamic WAN path.'')
               (JStr []) (JInt (- 1)) (JInt (- 1)) [])))))))"

section \<open>What the operations send\<close>

lemma emits_retry: "emits P m \<Longrightarrow> P (Sleep 10) \<Longrightarrow> emits P (retry_loop m n)"
  by (induction n) (simp_all only: retry_loop.simps, (intro frame_intros | simp)+)

lemma emits_wan [frame_intros]:
  assumes "\<And>u x r. P (Http (HPostForm u x) r)"
  shows "emits P get_token"
    "(\<And>u a b x r. P (Http (HPostAuth u a b x) r)) \<Longrightarrow> emits P (wan_create a b c d)"
    "(\<And>u a b x r. P (Http (HPostAuth u a b x) r)) \<Longrightarrow> emits P (wan_reserve a b c i j x)"
    "(\<And>u a b r. P (Http (HPut u a b) r)) \<Longrightarrow> emits P (wan_put a)"
    "(\<And>u a b r. P (Http (HPut u a b) r)) \<Longrightarrow> emits P (wan_commit a)"
    "(\<And>u a b r. P (Http (HPut u a b) r)) \<Longrightarrow> P (Sleep 10) \<Longrightarrow> emits P (wan_release a i)"
    "(\<And>u a b r. P (Http (HPut u a b) r)) \<Longrightarrow> P (Sleep 10) \<Longrightarrow> emits P (wan_terminate a i)"
    "(\<And>u a b r. P (Http (HDel u a b) r)) \<Longrightarrow> emits P (wan_delete_once a)"
    "(\<And>u a b r. P (Http (HDel u a b) r)) \<Longrightarrow> P (Sleep 10) \<Longrightarrow> emits P (wan_del a i)"
  unfolding wan_ops by (intro frame_intros emits_retry assms; simp)+

lemma emits_command [frame_intros]:
  "(\<And>r. P (Http (HPost (''https://'' @ url @ ''/bde/command'') params) r)) \<Longrightarrow> emits P (post_command url params)"
  "emits P (is_member_a j k)"
  unfolding post_command_def is_member_a_def by (intro frame_intros; assumption)+

lemma emits_sdn_message [frame_intros]: "emits P (sdn_message own peer vlan oscar rate)"
  unfolding sdn_message_def by (intro frame_intros)

lemma emits_ping [frame_intros]:
  "(\<And>u i ip r. P (Http (HPost u (ping_message i ip)) r)) \<Longrightarrow> emits P (ping_a url own peer)"
  unfolding ping_a_def by (intro frame_intros)

lemma emits_attempts:
  assumes "\<And>q r. on_sjob q \<Longrightarrow> P (Db q r)" "\<And>u r. P (Http (HPost u msg) r)" "\<And>n. P (Sleep n)"
  shows "emits P (sdn_attempts sid lan setup url what msg n)" "emits P (verify_attempts url msg n)"
proof -
  show "emits P (sdn_attempts sid lan setup url what msg n)"
    by (induction n) (simp_all only: sdn_attempts.simps, (intro frame_intros assms | assumption | auto)+)
  show "emits P (verify_attempts url msg n)"
    by (induction n) (simp_all only: verify_attempts.simps, (intro frame_intros assms | assumption)+)
qed

lemma emits_case_sum [frame_intros]:
  "(\<And>x. emits P (f x)) \<Longrightarrow> (\<And>y. emits P (g y)) \<Longrightarrow> emits P (case v of Inl x \<Rightarrow> f x | Inr y \<Rightarrow> g y)"
  by (cases v) simp_all

lemma emits_find_static [frame_intros]: "emits P (find_static site ps)"
  by (induction ps) (simp_all only: find_static.simps, (intro frame_intros | assumption)+)

lemma emits_plan [frame_intros]: "emits P (plan_dynamic a b)"
  unfolding plan_dynamic_def dynamic_vlan_def by (intro frame_intros)

lemma emits_pairing [frame_intros]:
  assumes "\<And>u st x r. P (Http (HPost u (available_request st x)) r)"
  shows "emits P (find_best_effort_dtn_pair a b c d)"
  unfolding find_best_effort_dtn_pair_def choose_pair_def pick_pair_def by (intro frame_intros assms)

lemma emits_lan_pending [frame_intros]: "(\<And>q r. on_sjob q \<Longrightarrow> P (Db q r)) \<Longrightarrow> emits P (lan_pending sid a b)"
  unfolding lan_pending_def by (intro frame_intros)

lemma emits_wan_path [frame_intros]:
  assumes "\<And>u x r. P (Http (HPostForm u x) r)" "\<And>u a b x r. P (Http (HPostAuth u a b x) r)"
    "\<And>u a b r. P (Http (HPut u a b) r)" "\<And>u a b r. P (Http (HDel u a b) r)" "\<And>n. P (Sleep n)"
  shows "emits P (setup_wan_path a b x sv dv)" "(\<And>q r. on_sjob q \<Longrightarrow> P (Db q r)) \<Longrightarrow> emits P (teardown_wan_path sid uuid)"
  unfolding setup_wan_path_def teardown_wan_path_def by (intro frame_intros assms; simp)+

lemma emits_network [frame_intros]:
  assumes "\<And>q r. P (Http q r)" "\<And>q r. on_sjob q \<Longrightarrow> P (Db q r)" "\<And>n. P (Sleep n)"
  shows "emits P (setup_sdn_path sid a b x pp i j)" "emits P (teardown_sdn_path sid a b)"
    "emits P (verify_path a b)" "emits P (network_handling sid a b)"
  unfolding setup_sdn_path_def teardown_sdn_path_def teardown_side_def verify_path_def network_handling_def network_sdn_def
  by (intro frame_intros emits_attempts assms; (simp; fail)?)+

end
