(* ===== verification/Network_Props.thy ===== *)
theory Network_Props
  imports Network_Path
begin

text \<open>
  What the network operations of the scheduler promise: the ping loop of \<open>verify_path\<close>, the SDN paths that
  \<open>setup_sdn_path\<close> installs and \<open>teardown_sdn_path\<close> releases, and the WAN path of \<open>setup_wan_path\<close>. All are
  statements about the events an operation adds to the log, for every environment.
\<close>

section \<open>Reading the log\<close>

fun sent :: "json \<Rightarrow> event \<Rightarrow> bool" where
  "sent m (Http (HPost u x) r) \<longleftrightarrow> x = m"
| "sent m e \<longleftrightarrow> False"

fun reply :: "event \<Rightarrow> json option" where
  "reply (Http q (Inr (c, r))) = Some r"
| "reply e = None"

definition code_of :: "json \<Rightarrow> int option" where
  "code_of r = Option.bind (jget r [K ''code'']) asInt"

definition code_ok :: "event \<Rightarrow> bool" where
  "code_ok e \<longleftrightarrow> Option.bind (reply e) code_of = Some 0"

fun cmd_of :: "event \<Rightarrow> string option" where
  "cmd_of (Http (HPost u m) r) = Option.bind (jget m [K ''cmd'']) asString"
| "cmd_of e = None"

text \<open>The path id a site reports for an installed path, and the path id a release request names.\<close>

definition installed :: "json \<Rightarrow> int option" where
  "installed r =
     (if code_of r = Some 0 \<and> Option.bind (jget r [K ''sdn'']) (\<lambda>j. isMember j ''InstalledPathId'') = Some True
      then Option.bind (jget r [K ''sdn'', K ''InstalledPathId'']) asInt else None)"

definition install_of :: "event \<Rightarrow> int option" where
  "install_of e = (if cmd_of e = Some ''sdn_reserve_request'' then Option.bind (reply e) installed else None)"

fun release_of :: "event \<Rightarrow> int option" where
  "release_of (Http (HPost u m) r) =
     (if cmd_of (Http (HPost u m) r) = Some ''sdn_release_request''
      then Option.bind (jget m [K ''params'', K ''installedPathId'']) asInt else None)"
| "release_of e = None"

definition installs :: "event list \<Rightarrow> int list" where
  "installs l = List.map_filter install_of l"

definition releases :: "event list \<Rightarrow> int list" where
  "releases l = List.map_filter release_of l"

definition path_event :: "event \<Rightarrow> bool" where
  "path_event e \<longleftrightarrow> cmd_of e = Some ''sdn_reserve_request'' \<or> cmd_of e = Some ''sdn_release_request''"

lemma code_of_jobj [simp]: "code_of (jobj [(''code'', c)]) = asInt c" "code_of (jobj [(''code'', c), (''error'', e)]) = asInt c"
  by (simp_all add: code_of_def)

lemma int_range [simp]: "minInt \<le> 0" "0 \<le> maxInt" "minInt \<le> - 1" "- 1 \<le> maxInt" "minInt \<le> - 2" "- 2 \<le> maxInt"
  by (simp_all add: minInt_def maxInt_def)

lemma map_filter_mono_filter: "(\<And>e. f e \<noteq> None \<Longrightarrow> Q e) \<Longrightarrow> List.map_filter f (filter Q l) = List.map_filter f l"
  by (induction l) (auto simp: List.map_filter_simps split: option.splits)

lemma path_event_of: "install_of e \<noteq> None \<Longrightarrow> path_event e" "release_of e \<noteq> None \<Longrightarrow> path_event e"
  by (auto simp: install_of_def path_event_def split: if_splits) (cases e rule: release_of.cases; auto split: if_splits)

lemma installs_filter [simp]: "installs (filter path_event l) = installs l" "releases (filter path_event l) = releases l"
  unfolding installs_def releases_def by (rule map_filter_mono_filter, erule path_event_of)+

lemma installs_simps [simp]:
  "installs [] = []" "installs (e # l) = (case install_of e of None \<Rightarrow> installs l | Some p \<Rightarrow> p # installs l)"
  "releases [] = []" "releases (e # l) = (case release_of e of None \<Rightarrow> releases l | Some p \<Rightarrow> p # releases l)"
  "installs (k @ l) = installs k @ installs l" "releases (k @ l) = releases k @ releases l"
  by (simp_all add: installs_def releases_def List.map_filter_def split: option.splits)

lemma sees_then_command:
  assumes "\<And>c r. sees Q (f (c, r)) (\<lambda>b k. \<Psi> b (filter Q [Http (HPost (''https://'' @ url @ ''/bde/command'') params) (Inr (c, r))] @ k))"
  shows "sees Q (bind_a (post_command url params) f) \<Psi>"
  unfolding post_command_def
  by (rule sees_bind [where \<Phi> = "\<lambda>a k. k = filter Q [Http (HPost (''https://'' @ url @ ''/bde/command'') params) (Inr a)]"], rule sees_http)
    (use assms in \<open>auto simp: split_paired_all\<close>)

section \<open>The ping loop\<close>

definition ping_rounds :: "nat \<Rightarrow> json \<Rightarrow> event list \<Rightarrow> bool" where
  "ping_rounds n res k \<longleftrightarrow> k \<noteq> [] \<and> length k \<le> n \<and> list_all (\<lambda>e. \<not> code_ok e) (butlast k) \<and>
     (if code_ok (last k) then code_of res = Some 0 else code_of res \<noteq> Some 0 \<and> length k = n)"

lemma ping_rounds_cons: "ping_rounds n res k \<Longrightarrow> \<not> code_ok e \<Longrightarrow> ping_rounds (Suc n) res (e # k)"
  by (auto simp: ping_rounds_def)

lemma verify_attempts_log: "sees (sent msg) (verify_attempts url msg n) (ping_rounds n)"
proof (induction n)
  case 0
  show ?case by (simp only: verify_attempts.simps) (rule sees_throw)
next
  case (Suc n)
  show ?case unfolding verify_attempts.simps
    apply (rule sees_then_command)
    apply (simp only: prod.case)
    apply (intro sees_skip_val sees_if sees_ret frame_intros)
    subgoal by (auto dest!: json_act_val simp: ping_rounds_def code_ok_def code_of_def)
    subgoal by simp
    subgoal premises p
      by (rule sees_mono [OF Suc]) (use p in \<open>auto dest!: json_act_val intro!: ping_rounds_cons simp: code_ok_def code_of_def\<close>)
    subgoal by (auto dest!: json_act_val simp: ping_rounds_def code_ok_def code_of_def)
    done
qed

lemma verify_path_log:
  assumes "Option.bind (jget src_dtn [K ''wan_uuid'']) asString = Some uuid"
    and "jget src_dtn [K ''id''] = Some i" and "jget dst_dtn [K ''data_ip''] = Some ip"
  shows "sees (sent (ping_message i ip)) (verify_path src_dtn dst_dtn) (ping_rounds (if uuid = [] then 5 else 30))"
  unfolding verify_path_def
  unfolding json_act_known(2) [OF assms(1)] json_act_known(1) [OF assms(2)] json_act_known(1) [OF assms(3)] bind_ret_a
  by (intro sees_skip frame_intros verify_attempts_log)

section \<open>SDN paths\<close>

definition attempts_ok :: "nat \<Rightarrow> string + int \<Rightarrow> event list \<Rightarrow> bool" where
  "attempts_ok n r k \<longleftrightarrow> length k \<le> n \<and> releases k = [] \<and>
     (case r of Inl err \<Rightarrow> length k = n \<and> installs k = [] | Inr pid \<Rightarrow> installs k = [pid])"

lemma installed_check:
  assumes "(if code = 0 then bind_a (jget_a r [K ''sdn'']) (\<lambda>sdn. is_member_a sdn ''InstalledPathId'') else ret_a False) s = (Inr ok, t)"
    and "code_of r = Some code"
  shows "ok \<longleftrightarrow> code_of r = Some 0 \<and> Option.bind (jget r [K ''sdn'']) (\<lambda>j. isMember j ''InstalledPathId'') = Some True"
  using assms
  by (auto simp: is_member_a_def opt_r_def split: if_splits option.splits elim!: bind_a_InrE dest!: json_act_val)

lemma install_of_reply:
  "Option.bind (jget msg [K ''cmd'']) asString = Some ''sdn_reserve_request'' \<Longrightarrow>
   install_of (Http (HPost u msg) (Inr (c, r))) = installed r \<and> release_of (Http (HPost u msg) (Inr (c, r))) = None"
  by (simp add: install_of_def)

lemma attempts_ok_once: "path_event e \<Longrightarrow> release_of e = None \<Longrightarrow> install_of e = Some pid \<Longrightarrow> attempts_ok (Suc n) (Inr pid) [e]"
  "path_event e \<Longrightarrow> release_of e = None \<Longrightarrow> install_of e = None \<Longrightarrow> attempts_ok 1 (Inl err) [e]"
  "attempts_ok n r k \<Longrightarrow> release_of e = None \<Longrightarrow> install_of e = None \<Longrightarrow> attempts_ok (Suc n) r (e # k)"
  by (auto simp: attempts_ok_def split: sum.splits)

lemma sdn_attempts_log:
  assumes "Option.bind (jget msg [K ''cmd'']) asString = Some ''sdn_reserve_request''"
  shows "sees path_event (sdn_attempts sid lan setup url what msg n) (attempts_ok n)"
proof (induction n)
  case 0
  show ?case by (simp only: sdn_attempts.simps) (rule sees_throw)
next
  case (Suc n)
  have p: "path_event (Http (HPost u msg) r)" for u r using assms by (simp add: path_event_def)
  have skip: "\<not> path_event (Db q r)" "\<not> path_event (Sleep i)" for q r i by (simp_all add: path_event_def)
  note e = install_of_reply [OF assms]
  show ?case unfolding sdn_attempts.simps
    apply (rule sees_skip, intro frame_intros skip, rule sees_then_command, unfold prod.case)
    apply (rule sees_skip_val, intro frame_intros, drule json_act_val, fold code_of_def)
    apply (rule sees_skip_val, intro frame_intros, drule (1) installed_check)
    apply (intro sees_skip_val sees_if sees_ret frame_intros skip)
    subgoal by (auto intro!: frame_intros skip)
    subgoal by (drule json_act_val, simp add: p del: jget.simps)
        (rule attempts_ok_once(1); simp add: p e assms installed_def del: jget.simps)
    subgoal by (rule sees_mono [OF Suc], simp add: p del: jget.simps)
        (erule attempts_ok_once(3); auto simp: p e assms installed_def simp del: jget.simps)
    subgoal by (simp add: p del: jget.simps) (rule attempts_ok_once(2) [simplified]; auto simp: p e assms installed_def simp del: jget.simps)
    done
qed

lemma no_path_event [simp]:
  "\<not> path_event (Db q r)" "\<not> path_event (Sleep i)" "\<not> path_event (Rpc k m i x)" "\<not> path_event (Http (HPostForm u v) z)"
  "\<not> path_event (Http (HPostAuth u v v' j) z)" "\<not> path_event (Http (HPut u v v') z)" "\<not> path_event (Http (HDel u v v') z)"
  "\<not> path_event (Http (HPost u (ping_message j ip)) z)"
  by (simp_all add: path_event_def ping_message_def)

lemma sdn_message_cmd:
  "sdn_message own peer vlan oscar rate s = (Inr msg, t) \<Longrightarrow>
   Option.bind (jget msg [K ''cmd'']) asString = Some ''sdn_reserve_request''"
  by (auto simp: sdn_message_def elim!: bind_a_InrE)

text \<open>The reported path ids are exactly the paths the two sites have installed.\<close>

definition paths_reported :: "json \<Rightarrow> event list \<Rightarrow> bool" where
  "paths_reported res k \<longleftrightarrow> releases k = [] \<and> (\<exists>sp dp err.
     res = sdn_result sp dp 0 err \<and> installs k = [sp, dp] \<and> length k \<le> 6 \<or>
     res = sdn_result (- 1) (- 1) (- 1) err \<and> installs k = [] \<and> length k = 3 \<or>
     res = sdn_result sp (- 1) (- 2) err \<and> installs k = [sp] \<and> length k \<le> 6)"

lemma paths_reported_cases:
  "attempts_ok 3 (Inl err) k \<Longrightarrow> paths_reported (sdn_result (- 1) (- 1) (- 1) err) k"
  "attempts_ok 3 (Inr p) k \<Longrightarrow> attempts_ok 3 (Inl err) k' \<Longrightarrow> paths_reported (sdn_result p (- 1) (- 2) err) (k @ k')"
  "attempts_ok 3 (Inr p) k \<Longrightarrow> attempts_ok 3 (Inr q) k' \<Longrightarrow> paths_reported (sdn_result p q 0 err) (k @ k')"
  unfolding attempts_ok_def paths_reported_def by auto

lemma sees_sdn_message:
  "(\<And>msg. Option.bind (jget msg [K ''cmd'']) asString = Some ''sdn_reserve_request'' \<Longrightarrow> sees Q (f msg) \<Psi>) \<Longrightarrow>
   sees Q (bind_a (sdn_message own peer vlan oscar rate) f) \<Psi>"
  by (rule sees_skip_val) (intro frame_intros, blast dest: sdn_message_cmd)

lemma setup_sdn_path_log:
  "sees path_event (setup_sdn_path sid src_dtn dst_dtn rate pre_ping oscar_src oscar_dst) paths_reported"
  unfolding setup_sdn_path_def
  apply ((rule sees_sdn_message | (rule sees_skip, (intro frame_intros no_path_event; fail)))+)
  apply (erule sees_bind [OF sdn_attempts_log])
  subgoal for _ _ _ _ _ _ _ _ p
    apply (cases p; hypsubst, unfold sum.case)
    subgoal by (rule sees_ret) (simp add: paths_reported_cases(1))
    apply (rule sees_sdn_message, erule sees_bind [OF sdn_attempts_log])
    subgoal for _ _ q
      apply (cases q; hypsubst, unfold sum.case)
      subgoal by (rule sees_ret) (simp add: paths_reported_cases(2))
      subgoal by (rule sees_ret) (simp add: paths_reported_cases(3))
      done
    done
  done

definition path_of :: "json \<Rightarrow> int option" where
  "path_of dtn = Option.bind (jget dtn [K ''path_id'']) asInt"

definition live :: "int list \<Rightarrow> int list" where
  "live ps = filter (\<lambda>p. p \<noteq> - 1) ps"

lemma live_simps [simp]: "live [] = []" "live (p # ps) = (if p = - 1 then live ps else p # live ps)" "live (ps @ qs) = live ps @ live qs"
  by (simp_all add: live_def)

lemma teardown_side_log:
  "sees path_event (teardown_side sid lan url own peer) (\<lambda>_ k. \<exists>pid. path_of own = Some pid \<and> installs k = [] \<and> releases k = live [pid])"
  unfolding teardown_side_def
  apply (rule sees_skip_val, (intro frame_intros; fail), drule json_act_val)
  apply (rule sees_if, rule sees_ret, simp add: path_of_def)
  apply (rule sees_skip, (intro frame_intros no_path_event; fail), rule sees_skip, (intro frame_intros no_path_event; fail))
  apply (rule sees_skip_val, (intro frame_intros; fail), drule json_act_val)
  apply (rule sees_skip, (intro frame_intros; fail), rule sees_skip, (intro frame_intros; fail))
  apply (rule sees_then_command, rule sees_end, (intro frame_intros no_path_event; fail))
  by (simp add: path_event_def release_message_def path_of_def install_of_def)

lemma teardown_sdn_path_log:
  "sees path_event (teardown_sdn_path sid src_dtn dst_dtn) (\<lambda>r k. r = 0 \<and> (\<exists>sp dp.
     path_of src_dtn = Some sp \<and> path_of dst_dtn = Some dp \<and> installs k = [] \<and> releases k = live [sp, dp]))"
  unfolding teardown_sdn_path_def
  apply ((rule sees_skip, (intro frame_intros no_path_event; fail))+)
  apply (rule sees_bind [OF teardown_side_log], rule sees_bind [OF teardown_side_log], rule sees_ret)
  by (auto simp del: live_simps) auto

text \<open>The same for the result of \<open>network_handling\<close>: it names every path that is still installed.\<close>

definition net_paths :: "json \<Rightarrow> event list \<Rightarrow> bool" where
  "net_paths res k \<longleftrightarrow> releases k = [] \<and> (\<exists>sp dp. jget res [K ''src_sdn_path_id''] = Some (JInt sp) \<and>
     jget res [K ''dst_sdn_path_id''] = Some (JInt dp) \<and> live (installs k) = live [sp, dp])"

lemma net_result_paths:
  assumes "''src_sdn_path_id'' \<notin> fst ` set extra_fields" and "''dst_sdn_path_id'' \<notin> fst ` set extra_fields"
  shows "jget (net_result code err uuid sp dp extra_fields) [K ''src_sdn_path_id''] = Some sp"
    "jget (net_result code err uuid sp dp extra_fields) [K ''dst_sdn_path_id''] = Some dp"
proof -
  have "map_of (rev extra_fields) ''src_sdn_path_id'' = None" "map_of (rev extra_fields) ''dst_sdn_path_id'' = None"
    using assms by (simp_all add: map_of_eq_None_iff)
  then show "jget (net_result code err uuid sp dp extra_fields) [K ''src_sdn_path_id''] = Some sp"
    "jget (net_result code err uuid sp dp extra_fields) [K ''dst_sdn_path_id''] = Some dp"
    unfolding net_result_def jget.simps at_key_jobj by (simp_all add: map_add_def)
qed

lemma network_sdn_log:
  assumes "''src_sdn_path_id'' \<notin> fst ` set extra_fields" and "''dst_sdn_path_id'' \<notin> fst ` set extra_fields"
  shows "sees path_event (network_sdn sid src_dtn dst_dtn uuid extra_fields max_bw i j) net_paths"
  unfolding network_sdn_def
  apply (rule sees_skip, (intro frame_intros no_path_event; fail))
  apply (rule sees_bind [OF setup_sdn_path_log])
  apply (rule sees_skip_val, (intro frame_intros; fail), drule json_act_val, rule sees_skip_val, (intro frame_intros; fail), drule json_act_val)
  apply ((rule sees_skip, (intro frame_intros; fail))+)
  apply (intro sees_if sees_ret)
  by (auto simp: net_paths_def net_result_paths [OF assms] paths_reported_def sdn_result_def simp del: jget.simps live_simps) auto

lemma network_handling_log: "sees path_event (network_handling sid src_dtn dst_dtn) net_paths"
  unfolding network_handling_def
  apply ((rule sees_skip, (intro frame_intros; fail))+)
  apply (rule sees_case_option)
  subgoal
    apply (rule sees_skip, (intro frame_intros; fail))
    apply (rule sees_case_option)
    subgoal by (intro sees_skip sees_ret frame_intros no_path_event) (simp add: net_paths_def, simp add: net_result_def)
    apply (rule sees_case_prod)
    apply ((rule sees_skip, (intro frame_intros no_path_event; fail))+)
    apply (rule sees_if)
    subgoal by (intro sees_skip sees_ret frame_intros no_path_event) (simp add: net_paths_def, simp add: net_result_def)
    apply ((rule network_sdn_log | rule sees_skip, (intro frame_intros no_path_event; fail))+)
    apply auto
    done
  apply (rule sees_case_prod, rule sees_case_prod)
  apply ((rule network_sdn_log | rule sees_skip, (intro frame_intros no_path_event; fail))+)
  apply simp_all
  done

section \<open>The WAN path\<close>

text \<open>The commands to the WAN controller that come after the reservation.\<close>

fun wan_cmd :: "event \<Rightarrow> bool" where
  "wan_cmd (Http (HPut u a b) r) \<longleftrightarrow> True"
| "wan_cmd (Http (HDel u a b) r) \<longleftrightarrow> True"
| "wan_cmd e \<longleftrightarrow> False"

lemma sees_retry_loop:
  assumes "sees Q attempt (\<lambda>_ k. \<exists>e. k = [e] \<and> P e)" and "\<not> Q (Sleep 10)"
  shows "sees Q (retry_loop attempt n) (\<lambda>_ k. length k \<le> n \<and> list_all P k \<and> (0 < n \<longrightarrow> k \<noteq> []))"
proof (induction n)
  case 0
  show ?case by (simp only: retry_loop.simps) (rule sees_ret, simp)
next
  case (Suc n)
  show ?case unfolding retry_loop.simps
    apply (rule sees_bind [OF assms(1)], rule sees_if, rule sees_ret, force)
    apply (rule sees_skip, (intro frame_intros assms(2)), rule sees_mono [OF Suc], auto)
    done
qed

lemma wan_delete_once_log:
  "sees wan_cmd (wan_delete_once uuid) (\<lambda>c k. \<exists>e. k = [e] \<and> is_delete (''/'' @ uuid) e \<and> answered c e)"
  unfolding wan_delete_once_def
  apply (rule sees_skip, (intro frame_intros; simp), rule sees_skip, (intro frame_intros), rule sees_case_prod)
  apply (rule sees_bind [where \<Phi> = "\<lambda>a k. \<exists>e. k = [e] \<and> is_delete (''/'' @ uuid) e \<and> answered (fst a) e"])
   apply (rule sees_http, auto simp: answered_def simp del: append_Cons intro!: sees_ret)
  done

lemma wan_put_seen:
  "sees wan_cmd (wan_put p) (\<lambda>c k. \<exists>e. k = [e] \<and> is_put p e \<and> answered c e)"
  unfolding wan_put_def
  apply (rule sees_skip, (intro frame_intros; simp), rule sees_skip, (intro frame_intros), rule sees_case_prod)
  apply (rule sees_bind [where \<Phi> = "\<lambda>a k. \<exists>e. k = [e] \<and> is_put p e \<and> answered (fst a) e"])
   apply (rule sees_http, auto simp: answered_def simp del: append_Cons intro!: sees_ret)
  done

lemma wan_commit_log:
  "sees wan_cmd (wan_commit uuid) (\<lambda>ok k. \<exists>e. k = [e] \<and> is_put (''/'' @ uuid @ ''/commit'') e \<and> (ok \<longleftrightarrow> answered 200 e))"
  unfolding wan_commit_def
  by (rule sees_bind [OF wan_put_seen], rule sees_ret) (auto simp: answered_def)

lemma wan_del_log:
  "sees wan_cmd (wan_del uuid 5) (\<lambda>_ k. k \<noteq> [] \<and> length k \<le> 4 \<and> list_all (is_delete (''/'' @ uuid)) k)"
  unfolding wan_del_def
  by (rule sees_mono [OF sees_retry_loop [where P = "is_delete (''/'' @ uuid)", OF sees_mono [OF wan_delete_once_log]]]) auto

text \<open>How the result of \<open>setup_wan_path\<close> tells what happened at the controller.\<close>

definition wan_outcome :: "json \<Rightarrow> event list \<Rightarrow> bool" where
  "wan_outcome res k \<longleftrightarrow> (\<exists>uuid e d.
     code_of res = Some 300 \<and> jget res [K ''wan_uuid''] = Some (JStr []) \<and> k = [] \<or>
     uuid \<noteq> [] \<and> (
       code_of res = Some 0 \<and> jget res [K ''wan_uuid''] = Some (JStr uuid) \<and> k = [e] \<and>
         is_put (''/'' @ uuid @ ''/commit'') e \<and> answered 200 e \<or>
       d \<noteq> [] \<and> length d \<le> 4 \<and> list_all (is_delete (''/'' @ uuid)) d \<and> jget res [K ''wan_uuid''] = Some (JStr []) \<and>
         (code_of res = Some 301 \<and> k = d \<or>
          code_of res = Some 302 \<and> k = e # d \<and> is_put (''/'' @ uuid @ ''/commit'') e \<and> \<not> answered 200 e)))"

lemma setup_wan_path_log: "sees wan_cmd (setup_wan_path src_dtn dst_dtn bandwidth sv dv) wan_outcome"
  unfolding setup_wan_path_def Let_def
  apply ((rule sees_skip, (intro frame_intros wan_cmd.simps; simp; fail))+)
  apply (rule sees_if)
  subgoal by (rule sees_ret) (simp add: wan_outcome_def code_of_def minInt_def maxInt_def)
  apply ((rule sees_skip, (intro frame_intros; simp; fail))+)
  apply (rule sees_if)
  subgoal
    by (rule sees_bind [OF wan_del_log], rule sees_ret)
      (auto simp: wan_outcome_def code_of_def minInt_def maxInt_def)
  apply ((rule sees_skip, (intro frame_intros; simp; fail))+)
  apply (rule sees_bind [OF wan_commit_log], rule sees_if)
  subgoal
    by (rule sees_bind [OF wan_del_log], rule sees_ret)
      (auto simp: wan_outcome_def code_of_def minInt_def maxInt_def)
  subgoal by (rule sees_ret) (auto simp: wan_outcome_def code_of_def)
  done

section \<open>Properties\<close>

text \<open>
  An environment that answers HTTP requests from a script, and two DTN documents as the portals report
  them.
\<close>

definition script_env :: "(int \<times> json) list env" where
  "script_env = \<lparr>e_http = \<lambda>q w. (case w of [] \<Rightarrow> (Inr (503, JNull), []) | a # w' \<Rightarrow> (Inr a, w')), e_db = \<lambda>q w. (Inr [], w),
     e_rpc = \<lambda>k m t w. (Inr JNull, w), e_now = \<lambda>w. (0, w), e_rand = \<lambda>w. (4, w)\<rparr>"

definition demo_dtn :: "string \<Rightarrow> int \<Rightarrow> json" where
  "demo_dtn name path = jobj
     [(''id'', JStr name), (''data_ip'', JStr ''10.0.0.1''), (''data_mac'', JStr ''aa:bb''), (''sdn_setup'', JBool False),
      (''data_vlan_id'', JInt 10), (''site'', jobj [(''url'', JStr ''s''), (''abbrev'', JStr ''s'')]), (''wan_uuid'', JStr []),
      (''path_id'', JInt path)]"

definition installed_reply :: "int \<Rightarrow> int \<times> json" where
  "installed_reply p = (200, jobj [(''code'', JInt 0), (''sdn'', jobj [(''InstalledPathId'', JInt p)])])"

lemmas script_exec = server_exec script_env_def demo_dtn_def installed_reply_def post_command_def is_member_a_def

text \<open>
  Verifying a path pings the peer at most 5 times on a path without a WAN circuit and at most 30 times
  on one with a circuit. It stops at the first ping the site answers with code 0 (a missing code reads as
  0), and then reports code 0; it reports another code exactly when all the pings have failed.
\<close>

lemma verify_path_rounds:
  assumes "verify_path src_dtn dst_dtn s = (Inr res, t)"
    and "Option.bind (jget src_dtn [K ''wan_uuid'']) asString = Some uuid"
    and "jget src_dtn [K ''id''] = Some i" and "jget dst_dtn [K ''data_ip''] = Some ip"
  shows "\<exists>l. s_log t = s_log s @ l \<and> ping_rounds (if uuid = [] then 5 else 30) res (filter (sent (ping_message i ip)) l)"
  using seesD [OF verify_path_log [OF assms(2-4)] assms(1)] .

lemma verify_path_rounds_witness:
  "\<exists>res t. verify_path (demo_dtn ''a'' 1) (demo_dtn ''b'' 2)
       (server_in script_env [(200, jobj [(''code'', JInt 1)]), (200, jobj [(''code'', JInt 0)])]) = (Inr res, t) \<and>
     ping_rounds 5 res (filter (sent (ping_message (JStr ''a'') (JStr ''10.0.0.1''))) (s_log t))"
proof -
  let ?s = "server_in script_env [(200, jobj [(''code'', JInt 1)]), (200, jobj [(''code'', JInt 0)])]"
  have "\<not> isl (fst (verify_path (demo_dtn ''a'' 1) (demo_dtn ''b'' 2) ?s))"
    by (simp add: verify_path_def script_exec numeral_eq_Suc bind_a_run minInt_def maxInt_def cong: bind_a_lazy)
  then obtain res t where t: "verify_path (demo_dtn ''a'' 1) (demo_dtn ''b'' 2) ?s = (Inr res, t)" by (rule returnsE)
  have "s_log ?s = []" by (simp add: server_in_def)
  with verify_path_rounds [OF t, of "[]" "JStr ''a''" "JStr ''10.0.0.1''"] have
    "ping_rounds 5 res (filter (sent (ping_message (JStr ''a'') (JStr ''10.0.0.1''))) (s_log t))"
    by (auto simp: demo_dtn_def)
  with t show ?thesis by blast
qed

text \<open>
  \<open>setup_sdn_path\<close> loses no path. The path ids in its result are exactly those of the paths the two sites
  have installed for it: both with code 0, only the one of the source with code -2, none with code -1,
  after three refused requests. It never releases a path, and sends at most three requests per site.
\<close>

lemma setup_sdn_path_reports:
  assumes "setup_sdn_path sid src_dtn dst_dtn rate pre_ping oscar_src oscar_dst s = (Inr res, t)"
  shows "\<exists>l. s_log t = s_log s @ l \<and> paths_reported res (filter path_event l)"
  using seesD [OF setup_sdn_path_log assms] .

lemma setup_sdn_path_reports_witness:
  "\<exists>res t. setup_sdn_path ''j'' (demo_dtn ''a'' (- 1)) (demo_dtn ''b'' (- 1)) 10 False 7 8
       (server_in script_env [installed_reply 41, (503, JNull), installed_reply 42]) = (Inr res, t) \<and>
     paths_reported res (filter path_event (s_log t))"
proof -
  let ?s = "server_in script_env [installed_reply 41, (503, JNull), installed_reply 42]"
  have "\<not> isl (fst (setup_sdn_path ''j'' (demo_dtn ''a'' (- 1)) (demo_dtn ''b'' (- 1)) 10 False 7 8 ?s))"
    by (simp add: setup_sdn_path_def sdn_message_def script_exec numeral_eq_Suc bind_a_run has_key_def minInt_def maxInt_def cong: bind_a_lazy)
  then obtain res t where t: "setup_sdn_path ''j'' (demo_dtn ''a'' (- 1)) (demo_dtn ''b'' (- 1)) 10 False 7 8 ?s = (Inr res, t)"
    by (rule returnsE)
  have "s_log ?s = []" by (simp add: server_in_def)
  with setup_sdn_path_reports [OF t] have "paths_reported res (filter path_event (s_log t))" by auto
  with t show ?thesis by blast
qed

text \<open>
  \<open>teardown_sdn_path\<close> asks for the release of exactly the paths recorded in the two DTN documents, the one
  of the source first; the id -1 stands for no path.
\<close>

lemma teardown_sdn_path_releases:
  assumes "teardown_sdn_path sid src_dtn dst_dtn s = (Inr r, t)"
    and "path_of src_dtn = Some sp" and "path_of dst_dtn = Some dp"
  shows "\<exists>l. s_log t = s_log s @ l \<and> r = 0 \<and> installs l = [] \<and> releases l = filter (\<lambda>p. p \<noteq> - 1) [sp, dp]"
  using seesD [OF teardown_sdn_path_log assms(1)] assms(2,3) by (auto simp: live_def)

lemma teardown_sdn_path_releases_witness:
  "\<exists>t. teardown_sdn_path ''j'' (demo_dtn ''a'' 41) (demo_dtn ''b'' (- 1)) (server_in script_env []) = (Inr 0, t) \<and>
     releases (s_log t) = [41]"
proof -
  let ?s = "server_in script_env []"
  have "\<not> isl (fst (teardown_sdn_path ''j'' (demo_dtn ''a'' 41) (demo_dtn ''b'' (- 1)) ?s))"
    by (simp add: teardown_sdn_path_def teardown_side_def store_updates script_exec bind_a_run minInt_def maxInt_def cong: bind_a_lazy)
  then obtain r t where t: "teardown_sdn_path ''j'' (demo_dtn ''a'' 41) (demo_dtn ''b'' (- 1)) ?s = (Inr r, t)" by (rule returnsE)
  have "path_of (demo_dtn ''a'' 41) = Some 41" "path_of (demo_dtn ''b'' (- 1)) = Some (- 1)"
    by (simp_all add: path_of_def demo_dtn_def minInt_def maxInt_def)
  from teardown_sdn_path_releases [OF t this] have "r = 0 \<and> releases (s_log t) = [41]"
    by (auto simp: server_in_def)
  with t show ?thesis by auto
qed

text \<open>
  The result of \<open>setup_wan_path\<close> tells what happened at the WAN controller. Code 0 comes with the id of a
  path whose commit was answered with 200, and nothing was deleted; code 300 means that no path was
  created; on code 301 or 302 (reservation or commit refused) the path was asked to be deleted, at least
  once and at most four times, and no id is reported.
\<close>

lemma setup_wan_path_outcome:
  assumes "setup_wan_path src_dtn dst_dtn bandwidth src_vlan_s dst_vlan_s s = (Inr res, t)"
  shows "\<exists>l. s_log t = s_log s @ l \<and> wan_outcome res (filter wan_cmd l)"
  using seesD [OF setup_wan_path_log assms] .

definition stp_dtn :: "string \<Rightarrow> json" where
  "stp_dtn name = jobj [(''stp'', jobj [(''name'', JStr name)])]"

definition created_reply :: "int \<times> json" where
  "created_reply = (200, jobj [(''service_uuid'', JStr ''u1''), (''queries'', jarr [])])"

lemma setup_wan_path_outcome_witness:
  "\<exists>res t. setup_wan_path (stp_dtn ''p'') (stp_dtn ''q'') 10000 ''any'' ''any''
       (server_in script_env [(200, JNull), created_reply, (200, JNull), (500, JNull), (200, JNull), (200, JNull)]) = (Inr res, t) \<and>
     wan_outcome res (filter wan_cmd (s_log t))"
proof -
  let ?s = "server_in script_env [(200, JNull), created_reply, (200, JNull), (500, JNull), (200, JNull), (200, JNull)]"
  have "\<not> isl (fst (setup_wan_path (stp_dtn ''p'') (stp_dtn ''q'') 10000 ''any'' ''any'' ?s))"
    by (simp add: setup_wan_path_def stp_dtn_def created_reply_def jarr_def wan_ops parse_create_def str_at_def script_exec bind_a_run
        numeral_eq_Suc Let_def cong: bind_a_lazy)
  then obtain res t where t: "setup_wan_path (stp_dtn ''p'') (stp_dtn ''q'') 10000 ''any'' ''any'' ?s = (Inr res, t)" by (rule returnsE)
  have "s_log ?s = []" by (simp add: server_in_def)
  with setup_wan_path_outcome [OF t] have "wan_outcome res (filter wan_cmd (s_log t))" by auto
  with t show ?thesis by blast
qed

text \<open>
  An unreachable site passes for a verified path. When the portal of the source site cannot be reached,
  \<open>Portal::post\<close> returns a null document, whose code reads as 0, and \<open>verify_path\<close> reports success.
\<close>

lemma verify_path_unreachable:
  assumes "\<And>q w. e_http (s_env s) q w = (Inr (0, JNull), w)"
    and "Option.bind (jget src_dtn [K ''site'', K ''url'']) asString = Some src_url"
    and "Option.bind (jget dst_dtn [K ''site'', K ''url'']) asString = Some dst_url"
    and "jget src_dtn [K ''id''] = Some i" and "jget dst_dtn [K ''data_ip''] = Some ip"
    and "Option.bind (jget src_dtn [K ''wan_uuid'']) asString = Some uuid"
  shows "\<exists>t. verify_path src_dtn dst_dtn s = (Inr (jobj [(''code'', JInt 0)]), t)"
proof -
  obtain n where n: "(if uuid = [] then 5 else 30) = Suc n" by (metis Suc_numeral numeral_eq_Suc)
  show ?thesis
    unfolding verify_path_def json_act_known(2) [OF assms(2)] json_act_known(2) [OF assms(3)] json_act_known(1) [OF assms(4)]
      json_act_known(1) [OF assms(5)] json_act_known(2) [OF assms(6)] bind_ret_a n verify_attempts.simps
    by (simp add: post_command_def http_def assms(1) json_acts bind_a_def)
qed

lemma verify_path_unreachable_witness:
  "\<exists>t. verify_path (demo_dtn ''a'' 1) (demo_dtn ''b'' 2) (server_in (script_env\<lparr>e_http := \<lambda>q w. (Inr (0, JNull), w)\<rparr>) []) =
     (Inr (jobj [(''code'', JInt 0)]), t)"
  by (rule verify_path_unreachable) (simp_all add: server_in_def demo_dtn_def)

section \<open>The chosen pair\<close>

definition pair_of :: "json \<Rightarrow> json \<Rightarrow> bool" where
  "pair_of r_dst res \<longleftrightarrow> code_of res \<noteq> Some 0 \<or>
     jget res [K ''src_storage''] = jget r_dst [K ''storage''] \<and> jget res [K ''dst_storage''] = Some JNull"

lemma pick_pair_storage: "pick_pair r_src r_dst which private s = (Inr res, t) \<Longrightarrow> pair_of r_dst res"
  unfolding pick_pair_def pair_of_def
  by (auto elim!: bind_a_InrE dest!: json_act_val)

lemma no_pair: "c \<noteq> 0 \<Longrightarrow> pair_of r_dst (jobj [(''code'', JInt c), (''error'', e)])"
  by (simp add: pair_of_def code_of_def)

lemma choose_pair_storage: "choose_pair r_src r_dst s = (Inr res, t) \<Longrightarrow> pair_of r_dst res"
  unfolding choose_pair_def
  by (auto elim!: bind_a_InrE split: if_splits simp: no_pair simp del: jobj_simps) (erule pick_pair_storage)+

lemma pair_of_set:
  assumes "pair_of r_dst res" and "jset [K f, K ''site''] v res = Some res'"
    and f: "''code'' \<noteq> f" "''src_storage'' \<noteq> f" "''dst_storage'' \<noteq> f"
  shows "pair_of r_dst res'"
proof -
  have "jget res' [K k] = jget res [K k]" if "k \<noteq> f" for k
    using jget_jset_other [of "[]" "K f" "[K ''site'']" v res res' "K k" "[]"] assms(2) that by simp
  from this [OF f(1)] this [OF f(2)] this [OF f(3)] assms(1) show ?thesis by (simp only: pair_of_def code_of_def)
qed

lemma sees_then_command_all:
  assumes "\<And>c r u. sees Q (f (c, r)) (\<lambda>b k. \<Psi> b (filter Q [Http (HPost u params) (Inr (c, r))] @ k))"
  shows "sees Q (bind_a (post_command url params) f) \<Psi>"
  by (rule sees_then_command) (rule assms)

lemma find_pair_log:
  "sees (\<lambda>_. True) (find_best_effort_dtn_pair a b c d) (\<lambda>res k. \<exists>e e' r. k = [e, e'] \<and> reply e' = Some r \<and> pair_of r res)"
  unfolding find_best_effort_dtn_pair_def
  apply (rule sees_skip, (intro frame_intros), rule sees_skip, (intro frame_intros), rule sees_skip, (intro frame_intros),
      rule sees_skip, (intro frame_intros))
  apply (rule sees_then_command_all, unfold prod.case, rule sees_then_command_all, unfold prod.case)
  apply (intro sees_if)
  subgoal by (rule sees_ret) (simp add: no_pair del: jobj_simps)
  subgoal by (rule sees_ret) (simp add: no_pair del: jobj_simps)
  apply (rule sees_skip_val, unfold choose_pair_def pick_pair_def, (intro frame_intros), fold pick_pair_def, fold choose_pair_def)
  apply (drule choose_pair_storage, rule sees_skip, (intro frame_intros), rule sees_if)
  subgoal
    apply (rule sees_skip_val, (intro frame_intros), drule jset_a_val, drule (1) pair_of_set, simp, simp, simp)
    apply (subst bind_ret_a(2) [symmetric])
    apply (rule sees_skip_val, (intro frame_intros), drule jset_a_val, drule (1) pair_of_set, simp, simp, simp)
    by (rule sees_ret) simp
  subgoal by (rule sees_ret) simp
  done

text \<open>
  The storage of the destination takes the place of the storage of the source. Whenever
  \<open>find_best_effort_dtn_pair\<close> finds a pair, its \<open>src_storage\<close> is the storage the destination site reported in its
  answer, the second of the two requests, and there is no \<open>dst_storage\<close>.
\<close>

lemma pair_storage_overwritten:
  assumes "find_best_effort_dtn_pair src_id dst_id src_site dst_site s = (Inr res, t)" and "code_of res = Some 0"
  shows "\<exists>e e' r. s_log t = s_log s @ [e, e'] \<and> reply e' = Some r \<and>
    jget res [K ''src_storage''] = jget r [K ''storage''] \<and> jget res [K ''dst_storage''] = Some JNull"
  using seesD [OF find_pair_log assms(1)] assms(2) by (auto simp: pair_of_def simp del: jget.simps)

definition public_reply :: "string \<Rightarrow> int \<times> json" where
  "public_reply name = (200, jobj [(''public_dtns'', jarr [demo_dtn name 1]), (''storage'', JStr name)])"

lemma pair_storage_overwritten_witness:
  "\<exists>res t. find_best_effort_dtn_pair ''x'' ''y'' (jobj [(''url'', JStr ''p'')]) (jobj [(''url'', JStr ''q'')])
       (server_in script_env [public_reply ''a'', public_reply ''b'']) = (Inr res, t) \<and>
     jget res [K ''src_storage''] = Some (JStr ''b'') \<and> jget res [K ''dst_storage''] = Some JNull"
proof -
  let ?s = "server_in script_env [public_reply ''a'', public_reply ''b'']"
  have "case find_best_effort_dtn_pair ''x'' ''y'' (jobj [(''url'', JStr ''p'')]) (jobj [(''url'', JStr ''q'')]) ?s of
      (r, t) \<Rightarrow> (case r of Inl e \<Rightarrow> False | Inr res \<Rightarrow> code_of res = Some 0 \<and>
        Option.bind (reply (last (s_log t))) (\<lambda>r. jget r [K ''storage'']) = Some (JStr ''b''))"
    by (simp add: find_best_effort_dtn_pair_def choose_pair_def pick_pair_def script_exec public_reply_def jarr_def code_of_def jset_def
        jobj_reads bind_a_run jempty_def isNull_def isArray_def isObject_def del: jobj_simps cong: bind_a_lazy)
  then obtain res t where t: "find_best_effort_dtn_pair ''x'' ''y'' (jobj [(''url'', JStr ''p'')]) (jobj [(''url'', JStr ''q'')]) ?s = (Inr res, t)"
    "code_of res = Some 0" "Option.bind (reply (last (s_log t))) (\<lambda>r. jget r [K ''storage'']) = Some (JStr ''b'')"
    by (auto split: prod.splits sum.splits)
  from pair_storage_overwritten [OF t(1,2)] t show ?thesis by auto
qed

end
