(* ===== verification/Job_Schedule.thy ===== *)
theory Job_Schedule
  imports Network_Path
begin

text \<open>
  The periodic scheduling pass of \<open>src/server/scheduler.cc\<close>: \<open>schedule\<close> takes every active best-effort
  sjob without a flow, picks its first waiting block, pairs DTNs, sets the network up, verifies the
  path, records the flow and asks the launcher agent to start the transfer. \<open>schedule_clean_up\<close> is the
  common error exit. Debug copies of the launch command (\<open>ld_file\<close>) are not modelled.
\<close>

section \<open>The flow document\<close>

definition launch_auth :: "sched_conf \<Rightarrow> json \<Rightarrow> ('w, (string \<times> json) list) srv_act" where
  "launch_auth c rjob =
     (if ld_auth_password c then ret_a
        [(''usr_src'', JStr (ld_auth_usr c)), (''pwd_src'', JStr (ld_auth_pwd c)),
         (''usr_dst'', JStr (ld_auth_usr c)), (''pwd_dst'', JStr (ld_auth_pwd c)),
         (''cert_src'', JStr ''temp_src_cert''), (''cert_dst'', JStr ''temp_dst_cert''),
         (''key_src'', JStr ''temp_src_key''), (''key_dst'', JStr ''temp_dst_key''),
         (''url_scheme_src'', JInt 0), (''url_scheme_dst'', JInt 0)]
      else
        bind_a (jstr_a rjob [K ''src_certs'', K ''proxy_cert'']) (\<lambda>s1.
        bind_a (jstr_a rjob [K ''src_certs'', K ''proxy_key'']) (\<lambda>s2.
        bind_a (jstr_a rjob [K ''src_certs'', K ''user_cert'']) (\<lambda>s3.
        bind_a (jstr_a rjob [K ''dst_certs'', K ''proxy_cert'']) (\<lambda>d1.
        bind_a (jstr_a rjob [K ''dst_certs'', K ''proxy_key'']) (\<lambda>d2.
        bind_a (jstr_a rjob [K ''dst_certs'', K ''user_cert'']) (\<lambda>d3.
        ret_a
          [(''proxy_credential_src'', JStr (s1 @ s2 @ s3)), (''proxy_credential_dst'', JStr (d1 @ d2 @ d3)),
           (''url_scheme_src'', JInt 1), (''url_scheme_dst'', JInt 1)])))))))"

definition port_range :: json where
  "port_range = jobj [(''min'', JInt 5000), (''max'', JInt 6000)]"

definition prepare_flow :: "json \<Rightarrow> json \<Rightarrow> json \<Rightarrow> json \<Rightarrow> json \<Rightarrow> double \<Rightarrow> ('w, json) srv_act" where
  "prepare_flow rjob src_dtn dst_dtn src_storage dst_storage max_rate =
     bind_a guid_a (\<lambda>task.
     bind_a now_ms (\<lambda>start.
     bind_a (jget_a src_dtn [K ''ip'']) (\<lambda>ip_src.
     bind_a (jget_a dst_dtn [K ''ip'']) (\<lambda>ip_dst.
     bind_a (jget_a src_dtn [K ''dtp_ctrl_port'']) (\<lambda>port_src.
     bind_a (jget_a dst_dtn [K ''dtp_ctrl_port'']) (\<lambda>port_dst.
     bind_a (get_a s_conf) (\<lambda>c.
     bind_a (launch_auth c rjob) (\<lambda>auth.
     ret_a (jobj
       [(''state'', JInt (flow_state_int FL_scheduling)), (''type'', JStr ''best_effort''), (''task'', JStr task),
        (''srcstorage'', src_storage), (''dststorage'', dst_storage), (''srcdtn'', src_dtn), (''dstdtn'', dst_dtn),
        (''max_rate'', JReal max_rate), (''current_rate'', JReal 0), (''avg_rate'', JReal 0), (''tx_bytes'', JInt 0),
        (''start'', JInt start),
        (''launching'', jobj
           [(''cmd'', JStr ''launch''), (''target'', JStr ''launcher-agent''),
            (''params'', jobj
               ([(''task'', JStr task), (''ip_src'', ip_src), (''ip_dst'', ip_dst), (''port_src'', port_src), (''port_dst'', port_dst),
                 (''port_range_src'', port_range), (''port_range_dst'', port_range), (''files'', JArr [])] @ auth))])])))))))))"

section \<open>The error exit\<close>

definition schedule_clean_up :: "string \<Rightarrow> string \<Rightarrow> string \<Rightarrow> json \<Rightarrow> json \<Rightarrow> ('w, unit) srv_act" where
  "schedule_clean_up rjid sid error src_dtn dst_dtn =
     bind_a (update_sjob_stage sid ''teardown.general'' SG_working) (\<lambda>_.
     bind_a (if \<not> jempty src_dtn \<and> \<not> jempty dst_dtn then
               bind_a (teardown_sdn_path sid src_dtn dst_dtn) (\<lambda>res_sdn.
               bind_a (jstr_a src_dtn [K ''wan_uuid'']) (\<lambda>uuid.
               bind_a (teardown_wan_path sid uuid) (\<lambda>res_wan.
               update_sjob_stage sid ''teardown.general'' (if res_sdn \<noteq> 0 \<or> res_wan \<noteq> 0 then SG_error else SG_success))))
             else update_sjob_stage sid ''teardown.general'' SG_success) (\<lambda>_.
     seq_a
       [update_sjob_state sid SJ_error,
        update_rawjob_state rjid RJ_error,
        update_collection_field ''sjob'' sid ''error'' (JStr error),
        update_collection_field ''rawjob'' rjid ''error'' (JStr error)]))"

section \<open>Dispatching one block\<close>

text \<open>From the flow to the launch command (and what follows its answer).\<close>

definition launch_flow :: "string \<Rightarrow> string \<Rightarrow> json \<Rightarrow> json \<Rightarrow> json \<Rightarrow> json \<Rightarrow> ('w, unit) srv_act" where
  "launch_flow rjid sid block flow src_dtn dst_dtn =
     bind_a (jget_a flow [K ''launching'']) (\<lambda>launching.
     bind_a (jstr_a block [K ''id'']) (\<lambda>bid.
     bind_a (get_block_files bid) (\<lambda>block_files.
     bind_a (jget_a block_files [K ''files'']) (\<lambda>files.
     bind_a (jset_a [K ''params'', K ''files''] files launching) (\<lambda>rpc1.
     bind_a (jget_a block_files [K ''mode'']) (\<lambda>mode.
     bind_a (jset_a [K ''params'', K ''mode''] mode rpc1) (\<lambda>rpc_json.
     bind_a (update_sjob_state sid SJ_launching) (\<lambda>_.
     bind_a (update_sjob_stage sid ''transfer.general'' SG_working) (\<lambda>_.
     bind_a (update_sjob_stage sid ''transfer.launch'' SG_working) (\<lambda>_.
     bind_a (get_a (\<lambda>s. rm_rg (s_rm s))) (\<lambda>g.
     bind_a (lift_r (get_launcher g)) (\<lambda>launcher.
     bind_a (rpc_call (rqueue launcher) rpc_json 20) (\<lambda>res.
     bind_a (is_member_a res ''error'') (\<lambda>failed.
     if failed then
       bind_a (update_sjob_stage sid ''transfer.launch'' SG_error) (\<lambda>_.
       bind_a (update_sjob_stage sid ''transfer.general'' SG_error) (\<lambda>_.
       bind_a (jstr_a res [K ''error'']) (\<lambda>e.
       schedule_clean_up rjid sid (''mdtm launch error: '' @ e) src_dtn dst_dtn)))
     else
       bind_a (update_sjob_block_state bid BL_transferring) (\<lambda>_.
       bind_a (jstr_a flow [K ''task'']) (\<lambda>task.
       bind_a (update_sjob_flow_state task FL_setting) (\<lambda>_.
       bind_a now_ms (\<lambda>t.
       bind_a (update_sjob_flow_field task ''last_active'' (JInt t)) (\<lambda>_.
       update_rawjob_state rjid RJ_transferring)))))))))))))))))))"

text \<open>Verification of the path, then the flow; \<open>src_dtn\<close> and \<open>dst_dtn\<close> carry the ids of the paths to tear down.\<close>

definition verify_and_launch :: "string \<Rightarrow> string \<Rightarrow> json \<Rightarrow> json \<Rightarrow> json \<Rightarrow> json \<Rightarrow> json \<Rightarrow> json \<Rightarrow> ('w, unit) srv_act" where
  "verify_and_launch rjid sid rjob block src_dtn dst_dtn src_storage dst_storage =
     bind_a (update_sjob_state sid SJ_path_verification) (\<lambda>_.
     bind_a (update_sjob_stage sid ''network.ping'' SG_working) (\<lambda>_.
     bind_a (sleep_s 2) (\<lambda>_.
     bind_a (verify_path src_dtn dst_dtn) (\<lambda>verify_res.
     bind_a (jint_a verify_res [K ''code'']) (\<lambda>code.
     if code \<noteq> 0 then
       bind_a (update_sjob_stage sid ''network.ping'' SG_error) (\<lambda>_.
       bind_a (update_sjob_stage sid ''network.general'' SG_error) (\<lambda>_.
       bind_a (jstr_a verify_res [K ''error'']) (\<lambda>e.
       schedule_clean_up rjid sid e src_dtn dst_dtn)))
     else
       bind_a (update_sjob_stage sid ''network.ping'' SG_success) (\<lambda>_.
       bind_a (update_sjob_stage sid ''network.general'' SG_success) (\<lambda>_.
       bind_a (prepare_flow rjob src_dtn dst_dtn src_storage dst_storage 10000) (\<lambda>flow0.
       bind_a (jget_a block [K ''id'']) (\<lambda>bid.
       bind_a (jset_a [K ''block''] bid flow0) (\<lambda>flow.
       bind_a (insert_flow sid flow) (\<lambda>_.
       launch_flow rjid sid block flow src_dtn dst_dtn)))))))))))"

text \<open>Writing the ids of the WAN path and the SDN path into a DTN document.\<close>

definition with_path :: "json \<Rightarrow> json \<Rightarrow> json \<Rightarrow> ('w, json) srv_act" where
  "with_path dtn uuid path_id =
     bind_a (jset_a [K ''wan_uuid''] uuid dtn) (\<lambda>d. jset_a [K ''path_id''] path_id d)"

definition dispatch_network :: "string \<Rightarrow> string \<Rightarrow> json \<Rightarrow> json \<Rightarrow> json \<Rightarrow> ('w, unit) srv_act" where
  "dispatch_network rjid sid rjob block res_dtn =
     bind_a (jget_a res_dtn [K ''src_dtn'']) (\<lambda>src_dtn.
     bind_a (jget_a res_dtn [K ''dst_dtn'']) (\<lambda>dst_dtn.
     bind_a (jget_a res_dtn [K ''src_storage'']) (\<lambda>src_storage.
     bind_a (jget_a res_dtn [K ''dst_storage'']) (\<lambda>dst_storage.
     bind_a (update_sjob_stage sid ''network.general'' SG_working) (\<lambda>_.
     bind_a (jbool_a res_dtn [K ''private'']) (\<lambda>private.
     if private then
       bind_a (update_sjob_stage sid ''network.planning'' SG_working) (\<lambda>_.
       bind_a (network_handling sid src_dtn dst_dtn) (\<lambda>res_net.
       bind_a (jget_a res_net [K ''wan_uuid'']) (\<lambda>uuid.
       bind_a (jget_a res_net [K ''src_sdn_path_id'']) (\<lambda>sp.
       bind_a (jget_a res_net [K ''dst_sdn_path_id'']) (\<lambda>dp.
       bind_a (with_path src_dtn uuid sp) (\<lambda>src.
       bind_a (with_path dst_dtn uuid dp) (\<lambda>dst.
       bind_a (jint_a res_net [K ''code'']) (\<lambda>code.
       if code \<noteq> 0 then
         bind_a (update_sjob_stage sid ''network.general'' SG_error) (\<lambda>_.
         bind_a (jstr_a res_net [K ''error'']) (\<lambda>e.
         schedule_clean_up rjid sid e src dst))
       else verify_and_launch rjid sid rjob block src dst src_storage dst_storage))))))))
     else
       bind_a (update_sjob_stage sid ''network.planning'' SG_success) (\<lambda>_.
       bind_a (update_sjob_stage sid ''network.public'' SG_success) (\<lambda>_.
       bind_a (update_sjob_stage sid ''teardown.public'' SG_pending) (\<lambda>_.
       bind_a (with_path src_dtn (JStr []) (JInt (- 1))) (\<lambda>src.
       bind_a (with_path dst_dtn (JStr []) (JInt (- 1))) (\<lambda>dst.
       verify_and_launch rjid sid rjob block src dst src_storage dst_storage)))))))))))"

definition dispatch_block :: "json \<Rightarrow> json \<Rightarrow> ('w, unit) srv_act" where
  "dispatch_block sjob block =
     bind_a (jstr_a sjob [K ''_id'', K ''$oid'']) (\<lambda>sid.
     bind_a (jstr_a sjob [K ''rawjob'', K ''$oid'']) (\<lambda>rjid.
     bind_a (get_rawjob_from_id rjid) (\<lambda>rjob.
     bind_a (jstr_a sjob [K ''srcsite'', K ''$oid'']) (\<lambda>ssite.
     bind_a (get_site_info ssite) (\<lambda>src_site_info.
     bind_a (jstr_a sjob [K ''dstsite'', K ''$oid'']) (\<lambda>dsite.
     bind_a (get_site_info dsite) (\<lambda>dst_site_info.
     bind_a (update_sjob_state sid SJ_dtn_matching) (\<lambda>_.
     bind_a (update_sjob_stage sid ''bootstrap.query'' SG_success) (\<lambda>_.
     bind_a (update_sjob_stage sid ''bootstrap.match'' SG_working) (\<lambda>_.
     bind_a (jstr_a sjob [K ''srcstorage'']) (\<lambda>sst.
     bind_a (jstr_a sjob [K ''dststorage'']) (\<lambda>dst.
     bind_a (find_best_effort_dtn_pair sst dst src_site_info dst_site_info) (\<lambda>res_dtn.
     bind_a (jint_a res_dtn [K ''code'']) (\<lambda>code.
     if code \<noteq> 0 then
       bind_a (update_sjob_stage sid ''bootstrap.match'' SG_error) (\<lambda>_.
       bind_a (update_sjob_stage sid ''bootstrap.general'' SG_error) (\<lambda>_.
       bind_a (jstr_a res_dtn [K ''error'']) (\<lambda>e.
       schedule_clean_up rjid sid e JNull JNull)))
     else
       bind_a (update_sjob_stage sid ''bootstrap.match'' SG_success) (\<lambda>_.
       bind_a (update_sjob_stage sid ''bootstrap.general'' SG_success) (\<lambda>_.
       dispatch_network rjid sid rjob block res_dtn))))))))))))))))"

text \<open>The inner loop stops after the first waiting block, whatever became of it.\<close>

fun first_waiting :: "json list \<Rightarrow> (exn, json option) result" where
  "first_waiting [] = Inr None"
| "first_waiting (b # bs) =
     bind_r (opt_r Json_error (Option.bind (at_key b ''state'') asInt)) (\<lambda>ns.
     if ns \<noteq> block_state_int BL_waiting then first_waiting bs else Inr (Some b))"

definition schedule_sjob :: "json \<Rightarrow> ('w, unit) srv_act" where
  "schedule_sjob sjob =
     bind_a (jget_a sjob [K ''flows'']) (\<lambda>flows.
     if 1 \<le> jsize flows then ret_a ()
     else
       bind_a (jget_a sjob [K ''blocks'']) (\<lambda>blocks.
       bind_a (lift_r (first_waiting (elems blocks))) (\<lambda>b.
       case b of None \<Rightarrow> ret_a () | Some block \<Rightarrow> dispatch_block sjob block)))"

text \<open>The result is the delay before the next pass, in milliseconds.\<close>

definition schedule :: "('w, int) srv_act" where
  "schedule =
     bind_a get_active_best_effort_sjobs (\<lambda>be_sjobs.
     bind_a (foreach_a schedule_sjob (elems be_sjobs)) (\<lambda>_.
     ret_a 5000))"

end
