(* ===== verification/Schedule_Props.thy ===== *)
theory Schedule_Props
  imports Network_Props Job_Schedule
begin

text \<open>
  What a scheduling pass promises, whatever the database, the portals, the WAN controller and the launcher
  answer: a transfer is launched only over a path that was verified and only for a flow that was recorded,
  at most once per scheduled job; a dispatched job ends in a recorded state; and when no transfer was
  launched, every SDN path set up for it is released again.
\<close>

section \<open>What the operations send\<close>

lemma emits_clean_up [frame_intros]:
  assumes "\<And>q r. P (Http q r)" "\<And>q r. on_sjob q \<Longrightarrow> P (Db q r)" "\<And>n. P (Sleep n)"
    "\<And>f u r. P (Db (DbUpdateOne ''rawjob'' f u) r)" "\<And>f u r. P (Db (DbFindOneAndUpdate ''rawjob'' f u) r)"
  shows "emits P (schedule_clean_up rjid sid err a b)"
  unfolding schedule_clean_up_def seq_a.simps
  by (intro frame_intros assms; simp add: assms on_sjob_def)

lemma emits_flow [frame_intros]: "emits P (prepare_flow a b c d e x)" "emits P (with_path a b c)"
  unfolding prepare_flow_def launch_auth_def with_path_def by (intro frame_intros)+

section \<open>Launching\<close>

fun is_rpc :: "event \<Rightarrow> bool" where
  "is_rpc (Rpc k m i r) \<longleftrightarrow> True"
| "is_rpc e \<longleftrightarrow> False"

lemma launch_flow_once: "at_most is_rpc 1 (launch_flow rjid sid block flow src_dtn dst_dtn)"
  unfolding launch_flow_def
  apply ((rule at_most_bind0, (intro frame_intros; simp; fail))+)
  apply (rule at_most_bindn, rule at_most_one)
  apply (intro frame_intros; simp)
  done

lemma verify_and_launch_once: "at_most is_rpc 1 (verify_and_launch rjid sid rjob block a b c d)"
  unfolding verify_and_launch_def
  by (rule launch_flow_once | rule at_most_if | (rule at_most_bind0, (intro frame_intros; simp; fail))
    | (rule at_most_quiet, (intro frame_intros; simp; fail)))+

lemma dispatch_network_once: "at_most is_rpc 1 (dispatch_network rjid sid rjob block res)"
  unfolding dispatch_network_def
  by (rule verify_and_launch_once | rule at_most_if | (rule at_most_bind0, (intro frame_intros; simp; fail))
    | (rule at_most_quiet, (intro frame_intros; simp; fail)))+

lemma dispatch_block_once: "at_most is_rpc 1 (dispatch_block sjob block)"
  unfolding dispatch_block_def
  by (rule dispatch_network_once | rule at_most_if | (rule at_most_bind0, (intro frame_intros; simp; fail))
    | (rule at_most_quiet, (intro frame_intros; simp; fail)))+

text \<open>The sjobs a pass may launch: those without a flow.\<close>

definition idle :: "json \<Rightarrow> bool" where
  "idle sjob \<longleftrightarrow> (\<exists>flows. jget sjob [K ''flows''] = Some flows \<and> jsize flows = 0)"

lemma schedule_sjob_once: "at_most is_rpc (if idle sjob then 1 else 0) (schedule_sjob sjob)"
proof (cases "jget sjob [K ''flows'']")
  case None
  then have *: "schedule_sjob sjob = throw_a Json_error" by (simp add: schedule_sjob_def fun_eq_iff bind_a_def jget_a_def)
  show ?thesis unfolding * by (intro at_most_quiet emits_quiet)
next
  case (Some flows)
  show ?thesis
    unfolding schedule_sjob_def json_act_known(1) [OF Some] bind_ret_a
    apply (rule at_most_if, rule at_most_quiet, rule emits_quiet)
    apply (rule at_most_bind0, rule emits_quiet, rule at_most_bind0, rule emits_quiet, rule at_most_option,
        rule at_most_quiet, rule emits_quiet)
    using dispatch_block_once Some by (simp add: idle_def Suc_le_eq)
qed

section \<open>The launch command and its flow\<close>

text \<open>The flow an update of the database has appended, and the task a launch command names.\<close>

fun flow_of :: "event \<Rightarrow> json option" where
  "flow_of (Db (DbUpdateOne c f u) (Inr r)) = jget u [K ''$push'', K ''flows'']"
| "flow_of e = None"

fun launch_task :: "event \<Rightarrow> json option" where
  "launch_task (Rpc k m i r) = jget m [K ''params'', K ''task'']"
| "launch_task e = None"

definition starts_flow :: "event \<Rightarrow> event \<Rightarrow> bool" where
  "starts_flow d e \<longleftrightarrow> (\<exists>task. launch_task e = Some (JStr task) \<and> Option.bind (flow_of d) (\<lambda>f. jget f [K ''task'']) = Some (JStr task))"

definition flow_task :: "json \<Rightarrow> string \<Rightarrow> bool" where
  "flow_task flow task \<longleftrightarrow> jget flow [K ''task''] = Some (JStr task) \<and>
     jget flow [K ''launching'', K ''params'', K ''task''] = Some (JStr task)"

lemma launch_auth_keys: "launch_auth c rjob s = (Inr auth, t) \<Longrightarrow> map_of (rev auth) ''task'' = None"
  unfolding launch_auth_def by (auto split: if_splits elim!: bind_a_InrE)

lemma prepare_flow_task:
  assumes "prepare_flow rjob a b c d x s = (Inr flow, t)"
  shows "\<exists>task. flow_task flow task"
  using assms unfolding prepare_flow_def
  by (elim bind_a_InrE) (drule launch_auth_keys,
    auto simp: flow_task_def at_key_jobj map_add_def simp del: jobj_simps)

lemma flow_task_set: "flow_task flow task \<Longrightarrow> jset [K ''block''] v flow = Some flow' \<Longrightarrow> flow_task flow' task"
  using jget_jset_other [of "[]" "K ''block''" "[]" v flow flow' "K ''task''" "[]"]
    jget_jset_other [of "[]" "K ''block''" "[]" v flow flow' "K ''launching''" "[K ''params'', K ''task'']"]
  by (simp add: flow_task_def del: jget.simps)

lemma param_kept:
  assumes "jset [K ''params'', K f] v j = Some j'" and "f \<noteq> ''task''"
  shows "jget j' [K ''params'', K ''task''] = jget j [K ''params'', K ''task'']"
  using jget_jset_other [of "[K ''params'']" "K f" "[]" v j j' "K ''task''" "[]"] assms by simp

lemma launching_task: "flow_task flow task \<Longrightarrow> jget flow [K ''launching''] = Some j \<Longrightarrow> jget j [K ''params'', K ''task''] = Some (JStr task)"
  using jget_append [of flow "[K ''launching'']" "[K ''params'', K ''task'']"] by (simp add: flow_task_def)

lemma launch_flow_task:
  assumes "flow_task flow task"
  shows "emits (\<lambda>e. is_rpc e \<longrightarrow> launch_task e = Some (JStr task)) (launch_flow rjid sid block flow a b)"
  unfolding launch_flow_def
  apply (rule emits_bind_val, (intro frame_intros), drule json_act_val)
  apply (rule emits_bind, (intro frame_intros; simp), rule emits_bind, (intro frame_intros; simp), rule emits_bind, (intro frame_intros; simp))
  apply (rule emits_bind_val, (intro frame_intros), drule jset_a_val)
  apply (rule emits_bind, (intro frame_intros))
  apply (rule emits_bind_val, (intro frame_intros), drule jset_a_val)
  apply (intro frame_intros; (simp; fail)?)
  using launching_task [OF assms] by (auto simp del: jget.simps dest!: param_kept)

lemma insert_flow_event:
  assumes "insert_flow sid flow s = (Inr u, t)" and "s_log t = s_log s @ l"
  shows "list_ex (\<lambda>d. flow_of d = Some flow) l"
  using assms by (auto simp: insert_flow_def unit_a_def db_def split: prod.splits elim!: bind_a_InrE)

lemma verify_and_launch_recorded: "guarded starts_flow is_rpc past (verify_and_launch rjid sid rjob block a b c d)"
  unfolding verify_and_launch_def
  apply (rule guarded_skip, (intro frame_intros; simp), rule guarded_skip, (intro frame_intros; simp),
      rule guarded_skip, (intro frame_intros; simp), rule guarded_skip, (intro frame_intros; simp),
      rule guarded_skip, (intro frame_intros; simp), rule guarded_if)
  subgoal by (rule guarded_quiet, (intro frame_intros; simp))
  apply (rule guarded_skip, (intro frame_intros; simp), rule guarded_skip, (intro frame_intros; simp))
  apply (rule guarded_skip_val, (intro frame_intros), drule prepare_flow_task, erule exE)
  apply (rule guarded_skip, (intro frame_intros))
  apply (rule guarded_skip_val, (intro frame_intros), drule jset_a_val, drule (1) flow_task_set)
  apply (rule guarded_bind, rule guarded_quiet, (intro frame_intros; simp), drule (1) insert_flow_event)
  apply (rule guarded_known, rule emits_mono, erule launch_flow_task)
  by (force simp: starts_flow_def flow_task_def list_ex_iff simp del: jget.simps)

lemma dispatch_network_recorded: "guarded starts_flow is_rpc past (dispatch_network rjid sid rjob block res)"
  unfolding dispatch_network_def
  by (rule verify_and_launch_recorded | rule guarded_if | (rule guarded_skip, (intro frame_intros; simp; fail))
    | (rule guarded_quiet, (intro frame_intros; simp; fail)))+

lemma dispatch_block_recorded: "guarded starts_flow is_rpc past (dispatch_block sjob block)"
  unfolding dispatch_block_def
  by (rule dispatch_network_recorded | rule guarded_if | (rule guarded_skip, (intro frame_intros; simp; fail))
    | (rule guarded_quiet, (intro frame_intros; simp; fail)))+

section \<open>The ping before a launch\<close>

text \<open>
  A ping over the path of a flow: the portal of the source site was asked to ping the data address of the destination from the
  source DTN, and the code of the reply reads as 0, as that of an empty reply does.
\<close>

definition pings_path :: "json \<Rightarrow> event \<Rightarrow> bool" where
  "pings_path flow d \<longleftrightarrow> (\<exists>url i ip c r.
     Option.bind (jget flow [K ''srcdtn'', K ''site'', K ''url'']) asString = Some url \<and>
     jget flow [K ''srcdtn'', K ''id''] = Some i \<and> jget flow [K ''dstdtn'', K ''data_ip''] = Some ip \<and>
     d = Http (HPost (''https://'' @ url @ ''/bde/command'') (ping_message i ip)) (Inr (c, r)) \<and> code_of r = Some 0)"

fun posts :: "string \<Rightarrow> json \<Rightarrow> event \<Rightarrow> bool" where
  "posts url m (Http (HPost u j) x) \<longleftrightarrow> u = ''https://'' @ url @ ''/bde/command'' \<and> j = m"
| "posts url m e \<longleftrightarrow> False"

definition answered_0 :: "string \<Rightarrow> json \<Rightarrow> event list \<Rightarrow> bool" where
  "answered_0 url m l \<longleftrightarrow> (\<exists>c r. Http (HPost (''https://'' @ url @ ''/bde/command'') m) (Inr (c, r)) \<in> set l \<and> code_of r = Some 0)"

lemma post_command_seen:
  "sees (posts url m) (post_command url m) (\<lambda>(c, r) l. Http (HPost (''https://'' @ url @ ''/bde/command'') m) (Inr (c, r)) \<in> set l)"
  unfolding post_command_def by (rule sees_http) auto

lemma verify_attempts_pings: "sees (posts url m) (verify_attempts url m n :: ('w, json) srv_act) (\<lambda>res l. code_of res = Some 0 \<longrightarrow> answered_0 url m l)"
proof (induction n)
  case 0
  show ?case unfolding verify_attempts.simps by (rule sees_throw)
next
  case (Suc n)
  have later: "sees (posts url m) (verify_attempts url m n :: ('w, json) srv_act) (\<lambda>res l. code_of res = Some 0 \<longrightarrow> answered_0 url m (p @ l))" for p
    by (rule sees_mono [OF Suc.IH]) (auto simp: answered_0_def)
  show ?case
    unfolding verify_attempts.simps
    apply (rule sees_bind [OF post_command_seen], clarsimp simp only: split_paired_all prod.case)
    apply (rule sees_skip_val, (intro frame_intros), drule json_act_val(3), fold code_of_def)
    apply (rule sees_if)
    subgoal by (rule sees_ret) (auto simp: answered_0_def)
    apply (rule sees_if)
    subgoal by (rule sees_skip, (intro frame_intros; simp), rule later)
    apply (rule sees_skip_val, (intro frame_intros), drule json_act_val(1))
    apply (rule sees_skip, (intro frame_intros), rule sees_ret)
    subgoal by (simp add: code_of_def)
    done
qed

lemma verify_path_pings:
  assumes "jget flow [K ''srcdtn''] = Some a" and "jget flow [K ''dstdtn''] = Some b"
    and "verify_path a b (s :: 'w srv) = (Inr res, t)" and "s_log t = s_log s @ l" and "code_of res = Some 0"
  shows "list_ex (pings_path flow) l"
proof -
  obtain url i ip uuid where d: "Option.bind (jget a [K ''site'', K ''url'']) asString = Some url"
    "jget a [K ''id''] = Some i" "jget b [K ''data_ip''] = Some ip" "Option.bind (jget a [K ''wan_uuid'']) asString = Some uuid"
    using assms(3) unfolding verify_path_def by (elim bind_a_InrE) (drule json_act_val | simp only:)+
  have "sees (posts url (ping_message i ip)) (verify_path a b :: ('w, json) srv_act)
      (\<lambda>res l. code_of res = Some 0 \<longrightarrow> answered_0 url (ping_message i ip) l)"
    unfolding verify_path_def json_act_known(1) [OF d(2)] json_act_known(1) [OF d(3)] json_act_known(2) [OF d(1)] json_act_known(2) [OF d(4)] bind_ret_a
    by (intro sees_skip frame_intros verify_attempts_pings)
  from seesD [OF this assms(3)] have "answered_0 url (ping_message i ip) l"
    using assms(4,5) by (auto simp: answered_0_def)
  moreover have "jget flow (K ''srcdtn'' # p) = jget a p" "jget flow (K ''dstdtn'' # p) = jget b p" for p
    using jget_append [of flow "[K ''srcdtn'']" p] jget_append [of flow "[K ''dstdtn'']" p] assms(1,2) by simp_all
  ultimately show ?thesis
    using d unfolding list_ex_iff pings_path_def answered_0_def by (fastforce simp del: jget.simps)
qed

text \<open>The log before a launch: the ping, then the record of the flow whose task is launched.\<close>

definition pinged_and_recorded :: "event list \<Rightarrow> event \<Rightarrow> bool" where
  "pinged_and_recorded k e \<longleftrightarrow>
     (\<exists>k1 f k2 flow. k = k1 @ f # k2 \<and> starts_flow f e \<and> flow_of f = Some flow \<and> list_ex (pings_path flow) k1)"

lemma prepare_flow_dtns:
  assumes "prepare_flow rjob a b c d x s = (Inr flow, t)" and "jset [K ''block''] v flow = Some flow'"
  shows "jget flow' [K ''srcdtn''] = Some a" "jget flow' [K ''dstdtn''] = Some b"
proof -
  have "jget flow [K ''srcdtn''] = Some a \<and> jget flow [K ''dstdtn''] = Some b"
    using assms(1) unfolding prepare_flow_def
    by (elim bind_a_InrE) (auto simp: at_key_jobj map_add_def simp del: jobj_simps)
  then show "jget flow' [K ''srcdtn''] = Some a" "jget flow' [K ''dstdtn''] = Some b"
    using jget_jset_other [of "[]" "K ''block''" "[]" v flow flow' "K ''srcdtn''" "[]"]
      jget_jset_other [of "[]" "K ''block''" "[]" v flow flow' "K ''dstdtn''" "[]"] assms(2) by simp_all
qed

lemma recorded_launch:
  assumes "flow_task flow task" and "list_ex (pings_path flow) past" and "list_ex (\<lambda>d. flow_of d = Some flow) l"
  shows "guarded_by pinged_and_recorded is_rpc (past @ l) (launch_flow rjid sid block flow a b)"
proof (rule guarded_by_known, rule emits_mono, rule launch_flow_task [OF assms(1)])
  fix e assume e: "is_rpc e \<longrightarrow> launch_task e = Some (JStr task)"
  obtain l1 f l2 where l: "l = l1 @ f # l2" "flow_of f = Some flow" using assms(3) unfolding list_ex_iff by (metis split_list)
  have "pinged_and_recorded ((past @ l) @ k) e" if "is_rpc e" for k
    unfolding pinged_and_recorded_def
  proof (intro exI conjI)
    show "(past @ l) @ k = (past @ l1) @ f # (l2 @ k)" using l(1) by simp
    show "starts_flow f e" using that e assms(1) l(2) by (simp add: starts_flow_def flow_task_def)
    show "flow_of f = Some flow" by (rule l(2))
    show "list_ex (pings_path flow) (past @ l1)" using assms(2) by simp
  qed
  then show "is_rpc e \<longrightarrow> (\<forall>k. pinged_and_recorded ((past @ l) @ k) e)" by blast
qed

lemma verify_and_launch_pinged: "guarded_by pinged_and_recorded is_rpc past (verify_and_launch rjid sid rjob block a b c d)"
  unfolding verify_and_launch_def
  apply (rule guarded_by_skip, (intro frame_intros; simp), rule guarded_by_skip, (intro frame_intros; simp),
      rule guarded_by_skip, (intro frame_intros; simp))
  apply (rule guarded_by_quiet_bind, (intro frame_intros; simp))
  apply (rule guarded_by_quiet_bind, (intro frame_intros; simp), drule json_act_val(3), fold code_of_def)
  apply (rule guarded_by_if)
  subgoal by (rule guarded_by_quiet, (intro frame_intros; simp))
  apply (rule guarded_by_quiet_bind, (intro frame_intros; simp), rule guarded_by_quiet_bind, (intro frame_intros; simp))
  apply (rule guarded_by_quiet_bind, (intro frame_intros))
  apply (rule guarded_by_quiet_bind, (intro frame_intros))
  apply (rule guarded_by_quiet_bind, (intro frame_intros), drule jset_a_val)
  apply (rule guarded_by_quiet_bind, (intro frame_intros; simp), drule (1) insert_flow_event)
  apply (frule prepare_flow_task, erule exE, frule (1) flow_task_set)
  apply (erule recorded_launch, frule (1) prepare_flow_dtns(1), frule (1) prepare_flow_dtns(2))
  subgoal by (simp only: list_ex_append not_not) (metis verify_path_pings)
  apply assumption
  done

lemma dispatch_network_pinged: "guarded_by pinged_and_recorded is_rpc past (dispatch_network rjid sid rjob block res)"
  unfolding dispatch_network_def
  by (rule verify_and_launch_pinged | rule guarded_by_if | (rule guarded_by_skip, (intro frame_intros; simp; fail))
    | (rule guarded_by_quiet, (intro frame_intros; simp; fail)))+

lemma dispatch_block_pinged: "guarded_by pinged_and_recorded is_rpc past (dispatch_block sjob block)"
  unfolding dispatch_block_def
  by (rule dispatch_network_pinged | rule guarded_by_if | (rule guarded_by_skip, (intro frame_intros; simp; fail))
    | (rule guarded_by_quiet, (intro frame_intros; simp; fail)))+

lemma schedule_sjob_pinged: "guarded_by pinged_and_recorded is_rpc past (schedule_sjob sjob)"
  unfolding schedule_sjob_def
  apply (rule guarded_by_skip, (intro frame_intros), rule guarded_by_if, rule guarded_by_quiet, (intro frame_intros))
  apply (rule guarded_by_skip, (intro frame_intros), rule guarded_by_skip, (intro frame_intros))
  subgoal for _ _ _ _ b
    by (cases b; simp only: option.case) ((rule guarded_by_quiet, rule emits_quiet), rule dispatch_block_pinged)
  done

section \<open>How a dispatched job ends\<close>

fun raw_update :: "event \<Rightarrow> bool" where
  "raw_update (Db (DbUpdateOne c f u) r) \<longleftrightarrow> c = ''rawjob''"
| "raw_update e \<longleftrightarrow> False"

definition raw_set :: "string \<Rightarrow> rawjob_state \<Rightarrow> event \<Rightarrow> bool" where
  "raw_set rjid ns e \<longleftrightarrow> (\<exists>r. e = Db (DbUpdateOne ''rawjob'' (by_id rjid) (set_doc ''state'' (JInt (rawjob_state_int ns)))) (Inr r))"

text \<open>The launcher has accepted a transfer: its answer has no member \<open>error\<close>.\<close>

fun accepted :: "event \<Rightarrow> bool" where
  "accepted (Rpc k m i (Inr r)) \<longleftrightarrow> isMember r ''error'' = Some False"
| "accepted e \<longleftrightarrow> False"

definition watched :: "event \<Rightarrow> bool" where
  "watched e \<longleftrightarrow> path_event e \<or> is_rpc e \<or> raw_update e"

lemma watched_simps [simp]:
  "watched (Sleep n)  = False" "on_sjob q \<Longrightarrow> watched (Db q r) = False" "watched (Db (DbFind c f g) r) = False"
  "watched (Db (DbFindOne c f) r) = False" "watched (Db (DbFindOneAndUpdate c f u) r) = False"
  "watched (Db (DbUpdateOne ''rawjob'' f u) r)" "watched (Http h z) = path_event (Http h z)"
  by (cases q; auto simp: watched_def on_sjob_def)+

lemma sees_widen:
  assumes "sees Q m \<Phi>" and "emits (\<lambda>e. Q' e \<longleftrightarrow> Q e) m"
  shows "sees Q' m \<Phi>"
  unfolding sees_def
proof (intro allI impI)
  fix s a t assume m: "m s = (Inr a, t)"
  obtain l where l: "s_log t = s_log s @ l" "\<Phi> a (filter Q l)" using seesD [OF assms(1) m] by blast
  obtain l' where "s_log t = s_log s @ l'" "list_all (\<lambda>e. Q' e \<longleftrightarrow> Q e) l'" using emitsD [OF assms(2) m] by blast
  with l(1) have "filter Q' l = filter Q l" by (auto simp: list_all_iff intro: filter_cong)
  with l show "\<exists>l. s_log t = s_log s @ l \<and> \<Phi> a (filter Q' l)" by metis
qed

lemma raw_state_seen: "sees watched (update_rawjob_state rjid ns) (\<lambda>_ k. \<exists>e. k = [e] \<and> raw_update e \<and> raw_set rjid ns e)"
  unfolding update_rawjob_state_def unit_a_def
  by (rule sees_bind [OF sees_db [where \<Psi> = "\<lambda>_ k. \<exists>e. k = [e] \<and> raw_update e \<and> raw_set rjid ns e"]])
    (auto simp: raw_set_def intro!: sees_ret)

lemma sees_only: "sees Q m \<Phi> \<Longrightarrow> sees Q m (\<lambda>a k. \<Phi> a k \<and> list_all Q k)"
  unfolding sees_def list_all_iff set_filter by (intro allI impI) (metis (mono_tags) mem_Collect_eq)

text \<open>A stretch of the log with path events only.\<close>

definition only_paths :: "event list \<Rightarrow> bool" where
  "only_paths k \<longleftrightarrow> filter raw_update k = [] \<and> \<not> list_ex accepted k"

lemma only_paths: "list_all path_event k \<Longrightarrow> only_paths k"
proof -
  have "path_event e \<Longrightarrow> \<not> raw_update e \<and> \<not> accepted e" for e
    by (cases e) (auto simp: path_event_def)
  then show "list_all path_event k \<Longrightarrow> only_paths k"
    by (auto simp: only_paths_def list_all_iff list_ex_iff filter_empty_conv)
qed

lemma teardown_watched:
  "sees watched (teardown_sdn_path sid src_dtn dst_dtn) (\<lambda>r k. r = 0 \<and> only_paths k \<and> (\<exists>sp dp.
     path_of src_dtn = Some sp \<and> path_of dst_dtn = Some dp \<and> installs k = [] \<and> releases k = live [sp, dp]))"
  by (rule sees_widen [OF sees_mono [OF sees_only [OF teardown_sdn_path_log]]])
    ((use only_paths in blast), (intro frame_intros; simp))

lemma network_watched:
  "sees watched (network_handling sid src_dtn dst_dtn) (\<lambda>res k. net_paths res k \<and> only_paths k)"
  by (rule sees_widen [OF sees_mono [OF sees_only [OF network_handling_log]]])
    ((use only_paths in blast), (intro frame_intros; simp))

lemma raw_event_quiet [simp]: "raw_update e \<Longrightarrow> \<not> accepted e" "raw_update e \<Longrightarrow> install_of e = None" "raw_update e \<Longrightarrow> release_of e = None"
  by (cases e rule: raw_update.cases; simp add: install_of_def)+

definition recorded_paths :: "json \<Rightarrow> json \<Rightarrow> int list \<Rightarrow> bool" where
  "recorded_paths src_dtn dst_dtn ps \<longleftrightarrow>
     (if jempty src_dtn \<or> jempty dst_dtn then ps = []
      else \<exists>sp dp. path_of src_dtn = Some sp \<and> path_of dst_dtn = Some dp \<and> ps = live [sp, dp])"

lemma clean_up_end:
  "sees watched (schedule_clean_up rjid sid err src_dtn dst_dtn) (\<lambda>_ k. installs k = [] \<and> recorded_paths src_dtn dst_dtn (releases k) \<and>
     \<not> list_ex accepted k \<and> (\<exists>e. filter raw_update k = [e] \<and> raw_set rjid RJ_error e))"
  unfolding schedule_clean_up_def seq_a.simps
  apply (rule sees_skip, (intro frame_intros; simp))
  apply (rule sees_bind [where \<Phi> = "\<lambda>_ k. installs k = [] \<and> recorded_paths src_dtn dst_dtn (releases k) \<and> only_paths k"])
   apply (rule sees_if)
    apply (rule sees_bind [OF teardown_watched])
    apply (rule sees_end, (intro frame_intros; simp add: path_event_def))
  subgoal by (auto simp: recorded_paths_def)
   apply (rule sees_end, (intro frame_intros; simp))
  subgoal by (simp add: recorded_paths_def only_paths_def)
  apply (rule sees_skip, (intro frame_intros; simp), rule sees_bind [OF raw_state_seen])
  apply (rule sees_end, (intro frame_intros; simp add: on_sjob_def))
  subgoal by (auto simp: only_paths_def)
  done

text \<open>
  Either the transfer was accepted, the raw job is transferring and no path was released, or the raw job
  is in error and the paths recorded in the two DTN documents were released.
\<close>

definition flow_end :: "string \<Rightarrow> json \<Rightarrow> json \<Rightarrow> event list \<Rightarrow> bool" where
  "flow_end rjid src_dtn dst_dtn k \<longleftrightarrow> installs k = [] \<and> (\<exists>e. filter raw_update k = [e] \<and>
     (if list_ex accepted k then raw_set rjid RJ_transferring e \<and> releases k = []
      else raw_set rjid RJ_error e \<and> recorded_paths src_dtn dst_dtn (releases k)))"

lemma clean_up_flow_end: "sees watched (schedule_clean_up rjid sid err src_dtn dst_dtn) (\<lambda>_. flow_end rjid src_dtn dst_dtn)"
  by (rule sees_mono [OF clean_up_end]) (auto simp: flow_end_def)

lemma sees_is_member: "(\<And>b. isMember j f = Some b \<Longrightarrow> sees Q (g b) \<Psi>) \<Longrightarrow> sees Q (bind_a (is_member_a j f) g) \<Psi>"
  by (rule sees_skip_val) (intro frame_intros, auto simp: is_member_a_def opt_r_def split: option.splits)

lemma sees_rpc: "(\<And>a. sees Q (f a) (\<lambda>b k. \<Psi> b (filter Q [Rpc q m i (Inr a)] @ k))) \<Longrightarrow> sees Q (bind_a (rpc_call q m i) f) \<Psi>"
  by (rule sees_bind [where \<Phi> = "\<lambda>a k. k = filter Q [Rpc q m i (Inr a)]"])
    (auto simp: sees_def rpc_call_def split: prod.splits)

lemma rpc_event_simps [simp]: "watched (Rpc q m i r)" "install_of (Rpc q m i r) = None"
  by (simp_all add: watched_def install_of_def)

lemma launch_flow_end: "sees watched (launch_flow rjid sid block flow src_dtn dst_dtn) (\<lambda>_. flow_end rjid src_dtn dst_dtn)"
  unfolding launch_flow_def
  apply ((rule sees_rpc | rule sees_is_member | rule sees_if | (rule sees_skip, (intro frame_intros; simp; fail)))+)
  subgoal by (rule sees_mono [OF clean_up_flow_end]) (auto simp: flow_end_def)
  apply ((rule sees_skip, (intro frame_intros; simp; fail))+)
  subgoal by (rule sees_mono [OF raw_state_seen]) (auto simp: flow_end_def)
  done

lemma verify_and_launch_end:
  "sees watched (verify_and_launch rjid sid rjob block src_dtn dst_dtn a b) (\<lambda>_. flow_end rjid src_dtn dst_dtn)"
proof -
  have ping: "emits (\<lambda>e. \<not> watched e) (verify_path src_dtn dst_dtn)"
    unfolding verify_path_def by (intro frame_intros emits_attempts; simp)
  show ?thesis unfolding verify_and_launch_def
    by (rule launch_flow_end | rule clean_up_flow_end | rule sees_if | (rule sees_skip, rule ping)
      | (rule sees_skip, (intro frame_intros; simp; fail)))+
qed

lemma put_nonempty: "put f v m \<noteq> []"
  by (cases m) (auto split: if_splits)

lemma with_path_val:
  "with_path dtn uuid path_id s = (Inr d, t) \<Longrightarrow> path_of d = asInt path_id \<and> \<not> jempty d"
  unfolding with_path_def
proof (elim bind_a_InrE)
  fix d1 u assume "jset_a [K ''path_id''] path_id d1 u = (Inr d, t)"
  then have j: "jset [K ''path_id''] path_id d1 = Some d" by (rule jset_a_val)
  then have "\<not> jempty d" unfolding jset_def by (cases d1) (auto simp: jempty_def put_nonempty)
  with jget_jset [OF j] show "path_of d = asInt path_id \<and> \<not> jempty d" by (simp add: path_of_def)
qed

text \<open>The end of a dispatched job, and what has become of the SDN paths installed for it.\<close>

definition job_settled :: "string \<Rightarrow> event list \<Rightarrow> bool" where
  "job_settled rjid k \<longleftrightarrow> (\<exists>e. filter raw_update k = [e] \<and>
     (if list_ex accepted k then raw_set rjid RJ_transferring e \<and> releases k = []
      else raw_set rjid RJ_error e \<and> releases k = live (installs k)))"

lemma asInt_JInt_eq: "asInt (JInt n) = Some m \<Longrightarrow> m = n"
  by (simp split: if_splits)

lemma flow_end_settled:
  assumes "flow_end rjid src_dtn dst_dtn k'" and "net_paths res k" and "only_paths k"
    and "jget res [K ''src_sdn_path_id''] = Some sp" and "jget res [K ''dst_sdn_path_id''] = Some dp"
    and "path_of src_dtn = asInt sp \<and> \<not> jempty src_dtn" and "path_of dst_dtn = asInt dp \<and> \<not> jempty dst_dtn"
  shows "job_settled rjid (k @ k')"
  using assms
  by (auto simp: flow_end_def net_paths_def only_paths_def job_settled_def recorded_paths_def simp del: jget.simps asInt.simps dest!: asInt_JInt_eq split: if_splits)

lemma dispatch_network_end: "sees watched (dispatch_network rjid sid rjob block res_dtn) (\<lambda>_. job_settled rjid)"
  unfolding dispatch_network_def
  apply (rule sees_if | (rule sees_skip, (intro frame_intros; simp; fail)))+
   apply (rule sees_bind [OF network_watched])
   apply (rule sees_skip, (intro frame_intros))
   apply (rule sees_skip_val, (intro frame_intros), drule json_act_val, rule sees_skip_val, (intro frame_intros), drule json_act_val)
   apply (rule sees_skip_val, (intro frame_intros), drule with_path_val, rule sees_skip_val, (intro frame_intros), drule with_path_val)
   apply (rule sees_skip, (intro frame_intros), rule sees_if)
  subgoal
    apply (rule sees_skip, (intro frame_intros; simp), rule sees_skip, (intro frame_intros))
    apply (rule sees_mono [OF clean_up_flow_end])
    using flow_end_settled by blast
  subgoal by (rule sees_mono [OF verify_and_launch_end]) (use flow_end_settled in blast)
  apply (rule sees_skip, (intro frame_intros; simp), rule sees_skip, (intro frame_intros; simp), rule sees_skip, (intro frame_intros; simp))
  apply (rule sees_skip_val, (intro frame_intros), drule with_path_val, rule sees_skip_val, (intro frame_intros), drule with_path_val)
  apply (rule sees_mono [OF verify_and_launch_end])
  by (auto simp: flow_end_def job_settled_def recorded_paths_def split: if_splits)

text \<open>A pair of DTNs that could not be found leaves nothing to release.\<close>

lemma dispatch_block_end:
  "sees watched (dispatch_block sjob block) (\<lambda>_ k. \<exists>rjid.
     Option.bind (jget sjob [K ''rawjob'', K ''$oid'']) asString = Some rjid \<and> job_settled rjid k)"
  unfolding dispatch_block_def
  apply (rule sees_skip, (intro frame_intros), rule sees_skip_val, (intro frame_intros), drule json_act_val)
  apply (rule sees_if | (rule sees_skip, (intro frame_intros; simp add: available_request_def path_event_def; fail)))+
  subgoal
    apply (rule sees_mono [OF clean_up_flow_end])
    by (auto simp: flow_end_def job_settled_def recorded_paths_def jempty_def isNull_def split: if_splits)
  apply (rule sees_skip, (intro frame_intros; simp), rule sees_skip, (intro frame_intros; simp))
  by (rule sees_mono [OF dispatch_network_end]) blast

lemma settled_watched: "job_settled rjid (filter watched l) \<longleftrightarrow> job_settled rjid l"
proof -
  have a: "accepted e \<Longrightarrow> watched e" for e by (cases e rule: accepted.cases) (auto simp: watched_def)
  have "path_event e \<Longrightarrow> watched e" "raw_update e \<Longrightarrow> watched e" for e by (simp_all add: watched_def)
  then have "installs (filter watched l) = installs l" "releases (filter watched l) = releases l"
    "filter raw_update (filter watched l) = filter raw_update l"
    unfolding installs_def releases_def
    by (auto intro!: map_filter_mono_filter filter_cong dest!: path_event_of)
  moreover have "list_ex accepted (filter watched l) = list_ex accepted l" using a by (auto simp: list_ex_iff)
  ultimately show ?thesis by (simp add: job_settled_def)
qed

section \<open>A run that launches a transfer\<close>

text \<open>Two sites with one public DTN each, a raw job with one waiting block and a registered launcher.\<close>

fun demo_db :: "db_req \<Rightarrow> json list" where
  "demo_db (DbFindOne c f) =
     (if c = ''site'' then [jobj [(''url'', JStr ''p''), (''abbrev'', JStr ''fn'')]]
      else if c = ''rawjob'' then [jobj []]
      else [jobj [(''files'', JArr []), (''mode'', JStr ''m'')]])"
| "demo_db q = []"

definition demo_env :: "(int \<times> json) list env" where
  "demo_env = script_env\<lparr>e_db := \<lambda>q w. (Inr (demo_db q), w), e_rpc := \<lambda>k m i w. (Inr (jobj [(''code'', JInt 0)]), w)\<rparr>"

definition available_reply :: "string \<Rightarrow> int \<times> json" where
  "available_reply name = (200, jobj [(''private_dtns'', JArr []), (''public_dtns'', jarr [demo_dtn name (- 1)]), (''storage'', JNull)])"

definition demo_rm :: rm_state where
  "demo_rm = (ResourceManager JobManager int)\<lparr>rm_rg := RGraph\<lparr>general_nodes := [(launcher_id, RNode launcher_id [] 0)]\<rparr>\<rparr>"

definition demo_server :: "(int \<times> json) list srv" where
  "demo_server = (server_in demo_env [available_reply ''a'', available_reply ''b'', (200, jobj [(''code'', JInt 0)])])\<lparr>s_rm := demo_rm\<rparr>"

definition demo_sjob :: json where
  "demo_sjob = jobj
     [(''_id'', oid ''s1''), (''rawjob'', oid ''r1''), (''srcsite'', oid ''x''), (''dstsite'', oid ''y''),
      (''srcstorage'', JStr ''sa''), (''dststorage'', JStr ''sb''), (''flows'', JArr []),
      (''blocks'', jarr [jobj [(''id'', JStr ''b1''), (''state'', JInt 0)]])]"

lemma demo_env_simps:
  "e_http demo_env q w = (case w of [] \<Rightarrow> (Inr (503, JNull), []) | a # w' \<Rightarrow> (Inr a, w'))" "e_db demo_env d w = (Inr (demo_db d), w)"
  "e_rpc demo_env k m i w = (Inr (jobj [(''code'', JInt 0)]), w)" "e_now demo_env w = (0, w)" "e_rand demo_env w = (4, w)"
  "get_launcher (rm_rg demo_rm) = Inr (RNode launcher_id [] 0)" "ld_auth_password plain_conf"
  by (simp_all add: demo_env_def script_env_def demo_rm_def get_launcher_def has_launcher_def has_general_node_def has_key_def
      get_general_node_def plain_conf_def)

lemmas demo_exec = demo_env_simps http_def db_def rpc_call_def now_ms_def rand_a_def sleep_s_def json_acts
  post_command_def is_member_a_def demo_dtn_def oid_def jarr_def store_updates store_queries json_from_bson_def
  jempty_def isNull_def isArray_def isObject_def minInt_def maxInt_def jset_def jobj_reads bind_a_run numeral_eq_Suc

text \<open>The run in two halves: up to the verification of the path, and from there.\<close>

definition demo_path :: "string \<Rightarrow> json" where
  "demo_path name = jobj
     [(''id'', JStr name), (''data_ip'', JStr ''10.0.0.1''), (''data_mac'', JStr ''aa:bb''), (''sdn_setup'', JBool False),
      (''data_vlan_id'', JInt 10), (''site'', jobj [(''url'', JStr ''s''), (''abbrev'', JStr ''s'')]), (''wan_uuid'', JStr []),
      (''path_id'', JInt (- 1)), (''site'', jobj [(''url'', JStr ''p''), (''abbrev'', JStr ''fn'')]), (''wan_uuid'', JStr []),
      (''path_id'', JInt (- 1))]"

definition demo_block :: json where
  "demo_block = jobj [(''id'', JStr ''b1''), (''state'', JInt 0)]"

definition demo_ready :: "(int \<times> json) list srv \<Rightarrow> bool" where
  "demo_ready s \<longleftrightarrow> s_env s = demo_env \<and> s_world s = [(200, jobj [(''code'', JInt 0)])] \<and> s_rm s = demo_rm \<and> s_conf s = plain_conf"

lemma demo_first_half:
  "\<exists>s. schedule_sjob demo_sjob demo_server =
     verify_and_launch ''r1'' ''s1'' (jobj []) demo_block (demo_path ''a'') (demo_path ''b'') JNull JNull s \<and> demo_ready s"
  apply (simp add: demo_exec demo_server_def server_in_def available_reply_def demo_sjob_def demo_block_def demo_path_def
      schedule_sjob_def dispatch_block_def find_best_effort_dtn_pair_def choose_pair_def pick_pair_def dispatch_network_def
      with_path_def del: jobj_simps cong: bind_a_lazy)
  apply (rule exI, rule conjI, rule refl)
  apply (simp add: demo_ready_def)
  done

lemma demo_second_half:
  assumes "demo_ready s"
  shows "case verify_and_launch ''r1'' ''s1'' (jobj []) demo_block (demo_path ''a'') (demo_path ''b'') JNull JNull s of
    (r, t) \<Rightarrow> r = Inr () \<and> list_ex accepted (drop (length (s_log s)) (s_log t))"
  using assms
  by (simp add: demo_exec demo_block_def demo_path_def demo_ready_def verify_and_launch_def verify_path_def prepare_flow_def
      launch_auth_def guid_a_def launch_flow_def del: jobj_simps cong: bind_a_lazy)

lemma demo_launch:
  obtains t e k l where "schedule_sjob demo_sjob demo_server = (Inr (), t)" and "s_log t = s_log demo_server @ k @ e # l" and "accepted e"
proof -
  obtain s where s: "schedule_sjob demo_sjob demo_server =
     verify_and_launch ''r1'' ''s1'' (jobj []) demo_block (demo_path ''a'') (demo_path ''b'') JNull JNull s" "demo_ready s"
    using demo_first_half by blast
  obtain t where t: "schedule_sjob demo_sjob demo_server = (Inr (), t)" and acc: "list_ex accepted (drop (length (s_log s)) (s_log t))"
    using demo_second_half [OF s(2)] unfolding s(1) by (auto split: prod.splits)
  from acc obtain e where "e \<in> set (s_log t)" and e: "accepted e" unfolding list_ex_iff using in_set_dropD by fast
  then obtain k l where "s_log t = k @ e # l" using split_list by metis
  moreover have "s_log demo_server = []" by (simp add: demo_server_def server_in_def)
  ultimately show thesis using that [OF t _ e, of k l] by simp
qed

section \<open>Properties\<close>

lemma guarded_schedule_sjob:
  assumes "\<And>past block. guarded R is_rpc past (dispatch_block sjob block :: ('w, unit) srv_act)"
  shows "guarded R is_rpc past (schedule_sjob sjob :: ('w, unit) srv_act)"
  unfolding schedule_sjob_def
  apply (rule guarded_skip, (intro frame_intros), rule guarded_if, rule guarded_quiet, (intro frame_intros))
  apply (rule guarded_skip, (intro frame_intros), rule guarded_skip, (intro frame_intros))
  subgoal for _ _ _ _ b
    by (cases b; simp only: option.case) ((rule guarded_quiet, rule emits_quiet), rule assms)
  done

lemma guarded_log:
  assumes "guarded R is_rpc [] m" and "m s = (r, t)" and "s_log t = s_log s @ k @ Rpc q j i x # l"
  shows "list_ex (\<lambda>d. R d (Rpc q j i x)) k"
proof -
  obtain l' where "s_log t = s_log s @ l'" "after_ok R is_rpc [] l'"
    using assms(1,2) unfolding guarded_def by (metis snd_conv)
  then have "after_ok R is_rpc [] (k @ Rpc q j i x # l)" using assms(3) by simp
  then show ?thesis using after_okD by fastforce
qed

text \<open>
  C6: a transfer is launched only over a verified path. In a scheduling step of an sjob, every command to
  the launcher names the task of a flow that was recorded before it; and before that record, the portal of
  the source site of this flow was asked to ping the data address of the destination DTN of the flow from
  the source DTN of the flow, with a reply whose code reads as 0. (The null document that stands for the
  answer of a portal that cannot be reached reads as code 0 as well: see \<open>verify_path_unreachable\<close>.)
\<close>

theorem launch_after_ping:
  assumes "schedule_sjob sjob s = (r, t)" and "s_log t = s_log s @ k @ Rpc q m i x # l"
  shows "\<exists>k1 f k2 flow. k = k1 @ f # k2 \<and> starts_flow f (Rpc q m i x) \<and> flow_of f = Some flow \<and> list_ex (pings_path flow) k1"
  using guarded_by_log [OF schedule_sjob_pinged assms] unfolding pinged_and_recorded_def by simp

theorem launch_after_ping_witness:
  "\<exists>t k q m i x l. schedule_sjob demo_sjob demo_server = (Inr (), t) \<and> s_log t = s_log demo_server @ k @ Rpc q m i x # l \<and>
     (\<exists>k1 f k2 flow. k = k1 @ f # k2 \<and> starts_flow f (Rpc q m i x) \<and> flow_of f = Some flow \<and> list_ex (pings_path flow) k1)"
proof -
  obtain t e k l where run: "schedule_sjob demo_sjob demo_server = (Inr (), t)" "s_log t = s_log demo_server @ k @ e # l" "accepted e"
    by (rule demo_launch)
  then obtain q m i x where "e = Rpc q m i x" by (cases e rule: accepted.cases) auto
  note run = run(1) run(2) [unfolded this]
  with launch_after_ping [OF run] show ?thesis by blast
qed

text \<open>
  A transfer is launched only for a flow that is on record. Every command to the launcher names the task
  of a flow that was appended to the flows of an sjob before.
\<close>

lemma launch_for_recorded_flow:
  assumes "schedule_sjob sjob s = (r, t)" and "s_log t = s_log s @ k @ Rpc q m i x # l"
  shows "list_ex (\<lambda>d. starts_flow d (Rpc q m i x)) k"
  using guarded_log [OF guarded_schedule_sjob [OF dispatch_block_recorded] assms] .

lemma launch_for_recorded_flow_witness:
  "\<exists>t k q m i x l. schedule_sjob demo_sjob demo_server = (Inr (), t) \<and> s_log t = s_log demo_server @ k @ Rpc q m i x # l \<and>
     list_ex (\<lambda>d. starts_flow d (Rpc q m i x)) k"
proof -
  obtain t e k l where run: "schedule_sjob demo_sjob demo_server = (Inr (), t)" "s_log t = s_log demo_server @ k @ e # l" "accepted e"
    by (rule demo_launch)
  then obtain q m i x where "e = Rpc q m i x" by (cases e rule: accepted.cases) auto
  note run = run(1) run(2) [unfolded this]
  with launch_for_recorded_flow [OF run] show ?thesis by blast
qed

text \<open>
  C38: one transfer at a time. In a scheduling pass over some sjobs, whatever the environment answers, the
  number of commands to the launcher is at most the number of those sjobs that have no flow.
\<close>

theorem launches_at_most_idle:
  "\<exists>l. s_log (snd (foreach_a schedule_sjob sjobs s)) = s_log s @ l \<and> length (filter is_rpc l) \<le> length (filter idle sjobs)"
proof -
  have "sum_list (map (\<lambda>j. if idle j then 1 else 0) sjobs) = length (filter idle sjobs)"
    by (induction sjobs) simp_all
  moreover have "at_most is_rpc (sum_list (map (\<lambda>j. if idle j then 1 else 0) sjobs)) (foreach_a schedule_sjob sjobs)"
    by (rule at_most_foreach) (rule schedule_sjob_once)
  ultimately show ?thesis unfolding at_most_def by metis
qed

text \<open>
  C3: a dispatched job is settled and leaks no path. When the dispatch of a block returns, the state of its
  raw job was written exactly once: to transferring if the launcher accepted the transfer, and then no SDN
  path was released; to error otherwise, and then exactly the SDN paths that were installed for it were
  released, in the order of their installation.
\<close>

theorem dispatch_settles_job:
  assumes "dispatch_block sjob block s = (Inr u, t)"
  shows "\<exists>l rjid. s_log t = s_log s @ l \<and> Option.bind (jget sjob [K ''rawjob'', K ''$oid'']) asString = Some rjid \<and> job_settled rjid l"
  using seesD [OF dispatch_block_end assms] by (auto simp: settled_watched simp del: jget.simps)

theorem dispatch_settles_job_witness:
  "\<exists>t. dispatch_block demo_sjob demo_block demo_server = (Inr (), t) \<and> job_settled ''r1'' (s_log t)"
proof -
  have "schedule_sjob demo_sjob demo_server = dispatch_block demo_sjob demo_block demo_server"
    by (simp add: schedule_sjob_def demo_sjob_def demo_block_def jget_a_def jarr_def bind_a_run minInt_def maxInt_def)
  then obtain t where t: "dispatch_block demo_sjob demo_block demo_server = (Inr (), t)" by (metis demo_launch)
  have "s_log demo_server = []" by (simp add: demo_server_def server_in_def)
  with dispatch_settles_job [OF t] have "job_settled ''r1'' (s_log t)" by (auto simp: demo_sjob_def oid_def)
  with t show ?thesis by blast
qed

end
