(* ===== verification/Transfer_Status.thy ===== *)
theory Transfer_Status
  imports Job_Schedule
begin

text \<open>
  The status reports of the launcher agent, \<open>Scheduler::mld_status\<close> of \<open>src/server/scheduler.cc\<close>: a block
  has started, has failed or has arrived. After a block has arrived it is counted, its checksums are
  verified, and the flow goes on with the next waiting block, repeats this one, or is closed.
\<close>

section \<open>Traffic counters\<close>

definition tsrate :: measurement where
  "tsrate = \<lparr>ms_name = ''job'', ms_fields = [''rate''], ms_tags = [''group'', ''id'']\<rparr>"

definition tsjobs :: measurement where
  "tsjobs = \<lparr>ms_name = ''jobs'', ms_fields = [''active_be'', ''active_rt'', ''waiting'', ''error''], ms_tags = []\<rparr>"

definition ts_site_txrx :: measurement where
  "ts_site_txrx = \<lparr>ms_name = ''site_txrx'', ms_fields = [''tx_bytes'', ''rx_bytes''], ms_tags = [''id'']\<rparr>"

text \<open>\<open>site_txrx[id].first += n\<close> and \<open>.second += n\<close>; the subscript inserts a pair of zeros when there is none.\<close>

definition add_tx :: "string \<Rightarrow> int \<Rightarrow> ('w, unit) srv_act" where
  "add_tx i n = upd_a (\<lambda>s. s\<lparr>site_txrx := adjust i (\<lambda>(t, r). (t + n, r)) (emplace i (0, 0) (site_txrx s))\<rparr>)"

definition add_rx :: "string \<Rightarrow> int \<Rightarrow> ('w, unit) srv_act" where
  "add_rx i n = upd_a (\<lambda>s. s\<lparr>site_txrx := adjust i (\<lambda>(t, r). (t, r + n)) (emplace i (0, 0) (site_txrx s))\<rparr>)"

text \<open>
  \<open>bytes * 1000.0 / ms\<close> as it enters a document. A quotient by zero is an infinity or not a number; the
  document holds it in the notation of MongoDB.
\<close>

definition avg_rate_doc :: "int \<Rightarrow> int \<Rightarrow> json" where
  "avg_rate_doc bytes ms =
     (if ms \<noteq> 0 then JReal (of_int bytes * 1000 / of_int ms)
      else jobj [(''$numberDouble'', JStr (if 0 < bytes then ''Infinity'' else if bytes < 0 then ''-Infinity'' else ''NaN''))])"

fun find_block :: "string \<Rightarrow> json list \<Rightarrow> (exn, json option) result" where
  "find_block bid [] = Inr None"
| "find_block bid (b # bs) =
     bind_r (opt_r Json_error (Option.bind (at_key b ''id'') asString)) (\<lambda>i.
     if i = bid then Inr (Some b) else find_block bid bs)"

section \<open>Closing a flow\<close>

definition close_path :: "string \<Rightarrow> json \<Rightarrow> ('w, unit) srv_act" where
  "close_path sid flow =
     bind_a (update_sjob_stage sid ''teardown.general'' SG_working) (\<lambda>_.
     bind_a (jget_a flow [K ''srcdtn'']) (\<lambda>src.
     bind_a (jget_a flow [K ''dstdtn'']) (\<lambda>dst.
     bind_a (teardown_sdn_path sid src dst) (\<lambda>res_sdn.
     bind_a (jstr_a flow [K ''srcdtn'', K ''wan_uuid'']) (\<lambda>uuid.
     bind_a (teardown_wan_path sid uuid) (\<lambda>res_wan.
     update_sjob_stage sid ''teardown.general'' (if res_sdn \<noteq> 0 \<or> res_wan \<noteq> 0 then SG_error else SG_success)))))))"

definition job_fail :: "string \<Rightarrow> string \<Rightarrow> string \<Rightarrow> ('w, unit) srv_act" where
  "job_fail err sid rjid =
     seq_a
       [update_sjob_stage sid ''transfer.general'' SG_error,
        update_sjob_state sid SJ_error,
        update_rawjob_state rjid RJ_error,
        update_collection_field ''sjob'' sid ''error'' (JStr err),
        update_collection_field ''rawjob'' rjid ''error'' (JStr err)]"

section \<open>A block has started\<close>

definition block_started :: "string \<Rightarrow> string \<Rightarrow> string \<Rightarrow> ('w, unit) srv_act" where
  "block_started task sid blockid =
     seq_a
       [update_sjob_flow_state task FL_transferring,
        update_sjob_state sid SJ_transferring,
        update_sjob_stage sid ''transfer.launch'' SG_success,
        update_sjob_stage sid ''transfer.transfer'' SG_working,
        bind_a now_ms (\<lambda>t. update_sjob_block_field blockid ''start'' (JInt t))]"

section \<open>A block has failed\<close>

definition mdtm_error :: "int \<Rightarrow> string" where
  "mdtm_error ec =
     (if ec = 201 then ''no port available''
      else if ec = 202 then ''authorization failed''
      else if ec = 203 then ''error in reading proxy credential''
      else if ec = 204 then ''certificate expired''
      else if ec = 205 then ''operation aborted, maybe caused by connection failures''
      else if ec = 206 then ''end of file reached''
      else ''unknown error'')"

definition block_failed :: "string \<Rightarrow> string \<Rightarrow> string \<Rightarrow> string \<Rightarrow> json \<Rightarrow> json \<Rightarrow> ('w, unit) srv_act" where
  "block_failed task sid rjid blockid flow params =
     bind_a (jint_a params [K ''error_code'']) (\<lambda>ec.
     seq_a
       [update_sjob_stage sid ''transfer.launch'' SG_success,
        update_sjob_stage sid ''transfer.transfer'' SG_error,
        update_sjob_flow_state task FL_error,
        update_sjob_block_state blockid BL_waiting,
        close_path sid flow,
        job_fail (''mdtm error code: '' @ to_string ec @ ''</br> error message: '' @ mdtm_error ec) sid rjid])"

section \<open>A block has arrived\<close>

text \<open>What was not counted yet of the block goes to every counter.\<close>

definition report_site :: "json \<Rightarrow> ('w, unit) srv_act" where
  "report_site site =
     bind_a (jint64_a site [K ''tx_bytes'']) (\<lambda>tx.
     bind_a (jint64_a site [K ''rx_bytes'']) (\<lambda>rx.
     bind_a (jstr_a site [K ''_id'', K ''$oid'']) (\<lambda>i.
     ts_insert ts_site_txrx [TsInt tx, TsInt rx] [i])))"

definition count_block :: "string \<Rightarrow> string \<Rightarrow> string \<Rightarrow> string \<Rightarrow> json \<Rightarrow> json \<Rightarrow> ('w, unit) srv_act" where
  "count_block task sid rjid blockid sjob b =
     bind_a now_ms (\<lambda>milli_end.
     bind_a (jint64_a b [K ''start'']) (\<lambda>milli_start.
     bind_a (jint64_a b [K ''size'']) (\<lambda>size.
     bind_a (jint64_a b [K ''tx_bytes'']) (\<lambda>txbs.
     bind_a (update_sjob_block_field blockid ''avg_rate'' (avg_rate_doc size (milli_end - milli_start))) (\<lambda>_.
     bind_a (increment_sjob_block_field blockid ''tx_bytes'' (size - txbs)) (\<lambda>_.
     bind_a (increment_sjob_flow_field task ''tx_bytes'' (size - txbs)) (\<lambda>_.
     bind_a (increment_sjob_field sid ''tx_bytes'' (size - txbs)) (\<lambda>_.
     bind_a (increment_rawjob_field rjid ''tx_bytes'' (size - txbs)) (\<lambda>_.
     bind_a (jstr_a sjob [K ''srcsite'', K ''$oid'']) (\<lambda>src.
     bind_a (increment_site_field src ''tx_bytes'' (size - txbs)) (\<lambda>src_site.
     bind_a (jstr_a sjob [K ''dstsite'', K ''$oid'']) (\<lambda>dst.
     bind_a (increment_site_field dst ''rx_bytes'' (size - txbs)) (\<lambda>dst_site.
     bind_a (add_tx src (size - txbs)) (\<lambda>_.
     bind_a (add_rx dst (size - txbs)) (\<lambda>_.
     bind_a (report_site src_site) (\<lambda>_.
     report_site dst_site))))))))))))))))"

text \<open>A block whose checksums do not match is taken off the counters again, those of the sites excepted.\<close>

definition uncount_block :: "string \<Rightarrow> string \<Rightarrow> string \<Rightarrow> string \<Rightarrow> json \<Rightarrow> ('w, unit) srv_act" where
  "uncount_block task sid rjid blockid b =
     bind_a (jint64_a b [K ''size'']) (\<lambda>size.
     seq_a
       [increment_sjob_block_field blockid ''tx_bytes'' (- size),
        increment_sjob_flow_field task ''tx_bytes'' (- size),
        increment_sjob_field sid ''tx_bytes'' (- size),
        increment_rawjob_field rjid ''tx_bytes'' (- size)])"

definition on_block :: "string \<Rightarrow> json \<Rightarrow> (json \<Rightarrow> ('w, unit) srv_act) \<Rightarrow> ('w, unit) srv_act" where
  "on_block blockid sjob f =
     bind_a (jget_a sjob [K ''blocks'']) (\<lambda>blocks.
     bind_a (lift_r (find_block blockid (elems blocks))) (\<lambda>b.
     case b of None \<Rightarrow> ret_a () | Some b \<Rightarrow> f b))"

definition checksum_request :: "json \<Rightarrow> json \<Rightarrow> json \<Rightarrow> json" where
  "checksum_request dtn algorithm checksums = jobj
     [(''cmd'', JStr ''verify_checksum''),
      (''params'', jobj [(''dtn'', dtn), (''algorithm'', algorithm), (''checksums'', checksums)])]"

datatype verdict = Block_good | Block_again | Job_failed

definition checksum_failed :: "string \<Rightarrow> string \<Rightarrow> string \<Rightarrow> string \<Rightarrow> json \<Rightarrow> json \<Rightarrow> ('w, verdict) srv_act" where
  "checksum_failed task sid rjid blockid sjob flow =
     bind_a (update_sjob_stage sid ''transfer.checksum'' SG_error) (\<lambda>_.
     bind_a (on_block blockid sjob (uncount_block task sid rjid blockid)) (\<lambda>_.
     bind_a (increment_sjob_field sid ''transfer_retry'' 1) (\<lambda>_.
     bind_a (jint_a sjob [K ''transfer_retry'']) (\<lambda>retry.
     if 2 \<le> retry then
       bind_a (close_path sid flow) (\<lambda>_.
       bind_a (job_fail ''exceed maximum transfer retry, job failed'' sid rjid) (\<lambda>_.
       ret_a Job_failed))
     else ret_a Block_again))))"

definition verify_checksums :: "string \<Rightarrow> string \<Rightarrow> string \<Rightarrow> string \<Rightarrow> json \<Rightarrow> json \<Rightarrow> json \<Rightarrow> ('w, verdict) srv_act" where
  "verify_checksums task sid rjid blockid sjob flow block_files =
     bind_a (update_sjob_state sid SJ_checksum_verification) (\<lambda>_.
     bind_a (update_sjob_stage sid ''transfer.checksum'' SG_working) (\<lambda>_.
     bind_a (jget_a flow [K ''dstdtn'', K ''id'']) (\<lambda>dtn.
     bind_a (jget_a block_files [K ''checksum'', K ''algorithm'']) (\<lambda>algorithm.
     bind_a (jget_a block_files [K ''checksum'', K ''checksums'']) (\<lambda>checksums.
     bind_a (jstr_a sjob [K ''dstsite'', K ''$oid'']) (\<lambda>dsite.
     bind_a (get_site_info dsite) (\<lambda>dst_site_info.
     bind_a (jstr_a dst_site_info [K ''url'']) (\<lambda>url.
     bind_a (post_command url (checksum_request dtn algorithm checksums)) (\<lambda>(http_code, r).
     bind_a (if http_code \<noteq> 200 then ret_a True
             else bind_a (jget_a r [K ''code'']) (\<lambda>c. ret_a (\<not> json_eq c (JInt 0)))) (\<lambda>failed.
     if failed then checksum_failed task sid rjid blockid sjob flow
     else
       bind_a (update_sjob_stage sid ''transfer.checksum'' SG_success) (\<lambda>_.
       ret_a Block_good)))))))))))"

definition verify_block :: "string \<Rightarrow> string \<Rightarrow> string \<Rightarrow> string \<Rightarrow> json \<Rightarrow> json \<Rightarrow> json \<Rightarrow> ('w, verdict) srv_act" where
  "verify_block task sid rjid blockid sjob flow block_files =
     bind_a (is_member_a block_files ''checksum'') (\<lambda>has_checksum.
     bind_a (get_a (\<lambda>s. ld_checksum (s_conf s))) (\<lambda>ld.
     if \<not> ld \<or> \<not> has_checksum then ret_a Block_good
     else verify_checksums task sid rjid blockid sjob flow block_files))"

text \<open>
  The next block: the first one that is neither this one nor finished nor being transferred. The result
  says whether all the others are finished, and which one is to be sent (none: all are assigned).
\<close>

fun next_block :: "string \<Rightarrow> json list \<Rightarrow> bool \<Rightarrow> (exn, bool \<times> string option) result" where
  "next_block blockid [] finished = Inr (finished, None)"
| "next_block blockid (b # bs) finished =
     bind_r (opt_r Json_error (at_key b ''id'')) (\<lambda>i.
     if json_eq i (JStr blockid) then next_block blockid bs finished
     else
       bind_r (opt_r Json_error (Option.bind (at_key b ''state'') asInt)) (\<lambda>bstate.
       if bstate = block_state_int BL_finished then next_block blockid bs finished
       else if bstate = block_state_int BL_transferring then next_block blockid bs False
       else
         bind_r (opt_r Json_error (asString i)) (\<lambda>n. Inr (False, Some n))))"

text \<open>All blocks are assigned: the flow is closed, and with it the job when all blocks are finished.\<close>

fun all_finished :: "json list \<Rightarrow> (exn, bool) result" where
  "all_finished [] = Inr True"
| "all_finished (j # js) =
     bind_r (opt_r Json_error (Option.bind (at_key j ''state'') asInt)) (\<lambda>st.
     if st \<noteq> sjob_state_int SJ_finished then Inr False else all_finished js)"

definition max_concurrent_flows_per_job :: int where
  "max_concurrent_flows_per_job = 1"

definition close_flow :: "string \<Rightarrow> string \<Rightarrow> string \<Rightarrow> json \<Rightarrow> json \<Rightarrow> bool \<Rightarrow> ('w, unit) srv_act" where
  "close_flow task sid rjid sjob flow finished =
     bind_a (update_sjob_flow_state task FL_waiting_to_be_teared) (\<lambda>_.
     bind_a (when_a finished (update_sjob_stage sid ''transfer.general'' SG_success)) (\<lambda>_.
     bind_a (close_path sid flow) (\<lambda>_.
     if finished then
       bind_a (update_sjob_state sid SJ_finished) (\<lambda>_.
       bind_a (get_sjobs_from_rawjob_id rjid) (\<lambda>sjobs.
       bind_a (lift_r (all_finished (elems sjobs))) (\<lambda>rawjob_finished.
       when_a rawjob_finished (update_rawjob_state rjid RJ_finished))))
     else
       bind_a (jint_a sjob [K ''max_flows'']) (\<lambda>m.
       when_a (m < max_concurrent_flows_per_job)
         (update_collection_field ''sjob'' sid ''max_flows'' (JInt max_concurrent_flows_per_job))))))"

text \<open>Sending a block on the same flow. The answer of the launcher is only logged.\<close>

definition launch_next :: "string \<Rightarrow> string \<Rightarrow> string \<Rightarrow> string \<Rightarrow> json \<Rightarrow> json \<Rightarrow> bool \<Rightarrow> ('w, unit) srv_act" where
  "launch_next task sid rjid blockid flow block_files find_new_block =
     bind_a (update_sjob_stage sid ''transfer.launch'' SG_working) (\<lambda>_.
     bind_a (update_sjob_stage sid ''transfer.transfer'' SG_pending) (\<lambda>_.
     bind_a (get_a (\<lambda>s. ld_checksum (s_conf s))) (\<lambda>ld.
     bind_a (when_a (ld \<and> find_new_block) (update_sjob_stage sid ''transfer.checksum'' SG_pending)) (\<lambda>_.
     bind_a (jget_a flow [K ''launching'']) (\<lambda>launching.
     bind_a (jget_a block_files [K ''files'']) (\<lambda>files.
     bind_a (jset_a [K ''params'', K ''files''] files launching) (\<lambda>cmd1.
     bind_a (jget_a block_files [K ''mode'']) (\<lambda>mode.
     bind_a (jset_a [K ''params'', K ''mode''] mode cmd1) (\<lambda>launch_cmd.
     bind_a (get_a (\<lambda>s. rm_rg (s_rm s))) (\<lambda>g.
     if \<not> has_launcher g then
       bind_a (update_sjob_stage sid ''transfer.launch'' SG_error) (\<lambda>_.
       bind_a (close_path sid flow) (\<lambda>_.
       job_fail ''launcher agent not avaialbe, job failed'' sid rjid))
     else
       bind_a (update_sjob_state sid SJ_launching) (\<lambda>_.
       bind_a (lift_r (get_launcher g)) (\<lambda>launcher.
       bind_a (rpc_call (rqueue launcher) launch_cmd 20) (\<lambda>_.
       seq_a
         [update_sjob_block_state blockid BL_transferring,
          update_sjob_flow_field task ''block'' (JStr blockid),
          update_sjob_flow_state task FL_setting,
          update_rawjob_state rjid RJ_transferring])))))))))))))"

definition block_finished :: "string \<Rightarrow> string \<Rightarrow> string \<Rightarrow> string \<Rightarrow> json \<Rightarrow> json \<Rightarrow> ('w, unit) srv_act" where
  "block_finished task sid rjid blockid sjob flow =
     bind_a (update_sjob_stage sid ''transfer.launch'' SG_success) (\<lambda>_.
     bind_a (update_sjob_stage sid ''transfer.transfer'' SG_success) (\<lambda>_.
     bind_a (update_sjob_flow_state task FL_waiting) (\<lambda>_.
     bind_a (on_block blockid sjob (count_block task sid rjid blockid sjob)) (\<lambda>_.
     bind_a (get_block_files blockid) (\<lambda>block_files.
     bind_a (verify_block task sid rjid blockid sjob flow block_files) (\<lambda>v.
     case v of
       Job_failed \<Rightarrow> ret_a ()
     | Block_again \<Rightarrow> launch_next task sid rjid blockid flow block_files False
     | Block_good \<Rightarrow>
         bind_a (update_sjob_block_state blockid BL_finished) (\<lambda>_.
         bind_a now_ms (\<lambda>t.
         bind_a (update_sjob_block_field blockid ''end'' (JInt t)) (\<lambda>_.
         bind_a (jget_a sjob [K ''blocks'']) (\<lambda>blocks.
         bind_a (lift_r (next_block blockid (elems blocks) True)) (\<lambda>(finished, nxt).
         case nxt of
           None \<Rightarrow> close_flow task sid rjid sjob flow finished
         | Some b \<Rightarrow> bind_a (get_block_files b) (\<lambda>files. launch_next task sid rjid b flow files True))))))))))))"

section \<open>The handler\<close>

fun find_flow :: "string \<Rightarrow> json list \<Rightarrow> (exn, (json \<times> string) option) result" where
  "find_flow task [] = Inr None"
| "find_flow task (f # fs) =
     bind_r (opt_r Json_error (Option.bind (at_key f ''task'') asString)) (\<lambda>t.
     if t = task then
       bind_r (opt_r Json_error (Option.bind (at_key f ''block'') asString)) (\<lambda>b. Inr (Some (f, b)))
     else find_flow task fs)"

definition mld_status :: "string \<Rightarrow> json \<Rightarrow> ('w, unit) srv_act" where
  "mld_status task params =
     bind_a (jint_a params [K ''state'']) (\<lambda>state.
     bind_a (get_sjob_from_task_id task) (\<lambda>sjob.
     bind_a (jstr_a sjob [K ''_id'', K ''$oid'']) (\<lambda>sid.
     bind_a (jstr_a sjob [K ''rawjob'', K ''$oid'']) (\<lambda>rjid.
     bind_a (is_member_a sjob ''error'') (\<lambda>unknown.
     if unknown then ret_a ()
     else
       bind_a (jget_a sjob [K ''flows'']) (\<lambda>flows.
       bind_a (lift_r (find_flow task (elems flows))) (\<lambda>f.
       case f of
         None \<Rightarrow> ret_a ()
       | Some (flow, blockid) \<Rightarrow>
           if isNull flow \<or> blockid = [] then ret_a ()
           else if state = 1 then block_started task sid blockid
           else if state = 2 then block_failed task sid rjid blockid flow params
           else if state = 3 then block_finished task sid rjid blockid sjob flow
           else ret_a ())))))))"

section \<open>What the operations send\<close>

lemma emits_counters [frame_intros]: "emits P (add_tx i n)" "emits P (add_rx i n)"
  unfolding add_tx_def add_rx_def by (intro frame_intros; simp)+

lemma emits_report_site [frame_intros]: "(\<And>q. P (Ts q)) \<Longrightarrow> emits P (report_site site)"
  unfolding report_site_def by (intro frame_intros)

lemma emits_close_path [frame_intros]:
  assumes "\<And>q r. P (Http q r)" "\<And>q r. on_sjob q \<Longrightarrow> P (Db q r)" "\<And>n. P (Sleep n)"
  shows "emits P (close_path sid flow)"
  unfolding close_path_def by (intro frame_intros assms; simp add: assms)

lemma emits_job_fail [frame_intros]:
  assumes "\<And>q r. on_sjob q \<Longrightarrow> P (Db q r)" "\<And>f u r. P (Db (DbUpdateOne ''rawjob'' f u) r)"
    "\<And>f u r. P (Db (DbFindOneAndUpdate ''rawjob'' f u) r)"
  shows "emits P (job_fail err sid rjid)"
  unfolding job_fail_def seq_a.simps by (intro frame_intros assms; simp add: assms on_sjob_def)

lemma emits_on_block [frame_intros]: "(\<And>b. emits P (f b)) \<Longrightarrow> emits P (on_block blockid sjob f)"
  unfolding on_block_def by (intro frame_intros)

lemma emits_count [frame_intros]:
  assumes "\<And>q r. on_sjob q \<Longrightarrow> P (Db q r)" "\<And>f u r. P (Db (DbUpdateOne ''rawjob'' f u) r)"
  shows "(\<And>f u r. P (Db (DbFindOneAndUpdate ''site'' f u) r)) \<Longrightarrow> (\<And>q. P (Ts q)) \<Longrightarrow> emits P (count_block task sid rjid blockid sjob b)"
    "emits P (uncount_block task sid rjid blockid b)"
  unfolding count_block_def uncount_block_def seq_a.simps by (intro frame_intros; simp add: assms)+

end
