(* ===== verification/Status_Props.thy ===== *)
theory Status_Props
  imports Schedule_Props Transfer_Status
begin

text \<open>
  What the handler of status reports promises: what becomes of a flow and of its paths after every report,
  when a block counts as finished, which counters move and by how much.
\<close>

section \<open>How a report ends\<close>

text \<open>An update that sets a field of a raw job (the counters are incremented by other updates).\<close>

fun raw_assign :: "event \<Rightarrow> bool" where
  "raw_assign (Db (DbUpdateOne c f u) r) \<longleftrightarrow> c = ''rawjob'' \<and> isMember u ''$set'' = Some True"
| "raw_assign e \<longleftrightarrow> False"

definition noted :: "event \<Rightarrow> bool" where
  "noted e \<longleftrightarrow> path_event e \<or> is_rpc e \<or> raw_assign e"

lemma noted_simps [simp]:
  "noted (Sleep n) = False" "noted (Ts q) = False" "on_sjob d \<Longrightarrow> noted (Db d r) = False" "noted (Db (DbFind c f g) r) = False"
  "noted (Db (DbFindOne c f) r) = False" "noted (Db (DbFindOneAndUpdate c f u) r) = False" "noted (Rpc k m i x)"
  "noted (Http h z) = path_event (Http h z)"
  by (cases d; auto simp: noted_def on_sjob_def path_event_def)+

lemma sees_when: "(b \<Longrightarrow> sees Q m \<Psi>) \<Longrightarrow> (\<not> b \<Longrightarrow> \<Psi> () []) \<Longrightarrow> sees Q (when_a b m) \<Psi>"
  by (cases b) (simp_all add: sees_def)

definition flow_paths :: "json \<Rightarrow> int list \<Rightarrow> bool" where
  "flow_paths flow ps \<longleftrightarrow> (\<exists>src dst sp dp. jget flow [K ''srcdtn''] = Some src \<and> jget flow [K ''dstdtn''] = Some dst \<and>
     path_of src = Some sp \<and> path_of dst = Some dp \<and> ps = live [sp, dp])"

text \<open>
  The flow goes on: one command to the launcher, and the raw job is transferring. Or it is closed: its
  paths are released, and the raw job is left alone, finished or in error.
\<close>

definition status_end :: "string \<Rightarrow> json \<Rightarrow> event list \<Rightarrow> bool" where
  "status_end rjid flow k \<longleftrightarrow> installs k = [] \<and>
     (if list_ex is_rpc k then length (filter is_rpc k) = 1 \<and> releases k = [] \<and> (\<exists>e. filter raw_assign k = [e] \<and> raw_set rjid RJ_transferring e)
      else flow_paths flow (releases k) \<and>
        (filter raw_assign k = [] \<or> (\<exists>e. filter raw_assign k = [e] \<and> (raw_set rjid RJ_error e \<or> raw_set rjid RJ_finished e))))"

definition quiet_end :: "event list \<Rightarrow> bool" where
  "quiet_end k \<longleftrightarrow> installs k = [] \<and> \<not> list_ex is_rpc k \<and> filter raw_assign k = []"

lemma path_event_quiet: "path_event e \<Longrightarrow> \<not> is_rpc e \<and> \<not> raw_assign e"
  by (cases e) (auto simp: path_event_def)

lemma path_events_quiet: "list_all path_event k \<Longrightarrow> \<not> list_ex is_rpc k \<and> filter raw_assign k = []"
  using path_event_quiet by (auto simp: list_all_iff list_ex_iff filter_empty_conv)

lemma teardown_noted:
  "sees noted (teardown_sdn_path sid src_dtn dst_dtn) (\<lambda>r k. r = 0 \<and> quiet_end k \<and> (\<exists>sp dp.
     path_of src_dtn = Some sp \<and> path_of dst_dtn = Some dp \<and> releases k = live [sp, dp]))"
  by (rule sees_widen [OF sees_mono [OF sees_only [OF teardown_sdn_path_log]]])
    ((use path_events_quiet in \<open>auto simp: quiet_end_def\<close>), (intro frame_intros; simp))

lemma close_path_end: "sees noted (close_path sid flow) (\<lambda>_ k. quiet_end k \<and> flow_paths flow (releases k))"
  unfolding close_path_def
  apply (rule sees_skip, (intro frame_intros; simp))
  apply (rule sees_skip_val, (intro frame_intros), drule json_act_val, rule sees_skip_val, (intro frame_intros), drule json_act_val)
  apply (rule sees_bind [OF teardown_noted])
  apply (rule sees_end, (intro frame_intros; simp))
  by (auto simp: flow_paths_def simp del: jget.simps)

lemma raw_set_noted:
  "sees noted (update_rawjob_state rjid ns) (\<lambda>_ k. \<exists>e. k = [e] \<and> raw_assign e \<and> raw_set rjid ns e)"
  unfolding update_rawjob_state_def unit_a_def
  by (rule sees_bind [OF sees_db [where \<Psi> = "\<lambda>_ k. \<exists>e. k = [e] \<and> raw_assign e \<and> raw_set rjid ns e"]])
    (auto simp: raw_set_def noted_def set_doc_def has_key_def intro!: sees_ret)

lemma raw_assign_quiet [simp]: "raw_assign e \<Longrightarrow> \<not> is_rpc e" "raw_assign e \<Longrightarrow> install_of e = None" "raw_assign e \<Longrightarrow> release_of e = None"
  by (cases e rule: raw_assign.cases; simp add: install_of_def)+

lemma raw_inc_noted [frame_intros]: "emits (\<lambda>e. \<not> noted e) (increment_rawjob_field rjid f n)"
  unfolding increment_rawjob_field_def by (intro frame_intros) (simp add: noted_def inc_doc_def has_key_def)

lemma job_fail_end: "sees noted (job_fail err sid rjid) (\<lambda>_ k. \<exists>e. k = [e] \<and> raw_assign e \<and> raw_set rjid RJ_error e)"
  unfolding job_fail_def seq_a.simps
  apply (rule sees_skip, (intro frame_intros; simp), rule sees_skip, (intro frame_intros; simp), rule sees_bind [OF raw_set_noted])
  by (rule sees_end, (intro frame_intros; simp add: on_sjob_def)) auto

text \<open>Closing the path and failing the job, the common end of three branches.\<close>

lemma close_and_fail:
  "sees noted (bind_a (close_path sid flow) (\<lambda>_. job_fail err sid rjid)) (\<lambda>_. status_end rjid flow)"
  apply (rule sees_bind [OF close_path_end])
  by (rule sees_mono [OF job_fail_end]) (auto simp: quiet_end_def status_end_def)

lemma launch_next_end:
  "sees noted (launch_next task sid rjid blockid flow files b) (\<lambda>_. status_end rjid flow)"
  unfolding launch_next_def seq_a.simps
  apply ((rule close_and_fail | rule sees_rpc | rule sees_if | (rule sees_skip, (intro frame_intros; simp; fail)))+)
  apply (rule sees_bind [OF raw_set_noted], rule sees_ret)
  by (auto simp: status_end_def)

lemma close_flow_end:
  "sees noted (close_flow task sid rjid sjob flow finished) (\<lambda>_. status_end rjid flow)"
  unfolding close_flow_def
  apply (rule sees_skip, (intro frame_intros; simp), rule sees_skip, (intro frame_intros; simp))
  apply (rule sees_bind [OF close_path_end], rule sees_if)
   apply (rule sees_skip, (intro frame_intros; simp), rule sees_skip, (intro frame_intros; simp), rule sees_skip, (intro frame_intros))
   apply (rule sees_when)
  subgoal by (rule sees_mono [OF raw_set_noted]) (auto simp: quiet_end_def status_end_def)
  subgoal by (auto simp: quiet_end_def status_end_def)
  apply (rule sees_end, (intro frame_intros; simp add: on_sjob_def))
  by (auto simp: quiet_end_def status_end_def)

lemma checksum_no_path [simp]: "\<not> path_event (Http (HPost u (checksum_request i a c)) z)"
  by (simp add: path_event_def checksum_request_def)

definition verdict_end :: "string \<Rightarrow> json \<Rightarrow> verdict \<Rightarrow> event list \<Rightarrow> bool" where
  "verdict_end rjid flow v k \<longleftrightarrow> (if v = Job_failed then status_end rjid flow k else k = [])"

lemma checksum_failed_end: "sees noted (checksum_failed task sid rjid blockid sjob flow) (verdict_end rjid flow)"
proof -
  have un: "emits (\<lambda>e. \<not> noted e) (on_block blockid sjob (uncount_block task sid rjid blockid))"
    unfolding uncount_block_def seq_a.simps by (intro frame_intros; simp)
  show ?thesis unfolding checksum_failed_def
    apply (rule sees_skip, (intro frame_intros; simp), rule sees_skip, rule un, rule sees_skip, (intro frame_intros; simp))
    apply (rule sees_skip, (intro frame_intros), rule sees_if)
    subgoal
      apply (subst bind_a_assoc [symmetric])
      apply (rule sees_bind [OF close_and_fail], rule sees_ret)
      by (simp add: verdict_end_def)
    by (rule sees_ret) (simp add: verdict_end_def)
qed

lemma verify_block_end: "sees noted (verify_block task sid rjid blockid sjob flow files) (verdict_end rjid flow)"
  unfolding verify_block_def verify_checksums_def
  by (rule checksum_failed_end | rule sees_if | rule sees_case_prod | (rule sees_skip, (intro frame_intros; simp; fail))
    | (rule sees_ret, simp add: verdict_end_def; fail))+

lemma count_block_quiet: "emits (\<lambda>e. \<not> noted e) (on_block blockid sjob (count_block task sid rjid blockid sjob))"
  unfolding count_block_def by (intro frame_intros; simp)

lemma block_finished_end: "sees noted (block_finished task sid rjid blockid sjob flow) (\<lambda>_. status_end rjid flow)"
  unfolding block_finished_def
  apply (rule sees_skip, (intro frame_intros; simp), rule sees_skip, (intro frame_intros; simp), rule sees_skip, (intro frame_intros; simp))
  apply (rule sees_skip, rule count_block_quiet, rule sees_skip, (intro frame_intros; simp))
  apply (rule sees_bind [OF verify_block_end])
  subgoal for _ _ _ _ files v k
    apply (cases v; simp only: verdict.case verdict_end_def verdict.distinct if_False if_True append_Nil)
      apply (rule sees_skip, (intro frame_intros; simp), rule sees_skip, (intro frame_intros), rule sees_skip, (intro frame_intros; simp))
      apply (rule sees_skip, (intro frame_intros), rule sees_skip, (intro frame_intros), rule sees_case_prod, rule sees_case_option)
       apply (rule close_flow_end)
      apply (rule sees_skip, (intro frame_intros; simp), rule launch_next_end)
     apply (rule launch_next_end)
    apply (rule sees_ret, simp)
    done
  done

lemma block_failed_end: "sees noted (block_failed task sid rjid blockid flow params) (\<lambda>_. status_end rjid flow)"
  unfolding block_failed_def seq_a.simps
  apply ((rule sees_skip, (intro frame_intros; simp; fail))+)
  apply (subst bind_a_assoc [symmetric])
  by (rule sees_bind [OF close_and_fail], rule sees_ret) simp

lemma block_started_end: "emits (\<lambda>e. \<not> noted e) (block_started task sid blockid)"
  unfolding block_started_def seq_a.simps by (intro frame_intros; simp)

section \<open>The handler as a whole\<close>

definition task_query :: "string \<Rightarrow> db_req" where
  "task_query task = DbFindOne ''sjob'' (jobj [(''flows'', jobj [(''$elemMatch'', jobj [(''task'', JStr task)])])])"

lemma task_query_log:
  assumes "get_sjob_from_task_id task s = (Inr sjob, t)" and "isMember sjob ''error'' = Some False"
  shows "\<exists>r. s_log t = s_log s @ [Db (task_query task) (Inr (sjob # r))]"
  using assms
  by (auto simp: get_sjob_from_task_id_def task_query_def db_def json_from_bson_def has_key_def split: prod.splits list.splits elim!: bind_a_InrE)

lemma find_flow_val: "find_flow task fs = Inr (Some (f, b)) \<Longrightarrow> f \<in> set fs \<and> Option.bind (at_key f ''task'') asString = Some task"
  by (induction fs) (auto simp: bind_r_Inr_iff split: if_splits)

lemma json_act_iff:
  "jget_a j p s = (Inr v, t) \<longleftrightarrow> jget j p = Some v \<and> t = s"
  "jstr_a j p s = (Inr b, t) \<longleftrightarrow> Option.bind (jget j p) asString = Some b \<and> t = s"
  "jint_a j p s = (Inr i, t) \<longleftrightarrow> Option.bind (jget j p) asInt = Some i \<and> t = s"
  "jint64_a j p s = (Inr i, t) \<longleftrightarrow> Option.bind (jget j p) asInt64 = Some i \<and> t = s"
  "is_member_a j k s = (Inr c, t) \<longleftrightarrow> isMember j k = Some c \<and> t = s"
  "lift_r r s = (Inr x, t) \<longleftrightarrow> r = Inr x \<and> t = s"
  by (auto simp: json_acts is_member_a_def opt_r_def split: option.splits)

lemma status_end_noted: "status_end rjid flow (filter noted l) \<longleftrightarrow> status_end rjid flow l"
proof -
  have n: "path_event e \<Longrightarrow> noted e" "raw_assign e \<Longrightarrow> noted e" "is_rpc e \<Longrightarrow> noted e" for e by (simp_all add: noted_def)
  then have "installs (filter noted l) = installs l" "releases (filter noted l) = releases l"
    "filter raw_assign (filter noted l) = filter raw_assign l" "filter is_rpc (filter noted l) = filter is_rpc l"
    unfolding installs_def releases_def
    by (auto intro!: map_filter_mono_filter filter_cong dest!: path_event_of)
  moreover have "list_ex is_rpc (filter noted l) = list_ex is_rpc l" using n by (auto simp: list_ex_iff)
  ultimately show ?thesis by (simp add: status_end_def)
qed

text \<open>The report is about a flow of a known sjob.\<close>

definition reported :: "string \<Rightarrow> json \<Rightarrow> json \<Rightarrow> string \<Rightarrow> bool" where
  "reported task sjob flow rjid \<longleftrightarrow> (\<exists>flows. jget sjob [K ''flows''] = Some flows \<and> flow \<in> set (elems flows)) \<and>
     Option.bind (at_key flow ''task'') asString = Some task \<and>
     Option.bind (jget sjob [K ''rawjob'', K ''$oid'']) asString = Some rjid"

lemma report_end:
  "sees noted (if c then ret_a () else if state = (1 :: int) then block_started task sid blockid
     else if state = 2 then block_failed task sid rjid blockid flow params
     else if state = 3 then block_finished task sid rjid blockid sjob flow else ret_a ())
     (\<lambda>_ k. k = [] \<or> status_end rjid flow k)"
  apply (rule sees_if, rule sees_ret, simp, rule sees_if, rule sees_end, rule block_started_end, simp)
  apply (rule sees_if, rule sees_mono [OF block_failed_end], simp, rule sees_if, rule sees_mono [OF block_finished_end], simp)
  by (rule sees_ret) simp

lemma mld_status_end:
  assumes "mld_status task params s = (Inr u, t)"
  shows "\<exists>l. s_log t = s_log s @ l \<and> (filter noted l = [] \<or>
    (\<exists>sjob r l' flow rjid. l = Db (task_query task) (Inr (sjob # r)) # l' \<and> reported task sjob flow rjid \<and> status_end rjid flow l))"
  using assms unfolding mld_status_def
proof (elim bind_a_InrE, unfold json_act_iff, elim conjE, simp only:)
  fix state :: int and sjob sid rjid unknown s2
  assume q: "get_sjob_from_task_id task s = (Inr sjob, s2)"
    and rj: "Option.bind (jget sjob [K ''rawjob'', K ''$oid'']) asString = Some rjid"
    and un: "isMember sjob ''error'' = Some unknown"
    and rest: "(if unknown then ret_a () else
       bind_a (jget_a sjob [K ''flows'']) (\<lambda>flows. bind_a (lift_r (find_flow task (elems flows))) (\<lambda>f.
       case f of None \<Rightarrow> ret_a ()
       | Some (flow, blockid) \<Rightarrow>
           if isNull flow \<or> blockid = [] then ret_a () else if state = 1 then block_started task sid blockid
           else if state = 2 then block_failed task sid rjid blockid flow params
           else if state = 3 then block_finished task sid rjid blockid sjob flow else ret_a ()))) s2 = (Inr u, t)"
  have g: "emits (\<lambda>e. \<not> noted e) (get_sjob_from_task_id task :: ('a, json) srv_act)" by (intro frame_intros; simp)
  obtain l1 where l1: "s_log s2 = s_log s @ l1" "list_all (\<lambda>e. \<not> noted e) l1" using emitsD [OF g q] by blast
  have quiet: ?thesis if "t = s2" using that l1 by (auto simp: list_all_iff filter_empty_conv)
  show ?thesis
  proof (cases unknown)
    case True
    with rest quiet show ?thesis by simp
  next
    case False
    with rest obtain flows f where fl: "jget sjob [K ''flows''] = Some flows" and f: "find_flow task (elems flows) = Inr f"
      and c: "(case f of None \<Rightarrow> ret_a ()
       | Some (flow, blockid) \<Rightarrow>
           if isNull flow \<or> blockid = [] then ret_a () else if state = 1 then block_started task sid blockid
           else if state = 2 then block_failed task sid rjid blockid flow params
           else if state = 3 then block_finished task sid rjid blockid sjob flow else ret_a ()) s2 = (Inr u, t)"
      by (simp only: if_False, elim bind_a_InrE, simp only: json_act_iff)
    obtain r where r: "s_log s2 = s_log s @ [Db (task_query task) (Inr (sjob # r))]" using task_query_log [OF q] un False by auto
    show ?thesis
    proof (cases f)
      case None
      with c quiet show ?thesis by simp
    next
      case (Some fb)
      obtain flow blockid where fb: "fb = (flow, blockid)" by (cases fb)
      obtain l2 where l2: "s_log t = s_log s2 @ l2" "filter noted l2 = [] \<or> status_end rjid flow (filter noted l2)"
        using seesD [OF report_end] c unfolding Some fb option.case prod.case by blast
      have "reported task sjob flow rjid" using find_flow_val f fl rj unfolding Some fb reported_def by blast
      moreover have "filter noted (Db (task_query task) (Inr (sjob # r)) # l2) = filter noted l2"
        by (simp add: task_query_def)
      moreover have "s_log t = s_log s @ Db (task_query task) (Inr (sjob # r)) # l2" using l2(1) r by simp
      ultimately show ?thesis using l2(2) status_end_noted by metis
    qed
  qed
qed

section \<open>Plain updates\<close>

text \<open>
  Updates of an sjob that neither count bytes nor mark the job or one of its blocks as finished. Everything
  the handler does around the transfer itself consists of them.
\<close>

fun update_of :: "db_req \<Rightarrow> json option" where
  "update_of (DbUpdateOne c f u) = Some u"
| "update_of (DbFindOneAndUpdate c f u) = Some u"
| "update_of q = None"

definition finishes :: "string \<Rightarrow> json \<Rightarrow> bool" where
  "finishes f u \<longleftrightarrow> jget u [K ''$set'', K f] = Some (JInt 2)"

definition plain_update :: "json \<Rightarrow> bool" where
  "plain_update u \<longleftrightarrow> isMember u ''$inc'' = Some False \<and> \<not> finishes ''state'' u \<and> \<not> finishes ''blocks.$.state'' u"

definition plain_sjob :: "db_req \<Rightarrow> bool" where
  "plain_sjob q \<longleftrightarrow> on_sjob q \<and> (case update_of q of None \<Rightarrow> True | Some u \<Rightarrow> plain_update u)"

lemma plain_set: "f \<noteq> ''state'' \<Longrightarrow> f \<noteq> ''blocks.$.state'' \<Longrightarrow> plain_update (set_doc f v)"
  "v \<noteq> JInt 2 \<Longrightarrow> plain_update (set_doc f v)"
  by (auto simp: plain_update_def finishes_def set_doc_def has_key_def or_null_def split: option.splits)

lemma plain_push: "plain_update (jobj [(''$push'', v)])"
  by (simp add: plain_update_def finishes_def has_key_def or_null_def)

lemma plain_state:
  "ns \<noteq> SJ_finished \<Longrightarrow> plain_update (set_doc f (JInt (sjob_state_int ns)))"
  "bs \<noteq> BL_finished \<Longrightarrow> plain_update (set_doc f (JInt (block_state_int bs)))"
  by (cases ns; simp add: plain_set(2)) (cases bs; simp add: plain_set(2))

lemma emits_plain:
  assumes "\<And>q r. plain_sjob q \<Longrightarrow> P (Db q r)"
  shows "ns \<noteq> SJ_finished \<Longrightarrow> emits P (update_sjob_state a ns)" "emits P (update_sjob_stage a b sg)" "emits P (update_sjob_flow_state a fs)"
    "bs \<noteq> BL_finished \<Longrightarrow> emits P (update_sjob_block_state a bs)" "b \<noteq> ''state'' \<Longrightarrow> emits P (update_sjob_block_field a b j)"
    "emits P (update_sjob_flow_field a b j)" "b \<noteq> ''state'' \<Longrightarrow> b \<noteq> ''blocks.$.state'' \<Longrightarrow> emits P (update_collection_field ''sjob'' a b j)"
  unfolding update_sjob_state_def update_sjob_stage_def update_sjob_flow_state_def update_sjob_block_state_def
    update_sjob_block_field_def update_sjob_flow_field_def update_collection_field_def
  by (intro frame_intros assms; simp add: plain_sjob_def on_sjob_def plain_set(1) plain_state)+

lemma emits_plain_teardown:
  assumes "\<And>q r. plain_sjob q \<Longrightarrow> P (Db q r)" "\<And>q r. P (Http q r)" "\<And>n. P (Sleep n)"
  shows "emits P (teardown_sdn_path sid a b)" "emits P (teardown_wan_path sid uuid)" "emits P (close_path sid flow)"
proof -
  show sdn: "emits P (teardown_sdn_path sid a b)" for a b
    unfolding teardown_sdn_path_def teardown_side_def by (intro emits_plain frame_intros; simp add: assms)
  show wan: "emits P (teardown_wan_path sid uuid)" for uuid
    unfolding teardown_wan_path_def by (intro emits_plain frame_intros; simp add: assms)
  show "emits P (close_path sid flow)"
    unfolding close_path_def by (intro sdn wan emits_plain frame_intros; simp add: assms)
qed

lemma emits_plain_job_fail:
  assumes "\<And>q r. plain_sjob q \<Longrightarrow> P (Db q r)" "\<And>f u r. plain_update u \<Longrightarrow> P (Db (DbFindOneAndUpdate ''rawjob'' f u) r)"
    "\<And>f ns r. P (Db (DbUpdateOne ''rawjob'' f (set_doc ''state'' (JInt (rawjob_state_int ns)))) r)"
  shows "emits P (job_fail err sid rjid)"
proof -
  have r: "emits P (update_collection_field ''rawjob'' rjid ''error'' (JStr err))" "emits P (update_rawjob_state rjid ns)" for ns
    unfolding update_collection_field_def update_rawjob_state_def by (intro frame_intros assms; simp add: plain_set)+
  show ?thesis unfolding job_fail_def seq_a.simps by (intro r emits_plain frame_intros; simp add: assms)
qed

lemma emits_plain_launch_next:
  assumes "\<And>q r. plain_sjob q \<Longrightarrow> P (Db q r)" "\<And>q r. P (Http q r)" "\<And>n. P (Sleep n)" "\<And>k m i r. P (Rpc k m i r)"
    "\<And>f u r. plain_update u \<Longrightarrow> P (Db (DbFindOneAndUpdate ''rawjob'' f u) r)"
    "\<And>f ns r. P (Db (DbUpdateOne ''rawjob'' f (set_doc ''state'' (JInt (rawjob_state_int ns)))) r)"
  shows "emits P (launch_next task sid rjid blockid flow files b)"
proof -
  have r: "emits P (update_rawjob_state rjid ns)" for ns
    unfolding update_rawjob_state_def by (intro frame_intros assms)
  show ?thesis unfolding launch_next_def seq_a.simps
    by (intro r emits_plain emits_plain_teardown emits_plain_job_fail frame_intros; simp add: assms)
qed

section \<open>A run\<close>

text \<open>The last block of a job arrives over an SDN path with id 41, and the destination confirms its checksums.\<close>

definition demo_flow :: json where
  "demo_flow = jobj
     [(''task'', JStr ''t1''), (''block'', JStr ''b1''), (''srcdtn'', demo_dtn ''a'' 41), (''dstdtn'', demo_dtn ''b'' (- 1))]"

definition demo_transfer :: json where
  "demo_transfer = jobj
     [(''_id'', oid ''s1''), (''rawjob'', oid ''r1''), (''srcsite'', oid ''x''), (''dstsite'', oid ''y''), (''flows'', jarr [demo_flow]),
      (''blocks'', jarr [jobj [(''id'', JStr ''b1''), (''state'', JInt 1), (''start'', JInt 0), (''size'', JInt 10), (''tx_bytes'', JInt 4)]])]"

fun status_db :: "db_req \<Rightarrow> json list" where
  "status_db (DbFindOne c f) =
     (if c = ''sjob'' then [demo_transfer]
      else if c = ''site'' then [jobj [(''url'', JStr ''p'')]]
      else [jobj [(''checksum'', jobj [(''algorithm'', JStr ''sha1''), (''checksums'', JNull)])]])"
| "status_db q = []"

definition status_server :: "(int \<times> json) list \<Rightarrow> (int \<times> json) list srv" where
  "status_server w = (server_in (script_env\<lparr>e_db := \<lambda>q w. (Inr (status_db q), w)\<rparr>) w)\<lparr>s_conf := plain_conf\<lparr>ld_checksum := True\<rparr>\<rparr>"

definition good_answers :: "(int \<times> json) list" where
  "good_answers = [(200, jobj [(''code'', JInt 0)]), (200, jobj [(''code'', JInt 0)])]"

lemma demo_site_line: "ts_line ts_site_txrx [TsInt 0, TsInt 0] [[]] = Some ''site_txrx tx_bytes=0,rx_bytes=0''"
  by code_simp

lemmas status_exec = http_def db_def rpc_call_def now_ms_def sleep_s_def json_acts server_in_def script_env_def ts_insert_def
  post_command_def is_member_a_def demo_dtn_def oid_def jarr_def store_updates store_queries json_from_bson_def has_key_def or_null_def
  minInt_def maxInt_def minInt64_def maxInt64_def jset_def jobj_reads bind_a_run numeral_eq_Suc

lemma jobj_not_null: "\<not> isNull (jobj xs)"
  by (simp add: jobj_def isNull_def)

definition status_ready :: "(int \<times> json) list srv \<Rightarrow> bool" where
  "status_ready s \<longleftrightarrow> s_env s = script_env\<lparr>e_db := \<lambda>q w. (Inr (status_db q), w)\<rparr> \<and> s_world s = good_answers \<and>
     s_conf s = plain_conf\<lparr>ld_checksum := True\<rparr>"

lemma demo_block_finished:
  assumes "status_ready s"
  shows "case block_finished ''t1'' ''s1'' ''r1'' ''b1'' demo_transfer demo_flow s of (r, t) \<Rightarrow> r = Inr () \<and>
    Db (DbUpdateOne ''sjob'' (jobj [(''blocks.id'', JStr ''b1'')]) (set_doc ''blocks.$.state'' (JInt 2))) (Inr []) \<in> set (s_log t) \<and>
    Db (DbUpdateOne ''sjob'' (by_id ''s1'') (set_doc ''state'' (JInt 2))) (Inr []) \<in> set (s_log t)"
  using assms
  by (simp add: status_exec status_ready_def good_answers_def demo_transfer_def demo_flow_def
      block_finished_def on_block_def count_block_def report_site_def demo_site_line add_tx_def add_rx_def
      verify_block_def verify_checksums_def checksum_request_def json_eq_def close_flow_def close_path_def
      teardown_sdn_path_def teardown_side_def release_message_def teardown_wan_path_def
      del: jobj_simps cong: bind_a_lazy)

lemma demo_report:
  "\<exists>t. mld_status ''t1'' (jobj [(''state'', JInt 3)]) (status_server good_answers) = (Inr (), t)"
proof -
  have "\<exists>s. mld_status ''t1'' (jobj [(''state'', JInt 3)]) (status_server good_answers) =
      block_finished ''t1'' ''s1'' ''r1'' ''b1'' demo_transfer demo_flow s \<and> status_ready s"
    apply (simp add: status_exec mld_status_def status_server_def demo_transfer_def demo_flow_def jobj_not_null
      del: jobj_simps cong: bind_a_lazy)
    apply (rule exI, rule conjI, rule refl)
    by (simp add: status_ready_def script_env_def)
  then obtain s where s: "mld_status ''t1'' (jobj [(''state'', JInt 3)]) (status_server good_answers) =
      block_finished ''t1'' ''s1'' ''r1'' ''b1'' demo_transfer demo_flow s" "status_ready s" by blast
  obtain r t where "block_finished ''t1'' ''s1'' ''r1'' ''b1'' demo_transfer demo_flow s = (r, t)" by fastforce
  with demo_block_finished [OF s(2)] s(1) show ?thesis by simp
qed

section \<open>Properties\<close>

text \<open>
  C4: every status report leaves its flow in order. A report that returns either touches neither a path, nor
  the launcher, nor the state of a raw job; or it is about a flow of an sjob on record, and then either
  exactly one command went to the launcher, no path was released and the raw job was set to transferring,
  whatever the launcher answered; or no command was sent, exactly the SDN paths of the flow were released,
  and the state of the raw job was left alone or set once, to error or finished.
\<close>

theorem status_settles_flow:
  assumes "mld_status task params s = (Inr u, t)"
  shows "\<exists>l. s_log t = s_log s @ l \<and> (filter noted l = [] \<or>
    (\<exists>sjob r l' flow rjid. l = Db (task_query task) (Inr (sjob # r)) # l' \<and> reported task sjob flow rjid \<and> status_end rjid flow l))"
  using mld_status_end [OF assms] .

theorem status_settles_flow_witness:
  "\<exists>t. mld_status ''t1'' (jobj [(''state'', JInt 3)]) (status_server good_answers) = (Inr (), t) \<and>
     (filter noted (s_log t) = [] \<or> (\<exists>sjob r l' flow rjid. s_log t = Db (task_query ''t1'') (Inr (sjob # r)) # l' \<and>
        reported ''t1'' sjob flow rjid \<and> status_end rjid flow (s_log t)))"
proof -
  obtain t where t: "mld_status ''t1'' (jobj [(''state'', JInt 3)]) (status_server good_answers) = (Inr (), t)"
    using demo_report by blast
  have "s_log (status_server good_answers) = []" by (simp add: status_server_def server_in_def)
  with status_settles_flow [OF t] t show ?thesis by auto
qed

text \<open>
  A report about an unknown task changes nothing. When no sjob has a flow with the task, or the sjob has
  failed before (it then carries a member \<open>error\<close>), the handler sends one query to the database and nothing
  else, and leaves the state of the server alone.
\<close>

lemma unknown_report_ignored:
  assumes "Option.bind (jget params [K ''state'']) asInt = Some state" and "e_db (s_env s) (task_query task) (s_world s) = (Inr d, w)"
    and "d = [] \<or> (\<exists>m. hd d = JObj m \<and> map_of m ''error'' \<noteq> None \<and> map_of m ''_id'' = Some (oid sid) \<and> map_of m ''rawjob'' = Some (oid rjid))"
  shows "mld_status task params s = (Inr (), s\<lparr>s_world := w, s_log := s_log s @ [Db (task_query task) (Inr d)]\<rparr>)"
  using assms
  by (cases d) (auto simp: mld_status_def get_sjob_from_task_id_def task_query_def db_def json_acts is_member_a_def json_from_bson_def
      has_key_def or_null_def oid_def bind_a_run)

lemma unknown_report_ignored_witness:
  "mld_status ''t9'' (jobj [(''state'', JInt 3)]) (server_in script_env []) =
     (Inr (), (server_in script_env [])\<lparr>s_log := [Db (task_query ''t9'') (Inr [])]\<rparr>)"
  using unknown_report_ignored [of "jobj [(''state'', JInt 3)]" 3 "server_in script_env []" "''t9''" "[]" "[]"]
  by (simp add: server_in_def script_env_def minInt_def maxInt_def)

end
