(* ===== verification/Block_Props.thy ===== *)
theory Block_Props
  imports Status_Props
begin

text \<open>
  What happens to a block that has arrived: which counters move, when it counts as finished, and when its
  job does.
\<close>

section \<open>Counters\<close>

text \<open>The increments an exchange has made: collection, filter, field and amount.\<close>

fun inc_doc_of :: "json \<Rightarrow> (string \<times> int) option" where
  "inc_doc_of (JObj [(m, JObj [(f, JInt n)])]) = (if m = ''$inc'' then Some (f, n) else None)"
| "inc_doc_of u = None"

fun inc_of :: "event \<Rightarrow> (string \<times> json \<times> string \<times> int) option" where
  "inc_of (Db (DbUpdateOne c f u) (Inr r)) = map_option (\<lambda>(k, n). (c, f, k, n)) (inc_doc_of u)"
| "inc_of (Db (DbFindOneAndUpdate c f u) (Inr r)) = map_option (\<lambda>(k, n). (c, f, k, n)) (inc_doc_of u)"
| "inc_of e = None"

definition incs :: "event list \<Rightarrow> (string \<times> json \<times> string \<times> int) list" where
  "incs l = List.map_filter inc_of l"

definition is_inc :: "event \<Rightarrow> bool" where
  "is_inc e \<longleftrightarrow> inc_of e \<noteq> None"

lemma incs_simps [simp]: "incs [] = []" "incs (e # l) = (case inc_of e of None \<Rightarrow> incs l | Some x \<Rightarrow> x # incs l)" "incs (k @ l) = incs k @ incs l"
  by (simp_all add: incs_def List.map_filter_def split: option.splits)

lemma incs_filter: "incs (filter is_inc l) = incs l"
  unfolding incs_def by (rule map_filter_mono_filter) (simp add: is_inc_def)

lemma inc_doc_simps [simp]: "inc_doc_of (inc_doc f n) = Some (f, n)" "inc_doc_of (set_doc f v) = None"
  by (simp_all add: inc_doc_def) (simp add: set_doc_def, cases v rule: json.exhaust, auto)

lemma plain_no_inc: "plain_update u \<Longrightarrow> inc_doc_of u = None"
  by (cases u rule: inc_doc_of.cases) (auto simp: plain_update_def has_key_def)

text \<open>The updates that mark a block as finished.\<close>

fun marks :: "event \<Rightarrow> bool" where
  "marks (Db (DbUpdateOne c f u) r) \<longleftrightarrow> finishes ''blocks.$.state'' u"
| "marks e \<longleftrightarrow> False"

definition marked :: "string \<Rightarrow> event \<Rightarrow> bool" where
  "marked b e \<longleftrightarrow> (\<exists>r. e = Db (DbUpdateOne ''sjob'' (jobj [(''blocks.id'', JStr b)]) (set_doc ''blocks.$.state'' (JInt (block_state_int BL_finished)))) (Inr r))"

definition tallied :: "event \<Rightarrow> bool" where
  "tallied e \<longleftrightarrow> is_inc e \<or> marks e"

lemma not_tallied [simp]:
  "\<not> tallied (Http q z)" "\<not> tallied (Sleep n)" "\<not> tallied (Rpc k m i x)" "\<not> tallied (Ts line)" "\<not> tallied (Db (DbFind c f g) r)"
  "\<not> tallied (Db (DbFindOne c f) r)" "\<not> tallied (Db (DbInsertOne c u) r)" "plain_update u \<Longrightarrow> \<not> tallied (Db (DbFindOneAndUpdate c f u) r)"
  "k \<noteq> ''blocks.$.state'' \<Longrightarrow> \<not> tallied (Db (DbUpdateOne c f (set_doc k v)) r)" "\<not> tallied (Db (DbFindOneAndUpdate c f (set_doc k v)) r)"
  by (cases r; simp add: tallied_def is_inc_def plain_no_inc; simp add: finishes_def set_doc_def or_null_def)+

lemma plain_sjob_not_tallied [simp]: "plain_sjob q \<Longrightarrow> \<not> tallied (Db q r)"
  by (cases q; cases r) (auto simp: tallied_def is_inc_def plain_sjob_def plain_no_inc, auto simp: plain_update_def)

lemma states_not_tallied: "emits (\<lambda>e. \<not> tallied e) (update_sjob_state i ns)" "emits (\<lambda>e. \<not> tallied e) (update_rawjob_state i rs)"
  unfolding update_sjob_state_def update_rawjob_state_def by (intro frame_intros; simp)+

lemmas untallied = states_not_tallied emits_plain emits_plain_teardown emits_plain_job_fail emits_plain_launch_next

text \<open>One increment, seen.\<close>

definition one_inc :: "string \<Rightarrow> json \<Rightarrow> string \<Rightarrow> int \<Rightarrow> event list \<Rightarrow> bool" where
  "one_inc c f k n l \<longleftrightarrow> incs l = [(c, f, k, n)] \<and> filter marks l = []"

lemma inc_not_marks [simp]: "\<not> finishes f (inc_doc k n)"
  by (simp add: finishes_def inc_doc_def or_null_def)

lemma inc_update_seen:
  assumes "\<And>s. m s = unit_a (db (DbUpdateOne c f (inc_doc k n))) s"
  shows "sees tallied m (\<lambda>_. one_inc c f k n)"
proof -
  have m: "m = unit_a (db (DbUpdateOne c f (inc_doc k n)))" using assms by (rule ext)
  show ?thesis unfolding m unit_a_def
    by (rule sees_bind [OF sees_db [where \<Psi> = "\<lambda>_. one_inc c f k n"]]) (auto simp: one_inc_def tallied_def is_inc_def intro!: sees_ret)
qed

lemma inc_seen:
  "sees tallied (increment_sjob_block_field b k n) (\<lambda>_. one_inc ''sjob'' (jobj [(''blocks.id'', JStr b)]) (''blocks.$.'' @ k) n)"
  "sees tallied (increment_sjob_flow_field task k n) (\<lambda>_. one_inc ''sjob'' (jobj [(''flows.task'', JStr task)]) (''flows.$.'' @ k) n)"
  "sees tallied (increment_sjob_field i k n) (\<lambda>_. one_inc ''sjob'' (by_id i) k n)"
  "sees tallied (increment_rawjob_field i k n) (\<lambda>_. one_inc ''rawjob'' (by_id i) k n)"
  unfolding increment_sjob_block_field_def increment_sjob_flow_field_def increment_sjob_field_def increment_rawjob_field_def
  by (rule inc_update_seen, rule refl)+

lemma inc_site_seen: "sees tallied (increment_site_field i k n) (\<lambda>_. one_inc ''site'' (by_id i) k n)"
  unfolding increment_site_field_def
  by (rule sees_bind [OF sees_db [where \<Psi> = "\<lambda>_. one_inc ''site'' (by_id i) k n"]]) (auto simp: one_inc_def tallied_def is_inc_def intro!: sees_ret)

text \<open>What a block adds to the counters when it has arrived, and what a failed verification takes off again.\<close>

definition counted :: "string \<Rightarrow> string \<Rightarrow> string \<Rightarrow> string \<Rightarrow> string \<Rightarrow> string \<Rightarrow> int \<Rightarrow> (string \<times> json \<times> string \<times> int) list" where
  "counted task sid rjid blockid src dst n =
     [(''sjob'', jobj [(''blocks.id'', JStr blockid)], ''blocks.$.tx_bytes'', n),
      (''sjob'', jobj [(''flows.task'', JStr task)], ''flows.$.tx_bytes'', n),
      (''sjob'', by_id sid, ''tx_bytes'', n), (''rawjob'', by_id rjid, ''tx_bytes'', n),
      (''site'', by_id src, ''tx_bytes'', n), (''site'', by_id dst, ''rx_bytes'', n)]"

definition uncounted :: "string \<Rightarrow> string \<Rightarrow> string \<Rightarrow> string \<Rightarrow> int \<Rightarrow> (string \<times> json \<times> string \<times> int) list" where
  "uncounted task sid rjid blockid sz =
     [(''sjob'', jobj [(''blocks.id'', JStr blockid)], ''blocks.$.tx_bytes'', - sz),
      (''sjob'', jobj [(''flows.task'', JStr task)], ''flows.$.tx_bytes'', - sz),
      (''sjob'', by_id sid, ''tx_bytes'', - sz), (''rawjob'', by_id rjid, ''tx_bytes'', - sz),
      (''sjob'', by_id sid, ''transfer_retry'', 1)]"

definition block_sizes :: "json \<Rightarrow> int \<Rightarrow> int \<Rightarrow> bool" where
  "block_sizes b sz txbs \<longleftrightarrow> Option.bind (jget b [K ''size'']) asInt64 = Some sz \<and> Option.bind (jget b [K ''tx_bytes'']) asInt64 = Some txbs"

definition job_sites :: "json \<Rightarrow> string \<Rightarrow> string \<Rightarrow> bool" where
  "job_sites sjob src dst \<longleftrightarrow> Option.bind (jget sjob [K ''srcsite'', K ''$oid'']) asString = Some src \<and>
     Option.bind (jget sjob [K ''dstsite'', K ''$oid'']) asString = Some dst"

lemma json_act_known64: "Option.bind (jget j p) asInt64 = Some i \<Longrightarrow> jint64_a j p = ret_a i"
  by (rule ext) (simp add: json_acts)

lemma count_block_incs:
  assumes "block_sizes b sz txbs" and "job_sites sjob src dst"
  shows "sees tallied (count_block task sid rjid blockid sjob b) (\<lambda>_ k. incs k = counted task sid rjid blockid src dst (sz - txbs) \<and> filter marks k = [])"
proof -
  note known = assms [unfolded block_sizes_def job_sites_def]
  show ?thesis
    unfolding count_block_def json_act_known64 [OF known(1) [THEN conjunct1]] json_act_known64 [OF known(1) [THEN conjunct2]]
      json_act_known(2) [OF known(2) [THEN conjunct1]] json_act_known(2) [OF known(2) [THEN conjunct2]] bind_ret_a
    apply ((rule sees_bind [OF inc_seen(1)] | rule sees_bind [OF inc_seen(2)] | rule sees_bind [OF inc_seen(3)] | rule sees_bind [OF inc_seen(4)]
       | rule sees_bind [OF inc_site_seen] | (rule sees_skip, (intro untallied frame_intros; simp; fail)))+)
    apply (rule sees_end, (intro frame_intros; simp))
    by (simp add: one_inc_def counted_def)
qed

lemma checksum_failed_incs:
  assumes "block_sizes b sz txbs" and "jget sjob [K ''blocks''] = Some blocks" and "find_block blockid (elems blocks) = Inr (Some b)"
  shows "sees tallied (checksum_failed task sid rjid blockid sjob flow) (\<lambda>v k. v \<noteq> Block_good \<and> incs k = uncounted task sid rjid blockid sz \<and> filter marks k = [])"
proof -
  note known = assms(1) [unfolded block_sizes_def]
  have l: "lift_r (Inr x) = ret_a x" for x by (rule ext) simp
  have un: "sees tallied (on_block blockid sjob (uncount_block task sid rjid blockid))
     (\<lambda>_ k. incs k = butlast (uncounted task sid rjid blockid sz) \<and> filter marks k = [])"
    unfolding on_block_def uncount_block_def json_act_known(1) [OF assms(2)] assms(3) l bind_ret_a option.case json_act_known64 [OF known [THEN conjunct1]]
      seq_a.simps
    apply ((rule sees_bind [OF inc_seen(1)] | rule sees_bind [OF inc_seen(2)] | rule sees_bind [OF inc_seen(3)] | rule sees_bind [OF inc_seen(4)])+)
    by (rule sees_ret) (simp add: one_inc_def uncounted_def)
  show ?thesis unfolding checksum_failed_def
    apply (rule sees_skip, (intro untallied frame_intros; simp), rule sees_bind [OF un], rule sees_bind [OF inc_seen(3)])
    apply ((rule sees_if | (rule sees_skip, (intro untallied frame_intros; simp; fail)) | rule sees_ret)+)
    by (auto simp: one_inc_def uncounted_def intro!: sees_ret)
qed

lemma verify_block_incs:
  assumes "block_sizes b sz txbs" and "jget sjob [K ''blocks''] = Some blocks" and "find_block blockid (elems blocks) = Inr (Some b)"
  shows "sees tallied (verify_block task sid rjid blockid sjob flow files)
    (\<lambda>v k. filter marks k = [] \<and> incs k = (if v = Block_good then [] else uncounted task sid rjid blockid sz))"
  unfolding verify_block_def verify_checksums_def
  by ((rule sees_mono [OF checksum_failed_incs [OF assms]], simp; fail) | rule sees_if | rule sees_case_prod
      | (rule sees_skip, (intro untallied frame_intros; simp; fail)) | (rule sees_ret, simp; fail))+

definition block_tally :: "string \<Rightarrow> string \<Rightarrow> string \<Rightarrow> string \<Rightarrow> string \<Rightarrow> string \<Rightarrow> int \<Rightarrow> int \<Rightarrow> event list \<Rightarrow> bool" where
  "block_tally task sid rjid blockid src dst sz txbs k \<longleftrightarrow>
     (incs k = counted task sid rjid blockid src dst (sz - txbs) \<and> (\<exists>e. filter marks k = [e] \<and> marked blockid e)) \<or>
     (incs k = counted task sid rjid blockid src dst (sz - txbs) @ uncounted task sid rjid blockid sz \<and> filter marks k = [])"

lemma mark_seen: "sees tallied (update_sjob_block_state b BL_finished) (\<lambda>_ k. \<exists>e. k = [e] \<and> marks e \<and> inc_of e = None \<and> marked b e)"
  unfolding update_sjob_block_state_def unit_a_def
  by (rule sees_bind [OF sees_db [where \<Psi> = "\<lambda>_ k. \<exists>e. k = [e] \<and> marks e \<and> inc_of e = None \<and> marked b e"]])
    (auto simp: marked_def tallied_def finishes_def set_doc_def intro!: sees_ret)

lemma close_flow_untallied: "emits (\<lambda>e. \<not> tallied e) (close_flow task sid rjid sjob flow finished)"
  unfolding close_flow_def by (intro untallied frame_intros; simp)

lemma block_finished_tally:
  assumes "block_sizes b sz txbs" and "jget sjob [K ''blocks''] = Some blocks" and "find_block blockid (elems blocks) = Inr (Some b)"
    and "job_sites sjob src dst"
  shows "sees tallied (block_finished task sid rjid blockid sjob flow) (\<lambda>_. block_tally task sid rjid blockid src dst sz txbs)"
proof -
  have l: "lift_r (Inr x) = ret_a x" for x by (rule ext) simp
  have on: "on_block blockid sjob f = f b" for f
    unfolding on_block_def json_act_known(1) [OF assms(2)] assms(3) l bind_ret_a option.case ..
  show ?thesis unfolding block_finished_def on
    apply ((rule sees_skip, (intro untallied frame_intros; simp; fail))+)
    apply (rule sees_bind [OF count_block_incs [OF assms(1,4)]])
    apply (rule sees_skip, (intro frame_intros; simp), rule sees_bind [OF verify_block_incs [OF assms(1-3)]])
    subgoal for _ _ _ _ k files v k'
      apply (cases v; simp only: verdict.case verdict.distinct if_False if_True simp_thms)
        apply (rule sees_bind [OF mark_seen])
        apply ((rule sees_skip, (intro untallied frame_intros; simp; fail))+, rule sees_case_prod, rule sees_case_option)
         apply (rule sees_end, rule close_flow_untallied, force simp: block_tally_def)
        apply (rule sees_end, (intro untallied frame_intros; simp), force simp: block_tally_def)
       apply (rule sees_end, (intro untallied frame_intros; simp), force simp: block_tally_def)
      apply (rule sees_ret, force simp: block_tally_def)
      done
    done
qed

section \<open>Checksums\<close>

text \<open>
  The checksums of a block document are confirmed by the log: the document of the destination site of the sjob was read, and the
  portal of this site has answered the request to verify these checksums at the destination DTN of the flow with status 200 and
  code 0.
\<close>

definition confirmed :: "json \<Rightarrow> json \<Rightarrow> json \<Rightarrow> event list \<Rightarrow> bool" where
  "confirmed sjob flow files k \<longleftrightarrow> (\<exists>dsite sites url dtn algorithm checksums r.
     Option.bind (jget sjob [K ''dstsite'', K ''$oid'']) asString = Some dsite \<and>
     Db (DbFindOne ''site'' (by_id dsite)) (Inr sites) \<in> set k \<and>
     Option.bind (jget (json_from_bson sites ''site not found'') [K ''url'']) asString = Some url \<and>
     jget flow [K ''dstdtn'', K ''id''] = Some dtn \<and>
     jget files [K ''checksum'', K ''algorithm''] = Some algorithm \<and> jget files [K ''checksum'', K ''checksums''] = Some checksums \<and>
     Http (HPost (''https://'' @ url @ ''/bde/command'') (checksum_request dtn algorithm checksums)) (Inr (200, r)) \<in> set k \<and>
     jget r [K ''code''] = Some (JInt 0))"

text \<open>The document of a block was read, and where there is one with checksums, these are confirmed.\<close>

definition vouched_block :: "string \<Rightarrow> json \<Rightarrow> json \<Rightarrow> event list \<Rightarrow> bool" where
  "vouched_block blockid sjob flow k \<longleftrightarrow> (\<exists>docs. Db (DbFindOne ''block'' (by_id blockid)) (Inr docs) \<in> set k \<and>
     (case docs of [] \<Rightarrow> True
      | files # _ \<Rightarrow> isMember files ''checksum'' = Some False \<or> confirmed sjob flow files k))"

fun asks :: "event \<Rightarrow> bool" where
  "asks (Db (DbFindOne c f) r) \<longleftrightarrow> c = ''site''"
| "asks (Http q r) \<longleftrightarrow> True"
| "asks e \<longleftrightarrow> False"

lemma sjob_not_asked [simp]: "on_sjob q \<Longrightarrow> \<not> asks (Db q r)"
  by (cases q) (auto simp: on_sjob_def)

lemma confirmed_mono: "confirmed sjob flow files k \<Longrightarrow> set k \<subseteq> set l \<Longrightarrow> confirmed sjob flow files l"
  unfolding confirmed_def by blast

lemma sees_http_all: "sees Q (http q) (\<lambda>a k. k = filter Q [Http q (Inr a)])"
  by (rule sees_http) simp_all

lemma sees_post:
  assumes "\<And>code r. sees Q (f (code, r)) (\<lambda>b k. \<Psi> b (filter Q [Http (HPost (''https://'' @ url @ ''/bde/command'') m) (Inr (code, r))] @ k))"
  shows "sees Q (bind_a (post_command url m) f) \<Psi>"
  unfolding post_command_def
proof (rule sees_bind [OF sees_http_all])
  fix a k assume k: "k = filter Q [Http (HPost (''https://'' @ url @ ''/bde/command'') m) (Inr a)]"
  obtain code r where a: "a = (code, r)" by (cases a)
  show "sees Q (f a) (\<lambda>b k'. \<Psi> b (k @ k'))" unfolding k a by (rule assms)
qed

lemma sees_value: "grows m \<Longrightarrow> (\<And>s a t. m s = (Inr a, t) \<Longrightarrow> V a) \<Longrightarrow> sees Q m (\<lambda>a _. V a)"
  unfolding sees_def emits_def by (metis snd_conv)

lemma checksum_failed_bad: "sees Q (checksum_failed task sid rjid blockid sjob flow) (\<lambda>v k. v \<noteq> Block_good)"
  unfolding checksum_failed_def
  apply (rule sees_value, intro frame_intros TrueI)
  apply (elim bind_a_InrE)
  by (auto split: if_splits elim!: bind_a_InrE)

lemma site_info_seen:
  "sees asks (get_site_info i) (\<lambda>a k. \<exists>docs. k = [Db (DbFindOne ''site'' (by_id i)) (Inr docs)] \<and> a = json_from_bson docs ''site not found'')"
  unfolding get_site_info_def find_one_by_id_def
  by (rule sees_bind [OF sees_db [where \<Psi> = "\<lambda>a k. k = [Db (DbFindOne ''site'' (by_id i)) (Inr a)]"]]) (auto intro: sees_ret)

lemma verify_checksums_good:
  "sees asks (verify_checksums task sid rjid blockid sjob flow files) (\<lambda>v k. v = Block_good \<longrightarrow> confirmed sjob flow files k)"
  unfolding verify_checksums_def
  apply (rule sees_skip, (intro frame_intros; simp), rule sees_skip, (intro frame_intros; simp))
  apply (rule sees_skip_val, (intro frame_intros), drule json_act_val, rule sees_skip_val, (intro frame_intros), drule json_act_val,
      rule sees_skip_val, (intro frame_intros), drule json_act_val, rule sees_skip_val, (intro frame_intros), drule json_act_val)
  apply (rule sees_bind [OF site_info_seen], rule sees_skip_val, (intro frame_intros), drule json_act_val)
  apply (rule sees_post, unfold prod.case)
  apply (rule sees_skip_val, (intro frame_intros), rule sees_if)
  subgoal by (rule sees_mono [OF checksum_failed_bad]) simp
  apply (rule sees_skip, (intro frame_intros; simp), rule sees_ret)
  by (fastforce simp: confirmed_def json_act_iff json_eq_def simp del: jget.simps split: if_splits elim!: bind_a_InrE)

lemma verify_block_good:
  assumes "verify_block task sid rjid blockid sjob flow files s = (Inr Block_good, t)" and "ld_checksum (s_conf s)"
    and "s_log t = s_log s @ l"
  shows "isMember files ''checksum'' = Some False \<or> confirmed sjob flow files l"
proof -
  obtain has where has: "isMember files ''checksum'' = Some has"
    and r: "(if \<not> ld_checksum (s_conf s) \<or> \<not> has then ret_a Block_good
      else verify_checksums task sid rjid blockid sjob flow files) s = (Inr Block_good, t)"
    using assms(1) unfolding verify_block_def
    by (elim bind_a_InrE) (simp only: json_act_iff act_simps prod.inject sum.inject, blast)
  show ?thesis
  proof (cases has)
    case True
    with r assms(2) have "verify_checksums task sid rjid blockid sjob flow files s = (Inr Block_good, t)" by simp
    from seesD [OF verify_checksums_good this] assms(3) have "confirmed sjob flow files (filter asks l)" by auto
    then show ?thesis using confirmed_mono [of sjob flow files "filter asks l" l] by auto
  qed (use has in simp)
qed

section \<open>The next block and the end of the job\<close>

definition other_blocks :: "string \<Rightarrow> json list \<Rightarrow> json list" where
  "other_blocks blockid bs = filter (\<lambda>b. at_key b ''id'' \<noteq> Some (JStr blockid)) bs"

definition block_is :: "block_state \<Rightarrow> json \<Rightarrow> bool" where
  "block_is bst b \<longleftrightarrow> Option.bind (at_key b ''state'') asInt = Some (block_state_int bst)"

definition unassigned :: "json \<Rightarrow> bool" where
  "unassigned b \<longleftrightarrow> \<not> block_is BL_finished b \<and> \<not> block_is BL_transferring b"

lemma other_blocks_simps [simp]:
  "other_blocks blockid [] = []"
  "other_blocks blockid (b # bs) = (if at_key b ''id'' = Some (JStr blockid) then other_blocks blockid bs else b # other_blocks blockid bs)"
  by (simp_all add: other_blocks_def)

lemma next_block_ref:
  assumes "next_block blockid bs fin = Inr (fin', nxt)"
  shows "(case List.find unassigned (other_blocks blockid bs) of
      None \<Rightarrow> nxt = None \<and> fin' = (fin \<and> list_all (block_is BL_finished) (other_blocks blockid bs))
    | Some b \<Rightarrow> \<not> fin' \<and> nxt \<noteq> None \<and> nxt = Option.bind (at_key b ''id'') asString)"
  using assms
proof (induction bs arbitrary: fin)
  case (Cons b bs)
  from Cons.prems obtain i where i: "at_key b ''id'' = Some i" by (auto simp: bind_r_Inr_iff)
  show ?case
  proof (cases "i = JStr blockid")
    case True
    with i have ob: "other_blocks blockid (b # bs) = other_blocks blockid bs" by simp
    show ?thesis unfolding ob using Cons.IH [of fin] Cons.prems i True by (simp add: json_eq_def)
  next
    case False
    with Cons.prems i obtain n where n: "Option.bind (at_key b ''state'') asInt = Some n"
      by (auto simp: json_eq_def bind_r_Inr_iff)
    have "next_block blockid bs (if n = 2 then fin else False) = Inr (fin', nxt)" if "n = 2 \<or> n = 1"
      using that Cons.prems i n False by (auto simp: json_eq_def)
    note IH = Cons.IH [OF this]
    show ?thesis
    proof (cases "n = 2 \<or> n = 1")
      case True
      with IH i n False show ?thesis by (auto simp: unassigned_def block_is_def split: option.splits if_splits)
    next
      case w: False
      with Cons.prems i n False show ?thesis by (auto simp: unassigned_def block_is_def json_eq_def bind_r_Inr_iff)
    qed
  qed
qed simp

section \<open>Guarded by a condition on the state\<close>

definition guarded_on :: "('w srv \<Rightarrow> bool) \<Rightarrow> (event list \<Rightarrow> event \<Rightarrow> bool) \<Rightarrow> (event \<Rightarrow> bool) \<Rightarrow> event list \<Rightarrow> ('w, 'a) srv_act \<Rightarrow> bool" where
  "guarded_on C R Q past m \<longleftrightarrow> (\<forall>s. C s \<longrightarrow> (\<exists>l. s_log (snd (m s)) = s_log s @ l \<and> preceded R Q past l))"

lemma guarded_onI: "guarded_by R Q past m \<Longrightarrow> guarded_on C R Q past m"
  by (simp add: guarded_on_def guarded_by_def)

lemma guarded_on_bind_any:
  assumes "guarded_on C R Q past m"
    and "\<And>s a t l. C s \<Longrightarrow> m s = (Inr a, t) \<Longrightarrow> s_log t = s_log s @ l \<Longrightarrow> (\<exists>l'. s_log (snd (f a t)) = s_log t @ l' \<and> preceded R Q (past @ l) l')"
  shows "guarded_on C R Q past (bind_a m f)"
proof (unfold guarded_on_def, intro allI impI)
  fix s assume C: "C s"
  obtain r t where m: "m s = (r, t)" by (cases "m s")
  obtain l where l: "s_log t = s_log s @ l" "preceded R Q past l"
    using assms(1) m C unfolding guarded_on_def by (metis snd_conv)
  show "\<exists>l. s_log (snd (bind_a m f s)) = s_log s @ l \<and> preceded R Q past l"
  proof (cases r)
    case (Inl e)
    with m l show ?thesis by auto
  next
    case (Inr a)
    then obtain l2 where l2: "s_log (snd (f a t)) = s_log t @ l2" "preceded R Q (past @ l) l2"
      using assms(2) [of s a t l] C m l(1) by blast
    then have "preceded R Q past (l @ l2)" using l(2) by (simp add: preceded_append)
    with m Inr l(1) l2(1) show ?thesis by auto
  qed
qed

lemma guarded_on_bind:
  assumes "guarded_on C R Q past m" and "keeps C m"
    and "\<And>s a t l. C s \<Longrightarrow> m s = (Inr a, t) \<Longrightarrow> s_log t = s_log s @ l \<Longrightarrow> guarded_on C R Q (past @ l) (f a)"
  shows "guarded_on C R Q past (bind_a m f)"
proof (rule guarded_on_bind_any [OF assms(1)])
  fix s a t l assume *: "C s" "m s = (Inr a, t)" "s_log t = s_log s @ l"
  then have "C t" using keepsD [OF assms(2)] by fastforce
  with assms(3) [OF *] show "\<exists>l'. s_log (snd (f a t)) = s_log t @ l' \<and> preceded R Q (past @ l) l'"
    unfolding guarded_on_def by blast
qed

lemma guarded_on_then:
  assumes "guarded_on C R Q past m"
    and "\<And>s a t l. C s \<Longrightarrow> m s = (Inr a, t) \<Longrightarrow> s_log t = s_log s @ l \<Longrightarrow> guarded_by R Q (past @ l) (f a)"
  shows "guarded_on C R Q past (bind_a m f)"
  using guarded_on_bind_any [OF assms(1)] assms(2) unfolding guarded_by_def by blast

lemma guarded_on_skip:
  assumes "emits (\<lambda>e. \<not> Q e) m" and "keeps C m" and "\<And>a past. guarded_on C R Q past (f a)"
  shows "guarded_on C R Q past (bind_a m f)"
  using guarded_on_bind [OF guarded_onI [OF guarded_by_quiet [OF assms(1)]] assms(2)] assms(3) by blast

text \<open>Operations of the store leave everything but the world and the log alone, the byte counters aside.\<close>

definition checks :: "'w srv \<Rightarrow> bool" where
  "checks s \<longleftrightarrow> ld_checksum (s_conf s)"

lemma checks_kept [frame_intros]:
  "keeps checks (http q)" "keeps checks (db c)" "keeps checks (rpc_call k m i)" "keeps checks now_ms" "keeps checks (sleep_s n)"
  "keeps checks (ts_insert ms vs ts)" "keeps checks (jget_a j p)" "keeps checks (jstr_a j p)" "keeps checks (jint_a j p)"
  "keeps checks (jint64_a j p)" "keeps checks (jset_a p v j)" "keeps checks (is_member_a j k)" "keeps checks (add_tx site n)" "keeps checks (add_rx site n)"
  by (simp_all add: keeps_def checks_def http_def db_def rpc_call_def now_ms_def sleep_s_def ts_insert_def json_acts is_member_a_def
      add_tx_def add_rx_def split: prod.splits option.splits)

lemma checks_cases [frame_intros]:
  "keeps P n \<Longrightarrow> (\<And>x. keeps P (f x)) \<Longrightarrow> keeps P (case v of None \<Rightarrow> n | Some x \<Rightarrow> f x)"
  "keeps P n \<Longrightarrow> (\<And>x xs. keeps P (g x xs)) \<Longrightarrow> keeps P (case l of [] \<Rightarrow> n | x # xs \<Rightarrow> g x xs)"
  by (cases v; simp) (cases l; simp)

lemma checks_insert_doc [frame_intros]: "keeps checks (insert_doc c d)"
  unfolding insert_doc_def by (intro frame_intros) (simp add: keeps_ret split: json.splits)

lemma checks_store:
  "keeps checks (update_sjob_stage a b sg)" "keeps checks (update_sjob_flow_state a fs)" "keeps checks (update_sjob_block_field a b j)"
  "keeps checks (increment_sjob_block_field a b n)" "keeps checks (increment_sjob_flow_field a b n)" "keeps checks (increment_sjob_field a b n)"
  "keeps checks (increment_rawjob_field a b n)" "keeps checks (increment_site_field a b n)" "keeps checks (get_block_files a)"
  unfolding store_updates get_block_files_def find_one_by_id_def by (intro frame_intros)+

lemma checks_on_block: "(\<And>b. keeps checks (f b)) \<Longrightarrow> keeps checks (on_block blockid sjob f)"
  unfolding on_block_def by (intro frame_intros)

lemma checks_count_block: "keeps checks (count_block task sid rjid blockid sjob b)"
  unfolding count_block_def report_site_def by (intro checks_store frame_intros)

lemma block_files_log:
  assumes "get_block_files b s = (Inr files, t)" and "s_log t = s_log s @ l"
  obtains docs where "Db (DbFindOne ''block'' (by_id b)) (Inr docs) \<in> set l" and "files = json_from_bson docs ''block not found''"
  using assms by (auto simp: get_block_files_def find_one_by_id_def db_def split: prod.splits elim!: bind_a_InrE)

lemma block_good_vouched:
  assumes "get_block_files blockid s = (Inr files, t)" and "s_log t = s_log s @ l"
    and "verify_block task sid rjid blockid sjob flow files s' = (Inr Block_good, t')" and "ld_checksum (s_conf s')"
    and "s_log t' = s_log s' @ l'"
  shows "vouched_block blockid sjob flow (past @ l @ l' @ k)"
proof -
  obtain docs where d: "Db (DbFindOne ''block'' (by_id blockid)) (Inr docs) \<in> set l" "files = json_from_bson docs ''block not found''"
    using block_files_log [OF assms(1,2)] .
  have "isMember files ''checksum'' = Some False \<or> confirmed sjob flow files (past @ l @ l' @ k)"
    using verify_block_good [OF assms(3-5)] confirmed_mono [of sjob flow files l' "past @ l @ l' @ k"] by auto
  then show ?thesis
    unfolding vouched_block_def using d by (intro exI [of _ docs]) (auto simp: json_from_bson_def split: list.splits)
qed

text \<open>Marking a block as finished, and what must have come before.\<close>

lemma finishes_set [simp]: "finishes f (set_doc k v) \<longleftrightarrow> f = k \<and> v = JInt 2"
  by (auto simp: finishes_def set_doc_def or_null_def)

lemma not_marks [simp]: "\<not> tallied e \<Longrightarrow> \<not> marks e"
  by (simp add: tallied_def)

lemma quiet_marks: "emits (\<lambda>e. \<not> tallied e) m \<Longrightarrow> emits (\<lambda>e. \<not> marks e) m"
  by (erule emits_mono) simp

lemma inc_never_marks:
  "emits (\<lambda>e. \<not> marks e) (increment_sjob_block_field b k n)" "emits (\<lambda>e. \<not> marks e) (increment_sjob_flow_field task k n)"
  "emits (\<lambda>e. \<not> marks e) (increment_sjob_field i k n)" "emits (\<lambda>e. \<not> marks e) (increment_rawjob_field i k n)"
  "emits (\<lambda>e. \<not> marks e) (increment_site_field i k n)"
  unfolding store_updates by (intro frame_intros; simp)+

lemma count_never_marks: "emits (\<lambda>e. \<not> marks e) (on_block blockid sjob (count_block task sid rjid blockid sjob))"
proof -
  have f: "emits (\<lambda>e. \<not> marks e) (update_sjob_block_field blockid ''avg_rate'' v)" for v
    by (rule quiet_marks, intro untallied; simp)
  show ?thesis unfolding count_block_def by (intro f inc_never_marks frame_intros; simp)
qed

lemma verify_never_marks: "emits (\<lambda>e. \<not> marks e) (verify_block task sid rjid blockid sjob flow files)"
proof -
  have p: "plain_sjob q \<Longrightarrow> \<not> marks (Db q r)" "plain_update u \<Longrightarrow> \<not> marks (Db (DbFindOneAndUpdate c f u) r)"
    "\<not> marks (Db (DbUpdateOne c f (set_doc ''state'' v)) r)" for q r u c f v
    by simp_all
  have u: "emits (\<lambda>e. \<not> marks e) (uncount_block task sid rjid blockid b)" for b
    unfolding uncount_block_def seq_a.simps by (intro inc_never_marks frame_intros)
  show ?thesis
    unfolding verify_block_def verify_checksums_def checksum_failed_def
    by (intro u inc_never_marks emits_plain emits_plain_teardown emits_plain_job_fail frame_intros; simp add: p)
qed

lemma grows_launch_next: "grows (launch_next task sid rjid b flow files f)"
  by (intro emits_plain_launch_next; simp)

lemma grows_close_flow: "grows (close_flow task sid rjid sjob flow finished)"
  unfolding close_flow_def by (intro frame_intros TrueI)

lemma never_marks_launch_next: "emits (\<lambda>e. \<not> marks e) (launch_next task sid rjid b flow files f)"
  by (rule quiet_marks, intro untallied; simp)

lemma block_finished_vouched:
  "guarded_on checks (\<lambda>k e. vouched_block blockid sjob flow k) marks past (block_finished task sid rjid blockid sjob flow)"
  unfolding block_finished_def
  apply (rule guarded_on_skip, rule quiet_marks, (intro untallied; simp), rule checks_store)
  apply (rule guarded_on_skip, rule quiet_marks, (intro untallied; simp), rule checks_store)
  apply (rule guarded_on_skip, rule quiet_marks, (intro untallied; simp), rule checks_store)
  apply (rule guarded_on_skip, rule count_never_marks, rule checks_on_block, rule checks_count_block)
  apply (rule guarded_on_bind, rule guarded_onI, rule guarded_by_quiet, (intro frame_intros; simp), rule checks_store)
  apply (rule guarded_on_then, rule guarded_onI, rule guarded_by_quiet, rule verify_never_marks)
  subgoal for _ _ _ _ _ _ _ past s files t l s' v t' l'
    apply (cases v; simp only: verdict.case)
      apply (rule guarded_by_known, rule emits_mono [where P = "\<lambda>_. True"], (intro frame_intros TrueI grows_launch_next grows_close_flow))
    subgoal using block_good_vouched [of blockid s files t l task sid rjid sjob flow s' t' l' past] by (simp add: checks_def)
    subgoal by (rule guarded_by_quiet, rule never_marks_launch_next)
    subgoal by (rule guarded_by_quiet, rule emits_quiet)
    done
  done

section \<open>The end of the job\<close>

fun ends_sjob :: "event \<Rightarrow> bool" where
  "ends_sjob (Db (DbUpdateOne c f u) r) \<longleftrightarrow> c = ''sjob'' \<and> finishes ''state'' u"
| "ends_sjob e \<longleftrightarrow> False"

lemma plain_goes_on [simp]: "plain_sjob q \<Longrightarrow> \<not> ends_sjob (Db q r)"
  by (cases q) (auto simp: plain_sjob_def plain_update_def)

lemma not_ended:
  "emits (\<lambda>e. \<not> ends_sjob e) (increment_sjob_block_field b k n)" "emits (\<lambda>e. \<not> ends_sjob e) (increment_sjob_flow_field task k n)"
  "emits (\<lambda>e. \<not> ends_sjob e) (increment_sjob_field i k n)" "emits (\<lambda>e. \<not> ends_sjob e) (update_sjob_block_state b bs)"
  unfolding store_updates by (intro frame_intros; simp)+

lemma block_not_ended:
  "emits (\<lambda>e. \<not> ends_sjob e) (on_block blockid sjob (count_block task sid rjid blockid sjob))"
  "emits (\<lambda>e. \<not> ends_sjob e) (verify_block task sid rjid blockid sjob flow files)"
  "emits (\<lambda>e. \<not> ends_sjob e) (launch_next task sid rjid blockid flow files b)"
  "emits (\<lambda>e. \<not> ends_sjob e) (close_flow task sid rjid sjob flow False)"
proof -
  have u: "emits (\<lambda>e. \<not> ends_sjob e) (uncount_block task sid rjid blockid b)" for b
    unfolding uncount_block_def seq_a.simps by (intro not_ended frame_intros; simp)
  show "emits (\<lambda>e. \<not> ends_sjob e) (on_block blockid sjob (count_block task sid rjid blockid sjob))"
    unfolding count_block_def by (intro not_ended emits_plain frame_intros; simp)
  show "emits (\<lambda>e. \<not> ends_sjob e) (verify_block task sid rjid blockid sjob flow files)"
    unfolding verify_block_def verify_checksums_def checksum_failed_def
    by (intro u not_ended emits_plain emits_plain_teardown emits_plain_job_fail frame_intros; simp)
  show "emits (\<lambda>e. \<not> ends_sjob e) (launch_next task sid rjid blockid flow files b)"
    by (intro emits_plain_launch_next; simp)
  show "emits (\<lambda>e. \<not> ends_sjob e) (close_flow task sid rjid sjob flow False)"
    unfolding close_flow_def if_False act_simps(7) bind_ret_a by (intro emits_plain emits_plain_teardown frame_intros; simp)
qed

lemma next_block_finished:
  "next_block blockid bs True = Inr (True, nxt) \<Longrightarrow> list_all (block_is BL_finished) (other_blocks blockid bs)"
  using next_block_ref [of blockid bs True True nxt] by (auto split: option.splits)

lemma ends_weaken: "emits (\<lambda>e. \<not> ends_sjob e) m \<Longrightarrow> emits (\<lambda>e. ends_sjob e \<longrightarrow> X) m"
  by (erule emits_mono) simp

lemma close_flow_ends:
  assumes "next_block blockid bs True = Inr (fin, nxt)"
  shows "emits (\<lambda>e. ends_sjob e \<longrightarrow> list_all (block_is BL_finished) (other_blocks blockid bs)) (close_flow task sid rjid sjob flow fin)"
proof (cases fin)
  case True
  with assms next_block_finished have "list_all (block_is BL_finished) (other_blocks blockid bs)" by auto
  then show ?thesis by (intro emits_mono [OF grows_close_flow]) simp
next
  case False
  show ?thesis unfolding eq_False [THEN iffD2, OF False] by (rule ends_weaken, rule block_not_ended)
qed

lemma lift_val: "lift_r r s = (Inr a, t) \<Longrightarrow> r = Inr a"
  by simp

lemma block_finished_ends:
  assumes "jget sjob [K ''blocks''] = Some blocks"
  shows "emits (\<lambda>e. ends_sjob e \<longrightarrow> list_all (block_is BL_finished) (other_blocks blockid (elems blocks)))
    (block_finished task sid rjid blockid sjob flow)"
  unfolding block_finished_def json_act_known(1) [OF assms] bind_ret_a
  apply (rule emits_bind, rule ends_weaken, (intro emits_plain; simp))+
  apply (rule emits_bind, rule ends_weaken, rule block_not_ended, rule emits_bind, rule ends_weaken, (intro frame_intros; simp))
  apply (rule emits_bind, rule ends_weaken, rule block_not_ended)
  subgoal for _ _ _ _ files v
    apply (cases v; simp only: verdict.case)
      apply (rule emits_bind, rule ends_weaken, rule not_ended, rule emits_bind, rule emits_quiet, rule emits_bind, rule ends_weaken,
        (intro emits_plain; simp))
      apply (rule emits_bind_val, rule emits_quiet, drule lift_val)
    subgoal for _ _ _ _ p
      by (cases p; cases "snd p"; simp only: prod.case option.case prod.sel)
        ((rule close_flow_ends, assumption),
         (rule emits_bind, rule ends_weaken, (intro frame_intros; simp), rule ends_weaken, rule block_not_ended))
     apply (rule ends_weaken, rule block_not_ended)
    apply (rule emits_quiet)
    done
  done

section \<open>Properties\<close>

lemma demo_finished_run:
  obtains t where "block_finished ''t1'' ''s1'' ''r1'' ''b1'' demo_transfer demo_flow (status_server good_answers) = (Inr (), t)"
    and "Db (DbUpdateOne ''sjob'' (jobj [(''blocks.id'', JStr ''b1'')]) (set_doc ''blocks.$.state'' (JInt 2))) (Inr []) \<in> set (s_log t)"
    and "Db (DbUpdateOne ''sjob'' (by_id ''s1'') (set_doc ''state'' (JInt 2))) (Inr []) \<in> set (s_log t)"
proof -
  have "status_ready (status_server good_answers)" by (simp add: status_ready_def status_server_def server_in_def)
  from demo_block_finished [OF this] that show thesis by (auto split: prod.splits)
qed

text \<open>
  C13: bytes are counted once. When a block of size \<open>sz\<close> has arrived of which \<open>txbs\<close> bytes were counted before,
  the missing \<open>sz - txbs\<close> bytes are added to the block, the flow, the sjob, the raw job, the bytes sent of
  the source site and the bytes received of the destination site, once each. Then either the block is
  marked as finished; or the verification of its checksums has failed, and \<open>sz\<close> bytes are taken off the
  block, the flow, the sjob and the raw job again, but not off the sites, and one retry is counted.
\<close>

theorem block_counted_once:
  assumes "block_finished task sid rjid blockid sjob flow s = (Inr u, t)"
    and "jget sjob [K ''blocks''] = Some blocks" and "find_block blockid (elems blocks) = Inr (Some b)"
    and "block_sizes b sz txbs" and "job_sites sjob src dst"
  shows "\<exists>l. s_log t = s_log s @ l \<and>
    ((incs l = counted task sid rjid blockid src dst (sz - txbs) \<and> (\<exists>e. filter marks l = [e] \<and> marked blockid e)) \<or>
     (incs l = counted task sid rjid blockid src dst (sz - txbs) @ uncounted task sid rjid blockid sz \<and> filter marks l = []))"
proof -
  obtain l where l: "s_log t = s_log s @ l" "block_tally task sid rjid blockid src dst sz txbs (filter tallied l)"
    using seesD [OF block_finished_tally [OF assms(4,2,3,5)] assms(1)] by blast
  have "incs (filter tallied l) = incs l" "filter marks (filter tallied l) = filter marks l"
    unfolding incs_def by (auto intro!: map_filter_mono_filter filter_cong simp: tallied_def is_inc_def)
  with l show ?thesis by (auto simp: block_tally_def)
qed

theorem block_counted_once_witness:
  "\<exists>t. block_finished ''t1'' ''s1'' ''r1'' ''b1'' demo_transfer demo_flow (status_server good_answers) = (Inr (), t) \<and>
     (incs (s_log t) = counted ''t1'' ''s1'' ''r1'' ''b1'' ''x'' ''y'' 6 \<or>
      incs (s_log t) = counted ''t1'' ''s1'' ''r1'' ''b1'' ''x'' ''y'' 6 @ uncounted ''t1'' ''s1'' ''r1'' ''b1'' 10)"
proof -
  let ?b = "jobj [(''id'', JStr ''b1''), (''state'', JInt 1), (''start'', JInt 0), (''size'', JInt 10), (''tx_bytes'', JInt 4)]"
  obtain t where t: "block_finished ''t1'' ''s1'' ''r1'' ''b1'' demo_transfer demo_flow (status_server good_answers) = (Inr (), t)"
    by (rule demo_finished_run)
  have "s_log (status_server good_answers) = []" by (simp add: status_server_def server_in_def)
  moreover have "jget demo_transfer [K ''blocks''] = Some (jarr [?b])" "find_block ''b1'' (elems (jarr [?b])) = Inr (Some ?b)"
    "block_sizes ?b 10 4" "job_sites demo_transfer ''x'' ''y''"
    by (simp_all add: demo_transfer_def jarr_def block_sizes_def job_sites_def oid_def minInt64_def maxInt64_def)
  ultimately show ?thesis using block_counted_once [OF t] t by fastforce
qed

text \<open>
  C5: a block counts as finished only when its checksums were confirmed. With checksums switched on, whenever a
  block is marked as finished, whatever happens later, the document of this block was read before. Unless
  there is no such document, or it has no checksums, the document of the destination site of the sjob was
  read before as well, and the portal at its address has answered the request to verify exactly the
  checksums of the block document at the destination DTN of the flow with status 200 and code 0.
\<close>

theorem finished_block_vouched:
  assumes "block_finished task sid rjid blockid sjob flow s = (r, t)" and "ld_checksum (s_conf s)"
    and "s_log t = s_log s @ k @ e # l" and "marked blockid e"
  shows "\<exists>docs. Db (DbFindOne ''block'' (by_id blockid)) (Inr docs) \<in> set k \<and>
     (case docs of [] \<Rightarrow> True
      | files # _ \<Rightarrow> isMember files ''checksum'' = Some False \<or> confirmed sjob flow files k)"
proof -
  obtain l' where "s_log t = s_log s @ l'" "preceded (\<lambda>k e. vouched_block blockid sjob flow k) marks [] l'"
    using block_finished_vouched assms(1,2) unfolding guarded_on_def checks_def by (metis snd_conv)
  moreover have "marks e" using assms(4) by (auto simp: marked_def)
  ultimately have "vouched_block blockid sjob flow k" using assms(3) by (auto simp: preceded_def)
  then show ?thesis by (simp only: vouched_block_def)
qed

theorem finished_block_vouched_witness:
  "\<exists>t k e l. block_finished ''t1'' ''s1'' ''r1'' ''b1'' demo_transfer demo_flow (status_server good_answers) = (Inr (), t) \<and>
     s_log t = k @ e # l \<and> marked ''b1'' e \<and> vouched_block ''b1'' demo_transfer demo_flow k"
proof -
  let ?e = "Db (DbUpdateOne ''sjob'' (jobj [(''blocks.id'', JStr ''b1'')]) (set_doc ''blocks.$.state'' (JInt 2))) (Inr [])"
  obtain t where t: "block_finished ''t1'' ''s1'' ''r1'' ''b1'' demo_transfer demo_flow (status_server good_answers) = (Inr (), t)"
    "?e \<in> set (s_log t)" by (rule demo_finished_run)
  then obtain k l where kl: "s_log t = k @ ?e # l" using split_list by metis
  have "s_log (status_server good_answers) = []" "ld_checksum (s_conf (status_server good_answers))" by (simp_all add: status_server_def server_in_def)
  moreover have "marked ''b1'' ?e" by (simp add: marked_def)
  ultimately show ?thesis using finished_block_vouched [OF t(1), of k ?e l] t(1) kl unfolding vouched_block_def by fastforce
qed

text \<open>
  C17: a job is finished only when all its blocks are. Whenever the handler sets the state of an sjob to
  finished, every block of the sjob other than the one that has just arrived is recorded as finished.
\<close>

theorem sjob_finished_blocks:
  assumes "block_finished task sid rjid blockid sjob flow s = (r, t)" and "jget sjob [K ''blocks''] = Some blocks"
    and "s_log t = s_log s @ k @ e # l" and "ends_sjob e"
  shows "list_all (block_is BL_finished) (other_blocks blockid (elems blocks))"
  using emitsD [OF block_finished_ends [OF assms(2)] assms(1)] assms(3,4) by auto

theorem sjob_finished_blocks_witness:
  "\<exists>t e. block_finished ''t1'' ''s1'' ''r1'' ''b1'' demo_transfer demo_flow (status_server good_answers) = (Inr (), t) \<and>
     e \<in> set (s_log t) \<and> ends_sjob e \<and> (\<exists>blocks. jget demo_transfer [K ''blocks''] = Some blocks \<and>
       list_all (block_is BL_finished) (other_blocks ''b1'' (elems blocks)))"
proof -
  let ?e = "Db (DbUpdateOne ''sjob'' (by_id ''s1'') (set_doc ''state'' (JInt 2))) (Inr [])"
  obtain t where t: "block_finished ''t1'' ''s1'' ''r1'' ''b1'' demo_transfer demo_flow (status_server good_answers) = (Inr (), t)"
    "?e \<in> set (s_log t)" by (rule demo_finished_run)
  then obtain k l where kl: "s_log t = k @ ?e # l" using split_list by metis
  obtain blocks where b: "jget demo_transfer [K ''blocks''] = Some blocks" by (simp add: demo_transfer_def jarr_def)
  have "s_log (status_server good_answers) = []" by (simp add: status_server_def server_in_def)
  with sjob_finished_blocks [OF t(1) b, of k ?e l] t b kl show ?thesis by fastforce
qed

text \<open>
  The search for the next block. It finds the first block other than the current one that is neither
  finished nor being transferred, and then reports the job as unfinished; if there is none it reports the
  job as finished exactly when all other blocks are.
\<close>

lemma next_block_spec:
  assumes "next_block blockid bs True = Inr (fin, nxt)"
  shows "(case List.find unassigned (other_blocks blockid bs) of
      None \<Rightarrow> nxt = None \<and> fin = list_all (block_is BL_finished) (other_blocks blockid bs)
    | Some b \<Rightarrow> \<not> fin \<and> nxt \<noteq> None \<and> nxt = Option.bind (at_key b ''id'') asString)"
  using next_block_ref [OF assms] unfolding simp_thms .

lemma next_block_spec_witness:
  "next_block ''b1'' [jobj [(''id'', JStr ''b1'')], jobj [(''id'', JStr ''b2''), (''state'', JInt 2)], jobj [(''id'', JStr ''b3''), (''state'', JInt 0)]] True
     = Inr (False, Some ''b3'')"
proof -
  let ?bs = "[jobj [(''id'', JStr ''b1'')], jobj [(''id'', JStr ''b2''), (''state'', JInt 2)], jobj [(''id'', JStr ''b3''), (''state'', JInt 0)]]"
  have "\<not> isl (next_block ''b1'' ?bs True)" by (simp add: json_eq_def minInt_def maxInt_def)
  then obtain fin nxt where r: "next_block ''b1'' ?bs True = Inr (fin, nxt)"
    by (metis isl_def sum.exhaust_sel surj_pair)
  from next_block_spec [OF this] show ?thesis
    unfolding r by (simp add: unassigned_def block_is_def minInt_def maxInt_def)
qed

end
