(* ===== verification/Rate_Poll.thy ===== *)
theory Rate_Poll
  imports Transfer_Status
begin

text \<open>
  The periodic rate poll, \<open>Scheduler::poll_rate\<close> of \<open>src/server/scheduler.cc\<close>, and what \<open>Scheduler::run\<close>
  prepares for it: the launcher is asked for the rate and the bytes of every running flow; the bytes since
  the last poll go to the counters of the block, the flow, the sjob, the raw job and the two sites. A flow
  without progress for too long fails its job.
\<close>

section \<open>Start\<close>

definition init_site :: "json \<Rightarrow> ('w, unit) srv_act" where
  "init_site site =
     bind_a (jint64_a site [K ''tx_bytes'']) (\<lambda>tx.
     bind_a (jint64_a site [K ''rx_bytes'']) (\<lambda>rx.
     bind_a (jstr_a site [K ''_id'', K ''$oid'']) (\<lambda>i.
     upd_a (\<lambda>s. s\<lparr>site_txrx := put i (tx, rx) (site_txrx s)\<rparr>))))"

definition init_sites :: "('w, unit) srv_act" where
  "init_sites = bind_a get_sites (\<lambda>sites. foreach_a init_site (elems sites))"

section \<open>One flow\<close>

definition rate_request :: "string \<Rightarrow> json" where
  "rate_request task = jobj
     [(''cmd'', JStr ''mld_rate''), (''target'', JStr ''launcher-agent''), (''params'', jobj [(''task'', JStr task)])]"

definition fail_flow :: "string \<Rightarrow> string \<Rightarrow> string \<Rightarrow> ('w, unit) srv_act" where
  "fail_flow rjob_id sjob_id err =
     seq_a
       [update_sjob_state sjob_id SJ_error,
        update_collection_field ''sjob'' sjob_id ''error'' (JStr err),
        update_rawjob_state rjob_id RJ_error,
        update_collection_field ''rawjob'' rjob_id ''error'' (JStr err)]"

definition release_flow :: "string \<Rightarrow> json \<Rightarrow> ('w, unit) srv_act" where
  "release_flow sjob_id flow =
     bind_a (jget_a flow [K ''srcdtn'']) (\<lambda>src.
     bind_a (jget_a flow [K ''dstdtn'']) (\<lambda>dst.
     bind_a (teardown_sdn_path sjob_id src dst) (\<lambda>_.
     bind_a (jstr_a flow [K ''srcdtn'', K ''wan_uuid'']) (\<lambda>uuid.
     unit_a (teardown_wan_path sjob_id uuid)))))"

text \<open>The launcher does not know the task: the job has failed, and the poll ends.\<close>

definition lost_flow :: "string \<Rightarrow> string \<Rightarrow> string \<Rightarrow> json \<Rightarrow> ('w, unit) srv_act" where
  "lost_flow rjob_id sjob_id task flow =
     bind_a (release_flow sjob_id flow) (\<lambda>_.
     bind_a (update_sjob_flow_state task FL_error) (\<lambda>_.
     bind_a (jstr_a flow [K ''block'']) (\<lambda>bid.
     bind_a (update_sjob_block_state bid BL_waiting) (\<lambda>_.
     fail_flow rjob_id sjob_id ''invalid task at launching agent''))))"

definition stalled_flow :: "string \<Rightarrow> string \<Rightarrow> string \<Rightarrow> string \<Rightarrow> json \<Rightarrow> ('w, unit) srv_act" where
  "stalled_flow rjob_id sjob_id task bid flow =
     bind_a (update_sjob_flow_state task FL_error) (\<lambda>_.
     bind_a (update_sjob_block_state bid BL_waiting) (\<lambda>_.
     bind_a (release_flow sjob_id flow) (\<lambda>_.
     fail_flow rjob_id sjob_id ''job failed due to no transferring progress for an extended period of time'')))"

definition flow_activity :: "string \<Rightarrow> string \<Rightarrow> string \<Rightarrow> string \<Rightarrow> json \<Rightarrow> int \<Rightarrow> int \<Rightarrow> ('w, unit) srv_act" where
  "flow_activity rjob_id sjob_id task bid flow tx_bytes milli_now =
     (if 0 < tx_bytes then update_sjob_flow_field task ''last_active'' (JInt milli_now)
      else
        bind_a (jint64_a flow [K ''last_active'']) (\<lambda>last_active.
        bind_a (get_a (\<lambda>s. inactive_timeout_ms (s_conf s))) (\<lambda>limit.
        when_a (limit < milli_now - last_active) (stalled_flow rjob_id sjob_id task bid flow))))"

text \<open>The bytes of the block at the last poll, zero when the block is not among those of the sjob.\<close>

definition last_bytes :: "json \<Rightarrow> string \<Rightarrow> ('w, int) srv_act" where
  "last_bytes sjob bid =
     bind_a (jget_a sjob [K ''blocks'']) (\<lambda>blocks.
     bind_a (lift_r (find_block bid (elems blocks))) (\<lambda>b.
     case b of None \<Rightarrow> ret_a 0 | Some block \<Rightarrow> jint64_a block [K ''tx_bytes'']))"

text \<open>A valid answer is recorded; the result is the rate and the bytes since the last poll.\<close>

definition record_rate :: "string \<Rightarrow> string \<Rightarrow> json \<Rightarrow> json \<Rightarrow> string \<Rightarrow> json \<Rightarrow> ('w, double \<times> int) srv_act" where
  "record_rate rjob_id sjob_id sjob flow task rate =
     bind_a (jdouble_a rate [K ''rate'']) (\<lambda>r.
     bind_a (jint64_a rate [K ''transferred'']) (\<lambda>transferred.
     bind_a (ts_insert tsrate [TsDouble (r * 1024 * 1024)] [''flow'', task]) (\<lambda>_.
     bind_a (jstr_a flow [K ''block'']) (\<lambda>bid.
     bind_a (last_bytes sjob bid) (\<lambda>last_tx_bytes.
     bind_a now_ms (\<lambda>milli_now.
     bind_a (jint64_a flow [K ''start'']) (\<lambda>milli_start.
     bind_a (jint64_a flow [K ''tx_bytes'']) (\<lambda>flow_bytes.
     bind_a (flow_activity rjob_id sjob_id task bid flow (transferred - last_tx_bytes) milli_now) (\<lambda>_.
     bind_a (update_sjob_flow_field task ''current_rate'' (JReal (r * 1024 * 1024))) (\<lambda>_.
     bind_a (update_sjob_flow_field task ''avg_rate''
              (avg_rate_doc (flow_bytes + (transferred - last_tx_bytes)) (milli_now - milli_start))) (\<lambda>_.
     bind_a (increment_sjob_block_field bid ''tx_bytes'' (transferred - last_tx_bytes)) (\<lambda>_.
     bind_a (increment_sjob_flow_field task ''tx_bytes'' (transferred - last_tx_bytes)) (\<lambda>_.
     ret_a (r * 1024 * 1024, transferred - last_tx_bytes))))))))))))))"

datatype sample = Unsampled | Sampled double int | Lost

definition query_rate :: "string \<Rightarrow> string \<Rightarrow> json \<Rightarrow> json \<Rightarrow> string \<Rightarrow> ('w, sample) srv_act" where
  "query_rate rjob_id sjob_id sjob flow task =
     bind_a (get_a (\<lambda>s. rm_rg (s_rm s))) (\<lambda>g.
     bind_a (lift_r (get_launcher g)) (\<lambda>launcher.
     bind_a (rpc_call (rqueue launcher) (rate_request task) 5) (\<lambda>rate.
     bind_a (is_member_a rate ''timed_out'') (\<lambda>has_timed_out.
     bind_a (if has_timed_out then jbool_a rate [K ''timed_out''] else ret_a False) (\<lambda>timed_out.
     if timed_out then ret_a Unsampled
     else
       bind_a (jint_a rate [K ''code'']) (\<lambda>code.
       if code = 1 then bind_a (lost_flow rjob_id sjob_id task flow) (\<lambda>_. ret_a Lost)
       else
         bind_a (if code = 2 then jset_a [K ''rate''] (JReal 0) rate else ret_a rate) (\<lambda>rate.
         bind_a (jint_a rate [K ''code'']) (\<lambda>code.
         if code \<noteq> 0 then ret_a Unsampled
         else bind_a (record_rate rjob_id sjob_id sjob flow task rate) (\<lambda>(r, b). ret_a (Sampled r b))))))))))"

definition poll_flow :: "string \<Rightarrow> string \<Rightarrow> json \<Rightarrow> json \<Rightarrow> ('w, sample) srv_act" where
  "poll_flow rjob_id sjob_id sjob flow =
     bind_a (jint_a flow [K ''state'']) (\<lambda>fs.
     bind_a (jstr_a flow [K ''task'']) (\<lambda>task.
     if fs = flow_state_int FL_done \<or> fs = flow_state_int FL_error then ret_a Unsampled
     else if fs = flow_state_int FL_setting \<or> fs = flow_state_int FL_transferring then query_rate rjob_id sjob_id sjob flow task
     else bind_a (ts_insert tsrate [TsDouble 0] [''flow'', task]) (\<lambda>_. ret_a Unsampled)))"

section \<open>The sjobs of a raw job\<close>

text \<open>
  The loops carry the running totals of the raw job (rate and bytes), the inner one those of the sjob too.
  None is the early return of the poll when a task was lost.
\<close>

type_synonym totals = "double \<times> int"

fun poll_flows :: "string \<Rightarrow> string \<Rightarrow> json \<Rightarrow> json list \<Rightarrow> totals \<Rightarrow> totals \<Rightarrow> ('w, (totals \<times> totals) option) srv_act" where
  "poll_flows rjob_id sjob_id sjob [] stot rtot = ret_a (Some (stot, rtot))"
| "poll_flows rjob_id sjob_id sjob (flow # flows) (sr, sb) (rr, rb) =
     bind_a (poll_flow rjob_id sjob_id sjob flow) (\<lambda>x.
     case x of
       Lost \<Rightarrow> ret_a None
     | Unsampled \<Rightarrow> poll_flows rjob_id sjob_id sjob flows (sr, sb) (rr, rb)
     | Sampled r b \<Rightarrow> poll_flows rjob_id sjob_id sjob flows (sr + r, sb + b) (rr + r, rb + b))"

fun poll_sjobs :: "string \<Rightarrow> json list \<Rightarrow> totals \<Rightarrow> ('w, totals option) srv_act" where
  "poll_sjobs rjob_id [] rtot = ret_a (Some rtot)"
| "poll_sjobs rjob_id (sjob # sjobs) rtot =
     bind_a (jstr_a sjob [K ''_id'', K ''$oid'']) (\<lambda>sjob_id.
     bind_a (jget_a sjob [K ''flows'']) (\<lambda>flows.
     bind_a (poll_flows rjob_id sjob_id sjob (elems flows) (0, 0) rtot) (\<lambda>x.
     case x of
       None \<Rightarrow> ret_a None
     | Some ((sr, sb), rtot') \<Rightarrow>
         bind_a (ts_insert tsrate [TsDouble sr] [''sjob'', sjob_id]) (\<lambda>_.
         bind_a (increment_sjob_field sjob_id ''tx_bytes'' sb) (\<lambda>_.
         poll_sjobs rjob_id sjobs rtot')))))"

section \<open>All raw jobs\<close>

definition poll_rawjob :: "json \<Rightarrow> ('w, bool) srv_act" where
  "poll_rawjob rjob =
     bind_a (jstr_a rjob [K ''_id'', K ''$oid'']) (\<lambda>rjob_id.
     bind_a (get_sjobs_from_rawjob_id rjob_id) (\<lambda>sjobs.
     bind_a (poll_sjobs rjob_id (elems sjobs) (0, 0)) (\<lambda>x.
     case x of
       None \<Rightarrow> ret_a False
     | Some (raw_rate, raw_tx_bytes) \<Rightarrow>
         bind_a (ts_insert tsrate [TsDouble raw_rate] [''rawjob'', rjob_id]) (\<lambda>_.
         bind_a (increment_rawjob_field rjob_id ''tx_bytes'' raw_tx_bytes) (\<lambda>_.
         bind_a (jstr_a rjob [K ''srcsite'', K ''$oid'']) (\<lambda>src.
         bind_a (increment_site_field src ''tx_bytes'' raw_tx_bytes) (\<lambda>_.
         bind_a (jstr_a rjob [K ''dstsite'', K ''$oid'']) (\<lambda>dst.
         bind_a (increment_site_field dst ''rx_bytes'' raw_tx_bytes) (\<lambda>_.
         bind_a (add_tx src raw_tx_bytes) (\<lambda>_.
         bind_a (add_rx dst raw_tx_bytes) (\<lambda>_.
         ret_a True)))))))))))"

fun poll_rawjobs :: "json list \<Rightarrow> ('w, bool) srv_act" where
  "poll_rawjobs [] = ret_a True"
| "poll_rawjobs (rjob # js) = bind_a (poll_rawjob rjob) (\<lambda>goes_on. if goes_on then poll_rawjobs js else ret_a False)"

definition report_sites :: "('w, unit) srv_act" where
  "report_sites =
     bind_a (get_a site_txrx) (\<lambda>m.
     foreach_a (\<lambda>(i, tx, rx). ts_insert ts_site_txrx [TsInt tx, TsInt rx] [i]) m)"

text \<open>The result is the delay before the next poll, in milliseconds.\<close>

definition poll_rate :: "('w, int) srv_act" where
  "poll_rate =
     bind_a (get_rawjobs_from_state RJ_waiting) (\<lambda>rjobs_w.
     bind_a (get_rawjobs_from_state RJ_error) (\<lambda>rjobs_e.
     bind_a (get_rawjobs_from_state RJ_transferring) (\<lambda>rjobs.
     bind_a (ts_insert tsjobs [TsInt (int (jsize rjobs)), TsInt 0, TsInt (int (jsize rjobs_w)), TsInt (int (jsize rjobs_e))] []) (\<lambda>_.
     bind_a (get_a (\<lambda>s. rm_rg (s_rm s))) (\<lambda>g.
     if jsize rjobs = 0 \<or> \<not> has_launcher g then ret_a 5000
     else
       bind_a (poll_rawjobs (elems rjobs)) (\<lambda>completed.
       bind_a (when_a completed report_sites) (\<lambda>_.
       ret_a 5000)))))))"

end
