(* ===== verification/Poll_Props.thy ===== *)
theory Poll_Props
  imports Block_Props Rate_Poll
begin

text \<open>
  What the rate poll promises: the bytes it adds to the counters are those the launchers have reported less
  those known before, block by block and summed up for jobs and sites, and a job it fails has its paths released.
\<close>

section \<open>The books\<close>

text \<open>
  What the answers of the launcher are worth. A flow is polled while it is being set up or transferring. An answer counts when it
  has not timed out and has code 0; it books, for the block and the task of the flow, the bytes reported less the bytes the block
  had at the last poll.
\<close>

definition running :: "json \<Rightarrow> bool" where
  "running flow \<longleftrightarrow> Option.bind (jget flow [K ''state'']) asInt \<in> {Some (flow_state_int FL_setting), Some (flow_state_int FL_transferring)}"

definition answer_ok :: "json \<Rightarrow> bool" where
  "answer_ok rate \<longleftrightarrow>
     \<not> (isMember rate ''timed_out'' = Some True \<and> Option.bind (jget rate [K ''timed_out'']) asBool = Some True) \<and>
     Option.bind (jget rate [K ''code'']) asInt = Some 0"

definition last_tx :: "json \<Rightarrow> string \<Rightarrow> int option" where
  "last_tx sjob bid = Option.bind (jget sjob [K ''blocks'']) (\<lambda>blocks. case find_block bid (elems blocks) of
       Inr None \<Rightarrow> Some 0
     | Inr (Some block) \<Rightarrow> Option.bind (jget block [K ''tx_bytes'']) asInt64
     | Inl e \<Rightarrow> None)"

type_synonym booking = "(string \<times> string \<times> int) option"

definition books :: "json \<Rightarrow> json \<Rightarrow> json \<Rightarrow> booking \<Rightarrow> bool" where
  "books sjob flow rate b \<longleftrightarrow>
     (if answer_ok rate then \<exists>bid task transferred known.
        Option.bind (jget flow [K ''block'']) asString = Some bid \<and> Option.bind (jget flow [K ''task'']) asString = Some task \<and>
        Option.bind (jget rate [K ''transferred'']) asInt64 = Some transferred \<and> last_tx sjob bid = Some known \<and>
        b = Some (bid, task, transferred - known)
      else b = None)"

text \<open>The booking of a flow, given the log: the one of the answer to the request for its task; none when it is not running.\<close>

definition booked :: "event list \<Rightarrow> json \<Rightarrow> json \<Rightarrow> booking \<Rightarrow> bool" where
  "booked l sjob flow b \<longleftrightarrow>
     (if running flow then \<exists>task q rate. Option.bind (jget flow [K ''task'']) asString = Some task \<and>
        Rpc q (rate_request task) 5 (Inr rate) \<in> set l \<and> books sjob flow rate b
      else b = None)"

definition booked_sjob :: "event list \<Rightarrow> json \<Rightarrow> string \<times> booking list \<Rightarrow> bool" where
  "booked_sjob l sjob = (\<lambda>(i, bs). Option.bind (jget sjob [K ''_id'', K ''$oid'']) asString = Some i \<and>
     (\<exists>flows. jget sjob [K ''flows''] = Some flows \<and> list_all2 (booked l sjob) (elems flows) bs))"

text \<open>The increments of bookings: block and flow for each; then the sum of the bookings of an sjob for the sjob.\<close>

type_synonym inc = "string \<times> json \<times> string \<times> int"

fun flow_incs :: "booking \<Rightarrow> inc list" where
  "flow_incs None = []"
| "flow_incs (Some (bid, task, n)) =
     [(''sjob'', jobj [(''blocks.id'', JStr bid)], ''blocks.$.tx_bytes'', n), (''sjob'', jobj [(''flows.task'', JStr task)], ''flows.$.tx_bytes'', n)]"

fun amount :: "booking \<Rightarrow> int" where
  "amount None = 0"
| "amount (Some (bid, task, n)) = n"

definition booked_total :: "booking list \<Rightarrow> int" where
  "booked_total bs = sum_list (map amount bs)"

definition sjob_incs :: "string \<times> booking list \<Rightarrow> inc list" where
  "sjob_incs = (\<lambda>(i, bs). concat (map flow_incs bs) @ [(''sjob'', by_id i, ''tx_bytes'', booked_total bs)])"

section \<open>What the poll writes\<close>

definition poll_event :: "event \<Rightarrow> bool" where
  "poll_event e \<longleftrightarrow> tallied e \<or> is_rpc e"

lemma poll_event_simps [simp]: "\<not> is_rpc e \<Longrightarrow> poll_event e = tallied e" "poll_event (Rpc q m i x)"
  by (simp_all add: poll_event_def)

lemma booked_mono: "booked k sjob flow b \<Longrightarrow> set k \<subseteq> set l \<Longrightarrow> booked l sjob flow b"
  unfolding booked_def by (metis (no_types, lifting) subsetD)

lemma emits_release [frame_intros]:
  assumes "\<And>q r. plain_sjob q \<Longrightarrow> P (Db q r)" "\<And>q r. P (Http q r)" "\<And>n. P (Sleep n)"
  shows "emits P (release_flow sjob_id flow)"
  unfolding release_flow_def by (intro emits_plain_teardown frame_intros; simp add: assms)

lemma emits_noted_or: "emits (\<lambda>e. \<not> tallied e) m \<Longrightarrow> emits (\<lambda>e. \<not> is_rpc e) m \<Longrightarrow> emits (\<lambda>e. \<not> poll_event e) m"
  unfolding emits_def poll_event_def list_all_iff by (metis same_append_eq)

lemma poll_unnoted:
  "emits (\<lambda>e. \<not> poll_event e) (fail_flow rjob_id sjob_id err)"
  "emits (\<lambda>e. \<not> poll_event e) (lost_flow rjob_id sjob_id task flow)"
  "emits (\<lambda>e. \<not> poll_event e) (flow_activity rjob_id sjob_id task bid flow n ms)"
proof -
  have c: "emits (\<lambda>e. \<not> tallied e) (update_collection_field c i f v)" for c i f v
    unfolding update_collection_field_def by (intro frame_intros; simp)
  have f: "emits (\<lambda>e. \<not> tallied e) (fail_flow rjob_id sjob_id err)" for rjob_id sjob_id err
    unfolding fail_flow_def seq_a.simps by (intro c untallied frame_intros; simp)
  have d: "emits (\<lambda>e. \<not> is_rpc e) (update_collection_field c i f v)" for c i f v
    unfolding update_collection_field_def by (intro frame_intros; simp)
  have g: "emits (\<lambda>e. \<not> is_rpc e) (fail_flow rjob_id sjob_id err)" for rjob_id sjob_id err
    unfolding fail_flow_def seq_a.simps by (intro d frame_intros; simp)
  show "emits (\<lambda>e. \<not> poll_event e) (fail_flow rjob_id sjob_id err)" by (intro emits_noted_or f g)
  show "emits (\<lambda>e. \<not> poll_event e) (lost_flow rjob_id sjob_id task flow)"
    unfolding lost_flow_def by (rule emits_noted_or, (intro f untallied frame_intros; simp), (intro g frame_intros; simp))
  show "emits (\<lambda>e. \<not> poll_event e) (flow_activity rjob_id sjob_id task bid flow n ms)"
    unfolding flow_activity_def stalled_flow_def
    by (rule emits_noted_or, (intro f untallied frame_intros; simp), (intro g frame_intros; simp))
qed

lemma last_bytes_quiet [frame_intros]: "emits P (last_bytes sjob bid)"
  unfolding last_bytes_def by (intro frame_intros)

lemma jint64_val: "jint64_a j p s = (Inr i, t) \<Longrightarrow> Option.bind (jget j p) asInt64 = Some i"
  by (auto simp: json_acts opt_r_def split: option.splits)

lemma last_bytes_val: "last_bytes sjob bid s = (Inr n, t) \<Longrightarrow> last_tx sjob bid = Some n"
  unfolding last_bytes_def last_tx_def
  by (auto simp: json_acts opt_r_def simp del: jget.simps split: option.splits elim!: bind_a_InrE)

text \<open>An increment leaves one increment and nothing else.\<close>

lemma inc_polled:
  assumes "sees tallied m (\<lambda>_. one_inc c f k n)" and "emits (\<lambda>e. \<not> is_rpc e) m"
  shows "sees poll_event m (\<lambda>_ l. incs l = [(c, f, k, n)])"
  by (rule sees_widen [OF sees_mono [OF assms(1)]]) (simp add: one_inc_def, rule emits_mono [OF assms(2)], simp)

lemma incs_no_rpc:
  "emits (\<lambda>e. \<not> is_rpc e) (increment_sjob_block_field b k n)" "emits (\<lambda>e. \<not> is_rpc e) (increment_sjob_flow_field task k n)"
  "emits (\<lambda>e. \<not> is_rpc e) (increment_sjob_field i k n)" "emits (\<lambda>e. \<not> is_rpc e) (increment_rawjob_field i k n)"
  "emits (\<lambda>e. \<not> is_rpc e) (increment_site_field i k n)"
  by (intro frame_intros; simp)+

lemmas incs_polled = inc_seen(1) [THEN inc_polled, OF incs_no_rpc(1)] inc_seen(2) [THEN inc_polled, OF incs_no_rpc(2)]
  inc_seen(3) [THEN inc_polled, OF incs_no_rpc(3)] inc_seen(4) [THEN inc_polled, OF incs_no_rpc(4)]
  inc_site_seen [THEN inc_polled, OF incs_no_rpc(5)]

lemma unpolled [simp]:
  "\<not> poll_event (Http q z)" "\<not> poll_event (Sleep n)" "\<not> poll_event (Ts line)" "\<not> poll_event (Db (DbFind c f g) r)"
  "plain_sjob q' \<Longrightarrow> \<not> poll_event (Db q' r)"
  by (simp_all add: poll_event_def)

lemma record_rate_books:
  "sees poll_event (record_rate rjob_id sjob_id sjob flow task rate) (\<lambda>(r, n) k. \<exists>bid transferred known.
     Option.bind (jget flow [K ''block'']) asString = Some bid \<and>
     Option.bind (jget rate [K ''transferred'']) asInt64 = Some transferred \<and> last_tx sjob bid = Some known \<and>
     n = transferred - known \<and> incs k = flow_incs (Some (bid, task, n)))"
  unfolding record_rate_def
  apply (rule sees_skip, (intro frame_intros), rule sees_skip_val, (intro frame_intros), drule jint64_val)
  apply (rule sees_skip, (intro frame_intros; simp), rule sees_skip_val, (intro frame_intros), drule json_act_val(2))
  apply (rule sees_skip_val, (intro frame_intros), drule last_bytes_val)
  apply (rule sees_skip, (intro frame_intros), rule sees_skip, (intro frame_intros), rule sees_skip, (intro frame_intros))
  apply (rule sees_skip, rule poll_unnoted, rule sees_skip, (intro emits_plain; simp), rule sees_skip, (intro emits_plain; simp))
  apply (rule sees_bind [OF incs_polled(1)], rule sees_bind [OF incs_polled(2)], rule sees_ret)
  by (simp del: jget.simps)

text \<open>The launcher does not know a task it was asked about.\<close>

definition task_lost :: "event list \<Rightarrow> bool" where
  "task_lost k \<longleftrightarrow> (\<exists>q task rate. Rpc q (rate_request task) 5 (Inr rate) \<in> set k \<and> Option.bind (jget rate [K ''code'']) asInt = Some 1)"

lemma task_lost_mono: "task_lost k \<Longrightarrow> set k \<subseteq> set l \<Longrightarrow> task_lost l"
  unfolding task_lost_def by blast

text \<open>What polling a flow leaves: a lost task nothing; otherwise the booking of the flow and its increments.\<close>

definition sample_booked :: "json \<Rightarrow> json \<Rightarrow> sample \<Rightarrow> event list \<Rightarrow> bool" where
  "sample_booked sjob flow x k \<longleftrightarrow> (case x of
       Lost \<Rightarrow> incs k = [] \<and> task_lost k
     | Unsampled \<Rightarrow> booked k sjob flow None \<and> incs k = []
     | Sampled r n \<Rightarrow> \<exists>b. booked k sjob flow b \<and> incs k = flow_incs b \<and> amount b = n)"

lemma rpc_polled: "sees poll_event (rpc_call q m i) (\<lambda>r k. k = [Rpc q m i (Inr r)])"
  by (auto simp: sees_def rpc_call_def split: prod.splits)

lemma finished_rate_code:
  assumes "(if code = 2 then jset_a [K ''rate''] v rate else ret_a rate) s = (Inr rate', t)"
    and "Option.bind (jget rate [K ''code'']) asInt = Some code" and "Option.bind (jget rate' [K ''code'']) asInt = Some code'"
  shows "code' = code \<and> (code \<noteq> 2 \<longrightarrow> rate' = rate)"
proof (cases "code = 2")
  case True
  with assms(1) have "jset [K ''rate''] v rate = Some rate'" by (auto dest: jset_a_val)
  with jget_jset_other [of "[]" "K ''rate''" "[]" v rate rate' "K ''code''" "[]"] assms(2,3) True show ?thesis by simp
qed (use assms in auto)

lemma sampled_booked:
  assumes "running flow" and "Option.bind (jget flow [K ''task'']) asString = Some task" and "answer_ok rate"
    and "Rpc q (rate_request task) 5 (Inr rate) \<in> set k" and "Option.bind (jget flow [K ''block'']) asString = Some bid"
    and "Option.bind (jget rate [K ''transferred'']) asInt64 = Some transferred" and "last_tx sjob bid = Some known"
    and "incs k = flow_incs (Some (bid, task, transferred - known))"
  shows "sample_booked sjob flow (Sampled r (transferred - known)) k"
  unfolding sample_booked_def sample.case
  by (rule exI [of _ "Some (bid, task, transferred - known)"]) (use assms in \<open>auto simp: booked_def books_def simp del: jget.simps\<close>)

lemma answer_okI:
  assumes "is_member_a rate ''timed_out'' s = (Inr has, t)"
    and "(if has then jbool_a rate [K ''timed_out''] else ret_a False) s' = (Inr timed_out, t')" and "\<not> timed_out"
    and "Option.bind (jget rate [K ''code'']) asInt = Some 0"
  shows "answer_ok rate"
  using assms by (auto simp: answer_ok_def json_act_iff simp del: jget.simps dest!: json_act_val split: if_splits)

lemma query_rate_books:
  assumes "running flow" and "Option.bind (jget flow [K ''task'']) asString = Some task"
  shows "sees poll_event (query_rate rjob_id sjob_id sjob flow task) (sample_booked sjob flow)"
  unfolding query_rate_def
  apply (rule sees_skip, (intro frame_intros), rule sees_skip, (intro frame_intros), rule sees_bind [OF rpc_polled])
  apply (rule sees_skip_val, (intro frame_intros), rule sees_skip_val, (intro frame_intros), rule sees_if)
  subgoal for _ _ rate by (rule sees_ret) (use assms in \<open>fastforce simp: sample_booked_def booked_def books_def answer_ok_def json_act_iff simp del: jget.simps dest!: json_act_val split: if_splits\<close>)
  apply (rule sees_skip_val, (intro frame_intros), drule json_act_val(3), rule sees_if)
  subgoal by (rule sees_skip, rule poll_unnoted, rule sees_ret) (auto simp: sample_booked_def task_lost_def simp del: jget.simps)
  apply (rule sees_skip_val, (intro frame_intros), rule sees_skip_val, (intro frame_intros), drule json_act_val(3), rule sees_if)
  subgoal for _ _ rate
    by (rule sees_ret, drule (2) finished_rate_code)
      (use assms in \<open>fastforce simp: sample_booked_def booked_def books_def answer_ok_def simp del: jget.simps\<close>)
  apply (rule sees_bind [OF record_rate_books], rule sees_case_prod, rule sees_ret, drule (2) finished_rate_code)
  apply (clarsimp simp del: jget.simps flow_incs.simps)
  by (rule sampled_booked [OF assms], rule answer_okI, assumption, assumption, simp, assumption, rule list.set_intros(1)) (simp_all del: jget.simps flow_incs.simps)

lemma poll_flow_books: "sees poll_event (poll_flow rjob_id sjob_id sjob flow) (sample_booked sjob flow)"
proof -
  have idle: "sample_booked sjob flow Unsampled []" if "\<not> running flow"
    using that by (simp add: sample_booked_def booked_def)
  show ?thesis
    unfolding poll_flow_def
    apply (rule sees_skip_val, (intro frame_intros), drule json_act_val(3), rule sees_skip_val, (intro frame_intros), drule json_act_val(2))
    apply (rule sees_if, rule sees_ret, rule idle, fastforce simp: running_def simp del: jget.simps)
    apply (rule sees_if, rule query_rate_books, fastforce simp: running_def simp del: jget.simps, assumption)
    apply (rule sees_skip, (intro frame_intros; simp), rule sees_ret, rule idle, fastforce simp: running_def simp del: jget.simps)
    done
qed

section \<open>Over all flows and sjobs\<close>

lemma booked_total_simps [simp]: "booked_total [] = 0" "booked_total (b # bs) = amount b + booked_total bs"
  by (simp_all add: booked_total_def)

definition only_sjobs :: "inc list \<Rightarrow> bool" where
  "only_sjobs = list_all (\<lambda>(c, _). c = ''sjob'')"

lemma only_sjobs_simps [simp]: "only_sjobs []" "only_sjobs (is @ js) \<longleftrightarrow> only_sjobs is \<and> only_sjobs js" "only_sjobs (flow_incs b)"
  "only_sjobs (sjob_incs (i, bs))"
proof -
  show *: "only_sjobs (flow_incs b)" for b by (cases b rule: flow_incs.cases) (simp_all add: only_sjobs_def)
  show "only_sjobs (sjob_incs (i, bs))"
    using * by (simp add: sjob_incs_def) (auto simp: only_sjobs_def list_all_iff)
qed (simp_all add: only_sjobs_def)

definition flows_booked :: "json \<Rightarrow> json list \<Rightarrow> int \<Rightarrow> int \<Rightarrow> (totals \<times> totals) option \<Rightarrow> event list \<Rightarrow> bool" where
  "flows_booked sjob flows sb rb x k \<longleftrightarrow> (case x of
       None \<Rightarrow> only_sjobs (incs k) \<and> task_lost k
     | Some (stot, rtot) \<Rightarrow> \<exists>bs. list_all2 (booked k sjob) flows bs \<and> incs k = concat (map flow_incs bs) \<and>
         snd stot = sb + booked_total bs \<and> snd rtot = rb + booked_total bs)"

lemma booked_all_mono: "list_all2 (booked k sjob) flows bs \<Longrightarrow> set k \<subseteq> set l \<Longrightarrow> list_all2 (booked l sjob) flows bs"
  by (erule list_all2_mono) (rule booked_mono)

lemma flows_booked_step:
  assumes "booked k sjob flow b" and "incs k = flow_incs b" and "flows_booked sjob flows (sb + amount b) (rb + amount b) x k'"
  shows "flows_booked sjob (flow # flows) sb rb x (k @ k')"
proof (cases x)
  case None
  with assms show ?thesis using task_lost_mono [of k' "k @ k'"] by (simp add: flows_booked_def)
next
  case (Some y)
  with assms(3) obtain bs where bs: "list_all2 (booked k' sjob) flows bs" "incs k' = concat (map flow_incs bs)"
    "snd (fst y) = sb + amount b + booked_total bs" "snd (snd y) = rb + amount b + booked_total bs"
    by (cases y) (auto simp: flows_booked_def)
  have "list_all2 (booked (k @ k') sjob) (flow # flows) (b # bs)"
    using booked_mono [OF assms(1), of "k @ k'"] booked_all_mono [OF bs(1), of "k @ k'"] by simp
  with bs assms(2) Some show ?thesis by (cases y) (force simp: flows_booked_def)
qed

lemma poll_flows_books:
  "sees poll_event (poll_flows rjob_id sjob_id sjob flows (sr, sb) (rr, rb)) (flows_booked sjob flows sb rb)"
proof (induction flows arbitrary: sr sb rr rb)
  case Nil
  show ?case unfolding poll_flows.simps by (rule sees_ret) (simp add: flows_booked_def)
next
  case (Cons flow flows)
  show ?case unfolding poll_flows.simps
    apply (rule sees_bind [OF poll_flow_books])
    subgoal for x k
      apply (cases x; simp only: sample.case sample_booked_def)
        apply (rule sees_mono [OF Cons.IH], rule flows_booked_step [where b = None], simp, simp, simp)
       apply (rule sees_mono [OF Cons.IH], elim exE conjE, erule flows_booked_step, assumption, simp)
      apply (rule sees_ret, simp add: flows_booked_def)
      done
    done
qed

definition sjobs_booked :: "json list \<Rightarrow> int \<Rightarrow> totals option \<Rightarrow> event list \<Rightarrow> bool" where
  "sjobs_booked sjobs rb x k \<longleftrightarrow> (case x of
       None \<Rightarrow> only_sjobs (incs k) \<and> task_lost k
     | Some rtot \<Rightarrow> \<exists>bss. list_all2 (booked_sjob k) sjobs bss \<and> incs k = concat (map sjob_incs bss) \<and>
         snd rtot = rb + sum_list (map (booked_total \<circ> snd) bss))"

lemma booked_sjob_mono: "booked_sjob k sjob b \<Longrightarrow> set k \<subseteq> set l \<Longrightarrow> booked_sjob l sjob b"
  unfolding booked_sjob_def using booked_all_mono by (fastforce split: prod.splits)

lemma sjobs_booked_step:
  assumes "booked_sjob k sjob (i, bs)" and "incs k = sjob_incs (i, bs)" and "sjobs_booked sjobs (rb + booked_total bs) x k'"
  shows "sjobs_booked (sjob # sjobs) rb x (k @ k')"
proof (cases x)
  case None
  with assms show ?thesis using task_lost_mono [of k' "k @ k'"] by (simp add: sjobs_booked_def)
next
  case (Some y)
  with assms(3) obtain bss where bss: "list_all2 (booked_sjob k') sjobs bss" "incs k' = concat (map sjob_incs bss)"
    "snd y = rb + booked_total bs + sum_list (map (booked_total \<circ> snd) bss)"
    by (auto simp: sjobs_booked_def)
  have "list_all2 (booked_sjob (k @ k')) (sjob # sjobs) ((i, bs) # bss)"
    using booked_sjob_mono [OF assms(1), of "k @ k'"] list_all2_mono [OF bss(1), of "booked_sjob (k @ k')"] booked_sjob_mono
    by (fastforce simp del: split_paired_All)
  with bss assms(2) Some show ?thesis
    unfolding sjobs_booked_def by (simp, intro exI [of _ "(i, bs) # bss"]) simp
qed

lemma poll_sjobs_books: "sees poll_event (poll_sjobs rjob_id sjobs rtot) (sjobs_booked sjobs (snd rtot))"
proof (induction sjobs arbitrary: rtot)
  case Nil
  show ?case unfolding poll_sjobs.simps by (rule sees_ret) (simp add: sjobs_booked_def)
next
  case (Cons sjob sjobs)
  obtain rr rb where r: "rtot = (rr, rb)" by (cases rtot)
  show ?case unfolding poll_sjobs.simps r
    apply (rule sees_skip_val, (intro frame_intros), drule json_act_val(2), rule sees_skip_val, (intro frame_intros), drule json_act_val(1))
    apply (rule sees_bind [OF poll_flows_books])
    subgoal premises prems for _ sjob_id _ _ flows _ x k
    proof (cases x)
      case None
      with prems show ?thesis by (auto intro!: sees_ret simp: flows_booked_def sjobs_booked_def)
    next
      case (Some y)
      obtain sr sb rr' rb' where y: "y = ((sr, sb), (rr', rb'))" by (cases y) auto
      obtain bs where bs: "list_all2 (booked k sjob) (elems flows) bs" "incs k = concat (map flow_incs bs)" "sb = booked_total bs" "rb' = rb + booked_total bs"
        using prems(3) by (auto simp: flows_booked_def Some y)
      have step: "sjobs_booked (sjob # sjobs) rb z (k @ j @ k')"
        if j: "incs j = [(''sjob'', by_id sjob_id, ''tx_bytes'', sb)]" and k': "sjobs_booked sjobs rb' z k'" for z j k'
      proof -
        have "booked_sjob (k @ j) sjob (sjob_id, bs)"
          using prems(1,2) booked_all_mono [OF bs(1), of "k @ j"] by (auto simp: booked_sjob_def simp del: jget.simps)
        moreover have "incs (k @ j) = sjob_incs (sjob_id, bs)" using bs(2,3) j by (simp add: sjob_incs_def)
        ultimately show ?thesis using sjobs_booked_step [of "k @ j"] k' bs(4) by simp
      qed
      show ?thesis unfolding Some y option.case prod.case
        apply (rule sees_skip, (intro frame_intros; simp), rule sees_bind [OF incs_polled(3)])
        by (rule sees_mono [OF Cons.IH]) (simp add: step r)
    qed
    done
qed

text \<open>
  The end of the poll of a raw job: bookings for all the flows of all the sjobs that were read, and exactly their increments, with
  the sum of all bookings for the raw job, the bytes sent of the source site and the bytes received of the destination site.
\<close>

definition raw_incs :: "string \<Rightarrow> string \<Rightarrow> string \<Rightarrow> (string \<times> booking list) list \<Rightarrow> inc list" where
  "raw_incs rjid src dst bss =
     (let n = sum_list (map (booked_total \<circ> snd) bss) in
        concat (map sjob_incs bss) @
          [(''rawjob'', by_id rjid, ''tx_bytes'', n), (''site'', by_id src, ''tx_bytes'', n), (''site'', by_id dst, ''rx_bytes'', n)])"

definition raw_booked :: "json \<Rightarrow> string \<Rightarrow> json list \<Rightarrow> event list \<Rightarrow> bool" where
  "raw_booked rjob rjid docs k \<longleftrightarrow>
     (\<exists>src dst bss. job_sites rjob src dst \<and> list_all2 (booked_sjob k) docs bss \<and> incs k = raw_incs rjid src dst bss)"

text \<open>The poll of a raw job once its sjobs were read.\<close>

definition poll_read_sjobs :: "json \<Rightarrow> string \<Rightarrow> json list \<Rightarrow> ('w, bool) srv_act" where
  "poll_read_sjobs rjob rjid docs =
     bind_a (poll_sjobs rjid docs (0, 0)) (\<lambda>x.
     case x of
       None \<Rightarrow> ret_a False
     | Some (raw_rate, raw_tx_bytes) \<Rightarrow>
         bind_a (ts_insert tsrate [TsDouble raw_rate] [''rawjob'', rjid]) (\<lambda>_.
         bind_a (increment_rawjob_field rjid ''tx_bytes'' raw_tx_bytes) (\<lambda>_.
         bind_a (jstr_a rjob [K ''srcsite'', K ''$oid'']) (\<lambda>src.
         bind_a (increment_site_field src ''tx_bytes'' raw_tx_bytes) (\<lambda>_.
         bind_a (jstr_a rjob [K ''dstsite'', K ''$oid'']) (\<lambda>dst.
         bind_a (increment_site_field dst ''rx_bytes'' raw_tx_bytes) (\<lambda>_.
         bind_a (add_tx src raw_tx_bytes) (\<lambda>_.
         bind_a (add_rx dst raw_tx_bytes) (\<lambda>_.
         ret_a True)))))))))"

lemma poll_rawjob_read:
  "poll_rawjob rjob = bind_a (jstr_a rjob [K ''_id'', K ''$oid'']) (\<lambda>rjid.
     bind_a (get_sjobs_from_rawjob_id rjid) (\<lambda>sjobs. poll_read_sjobs rjob rjid (elems sjobs)))"
  unfolding poll_rawjob_def poll_read_sjobs_def ..

lemma jstr_read: "jstr_a j p s = (Inr b, t) \<Longrightarrow> t = s \<and> Option.bind (jget j p) asString = Some b"
  by (auto simp: json_acts opt_r_def split: option.splits)

lemma sjobs_read:
  "get_sjobs_from_rawjob_id i s = (Inr sjobs, t) \<Longrightarrow>
   \<exists>docs. sjobs = jarr docs \<and> s_log t = s_log s @ [Db (DbFind ''sjob'' (jobj [(''rawjob'', oid i)]) JNull) (Inr docs)]"
  by (auto simp: get_sjobs_from_rawjob_id_def db_def split: prod.splits elim!: bind_a_InrE)

lemma poll_rawjob_books:
  "sees poll_event (poll_read_sjobs rjob rjid docs)
     (\<lambda>goes_on k. if goes_on then raw_booked rjob rjid docs k else only_sjobs (incs k) \<and> task_lost k)"
  unfolding poll_read_sjobs_def
  apply (rule sees_bind [OF poll_sjobs_books])
  subgoal premises prems for x k
  proof (cases x)
    case None
    with prems show ?thesis by (auto intro!: sees_ret simp: sjobs_booked_def)
  next
    case (Some y)
    then obtain r bss where y: "y = (r, sum_list (map (booked_total \<circ> snd) bss))" and bss: "list_all2 (booked_sjob k) docs bss" "incs k = concat (map sjob_incs bss)"
      using prems by (cases y) (auto simp: sjobs_booked_def)
    have all: "list_all2 (booked_sjob (k @ j)) docs bss" for j
      by (rule list_all2_mono [OF bss(1)]) (erule booked_sjob_mono, simp)
    show ?thesis unfolding Some y option.case prod.case
      apply (rule sees_skip, (intro frame_intros; simp), rule sees_bind [OF incs_polled(4)])
      apply (rule sees_skip_val, (intro frame_intros), drule json_act_val(2), rule sees_bind [OF incs_polled(5)])
      apply (rule sees_skip_val, (intro frame_intros), drule json_act_val(2), rule sees_bind [OF incs_polled(5)])
      apply (rule sees_skip, (intro frame_intros; simp), rule sees_skip, (intro frame_intros; simp), rule sees_ret)
      unfolding raw_booked_def if_True
      by (intro exI conjI, simp only: job_sites_def, rule all) (simp add: raw_incs_def Let_def bss(2))
  qed
  done

lemma poll_books_filter:
  "incs (filter poll_event l) = incs l" "task_lost (filter poll_event l) \<Longrightarrow> task_lost (k @ l)"
  "list_all2 (booked_sjob (filter poll_event l)) docs bss \<Longrightarrow> list_all2 (booked_sjob (k @ l)) docs bss"
proof -
  show "incs (filter poll_event l) = incs l"
    unfolding incs_def by (rule map_filter_mono_filter) (simp add: poll_event_def tallied_def is_inc_def)
  show "task_lost (filter poll_event l) \<Longrightarrow> task_lost (k @ l)" by (erule task_lost_mono) auto
  show "list_all2 (booked_sjob (filter poll_event l)) docs bss \<Longrightarrow> list_all2 (booked_sjob (k @ l)) docs bss"
    by (erule list_all2_mono, erule booked_sjob_mono) auto
qed

section \<open>Failing a job\<close>

definition settling :: "event \<Rightarrow> bool" where
  "settling e \<longleftrightarrow> path_event e \<or> raw_assign e"

lemma settling_simps [simp]:
  "settling (Sleep n) = False" "settling (Ts q) = False" "on_sjob d \<Longrightarrow> settling (Db d r) = False" "settling (Db (DbFind c f g) r) = False"
  "settling (Db (DbFindOne c f) r) = False" "settling (Db (DbFindOneAndUpdate c f u) r) = False" "settling (Rpc k m i x) = False"
  "settling (Http h z) = path_event (Http h z)"
  by (cases d; auto simp: settling_def on_sjob_def path_event_def)+














section \<open>A run\<close>

text \<open>A raw job with one sjob and one running flow, of which the launcher reports ten bytes, four of them known.\<close>

definition polled_flow :: json where
  "polled_flow = jobj
     [(''task'', JStr ''t1''), (''block'', JStr ''b1''), (''state'', JInt 2), (''start'', JInt 0), (''tx_bytes'', JInt 4), (''last_active'', JInt 0)]"

definition polled_sjob :: json where
  "polled_sjob = jobj
     [(''_id'', oid ''s1''), (''flows'', jarr [polled_flow]), (''blocks'', jarr [jobj [(''id'', JStr ''b1''), (''tx_bytes'', JInt 4)]])]"

definition polled_rawjob :: json where
  "polled_rawjob = jobj [(''_id'', oid ''r1''), (''srcsite'', oid ''x''), (''dstsite'', oid ''y'')]"

fun poll_db :: "db_req \<Rightarrow> json list" where
  "poll_db (DbFind c f g) = [polled_sjob]"
| "poll_db q = []"

definition poll_server :: "json \<Rightarrow> (int \<times> json) list srv" where
  "poll_server answer = (server_in (script_env\<lparr>e_db := \<lambda>q w. (Inr (poll_db q), w), e_rpc := \<lambda>k m i w. (Inr answer, w)\<rparr>) [])\<lparr>s_rm := demo_rm\<rparr>"

definition rate_answer :: json where
  "rate_answer = jobj [(''code'', JInt 0), (''rate'', JInt 0), (''transferred'', JInt 10)]"

lemma demo_rate_lines:
  "ts_line tsrate [TsDouble 0] [''flow'', ''t1''] = Some ''job,group=flow,id=t1 rate=0.000000''"
  "ts_line tsrate [TsDouble 0] [''sjob'', ''s1''] = Some ''job,group=sjob,id=s1 rate=0.000000''"
  "ts_line tsrate [TsDouble 0] [''rawjob'', ''r1''] = Some ''job,group=rawjob,id=r1 rate=0.000000''"
  by code_simp+

lemma demo_poll:
  "fst (poll_rawjob polled_rawjob (poll_server rate_answer)) = Inr True"
  "\<exists>t. poll_flow ''r1'' ''s1'' polled_sjob polled_flow (poll_server rate_answer) = (Inr (Sampled 0 6), t)"
  by (simp add: status_exec demo_env_simps(6) demo_rate_lines poll_server_def rate_answer_def polled_rawjob_def polled_sjob_def polled_flow_def
      poll_rawjob_def poll_flow_def query_rate_def record_rate_def last_bytes_def flow_activity_def add_tx_def add_rx_def
      del: jobj_simps cong: bind_a_lazy)+

section \<open>Properties\<close>

text \<open>
  C16: the poll keeps exact books. Polling a raw job reads its sjobs. When the poll comes to its end, there is a booking for every
  running flow of these sjobs that the launcher has answered for with code 0 in time: the bytes it reported for the task of the
  flow, less the bytes the block of the flow had before. These bytes are added to the block and to the flow, once each; their sum
  over the flows of an sjob is added to the sjob, and their sum over all sjobs to the raw job, to the bytes sent of the source site
  and to the bytes received of the destination site; no counter changes otherwise. The poll stops early only when the
  launcher does not know a task, and then nothing is added to the raw job and to the sites.
\<close>

theorem poll_bytes_agree:
  assumes "poll_rawjob rjob s = (Inr goes_on, t)"
  shows "\<exists>l rjid docs. s_log t = s_log s @ l \<and> Option.bind (jget rjob [K ''_id'', K ''$oid'']) asString = Some rjid \<and>
    Db (DbFind ''sjob'' (jobj [(''rawjob'', oid rjid)]) JNull) (Inr docs) \<in> set l \<and>
    (if goes_on then \<exists>src dst bss. job_sites rjob src dst \<and> list_all2 (booked_sjob l) docs bss \<and> incs l = raw_incs rjid src dst bss
     else only_sjobs (incs l) \<and> task_lost l)"
proof -
  obtain rjid u docs where rjid: "Option.bind (jget rjob [K ''_id'', K ''$oid'']) asString = Some rjid"
    and u: "s_log u = s_log s @ [Db (DbFind ''sjob'' (jobj [(''rawjob'', oid rjid)]) JNull) (Inr docs)]"
    and rest: "poll_read_sjobs rjob rjid docs u = (Inr goes_on, t)"
    using assms unfolding poll_rawjob_read
    by (elim bind_a_InrE) (drule jstr_read, drule sjobs_read, elim exE conjE, simp only: elems_jarr)
  obtain l where l: "s_log t = s_log u @ l"
    "if goes_on then raw_booked rjob rjid docs (filter poll_event l) else only_sjobs (incs (filter poll_event l)) \<and> task_lost (filter poll_event l)"
    using seesD [OF poll_rawjob_books rest] by blast
  let ?e = "Db (DbFind ''sjob'' (jobj [(''rawjob'', oid rjid)]) JNull) (Inr docs)"
  let ?l = "[?e] @ l"
  have i: "incs ?l = incs (filter poll_event l)" by (simp add: poll_books_filter(1))
  have "if goes_on then \<exists>src dst bss. job_sites rjob src dst \<and> list_all2 (booked_sjob ?l) docs bss \<and> incs ?l = raw_incs rjid src dst bss
     else only_sjobs (incs ?l) \<and> task_lost ?l"
  proof (cases goes_on)
    case True
    with l(2) show ?thesis unfolding raw_booked_def i if_P [OF True] using poll_books_filter(3) [of l docs _ "[?e]"] by blast
  next
    case False
    with l(2) show ?thesis unfolding i if_not_P [OF False] using poll_books_filter(2) [of l "[?e]"] by blast
  qed
  then show ?thesis using rjid u l(1) by (intro exI [of _ ?l] exI [of _ rjid] exI [of _ docs]) simp
qed

theorem poll_bytes_agree_witness:
  "\<exists>t docs src dst bss. poll_rawjob polled_rawjob (poll_server rate_answer) = (Inr True, t) \<and>
     Db (DbFind ''sjob'' (jobj [(''rawjob'', oid ''r1'')]) JNull) (Inr docs) \<in> set (s_log t) \<and>
     job_sites polled_rawjob src dst \<and> list_all2 (booked_sjob (s_log t)) docs bss \<and> incs (s_log t) = raw_incs ''r1'' src dst bss"
proof -
  obtain r t where t: "poll_rawjob polled_rawjob (poll_server rate_answer) = (r, t)" by fastforce
  with demo_poll(1) have r: "r = Inr True" by simp
  have "s_log (poll_server rate_answer) = []" by (simp add: poll_server_def server_in_def)
  moreover have "Option.bind (jget polled_rawjob [K ''_id'', K ''$oid'']) asString = Some ''r1''"
    by (simp add: polled_rawjob_def oid_def)
  ultimately show ?thesis using poll_bytes_agree [OF t [unfolded r]] unfolding t r by auto
qed



end
