(* ===== verification/Bootstrap.thy ===== *)
theory Bootstrap
  imports Job_Schedule
begin

text \<open>
  From a raw job to its sjobs, \<open>Scheduler::bootstrap_transfer_job\<close> and the functions it calls in
  \<open>src/server/scheduler.cc\<close>: proxy certificates for both sites, the destination, the source files (given as
  paths that a site expands, or as the file list of a data set), one sjob per source storage, stored with its
  blocks.

  The functions that take \<open>Json::Value & job\<close> return the changed job. \<open>generate_proxy_cert\<close> is built on OpenSSL;
  it is the parameter \<open>gen\<close>, from a key and a certificate to the private key and the certificate of the proxy.
\<close>

section \<open>Helpers\<close>

type_synonym 'w cert_gen = "string \<Rightarrow> string \<Rightarrow> ('w, string \<times> string) srv_act"

definition jsets_a :: "(sel list \<times> json) list \<Rightarrow> json \<Rightarrow> ('w, json) srv_act" where
  "jsets_a ps j = fold_a (\<lambda>(p, v) j. jset_a p v j) ps j"

definition jremove_a :: "string \<Rightarrow> json \<Rightarrow> ('w, json) srv_act" where
  "jremove_a k j = lift_r (opt_r Json_error (removeMember k j))"

definition jappend_a :: "sel list \<Rightarrow> json \<Rightarrow> json \<Rightarrow> ('w, json) srv_act" where
  "jappend_a p v j = lift_r (opt_r Json_error (jref p (append_j v) j))"

text \<open>The error exit of the parsing functions: \<open>job["error"] = err; return false;\<close>.\<close>

definition refuse :: "json \<Rightarrow> string \<Rightarrow> ('w, bool \<times> json) srv_act" where
  "refuse job err = bind_a (jset_a [K ''error''] (JStr err) job) (\<lambda>j. ret_a (False, j))"

section \<open>Proxy certificates\<close>

definition cert_doc :: "json \<Rightarrow> json \<Rightarrow> string \<Rightarrow> string \<Rightarrow> json" where
  "cert_doc key cert proxy_key proxy_cert = jobj
     [(''user_key'', key), (''user_cert'', cert), (''proxy_key'', JStr proxy_key), (''proxy_cert'', JStr proxy_cert)]"

definition create_raw_job_proxy_cert :: "'w cert_gen \<Rightarrow> json \<Rightarrow> ('w, bool \<times> json) srv_act" where
  "create_raw_job_proxy_cert gen job =
     bind_a (jstr_a job [K ''_id'', K ''$oid'']) (\<lambda>rjid.
     bind_a (jstr_a job [K ''user'', K ''$oid'']) (\<lambda>user.
     bind_a (jstr_a job [K ''srcsite'', K ''$oid'']) (\<lambda>srcsite.
     bind_a (jstr_a job [K ''dstsite'', K ''$oid'']) (\<lambda>dstsite.
     bind_a (get_user_keys user srcsite) (\<lambda>src_keys.
     bind_a (is_member_a src_keys ''error'') (\<lambda>src_missing.
     if src_missing then
       bind_a (jstr_a src_keys [K ''error'']) (\<lambda>e.
       refuse job (''error at getting source site user certificate from db: '' @ e))
     else
       bind_a (get_user_keys user dstsite) (\<lambda>dst_keys.
       bind_a (is_member_a dst_keys ''error'') (\<lambda>dst_missing.
       if dst_missing then
         bind_a (jstr_a dst_keys [K ''error'']) (\<lambda>e.
         refuse job (''error at getting source site user certificate from db: '' @ e))
       else
         bind_a (jstr_a src_keys [K ''keypem'']) (\<lambda>sk.
         bind_a (jstr_a src_keys [K ''cert'']) (\<lambda>sc.
         bind_a (gen sk sc) (\<lambda>(src_key, src_cert).
         bind_a (jstr_a dst_keys [K ''keypem'']) (\<lambda>dk.
         bind_a (jstr_a dst_keys [K ''cert'']) (\<lambda>dc.
         bind_a (gen dk dc) (\<lambda>(dst_key, dst_cert).
         bind_a (jget_a src_keys [K ''keypem'']) (\<lambda>skj.
         bind_a (jget_a src_keys [K ''cert'']) (\<lambda>scj.
         bind_a (jget_a dst_keys [K ''keypem'']) (\<lambda>dkj.
         bind_a (jget_a dst_keys [K ''cert'']) (\<lambda>dcj.
         bind_a (update_collection_field ''rawjob'' rjid ''src_certs'' (cert_doc skj scj src_key src_cert)) (\<lambda>_.
         bind_a (update_collection_field ''rawjob'' rjid ''dst_certs'' (cert_doc dkj dcj dst_key dst_cert)) (\<lambda>_.
         ret_a (True, job)))))))))))))))))))))"

section \<open>The destination\<close>

definition parse_raw_job_dst :: "json \<Rightarrow> ('w, bool \<times> json) srv_act" where
  "parse_raw_job_dst job =
     bind_a (jstr_a job [K ''dstsite'', K ''$oid'']) (\<lambda>dstsite.
     bind_a (jstr_a job [K ''dstfile'']) (\<lambda>dstfile.
     let dsts = split dstfile (CHR ''|'') in
     if length dsts \<noteq> 4 then refuse job ''scheduler::parse_raw_job_dst(): unknown dst path''
     else if dstsite \<noteq> dsts ! 0 then refuse job ''scheduler::parse_raw_job_dst(): dst path is not consistent with dst site.''
     else
       bind_a (get_site_info dstsite) (\<lambda>site_info.
       bind_a (jstr_a site_info [K ''url'']) (\<lambda>url.
       bind_a (post_command url (jobj
         [(''cmd'', JStr ''get_dtn_info''), (''dtn'', JStr (dsts ! 1)), (''storage'', JStr (dsts ! 1 @ ''|'' @ dsts ! 2)),
          (''path'', JStr (dsts ! 3))])) (\<lambda>(http_code, r).
       if http_code \<noteq> 200 then refuse job ''error get_dtn_info().''
       else
         bind_a (jget_a r [K ''dtn'', K ''ctrl_interface'', K ''ip'']) (\<lambda>addr.
         bind_a (jget_a r [K ''disk'']) (\<lambda>disk.
         bind_a (jsets_a
           [([K ''dst'', K ''site'', K ''$oid''], JStr dstsite), ([K ''dst'', K ''storage''], JStr (dsts ! 1 @ ''|'' @ dsts ! 2)),
            ([K ''dst'', K ''dtn''], JStr (dsts ! 1)), ([K ''dst'', K ''dtn_addr''], addr), ([K ''dst'', K ''path''], JStr (dsts ! 3)),
            ([K ''dst'', K ''disk''], disk)] job) (\<lambda>job1.
         bind_a (jremove_a ''dstfile'' job1) (\<lambda>job2.
         bind_a (jremove_a ''dstsite'' job2) (\<lambda>job3.
         ret_a (True, job3)))))))))))"

section \<open>The source, given as paths\<close>

text \<open>
  A source path is \<open>site|dtn|volume|path\<close>. The loops collect one entry per storage (\<open>smap\<close>) and the documents
  of the DTNs asked for (\<open>dtninfo\<close>); they return an error message when the job is refused.
\<close>

definition source_dtn :: "json \<Rightarrow> string \<Rightarrow> json \<Rightarrow> ('w, string + json) srv_act" where
  "source_dtn site_info dtn dtninfo =
     bind_a (is_member_a dtninfo dtn) (\<lambda>known.
     if known then ret_a (Inr dtninfo)
     else
       bind_a (jstr_a site_info [K ''url'']) (\<lambda>url.
       bind_a (post_command url (jobj [(''cmd'', JStr ''get_dtn_info''), (''dtn'', JStr dtn)])) (\<lambda>(http_code, r).
       if http_code \<noteq> 200 then ret_a (Inl ''error get_dtn_info()'')
       else
         bind_a (jget_a r [K ''dtn'']) (\<lambda>d.
         bind_a (jset_a [K dtn] d dtninfo) (\<lambda>info. ret_a (Inr info))))))"

definition source_storage :: "string \<Rightarrow> string \<Rightarrow> string \<Rightarrow> json \<Rightarrow> json \<Rightarrow> ('w, json) srv_act" where
  "source_storage srcsite storage dtn dtninfo smap =
     bind_a (is_member_a smap storage) (\<lambda>known.
     if known then ret_a smap
     else
       bind_a (jget_a dtninfo [K dtn, K ''ctrl_interface'', K ''ip'']) (\<lambda>addr.
       jset_a [K storage] (jobj
         [(''srcsite'', jobj [(''$oid'', JStr srcsite)]), (''srcstorage'', JStr storage), (''srcdtn'', JStr dtn),
          (''srcdtn_addr'', addr), (''srcpath'', JArr [])]) smap))"

definition source_error :: "string \<Rightarrow> string list \<Rightarrow> string option" where
  "source_error srcsite srcs =
     (if length srcs \<noteq> 4 then Some ''scheduler::parse_raw_job_src(): unknown src path''
      else if srcsite \<noteq> srcs ! 0 then Some ''scheduler::parse_raw_job_src(): src path is not consisitent with the src site.''
      else None)"

fun collect_sources :: "string \<Rightarrow> json \<Rightarrow> string list \<Rightarrow> json \<Rightarrow> json \<Rightarrow> ('w, string + json) srv_act" where
  "collect_sources srcsite site_info [] dtninfo smap = ret_a (Inr smap)"
| "collect_sources srcsite site_info (src # rest) dtninfo smap =
     (let srcs = split src (CHR ''|'') in
      case source_error srcsite srcs of
        Some err \<Rightarrow> ret_a (Inl err)
      | None \<Rightarrow>
          bind_a (source_dtn site_info (srcs ! 1) dtninfo) (\<lambda>x.
          case x of
            Inl err \<Rightarrow> ret_a (Inl err)
          | Inr info \<Rightarrow>
              bind_a (source_storage srcsite (srcs ! 1 @ ''|'' @ srcs ! 2) (srcs ! 1) info smap) (\<lambda>smap1.
              bind_a (jappend_a [K (srcs ! 1 @ ''|'' @ srcs ! 2), K ''srcpath''] (JStr (srcs ! 3)) smap1) (\<lambda>smap2.
              collect_sources srcsite site_info rest info smap2))))"

definition expand_request :: "sched_conf \<Rightarrow> json \<Rightarrow> json \<Rightarrow> json \<Rightarrow> json" where
  "expand_request c target dst_path src_path = jobj
     [(''cmd'', JStr ''file_expand_and_group''),
      (''params'', jobj
         [(''target'', target),
          (''params'', jobj
             [(''dst_path'', dst_path), (''group_size'', JUInt (ld_group_size c)), (''max_files'', JInt 2000), (''src_path'', src_path),
              (''result_in_db'', JBool False),
              (''checksum'', jobj [(''compute'', JBool (ld_checksum c)), (''algorithm'', JStr (ld_checksum_alg c))])])])]"

text \<open>
  \<open>size / (time / 1000)\<close> with an unsigned dividend: the divisor is converted to \<open>uint64_t\<close>, and a divisor of
  zero is undefined.
\<close>

definition base_rate :: "int \<Rightarrow> int \<Rightarrow> ('w, int) srv_act" where
  "base_rate sz deadline =
     (let t = deadline mod 2 ^ 64
      in if t = 0 then throw_a Undefined else ret_a (sz div t))"

text \<open>A group of files becomes a block; the result is the metadata the sjob keeps, and the number of files.\<close>

definition block_doc :: "string \<Rightarrow> json \<Rightarrow> nat \<Rightarrow> json" where
  "block_doc blockid sz n = jobj
     [(''id'', JStr blockid), (''state'', JInt 0), (''size'', sz), (''files'', JUInt (int n)), (''tx_bytes'', JInt 0)]"

definition store_group :: "json \<Rightarrow> ('w, json \<times> nat) srv_act" where
  "store_group grp =
     bind_a (is_member_a grp ''parent_folder_list'') (\<lambda>m.
     bind_a (if m then jbool_a grp [K ''parent_folder_list''] else ret_a False) (\<lambda>folders.
     bind_a (jget_a grp [K ''files'']) (\<lambda>files.
     bind_a (jset_a [K ''mode''] (JInt (if folders then 1 else if jsize files = 1 then 0 else 1)) grp) (\<lambda>grp1.
     bind_a (insert_doc ''block'' grp1) (\<lambda>blockid.
     bind_a (jget_a grp1 [K ''size'']) (\<lambda>sz.
     ret_a (block_doc blockid sz (jsize files), jsize files)))))))"

definition expand_source :: "json \<Rightarrow> json \<Rightarrow> json \<Rightarrow> int \<Rightarrow> ('w, string + json \<times> int) srv_act" where
  "expand_source job site_info s deadline =
     bind_a (jget_a s [K ''srcdtn'']) (\<lambda>target.
     bind_a (jget_a job [K ''dst'', K ''path'']) (\<lambda>dst_path.
     bind_a (jget_a s [K ''srcpath'']) (\<lambda>src_path.
     bind_a (get_a s_conf) (\<lambda>c.
     bind_a (jstr_a site_info [K ''url'']) (\<lambda>url.
     bind_a (post_command url (expand_request c target dst_path src_path)) (\<lambda>(http_code, files).
     if http_code \<noteq> 200 then ret_a (Inl ''error expand_and_group rest call'')
     else
       bind_a (jstr_a files [K ''error'']) (\<lambda>e.
       bind_a (if e \<noteq> ''OK'' then ret_a True else bind_a (jint_a files [K ''code'']) (\<lambda>c. ret_a (c \<noteq> 0))) (\<lambda>failed.
       if failed then ret_a (Inl ''error expand_and_group response code'')
       else
         bind_a (juint64_a files [K ''total_size'']) (\<lambda>sz.
         bind_a (base_rate sz deadline) (\<lambda>rate.
         bind_a (jget_a files [K ''files'', K ''groups'']) (\<lambda>groups.
         bind_a (map_a store_group (elems groups)) (\<lambda>blocks.
         bind_a (jsets_a
           [([K ''size''], JUInt sz), ([K ''baserate''], JUInt rate), ([K ''blocks''], jarr (map fst blocks)),
            ([K ''files''], JInt (int (sum_list (map snd blocks))))] s) (\<lambda>s1.
         ret_a (Inr (s1, sz)))))))))))))))"

text \<open>The loop over the storages; it carries the finished entries and the total size.\<close>

fun expand_sources :: "json \<Rightarrow> json \<Rightarrow> int \<Rightarrow> json list \<Rightarrow> json list \<Rightarrow> double \<Rightarrow> ('w, string + json list \<times> double) srv_act" where
  "expand_sources job site_info deadline [] srcdoc acc = ret_a (Inr (srcdoc, acc))"
| "expand_sources job site_info deadline (s # rest) srcdoc acc =
     bind_a (expand_source job site_info s deadline) (\<lambda>x.
     case x of
       Inl err \<Rightarrow> ret_a (Inl err)
     | Inr (s1, sz) \<Rightarrow> expand_sources job site_info deadline rest (srcdoc @ [s1]) (acc + of_int sz))"

text \<open>The common end of both forms: the entries and the size go into the job.\<close>

definition finish_sources :: "json \<Rightarrow> json list \<Rightarrow> double \<Rightarrow> ('w, bool \<times> json) srv_act" where
  "finish_sources job srcdoc total_size =
     bind_a (jset_a [K ''src''] (jarr srcdoc) job) (\<lambda>job1.
     bind_a (jremove_a ''srcfile'' job1) (\<lambda>job2.
     bind_a (jremove_a ''srcsite'' job2) (\<lambda>job3.
     bind_a (jset_a [K ''size''] (JReal total_size) job3) (\<lambda>job4.
     bind_a (jstr_a job4 [K ''_id'', K ''$oid'']) (\<lambda>i.
     bind_a (update_rawjob_size i total_size) (\<lambda>_.
     ret_a (True, job4)))))))"

definition parse_raw_job_src :: "json \<Rightarrow> ('w, bool \<times> json) srv_act" where
  "parse_raw_job_src job =
     bind_a (jstr_a job [K ''user'', K ''$oid'']) (\<lambda>_.
     bind_a (jstr_a job [K ''srcsite'', K ''$oid'']) (\<lambda>srcsite.
     bind_a (jstr_a job [K ''srcfile'']) (\<lambda>srcfile.
     bind_a (get_site_info srcsite) (\<lambda>site_info.
     bind_a (collect_sources srcsite site_info (split srcfile (CHR '','')) JNull JNull) (\<lambda>x.
     case x of
       Inl err \<Rightarrow> refuse job err
     | Inr smap \<Rightarrow>
         bind_a (jint64_a job [K ''submittedat'']) (\<lambda>_.
         bind_a (jint64_a job [K ''deadline'']) (\<lambda>deadline.
         bind_a (expand_sources job site_info deadline (elems smap) [] 0) (\<lambda>y.
         case y of
           Inl err \<Rightarrow> refuse job err
         | Inr (srcdoc, total_size) \<Rightarrow> finish_sources job srcdoc total_size))))))))"

section \<open>The source, given as the files of a data set\<close>

text \<open>\<open>find_last_of("/\\")\<close>, and the two parts of a path: the directory with its separator, and the file.\<close>

definition path_parts :: "string \<Rightarrow> string \<times> string" where
  "path_parts path =
     (let sfile = rev (takeWhile (\<lambda>c. c \<noteq> CHR ''/'' \<and> c \<noteq> CHR 0x5C) (rev path))
      in (take (length path - length sfile) path, sfile))"

text \<open>
  Of the destination \<open>dsts[3]\<close> is used without a check: with fewer than four parts, or an empty last part, the
  behaviour is undefined.
\<close>

definition dest_dir :: "string list \<Rightarrow> ('w, string) srv_act" where
  "dest_dir dsts =
     (if length dsts < 4 \<or> dsts ! 3 = [] then throw_a Undefined
      else ret_a (if last (dsts ! 3) \<noteq> CHR ''/'' then dsts ! 3 @ ''/'' else dsts ! 3))"

fun collect_files :: "string \<Rightarrow> json \<Rightarrow> json list \<Rightarrow> json \<Rightarrow> json \<Rightarrow> ('w, string + json) srv_act" where
  "collect_files srcsite site_info [] dtninfo smap = ret_a (Inr smap)"
| "collect_files srcsite site_info (file # rest) dtninfo smap =
     bind_a (jstr_a file [I 0]) (\<lambda>src.
     bind_a (jstr_a file [I 1]) (\<lambda>dst.
     let srcs = split src (CHR ''|''); dsts = split dst (CHR ''|'') in
     case source_error srcsite srcs of
       Some err \<Rightarrow> ret_a (Inl err)
     | None \<Rightarrow>
         bind_a (source_dtn site_info (srcs ! 1) dtninfo) (\<lambda>x.
         case x of
           Inl err \<Rightarrow> ret_a (Inl err)
         | Inr info \<Rightarrow>
             bind_a (source_storage srcsite (srcs ! 1 @ ''|'' @ srcs ! 2) (srcs ! 1) info smap) (\<lambda>smap1.
             bind_a (dest_dir dsts) (\<lambda>dpath.
             bind_a (jget_a file [I 2]) (\<lambda>sz.
             bind_a (jappend_a [K (srcs ! 1 @ ''|'' @ srcs ! 2), K ''srcpath''] (jobj
               [(''spath'', JStr (fst (path_parts (srcs ! 3)))), (''sfile'', JStr (snd (path_parts (srcs ! 3)))),
                (''dpath'', JStr dpath), (''size'', sz)]) smap1) (\<lambda>smap2.
             collect_files srcsite site_info rest info smap2)))))))"

text \<open>Two entries per file: one that creates the folder, one that copies. The sum of the sizes wraps around.\<close>

definition file_entries :: "json \<Rightarrow> json list \<times> int \<Rightarrow> ('w, json list \<times> int) srv_act" where
  "file_entries e acc =
     bind_a (juint64_a e [K ''size'']) (\<lambda>n.
     bind_a (jget_a e [K ''spath'']) (\<lambda>spath.
     bind_a (jget_a e [K ''dpath'']) (\<lambda>dpath.
     bind_a (jstr_a e [K ''spath'']) (\<lambda>sp.
     bind_a (jstr_a e [K ''sfile'']) (\<lambda>sf.
     bind_a (jstr_a e [K ''dpath'']) (\<lambda>dp.
     bind_a (jget_a e [K ''size'']) (\<lambda>sz.
     ret_a (fst acc @ [jarr [spath, dpath, JInt 0, JInt 0], jarr [JStr (sp @ sf), JStr (dp @ sf), sz, JInt 0]],
            (snd acc + n) mod 2 ^ 64))))))))"

definition dataset_source :: "int \<Rightarrow> json \<Rightarrow> ('w, json \<times> int) srv_act" where
  "dataset_source deadline s =
     bind_a (jget_a s [K ''srcpath'']) (\<lambda>srcpath.
     bind_a (fold_a file_entries (elems srcpath) ([], 0)) (\<lambda>(files, sz).
     bind_a (insert_doc ''block'' (jobj [(''mode'', JInt 1), (''files'', jarr files), (''size'', JUInt sz)])) (\<lambda>blockid.
     bind_a (jset_a [K ''blocks'', I 0] (block_doc blockid (JUInt sz) (length files)) s) (\<lambda>s1.
     bind_a (jset_a [K ''size''] (JUInt sz) s1) (\<lambda>s2.
     bind_a (base_rate sz deadline) (\<lambda>rate.
     bind_a (jset_a [K ''baserate''] (JUInt rate) s2) (\<lambda>s3.
     bind_a (jset_a [K ''files''] (JUInt (int (length files div 2))) s3) (\<lambda>s4.
     ret_a (s4, sz)))))))))"

definition parse_raw_job_src_ds :: "json \<Rightarrow> ('w, bool \<times> json) srv_act" where
  "parse_raw_job_src_ds job =
     bind_a (jstr_a job [K ''user'', K ''$oid'']) (\<lambda>_.
     bind_a (jstr_a job [K ''srcsite'', K ''$oid'']) (\<lambda>srcsite.
     bind_a (get_site_info srcsite) (\<lambda>site_info.
     bind_a (jget_a job [K ''files'']) (\<lambda>files.
     bind_a (collect_files srcsite site_info (elems files) JNull JNull) (\<lambda>x.
     case x of
       Inl err \<Rightarrow> refuse job err
     | Inr smap \<Rightarrow>
         bind_a (jint64_a job [K ''submittedat'']) (\<lambda>_.
         bind_a (jint64_a job [K ''deadline'']) (\<lambda>deadline.
         bind_a (map_a (dataset_source deadline) (elems smap)) (\<lambda>ss.
         finish_sources job (map fst ss) (of_int (sum_list (map snd ss)))))))))))"

section \<open>The sjobs\<close>

definition per_storage_job :: "json \<Rightarrow> json \<Rightarrow> ('w, json) srv_act" where
  "per_storage_job job s =
     bind_a (jget_a job [K ''_id'']) (\<lambda>rawjob.
     bind_a (jget_a job [K ''type'']) (\<lambda>ty.
     bind_a (jget_a job [K ''submittedat'']) (\<lambda>submittedat.
     bind_a (jget_a job [K ''priority'']) (\<lambda>priority.
     bind_a (jget_a job [K ''dst'', K ''site'']) (\<lambda>dstsite.
     bind_a (jget_a job [K ''dst'', K ''storage'']) (\<lambda>dststorage.
     bind_a (jget_a job [K ''dst'', K ''dtn'']) (\<lambda>dstdtn.
     bind_a (jget_a job [K ''dst'', K ''dtn_addr'']) (\<lambda>dstdtn_addr.
     bind_a (jget_a job [K ''dst'', K ''path'']) (\<lambda>dstpath.
     bind_a (jget_a s [K ''baserate'']) (\<lambda>rate.
     jsets_a
       [([K ''rawjob''], rawjob), ([K ''type''], ty), ([K ''submittedat''], submittedat), ([K ''priority''], priority),
        ([K ''dstsite''], dstsite), ([K ''dststorage''], dststorage), ([K ''dstdtn''], dstdtn), ([K ''dstdtn_addr''], dstdtn_addr),
        ([K ''dstpath''], dstpath), ([K ''rate''], rate)] s))))))))))"

definition create_per_storage_job :: "json \<Rightarrow> ('w, json list) srv_act" where
  "create_per_storage_job job =
     bind_a (jget_a job [K ''src'']) (\<lambda>src. map_a (per_storage_job job) (elems src))"

definition new_sjob :: "bool \<Rightarrow> (sel list \<times> json) list" where
  "new_sjob checksum =
     [([K ''state''], JInt (sjob_state_int SJ_bootstrap)), ([K ''tx_bytes''], JInt 0), ([K ''max_flows''], JInt 1),
      ([K ''flows''], JArr []), ([K ''transfer_retry''], JInt 0), ([K ''path_retry''], JInt 0),
      ([K ''stage'', K ''bootstrap'', K ''general''], JInt (sjob_stage_int SG_working)),
      ([K ''stage'', K ''bootstrap'', K ''query''], JInt (sjob_stage_int SG_working)),
      ([K ''stage'', K ''bootstrap'', K ''match''], JInt (sjob_stage_int SG_pending)),
      ([K ''stage'', K ''network'', K ''general''], JInt (sjob_stage_int SG_pending)),
      ([K ''stage'', K ''network'', K ''planning''], JInt (sjob_stage_int SG_pending)),
      ([K ''stage'', K ''transfer'', K ''general''], JInt (sjob_stage_int SG_pending)),
      ([K ''stage'', K ''transfer'', K ''launch''], JInt (sjob_stage_int SG_pending)),
      ([K ''stage'', K ''transfer'', K ''transfer''], JInt (sjob_stage_int SG_pending))] @
     (if checksum then [([K ''stage'', K ''transfer'', K ''checksum''], JInt (sjob_stage_int SG_pending))] else []) @
     [([K ''stage'', K ''teardown'', K ''general''], JInt (sjob_stage_int SG_pending))]"

definition store_sjob :: "json \<Rightarrow> ('w, unit) srv_act" where
  "store_sjob sjob =
     bind_a (get_a (\<lambda>s. ld_checksum (s_conf s))) (\<lambda>ld.
     bind_a (jsets_a (new_sjob ld) sjob) (\<lambda>j.
     unit_a (insert_doc ''sjob'' j)))"

section \<open>Bootstrapping a raw job\<close>

definition reject_job :: "string \<Rightarrow> string \<Rightarrow> ('w, unit) srv_act" where
  "reject_job i err =
     bind_a (update_rawjob_state i RJ_error) (\<lambda>_.
     update_collection_field ''rawjob'' i ''error'' (JStr err))"

definition reject_with :: "string \<Rightarrow> json \<Rightarrow> ('w, unit) srv_act" where
  "reject_with i job =
     bind_a (update_rawjob_state i RJ_error) (\<lambda>_.
     bind_a (jstr_a job [K ''error'']) (\<lambda>err.
     update_collection_field ''rawjob'' i ''error'' (JStr err)))"

text \<open>
  The disk check reads \<open>job["dst"]["dist"]\<close>. The limit is 0.95, the double next to it, times the space that is
  available.
\<close>

definition disk_full :: "json \<Rightarrow> ('w, bool) srv_act" where
  "disk_full job =
     bind_a (jget_a job [K ''dst'', K ''dist'']) (\<lambda>dist.
     if jempty dist then ret_a False
     else
       bind_a (jint64_a job [K ''size'']) (\<lambda>sz.
       bind_a (jint64_a job [K ''dst'', K ''disk'', K ''size'', K ''available'']) (\<lambda>available.
       ret_a (of_int available * (4278419646001971 / 4503599627370496 :: double) < of_int sz))))"

definition create_sjobs :: "string \<Rightarrow> json \<Rightarrow> ('w, unit) srv_act" where
  "create_sjobs i job =
     bind_a (create_per_storage_job job) (\<lambda>sjobs.
     if length sjobs < 1 then reject_job i ''create_per_storage_job() failed''
     else
       bind_a (jstr_a (hd sjobs) [K ''srcsite'', K ''$oid'']) (\<lambda>ssite.
       bind_a (get_site_info ssite) (\<lambda>_.
       bind_a (jstr_a (hd sjobs) [K ''dstsite'', K ''$oid'']) (\<lambda>dsite.
       bind_a (get_site_info dsite) (\<lambda>_.
       bind_a (jstr_a job [K ''_id'', K ''$oid'']) (\<lambda>rjid.
       bind_a (del_sjobs rjid) (\<lambda>_.
       bind_a (foreach_a store_sjob sjobs) (\<lambda>_.
       bind_a (jstr_a job [K ''type'']) (\<lambda>ty.
       if ty = ''reserved'' \<or> ty = ''best_effort'' then ret_a () else throw_a (Runtime_error ''unknown job type''))))))))))"

definition bootstrap_known :: "'w cert_gen \<Rightarrow> string \<Rightarrow> json \<Rightarrow> ('w, unit) srv_act" where
  "bootstrap_known gen i job0 =
     bind_a (get_a (\<lambda>s. rm_rg (s_rm s))) (\<lambda>g.
     if \<not> has_launcher g then reject_job i ''no active launcher agent available''
     else
       bind_a (jset_a [K ''type''] (JStr ''best_effort'') job0) (\<lambda>job1.
       bind_a (lift_r (opt_r Json_error (Option.bind (get_default job1 ''dataset'' (JBool False)) asBool))) (\<lambda>ds.
       bind_a (create_raw_job_proxy_cert gen job1) (\<lambda>(ok1, job2).
       if \<not> ok1 then reject_with i job2
       else
         bind_a (parse_raw_job_dst job2) (\<lambda>(ok2, job3).
         if \<not> ok2 then reject_with i job3
         else
           bind_a (if \<not> ds then parse_raw_job_src job3 else parse_raw_job_src_ds job3) (\<lambda>(ok3, job4).
           if \<not> ok3 then reject_with i job4
           else
             bind_a (disk_full job4) (\<lambda>full.
             if full then reject_job i ''insufficient disk space''
             else create_sjobs i job4)))))))"

definition bootstrap_transfer_job :: "'w cert_gen \<Rightarrow> string \<Rightarrow> ('w, unit) srv_act" where
  "bootstrap_transfer_job gen i =
     bind_a (get_rawjob_from_id i) (\<lambda>job0.
     bind_a (is_member_a job0 ''error'') (\<lambda>unknown.
     if unknown then ret_a () else bootstrap_known gen i job0))"

end
