(* ===== verification/Bootstrap_Props.thy ===== *)
theory Bootstrap_Props
  imports Status_Props Bootstrap
begin

text \<open>
  What bootstrapping a raw job promises: it is all or nothing, and the sjobs it creates are ready to be
  scheduled.
\<close>

section \<open>Documents\<close>

definition off_key :: "string \<Rightarrow> (sel list \<times> json) list \<Rightarrow> bool" where
  "off_key k ps \<longleftrightarrow> list_all (\<lambda>(p, _). \<exists>k' q. p = K k' # q \<and> k' \<noteq> k) ps"

lemma off_key_simps [simp]:
  "off_key k []" "off_key k ((K k' # q, v) # ps) \<longleftrightarrow> k' \<noteq> k \<and> off_key k ps" "off_key k (ps @ qs) \<longleftrightarrow> off_key k ps \<and> off_key k qs"
  by (auto simp: off_key_def)

lemma jsets_inv:
  assumes "jsets_a ps j s = (Inr j', t)" and "\<And>p v j j1. (p, v) \<in> set ps \<Longrightarrow> jset p v j = Some j1 \<Longrightarrow> f j1 = f j"
  shows "f j' = f j"
  using assms
proof (induction ps arbitrary: j s)
  case Nil
  then show ?case by (simp add: jsets_a_def)
next
  case (Cons x ps)
  obtain p v where x: "x = (p, v)" by (cases x)
  from Cons.prems(1) obtain j1 u where j1: "jset_a p v j s = (Inr j1, u)" and rest: "jsets_a ps j1 u = (Inr j', t)"
    unfolding jsets_a_def fold_a.simps x prod.case by (elim bind_a_InrE)
  have "f j1 = f j" by (rule Cons.prems(2) [OF _ jset_a_val [OF j1]]) (simp add: x)
  moreover have "f j' = f j1" by (rule Cons.IH [OF rest]) (metis Cons.prems(2) list.set_intros(2))
  ultimately show ?case by simp
qed

lemma jsets_keep: "jsets_a ps j s = (Inr j', t) \<Longrightarrow> off_key k ps \<Longrightarrow> jget j' (K k # r) = jget j (K k # r)"
  by (erule jsets_inv) (use jget_jset_other [of "[]"] in \<open>fastforce simp: off_key_def list_all_iff simp del: jget.simps\<close>)

lemma jsets_keep_under:
  "jsets_a (map (\<lambda>(p, v). (K k # p, v)) ps) j s = (Inr j', t) \<Longrightarrow> off_key k' ps \<Longrightarrow> jget j' (K k # K k' # r) = jget j (K k # K k' # r)"
  by (erule jsets_inv) (use jget_jset_other [of "[K k]"] in \<open>fastforce simp: off_key_def list_all_iff simp del: jget.simps\<close>)

lemma jsets_ConsE:
  assumes "jsets_a ((p, v) # ps) j s = (Inr j', t)"
  obtains j1 u where "jset p v j = Some j1" and "jsets_a ps j1 u = (Inr j', t)"
  using assms unfolding jsets_a_def fold_a.simps prod.case by (elim bind_a_InrE) (drule jset_a_val, blast)

lemma jsets_val: "jsets_a (ps @ ([K k], v) # qs) j s = (Inr j', t) \<Longrightarrow> off_key k qs \<Longrightarrow> jget j' [K k] = Some v"
proof (induction ps arbitrary: j s)
  case Nil
  from Nil.prems(1) obtain j1 u where "jset [K k] v j = Some j1" and "jsets_a qs j1 u = (Inr j', t)"
    unfolding append_Nil by (rule jsets_ConsE)
  with jget_jset jsets_keep [OF _ Nil.prems(2)] show ?case by metis
next
  case (Cons x ps)
  obtain p w where x: "x = (p, w)" by (cases x)
  from Cons.prems(1) obtain j1 u where "jsets_a (ps @ ([K k], v) # qs) j1 u = (Inr j', t)"
    unfolding x append_Cons by (rule jsets_ConsE)
  with Cons.IH Cons.prems(2) show ?case by blast
qed

lemma jsets_nth:
  assumes "jsets_a ps j s = (Inr j', t)" and "i < length ps" and "ps ! i = ([K k], v)" and "off_key k (drop (Suc i) ps)"
  shows "jget j' [K k] = Some v"
proof -
  have "ps = take i ps @ ([K k], v) # drop (Suc i) ps" using id_take_nth_drop [OF assms(2)] assms(3) by simp
  with assms(1,4) jsets_val show ?thesis by metis
qed

lemma emits_docs [frame_intros]: "emits P (jsets_a ps j)" "emits P (jremove_a k j)" "emits P (jappend_a p v j)" "emits P (refuse job err)"
proof -
  show "emits P (jsets_a ps j)"
  proof (induction ps arbitrary: j)
    case (Cons x ps)
    then show ?case unfolding jsets_a_def fold_a.simps by (cases x) (auto intro!: frame_intros)
  qed (simp add: jsets_a_def emits_quiet)
qed (unfold jremove_a_def jappend_a_def refuse_def, (intro frame_intros)+)

section \<open>What bootstrapping changes\<close>

text \<open>Creation and deletion of sjobs, and changes of the state of a raw job.\<close>

fun sjob_made :: "event \<Rightarrow> json option" where
  "sjob_made (Db (DbInsertOne c d) (Inr r)) = (if c = ''sjob'' then Some d else None)"
| "sjob_made e = None"

fun telling :: "event \<Rightarrow> bool" where
  "telling (Db (DbInsertOne c d) r) \<longleftrightarrow> c = ''sjob''"
| "telling (Db (DbDelMany c f) r) \<longleftrightarrow> c = ''sjob''"
| "telling (Db (DbUpdateOne c f u) r) \<longleftrightarrow> c = ''rawjob'' \<and> jget u [K ''$set'', K ''state''] \<noteq> Some JNull"
| "telling e \<longleftrightarrow> False"

lemma size_untold [frame_intros]: "emits (\<lambda>e. \<not> telling e) (update_rawjob_size i x)"
  unfolding update_rawjob_size_def by (intro frame_intros) (simp add: set_doc_def or_null_def)

lemma certs_untold:
  assumes "\<And>k c. emits (\<lambda>_. False) (gen k c)"
  shows "emits (\<lambda>e. \<not> telling e) (create_raw_job_proxy_cert gen job)"
proof -
  have "emits (\<lambda>e. \<not> telling e) (gen k c)" for k c by (rule emits_mono [OF assms]) simp
  then show ?thesis unfolding create_raw_job_proxy_cert_def by (intro frame_intros; simp)
qed

lemma dst_untold: "emits (\<lambda>e. \<not> telling e) (parse_raw_job_dst job)"
  unfolding parse_raw_job_dst_def Let_def by (intro frame_intros; simp)

lemma source_untold [frame_intros]:
  "(\<And>q r. P (Http q r)) \<Longrightarrow> emits P (source_dtn site_info dtn info)" "emits P (source_storage srcsite storage dtn info smap)"
  "emits P (base_rate n d)" "emits P (dest_dir dsts)" "emits P (file_entries e acc)"
  unfolding source_dtn_def source_storage_def base_rate_def dest_dir_def file_entries_def Let_def by (intro frame_intros; simp)+

lemma collect_untold [frame_intros]:
  assumes "\<And>q r. P (Http q r)"
  shows "emits P (collect_sources srcsite site_info srcs info smap)" "emits P (collect_files srcsite site_info files info smap)"
proof -
  show "emits P (collect_sources srcsite site_info srcs info smap)"
    by (induction srcs arbitrary: info smap) (simp_all only: collect_sources.simps Let_def, (intro frame_intros assms | assumption)+)
  show "emits P (collect_files srcsite site_info files info smap)"
    by (induction files arbitrary: info smap) (simp_all only: collect_files.simps Let_def, (intro frame_intros assms | assumption)+)
qed

lemma store_group_untold [frame_intros]: "(\<And>d r. P (Db (DbInsertOne ''block'' d) r)) \<Longrightarrow> emits P (store_group grp)"
  unfolding store_group_def by (intro frame_intros)

lemma expand_untold [frame_intros]:
  assumes "\<And>q r. P (Http q r)" "\<And>d r. P (Db (DbInsertOne ''block'' d) r)"
  shows "emits P (expand_source job site_info x deadline)" "emits P (expand_sources job site_info deadline xs srcdoc acc)"
    "emits P (dataset_source deadline x)"
proof -
  show e: "emits P (expand_source job site_info x deadline)" for x
    unfolding expand_source_def by (intro frame_intros assms)
  show "emits P (expand_sources job site_info deadline xs srcdoc acc)"
    by (induction xs arbitrary: srcdoc acc) (simp_all only: expand_sources.simps, (intro e frame_intros assms | assumption)+)
  show "emits P (dataset_source deadline x)"
    unfolding dataset_source_def by (intro frame_intros assms)
qed

lemma src_untold: "emits (\<lambda>e. \<not> telling e) (parse_raw_job_src job)" "emits (\<lambda>e. \<not> telling e) (parse_raw_job_src_ds job)"
  unfolding parse_raw_job_src_def parse_raw_job_src_ds_def finish_sources_def by (intro frame_intros; simp)+

section \<open>What a job keeps\<close>

lemma map_of_erase_other: "k \<noteq> k' \<Longrightarrow> map_of (erase k m) k' = map_of m k'"
  by (induction m) auto

lemma jremove_keep: "jremove_a k j s = (Inr j', t) \<Longrightarrow> k \<noteq> k' \<Longrightarrow> jget j' (K k' # r) = jget j (K k' # r)"
  by (cases j) (auto simp: jremove_a_def opt_r_def map_of_erase_other)

definition kept :: "json \<Rightarrow> json \<Rightarrow> bool" where
  "kept job job' \<longleftrightarrow> jget job' [K ''type''] = jget job [K ''type''] \<and> jget job' [K ''_id''] = jget job [K ''_id'']"

lemma kept_trans: "kept a b \<Longrightarrow> kept b c \<Longrightarrow> kept a c"
  by (simp add: kept_def)

lemma kept_steps:
  "kept j j"
  "jset_a [K k] v j s = (Inr j', t) \<Longrightarrow> k \<noteq> ''type'' \<Longrightarrow> k \<noteq> ''_id'' \<Longrightarrow> kept j j'"
  "jremove_a k j s = (Inr j', t) \<Longrightarrow> k \<noteq> ''type'' \<Longrightarrow> k \<noteq> ''_id'' \<Longrightarrow> kept j j'"
  "jsets_a ps j s = (Inr j', t) \<Longrightarrow> off_key ''type'' ps \<Longrightarrow> off_key ''_id'' ps \<Longrightarrow> kept j j'"
  unfolding kept_def
  using jget_jset_other [of "[]" "K k" "[]" v j j' "K ''type''" "[]"] jget_jset_other [of "[]" "K k" "[]" v j j' "K ''_id''" "[]"]
  by (auto simp del: jget.simps simp: jremove_keep jsets_keep dest!: jset_a_val)

text \<open>What can be said of a normal result.\<close>

definition yields :: "('w, 'a) srv_act \<Rightarrow> ('a \<Rightarrow> bool) \<Rightarrow> bool" where
  "yields m V \<longleftrightarrow> (\<forall>s a t. m s = (Inr a, t) \<longrightarrow> V a)"

lemma yieldsD: "yields m V \<Longrightarrow> m s = (Inr a, t) \<Longrightarrow> V a"
  unfolding yields_def by blast

lemma yields_bind: "(\<And>s a t. m s = (Inr a, t) \<Longrightarrow> yields (f a) V) \<Longrightarrow> yields (bind_a m f) V"
  unfolding yields_def by (metis bind_a_InrE)

lemma yields_ret: "V a \<Longrightarrow> yields (ret_a a) V"
  by (simp add: yields_def)

lemma yields_if: "(b \<Longrightarrow> yields m V) \<Longrightarrow> (\<not> b \<Longrightarrow> yields n V) \<Longrightarrow> yields (if b then m else n) V"
  by simp

lemma yields_case_prod: "(\<And>x y. v = (x, y) \<Longrightarrow> yields (f x y) V) \<Longrightarrow> yields (case v of (x, y) \<Rightarrow> f x y) V"
  by (cases v) simp

lemma yields_case_sum: "(\<And>x. yields (f x) V) \<Longrightarrow> (\<And>y. yields (g y) V) \<Longrightarrow> yields (case v of Inl x \<Rightarrow> f x | Inr y \<Rightarrow> g y) V"
  by (cases v) simp_all

lemmas yields_rules = yields_ret yields_if yields_case_prod yields_case_sum yields_bind

definition if_kept :: "json \<Rightarrow> bool \<times> json \<Rightarrow> bool" where
  "if_kept job r \<longleftrightarrow> (fst r \<longrightarrow> kept job (snd r))"

lemma refuse_kept: "yields (refuse job err) (if_kept job')"
  unfolding refuse_def by (rule yields_bind, rule yields_ret) (simp add: if_kept_def)

lemma certs_kept: "yields (create_raw_job_proxy_cert gen job) (if_kept job)"
  unfolding create_raw_job_proxy_cert_def
  by (rule refuse_kept yields_if yields_case_prod yields_bind | (rule yields_ret, simp add: if_kept_def kept_steps(1)))+

lemma dst_kept: "yields (parse_raw_job_dst job) (if_kept job)"
  unfolding parse_raw_job_dst_def Let_def
  apply ((rule refuse_kept yields_if yields_case_prod yields_bind)+)
  apply (rule yields_ret)
  by (auto simp: if_kept_def elim!: kept_trans dest!: kept_steps(3,4))

lemma finish_kept: "yields (finish_sources job srcdoc n) (if_kept job)"
  unfolding finish_sources_def
  apply (rule yields_bind)+
  apply (rule yields_ret)
  by (auto simp: if_kept_def elim!: kept_trans dest!: kept_steps(2,3))

lemma src_kept: "yields (parse_raw_job_src job) (if_kept job)" "yields (parse_raw_job_src_ds job) (if_kept job)"
  unfolding parse_raw_job_src_def parse_raw_job_src_ds_def
  by (rule refuse_kept finish_kept yields_if yields_case_prod yields_case_sum yields_bind)+

text \<open>The destination document: nothing writes its entry dist.\<close>

lemma yields_refuse: "(\<And>j. V (False, j)) \<Longrightarrow> yields (refuse job err) V"
  unfolding refuse_def by (rule yields_bind, rule yields_ret)

lemma jget_null: "jget j [K k] = Some JNull \<Longrightarrow> jget j [K k, K k'] = Some JNull"
  by (cases j) (auto simp: or_null_def split: option.splits)

lemma dst_no_dist:
  assumes "jget job [K ''dst''] = Some JNull"
  shows "yields (parse_raw_job_dst job) (\<lambda>r. fst r \<longrightarrow> jget (snd r) [K ''dst'', K ''dist''] = Some JNull)"
  unfolding parse_raw_job_dst_def Let_def
  apply (rule yields_if yields_case_prod yields_bind | (rule yields_refuse, simp; fail))+
  apply (rule yields_ret)
  apply (drule jremove_keep [where k' = "''dst''" and r = "[K ''dist'']"], simp)+
  subgoal premises p for s1 dstsite t1 s2 dstfile t2 s3 site t3 s4 url t4 s5 a t5 http_code r s6 addr t6 s7 disk t7 s8 job1 t8 s9 job2 t9 s10 job3 t10
    using jsets_keep_under [of "''dst''"
      "[([K ''site'', K ''$oid''], JStr dstsite), ([K ''storage''], JStr (split dstfile (CHR ''|'') ! 1 @ ''|'' @ split dstfile (CHR ''|'') ! 2)),
        ([K ''dtn''], JStr (split dstfile (CHR ''|'') ! 1)), ([K ''dtn_addr''], addr), ([K ''path''], JStr (split dstfile (CHR ''|'') ! 3)),
        ([K ''disk''], disk)]" job s8 job1 t8 "''dist''" "[]"] p jget_null [OF assms, of "''dist''"]
    by (simp del: jget.simps)
  done

lemma finish_same_dst: "yields (finish_sources job srcdoc n) (\<lambda>r. jget (snd r) (K ''dst'' # p) = jget job (K ''dst'' # p))"
  unfolding finish_sources_def
  apply (rule yields_bind)+
  apply (rule yields_ret)
  apply (drule jremove_keep [where k' = "''dst''" and r = p], simp)+
  apply (drule jset_a_val)+
  apply (drule jget_jset_other [where p = "[]" and b = "K ''dst''" and r = p, unfolded append_Nil], simp, simp)+
  by (simp del: jget.simps)

lemma src_same_dst:
  "yields (parse_raw_job_src job) (\<lambda>r. fst r \<longrightarrow> jget (snd r) (K ''dst'' # p) = jget job (K ''dst'' # p))"
  "yields (parse_raw_job_src_ds job) (\<lambda>r. fst r \<longrightarrow> jget (snd r) (K ''dst'' # p) = jget job (K ''dst'' # p))"
proof -
  have f: "yields (finish_sources job d n) (\<lambda>r. fst r \<longrightarrow> jget (snd r) (K ''dst'' # p) = jget job (K ''dst'' # p))" for d n
    using finish_same_dst [of job d n p] unfolding yields_def by blast
  show "yields (parse_raw_job_src job) (\<lambda>r. fst r \<longrightarrow> jget (snd r) (K ''dst'' # p) = jget job (K ''dst'' # p))"
    unfolding parse_raw_job_src_def
    by (rule f yields_if yields_case_prod yields_case_sum yields_bind | (rule yields_refuse, simp; fail))+
  show "yields (parse_raw_job_src_ds job) (\<lambda>r. fst r \<longrightarrow> jget (snd r) (K ''dst'' # p) = jget job (K ''dst'' # p))"
    unfolding parse_raw_job_src_ds_def
    by (rule f yields_if yields_case_prod yields_case_sum yields_bind | (rule yields_refuse, simp; fail))+
qed

section \<open>The new sjobs\<close>

definition sjob_ready :: "json \<Rightarrow> json \<Rightarrow> bool" where
  "sjob_ready job j \<longleftrightarrow> jget j [K ''state''] = Some (JInt (sjob_state_int SJ_bootstrap)) \<and> jget j [K ''tx_bytes''] = Some (JInt 0) \<and>
     idle j \<and> jget j [K ''transfer_retry''] = Some (JInt 0) \<and>
     jget j [K ''type''] = jget job [K ''type''] \<and> jget j [K ''rawjob''] = jget job [K ''_id'']"

definition from_job :: "json \<Rightarrow> json \<Rightarrow> bool" where
  "from_job job j \<longleftrightarrow> jget j [K ''type''] = jget job [K ''type''] \<and> jget j [K ''rawjob''] = jget job [K ''_id'']"

lemma job_fields:
  assumes "jsets_a (([K ''rawjob''], a) # ([K ''type''], b) # ps) j s = (Inr j', t)" and "off_key ''rawjob'' ps" and "off_key ''type'' ps"
  shows "jget j' [K ''rawjob''] = Some a \<and> jget j' [K ''type''] = Some b"
  using jsets_nth [OF assms(1), of 0] jsets_nth [OF assms(1), of 1] assms(2,3) by simp

lemma per_storage_from: "yields (per_storage_job job s0) (from_job job)"
  unfolding per_storage_job_def
  apply (rule yields_bind)+
  unfolding yields_def
  apply (intro allI impI)
  apply (drule json_act_val(1))+
  subgoal for s1 rawjob t1 s2 ty
    by (drule job_fields) (simp_all add: from_job_def del: jget.simps)
  done

lemma new_sjob_ready:
  assumes j: "jsets_a (new_sjob ld) j0 s = (Inr j, t)" and "from_job job j0"
  shows "sjob_ready job j"
proof -
  note at = jsets_nth [OF j]
  have "jget j [K ''state''] = Some (JInt (sjob_state_int SJ_bootstrap))" by (rule at [of 0]) (auto simp: new_sjob_def)
  moreover have "jget j [K ''tx_bytes''] = Some (JInt 0)" by (rule at [of 1]) (auto simp: new_sjob_def)
  moreover have "jget j [K ''flows''] = Some (JArr [])" by (rule at [of 3]) (auto simp: new_sjob_def numeral_eq_Suc)
  moreover have "jget j [K ''transfer_retry''] = Some (JInt 0)" by (rule at [of 4]) (auto simp: new_sjob_def numeral_eq_Suc)
  moreover have "jget j [K ''type''] = jget j0 [K ''type'']" "jget j [K ''rawjob''] = jget j0 [K ''rawjob'']"
    by (rule jsets_keep [OF j], simp add: new_sjob_def)+
  ultimately show ?thesis using assms(2) by (simp add: sjob_ready_def from_job_def idle_def del: jget.simps)
qed

lemma store_sjob_seen:
  assumes "from_job job j0"
  shows "sees telling (store_sjob j0) (\<lambda>_ k. \<exists>j r. k = [Db (DbInsertOne ''sjob'' j) (Inr r)] \<and> sjob_ready job j)"
  unfolding store_sjob_def
  apply (rule sees_skip, (intro frame_intros), rule sees_skip_val, (intro frame_intros), drule new_sjob_ready, rule assms)
  unfolding unit_a_def insert_doc_def bind_a_assoc
  apply (rule sees_bind [OF sees_db [where \<Psi> = "\<lambda>_ k. \<exists>j r. k = [Db (DbInsertOne ''sjob'' j) (Inr r)] \<and> sjob_ready job j"]], blast, simp)
  by (rule sees_end) (auto simp: emits_def split: list.splits json.splits)

lemma map_a_yields:
  assumes "\<And>x. yields (f x) V"
  shows "yields (map_a f xs) (list_all V)"
proof (induction xs)
  case Nil
  show ?case unfolding map_a.simps by (rule yields_ret) simp
next
  case (Cons x xs)
  show ?case unfolding map_a.simps
    apply (rule yields_bind, drule yieldsD [OF assms], rule yields_bind, drule yieldsD [OF Cons.IH])
    by (rule yields_ret) simp
qed

lemma store_sjobs_seen:
  "list_all (from_job job) js \<Longrightarrow> sees telling (foreach_a store_sjob js) (\<lambda>_ k. length k = length js \<and>
     list_all (\<lambda>e. \<exists>j r. e = Db (DbInsertOne ''sjob'' j) (Inr r) \<and> sjob_ready job j) k)"
proof (induction js)
  case Nil
  show ?case unfolding foreach_a.simps by (rule sees_ret) simp
next
  case (Cons j js)
  have j: "from_job job j" "list_all (from_job job) js" using Cons.prems by simp_all
  show ?case unfolding foreach_a.simps
    by (rule sees_bind [OF store_sjob_seen [OF j(1)]], rule sees_mono [OF Cons.IH [OF j(2)]]) auto
qed

section \<open>The outcome\<close>

text \<open>
  Rejected: the raw job is set to error, and no sjob is touched. Accepted: the old sjobs of the raw job are
  deleted, then at least one sjob is created, all of them ready; the state of the raw job is left alone.
\<close>

definition rejected :: "string \<Rightarrow> event list \<Rightarrow> bool" where
  "rejected i k \<longleftrightarrow> (\<exists>e. k = [e] \<and> raw_set i RJ_error e)"

definition accepted_job :: "json \<Rightarrow> event list \<Rightarrow> bool" where
  "accepted_job job k \<longleftrightarrow> (\<exists>rjid r k'. k = Db (DbDelMany ''sjob'' (jobj [(''rawjob'', oid rjid)])) r # k' \<and>
     Option.bind (jget job [K ''_id'', K ''$oid'']) asString = Some rjid \<and> k' \<noteq> [] \<and>
     list_all (\<lambda>e. \<exists>j r. e = Db (DbInsertOne ''sjob'' j) (Inr r) \<and> sjob_ready job j) k')"

lemma raw_set_told: "sees telling (update_rawjob_state i ns) (\<lambda>_ k. \<exists>e. k = [e] \<and> raw_set i ns e)"
  unfolding update_rawjob_state_def unit_a_def
  by (rule sees_bind [OF sees_db [where \<Psi> = "\<lambda>_ k. \<exists>e. k = [e] \<and> raw_set i ns e"]])
    (auto simp: raw_set_def set_doc_def or_null_def intro!: sees_ret)

lemma reject_told: "sees telling (reject_job i err) (\<lambda>_. rejected i)" "sees telling (reject_with i job) (\<lambda>_. rejected i)"
  unfolding reject_job_def reject_with_def
  by (rule sees_bind [OF raw_set_told], rule sees_end, (intro frame_intros; simp), simp add: rejected_def)+

lemma create_sjobs_told: "sees telling (create_sjobs i job) (\<lambda>_ k. rejected i k \<or> accepted_job job k)"
  unfolding create_sjobs_def
  apply (rule sees_skip_val)
  subgoal unfolding create_per_storage_job_def per_storage_job_def by (intro frame_intros)
  apply (rule sees_if, rule sees_mono [OF reject_told(1)], simp)
  apply (rule sees_skip, (intro frame_intros), rule sees_skip, (intro frame_intros; simp))
  apply (rule sees_skip, (intro frame_intros), rule sees_skip, (intro frame_intros; simp))
  apply (rule sees_skip_val, (intro frame_intros), drule json_act_val)
  subgoal for s sjobs t ssite x dsite y s' rjid t'
  proof -
    assume c: "create_per_storage_job job s = (Inr sjobs, t)" and n: "\<not> length sjobs < 1"
      and rj: "Option.bind (jget job [K ''_id'', K ''$oid'']) asString = Some rjid"
    have f: "list_all (from_job job) sjobs"
      using c unfolding create_per_storage_job_def by (elim bind_a_InrE) (erule yieldsD [OF map_a_yields [OF per_storage_from]])
    show ?thesis unfolding del_sjobs_def
      apply (rule sees_bind [OF sees_db [where \<Psi> = "\<lambda>a k. k = [Db (DbDelMany ''sjob'' (jobj [(''rawjob'', oid rjid)])) (Inr a)]"]], simp, simp)
      apply (rule sees_bind [OF store_sjobs_seen [OF f]], rule sees_skip, (intro frame_intros), rule sees_if)
      subgoal by (rule sees_ret) (use n rj in \<open>fastforce simp: accepted_job_def\<close>)
      subgoal by (rule sees_throw)
      done
  qed
  done

lemma disk_quiet: "emits P (disk_full job)"
  unfolding disk_full_def by (intro frame_intros)

lemma kept_type: "jset_a [K ''type''] v j s = (Inr j', t) \<Longrightarrow> jget j' [K ''type''] = Some v \<and> jget j' [K ''_id''] = jget j [K ''_id'']"
  using jget_jset_other [of "[]" "K ''type''" "[]" v j j' "K ''_id''" "[]"] by (auto simp del: jget.simps dest!: jset_a_val intro: jget_jset)

definition outcome :: "string \<Rightarrow> json \<Rightarrow> event list \<Rightarrow> bool" where
  "outcome i job0 k \<longleftrightarrow> rejected i k \<or> (\<exists>job. accepted_job job k \<and>
     jget job [K ''type''] = Some (JStr ''best_effort'') \<and> jget job [K ''_id''] = jget job0 [K ''_id''])"

lemma kept_outcome:
  assumes "jget job1 [K ''type''] = Some (JStr ''best_effort'') \<and> jget job1 [K ''_id''] = jget job0 [K ''_id'']" and "kept job1 job"
    and "rejected i k \<or> accepted_job job k"
  shows "outcome i job0 k"
  using assms unfolding outcome_def kept_def by metis

lemma bootstrap_told:
  assumes gen: "\<And>k c. emits (\<lambda>_. False) (gen k c)"
  shows "sees telling (bootstrap_known gen i job0) (\<lambda>_. outcome i job0)"
proof -
  have r: "rejected i k \<Longrightarrow> outcome i job0 k" for k by (simp add: outcome_def)
  show ?thesis unfolding bootstrap_known_def
    apply (rule sees_skip, (intro frame_intros), rule sees_if, rule sees_mono [OF reject_told(1)], erule r)
    apply (rule sees_skip_val, (intro frame_intros), drule kept_type, rule sees_skip, (intro frame_intros))
    apply (rule sees_skip_val, rule certs_untold, rule gen, drule yieldsD [OF certs_kept], rule sees_case_prod, rule sees_if,
        rule sees_mono [OF reject_told(2)], erule r)
    apply (rule sees_skip_val, rule dst_untold, drule yieldsD [OF dst_kept], rule sees_case_prod, rule sees_if,
        rule sees_mono [OF reject_told(2)], erule r)
    apply (rule sees_skip_val, rule emits_if, rule src_untold, rule src_untold)
    apply (rule sees_case_prod, rule sees_if, rule sees_mono [OF reject_told(2)], erule r)
    apply (rule sees_skip, rule disk_quiet, rule sees_if, rule sees_mono [OF reject_told(1)], erule r)
    apply (rule sees_mono [OF create_sjobs_told])
    apply (erule kept_outcome)
     apply (auto simp: if_kept_def split: if_splits dest!: yieldsD [OF src_kept(1)] yieldsD [OF src_kept(2)] intro: kept_trans)
    done
qed

section \<open>A run\<close>

definition demo_rawjob :: json where
  "demo_rawjob = jobj
     [(''_id'', oid ''r1''), (''user'', oid ''u1''), (''srcsite'', oid ''x''), (''dstsite'', oid ''y''), (''dstfile'', JStr ''y|e|v|/d''),
      (''srcfile'', JStr ''x|f|w|/a''), (''submittedat'', JInt 0), (''deadline'', JInt 5)]"

fun raw_db :: "db_req \<Rightarrow> json list" where
  "raw_db (DbFindOne c f) =
     (if c = ''rawjob'' then [demo_rawjob] else if c = ''site'' then [jobj [(''url'', JStr ''p'')]] else [jobj [(''keypem'', JStr ''k''), (''cert'', JStr ''c'')]])"
| "raw_db q = []"

definition raw_answers :: "(int \<times> json) list" where
  "raw_answers =
     [(200, jobj []), (200, jobj []),
      (200, jobj [(''error'', JStr ''OK''), (''code'', JInt 0), (''total_size'', JInt 9),
        (''files'', jobj [(''groups'', jarr [jobj [(''files'', jarr [JNull]), (''size'', JInt 9)]])])])]"

definition raw_server :: "(int \<times> json) list srv" where
  "raw_server = (server_in (script_env\<lparr>e_db := \<lambda>q w. (Inr (raw_db q), w)\<rparr>) raw_answers)\<lparr>s_rm := demo_rm\<rparr>"

definition demo_gen :: "'w cert_gen" where
  "demo_gen k c = ret_a (''pk'', ''pc'')"

lemma demo_splits:
  "split ''y|e|v|/d'' (CHR ''|'') = [''y'', ''e'', ''v'', ''/d'']" "split ''x|f|w|/a'' (CHR ''|'') = [''x'', ''f'', ''w'', ''/a'']"
  "split ''x|f|w|/a'' (CHR '','') = [''x|f|w|/a'']"
  by code_simp+

lemma demo_has_launcher: "has_launcher (rm_rg demo_rm)"
  by (simp add: demo_rm_def has_launcher_def has_general_node_def has_key_def)

text \<open>The run in three parts: up to the destination, the source, and the creation of the sjobs.\<close>

definition demo_dst :: json where
  "demo_dst = jobj
     [(''site'', oid ''y''), (''storage'', JStr ''e|v''), (''dtn'', JStr ''e''), (''dtn_addr'', JNull), (''path'', JStr ''/d''), (''disk'', JNull)]"

definition demo_job_dst :: json where
  "demo_job_dst = jobj
     [(''_id'', oid ''r1''), (''user'', oid ''u1''), (''srcsite'', oid ''x''), (''srcfile'', JStr ''x|f|w|/a''), (''submittedat'', JInt 0),
      (''deadline'', JInt 5), (''type'', JStr ''best_effort''), (''dst'', demo_dst)]"

definition demo_job_src :: json where
  "demo_job_src = jobj
     [(''_id'', oid ''r1''), (''user'', oid ''u1''), (''submittedat'', JInt 0), (''deadline'', JInt 5), (''type'', JStr ''best_effort''),
      (''dst'', demo_dst), (''size'', JReal 9),
      (''src'', jarr [jobj
         [(''srcsite'', oid ''x''), (''srcstorage'', JStr ''f|w''), (''srcdtn'', JStr ''f''), (''srcdtn_addr'', JNull), (''srcpath'', jarr [JStr ''/a'']),
          (''size'', JUInt 9), (''baserate'', JUInt 1), (''blocks'', jarr [block_doc [] (JInt 9) 1]), (''files'', JInt 1)]])]"

definition raw_ready :: "(int \<times> json) list \<Rightarrow> (int \<times> json) list srv \<Rightarrow> bool" where
  "raw_ready w s \<longleftrightarrow> s_env s = script_env\<lparr>e_db := \<lambda>q w. (Inr (raw_db q), w)\<rparr> \<and> s_world s = w \<and> s_conf s = plain_conf"

lemmas raw_exec = status_exec demo_splits raw_answers_def jsets_a_def jremove_a_def jappend_a_def append_j_def maxUInt64_def plain_conf_def Let_def

lemma demo_src:
  assumes "raw_ready (tl raw_answers) s"
  shows "case parse_raw_job_src demo_job_dst s of (r, t) \<Rightarrow> r = Inr (True, demo_job_src) \<and> raw_ready [] t"
  using assms
  by (simp add: raw_exec raw_ready_def demo_job_dst_def demo_job_src_def demo_dst_def parse_raw_job_src_def source_error_def source_dtn_def source_storage_def
      expand_source_def expand_request_def base_rate_def store_group_def block_doc_def finish_sources_def cong: bind_a_lazy)

lemma demo_create:
  assumes "raw_ready [] s"
  shows "fst (create_sjobs ''r1'' demo_job_src s) = Inr ()"
  using assms
  by (simp add: raw_exec raw_ready_def demo_job_src_def demo_dst_def block_doc_def create_sjobs_def create_per_storage_job_def per_storage_job_def
      store_sjob_def new_sjob_def cong: bind_a_lazy)

definition demo_rest :: "bool \<times> json \<Rightarrow> ((int \<times> json) list, unit) srv_act" where
  "demo_rest = (\<lambda>(ok3, job4). if \<not> ok3 then reject_with ''r1'' job4
     else bind_a (disk_full job4) (\<lambda>full. if full then reject_job ''r1'' ''insufficient disk space'' else create_sjobs ''r1'' job4))"

definition demo_tail :: "bool \<Rightarrow> json \<Rightarrow> ((int \<times> json) list, unit) srv_act" where
  "demo_tail ds job3 = bind_a (if \<not> ds then parse_raw_job_src job3 else parse_raw_job_src_ds job3) demo_rest"

lemma demo_known:
  "bootstrap_known gen ''r1'' job0 =
     bind_a (get_a (\<lambda>s. rm_rg (s_rm s))) (\<lambda>g.
     if \<not> has_launcher g then reject_job ''r1'' ''no active launcher agent available''
     else
       bind_a (jset_a [K ''type''] (JStr ''best_effort'') job0) (\<lambda>job1.
       bind_a (lift_r (opt_r Json_error (Option.bind (get_default job1 ''dataset'' (JBool False)) asBool))) (\<lambda>ds.
       bind_a (create_raw_job_proxy_cert gen job1) (\<lambda>(ok1, job2).
       if \<not> ok1 then reject_with ''r1'' job2
       else bind_a (parse_raw_job_dst job2) (\<lambda>(ok2, job3). if \<not> ok2 then reject_with ''r1'' job3 else demo_tail ds job3)))))"
  unfolding bootstrap_known_def demo_tail_def demo_rest_def by (rule refl)

definition demo_job_certs :: json where
  "demo_job_certs = jobj
     [(''_id'', oid ''r1''), (''user'', oid ''u1''), (''srcsite'', oid ''x''), (''dstsite'', oid ''y''), (''dstfile'', JStr ''y|e|v|/d''),
      (''srcfile'', JStr ''x|f|w|/a''), (''submittedat'', JInt 0), (''deadline'', JInt 5), (''type'', JStr ''best_effort'')]"

lemma demo_dst_run:
  assumes "raw_ready raw_answers s"
  shows "case parse_raw_job_dst demo_job_certs s of (r, t) \<Rightarrow> r = Inr (True, demo_job_dst) \<and> raw_ready (tl raw_answers) t"
  using assms
  by (simp add: raw_exec raw_ready_def demo_job_certs_def demo_job_dst_def demo_dst_def parse_raw_job_dst_def cong: bind_a_lazy)

lemma demo_certs_dst:
  "\<exists>s. bootstrap_transfer_job demo_gen ''r1'' raw_server = demo_tail False demo_job_dst s \<and> raw_ready (tl raw_answers) s"
  by (simp add: raw_exec raw_server_def demo_has_launcher demo_rawjob_def demo_gen_def bootstrap_transfer_job_def demo_known
      create_raw_job_proxy_cert_def cert_doc_def parse_raw_job_dst_def demo_job_dst_def demo_dst_def cong: bind_a_lazy)
    (rule exI, rule conjI, rule refl, simp add: raw_ready_def script_env_def plain_conf_def)

lemma demo_bootstrap: "fst (bootstrap_transfer_job demo_gen ''r1'' raw_server) = Inr ()"
proof -
  obtain s where s: "bootstrap_transfer_job demo_gen ''r1'' raw_server = demo_tail False demo_job_dst s"
    "raw_ready (tl raw_answers) s" using demo_certs_dst by blast
  obtain t where t: "parse_raw_job_src demo_job_dst s = (Inr (True, demo_job_src), t)" "raw_ready [] t"
    using demo_src [OF s(2)] by (auto split: prod.splits)
  have "disk_full demo_job_src t = (Inr False, t)"
    by (simp add: disk_full_def demo_job_src_def demo_dst_def json_acts bind_a_run or_null_def jempty_def isNull_def)
  then have "demo_rest (True, demo_job_src) t = create_sjobs ''r1'' demo_job_src t" by (simp add: demo_rest_def bind_a_run)
  with s(1) t demo_create [OF t(2)] show ?thesis by (simp add: demo_tail_def bind_a_run)
qed

section \<open>Properties\<close>

text \<open>
  C12: bootstrapping is all or nothing. For a raw job that is on record, when bootstrapping returns, either the
  raw job was set to error and no sjob was created or deleted; or its old sjobs were deleted first and at
  least one new sjob was created, each of them of type best effort, in the state bootstrap, without flows,
  bytes or retries and with the id of the raw job, so that the next scheduling pass takes it up.
\<close>

theorem bootstrap_all_or_nothing:
  assumes "bootstrap_transfer_job gen i s = (Inr u, t)" and "get_rawjob_from_id i s = (Inr job0, s1)" and "isMember job0 ''error'' = Some False"
    and "\<And>k c. emits (\<lambda>_. False) (gen k c)"
  shows "\<exists>l. s_log t = s_log s1 @ l \<and>
    ((\<exists>e. filter telling l = [e] \<and> raw_set i RJ_error e) \<or>
     (\<exists>job. accepted_job job (filter telling l) \<and> jget job [K ''type''] = Some (JStr ''best_effort'') \<and>
        jget job [K ''_id''] = jget job0 [K ''_id'']))"
proof -
  have "bootstrap_known gen i job0 s1 = (Inr u, t)"
    using assms(1,3) by (simp add: bootstrap_transfer_job_def is_member_a_def bind_a_run assms(2))
  from seesD [OF bootstrap_told [OF assms(4)] this] show ?thesis by (auto simp: outcome_def rejected_def simp del: jget.simps)
qed

theorem bootstrap_all_or_nothing_witness:
  "\<exists>t l. bootstrap_transfer_job demo_gen ''r1'' raw_server = (Inr (), t) \<and>
     s_log t = Db (DbFindOne ''rawjob'' (by_id ''r1'')) (Inr [demo_rawjob]) # l \<and>
     ((\<exists>e. filter telling l = [e] \<and> raw_set ''r1'' RJ_error e) \<or>
      (\<exists>job. accepted_job job (filter telling l) \<and> jget job [K ''type''] = Some (JStr ''best_effort'') \<and>
        jget job [K ''_id''] = Some (oid ''r1'')))"
proof -
  obtain t where t: "bootstrap_transfer_job demo_gen ''r1'' raw_server = (Inr (), t)"
    using demo_bootstrap by (cases "bootstrap_transfer_job demo_gen ''r1'' raw_server") simp
  have g: "get_rawjob_from_id ''r1'' raw_server =
      (Inr demo_rawjob, raw_server\<lparr>s_log := [Db (DbFindOne ''rawjob'' (by_id ''r1'')) (Inr [demo_rawjob])]\<rparr>)"
    by (simp add: get_rawjob_from_id_def find_one_by_id_def db_def raw_server_def server_in_def bind_a_run json_from_bson_def)
  have m: "isMember demo_rawjob ''error'' = Some False" "jget demo_rawjob [K ''_id''] = Some (oid ''r1'')"
    by (simp_all add: demo_rawjob_def has_key_def or_null_def)
  have q: "emits (\<lambda>_. False) (demo_gen k c)" for k c unfolding demo_gen_def by (rule emits_quiet)
  from bootstrap_all_or_nothing [OF t g m(1) q] t m(2) show ?thesis by (auto simp del: jget.simps)
qed

text \<open>
  The check of the destination's disk space never refuses a job. The raw jobs in the database have no
  destination document of their own; after the destination and the sources were parsed, the check finds the
  space sufficient whatever the size of the job and whatever space the destination site has reported.
\<close>

lemma disk_check_dead:
  assumes "jget job [K ''dst''] = Some JNull" and "parse_raw_job_dst job s = (Inr (True, job'), t)"
    and "parse_raw_job_src job' s' = (Inr (True, job''), t') \<or> parse_raw_job_src_ds job' s' = (Inr (True, job''), t')"
  shows "disk_full job'' s'' = (Inr False, s'')"
proof -
  have "jget job' [K ''dst'', K ''dist''] = Some JNull" using yieldsD [OF dst_no_dist [OF assms(1)] assms(2)] by simp
  moreover have "jget job'' [K ''dst'', K ''dist''] = jget job' [K ''dst'', K ''dist'']"
    using assms(3) by (elim disjE) (auto dest!: yieldsD [OF src_same_dst(1)] yieldsD [OF src_same_dst(2)] simp del: jget.simps)
  ultimately show ?thesis by (simp add: disk_full_def json_acts bind_a_run jempty_def isNull_def del: jget.simps)
qed

lemma disk_check_dead_witness:
  "\<exists>t t'. parse_raw_job_dst demo_job_certs raw_server = (Inr (True, demo_job_dst), t) \<and>
     parse_raw_job_src demo_job_dst t = (Inr (True, demo_job_src), t') \<and> disk_full demo_job_src t' = (Inr False, t')"
proof -
  have r: "raw_ready raw_answers raw_server" by (simp add: raw_ready_def raw_server_def server_in_def)
  obtain t where t: "parse_raw_job_dst demo_job_certs raw_server = (Inr (True, demo_job_dst), t)" "raw_ready (tl raw_answers) t"
    using demo_dst_run [OF r] by (cases "parse_raw_job_dst demo_job_certs raw_server") simp
  obtain t' where t': "parse_raw_job_src demo_job_dst t = (Inr (True, demo_job_src), t')"
    using demo_src [OF t(2)] by (auto split: prod.splits)
  have "jget demo_job_certs [K ''dst''] = Some JNull" by (simp add: demo_job_certs_def or_null_def)
  from disk_check_dead [OF this t(1) disjI1 [OF t']] t(1) t' show ?thesis by blast
qed

end
