(* ===== verification/Site_Commands.thy ===== *)
theory Site_Commands
  imports Network_Path
begin

text \<open>
  The commands a site answers for its portal and for other sites, \<open>src/server/scheduler.cc\<close>: listings of the
  resource graph, the user mapping of the DTNs, files and folders, checksums, admission and provisioning, the
  candidates for a best effort transfer, SDN paths and pings. What the code hands to its callback \<open>cb\<close> goes
  to the parameter \<open>cb\<close> of the model.
\<close>

type_synonym 'w res_cb = "json \<Rightarrow> ('w, unit) srv_act"

definition graph_a :: "('w, rgraph) srv_act" where
  "graph_a = get_a (\<lambda>s. rm_rg (s_rm s))"

text \<open>An operation of the resource manager, run on the one the scheduler owns.\<close>

definition on_rm :: "'a rm_act \<Rightarrow> ('w, 'a) srv_act" where
  "on_rm a = (\<lambda>s. let (r, m) = a (s_rm s) in (r, s\<lparr>s_rm := m\<rparr>))"

definition resource_construct :: "bool \<Rightarrow> string \<Rightarrow> string \<Rightarrow> json \<Rightarrow> ('w, unit) srv_act" where
  "resource_construct online cid queue modules =
     (if online then on_rm (add_modules queue modules) else on_rm (del_modules modules))"

section \<open>Listings\<close>

definition cmd_storage_list :: "'w res_cb \<Rightarrow> ('w, unit) srv_act" where
  "cmd_storage_list cb = bind_a graph_a (\<lambda>g. bind_a (lift_r (get_active_storage_list g)) cb)"

definition cmd_dtn_list :: "'w res_cb \<Rightarrow> ('w, unit) srv_act" where
  "cmd_dtn_list cb = bind_a graph_a (\<lambda>g. cb (get_active_dtn_list g))"

definition cmd_dtn_topology :: "'w res_cb \<Rightarrow> ('w, unit) srv_act" where
  "cmd_dtn_topology cb = bind_a graph_a (\<lambda>g. bind_a (lift_r (get_active_dtn_topology g)) cb)"

section \<open>User mapping\<close>

definition mapping_slot :: "json \<Rightarrow> json \<Rightarrow> ('w, json) srv_act" where
  "mapping_slot dtn per_dtn =
     bind_a (jstr_a dtn [K ''id'']) (\<lambda>dtnid.
     jset_a [K dtnid]
       (jobj [(''cmd'', JStr ''dtn_push_gridmap_entries''), (''target'', JStr dtnid), (''params'', jobj [(''map'', jarr [])])]) per_dtn)"

definition mapping_entry :: "json \<Rightarrow> json \<Rightarrow> ('w, json) srv_act" where
  "mapping_entry e per_dtn =
     bind_a (jstr_a e [K ''dtnid'']) (\<lambda>dtnid.
     bind_a (is_member_a per_dtn dtnid) (\<lambda>known.
     if \<not> known then ret_a per_dtn
     else
       bind_a (jget_a e [K ''cn'']) (\<lambda>cn.
       bind_a (jget_a e [K ''username'']) (\<lambda>username.
       lift_r (opt_r Json_error
         (jref [K dtnid, K ''params'', K ''map''] (append_j (jobj [(''dn'', cn), (''ln'', username)])) per_dtn))))))"

definition push_mapping :: "json \<Rightarrow> ('w, unit) srv_act" where
  "push_mapping e =
     bind_a (jstr_a e [K ''target'']) (\<lambda>dtnid.
     bind_a graph_a (\<lambda>g.
     bind_a (lift_r (get_dtn_node g dtnid)) (\<lambda>dtn.
     unit_a (rpc_call (rqueue dtn) e 5))))"

definition publish_dtn_user_mapping :: "'w res_cb \<Rightarrow> ('w, unit) srv_act" where
  "publish_dtn_user_mapping cb =
     bind_a graph_a (\<lambda>g.
     bind_a (fold_a mapping_slot (elems (get_active_dtn_list g)) (jobj [])) (\<lambda>slots.
     bind_a get_cn_dtn_user_mapping (\<lambda>cn_dtn.
     bind_a (fold_a mapping_entry (elems cn_dtn) slots) (\<lambda>per_dtn.
     bind_a (foreach_a push_mapping (elems per_dtn)) (\<lambda>_.
     cb (jobj [(''code'', JInt 0)]))))))"

section \<open>Admission and provisioning\<close>

definition probe_rate :: "json \<Rightarrow> ('w, json) srv_act" where
  "probe_rate params =
     bind_a (jstr_a params [K ''storage'']) (\<lambda>sid.
     bind_a (jdouble_a params [K ''rate'']) (\<lambda>r.
     bind_a (get_a s_rm) (\<lambda>m.
     bind_a (lift_r (probe_path_rate (rm_jm m) (rm_rg m) sid r)) (\<lambda>code.
     ret_a (jobj [(''code'', JInt code)])))))"

definition cmd_query_path_dtns :: "json \<Rightarrow> ('w, json) srv_act" where
  "cmd_query_path_dtns params =
     bind_a (jstr_a params [K ''storage'']) (\<lambda>sid.
     bind_a (jdouble_a params [K ''rate'']) (\<lambda>r.
     bind_a (on_rm (query_path_dtns sid r)) (\<lambda>res.
     ret_a (jobj
       [(''code'', JInt 0), (''dtns'', jarr (map (\<lambda>(d, x). jobj [(''host'', JStr d), (''rate'', JReal x)]) res))]))))"

section \<open>DTNs, files and folders\<close>

text \<open>
  There is no \<open>return\<close> after the callback for an unknown DTN: the lookup that follows throws.
\<close>

definition get_dtn_info :: "json \<Rightarrow> 'w res_cb \<Rightarrow> ('w, unit) srv_act" where
  "get_dtn_info params cb =
     bind_a (jstr_a params [K ''dtn'']) (\<lambda>dtn_id.
     bind_a graph_a (\<lambda>g.
     bind_a (when_a (\<not> has_dtn_node g dtn_id) (cb (JObj []))) (\<lambda>_.
     bind_a (lift_r (get_dtn_node g dtn_id)) (\<lambda>dtn.
     bind_a (jstr_a params [K ''path'']) (\<lambda>path.
     if path = [] then cb (jobj [(''dtn'', properties dtn)])
     else
       bind_a (rpc_call (rqueue dtn) (jobj
         [(''cmd'', JStr ''dtn_get_disk_usage''), (''target'', JStr (rid dtn)), (''params'', jobj [(''path'', JStr path)])]) 5) (\<lambda>r.
       bind_a (jint_a r [K ''code'']) (\<lambda>code.
       if code \<noteq> 0 then
         bind_a (jget_a r [K ''error'']) (\<lambda>err.
         cb (jobj [(''dtn'', properties dtn), (''error'', err), (''code'', JInt 101)]))
       else
         bind_a (jget_a r [K ''result'']) (\<lambda>disk.
         cb (jobj [(''dtn'', properties dtn), (''disk'', disk)])))))))))"

text \<open>The loop over the files; the result is the list of sizes so far and the error that ended it, if any.\<close>

fun total_sizes :: "json list \<Rightarrow> json list \<Rightarrow> ('w, json list \<times> string option) srv_act" where
  "total_sizes [] acc = ret_a (acc, None)"
| "total_sizes (file # files) acc =
     bind_a (lift_r (opt_r Json_error (asString file))) (\<lambda>fileid.
     let fs = split fileid (CHR ''|'') in
     if length fs \<noteq> 4 then ret_a (acc, Some ''invalid parameters'')
     else
       bind_a graph_a (\<lambda>g.
       bind_a (lift_r (get_storage_node g (fs ! 1 @ ''|'' @ fs ! 2))) (\<lambda>snode.
       bind_a (lift_r (get_one_dtn_node g snode)) (\<lambda>dnode.
       bind_a (rpc_call (rqueue dnode) (jobj
         [(''cmd'', JStr ''dtn_expand''), (''target'', JStr (rid dnode)), (''params'', jobj [(''files'', JStr (fs ! 3))])]) 5) (\<lambda>filesize.
       bind_a (jint_a filesize [K ''code'']) (\<lambda>code.
       if code \<noteq> 0 then ret_a (acc, Some ''error at expanding the files'')
       else
         bind_a (jdouble_a filesize [K ''total_size'']) (\<lambda>bytes.
         bind_a (jget_a filesize [K ''files'']) (\<lambda>fl.
         total_sizes files (acc @ [jobj
           [(''id'', JStr fileid), (''bytes'', JReal bytes), (''number'', JUInt (int (jsize fl)))]])))))))))"

definition get_total_size :: "json \<Rightarrow> 'w res_cb \<Rightarrow> ('w, unit) srv_act" where
  "get_total_size params cb =
     bind_a (total_sizes (elems params) []) (\<lambda>(sizes, err).
     cb (jobj ((''sizes'', jarr sizes) # (case err of None \<Rightarrow> [] | Some e \<Rightarrow> [(''error'', JStr e)]))))"

definition get_file_list :: "json \<Rightarrow> 'w res_cb \<Rightarrow> ('w, unit) srv_act" where
  "get_file_list params cb =
     bind_a (jstr_a params [K ''dtn'']) (\<lambda>dtn_id.
     bind_a (jstr_a params [K ''path'']) (\<lambda>dtn_path.
     bind_a (jstr_a params [K ''site'']) (\<lambda>_.
     bind_a (jstr_a params [K ''cn'']) (\<lambda>cn.
     bind_a (jbool_a params [K ''checksum'']) (\<lambda>checksum.
     bind_a graph_a (\<lambda>g.
     if has_dtn_node g dtn_id then
       bind_a (get_user_from_cn cn dtn_id) (\<lambda>user.
       let username = (if user = [] then ''rucio'' else user) in
       if username = [] then cb (jobj [(''entries'', jarr [])])
       else
         bind_a (lift_r (get_dtn_node g dtn_id)) (\<lambda>dtn.
         bind_a (rpc_call (rqueue dtn) (jobj
           [(''target'', JStr dtn_id), (''cmd'', JStr ''dtn_list''),
            (''params'', jobj [(''path'', JStr dtn_path), (''checksum'', JBool checksum)])]) 5) (\<lambda>res.
         bind_a (is_member_a res ''code'') (\<lambda>has.
         bind_a (if \<not> has then ret_a True else bind_a (jint_a res [K ''code'']) (\<lambda>code. ret_a (code \<noteq> 0))) (\<lambda>failed.
         if failed then bind_a (jset_a [K ''entries''] (jarr []) res) cb else cb res)))))
     else cb (jobj [(''entries'', jarr []), (''code'', JInt 400), (''error'', JStr ''invalid dtn'')])))))))"

definition create_folder :: "json \<Rightarrow> 'w res_cb \<Rightarrow> ('w, unit) srv_act" where
  "create_folder params cb =
     bind_a (jstr_a params [K ''dtn'']) (\<lambda>dtn_id.
     bind_a (jstr_a params [K ''path'']) (\<lambda>dtn_path.
     bind_a (jstr_a params [K ''user'']) (\<lambda>_.
     bind_a (jstr_a params [K ''site'']) (\<lambda>_.
     bind_a (jstr_a params [K ''cn'']) (\<lambda>cn.
     bind_a graph_a (\<lambda>g.
     if has_dtn_node g dtn_id then
       bind_a (get_user_from_cn cn dtn_id) (\<lambda>username.
       bind_a (lift_r (get_dtn_node g dtn_id)) (\<lambda>dtn.
       bind_a (rpc_call (rqueue dtn) (jobj
         [(''target'', JStr dtn_id), (''cmd'', JStr ''dtn_mkdir''),
          (''params'', jobj [(''path'', JStr dtn_path), (''user'', JStr username)])]) 5) cb))
     else cb (jobj [(''code'', JInt 2), (''error'', JStr ''invalid dtn'')])))))))"

definition expand_and_group :: "json \<Rightarrow> 'w res_cb \<Rightarrow> ('w, unit) srv_act" where
  "expand_and_group params cb =
     bind_a (jget_a params [K ''params'']) (\<lambda>p.
     bind_a (jset_a [K ''cmd''] (JStr ''dtn_expand_and_group_v2'') p) (\<lambda>req.
     bind_a (jstr_a req [K ''target'']) (\<lambda>target.
     bind_a graph_a (\<lambda>g.
     bind_a (lift_r (get_node_queue_name g target)) (\<lambda>q.
     bind_a (rpc_call q req 600) cb)))))"

definition verify_checksum :: "json \<Rightarrow> 'w res_cb \<Rightarrow> ('w, unit) srv_act" where
  "verify_checksum params cb =
     bind_a (jget_a params [K ''params'', K ''dtn'']) (\<lambda>dtn.
     bind_a (jget_a params [K ''params'', K ''algorithm'']) (\<lambda>alg.
     bind_a (jget_a params [K ''params'', K ''checksums'']) (\<lambda>cks.
     let req = jobj
       [(''cmd'', JStr ''dtn_verify_checksums''), (''target'', dtn), (''params'', jobj [(''algorithm'', alg), (''checksums'', cks)])] in
     bind_a (jstr_a req [K ''target'']) (\<lambda>target.
     bind_a graph_a (\<lambda>g.
     bind_a (lift_r (get_node_queue_name g target)) (\<lambda>q.
     bind_a (rpc_call q req 600) cb))))))"

section \<open>Candidates for a best effort transfer\<close>

text \<open>
  The load divides by the capacity. IEEE infinities and NaN are not values of the model, so a DTN without a
  capacity is outside of it.
\<close>

definition dtn_candidate :: "string option \<Rightarrow> ('w, json) srv_act" where
  "dtn_candidate dp =
     bind_a graph_a (\<lambda>g.
     bind_a (lift_r (opt_r Undefined (Option.bind dp (map_of (dtn_nodes g))))) (\<lambda>dtn.
     bind_a (jget_a (properties dtn) [K ''ctrl_interface'', K ''name'']) (\<lambda>iface.
     bind_a (rpc_call (rqueue dtn) (jobj
       [(''cmd'', JStr ''dtn_status''), (''target'', JStr (rid dtn)), (''params'', jobj [(''interface'', iface)])]) 5) (\<lambda>res.
     bind_a (jget_a (properties dtn) [K ''ctrl_interface'', K ''ip'']) (\<lambda>ip.
     bind_a (jget_a (properties dtn) [K ''data_interfaces'', I 0, K ''ip'']) (\<lambda>data_ip.
     bind_a (jget_a (properties dtn) [K ''data_interfaces'', I 0, K ''mac'']) (\<lambda>data_mac.
     bind_a (jget_a (properties dtn) [K ''data_interfaces'', I 0, K ''rate'']) (\<lambda>cap.
     bind_a (jget_a (properties dtn) [K ''data_transfer_program'', K ''port'']) (\<lambda>port.
     bind_a (jget_a res [K ''status'', K ''rate'', K ''rx-bytes'']) (\<lambda>rx.
     bind_a (jget_a res [K ''status'', K ''rate'', K ''tx-bytes'']) (\<lambda>tx.
     bind_a (lift_r (opt_r Json_error (asDouble rx))) (\<lambda>rxd.
     bind_a (lift_r (opt_r Json_error (asDouble tx))) (\<lambda>txd.
     bind_a (lift_r (opt_r Json_error (asDouble cap))) (\<lambda>capd.
     if capd = 0 then throw_a Undefined
     else
       bind_a (get_a (\<lambda>s. net_conf (s_conf s))) (\<lambda>conf.
       bind_a (lift_r (needs_sdn_setup conf (rname dtn))) (\<lambda>sdn.
       bind_a (jint_a (properties dtn) [K ''data_interfaces'', I 0, K ''vlan_id'']) (\<lambda>vlan.
       bind_a (jget_a conf [K ''wan_static'']) (\<lambda>wan_static.
       bind_a (lift_r (find_dtn_stp conf (rname dtn))) (\<lambda>stp.
       ret_a (jobj
         [(''id'', JStr (rid dtn)), (''name'', JStr (rname dtn)), (''ip'', ip), (''data_ip'', data_ip), (''data_mac'', data_mac),
          (''cap'', cap), (''dtp_ctrl_port'', port), (''rx_rate'', rx), (''tx_rate'', tx), (''load'', JReal ((rxd + txd) / (capd * 1000))),
          (''sdn_setup'', JBool sdn), (''data_vlan_id'', JInt vlan), (''wan_static'', wan_static), (''stp'', stp)]))))))))))))))))))))"

definition sort_candidate :: "string option \<Rightarrow> json list \<times> json list \<Rightarrow> ('w, json list \<times> json list) srv_act" where
  "sort_candidate dp acc =
     bind_a (dtn_candidate dp) (\<lambda>d.
     bind_a (jstr_a d [K ''data_ip'']) (\<lambda>ip.
     ret_a (if is_private_ip ip then (fst acc @ [d], snd acc) else (fst acc, snd acc @ [d]))))"

definition get_available_best_effort_dtn :: "json \<Rightarrow> ('w, json) srv_act" where
  "get_available_best_effort_dtn params =
     bind_a (jstr_a params [K ''remote'']) (\<lambda>_.
     bind_a (jstr_a params [K ''storage'']) (\<lambda>src_storage.
     bind_a graph_a (\<lambda>g.
     bind_a (lift_r (get_node_queue_name g src_storage)) (\<lambda>q.
     bind_a (rpc_call q (jobj
       [(''cmd'', JStr ''ls_get_rate''), (''target'', JStr src_storage), (''params'', jobj [])]) 5) (\<lambda>res.
     bind_a (jdouble_a res [K ''rate_read'']) (\<lambda>rd.
     bind_a (jdouble_a res [K ''rate_write'']) (\<lambda>wr.
     bind_a (lift_r (get_storage_connected_dtns g src_storage)) (\<lambda>dtns.
     bind_a (fold_a sort_candidate dtns ([], [])) (\<lambda>(private, public).
     ret_a (jobj
       [(''storage'', jobj
           [(''id'', JStr src_storage), (''rd_rate'', JReal (rd * 1000000)), (''wr_rate'', JReal (wr * 1000000)),
            (''load'', JReal (3602879701896397 / 36028797018963968))]),
        (''private_dtns'', jarr private), (''public_dtns'', jarr public)]))))))))))"

section \<open>SDN paths and pings\<close>

definition sdn_reserve_request :: "json \<Rightarrow> ('w, json) srv_act" where
  "sdn_reserve_request params =
     bind_a (jstr_a params [K ''params'', K ''dtns'', K ''srcId'']) (\<lambda>dtn_id.
     bind_a graph_a (\<lambda>g.
     if \<not> has_dtn_node g dtn_id then ret_a (jobj [(''code'', JInt (-3)), (''error'', JStr ''requested DTN offline'')])
     else
       bind_a (lift_r (get_dtn_node g dtn_id)) (\<lambda>local_dtn.
       bind_a (jget_a params [K ''params'', K ''dtns'', K ''dstIp'']) (\<lambda>dst_ip.
       bind_a (jget_a params [K ''params'', K ''dtns'', K ''dstMac'']) (\<lambda>dst_mac.
       bind_a (rpc_call (rqueue local_dtn) (jobj
         [(''cmd'', JStr ''dtn_add_neighbor''), (''target'', JStr (rid local_dtn)),
          (''params'', jobj [(''ip'', dst_ip), (''mac'', dst_mac)])]) 10) (\<lambda>arp.
       bind_a (jget_a params [K ''params'', K ''dtns'', K ''srcIp'']) (\<lambda>src_ip.
       bind_a (rpc_call (rqueue local_dtn) (jobj
         [(''cmd'', JStr ''dtn_add_route''), (''target'', JStr (rid local_dtn)),
          (''params'', jobj [(''destination'', dst_ip), (''via'', src_ip)])]) 10) (\<lambda>route.
       bind_a (jbool_a params [K ''params'', K ''sdn_setup'']) (\<lambda>setup.
       if setup then
         if \<not> has_sdn g then
           ret_a (jobj [(''code'', JInt (-2)), (''arp'', arp), (''route'', route), (''error'', JStr ''SDN agent offline'')])
         else
           bind_a (jget_a params [K ''params'']) (\<lambda>p.
           bind_a (lift_r (get_sdn g)) (\<lambda>agent.
           bind_a (rpc_call (rqueue agent) p 10) (\<lambda>sdn.
           ret_a (jobj [(''code'', JInt 0), (''arp'', arp), (''route'', route), (''sdn'', sdn)]))))
       else
         ret_a (jobj [(''code'', JInt 0), (''arp'', arp), (''route'', route), (''sdn'', jobj [(''InstalledPathId'', JInt 0)])]))))))))))"

text \<open>
  The request object is reused: the messages to the DTN still carry \<open>installedPathId\<close> when a path was
  released first.
\<close>

definition release_dtn :: "json \<Rightarrow> (string \<times> json) list \<Rightarrow> (string \<times> json) list \<Rightarrow> ('w, json) srv_act" where
  "release_dtn params req res =
     bind_a (jstr_a params [K ''params'', K ''dtn'']) (\<lambda>dtn_id.
     bind_a graph_a (\<lambda>g.
     if \<not> has_dtn_node g dtn_id then ret_a (if res = [] then JNull else jobj res)
     else
       bind_a (lift_r (get_dtn_node g dtn_id)) (\<lambda>dtn.
       bind_a (jget_a params [K ''params'', K ''ip'']) (\<lambda>ip.
       bind_a (rpc_call (rqueue dtn) (jobj (req @
         [(''cmd'', JStr ''dtn_delete_route''), (''target'', JStr dtn_id), (''params'', jobj [(''destination'', ip)])])) 10) (\<lambda>route.
       bind_a (rpc_call (rqueue dtn) (jobj (req @
         [(''cmd'', JStr ''dtn_delete_neighbor''), (''target'', JStr dtn_id), (''params'', jobj [(''ip'', ip)])])) 10) (\<lambda>arp.
       ret_a (jobj (res @ [(''route'', route), (''arp'', arp)]))))))))"

definition sdn_release_request :: "json \<Rightarrow> ('w, json) srv_act" where
  "sdn_release_request params =
     bind_a (jint_a params [K ''params'', K ''installedPathId'']) (\<lambda>path_id.
     if 0 < path_id then
       bind_a graph_a (\<lambda>g.
       if \<not> has_sdn g then ret_a (jobj [(''code'', JInt (-2)), (''error'', JStr ''SDN agent offline'')])
       else
         bind_a (jget_a params [K ''params'', K ''installedPathId'']) (\<lambda>pid.
         bind_a (lift_r (get_sdn g)) (\<lambda>agent.
         let req = [(''cmd'', JStr ''release_request''), (''installedPathId'', pid)] in
         bind_a (rpc_call (rqueue agent) (jobj req) 10) (\<lambda>sdn.
         release_dtn params req [(''sdn'', sdn)]))))
     else release_dtn params [] [])"

definition dtn_icmp_ping :: "json \<Rightarrow> ('w, json) srv_act" where
  "dtn_icmp_ping params =
     bind_a (jstr_a params [K ''dtn'']) (\<lambda>dtn_id.
     bind_a graph_a (\<lambda>g.
     bind_a (lift_r (get_dtn_node g dtn_id)) (\<lambda>dtn.
     bind_a (jget_a params [K ''params'']) (\<lambda>p0.
     bind_a (jset_a [K ''target''] (JStr dtn_id) p0) (\<lambda>p.
     rpc_call (rqueue dtn) p 10)))))"

end
