(* ===== verification/Rpc_Server.thy ===== *)
theory Rpc_Server
  imports Json_Value
begin

text \<open>
  What the server of remote calls, \<open>src/utils/rpcserver.cc\<close>, adds to a message: the queue it listens on, the
  properties of a request, the envelope of a reply. Server and agents use it in bypass mode, with one handler for
  all messages.
\<close>

record rpc_props =
  correlation_id :: string
  reply_to :: string

text \<open>The parameter \<open>cid\<close> hides the member that is a fresh guid when the parameter is empty.\<close>

definition rpc_queue :: "string \<Rightarrow> string" where
  "rpc_queue cid = ''rpc/'' @ cid"

definition reply_message :: "json \<Rightarrow> rpc_props \<Rightarrow> json" where
  "reply_message reply props = jobj [(''corr_id'', JStr (correlation_id props)), (''body'', reply)]"

text \<open>What \<open>on_msg\<close> hands to the handler in bypass mode.\<close>

definition rpc_request :: "json \<Rightarrow> (exn, json \<times> rpc_props) result" where
  "rpc_request msg =
     bind_r (opt_r Json_error (Option.bind (jget msg [K ''corr_id'']) asString)) (\<lambda>corr.
     bind_r (opt_r Json_error (Option.bind (jget msg [K ''reply_to'']) asString)) (\<lambda>reply.
     bind_r (opt_r Json_error (jget msg [K ''body''])) (\<lambda>body.
     Inr (body, \<lparr>correlation_id = corr, reply_to = reply\<rparr>))))"

end
