(* ===== verification/Server_Main.thy ===== *)
theory Server_Main
  imports Site_Commands Bootstrap Rate_Poll Rpc_Server
begin

text \<open>
  The server as a whole: the settings the scheduler checks when it starts, \<open>RpcServer\<close> in bypass mode
  (\<open>src/utils/rpcserver.cc\<close>), the message handlers of \<open>Main\<close> (\<open>src/server/main.cc\<close>) and the queue of handlers
  behind \<open>Scheduler::dispatch\<close>. A handler that is posted becomes a \<open>task\<close>; the step relation at the end
  interleaves arriving messages, queued tasks and the two timers. Matching and splitting of MQTT topics is
  done by libmosquitto: they are the parameters \<open>topic_match\<close> and \<open>topic_tokenise\<close>.
\<close>

section \<open>Settings\<close>

definition stoll :: "string \<Rightarrow> (exn, int) result" where
  "stoll str =
     (let (sg, t) = sign_of (dropWhile is_space str); ds = takeWhile is_digit t; n = sg * int (digits_value ds)
      in if ds = [] then Inl Invalid_argument
         else if - (2 ^ 63) \<le> n \<and> n \<le> 2 ^ 63 - 1 then Inr n else Inl Out_of_range)"

definition group_unit :: "char \<Rightarrow> 64 word option" where
  "group_unit c =
     (if c = CHR ''K'' \<or> c = CHR ''k'' then Some 1024
      else if c = CHR ''M'' \<or> c = CHR ''m'' then Some (1024 * 1024)
      else if c = CHR ''G'' \<or> c = CHR ''g'' then Some (1024 * 1024 * 1024)
      else if c = CHR ''T'' \<or> c = CHR ''t'' then Some (1024 * 1024 * 1024 * 1024)
      else None)"

definition group_size :: "string \<Rightarrow> (exn, 64 word) result" where
  "group_size str =
     (if length str < 2 then Inl (Runtime_error (''invalid group_size: '' @ str))
      else
        let s_num = take (length str - 2) str; s_unit = drop (length str - 2) str
        in bind_r (stoll s_num) (\<lambda>num.
           bind_r (opt_r (Runtime_error (''invalid unit: '' @ s_unit)) (group_unit (s_unit ! 0))) (\<lambda>unit.
           Inr (word_of_int num * unit))))"

definition checksum_algorithms :: "string list" where
  "checksum_algorithms = [''md5'', ''sha'', ''sha1'', ''sha224'', ''sha256'', ''sha384'', ''sha512'']"

definition check_settings :: "string \<Rightarrow> string \<Rightarrow> (exn, 64 word) result" where
  "check_settings alg gs =
     (if alg \<notin> set checksum_algorithms then Inl (Runtime_error (''unsupported checksum algorithm: '' @ alg)) else group_size gs)"

section \<open>Replies\<close>

definition send_response :: "json \<Rightarrow> rpc_props \<Rightarrow> ('w, unit) srv_act" where
  "send_response reply props =
     publish (reply_to props) (reply_message reply props) 1 False"

definition respond :: "rpc_props \<Rightarrow> 'w res_cb" where
  "respond props res = when_a (reply_to props \<noteq> []) (send_response res props)"

section \<open>Posted handlers\<close>

datatype task =
    T_storage_list rpc_props
  | T_dtn_list rpc_props
  | T_dtn_topology rpc_props
  | T_file_list json rpc_props
  | T_create_folder json rpc_props
  | T_dtn_info json rpc_props
  | T_total_size json rpc_props
  | T_expand_and_group json rpc_props
  | T_verify_checksum json rpc_props
  | T_user_mapping rpc_props
  | T_bootstrap string
  | T_resource_construct bool string string json
  | T_mld_status string json

primrec run_task :: "'w cert_gen \<Rightarrow> task \<Rightarrow> ('w, unit) srv_act" where
  "run_task gen (T_storage_list p) = cmd_storage_list (respond p)"
| "run_task gen (T_dtn_list p) = cmd_dtn_list (respond p)"
| "run_task gen (T_dtn_topology p) = cmd_dtn_topology (respond p)"
| "run_task gen (T_file_list params p) = get_file_list params (respond p)"
| "run_task gen (T_create_folder params p) = create_folder params (respond p)"
| "run_task gen (T_dtn_info params p) = get_dtn_info params (respond p)"
| "run_task gen (T_total_size params p) = get_total_size params (respond p)"
| "run_task gen (T_expand_and_group params p) = expand_and_group params (respond p)"
| "run_task gen (T_verify_checksum params p) = verify_checksum params (respond p)"
| "run_task gen (T_user_mapping p) = publish_dtn_user_mapping (respond p)"
| "run_task gen (T_bootstrap i) = bootstrap_transfer_job gen i"
| "run_task gen (T_resource_construct online cid queue modules) = resource_construct online cid queue modules"
| "run_task gen (T_mld_status t params) = mld_status t params"

section \<open>Message handlers\<close>

text \<open>
  A handler returns the tasks it has posted. A registration message needs \<open>online\<close> and \<open>queue\<close> of the right
  types; whatever is wrong with it, and after an agent has gone offline, the retained message is cleared.
\<close>

definition typed_member :: "(json \<Rightarrow> bool) \<Rightarrow> json \<Rightarrow> string \<Rightarrow> ('w, bool) srv_act" where
  "typed_member ok msg k =
     bind_a (is_member_a msg k) (\<lambda>has.
     if \<not> has then ret_a False else bind_a (jget_a msg [K k]) (\<lambda>v. ret_a (ok v)))"

definition token_a :: "string list \<Rightarrow> nat \<Rightarrow> ('w, string) srv_act" where
  "token_a ts i = (if i < length ts then ret_a (ts ! i) else throw_a Undefined)"

definition on_registration :: "(string \<Rightarrow> string list) \<Rightarrow> string \<Rightarrow> json \<Rightarrow> ('w, task list) srv_act" where
  "on_registration topic_tokenise topic msg =
     bind_a (typed_member isBool msg ''online'') (\<lambda>ok1.
     if \<not> ok1 then bind_a (clr_retain topic 1) (\<lambda>_. ret_a [])
     else
       bind_a (typed_member isString msg ''queue'') (\<lambda>ok2.
       if \<not> ok2 then bind_a (clr_retain topic 1) (\<lambda>_. ret_a [])
       else
         bind_a (jbool_a msg [K ''online'']) (\<lambda>online.
         bind_a (jstr_a msg [K ''queue'']) (\<lambda>queue.
         bind_a (token_a (topic_tokenise topic) 1) (\<lambda>cid.
         bind_a (jget_a msg [K ''modules'']) (\<lambda>modules.
         bind_a (when_a (\<not> online) (clr_retain topic 1)) (\<lambda>_.
         ret_a [T_resource_construct online cid queue modules])))))))"

definition main_on_msg :: "(string \<Rightarrow> string \<Rightarrow> bool) \<Rightarrow> (string \<Rightarrow> string list) \<Rightarrow> string \<Rightarrow> json \<Rightarrow> ('w, task list) srv_act" where
  "main_on_msg topic_match topic_tokenise topic msg =
     (if topic_match ''reg/+'' topic then on_registration topic_tokenise topic msg
      else if topic_match ''ld/status/+'' topic then
        bind_a (token_a (topic_tokenise topic) 2) (\<lambda>task.
        bind_a (jget_a msg [K ''params'']) (\<lambda>params.
        bind_a (clr_retain topic 1) (\<lambda>_.
        ret_a [T_mld_status task params])))
      else ret_a [])"

definition answer_now :: "rpc_props \<Rightarrow> ('w, json) srv_act \<Rightarrow> ('w, task list) srv_act" where
  "answer_now props m = bind_a m (\<lambda>res. bind_a (respond props res) (\<lambda>_. ret_a []))"

definition rpc_msg_handler :: "json \<Rightarrow> rpc_props \<Rightarrow> ('w, task list) srv_act" where
  "rpc_msg_handler msg props =
     bind_a (jstr_a msg [K ''cmd'']) (\<lambda>cmd.
     bind_a (jget_a msg [K ''params'']) (\<lambda>params.
     if cmd = ''get_storage_list'' then ret_a [T_storage_list props]
     else if cmd = ''get_dtn_list'' then ret_a [T_dtn_list props]
     else if cmd = ''get_dtn_topology'' then ret_a [T_dtn_topology props]
     else if cmd = ''get_file_list'' then ret_a [T_file_list params props]
     else if cmd = ''create_folder'' then ret_a [T_create_folder params props]
     else if cmd = ''get_dtn_info'' then ret_a [T_dtn_info params props]
     else if cmd = ''get_total_size'' then ret_a [T_total_size params props]
     else if cmd = ''submit_job'' then
       bind_a (jstr_a params [K ''id'']) (\<lambda>i.
       bind_a (respond props JNull) (\<lambda>_.
       ret_a [T_bootstrap i]))
     else if cmd = ''file_expand_and_group'' then ret_a [T_expand_and_group params props]
     else if cmd = ''verify_checksum'' then ret_a [T_verify_checksum params props]
     else if cmd = ''publish_dtn_user_mapping'' then ret_a [T_user_mapping props]
     else if cmd = ''probe_rate'' then answer_now props (probe_rate params)
     else if cmd = ''query_path_dtns'' then answer_now props (cmd_query_path_dtns params)
     else if cmd = ''get_available_best_effort_dtn'' then answer_now props (get_available_best_effort_dtn params)
     else if cmd = ''sdn_reserve_request'' then answer_now props (sdn_reserve_request params)
     else if cmd = ''sdn_release_request'' then answer_now props (sdn_release_request params)
     else if cmd = ''dtn_icmp_ping'' then answer_now props (dtn_icmp_ping params)
     else answer_now props (ret_a (jobj [(''code'', JInt 101), (''error'', JStr ''unknown command'')]))))"

definition rpc_on_msg :: "json \<Rightarrow> ('w, task list) srv_act" where
  "rpc_on_msg msg =
     bind_a (jstr_a msg [K ''corr_id'']) (\<lambda>corr.
     bind_a (jstr_a msg [K ''reply_to'']) (\<lambda>reply.
     bind_a (jget_a msg [K ''body'']) (\<lambda>body.
     rpc_msg_handler body \<lparr>correlation_id = corr, reply_to = reply\<rparr>)))"

section \<open>The running server\<close>

text \<open>
  An exception that leaves a handler ends the server: in a worker thread \<open>run()\<close> catches it, stops the
  \<open>io_service\<close> and throws it again after the join; in the callback of libmosquitto nothing catches it. Workers
  may take queued tasks in any order; each runs to its end. The timers call \<open>schedule\<close> and \<open>poll_rate\<close>.
\<close>

datatype 'w server = Running "task list" "'w srv" | Stopped "'w srv"

definition after_handler :: "task list \<Rightarrow> (exn, task list) result \<times> 'w srv \<Rightarrow> 'w server" where
  "after_handler q r = (case r of (Inr ts, t) \<Rightarrow> Running (q @ ts) t | (Inl e, t) \<Rightarrow> Stopped t)"

definition posting :: "('w, 'a) srv_act \<Rightarrow> ('w, task list) srv_act" where
  "posting m = bind_a m (\<lambda>_. ret_a [])"

text \<open>A registration that constructs edges needs guids that are not in use, as in \<open>rm_step\<close>.\<close>

fun guids_ready :: "task \<Rightarrow> 'w srv \<Rightarrow> bool" where
  "guids_ready (T_resource_construct online cid queue modules) s \<longleftrightarrow>
     (online \<longrightarrow> fresh_guids (module_edges modules) (rm_rand (s_rm s)) (dom (map_of (edges (rm_rg (s_rm s))))))"
| "guids_ready _ s \<longleftrightarrow> True"

inductive server_step ::
    "'w cert_gen \<Rightarrow> (string \<Rightarrow> string \<Rightarrow> bool) \<Rightarrow> (string \<Rightarrow> string list) \<Rightarrow> 'w server \<Rightarrow> 'w server \<Rightarrow> bool"
  for gen :: "'w cert_gen" and topic_match topic_tokenise where
  step_mqtt: "server_step gen topic_match topic_tokenise (Running q s)
    (after_handler q (main_on_msg topic_match topic_tokenise topic msg s))"
| step_rpc: "server_step gen topic_match topic_tokenise (Running q s) (after_handler q (rpc_on_msg msg s))"
| step_task: "guids_ready x s \<Longrightarrow>
    server_step gen topic_match topic_tokenise (Running (q1 @ x # q2) s) (after_handler (q1 @ q2) (posting (run_task gen x) s))"
| step_schedule: "server_step gen topic_match topic_tokenise (Running q s) (after_handler q (posting schedule s))"
| step_poll: "server_step gen topic_match topic_tokenise (Running q s) (after_handler q (posting poll_rate s))"

text \<open>
  The start: the resource manager holds the gateway only, \<open>run()\<close> reads the byte counts of the sites.
\<close>

inductive server_reach ::
    "'w cert_gen \<Rightarrow> (string \<Rightarrow> string \<Rightarrow> bool) \<Rightarrow> (string \<Rightarrow> string list) \<Rightarrow> 'w server \<Rightarrow> bool"
  for gen :: "'w cert_gen" and topic_match topic_tokenise where
  reach_start: "s_rm s = ResourceManager JobManager r \<Longrightarrow>
    server_reach gen topic_match topic_tokenise (after_handler [] (posting init_sites s))"
| reach_next: "server_reach gen topic_match topic_tokenise x \<Longrightarrow> server_step gen topic_match topic_tokenise x y \<Longrightarrow>
    server_reach gen topic_match topic_tokenise y"

primrec server_srv :: "'w server \<Rightarrow> 'w srv" where
  "server_srv (Running q s) = s"
| "server_srv (Stopped s) = s"

lemma server_srv_after [simp]: "server_srv (after_handler q r) = snd r"
  by (auto simp: after_handler_def split: prod.splits sum.splits)

end
