(* ===== verification/Server_Frame.thy ===== *)
theory Server_Frame
  imports Server_Main
begin

text \<open>
  What the operations of the scheduler leave alone. They exchange messages, log them, renew the access
  token of the WAN client and count bytes per site; whatever does not depend on these four parts of the state
  survives them. The locale states that as a contract on a predicate; its lemmas give the frame of every
  operation that does not go to the resource manager.
\<close>

lemma keeps_cases [frame_intros]:
  "keeps P n \<Longrightarrow> (\<And>x. keeps P (f x)) \<Longrightarrow> keeps P (case v of None \<Rightarrow> n | Some x \<Rightarrow> f x)"
  "keeps P n \<Longrightarrow> (\<And>x xs. keeps P (g x xs)) \<Longrightarrow> keeps P (case l of [] \<Rightarrow> n | x # xs \<Rightarrow> g x xs)"
  "(\<And>x y. keeps P (h x y)) \<Longrightarrow> keeps P (case p of (x, y) \<Rightarrow> h x y)"
  "(\<And>x. keeps P (i x)) \<Longrightarrow> (\<And>y. keeps P (k y)) \<Longrightarrow> keeps P (case w of Inl x \<Rightarrow> i x | Inr y \<Rightarrow> k y)"
  by (simp_all split: option.splits list.splits prod.splits sum.splits)

lemma keeps_verdict [frame_intros]:
  "keeps P a \<Longrightarrow> keeps P b \<Longrightarrow> keeps P c \<Longrightarrow> keeps P (case v of Block_good \<Rightarrow> a | Block_again \<Rightarrow> b | Job_failed \<Rightarrow> c)"
  by (cases v) simp_all

lemma keeps_sample [frame_intros]:
  "keeps P a \<Longrightarrow> keeps P b \<Longrightarrow> (\<And>x n. keeps P (c x n)) \<Longrightarrow> keeps P (case v of Lost \<Rightarrow> a | Unsampled \<Rightarrow> b | Sampled x n \<Rightarrow> c x n)"
  by (cases v) simp_all

lemma keeps_unit [frame_intros]: "keeps P m \<Longrightarrow> keeps P (unit_a m)"
  unfolding unit_a_def by (intro frame_intros)

locale surroundings =
  fixes P :: "'w srv \<Rightarrow> bool"
  assumes frame_world: "P s \<Longrightarrow> P (s\<lparr>s_world := w\<rparr>)"
    and frame_log: "P s \<Longrightarrow> P (s\<lparr>s_log := l\<rparr>)"
    and frame_token: "P s \<Longrightarrow> P (s\<lparr>s_token := t\<rparr>)"
    and frame_txrx: "P s \<Longrightarrow> P (s\<lparr>site_txrx := c\<rparr>)"
begin

lemma frame_exchange [frame_intros]:
  "keeps P (http q)" "keeps P (db d)" "keeps P (rpc_call k m i)" "keeps P now_ms" "keeps P rand_a" "keeps P (sleep_s n)"
  "keeps P (ts_insert ms vs ts)" "keeps P (publish k m i b)" "keeps P (clr_retain k i)"
  by (auto simp: keeps_def http_def db_def rpc_call_def now_ms_def rand_a_def sleep_s_def ts_insert_def publish_def clr_retain_def
      split: prod.splits option.splits intro!: frame_world frame_log)

lemma frame_json [frame_intros]:
  "keeps P (jget_a j p)" "keeps P (jstr_a j p)" "keeps P (jint_a j p)" "keeps P (jint64_a j p)" "keeps P (juint64_a j p)"
  "keeps P (jdouble_a j p)" "keeps P (jbool_a j p)" "keeps P (jset_a p v j)" "keeps P (is_member_a j k)" "keeps P (bson_utf8 b)"
  by (auto simp: keeps_def json_acts is_member_a_def bson_utf8_def split: option.splits json.splits)

lemma frame_insert_doc [frame_intros]: "keeps P (insert_doc c d)"
  unfolding insert_doc_def by (intro frame_intros) (simp add: keeps_ret split: json.splits)

lemma frame_guid [frame_intros]: "keeps P guid_a"
  unfolding guid_a_def by (intro frame_intros)

lemma frame_counters [frame_intros]: "keeps P (add_tx i n)" "keeps P (add_rx i n)"
  unfolding add_tx_def add_rx_def by (intro frame_intros frame_txrx; assumption)+

lemma frame_updates [frame_intros]:
  "keeps P (del_sjobs a)" "keeps P (insert_flow a j)" "keeps P (update_sjob_state a ss)" "keeps P (update_sjob_stage a b sg)"
  "keeps P (increment_sjob_field a b n)" "keeps P (update_sjob_flow_state a fs)" "keeps P (increment_sjob_flow_field a b n)"
  "keeps P (update_sjob_block_state a bs)" "keeps P (increment_sjob_block_field a b n)" "keeps P (update_sjob_block_field a b j)"
  "keeps P (update_sjob_flow_field a b j)" "keeps P (update_rawjob_size a x)" "keeps P (update_rawjob_state a rs)"
  "keeps P (increment_rawjob_field a b n)" "keeps P (increment_site_field a b n)" "keeps P (update_collection_field a b c j)"
  unfolding del_sjobs_def insert_flow_def update_sjob_state_def update_sjob_stage_def increment_sjob_field_def update_sjob_flow_state_def
    increment_sjob_flow_field_def update_sjob_block_state_def increment_sjob_block_field_def update_sjob_block_field_def
    update_sjob_flow_field_def update_rawjob_size_def update_rawjob_state_def increment_rawjob_field_def increment_site_field_def
    update_collection_field_def
  by (intro frame_intros)+

lemma frame_queries [frame_intros]:
  "keeps P (find_one_by_id a b)" "keeps P (get_site_info a)" "keeps P get_cn_dtn_user_mapping" "keeps P (get_user_from_cn a b)"
  "keeps P (get_user_keys a b)" "keeps P (get_rawjob_from_id a)" "keeps P (get_rawjobs_from_state rs)" "keeps P get_sites"
  "keeps P (get_block_files a)" "keeps P get_active_best_effort_sjobs" "keeps P (get_sjob_from_task_id a)" "keeps P (get_sjobs_from_rawjob_id a)"
  unfolding store_queries by (intro frame_intros)+

lemma frame_retry:
  assumes "keeps P m"
  shows "keeps P (retry_loop m n)"
  by (induction n) (simp_all only: retry_loop.simps, (intro frame_intros assms | assumption)+)

lemma frame_token_a [frame_intros]: "keeps P get_token"
  unfolding get_token_def by (intro frame_intros frame_token; assumption)

lemma frame_wan [frame_intros]:
  "keeps P (wan_create a b c d)" "keeps P (wan_reserve a b c m n x)" "keeps P (wan_commit i)"
  "keeps P (wan_release i n)" "keeps P (wan_terminate i n)" "keeps P (wan_del i n)"
  unfolding wan_create_def wan_reserve_def wan_commit_def wan_release_def wan_terminate_def wan_del_def wan_delete_once_def wan_put_def
  by (intro frame_intros frame_retry)+

lemma frame_commands [frame_intros]: "keeps P (post_command a j)" "keeps P (ping_a a j k)" "keeps P (sdn_message j k m n x)"
  unfolding post_command_def ping_a_def sdn_message_def Let_def by (intro frame_intros)+

lemma frame_attempts [frame_intros]: "keeps P (sdn_attempts a b c d e j n)" "keeps P (verify_attempts a j n)" "keeps P (find_static a js)"
proof -
  show "keeps P (sdn_attempts a b c d e j n)"
    by (induction n) (simp_all only: sdn_attempts.simps seq_a.simps Let_def, (intro frame_intros | assumption)+)
  show "keeps P (verify_attempts a j n)"
    by (induction n) (simp_all only: verify_attempts.simps Let_def, (intro frame_intros | assumption)+)
  show "keeps P (find_static a js)"
    by (induction js) (simp_all only: find_static.simps, (intro frame_intros | assumption)+)
qed

lemma frame_paths [frame_intros]:
  "keeps P (setup_sdn_path a j k x c m n)" "keeps P (teardown_sdn_path a j k)" "keeps P (teardown_wan_path a b)"
  "keeps P (setup_wan_path j k x a b)" "keeps P (verify_path j k)" "keeps P (find_best_effort_dtn_pair a b j k)"
  unfolding setup_sdn_path_def teardown_sdn_path_def teardown_side_def teardown_wan_path_def setup_wan_path_def verify_path_def
    find_best_effort_dtn_pair_def choose_pair_def pick_pair_def seq_a.simps Let_def
  by (intro frame_intros)+

lemma frame_network [frame_intros]: "keeps P (network_handling a j k)"
  unfolding network_handling_def network_sdn_def lan_pending_def plan_dynamic_def dynamic_vlan_def seq_a.simps Let_def by (intro frame_intros)

lemma frame_schedule: "keeps P schedule"
  unfolding schedule_def schedule_sjob_def dispatch_block_def dispatch_network_def with_path_def verify_and_launch_def launch_flow_def
    schedule_clean_up_def prepare_flow_def launch_auth_def seq_a.simps Let_def
  by (intro frame_intros)

lemma frame_status: "keeps P (mld_status task params)"
  unfolding mld_status_def block_finished_def launch_next_def close_flow_def verify_block_def verify_checksums_def checksum_failed_def
    on_block_def uncount_block_def count_block_def report_site_def block_failed_def block_started_def job_fail_def close_path_def seq_a.simps Let_def
  by (intro frame_intros)

lemma frame_flows [frame_intros]: "keeps P (poll_flow a b j k)"
  unfolding poll_flow_def query_rate_def record_rate_def last_bytes_def flow_activity_def stalled_flow_def lost_flow_def release_flow_def
    fail_flow_def seq_a.simps Let_def
  by (intro frame_intros)

lemma frame_poll_flows [frame_intros]: "keeps P (poll_flows a b j js t u)"
  by (induction js arbitrary: t u) (simp_all only: poll_flows.simps split_paired_all, (intro frame_intros | assumption)+)

lemma frame_poll_sjobs [frame_intros]: "keeps P (poll_sjobs a js t)"
  by (induction js arbitrary: t) (simp_all only: poll_sjobs.simps, (intro frame_intros | assumption)+)

lemma frame_poll_rawjobs [frame_intros]: "keeps P (poll_rawjobs js)"
  by (induction js) (simp_all only: poll_rawjobs.simps poll_rawjob_def, (intro frame_intros | assumption)+)

lemma frame_poll: "keeps P poll_rate"
  unfolding poll_rate_def report_sites_def Let_def by (intro frame_intros)

lemma frame_init: "keeps P init_sites"
  unfolding init_sites_def init_site_def by (intro frame_intros frame_txrx; assumption)

lemma frame_docs [frame_intros]:
  "keeps P (jsets_a ps j)" "keeps P (jremove_a a j)" "keeps P (jappend_a p k j)" "keeps P (refuse j a)"
proof -
  show "keeps P (jsets_a ps j)"
    unfolding jsets_a_def by (rule keeps_fold) (auto split: prod.splits intro: frame_json)
qed (unfold jremove_a_def jappend_a_def refuse_def, (intro frame_intros)+)

lemma frame_source [frame_intros]:
  "keeps P (source_dtn j a k)" "keeps P (source_storage a b c j k)" "keeps P (base_rate m n)" "keeps P (store_group j)"
  "keeps P (expand_source j k l n)" "keeps P (dest_dir as)" "keeps P (file_entries j acc)" "keeps P (dataset_source n j)"
  "keeps P (finish_sources j js x)"
  unfolding source_dtn_def source_storage_def base_rate_def store_group_def expand_source_def dest_dir_def file_entries_def
    dataset_source_def finish_sources_def Let_def
  by (intro frame_intros)+

lemma frame_collect [frame_intros]:
  "keeps P (collect_sources a j as k l)" "keeps P (collect_files a j js k l)" "keeps P (expand_sources j k n js ks x)"
proof -
  show "keeps P (collect_sources a j as k l)"
    by (induction as arbitrary: k l) (simp_all only: collect_sources.simps Let_def, (intro frame_intros | assumption)+)
  show "keeps P (collect_files a j js k l)"
    by (induction js arbitrary: k l) (simp_all only: collect_files.simps Let_def, (intro frame_intros | assumption)+)
  show "keeps P (expand_sources j k n js ks x)"
    by (induction js arbitrary: ks x) (simp_all only: expand_sources.simps Let_def, (intro frame_intros | assumption)+)
qed

lemma frame_bootstrap:
  assumes "\<And>k c. keeps P (gen k c)"
  shows "keeps P (bootstrap_transfer_job gen i)"
  unfolding bootstrap_transfer_job_def bootstrap_known_def create_raw_job_proxy_cert_def parse_raw_job_dst_def parse_raw_job_src_def
    parse_raw_job_src_ds_def disk_full_def create_sjobs_def create_per_storage_job_def per_storage_job_def store_sjob_def
    reject_job_def reject_with_def Let_def
  by (intro frame_intros assms)

text \<open>The commands and handlers, those that go to the resource manager aside.\<close>

lemma frame_graph [frame_intros]: "keeps P graph_a"
  unfolding graph_a_def by (intro frame_intros)

lemma frame_respond [frame_intros]: "keeps P (respond props j)"
  unfolding respond_def send_response_def by (intro frame_intros)

lemma frame_total_sizes [frame_intros]: "keeps P (total_sizes js ks)"
  by (induction js arbitrary: ks) (simp_all only: total_sizes.simps Let_def, (intro frame_intros | assumption)+)

lemma frame_callbacks [frame_intros]:
  assumes "\<And>j. keeps P (cb j)"
  shows "keeps P (cmd_storage_list cb)" "keeps P (cmd_dtn_list cb)" "keeps P (cmd_dtn_topology cb)" "keeps P (publish_dtn_user_mapping cb)"
    "keeps P (get_dtn_info j cb)" "keeps P (get_total_size j cb)" "keeps P (get_file_list j cb)" "keeps P (create_folder j cb)"
    "keeps P (expand_and_group j cb)" "keeps P (verify_checksum j cb)"
  unfolding cmd_storage_list_def cmd_dtn_list_def cmd_dtn_topology_def publish_dtn_user_mapping_def mapping_slot_def mapping_entry_def
    push_mapping_def get_dtn_info_def get_total_size_def get_file_list_def create_folder_def expand_and_group_def verify_checksum_def Let_def
  by (intro frame_intros assms)+

lemma frame_answers [frame_intros]:
  "keeps P (probe_rate j)" "keeps P (get_available_best_effort_dtn j)" "keeps P (sdn_reserve_request j)" "keeps P (sdn_release_request j)"
  "keeps P (dtn_icmp_ping j)"
  unfolding probe_rate_def get_available_best_effort_dtn_def sort_candidate_def dtn_candidate_def sdn_reserve_request_def
    sdn_release_request_def release_dtn_def dtn_icmp_ping_def Let_def
  by (intro frame_intros)+

lemma frame_on_msg: "keeps P (main_on_msg topic_match topic_tokenise topic msg)"
  unfolding main_on_msg_def on_registration_def typed_member_def token_a_def Let_def by (intro frame_intros)

end

text \<open>
  The first use of the contract: the settings, the environment and the WAN account stay as they are. The
  second: the resource manager stays in the states it can reach.
\<close>

interpretation settings: surroundings "\<lambda>s. s_conf s = conf \<and> s_env s = env \<and> s_wan s = wan" for conf env wan
  by unfold_locales simp_all

interpretation managed: surroundings "\<lambda>s. rm_reach (s_rm s)"
  by unfold_locales simp_all

end
