(* ===== verification/Server_Props.thy ===== *)
theory Server_Props
  imports Server_Frame Status_Props
begin

text \<open>
  Properties of the server as a whole: whatever messages arrive and however they interleave with the queued
  tasks and the timers, the resource manager is only driven through its operations; and a request is answered
  exactly once.
\<close>

section \<open>The resource manager inside the server\<close>

abbreviation managed_rm :: "'w srv \<Rightarrow> bool" where
  "managed_rm s \<equiv> rm_reach (s_rm s)"

lemma managed_query [frame_intros]: "keeps managed_rm (on_rm (query_path_dtns sid r))"
  unfolding keeps_def on_rm_def by (auto split: prod.splits) (metis reach_step snd_conv step_query)

lemma managed_construct:
  assumes "guids_ready (T_resource_construct online cid queue modules) s" and "managed_rm s"
  shows "managed_rm (snd (resource_construct online cid queue modules s))"
  using assms reach_step [OF assms(2) step_del_modules] reach_step [OF assms(2) step_add_modules]
  by (auto simp: resource_construct_def on_rm_def split: prod.splits) (metis snd_conv)+

lemma managed_rpc: "keeps managed_rm (rpc_on_msg msg)"
  unfolding rpc_on_msg_def rpc_msg_handler_def answer_now_def cmd_query_path_dtns_def by (intro frame_intros)

lemma managed_task:
  assumes "\<And>k c. keeps managed_rm (gen k c)" and "guids_ready x s" and "managed_rm s"
  shows "managed_rm (snd (run_task gen x s))"
proof (cases "\<exists>a b c d. x = T_resource_construct a b c d")
  case True
  then show ?thesis using assms(2,3) by (auto simp: managed_construct simp del: guids_ready.simps)
next
  case False
  then have "keeps managed_rm (run_task gen x)"
    by (cases x) (auto intro!: managed.frame_callbacks managed.frame_respond managed.frame_status managed.frame_bootstrap assms(1))
  with assms(3) show ?thesis by (rule keepsD [rotated])
qed

lemma managed_posting: "managed_rm (snd (m s)) \<Longrightarrow> managed_rm (snd (posting m s))"
  by (auto simp: posting_def bind_a_run split: prod.splits sum.splits)

lemma managed_step:
  assumes gen: "\<And>k c. keeps managed_rm (gen k c)" and "server_step gen tm tt x y" and "managed_rm (server_srv x)"
  shows "managed_rm (server_srv y)"
  using assms(2,3)
proof cases
  case (step_mqtt q s topic msg)
  then show ?thesis using assms(3) keepsD [OF managed.frame_on_msg] by simp
next
  case (step_rpc q s msg)
  then show ?thesis using assms(3) keepsD [OF managed_rpc] by simp
next
  case (step_task t s q1 q2)
  then show ?thesis using assms(3) by (simp add: managed_posting managed_task [OF gen])
next
  case (step_schedule q s)
  then show ?thesis using assms(3) by (simp add: managed_posting keepsD [OF managed.frame_schedule])
next
  case (step_poll q s)
  then show ?thesis using assms(3) by (simp add: managed_posting keepsD [OF managed.frame_poll])
qed

lemma server_managed:
  assumes gen: "\<And>k c. keeps managed_rm (gen k c)" and "server_reach gen tm tt x"
  shows "managed_rm (server_srv x)"
  using assms(2)
proof induction
  case (reach_start s r)
  then show ?case by (simp add: managed_posting keepsD [OF managed.frame_init] reach_init)
next
  case (reach_next x y)
  then show ?case using managed_step [of gen] gen by blast
qed

section \<open>Replies\<close>

fun is_pub :: "event \<Rightarrow> bool" where
  "is_pub (Pub k m i b) \<longleftrightarrow> True"
| "is_pub e \<longleftrightarrow> False"

text \<open>Exactly one message is published: a reply to the sender of the request, with its correlation id.\<close>

definition answered :: "rpc_props \<Rightarrow> event list \<Rightarrow> bool" where
  "answered p k \<longleftrightarrow>
     (\<exists>res. k = [Pub (reply_to p) (jobj [(''corr_id'', JStr (correlation_id p)), (''body'', res)]) 1 False])"

lemma respond_seen: "reply_to p \<noteq> [] \<Longrightarrow> sees is_pub (respond p res) (\<lambda>_. answered p)"
  by (simp add: respond_def send_response_def reply_message_def publish_def sees_def answered_def)

lemma total_sizes_quiet [frame_intros]: "(\<And>k m i r. Q (Rpc k m i r)) \<Longrightarrow> emits Q (total_sizes js acc)"
  by (induction js arbitrary: acc) (simp_all only: total_sizes.simps graph_a_def Let_def, (intro frame_intros | assumption | simp)+)

lemma graph_quiet [frame_intros]: "emits Q graph_a"
  unfolding graph_a_def by (intro frame_intros)

lemma member_quiet [frame_intros]: "emits Q (is_member_a j k)"
  unfolding is_member_a_def by (intro frame_intros)

lemma mapping_quiet [frame_intros]:
  "emits Q (mapping_slot j k)" "emits Q (mapping_entry j k)" "(\<And>k m i r. Q (Rpc k m i r)) \<Longrightarrow> emits Q (push_mapping j)"
  unfolding mapping_slot_def mapping_entry_def push_mapping_def by (intro frame_intros; simp)+

lemma dtn_info_seen:
  assumes "\<And>res. sees is_pub (cb res) \<Phi>"
  shows "sees is_pub (get_dtn_info params cb) \<Phi>"
  unfolding get_dtn_info_def
  apply (rule sees_skip, (intro frame_intros; simp), rule sees_skip, (intro frame_intros; simp))
  subgoal for dtn_id g
    apply (cases "has_dtn_node g dtn_id")
    subgoal
      by (simp add: when_a_def) (rule assms sees_if | (rule sees_skip, (intro frame_intros; simp)))+
    subgoal
      by (auto simp: sees_def get_dtn_node_def has_dtn_node_def has_key_def opt_r_def elim!: bind_a_InrE split: option.splits)
    done
  done

lemma callbacks_seen:
  assumes "\<And>res. sees is_pub (cb res) \<Phi>"
  shows "sees is_pub (cmd_storage_list cb) \<Phi>" "sees is_pub (cmd_dtn_list cb) \<Phi>" "sees is_pub (cmd_dtn_topology cb) \<Phi>"
    "sees is_pub (publish_dtn_user_mapping cb) \<Phi>" "sees is_pub (get_total_size j cb) \<Phi>" "sees is_pub (get_file_list j cb) \<Phi>"
    "sees is_pub (create_folder j cb) \<Phi>" "sees is_pub (expand_and_group j cb) \<Phi>" "sees is_pub (verify_checksum j cb) \<Phi>"
  unfolding cmd_storage_list_def cmd_dtn_list_def cmd_dtn_topology_def publish_dtn_user_mapping_def get_total_size_def get_file_list_def
    create_folder_def expand_and_group_def verify_checksum_def Let_def
  by (rule assms sees_if sees_case_prod | (rule sees_skip, (intro frame_intros; simp; fail)))+

lemma answer_now_seen:
  assumes "emits (\<lambda>e. \<not> is_pub e) m" and "reply_to p \<noteq> []"
  shows "sees is_pub (answer_now p m) (\<lambda>ts k. ts = [] \<and> answered p k)"
  unfolding answer_now_def
  by (rule sees_skip [OF assms(1)], rule sees_bind [OF respond_seen [OF assms(2)]], rule sees_ret) simp

lemma candidate_quiet [frame_intros]: "(\<And>k m i r. Q (Rpc k m i r)) \<Longrightarrow> emits Q (sort_candidate d acc)"
  unfolding sort_candidate_def dtn_candidate_def by (intro frame_intros; simp)

lemma answers_quiet:
  "emits (\<lambda>e. \<not> is_pub e) (probe_rate j)" "emits (\<lambda>e. \<not> is_pub e) (get_available_best_effort_dtn j)"
  "emits (\<lambda>e. \<not> is_pub e) (sdn_reserve_request j)" "emits (\<lambda>e. \<not> is_pub e) (sdn_release_request j)"
  "emits (\<lambda>e. \<not> is_pub e) (dtn_icmp_ping j)"
  unfolding probe_rate_def get_available_best_effort_dtn_def sdn_reserve_request_def sdn_release_request_def release_dtn_def
    dtn_icmp_ping_def Let_def
  by (intro frame_intros; simp)+

lemma query_quiet: "emits Q (cmd_query_path_dtns j)"
  unfolding cmd_query_path_dtns_def by (intro frame_intros) (auto simp: emits_def on_rm_def split: prod.splits)

text \<open>
  The contract of a handled request: it is answered at once, and at most a bootstrap is queued; or it is
  not answered yet, and the one task that was queued answers it when it comes to its end.
\<close>

definition will_answer :: "rpc_props \<Rightarrow> task \<Rightarrow> bool" where
  "will_answer p x \<longleftrightarrow> x \<in> {T_storage_list p, T_dtn_list p, T_dtn_topology p, T_user_mapping p} \<or>
     (\<exists>j. x \<in> {T_file_list j p, T_create_folder j p, T_dtn_info j p, T_total_size j p, T_expand_and_group j p, T_verify_checksum j p})"

definition handled :: "rpc_props \<Rightarrow> task list \<Rightarrow> event list \<Rightarrow> bool" where
  "handled p ts k \<longleftrightarrow> answered p k \<and> (ts = [] \<or> (\<exists>i. ts = [T_bootstrap i])) \<or> k = [] \<and> (\<exists>x. ts = [x] \<and> will_answer p x)"

lemma will_answer_seen:
  assumes "reply_to p \<noteq> []" and "will_answer p x"
  shows "sees is_pub (run_task gen x) (\<lambda>_. answered p)"
  using assms(2) unfolding will_answer_def
  by (auto intro!: callbacks_seen dtn_info_seen respond_seen assms(1))

lemma rpc_handled:
  assumes "reply_to p \<noteq> []"
  shows "sees is_pub (rpc_msg_handler msg p) (handled p)"
proof -
  have now: "emits (\<lambda>e. \<not> is_pub e) m \<Longrightarrow> sees is_pub (answer_now p m) (handled p)" for m
    by (rule sees_mono [OF answer_now_seen]) (auto simp: handled_def assms)
  have later: "will_answer p x \<Longrightarrow> sees is_pub (ret_a [x]) (handled p)" for x
    by (rule sees_ret) (simp add: handled_def)
  have submit: "sees is_pub (bind_a (jstr_a params [K ''id'']) (\<lambda>i. bind_a (respond p JNull) (\<lambda>_. ret_a [T_bootstrap i]))) (handled p)" for params
    by (rule sees_skip, intro frame_intros, rule sees_bind [OF respond_seen [OF assms]], rule sees_ret) (simp add: handled_def)
  show ?thesis unfolding rpc_msg_handler_def
    apply (rule sees_skip, intro frame_intros, rule sees_skip, intro frame_intros)
    by (intro sees_if; (rule submit | (rule later, simp add: will_answer_def) | (rule now, rule answers_quiet query_quiet emits_quiet)))
qed

section \<open>The settings inside the server\<close>

lemma settings_posting:
  "s_conf (snd (m s)) = conf \<and> s_env (snd (m s)) = env \<and> s_wan (snd (m s)) = wan \<Longrightarrow>
   s_conf (snd (posting m s)) = conf \<and> s_env (snd (posting m s)) = env \<and> s_wan (snd (posting m s)) = wan"
  by (auto simp: posting_def bind_a_run split: prod.splits sum.splits)

lemma settings_on_rm [frame_intros]: "keeps (\<lambda>s. s_conf s = conf \<and> s_env s = env \<and> s_wan s = wan) (on_rm m)"
  by (auto simp: keeps_def on_rm_def split: prod.splits)

lemma settings_rpc: "keeps (\<lambda>s. s_conf s = conf \<and> s_env s = env \<and> s_wan s = wan) (rpc_on_msg msg)"
  unfolding rpc_on_msg_def rpc_msg_handler_def answer_now_def cmd_query_path_dtns_def by (intro frame_intros)

lemma settings_task:
  assumes "\<And>k c. keeps (\<lambda>s. s_conf s = conf \<and> s_env s = env \<and> s_wan s = wan) (gen k c)"
  shows "keeps (\<lambda>s. s_conf s = conf \<and> s_env s = env \<and> s_wan s = wan) (run_task gen x)"
  by (cases x) (simp_all add: resource_construct_def settings_on_rm settings.frame_callbacks settings.frame_respond settings.frame_status
      settings.frame_bootstrap assms)

lemma settings_step:
  assumes gen: "\<And>k c s. s_conf (snd (gen k c s)) = s_conf s \<and> s_env (snd (gen k c s)) = s_env s \<and> s_wan (snd (gen k c s)) = s_wan s"
    and "server_step gen tm tt x y"
  shows "s_conf (server_srv y) = s_conf (server_srv x) \<and> s_env (server_srv y) = s_env (server_srv x) \<and> s_wan (server_srv y) = s_wan (server_srv x)"
proof -
  have g: "keeps (\<lambda>s. s_conf s = conf \<and> s_env s = env \<and> s_wan s = wan) (gen k c)" for conf env wan k c
    using gen by (simp add: keeps_def)
  from assms(2) show ?thesis
  proof cases
    case (step_mqtt q s topic msg)
    then show ?thesis by (simp add: keepsD [OF settings.frame_on_msg])
  next
    case (step_rpc q s msg)
    then show ?thesis by (simp add: keepsD [OF settings_rpc])
  next
    case (step_task t s q1 q2)
    then show ?thesis using keepsD [OF settings_task [OF g], of s] by (simp add: settings_posting)
  next
    case (step_schedule q s)
    then show ?thesis using keepsD [OF settings.frame_schedule, of s] by (simp add: settings_posting)
  next
    case (step_poll q s)
    then show ?thesis using keepsD [OF settings.frame_poll, of s] by (simp add: settings_posting)
  qed
qed

section \<open>A run\<close>

text \<open>An agent registers a storage and a DTN; then the queued task runs.\<close>

definition quiet_gen :: "'w cert_gen" where
  "quiet_gen k c = ret_a ([], [])"

definition reg_match :: "string \<Rightarrow> string \<Rightarrow> bool" where
  "reg_match sub topic \<longleftrightarrow> sub = ''reg/+'' \<and> take 4 topic = ''reg/''"

definition topic_split :: "string \<Rightarrow> string list" where
  "topic_split topic = split topic (CHR ''/'')"

definition registration :: json where
  "registration = jobj [(''online'', JBool True), (''queue'', JStr ''q1''), (''modules'', demo_modules)]"

definition started :: "unit srv" where
  "started = snd (init_sites (server_in refusing_env ()))"

lemma started_run: "init_sites (server_in refusing_env ()) = (Inr (), started)" and started_rm: "s_rm started = ResourceManager JobManager int"
  by (simp_all add: started_def init_sites_def get_sites_def db_def server_in_def refusing_env_def bind_a_run)

lemma demo_register:
  "main_on_msg reg_match topic_split ''reg/a1'' registration started = (Inr [T_resource_construct True ''a1'' ''q1'' demo_modules], started)"
proof -
  have "topic_split ''reg/a1'' = [''reg'', ''a1'']" unfolding topic_split_def by code_simp
  then show ?thesis
    by (simp add: main_on_msg_def reg_match_def on_registration_def typed_member_def is_member_a_def registration_def json_acts token_a_def
        bind_a_run has_key_def or_null_def isBool_def isString_def cong: bind_a_lazy)
qed

lemma demo_server_reach: "\<exists>x :: unit server. server_reach quiet_gen reg_match topic_split x \<and> s_rm (server_srv x) = demo_state"
proof -
  have r1: "server_reach quiet_gen reg_match topic_split (Running [] started)"
    using reach_start [of "server_in refusing_env ()" int quiet_gen reg_match topic_split]
    by (simp add: server_in_def [of refusing_env] posting_def bind_a_run started_run [unfolded server_in_def] after_handler_def)
  have r2: "server_reach quiet_gen reg_match topic_split (Running [T_resource_construct True ''a1'' ''q1'' demo_modules] started)"
    using reach_next [OF r1 step_mqtt, of "''reg/a1''" registration] by (simp add: demo_register after_handler_def)
  have "module_edges demo_modules = 3" by code_simp
  then have "guids_ready (T_resource_construct True ''a1'' ''q1'' demo_modules) started"
    using demo_fresh by (simp add: started_rm) (simp add: ResourceManager_def RGraph_def)
  from reach_next [OF r2 step_task [of _ _ _ _ _ "[]" "[]", simplified, OF this]]
  have a: "server_reach quiet_gen reg_match topic_split
      (after_handler [] (posting (run_task quiet_gen (T_resource_construct True ''a1'' ''q1'' demo_modules)) started))" by simp
  have b: "s_rm (snd (posting (run_task quiet_gen (T_resource_construct True ''a1'' ''q1'' demo_modules)) started)) = demo_state"
    by (auto simp: posting_def bind_a_run resource_construct_def on_rm_def demo_state_def started_rm split: prod.splits sum.splits)
  show ?thesis by (rule exI, rule conjI, rule a) (simp only: server_srv_after b)
qed

section \<open>Properties\<close>

text \<open>
  C1: in every state the server can reach, whatever messages arrive, in whatever order queued handlers and
  timers run, and also after an exception has stopped it, the resource manager is in one of its reachable
  states; so the resource graph and the job table are well-formed, and the only general nodes are gateway,
  launcher and SDN agent.
\<close>

theorem server_graph_ok:
  assumes "server_reach gen topic_match topic_tokenise x" and "\<And>k c s. s_rm (snd (gen k c s)) = s_rm s"
  shows "rm_reach (s_rm (server_srv x)) \<and> rg_wf (rm_rg (s_rm (server_srv x))) \<and> general_ok (rm_rg (s_rm (server_srv x))) \<and>
    jm_wf (rm_jm (s_rm (server_srv x)))"
proof -
  have "keeps managed_rm (gen k c)" for k c using assms(2) by (simp add: keeps_def)
  then have "rm_reach (s_rm (server_srv x))" using assms(1) by (rule server_managed)
  then show ?thesis using rm_reach_wf by blast
qed

theorem server_graph_ok_witness:
  "\<exists>x :: unit server. server_reach quiet_gen reg_match topic_split x \<and> has_dtn_node (rm_rg (s_rm (server_srv x))) ''d1'' \<and>
     rg_wf (rm_rg (s_rm (server_srv x)))"
proof -
  obtain x :: "unit server" where x: "server_reach quiet_gen reg_match topic_split x" "s_rm (server_srv x) = demo_state"
    using demo_server_reach by blast
  have "has_dtn_node (rm_rg demo_state) ''d1''"
    by (simp add: Resource_Manager.demo_exec Let_def cong: bind_a_lazy bind_r_lazy)
  with x server_graph_ok [OF x(1)] show ?thesis by (auto simp: quiet_gen_def)
qed

text \<open>
  C7: every request that names a reply topic is answered exactly once, to that topic and with the correlation
  id of the request, unless an exception stops the server. Either the handler answers before it returns, and
  queues nothing but the bootstrap of a submitted job; or it queues exactly one task, which publishes the one
  reply when it runs to its end.
\<close>

theorem rpc_one_reply:
  assumes "rpc_msg_handler msg p s = (Inr ts, t)" and "reply_to p \<noteq> []"
  shows "\<exists>l. s_log t = s_log s @ l \<and>
    (answered p (filter is_pub l) \<and> (ts = [] \<or> (\<exists>i. ts = [T_bootstrap i])) \<or>
     filter is_pub l = [] \<and> (\<exists>x. ts = [x] \<and> (\<forall>gen s' t'. run_task gen x s' = (Inr (), t') \<longrightarrow>
       (\<exists>l'. s_log t' = s_log s' @ l' \<and> answered p (filter is_pub l')))))"
proof -
  obtain l where l: "s_log t = s_log s @ l" "handled p ts (filter is_pub l)"
    using seesD [OF rpc_handled [OF assms(2)] assms(1)] by blast
  have "will_answer p x \<Longrightarrow> run_task gen x s' = (Inr (), t') \<Longrightarrow> \<exists>l'. s_log t' = s_log s' @ l' \<and> answered p (filter is_pub l')" for x gen s' t'
    using seesD [OF will_answer_seen [OF assms(2)]] by blast
  with l show ?thesis unfolding handled_def by blast
qed

theorem rpc_one_reply_witness:
  "\<exists>t. rpc_msg_handler (jobj [(''cmd'', JStr ''nop'')]) \<lparr>correlation_id = ''c1'', reply_to = ''rpc-res/x''\<rparr> started = (Inr [], t) \<and>
     (\<exists>l. s_log t = s_log started @ l \<and> answered \<lparr>correlation_id = ''c1'', reply_to = ''rpc-res/x''\<rparr> (filter is_pub l))"
proof -
  let ?m = "jobj [(''cmd'', JStr ''nop'')]" and ?p = "\<lparr>correlation_id = ''c1'', reply_to = ''rpc-res/x''\<rparr>"
  have "fst (rpc_msg_handler ?m ?p started) = Inr []"
    by (simp add: rpc_msg_handler_def json_acts answer_now_def respond_def send_response_def reply_message_def publish_def bind_a_run or_null_def
        cong: bind_a_lazy)
  then obtain t where t: "rpc_msg_handler ?m ?p started = (Inr [], t)" by (cases "rpc_msg_handler ?m ?p started") simp
  from rpc_one_reply [OF t] t show ?thesis by auto
qed

end
