(* ===== verification/Store_Props.thy ===== *)
theory Store_Props
  imports Log_Logic Wan
begin

text \<open>
  What the site store promises: the state of an sjob changes together with its history, and the list of
  storages it gives out names a live DTN for each of them.
\<close>

section \<open>Values carried through a loop\<close>

lemma fold_a_invariant:
  assumes "fold_a f xs b s = (Inr c, t)" and "P b"
    and "\<And>x b s c t. x \<in> set xs \<Longrightarrow> P b \<Longrightarrow> f x b s = (Inr c, t) \<Longrightarrow> P c"
  shows "P c"
  using assms
proof (induction xs arbitrary: b s)
  case (Cons x xs)
  from Cons.prems(1) obtain d u where d: "f x b s = (Inr d, u)" "fold_a f xs d u = (Inr c, t)"
    by (auto elim: bind_a_InrE)
  have "P d" by (rule Cons.prems(3) [OF _ Cons.prems(2) d(1)]) simp
  from Cons.IH [OF d(2) this] show ?case using Cons.prems(3) by (meson list.set_intros(2))
qed simp

definition lists_alive :: "json list \<Rightarrow> json \<Rightarrow> bool" where
  "lists_alive docs j \<longleftrightarrow> (\<exists>d \<in> set docs. \<exists>a. a \<noteq> [] \<and> at_key j ''dtn'' = Some (JStr a) \<and>
     (\<forall>f. f \<noteq> ''dtn'' \<longrightarrow> at_key j f = at_key d f))"

lemma ref_key_touch: "ref_key f Some d = Some j \<Longrightarrow> at_key j k = at_key d k"
  by (cases d) (auto simp: or_null_def split: option.splits)

lemma storage_entry_alive:
  assumes "storage_entry d res s = (Inr res', t)" and "d \<in> set docs" and "list_all (lists_alive docs) res"
  shows "list_all (lists_alive docs) res'"
proof -
  obtain jdoc i dtn u where j: "ref_key ''id'' Some d = Some jdoc"
    and e: "(if dtn \<noteq> [] then bind_a (jset_a [K ''dtn''] (JStr dtn) jdoc) (\<lambda>j. ret_a (res @ [j])) else ret_a res) u = (Inr res', t)"
    using assms(1) unfolding storage_entry_def by (auto simp: opt_r_def split: option.splits elim!: bind_a_InrE)
  show ?thesis
  proof (cases "dtn = []")
    case False
    with e obtain v where "jset [K ''dtn''] (JStr dtn) jdoc = Some v" "res' = res @ [v]"
      by (auto simp: jset_a_def opt_r_def split: option.splits elim!: bind_a_InrE)
    moreover from this(1) have "at_key v ''dtn'' = Some (JStr dtn)" "f \<noteq> ''dtn'' \<Longrightarrow> at_key v f = at_key jdoc f" for f
      using jget_jset [of "[K ''dtn'']"] key.get_ref_other by (force simp: jset_def)+
    ultimately show ?thesis using False assms(2,3) ref_key_touch [OF j] by (auto simp: lists_alive_def)
  qed (use e assms(3) in simp)
qed

lemma get_storage_list_docs:
  assumes "get_storage_list s = (Inr res, t)"
  shows "\<exists>docs l. s_log t = s_log s @ Db (DbFind ''storage'' (jobj []) JNull) (Inr docs) # l \<and> list_all (lists_alive docs) (elems res)"
proof -
  obtain docs u lst where q: "db (DbFind ''storage'' (jobj []) JNull) s = (Inr docs, u)"
    and f: "fold_a storage_entry docs [] u = (Inr lst, t)" and res: "res = jarr lst"
    using assms unfolding get_storage_list_def by (auto elim!: bind_a_InrE)
  have "list_all (lists_alive docs) lst"
    by (rule fold_a_invariant [OF f]) (auto intro: storage_entry_alive)
  moreover have "s_log u = s_log s @ [Db (DbFind ''storage'' (jobj []) JNull) (Inr docs)]"
    using q by (auto simp: db_def split: prod.splits)
  moreover have "grows (fold_a storage_entry docs [])"
    unfolding storage_entry_def by (intro frame_intros TrueI)
  from emitsD [OF this f] obtain l where "s_log t = s_log u @ l" by blast
  ultimately show ?thesis using res by auto
qed

section \<open>Properties\<close>

text \<open>
  The state of an sjob never changes without a trace. A successful \<open>update_sjob_state\<close> sends exactly two
  requests: the update of the state of this sjob, and the insertion of an event with the same sjob and the
  same state into the history.
\<close>

lemma sjob_state_recorded:
  assumes "update_sjob_state i ns s = (Inr u, t)"
  shows "\<exists>r ts r'. s_log t = s_log s @
    [Db (DbUpdateOne ''sjob'' (by_id i) (set_doc ''state'' (JInt (sjob_state_int ns)))) (Inr r),
     Db (DbInsertOne ''sjobevent'' (jobj [(''sjob'', oid i), (''state'', JInt (sjob_state_int ns)), (''ts'', JUInt ts)])) (Inr r')]"
  using assms unfolding update_sjob_state_def insert_doc_def unit_a_def
  by (auto simp: db_def now_ms_def split: prod.splits list.splits json.splits elim!: bind_a_InrE)

lemma sjob_state_recorded_witness:
  "\<exists>t r ts r'. update_sjob_state ''s1'' SJ_launching (server_in refusing_env ()) = (Inr (), t) \<and> s_log t =
    [Db (DbUpdateOne ''sjob'' (by_id ''s1'') (set_doc ''state'' (JInt 8))) (Inr r),
     Db (DbInsertOne ''sjobevent'' (jobj [(''sjob'', oid ''s1''), (''state'', JInt 8), (''ts'', JUInt ts)])) (Inr r')]"
proof -
  let ?s = "server_in refusing_env ()"
  have "\<not> isl (fst (update_sjob_state ''s1'' SJ_launching ?s))"
    by (simp add: store_updates server_exec bind_a_run cong: bind_a_lazy)
  then obtain t where t: "update_sjob_state ''s1'' SJ_launching ?s = (Inr (), t)" by (rule returnsE) simp
  have "s_log ?s = []" by (simp add: server_in_def)
  with sjob_state_recorded [OF t] t show ?thesis by (simp del: jobj_simps)
qed

text \<open>
  The list of storages names a live DTN for each entry. Every entry of \<open>get_storage_list\<close> is a stored
  document with a non-empty DTN address added; all its other members are those of the document.
\<close>

lemma storage_list_alive:
  assumes "get_storage_list s = (Inr res, t)"
  shows "\<exists>docs l. s_log t = s_log s @ Db (DbFind ''storage'' (jobj []) JNull) (Inr docs) # l \<and> list_all (lists_alive docs) (elems res)"
  by (rule get_storage_list_docs [OF assms])

text \<open>One storage, mapped to a DTN that is alive.\<close>

definition storage_env :: "unit env" where
  "storage_env = refusing_env\<lparr>e_db := \<lambda>q w. (Inr (
     if collection q = ''storage'' then [jobj [(''id'', JStr ''st1''), (''name'', JStr ''disk'')]]
     else if collection q = ''sdmap'' then [jobj [(''dtn'', JStr ''d1'')]]
     else [jobj [(''ctrl_interface'', jobj [(''ip'', JStr ''10.1.1.1'')])]]), w)\<rparr>"

lemma storage_list_alive_witness:
  "\<exists>res t docs l. get_storage_list (server_in storage_env ()) = (Inr res, t) \<and> length (elems res) = 1 \<and>
     s_log t = Db (DbFind ''storage'' (jobj []) JNull) (Inr docs) # l \<and> list_all (lists_alive docs) (elems res)"
proof -
  let ?s = "server_in storage_env ()"
  have run: "case get_storage_list ?s of (r, t) \<Rightarrow> (case r of Inl e \<Rightarrow> False | Inr res \<Rightarrow> length (elems res) = 1)"
    by (simp add: store_queries storage_env_def server_exec bind_a_run bson_member_def bson_utf8_def or_null_def jarr_def jset_def cong: bind_a_lazy)
  then obtain res t where t: "get_storage_list ?s = (Inr res, t)" "length (elems res) = 1"
    by (auto split: prod.splits sum.splits)
  have "s_log ?s = []" by (simp add: server_in_def)
  with storage_list_alive [OF t(1)] t show ?thesis by (simp del: jobj_simps)
qed

end
