(* ===== verification/File_Tree.thy ===== *)
theory File_Tree
  imports Std_Map "HOL-Library.Multiset"
begin

text \<open>
  Paths and directory trees as the agents see them: \<open>src/utils/paths/path.cc\<close>, \<open>dirwalker.cc\<close> and the groups
  of \<open>dirtree.h\<close>. The file system is a tree: what \<open>lstat\<close> finds at a name, and for a directory its entries in the
  order \<open>readdir\<close> gives them, without \<open>.\<close> and \<open>..\<close>. Sizes are natural numbers; sums of sizes stay below
  \<open>2 ^ 64\<close> on any file system.
\<close>

section \<open>Paths\<close>

text \<open>
  \<open>Other n m\<close> is neither a regular file nor a directory; \<open>n\<close> is its own size, \<open>m\<close> what \<open>nftw\<close> counts for it
  (which follows symbolic links). \<open>Locked\<close> is a directory that cannot be opened. \<open>Missing\<close> and \<open>Broken\<close>
  stand for a failing \<open>lstat\<close>, with and without \<open>ENOENT\<close>.
\<close>

datatype fnode = Missing | Broken | Reg nat | Dir "(string \<times> fnode) list" | Locked | Other nat nat

type_synonym path = "string \<times> fnode"

fun psize :: "fnode \<Rightarrow> nat" where
  "psize (Reg n) = n"
| "psize (Other n m) = n"
| "psize _ = 0"

fun is_directory :: "fnode \<Rightarrow> bool" where
  "is_directory (Dir es) \<longleftrightarrow> True"
| "is_directory Locked \<longleftrightarrow> True"
| "is_directory _ \<longleftrightarrow> False"

fun is_regular_file :: "fnode \<Rightarrow> bool" where
  "is_regular_file (Reg n) \<longleftrightarrow> True"
| "is_regular_file _ \<longleftrightarrow> False"

definition pexists :: "fnode \<Rightarrow> bool" where
  "pexists x \<longleftrightarrow> x \<noteq> Missing"

lemma is_regular_file_iff: "is_regular_file x \<longleftrightarrow> (\<exists>n. x = Reg n)"
  by (cases x) auto

text \<open>The three loops of \<open>join_paths\<close> that drop slashes, but never the last character.\<close>

function trim_end :: "string \<Rightarrow> string" where
  "trim_end a = (if 1 < length a \<and> last a = CHR ''/'' then trim_end (butlast a) else a)"
  by pat_completeness auto
termination
  by (relation "measure length") auto

declare trim_end.simps [simp del]

fun trim_start :: "string \<Rightarrow> string" where
  "trim_start (c # d # s) = (if c = CHR ''/'' then trim_start (d # s) else c # d # s)"
| "trim_start s = s"

definition join_paths :: "string \<Rightarrow> string \<Rightarrow> string" where
  "join_paths a b =
     (if a = [] then b
      else if b = [] then a
      else
        let a2 = trim_end a; b2 = trim_end (trim_start b)
        in if b2 = ''/'' then a2 else if a2 = ''/'' then a2 @ b2 else a2 @ ''/'' @ b2)"

text \<open>\<open>basename(3)\<close> and \<open>dirname(3)\<close> of POSIX.\<close>

definition basename :: "string \<Rightarrow> string" where
  "basename p =
     (if p = [] then ''.''
      else
        let q = trim_end p
        in if q = ''/'' then q else rev (takeWhile (\<lambda>c. c \<noteq> CHR ''/'') (rev q)))"

definition dirname :: "string \<Rightarrow> string" where
  "dirname p =
     (if p = [] then ''.''
      else
        let q = trim_end p; r = rev (dropWhile (\<lambda>c. c \<noteq> CHR ''/'') (rev q))
        in if q = ''/'' then q else if r = [] then ''.'' else trim_end r)"

section \<open>Sizes and contents of a tree\<close>

text \<open>\<open>dir_size\<close>: what \<open>nftw\<close> adds up below a directory.\<close>

fun tree_size :: "fnode \<Rightarrow> nat" where
  "tree_size (Reg n) = n"
| "tree_size (Dir es) = sum_list (map (\<lambda>(n, x). tree_size x) es)"
| "tree_size (Other n m) = m"
| "tree_size _ = 0"

text \<open>All regular files below a name, with their sizes; and all names.\<close>

fun files :: "string \<Rightarrow> fnode \<Rightarrow> (string \<times> nat) list" where
  "files p (Reg n) = [(p, n)]"
| "files p (Dir es) = concat (map (\<lambda>(n, x). files (join_paths p n) x) es)"
| "files p _ = []"

fun names :: "string \<Rightarrow> fnode \<Rightarrow> string list" where
  "names p (Dir es) = p # concat (map (\<lambda>(n, x). names (join_paths p n) x) es)"
| "names p _ = [p]"

text \<open>A directory has distinct entries, none of them empty or with a slash.\<close>

fun tree_ok :: "fnode \<Rightarrow> bool" where
  "tree_ok (Dir es) \<longleftrightarrow> distinct (map fst es) \<and> list_all (\<lambda>(n, x). n \<noteq> [] \<and> CHR ''/'' \<notin> set n \<and> tree_ok x) es"
| "tree_ok _ \<longleftrightarrow> True"

section \<open>Names do not clash\<close>

lemma trim_end_id: "last a \<noteq> CHR ''/'' \<Longrightarrow> trim_end a = a"
  by (simp add: trim_end.simps)

lemma trim_start_id: "CHR ''/'' \<notin> set s \<Longrightarrow> trim_start s = s"
  by (cases s rule: trim_start.cases) auto

text \<open>The part that every entry of a directory shares.\<close>

definition dir_prefix :: "string \<Rightarrow> string" where
  "dir_prefix p = (if p = [] then [] else if trim_end p = ''/'' then ''/'' else trim_end p @ ''/'')"

lemma join_entry: "n \<noteq> [] \<Longrightarrow> CHR ''/'' \<notin> set n \<Longrightarrow> join_paths p n = dir_prefix p @ n"
proof -
  assume n: "n \<noteq> []" "CHR ''/'' \<notin> set n"
  then have "last n \<noteq> CHR ''/''" using last_in_set by force
  with n have "trim_end (trim_start n) = n" by (simp add: trim_start_id trim_end_id)
  moreover have "n \<noteq> ''/''" using n by auto
  ultimately show ?thesis using n(1) by (simp add: join_paths_def dir_prefix_def Let_def)
qed

lemma dir_prefix_entry: "n \<noteq> [] \<Longrightarrow> CHR ''/'' \<notin> set n \<Longrightarrow> dir_prefix (q @ n) = q @ n @ ''/''"
proof -
  assume n: "n \<noteq> []" "CHR ''/'' \<notin> set n"
  then have "last (q @ n) \<noteq> CHR ''/''" using last_in_set by force
  moreover have "q @ n \<noteq> ''/''" using n by (cases q) (auto simp: Cons_eq_append_conv)
  ultimately show ?thesis using n(1) by (simp add: dir_prefix_def trim_end_id)
qed

lemma names_prefix:
  assumes "tree_ok x" and "n \<noteq> []" and "CHR ''/'' \<notin> set n" and "s \<in> set (names (q @ n) x)"
  shows "\<exists>r. s = q @ n @ r \<and> (r = [] \<or> hd r = CHR ''/'')"
  using assms
proof (induction x arbitrary: q n s)
  case (Dir es)
  show ?case
  proof (cases "s = q @ n")
    case False
    then obtain m x where e: "(m, x) \<in> set es" "s \<in> set (names (join_paths (q @ n) m) x)" using Dir.prems by auto
    then have m: "m \<noteq> []" "CHR ''/'' \<notin> set m" "tree_ok x" using Dir.prems by (auto simp: list_all_iff)
    then have "join_paths (q @ n) m = (q @ n @ ''/'') @ m" using Dir.prems by (simp add: join_entry dir_prefix_entry)
    with Dir.IH [of "(m, x)" x m s "q @ n @ ''/''"] e m obtain r where "s = (q @ n @ ''/'') @ m @ r" by auto
    then show ?thesis by simp
  qed simp
qed auto

lemma entry_cut:
  assumes "n @ r = m @ r'" and "CHR ''/'' \<notin> set n" and "CHR ''/'' \<notin> set m"
    and "r = [] \<or> hd r = CHR ''/''" and "r' = [] \<or> hd r' = CHR ''/''"
  shows "n = m"
proof -
  obtain u where "n = m @ u \<and> u @ r = r' \<or> n @ u = m \<and> r = u @ r'" using assms(1) by (auto simp: append_eq_append_conv2)
  with assms(2-) show ?thesis by (cases u) auto
qed

lemma entries_apart:
  assumes "tree_ok (Dir es)" and "(n, x) \<in> set es" and "(m, y) \<in> set es" and "n \<noteq> m"
  shows "set (names (join_paths p n) x) \<inter> set (names (join_paths p m) y) = {}"
proof (rule ccontr)
  assume "\<not> ?thesis"
  then obtain s where s: "s \<in> set (names (join_paths p n) x)" "s \<in> set (names (join_paths p m) y)" by blast
  have e: "n \<noteq> []" "CHR ''/'' \<notin> set n" "tree_ok x" "m \<noteq> []" "CHR ''/'' \<notin> set m" "tree_ok y"
    using assms(1-3) by (auto simp: list_all_iff)
  obtain r where r: "s = dir_prefix p @ n @ r" "r = [] \<or> hd r = CHR ''/''"
    using names_prefix [OF e(3,1,2), of s "dir_prefix p"] s(1) e by (auto simp: join_entry)
  obtain r' where r': "s = dir_prefix p @ m @ r'" "r' = [] \<or> hd r' = CHR ''/''"
    using names_prefix [OF e(6,4,5), of s "dir_prefix p"] s(2) e by (auto simp: join_entry)
  from r(1) r'(1) have "n @ r = m @ r'" by simp
  with entry_cut r(2) r'(2) e(2,5) assms(4) show False by blast
qed

lemma trim_end_split: "\<exists>k. p = trim_end p @ replicate k (CHR ''/'')"
proof (induction p rule: trim_end.induct)
  case (1 p)
  show ?case
  proof (cases "1 < length p \<and> last p = CHR ''/''")
    case True
    then obtain k where k: "butlast p = trim_end (butlast p) @ replicate k (CHR ''/'')" using "1.IH" by blast
    have "p = butlast p @ [CHR ''/'']" using True by (metis append_butlast_last_id list.size(3) not_less_zero)
    also have "\<dots> = trim_end (butlast p) @ replicate (Suc k) (CHR ''/'')"
      using k by (metis append_assoc replicate_Suc replicate_append_same)
    finally show ?thesis using True by (metis trim_end.simps)
  next
    case False
    then have "trim_end p = p" by (subst trim_end.simps) (simp only: if_False)
    then show ?thesis by (intro exI [of _ 0]) simp
  qed
qed

lemma root_apart:
  assumes "tree_ok x" and "p \<noteq> []" and "n \<noteq> []" and "CHR ''/'' \<notin> set n"
  shows "p \<notin> set (names (join_paths p n) x)"
proof
  assume "p \<in> set (names (join_paths p n) x)"
  then obtain r where r: "p = dir_prefix p @ n @ r" using names_prefix [OF assms(1,3,4)] assms by (metis join_entry)
  obtain k where k: "p = trim_end p @ replicate k (CHR ''/'')" using trim_end_split by blast
  have "\<exists>j. n @ r = replicate j (CHR ''/'')"
  proof (cases "trim_end p = ''/''")
    case True
    then have "p = replicate (Suc k) (CHR ''/'')" "p = CHR ''/'' # n @ r" using k r assms(2) by (auto simp: dir_prefix_def)
    then show ?thesis by (metis list.inject replicate_Suc)
  next
    case False
    then have "trim_end p @ replicate k (CHR ''/'') = trim_end p @ CHR ''/'' # n @ r" using k r assms(2) by (simp add: dir_prefix_def)
    then have "replicate k (CHR ''/'') = CHR ''/'' # n @ r" by simp
    then show ?thesis by (cases k) (simp, metis list.inject replicate_Suc)
  qed
  then obtain j where "n @ r = replicate j (CHR ''/'')" by blast
  then have "hd n = CHR ''/''" using assms(3) by (cases n; cases j) auto
  then show False using assms(3,4) hd_in_set by metis
qed

section \<open>Groups of paths\<close>

text \<open>
  \<open>PathGroup\<close>: a \<open>std::set\<close> of paths, ordered by name, and the sum of the sizes that were given. A path of a
  name that is already there is not inserted, but its size is added.
\<close>

record pathgroup =
  pg_size :: nat
  pg_paths :: "(string, fnode) stdmap"

definition PathGroup :: pathgroup where
  "PathGroup = \<lparr>pg_size = 0, pg_paths = []\<rparr>"

definition pg_add_file :: "path \<Rightarrow> pathgroup \<Rightarrow> (exn, pathgroup) result" where
  "pg_add_file = (\<lambda>(p, x) g.
     if is_regular_file x then Inr (g\<lparr>pg_paths := emplace p x (pg_paths g), pg_size := pg_size g + psize x\<rparr>)
     else Inl (Runtime_error (p @ '' is not a regular file'')))"

definition pg_add_dir :: "path \<Rightarrow> nat \<Rightarrow> pathgroup \<Rightarrow> (exn, pathgroup) result" where
  "pg_add_dir = (\<lambda>(p, x) n g.
     if is_directory x then Inr (g\<lparr>pg_paths := emplace p x (pg_paths g), pg_size := pg_size g + n\<rparr>)
     else Inl (Runtime_error (p @ '' is not a directory'')))"

definition pg_count :: "pathgroup \<Rightarrow> nat" where
  "pg_count g = length (pg_paths g)"

lemma mset_emplace: "p \<notin> set (keys m) \<Longrightarrow> mset (emplace p x m) = add_mset (p, x) (mset m)"
  by (induction m) auto

lemma subset_emplace: "mset (emplace p x m) \<subseteq># add_mset (p, x) (mset m)"
  by (induction m) (auto simp: add_mset_commute [of "(p, x)"])

section \<open>Walking a directory\<close>

text \<open>\<open>DirectoryWalker\<close> without exceptions, as everywhere in the program: the list of paths it collects.\<close>

fun walk :: "bool \<Rightarrow> path \<Rightarrow> path list" where
  "walk recurse (p, Dir es) =
     concat (map (\<lambda>(n, x). (join_paths p n, x) # (if recurse \<and> is_directory x then walk recurse (join_paths p n, x) else [])) es)"
| "walk recurse (p, _) = []"

definition walk_size :: "path list \<Rightarrow> nat" where
  "walk_size ps = sum_list (map (\<lambda>(p, x). psize x) (filter (\<lambda>(p, x). is_regular_file x) ps))"

definition count_regular_files :: "path list \<Rightarrow> nat" where
  "count_regular_files ps = length (filter (\<lambda>(p, x). is_regular_file x) ps)"

text \<open>\<open>std::sort\<close> by descending size; it need not be stable, here it is.\<close>

definition sort_by_size :: "path list \<Rightarrow> path list" where
  "sort_by_size ps = rev (sort_key (\<lambda>(p, x). psize x) (rev ps))"

text \<open>The regular files among collected paths.\<close>

definition reg_files :: "path list \<Rightarrow> (string \<times> nat) list" where
  "reg_files ps = map (\<lambda>(p, x). (p, psize x)) (filter (\<lambda>(p, x). is_regular_file x) ps)"

lemma reg_files_simps [simp]:
  "reg_files [] = []" "reg_files ((p, x) # ps) = (if is_regular_file x then [(p, psize x)] else []) @ reg_files ps"
  "reg_files (ps @ qs) = reg_files ps @ reg_files qs"
  by (simp_all add: reg_files_def)

lemma reg_files_concat: "reg_files (concat pss) = concat (map reg_files pss)"
  by (induction pss) simp_all

lemma files_walk: "reg_files (walk True (p, x)) = (if is_directory x then files p x else [])"
proof (induction x arbitrary: p)
  case (Dir es)
  have "reg_files ((join_paths p n, x) # (if True \<and> is_directory x then walk True (join_paths p n, x) else [])) = files (join_paths p n) x"
    if "(n, x) \<in> set es" for n x
    using Dir.IH [OF that, of x "join_paths p n"] by (cases x) auto
  then show ?case by (auto simp: reg_files_concat comp_def intro!: arg_cong [where f = concat] map_cong)
qed simp_all

lemma length_reg_files: "length (reg_files ps) = count_regular_files ps"
  by (simp add: reg_files_def count_regular_files_def)

lemma mset_reg_files_sort: "mset (reg_files (sort_by_size ps)) = mset (reg_files ps)"
  by (simp add: reg_files_def sort_by_size_def mset_filter)

end
