(* ===== verification/Path_Groups.thy ===== *)
theory Path_Groups
  imports File_Tree
begin

text \<open>
  \<open>src/utils/paths/pathgroups.cc\<close>: the flat list of everything below the given paths, cut into groups of bounded
  size and number of files. \<open>group_into\<close>, which only a test program calls, reads a vector element after
  \<open>pop_back\<close> and is not modelled.
\<close>

section \<open>Collecting the paths\<close>

definition add_sub_path :: "path \<Rightarrow> path list \<Rightarrow> (exn, path list) result" where
  "add_sub_path = (\<lambda>(p, x) ps.
     if pexists x then
       Inr (if is_regular_file x then ps @ [(p, x)]
            else if is_directory x then (ps @ [(p, x)]) @ walk True (p, x)
            else ps)
     else Inl (Runtime_error (p @ '' not found'')))"

definition PathGroupsHelper :: "path list \<Rightarrow> (exn, path list) result" where
  "PathGroupsHelper input_paths = fold_r add_sub_path input_paths []"

definition find_total_size :: "path list \<Rightarrow> nat" where
  "find_total_size ps = foldl (\<lambda>n (p, x). if pexists x \<and> is_regular_file x then n + psize x else n) 0 ps"

section \<open>Grouping by size\<close>

text \<open>The groups that are complete, the group that is being filled and its size.\<close>

record grouping =
  results :: "path list list"
  current_group :: "path list"
  current_group_size :: nat

definition group_path :: "nat \<Rightarrow> nat \<Rightarrow> path \<Rightarrow> grouping \<Rightarrow> grouping" where
  "group_path max_group_size max_files q s =
     (let n = psize (snd q) in
      if \<not> (is_regular_file (snd q) \<or> is_directory (snd q)) then s
      else if max_group_size < n then s\<lparr>results := results s @ [[q]]\<rparr>
      else if n + current_group_size s \<le> max_group_size then
        (let s1 = s\<lparr>current_group := current_group s @ [q], current_group_size := current_group_size s + n\<rparr> in
         if max_group_size \<le> current_group_size s1 \<or> 0 < max_files \<and> max_files \<le> length (current_group s1)
         then \<lparr>results = results s1 @ [current_group s1], current_group = [], current_group_size = 0\<rparr>
         else s1)
      else \<lparr>results = results s @ [current_group s], current_group = [q], current_group_size = n\<rparr>)"

definition group_by_size :: "path list \<Rightarrow> nat \<Rightarrow> nat \<Rightarrow> path list list" where
  "group_by_size interim_paths max_group_size max_files =
     (let s = fold (group_path max_group_size max_files) interim_paths \<lparr>results = [], current_group = [], current_group_size = 0\<rparr>
      in if 0 < length (current_group s) then results s @ [current_group s] else results s)"

section \<open>What the collected paths are\<close>

lemma add_sub_path_files: "add_sub_path (p, x) ps = Inr qs \<Longrightarrow> reg_files qs = reg_files ps @ files p x"
  using files_walk [of p x] by (cases x) (auto simp: add_sub_path_def simp del: walk.simps split: if_splits)

lemma fold_sub_path_files: "fold_r add_sub_path inp ps = Inr qs \<Longrightarrow> reg_files qs = reg_files ps @ concat (map (\<lambda>(p, x). files p x) inp)"
proof (induction inp arbitrary: ps)
  case (Cons q inp)
  then obtain rs where rs: "add_sub_path q ps = Inr rs" "fold_r add_sub_path inp rs = Inr qs" by auto
  obtain p x where "q = (p, x)" by (cases q)
  with rs Cons.IH [OF rs(2)] add_sub_path_files [of p x ps rs] show ?case by simp
qed simp

lemma helper_throws: "(\<exists>e. fold_r add_sub_path inp ps = Inl e) \<longleftrightarrow> (\<exists>q \<in> set inp. \<not> pexists (snd q))"
proof (induction inp arbitrary: ps)
  case (Cons q inp)
  then show ?case by (cases q) (auto simp: add_sub_path_def)
qed simp

lemma find_total_size_files: "find_total_size ps = sum_list (map snd (reg_files ps))"
proof -
  have "foldl (\<lambda>n (p, x). if pexists x \<and> is_regular_file x then n + psize x else n) m ps = m + sum_list (map snd (reg_files ps))" for m
  proof (induction ps arbitrary: m)
    case (Cons q ps)
    then show ?case by (cases q) (auto simp: pexists_def)
  qed simp
  then show ?thesis by (simp add: find_total_size_def)
qed

section \<open>What the groups are\<close>

definition paths_size :: "path list \<Rightarrow> nat" where
  "paths_size ps = sum_list (map (\<lambda>(p, x). psize x) ps)"

lemma paths_size_simps [simp]: "paths_size [] = 0" "paths_size (q # ps) = psize (snd q) + paths_size ps"
  "paths_size (ps @ qs) = paths_size ps + paths_size qs"
  by (simp_all add: paths_size_def split: prod.splits)

text \<open>A finished group: not empty, within the size limit or a single path, and within the number of files.\<close>

definition group_ok :: "nat \<Rightarrow> nat \<Rightarrow> path list \<Rightarrow> bool" where
  "group_ok M F g \<longleftrightarrow> g \<noteq> [] \<and> (paths_size g \<le> M \<or> length g = 1) \<and> (F = 0 \<or> length g \<le> F)"

definition grouping_ok :: "nat \<Rightarrow> nat \<Rightarrow> grouping \<Rightarrow> bool" where
  "grouping_ok M F s \<longleftrightarrow> list_all (group_ok M F) (results s) \<and> current_group_size s = paths_size (current_group s) \<and>
     current_group_size s \<le> M \<and> (F = 0 \<or> length (current_group s) < F)"

definition groupable :: "path \<Rightarrow> bool" where
  "groupable q \<longleftrightarrow> is_regular_file (snd q) \<or> is_directory (snd q)"

definition grouped :: "grouping \<Rightarrow> path multiset" where
  "grouped s = mset (concat (results s)) + mset (current_group s)"

lemma group_path_ok: "grouping_ok M F s \<Longrightarrow> grouping_ok M F (group_path M F q s)"
  by (cases "current_group s") (auto simp: group_path_def grouping_ok_def group_ok_def Let_def)

lemma group_path_grouped: "grouped (group_path M F q s) = grouped s + (if groupable q then {#q#} else {#})"
  by (simp add: group_path_def grouped_def groupable_def Let_def)

lemma fold_group_path:
  assumes "grouping_ok M F s"
  shows "grouping_ok M F (fold (group_path M F) ps s)"
    and "grouped (fold (group_path M F) ps s) = grouped s + mset (filter groupable ps)"
  using assms by (induction ps arbitrary: s) (simp_all add: group_path_ok group_path_grouped)

lemma grouping_start: "grouping_ok M F \<lparr>results = [], current_group = [], current_group_size = 0\<rparr>"
  by (auto simp: grouping_ok_def)

lemma group_by_size_ok: "g \<in> set (group_by_size ps M F) \<Longrightarrow> group_ok M F g"
proof -
  let ?s = "fold (group_path M F) ps \<lparr>results = [], current_group = [], current_group_size = 0\<rparr>"
  have "grouping_ok M F ?s" by (rule fold_group_path(1) [OF grouping_start])
  then show "g \<in> set (group_by_size ps M F) \<Longrightarrow> group_ok M F g"
    by (auto simp: group_by_size_def Let_def grouping_ok_def group_ok_def list_all_iff split: if_splits)
qed

lemma group_by_size_all: "mset (concat (group_by_size ps M F)) = mset (filter groupable ps)"
proof -
  let ?s = "fold (group_path M F) ps \<lparr>results = [], current_group = [], current_group_size = 0\<rparr>"
  have "grouped ?s = mset (filter groupable ps)" by (subst fold_group_path(2) [OF grouping_start]) (simp add: grouped_def)
  then show ?thesis by (auto simp: group_by_size_def Let_def grouped_def)
qed

lemma reg_files_mset: "mset (reg_files ps) = image_mset (\<lambda>(p, x). (p, psize x)) (filter_mset (\<lambda>(p, x). is_regular_file x) (mset ps))"
  by (simp add: reg_files_def)

lemma reg_files_groupable: "reg_files (filter groupable ps) = reg_files ps"
  by (induction ps) (auto simp: groupable_def)

section \<open>Properties\<close>

text \<open>
  C20: grouping by size loses and doubles nothing. It fails exactly when an input path does not exist; otherwise
  the regular files of all groups together are the regular files below the input paths, every group is
  non-empty, exceeds the size limit only when it is a single path, and never has more paths than the limit on
  files, where there is one.
\<close>

theorem group_by_size_exact:
  "case PathGroupsHelper inp of
     Inl e \<Rightarrow> \<exists>q \<in> set inp. \<not> pexists (snd q)
   | Inr ps \<Rightarrow> list_all (\<lambda>q. pexists (snd q)) inp \<and>
       mset (reg_files (concat (group_by_size ps M F))) = mset (concat (map (\<lambda>(p, x). files p x) inp)) \<and>
       list_all (\<lambda>g. g \<noteq> [] \<and> (paths_size g \<le> M \<or> length g = 1) \<and> (F = 0 \<or> length g \<le> F)) (group_by_size ps M F)"
proof (cases "PathGroupsHelper inp")
  case (Inl e)
  then show ?thesis using helper_throws [of inp "[]"] by (auto simp: PathGroupsHelper_def)
next
  case (Inr ps)
  have "mset (reg_files (concat (group_by_size ps M F))) = mset (reg_files ps)"
    using group_by_size_all [of ps M F] reg_files_groupable [of ps] by (metis reg_files_mset)
  moreover have "reg_files ps = concat (map (\<lambda>(p, x). files p x) inp)"
    using fold_sub_path_files [of inp "[]" ps] Inr by (simp add: PathGroupsHelper_def)
  moreover have "list_all (\<lambda>q. pexists (snd q)) inp"
    using helper_throws [of inp "[]"] Inr by (auto simp: PathGroupsHelper_def list_all_iff)
  ultimately show ?thesis using Inr group_by_size_ok [of _ ps M F] by (auto simp: list_all_iff group_ok_def)
qed

end
