(* ===== verification/Dir_Tree.thy ===== *)
theory Dir_Tree
  imports File_Tree
begin

text \<open>
  Dividing a directory tree into the blocks of a transfer: \<open>src/utils/paths/dirtree.cc\<close>. A directory that fits
  becomes a group of its own; of one that does not fit, the files are collected into groups and the
  subdirectories are divided in turn.
\<close>

section \<open>The algorithm\<close>

record supergroup =
  sg_size :: nat
  sg_groups :: "pathgroup list"
  sg_dirs :: "(string, fnode) stdmap"

definition PathSuperGroup :: supergroup where
  "PathSuperGroup = \<lparr>sg_size = 0, sg_groups = [], sg_dirs = []\<rparr>"

definition sg_add :: "pathgroup \<Rightarrow> supergroup \<Rightarrow> supergroup" where
  "sg_add g sg = sg\<lparr>sg_groups := sg_groups sg @ [g], sg_size := sg_size sg + pg_size g\<rparr>"

definition sg_add_dir :: "path \<Rightarrow> supergroup \<Rightarrow> supergroup" where
  "sg_add_dir = (\<lambda>(p, x) sg. if is_directory x then sg\<lparr>sg_dirs := emplace p x (sg_dirs sg)\<rparr> else sg)"

definition flatten :: "supergroup \<Rightarrow> path list" where
  "flatten sg = concat (map (\<lambda>g. filter (\<lambda>(p, x). is_regular_file x) (pg_paths g)) (sg_groups sg))"

text \<open>
  Where \<open>divide\<close> adds to a group, it has tested the type of the path before: \<open>add\<close> does not throw there, and
  \<open>pg_put\<close> is what it does.
\<close>

definition pg_put :: "path \<Rightarrow> nat \<Rightarrow> pathgroup \<Rightarrow> pathgroup" where
  "pg_put = (\<lambda>(p, x) n g. g\<lparr>pg_paths := emplace p x (pg_paths g), pg_size := pg_size g + n\<rparr>)"

lemma pg_put_add:
  "is_regular_file x \<Longrightarrow> pg_add_file (p, x) g = Inr (pg_put (p, x) (psize x) g)"
  "is_directory x \<Longrightarrow> pg_add_dir (p, x) n g = Inr (pg_put (p, x) n g)"
  by (simp_all add: pg_add_file_def pg_add_dir_def pg_put_def)

definition divide_file :: "nat \<Rightarrow> nat \<Rightarrow> path \<Rightarrow> supergroup \<times> pathgroup \<Rightarrow> supergroup \<times> pathgroup" where
  "divide_file M F q = (\<lambda>(sg, g).
     let (sg1, g1) =
           (if (0 < pg_size g \<and> 0 < pg_count g) \<and> (M < pg_size g + psize (snd q) \<or> F \<noteq> 0 \<and> F < pg_count g + 1)
            then (sg_add g sg, PathGroup) else (sg, g));
         g2 = pg_put q (psize (snd q)) g1
     in if pg_size g2 + psize (snd q) = M then (sg_add g2 sg1, PathGroup) else (sg1, g2))"

fun weight :: "fnode \<Rightarrow> nat" where
  "weight (Dir es) = Suc (sum_list (map (\<lambda>(n, x). Suc (weight x)) es))"
| "weight _ = 1"

text \<open>
  \<open>divide_helper\<close> and its loop over the entries of a directory. A directory that cannot be opened has size 0
  for \<open>nftw\<close>, so it always fits, and the exception for \<open>opendir\<close> is never thrown.
\<close>

function (sequential) divide_helper :: "nat \<Rightarrow> nat \<Rightarrow> path \<Rightarrow> supergroup \<times> pathgroup \<Rightarrow> supergroup \<times> pathgroup"
  and divide_entries :: "nat \<Rightarrow> nat \<Rightarrow> string \<Rightarrow> (string \<times> fnode) list \<Rightarrow> supergroup \<times> pathgroup \<Rightarrow> supergroup \<times> pathgroup" where
  "divide_helper M F (p, x) st =
     (if \<not> is_directory x then st
      else if tree_size x \<le> M then (sg_add (pg_put (p, x) (tree_size x) PathGroup) (fst st), snd st)
      else (case x of Dir es \<Rightarrow> divide_entries M F p es (sg_add_dir (p, x) (fst st), snd st) | _ \<Rightarrow> st))"
| "divide_entries M F p [] st = (if 0 < pg_count (snd st) then (sg_add (snd st) (fst st), PathGroup) else st)"
| "divide_entries M F p ((n, x) # es) st =
     divide_entries M F p es
       (if is_directory x then divide_helper M F (join_paths p n, x) st
        else if is_regular_file x then divide_file M F (join_paths p n, x) st
        else st)"
  by pat_completeness auto
termination
  by (relation "measure (case_sum (\<lambda>(M, F, (p, x), st). 2 * weight x) (\<lambda>(M, F, p, es, st). Suc (2 * sum_list (map (\<lambda>(n, x). Suc (weight x)) es))))")
    auto

definition divide :: "nat \<Rightarrow> nat \<Rightarrow> path \<Rightarrow> supergroup" where
  "divide M F rt =
     (if is_regular_file (snd rt) then sg_add (pg_put rt (psize (snd rt)) PathGroup) PathSuperGroup
      else if is_directory (snd rt) then
        fst (divide_helper M F rt (sg_add_dir rt PathSuperGroup, pg_put rt 0 PathGroup))
      else PathSuperGroup)"

section \<open>Every file is in one group\<close>

text \<open>
  What a group stands for: \<open>Some\<close> of every file it holds, by itself or below one of its directories. The group that is started
  with carries the root as well; this entry is counted apart, as \<open>None\<close>.
\<close>

definition entry_items :: "string \<Rightarrow> path \<Rightarrow> (string \<times> nat) option multiset" where
  "entry_items rt = (\<lambda>(p, x). if p = rt then {#None#} else image_mset Some (mset (files p x)))"

definition group_files :: "string \<Rightarrow> pathgroup \<Rightarrow> (string \<times> nat) option multiset" where
  "group_files rt g = sum_list (map (entry_items rt) (pg_paths g))"

definition groups_files :: "string \<Rightarrow> pathgroup list \<Rightarrow> (string \<times> nat) option multiset" where
  "groups_files rt gs = sum_list (map (group_files rt) gs)"

lemma sum_emplace: "p \<notin> set (keys m) \<Longrightarrow> sum_list (map h (emplace p x m)) = h (p, x) + sum_list (map h m)"
  for h :: "'k :: linorder \<times> 'v \<Rightarrow> 'a multiset"
proof -
  assume "p \<notin> set (keys m)"
  then have "mset (map h (emplace p x m)) = add_mset (h (p, x)) (mset (map h m))" by (simp add: mset_emplace)
  then show ?thesis by (simp flip: sum_mset_sum_list)
qed

lemma group_files_simps [simp]:
  "group_files rt PathGroup = {#}"
  "p \<noteq> rt \<Longrightarrow> p \<notin> set (keys (pg_paths g)) \<Longrightarrow> group_files rt (pg_put (p, x) n g) = group_files rt g + image_mset Some (mset (files p x))"
  "group_files rt (pg_put (rt, x) n PathGroup) = {#None#}"
  by (simp_all add: group_files_def PathGroup_def pg_put_def sum_emplace entry_items_def)

lemma sg_add_simps [simp]: "sg_groups (sg_add g sg) = sg_groups sg @ [g]" "sg_groups (sg_add_dir q sg) = sg_groups sg"
  "sg_groups PathSuperGroup = []"
  by (simp_all add: sg_add_def sg_add_dir_def PathSuperGroup_def split: prod.splits)

lemma groups_files_simps [simp]: "groups_files rt [] = {#}" "groups_files rt (g # gs) = group_files rt g + groups_files rt gs"
  "groups_files rt (gs @ hs) = groups_files rt gs + groups_files rt hs"
  by (simp_all add: groups_files_def)

definition state_files :: "string \<Rightarrow> supergroup \<times> pathgroup \<Rightarrow> (string \<times> nat) option multiset" where
  "state_files rt st = groups_files rt (sg_groups (fst st)) + group_files rt (snd st)"

definition held :: "supergroup \<times> pathgroup \<Rightarrow> string set" where
  "held st = set (keys (pg_paths (snd st)))"

lemma pg_put_keys [simp]: "set (keys (pg_paths (pg_put (p, x) n g))) = insert p (set (keys (pg_paths g)))" "pg_paths PathGroup = []"
  by (simp_all add: pg_put_def PathGroup_def)

lemma divide_file_files:
  assumes "p \<noteq> rt" and "p \<notin> held st"
  shows "state_files rt (divide_file M F (p, x) st) = state_files rt st + image_mset Some (mset (files p x)) \<and> held (divide_file M F (p, x) st) \<subseteq> insert p (held st)"
  using assms by (cases st) (auto simp: divide_file_def state_files_def held_def Let_def)

text \<open>What dividing a subtree adds: its files, and no more names than it has.\<close>

definition adds_tree :: "string \<Rightarrow> path \<Rightarrow> (supergroup \<times> pathgroup \<Rightarrow> supergroup \<times> pathgroup) \<Rightarrow> bool" where
  "adds_tree rt = (\<lambda>(p, x) f. rt \<notin> set (names p x) \<longrightarrow> (\<forall>st. set (names p x) \<inter> held st = {} \<longrightarrow>
     state_files rt (f st) = state_files rt st + image_mset Some (mset (files p x)) \<and> held (f st) \<subseteq> held st \<union> set (names p x)))"

lemma adds_treeD:
  assumes "adds_tree rt (p, x) f" and "rt \<notin> set (names p x)" and "set (names p x) \<inter> held st = {}"
  shows "state_files rt (f st) = state_files rt st + image_mset Some (mset (files p x))" and "held (f st) \<subseteq> held st \<union> set (names p x)"
  using assms unfolding adds_tree_def by blast+

definition entry_names :: "string \<Rightarrow> (string \<times> fnode) list \<Rightarrow> string set" where
  "entry_names p es = (\<Union>(n, x) \<in> set es. set (names (join_paths p n) x))"

lemma entry_names_simps [simp]: "entry_names p [] = {}" "entry_names p ((n, x) # es) = set (names (join_paths p n) x) \<union> entry_names p es"
  by (simp_all add: entry_names_def)

lemma names_dir: "set (names p (Dir es)) = insert p (entry_names p es)"
  by (auto simp: entry_names_def)

lemma entry_names_apart: "tree_ok (Dir ((n, x) # es)) \<Longrightarrow> set (names (join_paths p n) x) \<inter> entry_names p es = {}"
proof -
  assume ok: "tree_ok (Dir ((n, x) # es))"
  have "set (names (join_paths p n) x) \<inter> set (names (join_paths p m) y) = {}" if "(m, y) \<in> set es" for m y
  proof (rule entries_apart [OF ok])
    show "n \<noteq> m" using ok that by (force simp: image_iff)
  qed (use that in auto)
  then show ?thesis unfolding entry_names_def by blast
qed

definition divide_entry :: "nat \<Rightarrow> nat \<Rightarrow> path \<Rightarrow> supergroup \<times> pathgroup \<Rightarrow> supergroup \<times> pathgroup" where
  "divide_entry M F = (\<lambda>(p, x) st. if is_directory x then divide_helper M F (p, x) st
     else if is_regular_file x then divide_file M F (p, x) st else st)"

lemma divide_entries_Cons: "divide_entries M F p ((n, x) # es) st = divide_entries M F p es (divide_entry M F (join_paths p n, x) st)"
  by (simp add: divide_entry_def)

lemma divide_entries_files:
  assumes "\<And>n x. (n, x) \<in> set es \<Longrightarrow> adds_tree rt (join_paths p n, x) (divide_entry M F (join_paths p n, x))"
    and "tree_ok (Dir es)" and "rt \<notin> entry_names p es" and "entry_names p es \<inter> held st = {}"
  shows "state_files rt (divide_entries M F p es st) = state_files rt st + image_mset Some (mset (files p (Dir es))) \<and> held (divide_entries M F p es st) = {}"
  using assms
proof (induction es arbitrary: st)
  case Nil
  then show ?case by (auto simp: state_files_def held_def pg_count_def keys_def)
next
  case (Cons e es)
  obtain n x where e: "e = (n, x)" by (cases e)
  let ?st = "divide_entry M F (join_paths p n, x) st"
  have a: "adds_tree rt (join_paths p n, x) (divide_entry M F (join_paths p n, x))" using Cons.prems(1) e by simp
  have s: "state_files rt ?st = state_files rt st + image_mset Some (mset (files (join_paths p n) x))" "held ?st \<subseteq> held st \<union> set (names (join_paths p n) x)"
    using adds_treeD [OF a, of st] Cons.prems(3,4) e by auto
  have "entry_names p es \<inter> held ?st = {}" using s(2) Cons.prems(4) entry_names_apart [of n x es p] Cons.prems(2) e by auto
  then have "state_files rt (divide_entries M F p es ?st) = state_files rt ?st + image_mset Some (mset (files p (Dir es))) \<and> held (divide_entries M F p es ?st) = {}"
    using Cons.prems e by (intro Cons.IH) auto
  with s(1) e show ?case by (simp only: divide_entries_Cons) simp
qed

lemma adds_other: "\<not> is_directory x \<Longrightarrow> adds_tree rt (p, x) (divide_entry M F (p, x))"
  using divide_file_files [of p rt _ M F x] by (cases x) (fastforce simp: adds_tree_def divide_entry_def)+

lemma adds_dir: "tree_ok x \<Longrightarrow> adds_tree rt (p, x) (divide_entry M F (p, x))"
proof (induction x arbitrary: p)
  case (Dir es)
  show ?case unfolding adds_tree_def prod.case
  proof (intro impI allI)
    fix st assume r: "rt \<notin> set (names p (Dir es))" and d: "set (names p (Dir es)) \<inter> held st = {}"
    show "state_files rt (divide_entry M F (p, Dir es) st) = state_files rt st + image_mset Some (mset (files p (Dir es))) \<and>
        held (divide_entry M F (p, Dir es) st) \<subseteq> held st \<union> set (names p (Dir es))"
    proof (cases "tree_size (Dir es) \<le> M")
      case True
      have "p \<noteq> rt" using r by auto
      with True show ?thesis by (simp add: divide_entry_def state_files_def held_def del: files.simps names.simps)
    next
      case False
      have "adds_tree rt (join_paths p n, x) (divide_entry M F (join_paths p n, x))" if "(n, x) \<in> set es" for n x
        using Dir.IH [OF that, of x] Dir.prems that by (auto simp: list_all_iff)
      from divide_entries_files [OF this Dir.prems, of "(sg_add_dir (p, Dir es) (fst st), snd st)"] r d False
      show ?thesis by (simp add: divide_entry_def names_dir state_files_def held_def del: names.simps files.simps)
    qed
  qed
qed (simp_all add: adds_other, auto simp: adds_tree_def divide_entry_def state_files_def held_def)

lemma divide_cover:
  assumes "tree_ok x" and "p \<noteq> []" and "is_directory x" and "M < tree_size x"
  shows "groups_files p (sg_groups (divide M F (p, x))) = add_mset None (image_mset Some (mset (files p x)))"
proof -
  from assms(3,4) obtain es where x: "x = Dir es" by (cases x) auto
  let ?st = "(sg_add_dir (p, x) (sg_add_dir (p, x) PathSuperGroup), pg_put (p, x) 0 PathGroup)"
  have "p \<notin> set (names (join_paths p n) y)" if "(n, y) \<in> set es" for n y
    using root_apart [of y p n] that assms(1,2) x by (auto simp: list_all_iff)
  then have n: "p \<notin> entry_names p es" by (auto simp: entry_names_def)
  have a: "adds_tree p (join_paths p n, y) (divide_entry M F (join_paths p n, y))" if "(n, y) \<in> set es" for n y
    using adds_dir that assms(1) x by (auto simp: list_all_iff)
  have st: "state_files p ?st = {#None#}" "held ?st = {p}" by (simp_all add: state_files_def held_def)
  have "state_files p (divide_entries M F p es ?st) = add_mset None (image_mset Some (mset (files p x))) \<and> held (divide_entries M F p es ?st) = {}"
    using divide_entries_files [OF a, where st = ?st] assms(1) x n st by simp
  then have "state_files p (divide_entries M F p es ?st) = add_mset None (image_mset Some (mset (files p x)))" "pg_paths (snd (divide_entries M F p es ?st)) = []"
    by (auto simp: held_def keys_def)
  moreover have "divide M F (p, x) = fst (divide_entries M F p es ?st)" using x assms(4) by (simp add: divide_def)
  ultimately show ?thesis by (simp add: state_files_def group_files_def)
qed

lemma divide_fits: "is_directory x \<Longrightarrow> tree_size x \<le> M \<Longrightarrow> sg_groups (divide M F (p, x)) = [pg_put (p, x) (tree_size x) PathGroup]"
  by (cases x) (auto simp: divide_def)

section \<open>Groups stay within their limits\<close>








lemma emplace_not_Nil [simp]: "emplace p x m \<noteq> []"
  by (induction m) (auto split: if_splits)














section \<open>Sizes add up\<close>



lemma sizes_simps [simp]:
  "sg_size (sg_add g sg) = sg_size sg + pg_size g" "sg_size (sg_add_dir q sg) = sg_size sg" "sg_size PathSuperGroup = 0"
  "pg_size PathGroup = 0" "pg_size (pg_put q n g) = pg_size g + n"
  by (simp_all add: sg_add_def sg_add_dir_def PathSuperGroup_def PathGroup_def pg_put_def split: prod.splits)





section \<open>Properties\<close>

text \<open>
  C18: the division of a directory tree is exact. A tree that fits is one group, with the root as its only entry. The groups of
  a tree that does not fit hold every regular file below the root exactly once, by itself or below a directory of its group, and
  nothing else but the root directory itself, which is an entry of exactly one group.
\<close>

theorem divide_exact:
  assumes "tree_ok x" and "p \<noteq> []" and "is_directory x"
  shows "if tree_size x \<le> M then sg_groups (divide M F (p, x)) = [\<lparr>pg_size = tree_size x, pg_paths = [(p, x)]\<rparr>]
    else groups_files p (sg_groups (divide M F (p, x))) = add_mset None (image_mset Some (mset (files p x)))"
  using divide_cover [OF assms] divide_fits [OF assms(3)] by (simp add: pg_put_def PathGroup_def)

definition demo_tree :: fnode where
  "demo_tree = Dir [(''a'', Reg 30), (''b'', Reg 0), (''s'', Dir [(''c'', Reg 50), (''d'', Reg 40)])]"

theorem divide_exact_witness:
  "groups_files ''/data'' (sg_groups (divide 60 2 (''/data'', demo_tree))) = add_mset None (image_mset Some (mset (files ''/data'' demo_tree))) \<and>
   length (sg_groups (divide 60 2 (''/data'', demo_tree))) = 3"
proof -
  have "length (sg_groups (divide 60 2 (''/data'', demo_tree))) = 3" unfolding demo_tree_def by code_simp
  then show ?thesis using divide_exact [of demo_tree "''/data''" 60 2] by (simp add: demo_tree_def)
qed



end
