(* ===== verification/Checksum.thy ===== *)
theory Checksum
  imports Dir_Tree Utils
begin

text \<open>
  \<open>src/utils/checksum.cc\<close>: digests of files and of directories, and the partition of a directory for parallel
  digests (\<open>DirectoryWalker::partition\<close> of \<open>src/utils/paths/dirwalker.cc\<close>).

  The message digests of OpenSSL and \<open>adler32\<close> of zlib are parameters. What the files hold is a function from
  names: \<open>None\<close> is a file that cannot be opened; where \<open>st_bad\<close> is set, reading fails after the data instead of
  reaching the end of the file.
\<close>

section \<open>Digest algorithms and streams\<close>

text \<open>
  A digest of OpenSSL: whether a context can be allocated, \<open>EVP_DigestInit\<close>, \<open>EVP_DigestUpdate\<close> and
  \<open>EVP_DigestFinal\<close>, each of which may fail. The result is a list of bytes.
\<close>

record 'c evp =
  evp_new :: bool
  evp_init :: "'c option"
  evp_update :: "'c \<Rightarrow> string \<Rightarrow> 'c option"
  evp_final :: "'c \<Rightarrow> nat list option"

record 'c crypto =
  digestbyname :: "string \<Rightarrow> 'c evp option"
  adler32_init :: "32 word"
  adler32 :: "32 word \<Rightarrow> string \<Rightarrow> 32 word"

record stream =
  st_data :: string
  st_bad :: bool

type_synonym disk = "string \<Rightarrow> stream option"

definition BUFSIZ :: nat where
  "BUFSIZ = 8192"

text \<open>\<open>%02x\<close> and \<open>%08x\<close>.\<close>

definition hex_char :: "nat \<Rightarrow> char" where
  "hex_char n = ''0123456789abcdef'' ! (n mod 16)"

definition hex_byte :: "nat \<Rightarrow> string" where
  "hex_byte n = [hex_char (n div 16), hex_char n]"

definition md_string :: "nat list \<Rightarrow> string" where
  "md_string bs = concat (map hex_byte bs)"

definition hex_word :: "32 word \<Rightarrow> string" where
  "hex_word w = map (\<lambda>i. hex_char (unat w div 16 ^ i)) (rev [0..<8])"

section \<open>The checksum of a file\<close>

text \<open>
  The loop over a stream: it reads \<open>BUFSIZ\<close> bytes at a time until a read comes back short. \<open>upd\<close> takes a
  non-empty chunk.
\<close>

function read_loop :: "string \<Rightarrow> ('c \<Rightarrow> string \<Rightarrow> (exn, 'c) result) \<Rightarrow> bool \<Rightarrow> string \<Rightarrow> 'c \<Rightarrow> (exn, 'c) result" where
  "read_loop path upd bad data c =
     (let buf = take BUFSIZ data in
      if bad \<and> length buf < BUFSIZ then Inl (Runtime_error (''Bad stream status at: \"'' @ path @ ''\"''))
      else
        bind_r (if 0 < length buf then upd c buf else Inr c) (\<lambda>c'.
        if length buf < BUFSIZ then Inr c'
        else read_loop path upd bad (drop BUFSIZ data) c'))"
  by pat_completeness auto
termination
  by (relation "measure (\<lambda>(path, upd, bad, data, c). length data)") (auto simp: BUFSIZ_def)

declare read_loop.simps [simp del]

definition digest_update :: "'c evp \<Rightarrow> 'c \<Rightarrow> string \<Rightarrow> (exn, 'c) result" where
  "digest_update md c buf = opt_r (Runtime_error ''EVP_DigestUpdate() failed'') (evp_update md c buf)"

definition digest_init :: "'c evp \<Rightarrow> (exn, 'c) result" where
  "digest_init md =
     (if \<not> evp_new md then Inl (Runtime_error ''EVP_MD_CTX_new() failed'')
      else opt_r (Runtime_error ''EVP_DigestInit_ex() failed'') (evp_init md))"

text \<open>The failure of \<open>EVP_DigestFinal\<close> is thrown as a string literal.\<close>

definition digest_final :: "'c evp \<Rightarrow> 'c \<Rightarrow> (exn, string) result" where
  "digest_final md c = bind_r (opt_r (Text_thrown ''EVP_DigestFinal() failed'') (evp_final md c)) (\<lambda>bs. Inr (md_string bs))"

definition checksum_md :: "'c evp \<Rightarrow> disk \<Rightarrow> string \<Rightarrow> (exn, string) result" where
  "checksum_md md d path =
     bind_r (opt_r (Runtime_error (''Error opening '' @ path)) (d path)) (\<lambda>instream.
     bind_r (digest_init md) (\<lambda>mdctx.
     bind_r (read_loop path (digest_update md) (st_bad instream) (st_data instream) mdctx) (digest_final md)))"

definition checksum_adler32 :: "'c crypto \<Rightarrow> disk \<Rightarrow> string \<Rightarrow> (exn, string) result" where
  "checksum_adler32 lib d path =
     bind_r (opt_r (Runtime_error (''Error opening '' @ path)) (d path)) (\<lambda>instream.
     bind_r (read_loop path (\<lambda>cs buf. Inr (adler32 lib cs buf)) (st_bad instream) (st_data instream) (adler32_init lib)) (\<lambda>cs.
     Inr (hex_word cs)))"

definition checksum :: "'c crypto \<Rightarrow> disk \<Rightarrow> string \<Rightarrow> string \<Rightarrow> (exn, string) result" where
  "checksum lib d path digest =
     (case digestbyname lib digest of
        None \<Rightarrow> if digest = ''adler32'' then checksum_adler32 lib d path
                else Inl (Runtime_error (''Unknown message digest '' @ digest))
      | Some md \<Rightarrow> checksum_md md d path)"

section \<open>Checksums of checksums\<close>

definition checksum_of_checksums :: "string list \<Rightarrow> 'c evp \<Rightarrow> (exn, string) result" where
  "checksum_of_checksums checksums md =
     bind_r (digest_init md) (\<lambda>mdctx.
     bind_r (fold_r (\<lambda>c ctx. digest_update md ctx c) (sort checksums) mdctx) (digest_final md))"

text \<open>The loops that collect the checksums of the regular files in a list of paths.\<close>

fun file_checksums :: "'c evp \<Rightarrow> disk \<Rightarrow> path list \<Rightarrow> (exn, string list) result" where
  "file_checksums md d [] = Inr []"
| "file_checksums md d ((p, x) # ps) =
     (if is_regular_file x then
        bind_r (checksum_md md d p) (\<lambda>c. bind_r (file_checksums md d ps) (\<lambda>cs. Inr (c # cs)))
      else file_checksums md d ps)"

definition checksum_group :: "'c evp \<Rightarrow> disk \<Rightarrow> pathgroup \<Rightarrow> (exn, string list) result" where
  "checksum_group md d g = file_checksums md d (pg_paths g)"

definition sequential_directory_checksum :: "'c evp \<Rightarrow> disk \<Rightarrow> path \<Rightarrow> (exn, string) result" where
  "sequential_directory_checksum md d q =
     bind_r (file_checksums md d (walk True q)) (\<lambda>checksums. checksum_of_checksums checksums md)"

section \<open>Partitioning a directory\<close>

text \<open>\<open>DirectoryWalker::partition\<close>: a file goes to the first group that is not full; where all are full it is dropped.\<close>

fun place :: "nat \<Rightarrow> path \<Rightarrow> pathgroup list \<Rightarrow> pathgroup list" where
  "place group_size q [] = []"
| "place group_size q (g # gs) =
     (if pg_size g < group_size then pg_put q (psize (snd q)) g # gs else g # place group_size q gs)"

definition place_all :: "nat \<Rightarrow> nat \<Rightarrow> path list \<Rightarrow> pathgroup list" where
  "place_all max_groups group_size ps =
     fold (\<lambda>q gs. if is_regular_file (snd q) then place group_size q gs else gs) ps (replicate max_groups PathGroup)"

fun readjust :: "nat \<Rightarrow> nat \<Rightarrow> nat list \<Rightarrow> nat" where
  "readjust group_size init_group_size [] = group_size"
| "readjust group_size init_group_size (n # ns) =
     (if group_size \<le> init_group_size + n then init_group_size + n
      else readjust group_size (init_group_size + n) ns)"

definition partition_size :: "path list \<Rightarrow> nat \<Rightarrow> nat" where
  "partition_size ps max_groups =
     readjust (walk_size ps div max_groups) 0 (take (length ps div max_groups) (map (\<lambda>(p, x). psize x) (sort_by_size ps)))"

definition partition_walk :: "path list \<Rightarrow> nat \<Rightarrow> (exn, pathgroup list) result" where
  "partition_walk ps max_groups =
     (if max_groups = 0 then Inl (Runtime_error ''max_groups cannot be 0'')
      else Inr (place_all max_groups (partition_size ps max_groups) (sort_by_size ps)))"

text \<open>The variant with a given size, which only tests call.\<close>

definition partition_sized :: "path list \<Rightarrow> nat \<Rightarrow> nat \<Rightarrow> pathgroup list" where
  "partition_sized ps max_groups group_size = place_all max_groups group_size (sort_by_size ps)"

section \<open>Parallel checksums\<close>

text \<open>
  The global counter of tasks is shared by all calls: \<open>others k\<close> is what the rest of the process holds of it at the
  \<open>k\<close>-th test of this call. The groups for which a task is started, and those left for the calling thread.
\<close>

fun spawn :: "(nat \<Rightarrow> nat) \<Rightarrow> nat \<Rightarrow> nat \<Rightarrow> nat \<Rightarrow> pathgroup list \<Rightarrow> pathgroup list \<times> pathgroup list" where
  "spawn others max_threads k own [] = ([], [])"
| "spawn others max_threads k own (g # gs) =
     (if pg_count g = 0 then spawn others max_threads k own gs
      else if others k + own < max_threads then apfst (Cons g) (spawn others max_threads (Suc k) (Suc own) gs)
      else apsnd (Cons g) (spawn others max_threads (Suc k) own gs))"

text \<open>
  Collecting the results: the second component is what the call has added to the counter and not taken off
  again when it ends. An exception of a task passes through \<open>get()\<close>.
\<close>

definition run_remainders :: "'c evp \<Rightarrow> disk \<Rightarrow> pathgroup list \<Rightarrow> (exn, string list) result" where
  "run_remainders md d gs =
     fold_r (\<lambda>g cs. if pg_count g = 0 then Inr cs else bind_r (checksum_group md d g) (\<lambda>r. Inr (cs @ r))) gs []"

fun get_futures :: "'c evp \<Rightarrow> disk \<Rightarrow> pathgroup list \<Rightarrow> string list \<Rightarrow> (exn, string list) result \<times> nat" where
  "get_futures md d [] cs = (Inr cs, 0)"
| "get_futures md d (g # gs) cs =
     (case checksum_group md d g of
        Inl e \<Rightarrow> (Inl e, Suc (length gs))
      | Inr r \<Rightarrow> get_futures md d gs (cs @ r))"

definition mismatch :: "nat \<Rightarrow> nat \<Rightarrow> nat \<Rightarrow> exn" where
  "mismatch nfiles nsums max_threads =
     Runtime_error (''Mismatch: files: '' @ to_string (int nfiles) @ '', checksums: '' @ to_string (int nsums) @ '', max threads: '' @ to_string (int max_threads))"

definition parallel_directory_checksum ::
    "'c evp \<Rightarrow> disk \<Rightarrow> (nat \<Rightarrow> nat) \<Rightarrow> path \<Rightarrow> nat \<Rightarrow> (exn, string) result \<times> nat" where
  "parallel_directory_checksum md d others q max_threads =
     (let tree = walk True q in
      case partition_walk tree max_threads of
        Inl e \<Rightarrow> (Inl e, 0)
      | Inr groups \<Rightarrow>
          (let (tasks, remainders) = spawn others max_threads 0 0 groups in
           case run_remainders md d remainders of
             Inl e \<Rightarrow> (Inl e, length tasks)
           | Inr cs \<Rightarrow>
               (case get_futures md d tasks cs of
                  (Inl e, left) \<Rightarrow> (Inl e, left)
                | (Inr checksums, left) \<Rightarrow>
                    (if count_regular_files tree \<noteq> length checksums
                     then (Inl (mismatch (count_regular_files tree) (length checksums) max_threads), left)
                     else (checksum_of_checksums checksums md, left)))))"

definition dir_checksum_of_checksums ::
    "'c evp \<Rightarrow> disk \<Rightarrow> (nat \<Rightarrow> nat) \<Rightarrow> path \<Rightarrow> bool \<Rightarrow> nat \<Rightarrow> (exn, string) result \<times> nat" where
  "dir_checksum_of_checksums md d others q par max_threads =
     (if \<not> is_directory (snd q)
      then (Inl (Runtime_error (''dir_checksum_of_checksums(): \"'' @ fst q @ ''\" is not a directory.'')), 0)
      else if par then parallel_directory_checksum md d others q max_threads
      else (sequential_directory_checksum md d q, 0))"

definition dir_checksum_named ::
    "'c crypto \<Rightarrow> disk \<Rightarrow> (nat \<Rightarrow> nat) \<Rightarrow> path \<Rightarrow> string \<Rightarrow> bool \<Rightarrow> nat \<Rightarrow> (exn, string) result \<times> nat" where
  "dir_checksum_named lib d others q algorithm par max_threads =
     (case digestbyname lib algorithm of
        None \<Rightarrow> (Inl (Runtime_error (''Unknown message digest algorithm: '' @ algorithm)), 0)
      | Some md \<Rightarrow> dir_checksum_of_checksums md d others q par max_threads)"

end
