(* ===== verification/Checksum_Props.thy ===== *)
theory Checksum_Props
  imports Checksum
begin

text \<open>
  Checksums: reading a file in chunks does not matter, a parallel checksum is the sequential one for every
  assignment of groups to threads, and when the partition behind it loses files.
\<close>

section \<open>Reading in chunks\<close>

text \<open>
  What OpenSSL documents of \<open>EVP_DigestUpdate\<close>: it may be called several times, on consecutive pieces of the
  data, and an empty piece changes nothing.
\<close>

definition streaming :: "'c evp \<Rightarrow> bool" where
  "streaming md \<longleftrightarrow> (\<forall>c. evp_update md c [] = Some c) \<and>
     (\<forall>c a b. evp_update md c (a @ b) = Option.bind (evp_update md c a) (\<lambda>c'. evp_update md c' b))"

lemma digest_update_append:
  assumes "streaming md"
  shows "bind_r (digest_update md c a) (\<lambda>c'. digest_update md c' b) = digest_update md c (a @ b)"
  using assms by (cases "evp_update md c a") (simp_all add: streaming_def digest_update_def)

lemma digest_update_Nil: "streaming md \<Longrightarrow> digest_update md c [] = Inr c"
  by (simp add: streaming_def digest_update_def)

lemma read_loop_whole:
  assumes "streaming md"
  shows "read_loop path (digest_update md) False data c = digest_update md c data"
proof (induction path "digest_update md" False data c rule: read_loop.induct)
  case (1 path data c)
  show ?case
  proof (cases "length data < BUFSIZ")
    case True
    then show ?thesis by (subst read_loop.simps) (auto simp: Let_def digest_update_Nil [OF assms] bind_r_def split: sum.splits)
  next
    case False
    have "read_loop path (digest_update md) False data c =
        bind_r (digest_update md c (take BUFSIZ data)) (read_loop path (digest_update md) False (drop BUFSIZ data))"
      using False by (subst read_loop.simps) (auto simp: Let_def BUFSIZ_def)
    also have "\<dots> = bind_r (digest_update md c (take BUFSIZ data)) (\<lambda>c'. digest_update md c' (drop BUFSIZ data))"
      using False "1.hyps" [of "take BUFSIZ data"] by (cases "digest_update md c (take BUFSIZ data)") (simp_all add: BUFSIZ_def)
    finally show ?thesis by (simp add: digest_update_append [OF assms])
  qed
qed

section \<open>The checksums of a list of files\<close>

definition readable :: "'c evp \<Rightarrow> disk \<Rightarrow> string \<Rightarrow> bool" where
  "readable md d p \<longleftrightarrow> (\<exists>c. checksum_md md d p = Inr c)"

definition sum_of :: "'c evp \<Rightarrow> disk \<Rightarrow> string \<times> nat \<Rightarrow> string" where
  "sum_of md d f = (case checksum_md md d (fst f) of Inr c \<Rightarrow> c | Inl e \<Rightarrow> [])"

lemma file_checksums_Inr:
  "file_checksums md d ps = Inr cs \<longleftrightarrow> list_all (\<lambda>f. readable md d (fst f)) (reg_files ps) \<and> cs = map (sum_of md d) (reg_files ps)"
proof (induction ps arbitrary: cs)
  case (Cons q ps)
  obtain p x where q: "q = (p, x)" by (cases q)
  show ?case
  proof (cases "checksum_md md d p")
    case (Inl e)
    then show ?thesis using Cons.IH q by (auto simp: readable_def)
  next
    case (Inr c)
    then show ?thesis using Cons.IH q by (auto simp: readable_def sum_of_def bind_r_Inr_iff)
  qed
qed auto

definition groups_regs :: "pathgroup list \<Rightarrow> (string \<times> nat) list" where
  "groups_regs gs = concat (map (\<lambda>g. reg_files (pg_paths g)) gs)"

lemma groups_regs_simps [simp]: "groups_regs [] = []" "groups_regs (g # gs) = reg_files (pg_paths g) @ groups_regs gs"
  by (simp_all add: groups_regs_def)

lemma run_remainders_aux:
  "fold_r (\<lambda>g cs. if pg_count g = 0 then Inr cs else bind_r (checksum_group md d g) (\<lambda>r. Inr (cs @ r))) gs acc = Inr cs \<longleftrightarrow>
   list_all (\<lambda>f. readable md d (fst f)) (groups_regs gs) \<and> cs = acc @ map (sum_of md d) (groups_regs gs)"
proof (induction gs arbitrary: acc)
  case (Cons g gs)
  show ?case
  proof (cases "pg_paths g = []")
    case True
    then show ?thesis using Cons.IH by (simp add: pg_count_def)
  next
    case False
    then show ?thesis using Cons.IH by (auto simp: pg_count_def checksum_group_def bind_r_Inr_iff file_checksums_Inr)
  qed
qed auto

lemma run_remainders_Inr:
  "run_remainders md d gs = Inr cs \<longleftrightarrow> list_all (\<lambda>f. readable md d (fst f)) (groups_regs gs) \<and> cs = map (sum_of md d) (groups_regs gs)"
  unfolding run_remainders_def by (subst run_remainders_aux) simp

lemma get_futures_Inr:
  "get_futures md d gs acc = (Inr cs, n) \<longleftrightarrow>
   list_all (\<lambda>f. readable md d (fst f)) (groups_regs gs) \<and> cs = acc @ map (sum_of md d) (groups_regs gs) \<and> n = 0"
proof (induction gs arbitrary: acc)
  case (Cons g gs)
  show ?case
  proof (cases "checksum_group md d g")
    case (Inl e)
    then have "\<not> list_all (\<lambda>f. readable md d (fst f)) (reg_files (pg_paths g))"
      using file_checksums_Inr [of md d "pg_paths g"] by (auto simp: checksum_group_def)
    with Inl show ?thesis by simp
  next
    case (Inr r)
    then have "list_all (\<lambda>f. readable md d (fst f)) (reg_files (pg_paths g))" "r = map (sum_of md d) (reg_files (pg_paths g))"
      by (simp_all add: checksum_group_def file_checksums_Inr)
    with Inr show ?thesis using Cons.IH by auto
  qed
qed auto

lemma get_futures_Inl: "get_futures md d gs acc = (Inl e, n) \<Longrightarrow> 0 < n \<and> n \<le> length gs"
  by (induction gs arbitrary: acc) (force split: sum.splits)+

lemma checksum_of_checksums_cong: "mset cs = mset cs' \<Longrightarrow> checksum_of_checksums cs md = checksum_of_checksums cs' md"
proof -
  assume "mset cs = mset cs'"
  then have "sort cs = sort cs'" by (intro properties_for_sort) simp_all
  then show ?thesis by (simp add: checksum_of_checksums_def)
qed

section \<open>Groups and tasks\<close>

lemma spawn_regs: "spawn others n k own gs = (ts, rs) \<Longrightarrow> mset (groups_regs rs) + mset (groups_regs ts) = mset (groups_regs gs)"
proof (induction gs arbitrary: k own ts rs)
  case (Cons g gs)
  show ?case
  proof (cases "pg_count g = 0")
    case True
    then show ?thesis using Cons by (simp add: pg_count_def)
  next
    case False
    then show ?thesis using Cons.prems Cons.IH by (auto simp: apfst_def apsnd_def map_prod_def split: if_splits prod.splits)
  qed
qed simp

lemma spawn_few: "fst (spawn others n k own gs) = [] \<or> length (fst (spawn others n k own gs)) + own \<le> n"
proof (induction gs arbitrary: k own)
  case (Cons g gs)
  show ?case using Cons.IH [of k own] Cons.IH [of "Suc k" own] Cons.IH [of "Suc k" "Suc own"] by auto
qed simp

lemma spawn_first: "others 0 < n \<Longrightarrow> groups_regs gs \<noteq> [] \<Longrightarrow> fst (spawn others n 0 0 gs) \<noteq> []"
  by (induction gs) (auto simp: pg_count_def)

lemma reg_files_mono: "mset ps \<subseteq># mset qs \<Longrightarrow> mset (reg_files ps) \<subseteq># mset (reg_files qs)"
  by (simp add: reg_files_def image_mset_subseteq_mono multiset_filter_mono)

lemma put_regs: "is_regular_file x \<Longrightarrow> mset (reg_files (pg_paths (pg_put (p, x) n g))) \<subseteq># add_mset (p, psize x) (mset (reg_files (pg_paths g)))"
  using reg_files_mono [of "emplace p x (pg_paths g)" "(p, x) # pg_paths g"] subset_emplace [of p x "pg_paths g"] by (simp add: pg_put_def)

lemma place_regs: "is_regular_file x \<Longrightarrow> mset (groups_regs (place gsz (p, x) G)) \<subseteq># add_mset (p, psize x) (mset (groups_regs G))"
proof (induction G)
  case (Cons g G)
  then show ?case using put_regs [OF Cons.prems, of p "psize x" g] by (auto simp: subset_mset.add_mono union_commute dest: subset_mset.add_mono)
qed simp

lemma place_fold_regs:
  "mset (groups_regs (fold (\<lambda>q gs. if is_regular_file (snd q) then place gsz q gs else gs) ps G)) \<subseteq># mset (groups_regs G) + mset (reg_files ps)"
proof (induction ps arbitrary: G)
  case (Cons q ps)
  obtain p x where q: "q = (p, x)" by (cases q)
  show ?case
  proof (cases "is_regular_file x")
    case True
    have "mset (groups_regs (place gsz q G)) + mset (reg_files ps) \<subseteq># add_mset (p, psize x) (mset (groups_regs G)) + mset (reg_files ps)"
      using place_regs [OF True, of gsz p G] q by (simp only: subset_mset.add_right_mono)
    with Cons.IH [of "place gsz q G"] True q show ?thesis by (auto intro: subset_mset.order_trans)
  qed (use Cons.IH q in simp)
qed simp

lemma groups_regs_start [simp]: "groups_regs (replicate n PathGroup) = []"
  by (induction n) simp_all

lemma place_all_regs: "mset (groups_regs (place_all n gsz (sort_by_size ps))) \<subseteq># mset (reg_files ps)"
  using place_fold_regs [of gsz "sort_by_size ps" "replicate n PathGroup"] by (simp add: place_all_def mset_reg_files_sort)

section \<open>Parallel and sequential checksums\<close>

text \<open>The files that the partition keeps.\<close>

definition kept :: "path \<Rightarrow> nat \<Rightarrow> (string \<times> nat) list" where
  "kept q n = groups_regs (place_all n (partition_size (walk True q) n) (sort_by_size (walk True q)))"

lemma kept_subset: "mset (kept q n) \<subseteq># mset (reg_files (walk True q))"
  by (simp add: kept_def place_all_regs)

lemma kept_all: "length (kept q n) = count_regular_files (walk True q) \<Longrightarrow> mset (kept q n) = mset (reg_files (walk True q))"
  using kept_subset [of q n] by (metis length_reg_files mset_subset_size not_less_iff_gr_or_eq size_mset subset_mset.le_less)

lemma sequential_Inr:
  "sequential_directory_checksum md d q = Inr c \<longleftrightarrow>
   list_all (\<lambda>f. readable md d (fst f)) (reg_files (walk True q)) \<and> checksum_of_checksums (map (sum_of md d) (reg_files (walk True q))) md = Inr c"
  by (auto simp: sequential_directory_checksum_def bind_r_Inr_iff file_checksums_Inr)

text \<open>What a parallel checksum does, whatever the tasks are: it reads the kept files, and compares their number.\<close>

lemma parallel_runs:
  assumes "0 < n" and "parallel_directory_checksum md d others q n = (r, left)"
  shows "if list_all (\<lambda>f. readable md d (fst f)) (kept q n) then left = 0 \<and>
      (if length (kept q n) = count_regular_files (walk True q)
       then r = checksum_of_checksums (map (sum_of md d) (reg_files (walk True q))) md
       else r = Inl (mismatch (count_regular_files (walk True q)) (length (kept q n)) n))
    else (\<exists>e. r = Inl e) \<and> (others 0 < n \<longrightarrow> 0 < left)"
proof -
  let ?G = "place_all n (partition_size (walk True q) n) (sort_by_size (walk True q))"
  obtain ts rs where sp: "spawn others n 0 0 ?G = (ts, rs)" by fastforce
  have m: "mset (kept q n) = mset (groups_regs rs) + mset (groups_regs ts)" using spawn_regs [OF sp] by (simp add: kept_def)
  have P: "parallel_directory_checksum md d others q n =
      (case run_remainders md d rs of Inl e \<Rightarrow> (Inl e, length ts)
       | Inr cs \<Rightarrow> (case get_futures md d ts cs of (Inl e, left) \<Rightarrow> (Inl e, left)
           | (Inr checksums, left) \<Rightarrow> (if count_regular_files (walk True q) \<noteq> length checksums
               then (Inl (mismatch (count_regular_files (walk True q)) (length checksums) n), left) else (checksum_of_checksums checksums md, left))))"
    using assms(1) sp by (simp add: parallel_directory_checksum_def partition_walk_def Let_def)
  have set: "set (kept q n) = set (groups_regs rs) \<union> set (groups_regs ts)" using m by (metis set_mset_mset set_mset_union)
  show ?thesis
  proof (cases "list_all (\<lambda>f. readable md d (fst f)) (kept q n)")
    case True
    let ?cs = "map (sum_of md d) (groups_regs rs)"
    have "run_remainders md d rs = Inr ?cs" using True set by (simp add: run_remainders_Inr list_all_iff)
    moreover have "get_futures md d ts ?cs = (Inr (?cs @ map (sum_of md d) (groups_regs ts)), 0)"
      using True set by (simp add: get_futures_Inr list_all_iff)
    moreover have l: "length (kept q n) = length (groups_regs rs) + length (groups_regs ts)" using m by (metis size_mset size_union)
    moreover have "checksum_of_checksums (?cs @ map (sum_of md d) (groups_regs ts)) md = checksum_of_checksums (map (sum_of md d) (reg_files (walk True q))) md"
      if "length (kept q n) = count_regular_files (walk True q)"
      using kept_all [OF that] m by (intro checksum_of_checksums_cong) (metis image_mset_union mset_append mset_map)
    ultimately show ?thesis using True P assms(2) by (auto split: if_splits)
  next
    case False
    then have "\<not> (\<exists>cs. run_remainders md d rs = Inr cs) \<or> \<not> (\<exists>acc cs m. get_futures md d ts acc = (Inr cs, m))"
      using set by (auto simp: run_remainders_Inr get_futures_Inr list_all_iff)
    moreover have "ts \<noteq> []" if "others 0 < n"
    proof -
      have "groups_regs ?G \<noteq> []" using False by (auto simp: kept_def)
      from spawn_first [of others n ?G, OF that this] show ?thesis using sp by simp
    qed
    ultimately show ?thesis using False P assms(2) get_futures_Inl [of md d ts _ _ left]
      by (auto split: sum.splits prod.splits)
  qed
qed

section \<open>When the partition keeps every file\<close>

lemma walk_names: "map fst (walk True (p, Dir es)) = concat (map (\<lambda>(n, x). names (join_paths p n) x) es)"
proof -
  have "names p x = p # map fst (walk True (p, x))" for p x
  proof (induction x arbitrary: p)
    case (Dir es)
    have "map fst ((join_paths p n, x) # (if True \<and> is_directory x then walk True (join_paths p n, x) else [])) = names (join_paths p n) x"
      if "(n, x) \<in> set es" for n x
      using Dir.IH [OF that, of x "join_paths p n"] by (cases x) auto
    then show ?case by (auto simp: map_concat comp_def intro!: arg_cong [where f = concat] map_cong)
  qed simp_all
  from this [of p "Dir es"] show ?thesis by simp
qed

lemma distinct_entries:
  assumes "tree_ok (Dir es)" and "\<And>n x. (n, x) \<in> set es \<Longrightarrow> distinct (names (join_paths p n) x)"
  shows "distinct (concat (map (\<lambda>(n, x). names (join_paths p n) x) es))"
  using assms
proof (induction es)
  case (Cons e es)
  obtain n x where e: "e = (n, x)" by (cases e)
  have "set (names (join_paths p n) x) \<inter> entry_names p es = {}" using entry_names_apart Cons.prems(1) e by blast
  with Cons e show ?case by (auto simp: entry_names_def)
qed simp

lemma distinct_names: "tree_ok x \<Longrightarrow> p \<noteq> [] \<Longrightarrow> distinct (names p x)"
proof (induction x arbitrary: p)
  case (Dir es)
  have e: "n \<noteq> [] \<and> CHR ''/'' \<notin> set n \<and> tree_ok x" if "(n, x) \<in> set es" for n x using that Dir.prems by (auto simp: list_all_iff)
  then have "distinct (names (join_paths p n) x)" if "(n, x) \<in> set es" for n x
    using Dir.IH [OF that, of x "join_paths p n"] that by (auto simp: join_entry)
  moreover have "p \<notin> set (names (join_paths p n) x)" if "(n, x) \<in> set es" for n x using root_apart e that Dir.prems by blast
  ultimately show ?case using distinct_entries [OF Dir.prems(1), of p] by auto
qed simp_all

lemma distinct_walk: "tree_ok x \<Longrightarrow> distinct (map fst (walk True (p, x)))"
proof (cases x)
  case (Dir es)
  assume ok: "tree_ok x"
  have "distinct (names (join_paths p n) y)" if "(n, y) \<in> set es" for n y
    using ok that Dir by (intro distinct_names) (auto simp: list_all_iff join_entry)
  then show ?thesis using distinct_entries [of es p] ok Dir by (simp only: walk_names)
qed simp_all

definition full :: "nat \<Rightarrow> pathgroup list \<Rightarrow> nat" where
  "full gsz G = length (filter (\<lambda>g. gsz \<le> pg_size g) G)"

definition group_keys :: "pathgroup list \<Rightarrow> string set" where
  "group_keys G = (\<Union>g \<in> set G. set (keys (pg_paths g)))"

definition total :: "pathgroup list \<Rightarrow> nat" where
  "total G = sum_list (map pg_size G)"

text \<open>There is room for a file when not all groups are full, and for all files when there is enough room in total.\<close>

definition room :: "nat \<Rightarrow> (string \<times> nat) list \<Rightarrow> pathgroup list \<Rightarrow> bool" where
  "room gsz fs G \<longleftrightarrow> full gsz G + length fs \<le> length G \<or> total G + sum_list (map snd fs) < length G * gsz"

lemma total_full: "(\<forall>g \<in> set G. gsz \<le> pg_size g) \<Longrightarrow> full gsz G = length G \<and> length G * gsz \<le> total G"
  by (induction G) (auto simp: full_def total_def)

lemma place_adds:
  assumes "is_regular_file x" and "p \<notin> group_keys G" and "\<exists>g \<in> set G. pg_size g < gsz"
  shows "mset (groups_regs (place gsz (p, x) G)) = add_mset (p, psize x) (mset (groups_regs G)) \<and>
    group_keys (place gsz (p, x) G) = insert p (group_keys G) \<and> total (place gsz (p, x) G) = psize x + total G \<and>
    full gsz (place gsz (p, x) G) \<le> Suc (full gsz G) \<and> length (place gsz (p, x) G) = length G"
  using assms
proof (induction G)
  case (Cons g G)
  have "mset (reg_files (emplace p x (pg_paths g))) = add_mset (p, psize x) (mset (reg_files (pg_paths g)))"
    using mset_emplace [of p "pg_paths g" x] Cons.prems by (simp add: reg_files_def group_keys_def)
  with Cons show ?case by (auto simp: group_keys_def total_def full_def pg_put_def)
qed simp

lemma place_all_keeps:
  assumes "room gsz (reg_files ps) G" and "distinct (map fst ps)" and "set (map fst ps) \<inter> group_keys G = {}"
  shows "mset (groups_regs (fold (\<lambda>q gs. if is_regular_file (snd q) then place gsz q gs else gs) ps G)) = mset (groups_regs G) + mset (reg_files ps)"
  using assms
proof (induction ps arbitrary: G)
  case (Cons q ps)
  obtain p x where q: "q = (p, x)" by (cases q)
  show ?case
  proof (cases "is_regular_file x")
    case True
    have "\<exists>g \<in> set G. pg_size g < gsz"
    proof (rule ccontr)
      assume "\<not> ?thesis"
      then have "full gsz G = length G \<and> length G * gsz \<le> total G" by (intro total_full) (auto simp: not_less)
      then show False using Cons.prems(1) True q by (auto simp: room_def)
    qed
    then have *: "mset (groups_regs (place gsz (p, x) G)) = add_mset (p, psize x) (mset (groups_regs G)) \<and>
      group_keys (place gsz (p, x) G) = insert p (group_keys G) \<and> total (place gsz (p, x) G) = psize x + total G \<and>
      full gsz (place gsz (p, x) G) \<le> Suc (full gsz G) \<and> length (place gsz (p, x) G) = length G"
      using Cons.prems True q by (intro place_adds) auto
    then have "room gsz (reg_files ps) (place gsz (p, x) G)" using Cons.prems(1) True q by (auto simp: room_def)
    with * Cons.IH [of "place gsz (p, x) G"] Cons.prems(2,3) True q show ?thesis by auto
  next
    case False
    then show ?thesis using Cons q by simp
  qed
qed simp

lemma walk_size_regs: "walk_size ps = sum_list (map snd (reg_files ps))"
  by (induction ps) (auto simp: walk_size_def)

lemma kept_complete:
  assumes "tree_ok x" and "0 < partition_size (walk True (p, x)) n" 
    and "count_regular_files (walk True (p, x)) \<le> n \<or> walk_size (walk True (p, x)) < n * partition_size (walk True (p, x)) n"
  shows "length (kept (p, x) n) = count_regular_files (walk True (p, x))"
proof -
  let ?w = "walk True (p, x)" and ?gsz = "partition_size (walk True (p, x)) n"
  have m: "mset (reg_files (sort_by_size ?w)) = mset (reg_files ?w)" by (rule mset_reg_files_sort)
  have "total (replicate n PathGroup) = 0" "full ?gsz (replicate n PathGroup) = 0" "group_keys (replicate n PathGroup) = {}"
    using assms(2) by (auto simp: total_def full_def group_keys_def PathGroup_def sum_list_replicate)
  note start = this
  moreover have "sum_list (map snd (reg_files (sort_by_size ?w))) = walk_size ?w"
    using m walk_size_regs [of ?w] by (metis mset_map sum_mset_sum_list)
  moreover have "length (reg_files (sort_by_size ?w)) = count_regular_files ?w" using m by (metis length_reg_files size_mset)
  ultimately have "room ?gsz (reg_files (sort_by_size ?w)) (replicate n PathGroup)" using assms(3) by (auto simp: room_def)
  moreover have "distinct (map fst (sort_by_size ?w))"
  proof -
    have "mset (map fst (sort_by_size ?w)) = mset (map fst ?w)" by (simp add: sort_by_size_def)
    then show ?thesis using distinct_walk [OF assms(1)] mset_eq_imp_distinct_iff by blast
  qed
  ultimately have "mset (kept (p, x) n) = mset (reg_files (sort_by_size ?w))"
    using place_all_keeps [of ?gsz "sort_by_size ?w" "replicate n PathGroup"] start(3) by (simp add: kept_def place_all_def)
  then show ?thesis using m by (metis length_reg_files size_mset)
qed

section \<open>When it loses them\<close>

lemma readjust_none: "partition_size ps n = walk_size ps div n" if "length ps < n"
  using that by (simp add: partition_size_def)

lemma place_zero: "place 0 q G = G"
  by (induction G) simp_all

lemma kept_nothing: "partition_size (walk True q) n = 0 \<Longrightarrow> kept q n = []"
proof -
  assume z: "partition_size (walk True q) n = 0"
  have "fold (\<lambda>q gs. if is_regular_file (snd q) then place 0 q gs else gs) ps G = G" for ps G
    by (induction ps) (simp_all add: place_zero)
  with z show ?thesis by (simp add: kept_def place_all_def)
qed

section \<open>Properties\<close>

text \<open>
  C21: the size of the buffer does not matter. The checksum of a file that can be read is the digest of its whole
  contents in hexadecimal digits, for every digest that treats consecutive updates like one.
\<close>

theorem checksum_whole_file:
  assumes "streaming md" and "d path = Some \<lparr>st_data = data, st_bad = False\<rparr>" and "evp_new md" and "evp_init md = Some c0"
  shows "checksum_md md d path =
    (case evp_update md c0 data of
       None \<Rightarrow> Inl (Runtime_error ''EVP_DigestUpdate() failed'')
     | Some c \<Rightarrow> (case evp_final md c of
         None \<Rightarrow> Inl (Text_thrown ''EVP_DigestFinal() failed'')
       | Some bs \<Rightarrow> Inr (concat (map hex_byte bs))))"
  using assms by (simp add: checksum_md_def digest_init_def read_loop_whole [OF assms(1)] digest_update_def digest_final_def md_string_def split: option.splits)

text \<open>A digest for witnesses: the bytes of the data, each modulo 256.\<close>

definition plain_md :: "string evp" where
  "plain_md = \<lparr>evp_new = True, evp_init = Some [], evp_update = (\<lambda>c s. Some (c @ s)), evp_final = (\<lambda>c. Some (map of_char c))\<rparr>"

definition demo_disk :: disk where
  "demo_disk p = (if p = ''/d/x'' then None else Some \<lparr>st_data = p, st_bad = False\<rparr>)"

theorem checksum_whole_file_witness: "checksum_md plain_md demo_disk ''/a'' = Inr ''2f61''"
proof -
  have "streaming plain_md" by (simp add: streaming_def plain_md_def)
  from checksum_whole_file [OF this, of demo_disk "''/a''" "''/a''" "[]"] show ?thesis
    by (simp add: plain_md_def demo_disk_def hex_byte_def hex_char_def)
qed

text \<open>
  C22: a parallel checksum of a directory is the sequential one. For every number of threads and every course of
  the shared task counter, a digest that the parallel version returns is the digest the sequential version
  returns; a directory whose sequential digest exists is otherwise refused by the final comparison of counts.
\<close>

theorem parallel_checksum_sound:
  assumes "0 < n"
  shows "case parallel_directory_checksum md d others q n of
      (Inr c, left) \<Rightarrow> sequential_directory_checksum md d q = Inr c \<and> left = 0
    | (Inl e, left) \<Rightarrow> (\<exists>e'. sequential_directory_checksum md d q = Inl e') \<or>
        length (kept q n) < count_regular_files (walk True q) \<and> left = 0 \<and>
        e = mismatch (count_regular_files (walk True q)) (length (kept q n)) n"
proof -
  obtain r left where P: "parallel_directory_checksum md d others q n = (r, left)" by fastforce
  note R = parallel_runs [OF assms P]
  have sub: "mset (kept q n) \<subseteq># mset (reg_files (walk True q))" by (rule kept_subset)
  then have len: "length (kept q n) \<le> count_regular_files (walk True q)" by (metis length_reg_files size_mset size_mset_mono)
  have all: "set (kept q n) = set (reg_files (walk True q))" if "length (kept q n) = count_regular_files (walk True q)"
    using kept_all [OF that] by (metis set_mset_mset)
  have ok: "list_all (\<lambda>f. readable md d (fst f)) (kept q n)" if "sequential_directory_checksum md d q = Inr c" for c
    using that set_mset_mono [OF sub] by (auto simp: sequential_Inr list_all_iff)
  show ?thesis
  proof (cases r)
    case (Inl e)
    then show ?thesis using R len ok P all
      by (cases "sequential_directory_checksum md d q") (auto simp: sequential_Inr split: if_splits)
  next
    case (Inr c)
    then show ?thesis using R P all by (auto simp: sequential_Inr list_all_iff split: if_splits)
  qed
qed

definition demo_dir :: fnode where
  "demo_dir = Dir [(''a'', Reg 3), (''s'', Dir [(''b'', Reg 4), (''c'', Reg 5)])]"

theorem parallel_checksum_sound_witness:
  "\<exists>c. parallel_directory_checksum plain_md demo_disk (\<lambda>k. k) (''/d'', demo_dir) 2 = (Inr c, 0) \<and>
     sequential_directory_checksum plain_md demo_disk (''/d'', demo_dir) = Inr c"
proof -
  have "case parallel_directory_checksum plain_md demo_disk (\<lambda>k. k) (''/d'', demo_dir) 2 of (Inl e, left) \<Rightarrow> False | (Inr c, left) \<Rightarrow> True"
    unfolding demo_dir_def plain_md_def demo_disk_def by code_simp
  then show ?thesis using parallel_checksum_sound [where md = plain_md and d = demo_disk and others = "\<lambda>k. k" and q = "(''/d'', demo_dir)" and n = 2]
    by (auto split: prod.splits sum.splits)
qed

text \<open>
  When a parallel checksum succeeds. Where the size of a group is not zero, and there are no more files than
  groups or the groups together are larger than the files, no file is lost and the result is the sequential
  checksum, under any course of the task counter.
\<close>

lemma parallel_checksum_complete:
  assumes "tree_ok x" and "0 < n" and "0 < partition_size (walk True (p, x)) n"
    and "count_regular_files (walk True (p, x)) \<le> n \<or> walk_size (walk True (p, x)) < n * partition_size (walk True (p, x)) n"
    and "sequential_directory_checksum md d (p, x) = Inr c"
  shows "parallel_directory_checksum md d others (p, x) n = (Inr c, 0)"
proof -
  obtain r left where P: "parallel_directory_checksum md d others (p, x) n = (r, left)" by fastforce
  have l: "length (kept (p, x) n) = count_regular_files (walk True (p, x))" by (rule kept_complete [OF assms(1,3,4)])
  from kept_all [OF l] have "set (kept (p, x) n) = set (reg_files (walk True (p, x)))" by (metis set_mset_mset)
  with parallel_runs [OF assms(2) P] l assms(5) P show ?thesis by (auto simp: sequential_Inr list_all_iff)
qed

lemma parallel_checksum_complete_witness:
  "\<exists>c. sequential_directory_checksum plain_md demo_disk (''/d'', demo_dir) = Inr c \<and>
     parallel_directory_checksum plain_md demo_disk (\<lambda>k. 7) (''/d'', demo_dir) 3 = (Inr c, 0)"
proof -
  have "case sequential_directory_checksum plain_md demo_disk (''/d'', demo_dir) of Inl e \<Rightarrow> False | Inr c \<Rightarrow> True"
    unfolding demo_dir_def plain_md_def demo_disk_def by code_simp
  then obtain c where c: "sequential_directory_checksum plain_md demo_disk (''/d'', demo_dir) = Inr c" by (auto split: sum.splits)
  have "tree_ok demo_dir" "0 < partition_size (walk True (''/d'', demo_dir)) 3" "count_regular_files (walk True (''/d'', demo_dir)) \<le> 3"
    unfolding demo_dir_def by code_simp+
  with parallel_checksum_complete [of demo_dir 3 "''/d''" plain_md demo_disk c "\<lambda>k. 7"] c show ?thesis by auto
qed

text \<open>
  A small directory has no parallel checksum. When the files together have fewer bytes than there are threads
  and there are fewer entries than threads, the size of a group is zero, no file is placed in any group, and the
  call fails with a mismatch of counts, whatever the files hold.
\<close>

lemma small_directory_refused:
  assumes "walk_size (walk True q) < n" and "length (walk True q) < n" and "0 < count_regular_files (walk True q)"
  shows "parallel_directory_checksum md d others q n = (Inl (mismatch (count_regular_files (walk True q)) 0 n), 0)"
proof -
  obtain r left where P: "parallel_directory_checksum md d others q n = (r, left)" by fastforce
  have "kept q n = []" using readjust_none [OF assms(2)] assms(1) by (intro kept_nothing) simp
  with parallel_runs [of n md d others q r left] P assms show ?thesis by simp
qed

lemma small_directory_refused_witness:
  "parallel_directory_checksum plain_md demo_disk (\<lambda>k. 0) (''/d'', Dir [(''a'', Reg 100)]) 256 = (Inl (mismatch 1 0 256), 0)"
  using small_directory_refused [of "(''/d'', Dir [(''a'', Reg 100)])" 256 plain_md demo_disk "\<lambda>k. 0"]
  by (simp add: walk_size_def count_regular_files_def)

text \<open>
  A failing parallel checksum keeps its share of the task counter. When a file of the partition cannot be
  read, and the counter allowed at least one task, the exception passes the loop that would decrement the
  counter: it stays raised for the rest of the process.
\<close>

lemma task_counter_leaks:
  assumes "0 < n" and "others 0 < n" and "\<not> list_all (\<lambda>f. readable md d (fst f)) (kept q n)"
  shows "\<exists>e left. parallel_directory_checksum md d others q n = (Inl e, left) \<and> 0 < left"
proof -
  obtain r left where P: "parallel_directory_checksum md d others q n = (r, left)" by fastforce
  from parallel_runs [OF assms(1) P] assms(2,3) P show ?thesis by auto
qed

lemma task_counter_leaks_witness:
  "\<exists>e left. parallel_directory_checksum plain_md demo_disk (\<lambda>k. 0) (''/d'', Dir [(''x'', Reg 100)]) 2 = (Inl e, left) \<and> 0 < left"
proof (rule task_counter_leaks)
  have "kept (''/d'', Dir [(''x'', Reg 100)]) 2 = [(''/d/x'', 100)]" by code_simp
  then show "\<not> list_all (\<lambda>f. readable plain_md demo_disk (fst f)) (kept (''/d'', Dir [(''x'', Reg 100)]) 2)"
    by (simp add: readable_def checksum_md_def demo_disk_def)
qed simp_all

end
