(* ===== verification/Rpc_Client.thy ===== *)
theory Rpc_Client
  imports Json_Value Utils
begin

text \<open>
  \<open>src/utils/rpcclient.cc\<close>: calls to other processes over MQTT. Several threads may call at the same time, and
  the replies arrive on the listening thread of the transport; nothing locks the table of promises. The model
  has one step per action that can be interleaved with those of another thread: starting a call up to its
  publication, the arrival of a message, the end of \<open>wait_for\<close>, and what \<open>call\<close> does after it.
\<close>

section \<open>State and operations\<close>

text \<open>
  \<open>Expired\<close> is a call whose \<open>wait_for\<close> has timed out and that has not yet erased its entry. A promise is known by
  the number of the call whose future it feeds.
\<close>

datatype outcome = Waiting | Ready json | Expired | Returned json | Thrown exn

record call =
  c_corr :: string
  c_params :: json
  c_verbose :: bool
  c_state :: outcome

text \<open>
  \<open>rc_sent\<close> and \<open>rc_seen\<close> only record what happened: the published messages, and the arrived ones with the call
  that was found for them.
\<close>

record rpc_client =
  rc_queue :: string
  rc_rand :: rand
  rc_promises :: "(string, nat) stdmap"
  rc_calls :: "call list"
  rc_sent :: "(string \<times> json) list"
  rc_seen :: "(json \<times> nat option) list"

definition RpcClient :: "rand \<Rightarrow> rpc_client" where
  "RpcClient r =
     \<lparr>rc_queue = ''rpc-res/'' @ guid_of r, rc_rand = after_guid r, rc_promises = [], rc_calls = [], rc_sent = [], rc_seen = []\<rparr>"

definition rpc_topic :: "string \<Rightarrow> string" where
  "rpc_topic target = (if take 4 target \<noteq> ''rpc/'' then ''rpc/'' @ target else target)"

definition rpc_message :: "string \<Rightarrow> string \<Rightarrow> json \<Rightarrow> json" where
  "rpc_message corrid queue params = jobj [(''corr_id'', JStr corrid), (''reply_to'', JStr queue), (''body'', params)]"

definition call_start :: "string \<Rightarrow> json \<Rightarrow> bool \<Rightarrow> rpc_client \<Rightarrow> rpc_client" where
  "call_start target params verbose c =
     (let corrid = guid_of (rc_rand c);
          entry = (\<lambda>st. \<lparr>c_corr = corrid, c_params = params, c_verbose = verbose, c_state = st\<rparr>);
          c1 = c\<lparr>rc_rand := after_guid (rc_rand c)\<rparr>
      in if has_key (rc_promises c) corrid
         then c1\<lparr>rc_calls := rc_calls c @ [entry (Thrown (Runtime_error ''correlation id already exists in rpc call''))]\<rparr>
         else
           let c2 = c1\<lparr>rc_promises := emplace corrid (length (rc_calls c)) (rc_promises c)\<rparr>
           in if rpc_topic target = ''rpc/''
              then c2\<lparr>rc_calls := rc_calls c @ [entry (Thrown (Runtime_error ''RpcClient::call() empty target not allowed''))]\<rparr>
              else c2\<lparr>rc_calls := rc_calls c @ [entry Waiting],
                      rc_sent := rc_sent c @ [(rpc_topic target, rpc_message corrid (rc_queue c) params)]\<rparr>)"

definition set_call_state :: "nat \<Rightarrow> outcome \<Rightarrow> rpc_client \<Rightarrow> rpc_client" where
  "set_call_state n st c = c\<lparr>rc_calls := (rc_calls c)[n := (rc_calls c ! n)\<lparr>c_state := st\<rparr>]\<rparr>"

text \<open>\<open>set_value\<close> reaches the caller only while it waits.\<close>

definition set_value :: "nat \<Rightarrow> json \<Rightarrow> rpc_client \<Rightarrow> rpc_client" where
  "set_value n v c = (if c_state (rc_calls c ! n) = Waiting then set_call_state n (Ready v) c else c)"

definition rpcc_on_msg :: "json \<Rightarrow> rpc_client \<Rightarrow> (exn, rpc_client) result" where
  "rpcc_on_msg msg c =
     bind_r (opt_r Json_error (Option.bind (at_key msg ''corr_id'') asString)) (\<lambda>corr.
     case map_of (rc_promises c) corr of
       None \<Rightarrow> Inr (c\<lparr>rc_seen := rc_seen c @ [(msg, None)]\<rparr>)
     | Some n \<Rightarrow>
         bind_r (opt_r Json_error (at_key msg ''body'')) (\<lambda>body.
         Inr ((set_value n body c)\<lparr>rc_promises := erase corr (rc_promises c), rc_seen := rc_seen c @ [(msg, Some n)]\<rparr>)))"

definition timed_out :: "json \<Rightarrow> json" where
  "timed_out params = jobj [(''timed_out'', JBool True), (''error'', JStr ''rpc call timed out''), (''params'', params)]"

definition wait_expires :: "nat \<Rightarrow> rpc_client \<Rightarrow> rpc_client" where
  "wait_expires n = set_call_state n Expired"

text \<open>
  The rest of \<open>call\<close>: after a timeout the entry is erased through the iterator of its insertion, which is
  undefined when the listening thread has erased it in between; with \<open>verbose\<close> the future is read twice.
\<close>

definition call_leave :: "nat \<Rightarrow> rpc_client \<Rightarrow> rpc_client" where
  "call_leave n c =
     (let k = rc_calls c ! n
      in case c_state k of
           Expired \<Rightarrow>
             (if map_of (rc_promises c) (c_corr k) = Some n
              then set_call_state n (Returned (timed_out (c_params k))) (c\<lparr>rc_promises := erase (c_corr k) (rc_promises c)\<rparr>)
              else set_call_state n (Thrown Undefined) c)
         | Ready v \<Rightarrow> set_call_state n (if c_verbose k then Thrown Undefined else Returned v) c
         | _ \<Rightarrow> c)"

text \<open>All interleavings. A message that throws in \<open>on_msg\<close> ends the process and has no successor.\<close>

inductive rpc_step :: "rpc_client \<Rightarrow> rpc_client \<Rightarrow> bool" where
  step_call: "rpc_step c (call_start target params verbose c)"
| step_msg: "rpcc_on_msg msg c = Inr c' \<Longrightarrow> rpc_step c c'"
| step_timeout: "n < length (rc_calls c) \<Longrightarrow> c_state (rc_calls c ! n) = Waiting \<Longrightarrow> rpc_step c (wait_expires n c)"
| step_leave: "n < length (rc_calls c) \<Longrightarrow> rpc_step c (call_leave n c)"

inductive rpc_reach :: "rand \<Rightarrow> rpc_client \<Rightarrow> bool" for r where
  rpc_init: "rpc_reach r (RpcClient r)"
| rpc_next: "rpc_reach r c \<Longrightarrow> rpc_step c c' \<Longrightarrow> rpc_reach r c'"

inductive_cases rpc_stepE: "rpc_step c c'"

section \<open>Invariant\<close>

definition corr_of :: "json \<Rightarrow> string option" where
  "corr_of m = Option.bind (at_key m ''corr_id'') asString"

text \<open>The messages that were handed to a call.\<close>

definition handed :: "rpc_client \<Rightarrow> nat \<Rightarrow> json list" where
  "handed c n = map fst (filter (\<lambda>(m, k). k = Some n) (rc_seen c))"

text \<open>
  What is known of a call: while it waits its promise is in the table; an answer it has comes from the one
  message that was handed to it, which carries its correlation id.
\<close>

definition answers :: "json list \<Rightarrow> call \<Rightarrow> json \<Rightarrow> bool" where
  "answers ms k v \<longleftrightarrow> (\<exists>m. ms = [m] \<and> corr_of m = Some (c_corr k) \<and> at_key m ''body'' = Some v)"

fun state_ok :: "json list \<Rightarrow> bool \<Rightarrow> call \<Rightarrow> outcome \<Rightarrow> bool" where
  "state_ok ms registered k Waiting \<longleftrightarrow> registered \<and> ms = []"
| "state_ok ms registered k (Ready v) \<longleftrightarrow> \<not> registered \<and> answers ms k v"
| "state_ok ms registered k (Returned v) \<longleftrightarrow> (registered \<longrightarrow> ms = []) \<and> length ms \<le> 1 \<and> (v = timed_out (c_params k) \<or> answers ms k v)"
| "state_ok ms registered k _ \<longleftrightarrow> (registered \<longrightarrow> ms = []) \<and> length ms \<le> 1"

definition registered :: "rpc_client \<Rightarrow> nat \<Rightarrow> bool" where
  "registered c n \<longleftrightarrow> map_of (rc_promises c) (c_corr (rc_calls c ! n)) = Some n"

definition call_ok :: "rpc_client \<Rightarrow> nat \<Rightarrow> bool" where
  "call_ok c n \<longleftrightarrow> state_ok (handed c n) (registered c n) (rc_calls c ! n) (c_state (rc_calls c ! n))"

definition rpc_inv :: "rpc_client \<Rightarrow> bool" where
  "rpc_inv c \<longleftrightarrow> map_ok (rc_promises c) \<and>
     (\<forall>corr n. map_of (rc_promises c) corr = Some n \<longrightarrow> n < length (rc_calls c) \<and> c_corr (rc_calls c ! n) = corr) \<and>
     (\<forall>n. length (rc_calls c) \<le> n \<longrightarrow> handed c n = []) \<and>
     (\<forall>n < length (rc_calls c). call_ok c n)"

lemma rpc_invD:
  assumes "rpc_inv c"
  shows "map_ok (rc_promises c)" and "map_of (rc_promises c) corr = Some n \<Longrightarrow> n < length (rc_calls c)"
    and "map_of (rc_promises c) corr = Some n \<Longrightarrow> c_corr (rc_calls c ! n) = corr"
    and "length (rc_calls c) \<le> n \<Longrightarrow> handed c n = []" and "n < length (rc_calls c) \<Longrightarrow> call_ok c n"
  using assms by (auto simp: rpc_inv_def)

lemma set_call_state_simps [simp]:
  "rc_promises (set_call_state n st c) = rc_promises c" "rc_seen (set_call_state n st c) = rc_seen c"
  "length (rc_calls (set_call_state n st c)) = length (rc_calls c)" "handed (set_call_state n st c) k = handed c k"
  by (simp_all add: set_call_state_def handed_def)

lemma nth_set_call_state:
  "k < length (rc_calls c) \<Longrightarrow> rc_calls (set_call_state n st c) ! k = (if k = n then (rc_calls c ! n)\<lparr>c_state := st\<rparr> else rc_calls c ! k)"
  by (simp add: set_call_state_def nth_list_update)

lemma call_ok_cong:
  assumes "rc_calls c' ! n = rc_calls c ! n" and "handed c' n = handed c n" and "registered c' n \<longleftrightarrow> registered c n"
  shows "call_ok c' n = call_ok c n"
  using assms by (simp add: call_ok_def)

text \<open>A new call takes the next number, and at most one new promise, under an unused id.\<close>

lemma inv_call: "rpc_inv c \<Longrightarrow> rpc_inv (call_start target params verbose c)"
proof -
  assume inv: "rpc_inv c"
  let ?c = "call_start target params verbose c" and ?n = "length (rc_calls c)" and ?g = "guid_of (rc_rand c)"
  define k where "k = last (rc_calls ?c)"
  note defs = call_start_def Let_def has_key_def k_def
  have calls: "rc_calls ?c = rc_calls c @ [k]" and seen: "rc_seen ?c = rc_seen c" by (simp_all add: defs)
  have prom: "map_of (rc_promises ?c) q = (if q = ?g \<and> \<not> has_key (rc_promises c) ?g then Some ?n else map_of (rc_promises c) q)" for q
    using rpc_invD(1) [OF inv] by (auto simp: defs)
  have k: "c_corr k = ?g" "c_state k = Waiting \<Longrightarrow> map_of (rc_promises ?c) ?g = Some ?n" "\<And>v. c_state k \<noteq> Ready v \<and> c_state k \<noteq> Returned v"
    using rpc_invD(1) [OF inv] by (auto simp: defs)
  have ok: "map_ok (rc_promises ?c)" using rpc_invD(1) [OF inv] by (simp add: defs)
  have handed: "handed ?c m = handed c m" for m by (simp add: handed_def seen)
  have old: "call_ok ?c m" if "m < ?n" for m
  proof -
    have "call_ok ?c m = call_ok c m"
    proof (rule call_ok_cong)
      show "registered ?c m \<longleftrightarrow> registered c m" using that by (auto simp: registered_def calls nth_append prom has_key_def)
    qed (use that calls handed in \<open>simp_all add: nth_append\<close>)
    with rpc_invD(5) [OF inv that] show ?thesis by simp
  qed
  have new: "call_ok ?c ?n"
    using k rpc_invD(4) [OF inv, of ?n] by (cases "c_state k") (auto simp: call_ok_def registered_def calls handed)
  show ?thesis unfolding rpc_inv_def
  proof (intro conjI allI impI)
    show "map_ok (rc_promises ?c)" by (rule ok)
    fix q m assume "map_of (rc_promises ?c) q = Some m"
    with k(1) show "m < length (rc_calls ?c)" "c_corr (rc_calls ?c ! m) = q"
      using rpc_invD(2,3) [OF inv, of q m] by (auto simp: prom calls nth_append split: if_splits)
  next
    fix m assume "length (rc_calls ?c) \<le> m"
    then show "handed ?c m = []" using rpc_invD(4) [OF inv, of m] by (simp add: calls handed)
  next
    fix m assume "m < length (rc_calls ?c)"
    then show "call_ok ?c m" using old new by (cases "m = ?n") (simp_all add: calls)
  qed
qed

text \<open>Changing the state of one call, which may lose its promise and be handed a message.\<close>

lemma inv_change:
  assumes "rpc_inv c" and "n < length (rc_calls c)" and "list_all (\<lambda>(m, k). k = Some n) ms"
    and "ps = rc_promises c \<or> ps = erase (c_corr (rc_calls c ! n)) (rc_promises c) \<and> registered c n"
    and "state_ok (handed c n @ map fst ms) (map_of ps (c_corr (rc_calls c ! n)) = Some n) (rc_calls c ! n) st"
  shows "rpc_inv ((set_call_state n st c)\<lparr>rc_promises := ps, rc_seen := rc_seen c @ ms\<rparr>)"
proof -
  let ?c = "(set_call_state n st c)\<lparr>rc_promises := ps, rc_seen := rc_seen c @ ms\<rparr>"
  have ok: "map_ok ps" using assms(4) rpc_invD(1) [OF assms(1)] by auto
  have sub: "map_of (rc_promises c) q = Some m" if "map_of ps q = Some m" for q m
    using that assms(4) rpc_invD(1) [OF assms(1)] by (auto split: if_splits)
  have handed: "handed ?c m = handed c m" if "m \<noteq> n" for m
    using assms(3) that by (auto simp: handed_def list_all_iff filter_empty_conv)
  have old: "call_ok ?c m" if "m < length (rc_calls c)" "m \<noteq> n" for m
  proof -
    have "call_ok ?c m = call_ok c m"
    proof (rule call_ok_cong)
      show "registered ?c m \<longleftrightarrow> registered c m"
        using assms(4) that rpc_invD(1) [OF assms(1)] by (auto simp: registered_def nth_set_call_state split: if_splits)
    qed (use that handed in \<open>simp_all add: nth_set_call_state\<close>)
    with rpc_invD(5) [OF assms(1) that(1)] show ?thesis by simp
  qed
  have "filter (\<lambda>(m, k). k = Some n) ms = ms" using assms(3) by (auto simp: list_all_iff filter_id_conv)
  then have "handed ?c n = handed c n @ map fst ms" by (simp add: handed_def)
  moreover have "state_ok H r (k\<lparr>c_state := st\<rparr>) st = state_ok H r k st" for H r k by (cases st) (simp_all add: answers_def)
  ultimately have new: "call_ok ?c n" using assms(2,5) by (simp add: call_ok_def registered_def nth_set_call_state)
  show ?thesis unfolding rpc_inv_def
  proof (intro conjI allI impI)
    show "map_ok (rc_promises ?c)" using ok by simp
    fix q m assume "map_of (rc_promises ?c) q = Some m"
    with sub have "map_of (rc_promises c) q = Some m" by simp
    with rpc_invD(2,3) [OF assms(1) this] show "m < length (rc_calls ?c)" "c_corr (rc_calls ?c ! m) = q"
      by (auto simp: nth_set_call_state)
  next
    fix m assume "length (rc_calls ?c) \<le> m"
    then show "handed ?c m = []" using rpc_invD(4) [OF assms(1), of m] assms(2) handed [of m] by auto
  next
    fix m assume "m < length (rc_calls ?c)"
    then show "call_ok ?c m" using old new by (cases "m = n") simp_all
  qed
qed

lemma set_call_state_id: "set_call_state n (c_state (rc_calls c ! n)) c = c"
  by (simp add: set_call_state_def)

lemma inv_set_call_state:
  assumes "rpc_inv c" and "n < length (rc_calls c)" and "state_ok (handed c n) (registered c n) (rc_calls c ! n) st"
  shows "rpc_inv (set_call_state n st c)"
proof -
  have "set_call_state n st c = (set_call_state n st c)\<lparr>rc_promises := rc_promises c, rc_seen := rc_seen c @ []\<rparr>" by (simp add: set_call_state_def)
  also have "rpc_inv \<dots>" using assms by (intro inv_change) (simp_all add: registered_def)
  finally show ?thesis .
qed

lemma inv_timeout: "rpc_inv c \<Longrightarrow> n < length (rc_calls c) \<Longrightarrow> c_state (rc_calls c ! n) = Waiting \<Longrightarrow> rpc_inv (wait_expires n c)"
  using rpc_invD(5) [of c n] by (auto simp: wait_expires_def call_ok_def intro!: inv_set_call_state)

lemma inv_leave:
  assumes "rpc_inv c" and "n < length (rc_calls c)"
  shows "rpc_inv (call_leave n c)"
proof (cases "c_state (rc_calls c ! n)")
  case (Ready v)
  with rpc_invD(5) [OF assms] have "\<not> registered c n" "answers (handed c n) (rc_calls c ! n) v" by (simp_all add: call_ok_def)
  with Ready assms show ?thesis by (auto simp: call_leave_def Let_def answers_def intro!: inv_set_call_state)
next
  case Expired
  with rpc_invD(5) [OF assms] have H: "registered c n \<Longrightarrow> handed c n = []" "length (handed c n) \<le> 1" by (auto simp: call_ok_def)
  let ?k = "rc_calls c ! n" and ?ps = "erase (c_corr (rc_calls c ! n)) (rc_promises c)"
  show ?thesis
  proof (cases "registered c n")
    case True
    have "rpc_inv ((set_call_state n (Returned (timed_out (c_params ?k))) c)\<lparr>rc_promises := ?ps, rc_seen := rc_seen c @ []\<rparr>)"
      using True assms H rpc_invD(1) [OF assms(1)] by (intro inv_change) simp_all
    also have "(set_call_state n (Returned (timed_out (c_params ?k))) c)\<lparr>rc_promises := ?ps, rc_seen := rc_seen c @ []\<rparr> = call_leave n c"
      using Expired True by (simp add: call_leave_def Let_def registered_def set_call_state_def)
    finally show ?thesis .
  next
    case False
    then have "call_leave n c = set_call_state n (Thrown Undefined) c" using Expired by (simp add: call_leave_def Let_def registered_def)
    with False H(2) assms show ?thesis by (simp add: inv_set_call_state)
  qed
qed (use assms in \<open>simp_all add: call_leave_def Let_def\<close>)

lemma inv_msg:
  assumes "rpc_inv c" and "rpcc_on_msg msg c = Inr c'"
  shows "rpc_inv c'"
proof -
  from assms(2) obtain corr where corr: "corr_of msg = Some corr"
    and rest: "(case map_of (rc_promises c) corr of None \<Rightarrow> Inr (c\<lparr>rc_seen := rc_seen c @ [(msg, None)]\<rparr>)
      | Some n \<Rightarrow> bind_r (opt_r Json_error (at_key msg ''body'')) (\<lambda>body. Inr ((set_value n body c)\<lparr>rc_promises := erase corr (rc_promises c), rc_seen := rc_seen c @ [(msg, Some n)]\<rparr>)))
      = Inr c'"
    by (auto simp: rpcc_on_msg_def corr_of_def bind_r_Inr_iff)
  show ?thesis
  proof (cases "map_of (rc_promises c) corr")
    case None
    with rest have c': "c' = c\<lparr>rc_seen := rc_seen c @ [(msg, None)]\<rparr>" by simp
    have "handed c' n = handed c n" for n by (simp add: c' handed_def)
    with assms(1) show ?thesis by (simp add: rpc_inv_def call_ok_def registered_def c')
  next
    case (Some n)
    with rest obtain body where body: "at_key msg ''body'' = Some body"
      and c': "c' = (set_value n body c)\<lparr>rc_promises := erase corr (rc_promises c), rc_seen := rc_seen c @ [(msg, Some n)]\<rparr>" by auto
    have n: "n < length (rc_calls c)" "c_corr (rc_calls c ! n) = corr" "registered c n"
      using rpc_invD(2,3) [OF assms(1) Some] Some by (simp_all add: registered_def)
    let ?st = "if c_state (rc_calls c ! n) = Waiting then Ready body else c_state (rc_calls c ! n)"
    have "state_ok (handed c n @ [msg]) False (rc_calls c ! n) ?st"
      using rpc_invD(5) [OF assms(1) n(1)] n corr body by (cases "c_state (rc_calls c ! n)") (auto simp: call_ok_def answers_def)
    with assms(1) n rpc_invD(1) [OF assms(1)]
    have "rpc_inv ((set_call_state n ?st c)\<lparr>rc_promises := erase corr (rc_promises c), rc_seen := rc_seen c @ [(msg, Some n)]\<rparr>)"
      by (intro inv_change) auto
    moreover have "set_call_state n ?st c = set_value n body c" by (simp add: set_value_def set_call_state_id)
    ultimately show ?thesis by (simp add: c')
  qed
qed

lemma rpc_reach_inv: "rpc_reach r c \<Longrightarrow> rpc_inv c"
proof (induction rule: rpc_reach.induct)
  case rpc_init
  then show ?case by (simp add: rpc_inv_def RpcClient_def handed_def)
next
  case (rpc_next c c')
  from rpc_next.hyps(2) rpc_next.IH show ?case by (auto elim!: rpc_stepE intro: inv_call inv_msg inv_timeout inv_leave)
qed

section \<open>Runs\<close>

text \<open>Courses of events that can be evaluated.\<close>

datatype rpc_event = E_call string json bool | E_msg json | E_timeout nat | E_leave nat

fun rpc_exec :: "rpc_event \<Rightarrow> rpc_client \<Rightarrow> rpc_client option" where
  "rpc_exec (E_call target params verbose) c = Some (call_start target params verbose c)"
| "rpc_exec (E_msg msg) c = (case rpcc_on_msg msg c of Inl e \<Rightarrow> None | Inr c' \<Rightarrow> Some c')"
| "rpc_exec (E_timeout n) c = (if n < length (rc_calls c) \<and> c_state (rc_calls c ! n) = Waiting then Some (wait_expires n c) else None)"
| "rpc_exec (E_leave n) c = (if n < length (rc_calls c) then Some (call_leave n c) else None)"

fun rpc_run :: "rpc_event list \<Rightarrow> rpc_client \<Rightarrow> rpc_client option" where
  "rpc_run [] c = Some c"
| "rpc_run (e # es) c = Option.bind (rpc_exec e c) (rpc_run es)"

lemma rpc_exec_step: "rpc_exec e c = Some c' \<Longrightarrow> rpc_step c c'"
  by (cases e) (auto intro: rpc_step.intros split: if_splits sum.splits)

lemma rpc_run_reach: "rpc_reach r c \<Longrightarrow> rpc_run es c = Some c' \<Longrightarrow> rpc_reach r c'"
  by (induction es arbitrary: c) (auto simp: bind_eq_Some_conv intro: rpc_next dest: rpc_exec_step)

section \<open>Properties\<close>

text \<open>
  C26: replies do not get mixed up. In every reachable state, under any interleaving of calls, replies and
  timeouts, a call that has returned has returned the timeout notice for its own parameters, or the body of
  a message with its own correlation id, and that is the only message any call was answered with for it. Calls
  that wait at the same time have different correlation ids.
\<close>

theorem rpc_replies_match:
  assumes "rpc_reach r c" and "n < length (rc_calls c)"
  shows "(\<forall>v. c_state (rc_calls c ! n) = Returned v \<longrightarrow> v = timed_out (c_params (rc_calls c ! n)) \<or>
      (\<exists>m. handed c n = [m] \<and> corr_of m = Some (c_corr (rc_calls c ! n)) \<and> at_key m ''body'' = Some v)) \<and>
    (\<forall>k < length (rc_calls c). c_state (rc_calls c ! n) = Waiting \<and> c_state (rc_calls c ! k) = Waiting \<and>
      c_corr (rc_calls c ! n) = c_corr (rc_calls c ! k) \<longrightarrow> n = k)"
proof (intro conjI allI impI)
  note inv = rpc_reach_inv [OF assms(1)]
  fix v assume "c_state (rc_calls c ! n) = Returned v"
  with rpc_invD(5) [OF inv assms(2)] show "v = timed_out (c_params (rc_calls c ! n)) \<or>
      (\<exists>m. handed c n = [m] \<and> corr_of m = Some (c_corr (rc_calls c ! n)) \<and> at_key m ''body'' = Some v)"
    by (auto simp: call_ok_def answers_def)
next
  note inv = rpc_reach_inv [OF assms(1)]
  fix k assume k: "k < length (rc_calls c)" and
    w: "c_state (rc_calls c ! n) = Waiting \<and> c_state (rc_calls c ! k) = Waiting \<and> c_corr (rc_calls c ! n) = c_corr (rc_calls c ! k)"
  from rpc_invD(5) [OF inv assms(2)] rpc_invD(5) [OF inv k] w show "n = k" by (simp add: call_ok_def registered_def)
qed

definition demo_reply :: json where
  "demo_reply = jobj [(''corr_id'', JStr ''0004-0005-0006-0007''), (''body'', JInt 7)]"

definition demo_answered :: rpc_client where
  "demo_answered = (case rpc_run [E_call ''dtn'' JNull False, E_msg demo_reply, E_leave 0] (RpcClient int) of Some c \<Rightarrow> c)"

theorem rpc_replies_match_witness:
  "c_state (rc_calls demo_answered ! 0) = Returned (JInt 7) \<and> handed demo_answered 0 = [demo_reply] \<and>
   corr_of demo_reply = Some (c_corr (rc_calls demo_answered ! 0))"
proof -
  have "case rpc_run [E_call ''dtn'' JNull False, E_msg demo_reply, E_leave 0] (RpcClient int) of None \<Rightarrow> False | Some c \<Rightarrow> True" by code_simp
  then have run: "rpc_run [E_call ''dtn'' JNull False, E_msg demo_reply, E_leave 0] (RpcClient int) = Some demo_answered"
    by (simp add: demo_answered_def split: option.splits)
  have st: "c_state (rc_calls demo_answered ! 0) = Returned (JInt 7)" "c_params (rc_calls demo_answered ! 0) = JNull" "length (rc_calls demo_answered) = 1"
    unfolding demo_answered_def by code_simp+
  have "JInt 7 \<noteq> timed_out JNull" by code_simp
  with rpc_replies_match [OF rpc_run_reach [OF rpc_init run], of 0] st obtain m where
    m: "handed demo_answered 0 = [m]" "corr_of m = Some (c_corr (rc_calls demo_answered ! 0))" by auto
  moreover have "handed demo_answered 0 = [demo_reply]" unfolding demo_answered_def by code_simp
  ultimately show ?thesis using st by simp
qed

text \<open>
  A late reply can corrupt the table of promises. There is a course of events in which the reply arrives
  after \<open>wait_for\<close> has timed out and before the caller erases its entry: the listening thread erases the entry
  first, and the caller erases through an iterator that is no longer valid.
\<close>

lemma rpc_timeout_race:
  "\<exists>c. rpc_reach int c \<and> c_state (rc_calls c ! 0) = Thrown Undefined \<and> \<not> c_verbose (rc_calls c ! 0) \<and> length (rc_calls c) = 1"
proof -
  let ?es = "[E_call ''dtn'' JNull False, E_timeout 0, E_msg demo_reply, E_leave 0]"
  have "case rpc_run ?es (RpcClient int) of None \<Rightarrow> False
    | Some c \<Rightarrow> c_state (rc_calls c ! 0) = Thrown Undefined \<and> \<not> c_verbose (rc_calls c ! 0) \<and> length (rc_calls c) = 1" by code_simp
  then obtain c where "rpc_run ?es (RpcClient int) = Some c" "c_state (rc_calls c ! 0) = Thrown Undefined"
    "\<not> c_verbose (rc_calls c ! 0)" "length (rc_calls c) = 1" by (auto split: option.splits)
  then show ?thesis using rpc_run_reach [OF rpc_init] by blast
qed

end
