(* ===== verification/Grid_Map.thy ===== *)
theory Grid_Map
  imports Utils "HOL-Library.Multiset"
begin

text \<open>
  \<open>src/utils/grid-mapfile.cc\<close>: the file that maps the names of certificates to local accounts. The section of the
  file between two markers belongs to BDE; pushing replaces it, reading parses the whole file.
\<close>

section \<open>Lines\<close>

definition BEGIN_MARKER :: string where "BEGIN_MARKER = ''## BEGIN-BDE-SECTION''"
definition END_MARKER :: string where "END_MARKER = ''## END-BDE-SECTION''"

text \<open>\<open>std::getline\<close> until the end of the file: the pieces between line ends, without an empty last one.\<close>

function getlines :: "string \<Rightarrow> string list" where
  "getlines s =
     (if s = [] then []
      else takeWhile (\<lambda>c. c \<noteq> CHR 0x0A) s # getlines (drop 1 (dropWhile (\<lambda>c. c \<noteq> CHR 0x0A) s)))"
  by pat_completeness auto
termination
proof (relation "measure length")
  fix s :: string assume "s \<noteq> []"
  then have "length (drop 1 (dropWhile (\<lambda>c. c \<noteq> CHR 0x0A) s)) < length s"
    using length_dropWhile_le [of "\<lambda>c. c \<noteq> CHR 0x0A" s] by (cases s) (auto simp: less_Suc_eq_le le_diff_conv)
  then show "(drop 1 (dropWhile (\<lambda>c. c \<noteq> CHR 0x0A) s), s) \<in> measure length" by simp
qed simp

declare getlines.simps [simp del]

definition write_lines :: "string list \<Rightarrow> string" where
  "write_lines ls = concat (map (\<lambda>l. l @ [CHR 0x0A]) ls)"

definition trim_left :: "string \<Rightarrow> string" where
  "trim_left s = dropWhile is_space s"

definition trim_right :: "string \<Rightarrow> string" where
  "trim_right s = rev (dropWhile is_space (rev s))"

definition trim :: "string \<Rightarrow> string" where
  "trim s = trim_right (trim_left s)"

definition has_quoted_dn :: "string \<Rightarrow> bool" where
  "has_quoted_dn line \<longleftrightarrow> take 1 line = [CHR 0x22]"

definition is_comment_line :: "string \<Rightarrow> bool" where
  "is_comment_line line \<longleftrightarrow> take 1 line = ''#''"

definition is_begin_marker :: "string \<Rightarrow> bool" where
  "is_begin_marker line \<longleftrightarrow> take (length BEGIN_MARKER) line = BEGIN_MARKER"

definition is_end_marker :: "string \<Rightarrow> bool" where
  "is_end_marker line \<longleftrightarrow> take (length END_MARKER) line = END_MARKER"

definition quote :: "string \<Rightarrow> string" where
  "quote s = [CHR 0x22] @ s @ [CHR 0x22]"

text \<open>\<open>split_string\<close> on one line: the non-empty pieces between delimiters.\<close>

function split_string :: "string \<Rightarrow> string \<Rightarrow> string list" where
  "split_string s delim =
     (if s = [] then []
      else
        let piece = takeWhile (\<lambda>c. c \<notin> set delim) s; rest = drop 1 (dropWhile (\<lambda>c. c \<notin> set delim) s)
        in (if piece = [] then [] else [piece]) @ split_string rest delim)"
  by pat_completeness auto
termination
proof (relation "measure (length \<circ> fst)")
  fix s delim :: string and piece rest assume "s \<noteq> []" and r: "rest = drop 1 (dropWhile (\<lambda>c. c \<notin> set delim) s)"
  then show "((rest, delim), s, delim) \<in> measure (length \<circ> fst)"
    using length_dropWhile_le [of "\<lambda>c. c \<notin> set delim" s] by (cases s) (auto simp: less_Suc_eq_le le_diff_conv)
qed simp

declare split_string.simps [simp del]

section \<open>Entries\<close>

text \<open>\<open>std::multimap\<close>: sorted by key, a new pair behind those of the same key.\<close>

type_synonym gridmap = "(string \<times> string) list"

fun mm_emplace :: "string \<Rightarrow> string \<Rightarrow> gridmap \<Rightarrow> gridmap" where
  "mm_emplace k v [] = [(k, v)]"
| "mm_emplace k v ((k', v') # m) = (if k < k' then (k, v) # (k', v') # m else (k', v') # mm_emplace k v m)"

text \<open>What reading has found so far, and whether it is outside the section of BDE.\<close>

record map_scan =
  gs_system :: bool
  system_entries :: gridmap
  bde_entries :: gridmap

definition add_entry :: "string \<Rightarrow> string \<Rightarrow> map_scan \<Rightarrow> map_scan" where
  "add_entry dn acct s =
     (if gs_system s then s\<lparr>system_entries := mm_emplace dn acct (system_entries s)\<rparr>
      else s\<lparr>bde_entries := mm_emplace dn acct (bde_entries s)\<rparr>)"

text \<open>
  One line. The entry of an unquoted line is read at the positions 1 and 2 of its two parts: there is no
  position 2, so \<open>at\<close> throws.
\<close>

definition scan_line :: "string \<Rightarrow> map_scan \<Rightarrow> (exn, map_scan) result" where
  "scan_line l s =
     (let line = trim l;
          s1 = (if is_begin_marker line then s\<lparr>gs_system := False\<rparr> else s);
          s2 = (if is_end_marker line then s1\<lparr>gs_system := True\<rparr> else s1)
      in if line = [] \<or> is_comment_line line then Inr s2
         else if has_quoted_dn line then
           (let v = split_string line [CHR 0x22]
            in if length v = 2 then Inr (add_entry (v ! 0) (trim (v ! 1)) s2)
               else Inl (Runtime_error (''malformed line: '' @ quote line)))
         else
           (let v = split_string line [CHR '' '', CHR 0x09, CHR 0x0A]
            in if length v = 2 then Inl Out_of_range
               else Inl (Runtime_error (''malformed line: '' @ quote line))))"

definition scan_lines :: "string list \<Rightarrow> (exn, map_scan) result" where
  "scan_lines ls = fold_r scan_line ls \<lparr>gs_system = True, system_entries = [], bde_entries = []\<rparr>"

section \<open>The file\<close>

text \<open>
  The real name of the map file, the map file, the backup and the working file; \<open>None\<close> is a file that does not
  exist. Error messages are shortened: the code adds file names and the text of \<open>errno\<close>. The two calls of
  \<open>rename\<close> may fail; \<open>vcap n\<close> is the capacity of a \<open>std::vector\<close> after \<open>n\<close> calls of \<open>emplace_back\<close>.
\<close>

record mapfiles =
  gm_name :: string
  gm_file :: "string option"
  gm_save :: "string option"
  gm_work :: "string option"

definition grid_mapfile_get_entries :: "mapfiles \<Rightarrow> (exn, gridmap \<times> gridmap) result" where
  "grid_mapfile_get_entries fs =
     (case gm_file fs of
        None \<Rightarrow> Inl (Runtime_error ''realpath error'')
      | Some content \<Rightarrow> bind_r (scan_lines (getlines content)) (\<lambda>s. Inr (system_entries s, bde_entries s)))"

text \<open>The positions of the markers, as \<open>std::find\<close> finds them.\<close>

definition before :: "string \<Rightarrow> string list \<Rightarrow> string list" where
  "before x ls = takeWhile (\<lambda>l. l \<noteq> x) ls"

definition from_on :: "string \<Rightarrow> string list \<Rightarrow> string list" where
  "from_on x ls = dropWhile (\<lambda>l. l \<noteq> x) ls"

text \<open>
  The new lines. \<open>insert\<close> through \<open>beginp\<close> is undefined once an earlier insertion has outgrown the capacity.
\<close>

definition replace_section :: "(nat \<Rightarrow> nat) \<Rightarrow> gridmap \<Rightarrow> string list \<Rightarrow> (exn, string list) result" where
  "replace_section vcap entries ls =
     (let tail = from_on BEGIN_MARKER ls
      in if tail = [] then
           Inr (ls @ [BEGIN_MARKER] @ map (\<lambda>(dn, acct). dn @ '' '' @ acct) entries @ [END_MARKER])
         else
           let endp = from_on END_MARKER tail;
               kept = length (before BEGIN_MARKER ls) + 1 + length endp
           in if endp = [] then Inl (Runtime_error ''Could not find end marker'')
              else if vcap (length ls) + 1 < kept + length entries then Inl Undefined
              else Inr (before BEGIN_MARKER ls @ [BEGIN_MARKER] @ map (\<lambda>(dn, acct). quote dn @ '' '' @ acct) entries @ endp))"

definition grid_mapfile_push_entries ::
    "(nat \<Rightarrow> nat) \<Rightarrow> bool \<Rightarrow> bool \<Rightarrow> gridmap \<Rightarrow> mapfiles \<Rightarrow> (exn, unit) result \<times> mapfiles" where
  "grid_mapfile_push_entries vcap rename1 rename2 entries fs =
     (case gm_file fs of
        None \<Rightarrow>
          (Inr (), fs\<lparr>gm_file := Some (write_lines ([BEGIN_MARKER] @ map (\<lambda>(dn, acct). dn @ '' '' @ acct) entries @ [END_MARKER]))\<rparr>)
      | Some content \<Rightarrow>
          (case replace_section vcap entries (getlines content) of
             Inl e \<Rightarrow> (Inl e, fs)
           | Inr ls \<Rightarrow>
               let fs1 = fs\<lparr>gm_work := Some (write_lines ls)\<rparr>
               in if \<not> rename1 then (Inl (Runtime_error ''Error renaming''), fs1)
                  else
                    let fs2 = fs1\<lparr>gm_save := gm_file fs1, gm_file := None\<rparr>
                    in if \<not> rename2 then (Inl (Runtime_error ''Error renaming''), fs2)
                       else (Inr (), fs2\<lparr>gm_file := gm_work fs2, gm_work := None\<rparr>)))"

section \<open>Reading what was written\<close>

lemma getlines_Nil [simp]: "getlines [] = []"
  by (simp add: getlines.simps)

lemma takeWhile_end: "CHR 0x0A \<notin> set l \<Longrightarrow> takeWhile (\<lambda>c. c \<noteq> CHR 0x0A) (l @ CHR 0x0A # r) = l"
  "CHR 0x0A \<notin> set l \<Longrightarrow> dropWhile (\<lambda>c. c \<noteq> CHR 0x0A) (l @ CHR 0x0A # r) = CHR 0x0A # r"
  by (induction l) auto

lemma getlines_line: "CHR 0x0A \<notin> set l \<Longrightarrow> getlines (l @ CHR 0x0A # r) = l # getlines r"
  by (subst getlines.simps) (simp add: takeWhile_end)

lemma getlines_write: "list_all (\<lambda>l. CHR 0x0A \<notin> set l) ls \<Longrightarrow> getlines (write_lines ls) = ls"
  by (induction ls) (simp_all add: write_lines_def getlines_line)

lemma getlines_no_newline: "list_all (\<lambda>l. CHR 0x0A \<notin> set l) (getlines s)"
proof (induction s rule: getlines.induct)
  case (1 s)
  then show ?case by (subst getlines.simps) (auto dest: set_takeWhileD)
qed

lemma mm_emplace_last: "\<forall>(k', v') \<in> set m. k' \<le> k \<Longrightarrow> mm_emplace k v m = m @ [(k, v)]"
  by (induction m) (auto simp: not_less)

lemma mm_emplace_sorted: "sorted (map fst es) \<Longrightarrow> \<forall>k \<in> fst ` set m. \<forall>k' \<in> fst ` set es. k \<le> k' \<Longrightarrow> fold (\<lambda>(k, v). mm_emplace k v) es m = m @ es"
proof (induction es arbitrary: m)
  case (Cons e es)
  obtain k v where e: "e = (k, v)" by (cases e)
  have "mm_emplace k v m = m @ [(k, v)]" using Cons.prems e by (intro mm_emplace_last) force
  moreover have "fold (\<lambda>(k, v). mm_emplace k v) es (m @ [(k, v)]) = (m @ [(k, v)]) @ es"
    using Cons.prems e by (intro Cons.IH) auto
  ultimately show ?case using e by simp
qed simp

text \<open>An entry that survives being written and read.\<close>

definition clean_entry :: "string \<times> string \<Rightarrow> bool" where
  "clean_entry = (\<lambda>(dn, acct). dn \<noteq> [] \<and> CHR 0x22 \<notin> set dn \<and> CHR 0x0A \<notin> set dn \<and> acct \<noteq> [] \<and> CHR 0x22 \<notin> set acct \<and>
     CHR 0x0A \<notin> set acct \<and> \<not> is_space (hd acct) \<and> \<not> is_space (last acct))"

lemma trim_id: "l \<noteq> [] \<Longrightarrow> \<not> is_space (hd l) \<Longrightarrow> \<not> is_space (last l) \<Longrightarrow> trim l = l"
proof -
  assume l: "l \<noteq> []" "\<not> is_space (hd l)" "\<not> is_space (last l)"
  have "dropWhile is_space l = l" "dropWhile is_space (rev l) = rev l" using l by (auto simp: dropWhile_eq_self_iff hd_rev)
  then show ?thesis by (simp add: trim_def trim_left_def trim_right_def)
qed

lemma trim_space: "l \<noteq> [] \<Longrightarrow> \<not> is_space (hd l) \<Longrightarrow> \<not> is_space (last l) \<Longrightarrow> trim (CHR '' '' # l) = l"
  using trim_id [of l] by (simp add: trim_def trim_left_def is_space_def)

lemma split_quoted:
  assumes "dn \<noteq> []" and "CHR 0x22 \<notin> set dn" and "CHR 0x22 \<notin> set r" and "r \<noteq> []"
  shows "split_string (quote dn @ r) [CHR 0x22] = [dn, r]"
proof -
  have t: "takeWhile (\<lambda>c. c \<notin> set [CHR 0x22]) (dn @ CHR 0x22 # r) = dn" "dropWhile (\<lambda>c. c \<notin> set [CHR 0x22]) (dn @ CHR 0x22 # r) = CHR 0x22 # r"
    using assms(2) by (induction dn) auto
  have r: "takeWhile (\<lambda>c. c \<notin> set [CHR 0x22]) r = r" "dropWhile (\<lambda>c. c \<notin> set [CHR 0x22]) r = []"
    using assms(3) by (auto simp: takeWhile_eq_all_conv dropWhile_eq_Nil_conv)
  have nil: "split_string [] d = []" for d by (simp add: split_string.simps)
  have "split_string (quote dn @ r) [CHR 0x22] = split_string (dn @ CHR 0x22 # r) [CHR 0x22]"
    by (subst split_string.simps) (simp add: quote_def)
  also have "\<dots> = dn # split_string r [CHR 0x22]"
    using assms(1) by (subst split_string.simps) (simp only: t Let_def append_is_Nil_conv list.distinct simp_thms if_False drop_Suc_Cons drop_0 One_nat_def append_Cons append_Nil)
  also have "split_string r [CHR 0x22] = [r]"
    using assms(4) by (subst split_string.simps) (simp only: r Let_def if_False drop_Nil nil append_Cons append_Nil append_Nil2)
  finally show ?thesis .
qed

lemma scan_line_quoted:
  assumes "trim l = l" and "l \<noteq> []" and "\<not> is_begin_marker l" and "\<not> is_end_marker l" and "\<not> is_comment_line l" and "has_quoted_dn l"
    and "split_string l [CHR 0x22] = [dn, r]"
  shows "scan_line l s = Inr (add_entry dn (trim r) s)"
  using assms by (simp add: scan_line_def)

lemma scan_quoted: "clean_entry (dn, acct) \<Longrightarrow> scan_line (quote dn @ '' '' @ acct) s = Inr (add_entry dn acct s)"
proof -
  assume c: "clean_entry (dn, acct)"
  let ?l = "quote dn @ '' '' @ acct"
  have t: "trim ?l = ?l" using c by (intro trim_id) (auto simp: clean_entry_def quote_def is_space_def)
  have "split_string ?l [CHR 0x22] = [dn, '' '' @ acct]" using c by (intro split_quoted) (auto simp: clean_entry_def)
  moreover have "trim (CHR '' '' # acct) = acct" using c by (intro trim_space) (auto simp: clean_entry_def)
  moreover have "\<not> is_begin_marker ?l" "\<not> is_end_marker ?l" "\<not> is_comment_line ?l" "has_quoted_dn ?l"
    by (simp_all add: is_begin_marker_def is_end_marker_def is_comment_line_def has_quoted_dn_def quote_def BEGIN_MARKER_def END_MARKER_def)
  moreover have "?l \<noteq> []" by (simp add: quote_def)
  ultimately show ?thesis using scan_line_quoted [OF t, of dn "'' '' @ acct" s] by simp
qed

lemma scan_entries:
  "list_all clean_entry es \<Longrightarrow> \<not> gs_system s \<Longrightarrow>
   fold_r scan_line (map (\<lambda>(dn, acct). quote dn @ '' '' @ acct) es) s = Inr (s\<lparr>bde_entries := fold (\<lambda>(k, v). mm_emplace k v) es (bde_entries s)\<rparr>)"
proof (induction es arbitrary: s)
  case (Cons e es)
  obtain dn acct where e: "e = (dn, acct)" by (cases e)
  with Cons show ?case by (simp add: scan_quoted [of dn acct, simplified] add_entry_def)
qed simp

lemma scan_markers:
  "scan_line BEGIN_MARKER s = Inr (s\<lparr>gs_system := False\<rparr>)" "scan_line END_MARKER s = Inr (s\<lparr>gs_system := True\<rparr>)"
proof -
  have "trim BEGIN_MARKER = BEGIN_MARKER" "trim END_MARKER = END_MARKER" by code_simp+
  moreover have "is_begin_marker BEGIN_MARKER" "\<not> is_end_marker BEGIN_MARKER" "is_comment_line BEGIN_MARKER"
    "\<not> is_begin_marker END_MARKER" "is_end_marker END_MARKER" "is_comment_line END_MARKER" by code_simp+
  ultimately show "scan_line BEGIN_MARKER s = Inr (s\<lparr>gs_system := False\<rparr>)" "scan_line END_MARKER s = Inr (s\<lparr>gs_system := True\<rparr>)"
    by (simp_all add: scan_line_def)
qed

text \<open>Lines without markers stay on their side of the section.\<close>

definition no_marker :: "string \<Rightarrow> bool" where
  "no_marker l \<longleftrightarrow> \<not> is_begin_marker (trim l) \<and> \<not> is_end_marker (trim l)"

lemma scan_outside:
  "list_all no_marker ls \<Longrightarrow> gs_system s \<Longrightarrow> fold_r scan_line ls s = Inr t \<Longrightarrow>
   gs_system t \<and> bde_entries t = bde_entries s \<and> fold_r scan_line ls (s\<lparr>bde_entries := b\<rparr>) = Inr (t\<lparr>bde_entries := b\<rparr>)"
proof (induction ls arbitrary: s)
  case (Cons l ls)
  then obtain u where u: "scan_line l s = Inr u" "fold_r scan_line ls u = Inr t" by auto
  have "gs_system u \<and> bde_entries u = bde_entries s \<and> scan_line l (s\<lparr>bde_entries := b\<rparr>) = Inr (u\<lparr>bde_entries := b\<rparr>)"
    using u(1) Cons.prems(1,2) by (auto simp: scan_line_def no_marker_def Let_def add_entry_def split: if_splits)
  with Cons.IH [of u] Cons.prems(1) u(2) show ?case by simp
qed auto

lemma scan_inside:
  "list_all no_marker ls \<Longrightarrow> \<not> gs_system s \<Longrightarrow> fold_r scan_line ls s = Inr t \<Longrightarrow> \<not> gs_system t \<and> system_entries t = system_entries s"
proof (induction ls arbitrary: s)
  case (Cons l ls)
  then obtain u where u: "scan_line l s = Inr u" "fold_r scan_line ls u = Inr t" by auto
  have "\<not> gs_system u \<and> system_entries u = system_entries s"
    using u(1) Cons.prems(1,2) by (auto simp: scan_line_def no_marker_def Let_def add_entry_def split: if_splits)
  with Cons.IH [of u] Cons.prems(1) u(2) show ?case by simp
qed auto

text \<open>Reading a file with one section, and with another section in its place.\<close>

lemma scan_swap:
  assumes "list_all no_marker pre" and "list_all no_marker mid" and "list_all no_marker post"
    and "scan_lines (pre @ BEGIN_MARKER # mid @ END_MARKER # post) = Inr t" and "list_all clean_entry es" and "sorted (map fst es)"
  shows "scan_lines (pre @ BEGIN_MARKER # map (\<lambda>(dn, acct). quote dn @ '' '' @ acct) es @ END_MARKER # post) = Inr (t\<lparr>bde_entries := es\<rparr>)"
proof -
  let ?s0 = "\<lparr>gs_system = True, system_entries = [], bde_entries = []\<rparr>"
  from assms(4) obtain s1 s2 where s1: "fold_r scan_line pre ?s0 = Inr s1"
    and s2: "fold_r scan_line mid (s1\<lparr>gs_system := False\<rparr>) = Inr s2" and t: "fold_r scan_line post (s2\<lparr>gs_system := True\<rparr>) = Inr t"
    by (auto simp: scan_lines_def fold_r_append bind_r_Inr_iff scan_markers)
  have p: "gs_system s1" "bde_entries s1 = []" using scan_outside [OF assms(1) _ s1] by simp_all
  have "system_entries s2 = system_entries s1" using scan_inside [OF assms(2) _ s2] by simp
  then have eq: "s1\<lparr>bde_entries := es, gs_system := True\<rparr> = s2\<lparr>gs_system := True, bde_entries := es\<rparr>" by simp
  have "fold_r scan_line post (s2\<lparr>gs_system := True, bde_entries := es\<rparr>) = Inr (t\<lparr>bde_entries := es\<rparr>)"
    using scan_outside [OF assms(3) _ t, of es] by simp
  moreover have "fold (\<lambda>(k, v). mm_emplace k v) es [] = es" using mm_emplace_sorted [OF assms(6), of "[]"] by simp
  ultimately show ?thesis using p scan_entries [OF assms(5), of "s1\<lparr>gs_system := False\<rparr>"] eq
    by (simp add: scan_lines_def fold_r_append s1 scan_markers)
qed

lemma marker_parts:
  assumes "list_all no_marker pre"
  shows "before BEGIN_MARKER (pre @ BEGIN_MARKER # r) = pre" and "from_on BEGIN_MARKER (pre @ BEGIN_MARKER # r) = BEGIN_MARKER # r"
    and "from_on END_MARKER (pre @ END_MARKER # r) = END_MARKER # r"
proof -
  have m: "\<not> no_marker BEGIN_MARKER" "\<not> no_marker END_MARKER" by code_simp+
  then have "l \<noteq> BEGIN_MARKER" "l \<noteq> END_MARKER" if "l \<in> set pre" for l using that assms by (auto simp: list_all_iff)
  then show "before BEGIN_MARKER (pre @ BEGIN_MARKER # r) = pre" "from_on BEGIN_MARKER (pre @ BEGIN_MARKER # r) = BEGIN_MARKER # r"
    "from_on END_MARKER (pre @ END_MARKER # r) = END_MARKER # r"
    by (auto simp: before_def from_on_def takeWhile_append dropWhile_append)
qed

section \<open>Properties\<close>

text \<open>
  C27: pushed entries are read back, or the push fails. Let the map file have one section of BDE and be readable, and push entries,
  sorted by name, whose names and accounts are clean. Where the vector of lines has no room for them, the behaviour is undefined
  (the iterator to the section is invalid after the reallocation). Where there is room but the first \<open>rename\<close> fails, the push throws
  and the map file is as it was; where the second one fails, it throws and there is no map file any more, only the backup.
  Otherwise reading the file gives exactly the pushed entries in the section and the same system entries as before, and the old
  file is the backup.
\<close>

theorem gridmap_roundtrip:
  assumes "gm_file fs = Some content" and "getlines content = pre @ BEGIN_MARKER # mid @ END_MARKER # post"
    and "list_all no_marker pre" and "list_all no_marker mid" and "list_all no_marker post"
    and "grid_mapfile_get_entries fs = Inr (sys, old)" and "list_all clean_entry es" and "sorted (map fst es)"
  shows "case grid_mapfile_push_entries vcap rename1 rename2 es fs of (r, fs') \<Rightarrow>
    if Suc (vcap (length (getlines content))) < length pre + length es + length post + 2 then r = Inl Undefined
    else if \<not> rename1 then isl r \<and> gm_file fs' = Some content
    else if \<not> rename2 then isl r \<and> gm_file fs' = None \<and> gm_save fs' = Some content
    else r = Inr () \<and> grid_mapfile_get_entries fs' = Inr (sys, es) \<and> gm_save fs' = Some content"
proof -
  let ?ls = "pre @ BEGIN_MARKER # map (\<lambda>(dn, acct). quote dn @ '' '' @ acct) es @ END_MARKER # post"
  have sec: "from_on BEGIN_MARKER (getlines content) = BEGIN_MARKER # mid @ END_MARKER # post"
    using marker_parts(2) [OF assms(3)] assms(2) by simp
  have "from_on END_MARKER (BEGIN_MARKER # mid @ END_MARKER # post) = END_MARKER # post"
    using marker_parts(3) [OF assms(4), of post] by (simp add: from_on_def BEGIN_MARKER_def END_MARKER_def)
  with sec have R: "replace_section vcap es (getlines content) =
      (if Suc (vcap (length (getlines content))) < length pre + length es + length post + 2 then Inl Undefined else Inr ?ls)"
    using marker_parts(1) [OF assms(3)] assms(2) by (simp add: replace_section_def Let_def add.commute add.left_commute)
  from assms(1,6) obtain t where t: "scan_lines (getlines content) = Inr t" "sys = system_entries t"
    by (auto simp: grid_mapfile_get_entries_def)
  have lines: "list_all (\<lambda>l. CHR 0x0A \<notin> set l) ?ls"
  proof -
    have "list_all (\<lambda>l. CHR 0x0A \<notin> set l) (pre @ BEGIN_MARKER # mid @ END_MARKER # post)" using getlines_no_newline [of content] assms(2) by simp
    moreover have "list_all (\<lambda>l. CHR 0x0A \<notin> set l) (map (\<lambda>(dn, acct). quote dn @ '' '' @ acct) es)"
      using assms(7) by (auto simp: list_all_iff clean_entry_def quote_def)
    ultimately show ?thesis by simp
  qed
  have "scan_lines ?ls = Inr (t\<lparr>bde_entries := es\<rparr>)" using t(1) assms by (intro scan_swap) simp_all
  with getlines_write [OF lines] t(2) show ?thesis
    by (simp add: grid_mapfile_push_entries_def assms(1) R Let_def grid_mapfile_get_entries_def)
qed

definition demo_map :: mapfiles where
  "demo_map = \<lparr>gm_name = ''grid-mapfile'', gm_file = Some (write_lines [quote ''/CN=root'' @ '' root'', BEGIN_MARKER, quote ''/CN=old'' @ '' old'', END_MARKER]), gm_save = None, gm_work = None\<rparr>"

theorem gridmap_roundtrip_witness:
  "\<exists>fs'. grid_mapfile_push_entries (\<lambda>n. 2 * n) True True [(''/CN=A'', ''a''), (''/CN=Jane Doe'', ''jane'')] demo_map = (Inr (), fs') \<and>
     grid_mapfile_get_entries fs' = Inr ([(''/CN=root'', ''root'')], [(''/CN=A'', ''a''), (''/CN=Jane Doe'', ''jane'')])"
proof -
  let ?c = "write_lines [quote ''/CN=root'' @ '' root'', BEGIN_MARKER, quote ''/CN=old'' @ '' old'', END_MARKER]"
  have "getlines ?c = [quote ''/CN=root'' @ '' root''] @ BEGIN_MARKER # [quote ''/CN=old'' @ '' old''] @ END_MARKER # []"
    "list_all no_marker [quote ''/CN=root'' @ '' root'']" "list_all no_marker [quote ''/CN=old'' @ '' old'']"
    "grid_mapfile_get_entries demo_map = Inr ([(''/CN=root'', ''root'')], [(''/CN=old'', ''old'')])"
    "list_all clean_entry [(''/CN=A'', ''a''), (''/CN=Jane Doe'', ''jane'')]" "sorted (map fst [(''/CN=A'', ''a''), (''/CN=Jane Doe'', ''jane'')])"
    by code_simp+
  with gridmap_roundtrip [of demo_map ?c "[quote ''/CN=root'' @ '' root'']" "[quote ''/CN=old'' @ '' old'']" "[]" _ _ "[(''/CN=A'', ''a''), (''/CN=Jane Doe'', ''jane'')]" "\<lambda>n. 2 * n" True True]
  show ?thesis by (auto simp: demo_map_def)
qed

text \<open>
  The first push makes the map file unreadable. Where the file does not exist or has no section of BDE, the
  entries are written without quotes; reading an unquoted line always throws. So after such a push of an entry
  whose name does not begin with a quote, a comment sign or a blank, no entry can be read any more.
\<close>

lemma gridmap_first_push_unreadable:
  assumes "gm_file fs = None \<or> gm_file fs = Some content \<and> BEGIN_MARKER \<notin> set (getlines content)"
    and "list_all (\<lambda>(dn, acct). CHR 0x0A \<notin> set dn \<and> CHR 0x0A \<notin> set acct) es" and "(dn, acct) \<in> set es" and "dn \<noteq> []"
    and "hd dn \<noteq> CHR 0x22" and "hd dn \<noteq> CHR ''#''" and "\<not> is_space (hd dn)"
    and "grid_mapfile_push_entries vcap True True es fs = (Inr (), fs')"
  shows "\<exists>e. grid_mapfile_get_entries fs' = Inl e"
proof -
  have bad: "\<exists>e. scan_line (dn @ '' '' @ acct) s = Inl e" for s
  proof -
    obtain r where r: "trim (dn @ '' '' @ acct) = hd dn # r"
    proof -
      have "trim_left (dn @ '' '' @ acct) = hd dn # tl dn @ '' '' @ acct" using assms(4,7) by (cases dn) (simp_all add: trim_left_def)
      moreover have "\<exists>r. trim_right (hd dn # u) = hd dn # r" for u
        using assms(7) by (auto simp: trim_right_def dropWhile_append intro: exI [of _ "rev (dropWhile is_space (rev u))"])
      ultimately show thesis using that by (metis trim_def)
    qed
    have "\<not> is_comment_line (hd dn # r)" "\<not> has_quoted_dn (hd dn # r)"
      using assms(5,6) by (auto simp: is_comment_line_def has_quoted_dn_def)
    with r show ?thesis by (auto simp: scan_line_def Let_def)
  qed
  have fails: "\<exists>e. fold_r scan_line (us @ (dn @ '' '' @ acct) # vs) s = Inl e" for us vs s
  proof (cases "fold_r scan_line us s")
    case (Inr t)
    then show ?thesis using bad [of t] by (auto simp: fold_r_append)
  qed (simp add: fold_r_append)
  obtain es1 es2 where es: "es = es1 @ (dn, acct) # es2" using assms(3) by (auto dest: split_list)
  obtain pre where w: "gm_file fs' = Some (write_lines (pre @ BEGIN_MARKER # map (\<lambda>(dn, acct). dn @ '' '' @ acct) es @ [END_MARKER]))"
    and p: "list_all (\<lambda>l. CHR 0x0A \<notin> set l) pre"
  proof (cases "gm_file fs")
    case None
    then show thesis using that [of "[]"] assms(8) by (auto simp: grid_mapfile_push_entries_def)
  next
    case (Some c)
    then have c: "c = content" "from_on BEGIN_MARKER (getlines content) = []"
      using assms(1) by (auto simp: from_on_def dropWhile_eq_Nil_conv)
    show thesis using that [of "getlines content"] Some c assms(8) getlines_no_newline [of content]
      by (auto simp: grid_mapfile_push_entries_def replace_section_def Let_def)
  qed
  have "list_all (\<lambda>l. CHR 0x0A \<notin> set l) (pre @ BEGIN_MARKER # map (\<lambda>(dn, acct). dn @ '' '' @ acct) es @ [END_MARKER])"
    using p assms(2) by (auto simp: list_all_iff BEGIN_MARKER_def END_MARKER_def)
  with getlines_write w have g: "grid_mapfile_get_entries fs' =
      bind_r (scan_lines (pre @ BEGIN_MARKER # map (\<lambda>(dn, acct). dn @ '' '' @ acct) es @ [END_MARKER])) (\<lambda>s. Inr (system_entries s, bde_entries s))"
    by (simp add: grid_mapfile_get_entries_def)
  obtain e where "scan_lines (pre @ BEGIN_MARKER # map (\<lambda>(dn, acct). dn @ '' '' @ acct) es @ [END_MARKER]) = Inl e"
    using fails [of "pre @ BEGIN_MARKER # map (\<lambda>(dn, acct). dn @ '' '' @ acct) es1" "map (\<lambda>(dn, acct). dn @ '' '' @ acct) es2 @ [END_MARKER]"]
    unfolding scan_lines_def es by auto
  then show ?thesis using g by simp
qed

lemma gridmap_first_push_unreadable_witness:
  "\<exists>fs' e. grid_mapfile_push_entries (\<lambda>n. n) True True [(''/CN=A'', ''a'')] \<lparr>gm_name = ''grid-mapfile'', gm_file = None, gm_save = None, gm_work = None\<rparr> = (Inr (), fs') \<and>
     grid_mapfile_get_entries fs' = Inl e"
proof -
  obtain fs' where "grid_mapfile_push_entries (\<lambda>n. n) True True [(''/CN=A'', ''a'')] \<lparr>gm_name = ''grid-mapfile'', gm_file = None, gm_save = None, gm_work = None\<rparr> = (Inr (), fs')"
    by (simp add: grid_mapfile_push_entries_def)
  with gridmap_first_push_unreadable [OF _ _ _ _ _ _ _ this, of "[]" "''/CN=A''" "''a''"] show ?thesis by (auto simp: is_space_def)
qed

end
