(* ===== verification/Mounts.thy ===== *)
theory Mounts
  imports File_Tree
begin

text \<open>
  Mounted file systems, \<open>src/utils/mounts.cc\<close>. libmount reads the table of mounts and finds the entry of a path;
  an entry comes with the entries mounted below it.
\<close>

section \<open>Entries and their order\<close>

datatype mount_node = Mount (mnt_srcpath: "string option") (mnt_target: "string option") (fs_type: "string option") (mnt_children: "mount_node list")

definition or_nil :: "string option \<Rightarrow> string" where
  "or_nil s = (case s of Some t \<Rightarrow> t | None \<Rightarrow> ''<nil>'')"

definition mount_source :: "mount_node \<Rightarrow> string" where
  "mount_source m = or_nil (mnt_srcpath m)"

definition mount_target :: "mount_node \<Rightarrow> string" where
  "mount_target m = or_nil (mnt_target m)"

definition mount_type :: "mount_node \<Rightarrow> string" where
  "mount_type m = or_nil (fs_type m)"

definition mount_less :: "mount_node \<Rightarrow> mount_node \<Rightarrow> bool" where
  "mount_less x y \<longleftrightarrow> mount_source x < mount_source y \<or> mount_target x < mount_target y"

text \<open>
  \<open>std::set\<close> requires a strict weak order. Two mounts can each be less than the other; what a set that holds one
  does with the other is then undefined.
\<close>

definition mount_emplace :: "mount_node \<Rightarrow> mount_node list \<Rightarrow> (exn, mount_node list) result" where
  "mount_emplace m ms =
     (if list_ex (\<lambda>x. mount_less x m \<and> mount_less m x) ms then Inl Undefined
      else if list_ex (\<lambda>x. \<not> mount_less x m \<and> \<not> mount_less m x) ms then Inr ms
      else Inr (takeWhile (\<lambda>x. mount_less x m) ms @ m # dropWhile (\<lambda>x. mount_less x m) ms))"

section \<open>Mounts of a path\<close>

fun recurse :: "mount_node \<Rightarrow> mount_node list" where
  "recurse (Mount s t k cs) = concat (map (\<lambda>c. c # recurse c) cs)"

text \<open>
  The constructor of \<open>MountPointsHelper\<close>; \<open>tbl\<close> is \<open>mnt_table_find_target\<close> on the table as it is at the time. A path that is
  no mount point has no entry, and nothing below it is found.
\<close>

definition mounts_below :: "bool \<Rightarrow> mount_node \<Rightarrow> mount_node list" where
  "mounts_below scan n = n # (if scan then recurse n else [])"

definition get_mounts :: "(string \<Rightarrow> (exn, mount_node option) result) \<Rightarrow> bool \<Rightarrow> string \<Rightarrow> (exn, mount_node list) result" where
  "get_mounts tbl scan path =
     bind_r (tbl path) (\<lambda>e. case e of None \<Rightarrow> Inr [] | Some n \<Rightarrow> fold_r mount_emplace (mounts_below scan n) [])"

lemma trim_end_length: "trim_end p = p \<or> length (trim_end p) < length p"
proof (induction p rule: trim_end.induct)
  case (1 a)
  show ?case
  proof (cases "1 < length a \<and> last a = CHR ''/''")
    case True
    with "1.IH" have "length (trim_end (butlast a)) \<le> length (butlast a)" by fastforce
    moreover have "length (butlast a) < length a" using True by (cases a rule: rev_cases) auto
    ultimately have "length (trim_end (butlast a)) < length a" by linarith
    moreover have "trim_end a = trim_end (butlast a)" using True by (subst trim_end.simps) simp
    ultimately show ?thesis by simp
  qed (subst trim_end.simps, auto)
qed

lemma trim_end_empty: "trim_end p = [] \<longleftrightarrow> p = []"
proof (induction p rule: trim_end.induct)
  case (1 a)
  show ?case
  proof (cases "1 < length a \<and> last a = CHR ''/''")
    case True
    then have "butlast a \<noteq> []" by (cases a rule: rev_cases) auto
    moreover have "trim_end a = trim_end (butlast a)" using True by (subst trim_end.simps) simp
    ultimately show ?thesis using True "1.IH" by auto
  qed (subst trim_end.simps, auto)
qed

lemma trim_end_last: "last (trim_end p) = CHR ''/'' \<Longrightarrow> trim_end p = ''/'' \<or> trim_end p = []"
proof (induction p rule: trim_end.induct)
  case (1 a)
  then show ?case by (subst (asm) (3) trim_end.simps, subst (1 2) trim_end.simps) (cases a; auto split: if_splits)
qed

lemma trim_cut_shorter:
  assumes "trim_end p \<noteq> []" and "trim_end p \<noteq> ''/''"
  shows "length (rev (dropWhile (\<lambda>c. c \<noteq> CHR ''/'') (rev (trim_end p)))) < length (trim_end p)"
proof -
  have "last (trim_end p) \<noteq> CHR ''/''" using trim_end_last assms by blast
  with assms(1) have "length (dropWhile (\<lambda>c. c \<noteq> CHR ''/'') (rev (trim_end p))) < length (rev (trim_end p))"
    by (cases "rev (trim_end p)") (auto simp: last_rev [symmetric] length_dropWhile_le le_imp_less_Suc)
  then show ?thesis by simp
qed

lemma dirname_shorter: "dirname p \<noteq> p \<Longrightarrow> dirname p = ''.'' \<or> length (dirname p) < length p"
  using trim_cut_shorter [of p] trim_end_length [of p] trim_end_empty [of p]
    trim_end_length [of "rev (dropWhile (\<lambda>c. c \<noteq> CHR ''/'') (rev (trim_end p)))"]
  by (auto simp: dirname_def Let_def split: if_splits)

lemma dirname_dot: "dirname ''.'' = ''.''"
  by (simp add: dirname_def trim_end.simps)

text \<open>
  \<open>get_parent_mount\<close>: the entry of the nearest folder above that is a mount point. The assertion fails, which ends
  the process, at a root without entry; from a relative path the search arrives at the folder \<open>.\<close> and never ends. Both
  are \<open>Undefined\<close> here.
\<close>

function get_parent_mount :: "(string \<Rightarrow> (exn, mount_node option) result) \<Rightarrow> (string \<Rightarrow> bool) \<Rightarrow> string \<Rightarrow> (exn, mount_node) result" where
  "get_parent_mount tbl is_root path =
     (let parent = dirname path
      in case tbl parent of
           Inl e \<Rightarrow> Inl e
         | Inr (Some m) \<Rightarrow> Inr m
         | Inr None \<Rightarrow> if is_root parent \<or> parent = path then Inl Undefined else get_parent_mount tbl is_root parent)"
  by pat_completeness auto
termination
proof (relation "measure (\<lambda>(f, r, p). if p = ''.'' then 0 else Suc (length p))", goal_cases)
  case (2 tbl is_root path)
  then show ?case using dirname_shorter [of path] dirname_dot by auto
qed simp

declare get_parent_mount.simps [simp del]

definition mounts_of :: "(string \<Rightarrow> (exn, mount_node option) result) \<Rightarrow> (string \<Rightarrow> bool) \<Rightarrow> bool \<Rightarrow> string \<Rightarrow> (exn, mount_node list) result" where
  "mounts_of tbl is_root scan path =
     bind_r (get_mounts tbl scan path) (\<lambda>ms.
     if ms = [] then bind_r (get_parent_mount tbl is_root path) (\<lambda>m. Inr [m]) else Inr ms)"

section \<open>What is found\<close>

definition mount_key :: "mount_node \<Rightarrow> string \<times> string" where
  "mount_key m = (mount_source m, mount_target m)"

lemma mount_same_key: "\<not> mount_less x m \<Longrightarrow> \<not> mount_less m x \<Longrightarrow> mount_key x = mount_key m"
  by (auto simp: mount_less_def mount_key_def)

lemma mount_emplace_keys:
  assumes "mount_emplace m ms = Inr ns"
  shows "mount_key ` set ns = insert (mount_key m) (mount_key ` set ms)"
proof (cases "list_ex (\<lambda>x. \<not> mount_less x m \<and> \<not> mount_less m x) ms")
  case True
  then obtain x where "x \<in> set ms" "mount_key x = mount_key m" using mount_same_key unfolding list_ex_iff by blast
  then have "mount_key m \<in> mount_key ` set ms" by (metis imageI)
  moreover have "ns = ms" using assms True by (simp add: mount_emplace_def split: if_splits)
  ultimately show ?thesis by (simp add: insert_absorb)
next
  case False
  then have "ns = takeWhile (\<lambda>x. mount_less x m) ms @ m # dropWhile (\<lambda>x. mount_less x m) ms"
    using assms by (simp add: mount_emplace_def split: if_splits)
  moreover have "set ms = set (takeWhile (\<lambda>x. mount_less x m) ms) \<union> set (dropWhile (\<lambda>x. mount_less x m) ms)"
    by (metis set_append takeWhile_dropWhile_id)
  ultimately show ?thesis by (simp add: image_Un)
qed

lemma fold_mount_emplace: "fold_r mount_emplace xs ms = Inr ns \<Longrightarrow> mount_key ` set ns = mount_key ` (set xs \<union> set ms)"
proof (induction xs arbitrary: ms)
  case (Cons x xs)
  then obtain us where u: "mount_emplace x ms = Inr us" "fold_r mount_emplace xs us = Inr ns" by (auto simp: bind_r_Inr_iff)
  from Cons.IH [OF u(2)] mount_emplace_keys [OF u(1)] show ?case by (simp add: image_Un)
qed simp

lemma fst_mount_key: "mount_source ` A = fst ` mount_key ` A"
  by (simp add: image_image mount_key_def)

text \<open>No device is lost: those of the mounts that are found are those of the entry of the path and, when scanning, of all below it.\<close>

lemma get_mounts_sources:
  assumes "get_mounts tbl scan path = Inr ms"
  shows "mount_source ` set ms = (case tbl path of Inr (Some n) \<Rightarrow> mount_source ` set (mounts_below scan n) | _ \<Rightarrow> {})"
proof -
  obtain e where e: "tbl path = Inr e" using assms by (auto simp: get_mounts_def bind_r_Inr_iff)
  show ?thesis
  proof (cases e)
    case (Some n)
    then have "fold_r mount_emplace (mounts_below scan n) [] = Inr ms" using assms e by (simp add: get_mounts_def)
    from fold_mount_emplace [OF this] show ?thesis using e Some by (simp add: fst_mount_key)
  qed (use assms e in \<open>simp add: get_mounts_def\<close>)
qed

text \<open>The order of mounts is none: of two mounts, each can be less than the other.\<close>

lemma mount_order_broken:
  "\<exists>x y. mount_less x y \<and> mount_less y x \<and> fold_r mount_emplace [x, y] [] = Inl Undefined"
  by (rule exI [of _ "Mount (Some ''/dev/sdb'') (Some ''/data'') None []"], rule exI [of _ "Mount (Some ''/dev/sda'') (Some ''/data/x'') None []"])
     (simp add: mount_less_def mount_source_def mount_target_def or_nil_def mount_emplace_def)

text \<open>A path below a mount point belongs to the nearest one.\<close>

lemma get_parent_mount_nearest:
  assumes "\<forall>k. 0 < k \<and> k < n \<longrightarrow> tbl ((dirname ^^ k) p) = Inr None \<and> \<not> is_root ((dirname ^^ k) p) \<and> (dirname ^^ k) p \<noteq> (dirname ^^ (k - 1)) p"
    and "0 < n" and "tbl ((dirname ^^ n) p) = Inr (Some m)"
  shows "get_parent_mount tbl is_root p = Inr m"
  using assms
proof (induction n arbitrary: p)
  case (Suc n)
  show ?case
  proof (cases "n = 0")
    case True
    then show ?thesis using Suc.prems(3) by (simp add: get_parent_mount.simps)
  next
    case False
    have 1: "tbl (dirname p) = Inr None \<and> \<not> is_root (dirname p) \<and> dirname p \<noteq> p"
      using Suc.prems(1) [rule_format, of 1] False by simp
    have "get_parent_mount tbl is_root (dirname p) = Inr m"
    proof (rule Suc.IH)
      show "\<forall>k. 0 < k \<and> k < n \<longrightarrow> tbl ((dirname ^^ k) (dirname p)) = Inr None \<and> \<not> is_root ((dirname ^^ k) (dirname p)) \<and>
          (dirname ^^ k) (dirname p) \<noteq> (dirname ^^ (k - 1)) (dirname p)"
      proof (intro allI impI)
        fix k
        assume k: "0 < k \<and> k < n"
        have eq: "(dirname ^^ j) (dirname p) = (dirname ^^ Suc j) p" for j by (simp add: funpow_swap1)
        have "Suc (k - 1) = k" using k by simp
        then show "tbl ((dirname ^^ k) (dirname p)) = Inr None \<and> \<not> is_root ((dirname ^^ k) (dirname p)) \<and>
            (dirname ^^ k) (dirname p) \<noteq> (dirname ^^ (k - 1)) (dirname p)"
          using Suc.prems(1) [rule_format, of "Suc k"] k unfolding eq by simp
      qed
      show "0 < n" using False by simp
      show "tbl ((dirname ^^ n) (dirname p)) = Inr (Some m)" using Suc.prems(3) by (simp add: funpow_swap1)
    qed
    then show ?thesis using 1 by (subst get_parent_mount.simps) simp
  qed
qed simp

section \<open>The search for a mount ends\<close>

lemma trim_end_absolute: "take 1 p = ''/'' \<Longrightarrow> take 1 (trim_end p) = ''/''"
proof (induction p rule: trim_end.induct)
  case (1 a)
  show ?case
  proof (cases "1 < length a \<and> last a = CHR ''/''")
    case True
    then have "take 1 (butlast a) = ''/''" using "1.prems" by (cases a) (auto split: if_splits)
    with "1.IH" [OF True] True show ?thesis by (subst trim_end.simps) simp
  qed (use 1 in \<open>subst trim_end.simps, auto\<close>)
qed

lemma take_1_append: "r \<noteq> [] \<Longrightarrow> q = r @ x \<Longrightarrow> take 1 q = take 1 r"
  by (cases r) auto

lemma dirname_absolute: "take 1 p = ''/'' \<Longrightarrow> take 1 (dirname p) = ''/''"
proof -
  assume p: "take 1 p = ''/''"
  let ?q = "trim_end p"
  let ?r = "rev (dropWhile (\<lambda>c. c \<noteq> CHR ''/'') (rev ?q))"
  obtain q where q: "?q = CHR ''/'' # q" using trim_end_absolute [OF p] by (cases ?q) auto
  have "?r \<noteq> []" using q by (simp add: dropWhile_append1)
  moreover have "?q = ?r @ rev (takeWhile (\<lambda>c. c \<noteq> CHR ''/'') (rev ?q))" 
    by (simp add: rev_append [symmetric])
  ultimately have "take 1 ?q = take 1 ?r" by (rule take_1_append)
  then have "take 1 ?r = ''/''" using q by simp
  then show ?thesis using p q \<open>?r \<noteq> []\<close> trim_end_absolute [of ?r] by (auto simp: dirname_def Let_def)
qed

lemma dirname_fix: "dirname p = p \<Longrightarrow> p = ''/'' \<or> p = ''.''"
proof -
  assume d: "dirname p = p"
  let ?q = "trim_end p"
  let ?r = "rev (dropWhile (\<lambda>c. c \<noteq> CHR ''/'') (rev ?q))"
  have "length (trim_end ?r) < length p" if "?q \<noteq> []" "?q \<noteq> ''/''"
    using trim_cut_shorter [of p] that trim_end_length [of ?r] trim_end_length [of p] by fastforce
  then show ?thesis using d trim_end_empty [of p] by (auto simp: dirname_def Let_def split: if_splits)
qed

text \<open>
  C30: the search for the file system of a folder ends at the nearest folder above that decides it. For every absolute path, when
  the table of mounts has an entry for \<open>/\<close>, there is a first folder above it, in the chain of its parents, that has an entry,
  for which the table cannot be read, or that resolves to the root. \<open>get_parent_mount\<close> returns this entry or this error; its
  assertion fails only at a folder without entry whose name is not \<open>/\<close> but resolves to the root, as that of \<open>/..\<close> does. It never
  recurs for ever.
\<close>

theorem parent_mount_found:
  assumes "take 1 path = ''/''" and "tbl ''/'' = Inr (Some m0)"
  shows "\<exists>k > 0. (\<forall>j. 0 < j \<and> j < k \<longrightarrow> tbl ((dirname ^^ j) path) = Inr None \<and> \<not> is_root ((dirname ^^ j) path)) \<and>
    (case tbl ((dirname ^^ k) path) of
       Inl e \<Rightarrow> get_parent_mount tbl is_root path = Inl e
     | Inr (Some m) \<Rightarrow> get_parent_mount tbl is_root path = Inr m
     | Inr None \<Rightarrow> is_root ((dirname ^^ k) path) \<and> (dirname ^^ k) path \<noteq> ''/'' \<and> get_parent_mount tbl is_root path = Inl Undefined)"
  using assms(1)
proof (induction "length path" arbitrary: path rule: less_induct)
  case less
  let ?d = "dirname path"
  show ?case
  proof (cases "tbl ?d = Inr None \<and> \<not> is_root ?d")
    case True
    then have "?d \<noteq> ''/''" using assms(2) by auto
    moreover have abs: "take 1 ?d = ''/''" using dirname_absolute less.prems .
    moreover from this have "?d \<noteq> ''.''" by auto
    moreover have "?d \<noteq> path" using calculation dirname_fix [of path] by auto
    moreover have "length ?d < length path" using dirname_shorter [of path] calculation by auto
    ultimately obtain k where k: "0 < k" "\<forall>j. 0 < j \<and> j < k \<longrightarrow> tbl ((dirname ^^ j) ?d) = Inr None \<and> \<not> is_root ((dirname ^^ j) ?d)"
      and r: "case tbl ((dirname ^^ k) ?d) of
         Inl e \<Rightarrow> get_parent_mount tbl is_root ?d = Inl e
       | Inr (Some m) \<Rightarrow> get_parent_mount tbl is_root ?d = Inr m
       | Inr None \<Rightarrow> is_root ((dirname ^^ k) ?d) \<and> (dirname ^^ k) ?d \<noteq> ''/'' \<and> get_parent_mount tbl is_root ?d = Inl Undefined"
      using less.hyps [of ?d] by blast
    have eq: "(dirname ^^ Suc j) path = (dirname ^^ j) ?d" for j by (simp add: funpow_swap1)
    have same: "get_parent_mount tbl is_root path = get_parent_mount tbl is_root ?d"
      using True \<open>?d \<noteq> path\<close> by (subst get_parent_mount.simps) simp
    have "tbl ((dirname ^^ j) path) = Inr None \<and> \<not> is_root ((dirname ^^ j) path)" if "0 < j" "j < Suc k" for j
      using that True k(2) [rule_format, of "j - 1"] eq [of "j - 1"] by (cases "j = 1") auto
    then show ?thesis using r unfolding same by (intro exI [of _ "Suc k"] conjI) (simp, blast, unfold eq)
  next
    case False
    then have "is_root ?d" "?d \<noteq> ''/''" if "tbl ?d = Inr None" using that assms(2) by auto
    then show ?thesis
      by (intro exI [of _ 1]) (subst (1 2 3) get_parent_mount.simps, auto split: sum.splits option.splits)
  qed
qed

theorem parent_mount_found_witness:
  "get_parent_mount (\<lambda>p. Inr (if p = ''/'' then Some (Mount None None None []) else None)) (\<lambda>p. p = ''/'') ''/home/joe'' =
   Inr (Mount None None None [])"
  using parent_mount_found [of "''/home/joe''" "\<lambda>p. Inr (if p = ''/'' then Some (Mount None None None []) else None)" "Mount None None None []"
      "\<lambda>p. p = ''/''"]
  by (auto split: if_splits)

end
