(* ===== verification/Fs_Usage.thy ===== *)
theory Fs_Usage
  imports Mounts "HOL-Library.Word"
begin

text \<open>
  Usage of file systems and quotas, \<open>src/utils/fsusage.cc\<close>, with sizes of 64 bits that wrap around. Percentages are
  rationals. \<open>fs_host\<close> collects the system calls; on the left of their results is the text of the error.
\<close>

section \<open>State of the system\<close>

datatype account = Found nat nat | No_user | Lookup_failed int

datatype quota_kind = Usr_quota | Grp_quota | Prj_quota

record vfs_stat =
  f_bsize :: "64 word"
  f_frsize :: "64 word"
  f_blocks :: "64 word"
  f_bfree :: "64 word"
  f_bavail :: "64 word"
  f_files :: "64 word"
  f_ffree :: "64 word"
  f_favail :: "64 word"

record dqblk =
  bsoftlimit :: "64 word"
  curspace :: "64 word"
  isoftlimit :: "64 word"
  curinodes :: "64 word"

text \<open>
  \<open>fs_quota_info\<close> tells that \<open>quotactl\<close> succeeds with a valid answer for the kind of quota on a device. \<open>fs_zeroed_strings\<close> tells that
  the \<open>std::string\<close> members of a struct can still be assigned after \<open>memset\<close> has set the struct to zero; the language does not
  guarantee it.
\<close>

record fs_host =
  fs_realpath :: "string \<Rightarrow> string + string"
  fs_mount :: "string \<Rightarrow> (exn, mount_node option) result"
  fs_statvfs :: "string \<Rightarrow> string + vfs_stat"
  fs_quota_info :: "quota_kind \<Rightarrow> string \<Rightarrow> bool"
  fs_quota :: "string \<Rightarrow> nat \<Rightarrow> string + dqblk"
  fs_passwd :: "string \<Rightarrow> account"
  fs_errno_text :: string
  fs_zeroed_strings :: bool

record fs_usage =
  u_type :: string
  quota_limit_type :: string
  block_size :: "64 word"
  fragment_size :: "64 word"
  total_blocks :: "64 word"
  free_blocks :: "64 word"
  available_blocks :: "64 word"
  blocks_usage :: rat
  total_size :: "64 word"
  free_size :: "64 word"
  available_size :: "64 word"
  size_usage :: rat
  total_inodes :: "64 word"
  free_inodes :: "64 word"
  available_inodes :: "64 word"
  inode_usage :: rat

section \<open>File systems\<close>

definition percent_usage :: "64 word \<Rightarrow> 64 word \<Rightarrow> rat" where
  "percent_usage used most =
     (if most = 0 then 100
      else of_int \<lfloor>(of_nat (unat used) / of_nat (unat most) :: rat) * 100 * 100 + 1 / 2\<rfloor> / 100)"

definition get_fs_usage :: "fs_host \<Rightarrow> string \<Rightarrow> (exn, fs_usage) result" where
  "get_fs_usage h path =
     (case fs_statvfs h path of
        Inl err \<Rightarrow> Inl (Runtime_error (''Error on usage of '' @ path @ '': '' @ err))
      | Inr st \<Rightarrow>
          Inr \<lparr>u_type = ''filesystem usage'', quota_limit_type = [], block_size = f_bsize st, fragment_size = f_frsize st,
            total_blocks = f_blocks st, free_blocks = f_bfree st, available_blocks = f_bavail st,
            blocks_usage = percent_usage (f_blocks st - f_bavail st) (f_blocks st),
            total_size = f_blocks st * f_frsize st, free_size = f_bfree st * f_frsize st, available_size = f_bavail st * f_frsize st,
            size_usage = percent_usage (f_blocks st * f_frsize st - f_bavail st * f_frsize st) (f_blocks st * f_frsize st),
            total_inodes = f_files st, free_inodes = f_ffree st, available_inodes = f_favail st,
            inode_usage = percent_usage (f_files st - f_favail st) (f_files st)\<rparr>)"

section \<open>Quotas\<close>

definition is_root_path :: "fs_host \<Rightarrow> string \<Rightarrow> bool" where
  "is_root_path h p \<longleftrightarrow> fs_realpath h p = Inr ''/''"

text \<open>A path that cannot be resolved makes a string from a null pointer.\<close>

definition get_mount_point :: "fs_host \<Rightarrow> string \<Rightarrow> (exn, mount_node) result" where
  "get_mount_point h path =
     (case fs_realpath h path of
        Inl _ \<Rightarrow> Inl Undefined
      | Inr p \<Rightarrow> bind_r (mounts_of (fs_mount h) (is_root_path h) False p) (\<lambda>ms. Inr (hd ms)))"

definition get_device :: "fs_host \<Rightarrow> string \<Rightarrow> (exn, string) result" where
  "get_device h path = bind_r (get_mount_point h path) (\<lambda>m. Inr (mount_source m))"

definition quota_enabled :: "fs_host \<Rightarrow> string \<Rightarrow> (exn, bool) result" where
  "quota_enabled h path =
     bind_r (get_device h path) (\<lambda>device. Inr (list_ex (\<lambda>k. fs_quota_info h k device) [Usr_quota, Grp_quota, Prj_quota]))"

definition get_uid :: "fs_host \<Rightarrow> string \<Rightarrow> (exn, nat) result" where
  "get_uid h user =
     (case fs_passwd h user of
        Found uid gid \<Rightarrow> Inr uid
      | No_user \<Rightarrow> Inl (Runtime_error (''Could not find user '' @ user))
      | Lookup_failed rc \<Rightarrow> Inl (Runtime_error (''Could not find user '' @ user @ ''; error: '' @ fs_errno_text h)))"

text \<open>The unit of quotas: 1024 bytes. A limit of 0 stands for none; the figures of the file system are taken then.\<close>

definition no_usage :: fs_usage where
  "no_usage = \<lparr>u_type = [], quota_limit_type = [], block_size = 0, fragment_size = 0, total_blocks = 0, free_blocks = 0, available_blocks = 0,
     blocks_usage = 0, total_size = 0, free_size = 0, available_size = 0, size_usage = 0, total_inodes = 0, free_inodes = 0,
     available_inodes = 0, inode_usage = 0\<rparr>"

definition quota_blocks :: "dqblk \<Rightarrow> fs_usage \<Rightarrow> fs_usage" where
  "quota_blocks dqb u =
     (let used = curspace dqb div 1024; limit = bsoftlimit dqb
      in u\<lparr>total_blocks := limit, free_blocks := limit - used, available_blocks := limit - used, blocks_usage := percent_usage used limit,
           total_size := limit * 1024, free_size := limit * 1024 - curspace dqb, available_size := limit * 1024 - curspace dqb,
           size_usage := percent_usage (curspace dqb) (limit * 1024)\<rparr>)"

definition quota_inodes :: "dqblk \<Rightarrow> fs_usage \<Rightarrow> fs_usage" where
  "quota_inodes dqb u =
     (let limit = isoftlimit dqb
      in u\<lparr>total_inodes := limit, free_inodes := limit - curinodes dqb, available_inodes := limit - curinodes dqb,
           inode_usage := percent_usage (curinodes dqb) limit\<rparr>)"

definition fs_blocks :: "fs_usage \<Rightarrow> fs_usage \<Rightarrow> fs_usage" where
  "fs_blocks f u =
     u\<lparr>block_size := block_size f, fragment_size := fragment_size f, total_blocks := total_blocks f, free_blocks := free_blocks f,
       available_blocks := available_blocks f, blocks_usage := blocks_usage f, total_size := total_size f, free_size := free_size f,
       available_size := available_size f, size_usage := size_usage f\<rparr>"

definition fs_inodes :: "fs_usage \<Rightarrow> fs_usage \<Rightarrow> fs_usage" where
  "fs_inodes f u =
     u\<lparr>total_inodes := total_inodes f, free_inodes := free_inodes f, available_inodes := available_inodes f, inode_usage := inode_usage f\<rparr>"

definition get_generic_quota_usage :: "fs_host \<Rightarrow> string \<Rightarrow> string \<Rightarrow> nat \<Rightarrow> (exn, fs_usage) result" where
  "get_generic_quota_usage h path device uid =
     (case fs_quota h device uid of
        Inl err \<Rightarrow> Inl (Runtime_error (''quotactl(QCMD(Q_GETQUOTA,USRQUOTA),..) failed on '' @ device @ ''; errno: '' @ err))
      | Inr dqb \<Rightarrow>
          if \<not> fs_zeroed_strings h then Inl Undefined
          else
          let u0 = no_usage\<lparr>u_type := ''quota'', quota_limit_type := ''soft'', block_size := 1024, fragment_size := 1024\<rparr>;
              u1 = (if bsoftlimit dqb \<noteq> 0 then quota_blocks dqb u0 else u0);
              u2 = (if isoftlimit dqb \<noteq> 0 then quota_inodes dqb u1 else u1)
          in if bsoftlimit dqb = 0 \<or> isoftlimit dqb = 0 then
               bind_r (get_fs_usage h path) (\<lambda>f.
               let u3 = (if bsoftlimit dqb = 0 then fs_blocks f u2 else u2)
               in Inr (if isoftlimit dqb = 0 then fs_inodes f u3 else u3))
             else Inr u2)"

definition get_quota_usage :: "fs_host \<Rightarrow> string \<Rightarrow> string \<Rightarrow> (exn, fs_usage) result" where
  "get_quota_usage h path user =
     bind_r (get_uid h user) (\<lambda>uid.
     bind_r (get_mount_point h path) (\<lambda>m.
     get_generic_quota_usage h path (mount_source m) uid))"

definition get_quota_or_fs_usage :: "fs_host \<Rightarrow> string \<Rightarrow> string \<Rightarrow> (exn, fs_usage) result" where
  "get_quota_or_fs_usage h path user =
     bind_r (quota_enabled h path) (\<lambda>quota.
     if quota then
       (if user = [] then Inl (Runtime_error ''No username given; can't check quota'') else get_quota_usage h path user)
     else get_fs_usage h path)"

section \<open>Correctness\<close>

lemma quotient_le_1: "0 < m \<Longrightarrow> n \<le> m \<Longrightarrow> (of_nat n / of_nat m :: rat) \<le> 1"
  by (simp add: divide_le_eq_1)

lemma percent_usage_bound: "used \<le> most \<Longrightarrow> 0 \<le> percent_usage used most \<and> percent_usage used most \<le> 100"
proof (cases "most = 0")
  case False
  assume "used \<le> most"
  let ?q = "of_nat (unat used) / of_nat (unat most) :: rat"
  have "0 < unat most" using False by (simp add: unat_gt_0)
  moreover have "unat used \<le> unat most" using \<open>used \<le> most\<close> by (simp add: word_le_nat_alt)
  ultimately have "?q \<le> 1" by (rule quotient_le_1)
  then have "\<lfloor>?q * 100 * 100 + 1 / 2\<rfloor> \<le> \<lfloor>10000 + 1 / 2 :: rat\<rfloor>" by (intro floor_mono) simp
  also have "\<lfloor>10000 + 1 / 2 :: rat\<rfloor> = 10000" by (simp add: floor_eq_iff)
  finally have "of_int \<lfloor>?q * 100 * 100 + 1 / 2\<rfloor> \<le> (10000 :: rat)" by (metis of_int_le_iff of_int_numeral)
  moreover have "0 \<le> ?q" by (intro divide_nonneg_nonneg of_nat_0_le_iff)
  then have "0 \<le> \<lfloor>?q * 100 * 100 + 1 / 2\<rfloor>" unfolding zero_le_floor by linarith
  ultimately show ?thesis using False by (simp add: percent_usage_def)
qed (simp add: percent_usage_def)

lemma quota_within:
  assumes "unat (bsoftlimit q) * 1024 < 2 ^ 64" and "unat (curspace q) \<le> unat (bsoftlimit q) * 1024"
  shows "unat (available_size (quota_blocks q u)) = unat (bsoftlimit q) * 1024 - unat (curspace q)"
    and "unat (available_blocks (quota_blocks q u)) = unat (bsoftlimit q) - unat (curspace q) div 1024"
    and "size_usage (quota_blocks q u) \<le> 100" and "blocks_usage (quota_blocks q u) \<le> 100"
proof -
  have l: "unat (bsoftlimit q * 1024) = unat (bsoftlimit q) * 1024" using assms(1) by (simp add: unat_word_ariths)
  then have le: "curspace q \<le> bsoftlimit q * 1024" using assms(2) by (simp add: word_le_nat_alt)
  have d: "unat (curspace q div 1024) = unat (curspace q) div 1024" by (simp add: unat_div)
  have le': "curspace q div 1024 \<le> bsoftlimit q" using assms(2) d by (simp add: word_le_nat_alt)
  show "unat (available_size (quota_blocks q u)) = unat (bsoftlimit q) * 1024 - unat (curspace q)"
    using l le by (simp add: quota_blocks_def Let_def unat_sub)
  show "unat (available_blocks (quota_blocks q u)) = unat (bsoftlimit q) - unat (curspace q) div 1024"
    using d le' by (simp add: quota_blocks_def Let_def unat_sub)
  show "size_usage (quota_blocks q u) \<le> 100" "blocks_usage (quota_blocks q u) \<le> 100"
    using percent_usage_bound le le' by (simp_all add: quota_blocks_def Let_def)
qed

lemma quota_beyond:
  assumes "unat (bsoftlimit q) * 1024 < unat (curspace q)"
  shows "unat (available_size (quota_blocks q u)) = 2 ^ 64 - (unat (curspace q) - unat (bsoftlimit q) * 1024)"
proof -
  have "unat (curspace q) < 2 ^ 64" using unsigned_less [of "curspace q", where ?'a = nat] by simp
  then have "unat (bsoftlimit q) * 1024 < 2 ^ 64" using assms by linarith
  then have "unat (bsoftlimit q * 1024) = unat (bsoftlimit q) * 1024" by (simp add: unat_word_ariths)
  then show ?thesis using assms by (simp add: quota_blocks_def Let_def unat_sub_if_size word_size)
qed

text \<open>
  What a user with a quota is told, where the strings of the zeroed struct can be assigned. Below the soft limit, the space
  reported as available is what the limit leaves, and the usage is at most 100 percent. Beyond it, which the system allows
  up to the hard limit, the difference wraps around: the available space is then close to the largest number of 64 bits.
\<close>

lemma quota_available:
  assumes "quota_enabled h path = Inr True" and "user \<noteq> []" and "fs_passwd h user = Found uid gid"
    and "get_device h path = Inr dev" and "fs_quota h dev uid = Inr q"
    and "bsoftlimit q \<noteq> 0" and "isoftlimit q \<noteq> 0" and "unat (bsoftlimit q) * 1024 < 2 ^ 64"
    and "fs_zeroed_strings h"
  shows "\<exists>u. get_quota_or_fs_usage h path user = Inr u \<and>
     (if unat (curspace q) \<le> unat (bsoftlimit q) * 1024
      then unat (available_size u) + unat (curspace q) = unat (bsoftlimit q) * 1024 \<and> size_usage u \<le> 100
      else unat (available_size u) + (unat (curspace q) - unat (bsoftlimit q) * 1024) = 2 ^ 64)"
proof -
  let ?u = "quota_inodes q (quota_blocks q (no_usage\<lparr>u_type := ''quota'', quota_limit_type := ''soft'', block_size := 1024, fragment_size := 1024\<rparr>))"
  have run: "get_quota_or_fs_usage h path user = Inr ?u"
    using assms(1-7,9) by (auto simp: get_quota_or_fs_usage_def get_quota_usage_def get_uid_def get_device_def bind_r_Inr_iff get_generic_quota_usage_def)
  have same: "available_size ?u = available_size (quota_blocks q u)" "size_usage ?u = size_usage (quota_blocks q u)" for u
    by (simp_all add: quota_inodes_def quota_blocks_def Let_def)
  show ?thesis
  proof (cases "unat (curspace q) \<le> unat (bsoftlimit q) * 1024")
    case True
    then show ?thesis using run quota_within [OF assms(8) True, of no_usage] same [of no_usage] by simp
  next
    case False
    then have "unat (available_size ?u) + (unat (curspace q) - unat (bsoftlimit q) * 1024) = 2 ^ 64"
      using quota_beyond [of q no_usage] same(1) [of no_usage] unsigned_less [of "curspace q", where ?'a = nat] by simp
    then show ?thesis using run False by auto
  qed
qed

definition demo_fs :: fs_host where
  "demo_fs =
     \<lparr>fs_realpath = Inr, fs_mount = (\<lambda>p. Inr (if p = ''/'' then Some (Mount (Some ''/dev/sda'') (Some ''/'') (Some ''ext4'') []) else None)),
      fs_statvfs = (\<lambda>p. Inl ''failed''), fs_quota_info = (\<lambda>k d. k = Usr_quota),
      fs_quota = (\<lambda>d u. Inr \<lparr>bsoftlimit = 1, curspace = 1025, isoftlimit = 10, curinodes = 4\<rparr>),
      fs_passwd = (\<lambda>u. Found 500 500), fs_errno_text = [], fs_zeroed_strings = True\<rparr>"

lemma demo_fs_device: "get_device demo_fs ''/home'' = Inr ''/dev/sda''"
proof -
  have "dirname ''/home'' = ''/''" by (simp add: dirname_def trim_end.simps)
  then have "get_parent_mount (fs_mount demo_fs) (is_root_path demo_fs) ''/home'' = Inr (Mount (Some ''/dev/sda'') (Some ''/'') (Some ''ext4'') [])"
    by (subst get_parent_mount.simps) (simp add: demo_fs_def)
  then show ?thesis
    by (simp add: get_device_def get_mount_point_def mounts_of_def get_mounts_def mount_source_def or_nil_def demo_fs_def)
qed

lemma quota_available_witness:
  "\<exists>u. get_quota_or_fs_usage demo_fs ''/home'' ''joe'' = Inr u \<and> unat (available_size u) + 1 = 2 ^ 64"
proof -
  have "quota_enabled demo_fs ''/home'' = Inr True" by (simp add: quota_enabled_def demo_fs_device) (simp add: demo_fs_def)
  from quota_available [OF this _ _ demo_fs_device, of "''joe''" 500 500 "\<lparr>bsoftlimit = 1, curspace = 1025, isoftlimit = 10, curinodes = 4\<rparr>"]
  show ?thesis by (simp add: demo_fs_def)
qed

end
