(* ===== verification/Dtn_Agent.thy ===== *)
theory Dtn_Agent
  imports Checksum Grid_Map Path_Groups Json_Value Fs_Usage
begin

text \<open>
  The agent on a data transfer node, \<open>src/agent/dtnagent.cc\<close>: its state, what it asks of the machine, and the
  helpers that its command handlers share. The machine is a record of functions on an opaque world: the file
  system, accounts, digests, routes, ping, disk usage, interface counters. They stand for system calls, OpenSSL,
  netlink and the database.
\<close>

section \<open>Machine and agent\<close>

text \<open>\<open>rtnl_link_stats\<close>: counters of 32 bits, which wrap around.\<close>

record link_stats =
  rx_packets :: "32 word"
  tx_packets :: "32 word"
  rx_bytes :: "32 word"
  tx_bytes :: "32 word"
  rx_errors :: "32 word"
  tx_errors :: "32 word"
  rx_dropped :: "32 word"
  tx_dropped :: "32 word"

text \<open>
  \<open>m_realpath\<close> gives the error text on the left. \<open>m_stat\<close> is owner, group and mode of a name, \<open>m_link\<close> whether it
  is a symbolic link. \<open>m_what\<close> is the text of an exception of a library. Calls that only read take the world and
  give a result; the others give a new world, too. \<open>m_tasks\<close> is what others hold of the checksum task counter.
\<close>

record ('w, 'c) machine =
  m_what :: "exn \<Rightarrow> string"
  m_fs :: "'w \<Rightarrow> string \<Rightarrow> fnode"
  m_link :: "'w \<Rightarrow> string \<Rightarrow> bool"
  m_realpath :: "'w \<Rightarrow> string \<Rightarrow> string + string"
  m_stat :: "'w \<Rightarrow> string \<Rightarrow> nat \<times> nat \<times> nat"
  m_passwd :: "'w \<Rightarrow> string \<Rightarrow> account"
  m_disk :: "'w \<Rightarrow> disk"
  m_crypto :: "'c crypto"
  m_tasks :: "'w \<Rightarrow> nat \<Rightarrow> nat"
  m_mounts :: "'w \<Rightarrow> string \<Rightarrow> (exn, mount_node option) result"
  m_statvfs :: "'w \<Rightarrow> string \<Rightarrow> string + vfs_stat"
  m_quota_info :: "'w \<Rightarrow> quota_kind \<Rightarrow> string \<Rightarrow> bool"
  m_quota :: "'w \<Rightarrow> string \<Rightarrow> nat \<Rightarrow> string + dqblk"
  m_errno_text :: "'w \<Rightarrow> string"
  m_link_stats :: "'w \<Rightarrow> string \<Rightarrow> (exn, link_stats) result"
  m_check_iface :: "'w \<Rightarrow> string \<Rightarrow> (exn, unit) result"
  m_strerror :: "int \<Rightarrow> string"
  m_add_route :: "string \<Rightarrow> string \<Rightarrow> string \<Rightarrow> string \<Rightarrow> 'w \<Rightarrow> (exn, unit) result \<times> 'w"
  m_delete_route :: "string \<Rightarrow> string \<Rightarrow> string \<Rightarrow> 'w \<Rightarrow> (exn, unit) result \<times> 'w"
  m_add_arp :: "string \<Rightarrow> string \<Rightarrow> string \<Rightarrow> 'w \<Rightarrow> (exn, unit) result \<times> 'w"
  m_delete_arp :: "string \<Rightarrow> 'w \<Rightarrow> (exn, unit) result \<times> 'w"
  m_ping :: "string \<Rightarrow> int \<Rightarrow> int \<Rightarrow> bool \<Rightarrow> 'w \<Rightarrow> (exn, int \<times> string) result \<times> 'w"
  m_send_ping :: "json \<Rightarrow> 'w \<Rightarrow> (exn, json) result \<times> 'w"
  m_mkdir :: "string \<Rightarrow> 'w \<Rightarrow> int \<times> 'w"
  m_chown :: "string \<Rightarrow> nat \<Rightarrow> nat \<Rightarrow> 'w \<Rightarrow> int \<times> 'w"
  m_add_block :: "json \<Rightarrow> 'w \<Rightarrow> (exn, string) result \<times> 'w"
  m_gridmap :: "'w \<Rightarrow> mapfiles"
  m_set_gridmap :: "mapfiles \<Rightarrow> 'w \<Rightarrow> 'w"
  m_renames :: "'w \<Rightarrow> bool \<times> bool"
  m_vcap :: "nat \<Rightarrow> nat"

text \<open>
  The agent. The flags that the code keeps as file-level variables are fields, too. \<open>pong\<close> tells whether there is
  a pong thread to join, \<open>pong_stopped\<close> that its \<open>io_service\<close> has been stopped, \<open>pong_serving\<close> that the thread
  serves.
\<close>

record ('w, 'c) dtn =
  d_machine :: "('w, 'c) machine"
  d_world :: 'w
  data_folders :: "string list"
  mgmt_iface :: string
  data_ifaces :: "string list"
  storage_ifaces :: "string list"
  link_rates :: "(string, link_stats) stdmap"
  link_rates_computed :: bool
  ignore_route_cmds :: bool
  ignore_arp_cmds :: bool
  use_parent_list :: bool
  checksum_threads :: nat
  pong :: bool
  pong_stopped :: bool
  pong_serving :: bool

type_synonym ('w, 'c, 'a) dtn_act = "(('w, 'c) dtn, exn, 'a) act"

text \<open>Nothing is assumed of strings that \<open>memset\<close> has zeroed: the usage of a quota is undefined.\<close>

definition fs_host_of :: "('w, 'c) machine \<Rightarrow> 'w \<Rightarrow> fs_host" where
  "fs_host_of m w =
     \<lparr>fs_realpath = m_realpath m w, fs_mount = m_mounts m w, fs_statvfs = m_statvfs m w, fs_quota_info = m_quota_info m w,
      fs_quota = m_quota m w, fs_passwd = m_passwd m w, fs_errno_text = m_errno_text m w, fs_zeroed_strings = False\<rparr>"

definition world_a :: "('w \<Rightarrow> (exn, 'a) result \<times> 'w) \<Rightarrow> ('w, 'c, 'a) dtn_act" where
  "world_a f = (\<lambda>s. let (r, w) = f (d_world s) in (r, s\<lparr>d_world := w\<rparr>))"

section \<open>Requests and responses\<close>

definition json_response :: "int \<Rightarrow> string \<Rightarrow> json" where
  "json_response code error = jobj [(''code'', JInt code), (''error'', JStr error)]"

text \<open>Reading a request: a member of something that is not an object, or of the wrong kind, throws.\<close>

definition q_get :: "json \<Rightarrow> sel list \<Rightarrow> (exn, json) result" where
  "q_get j p = opt_r Json_error (jget j p)"

definition q_str :: "json \<Rightarrow> sel list \<Rightarrow> (exn, string) result" where
  "q_str j p = opt_r Json_error (Option.bind (jget j p) asString)"

definition q_int :: "json \<Rightarrow> sel list \<Rightarrow> (exn, int) result" where
  "q_int j p = opt_r Json_error (Option.bind (jget j p) asInt)"

definition q_nat :: "json \<Rightarrow> sel list \<Rightarrow> (exn, nat) result" where
  "q_nat j p = opt_r Json_error (map_option nat (Option.bind (jget j p) asUInt64))"

definition q_bool :: "json \<Rightarrow> sel list \<Rightarrow> (exn, bool) result" where
  "q_bool j p = opt_r Json_error (Option.bind (jget j p) asBool)"

text \<open>A value that is an array of strings or a single string.\<close>

definition string_list :: "json \<Rightarrow> (exn, string list) result" where
  "string_list j =
     (if isArray j then map_r (\<lambda>v. opt_r Json_error (asString v)) (elems j)
      else bind_r (opt_r Json_error (asString j)) (\<lambda>s. Inr [s]))"

text \<open>A value built by \<open>append\<close>: without elements it stays null.\<close>

definition jlist :: "json list \<Rightarrow> json" where
  "jlist vs = (if vs = [] then JNull else jarr vs)"

text \<open>\<open>catch (std::exception const &)\<close>, and \<open>what()\<close>.\<close>

definition std_exn :: "exn \<Rightarrow> bool" where
  "std_exn e \<longleftrightarrow> (case e of Text_thrown t \<Rightarrow> False | Undefined \<Rightarrow> False | _ \<Rightarrow> True)"

definition what :: "('w, 'c) machine \<Rightarrow> exn \<Rightarrow> string" where
  "what m e = (case e of Runtime_error s \<Rightarrow> s | _ \<Rightarrow> m_what m e)"

definition catch_r :: "(exn, 'a) result \<Rightarrow> (exn \<Rightarrow> 'a) \<Rightarrow> (exn, 'a) result" where
  "catch_r r h = (case r of Inl e \<Rightarrow> if std_exn e then Inr (h e) else Inl e | Inr a \<Rightarrow> Inr a)"

definition catch_s :: "('s, exn, 'a) act \<Rightarrow> (exn \<Rightarrow> 'a) \<Rightarrow> ('s, exn, 'a) act" where
  "catch_s m h = (\<lambda>s. case m s of (r, s') \<Rightarrow> (catch_r r h, s'))"

section \<open>Names\<close>

definition canonical_name :: "('w, 'c) machine \<Rightarrow> 'w \<Rightarrow> string \<Rightarrow> (exn, string) result" where
  "canonical_name m w p =
     (case m_realpath m w p of
        Inl err \<Rightarrow> Inl (Runtime_error (''realpath('' @ p @ '') error: '' @ err))
      | Inr r \<Rightarrow> Inr (if is_directory (m_fs m w p) then r @ ''/'' else r))"

definition dir_name :: "('w, 'c) machine \<Rightarrow> 'w \<Rightarrow> string \<Rightarrow> (exn, string) result" where
  "dir_name m w p = bind_r (canonical_name m w p) (\<lambda>c. Inr (dirname c @ ''/''))"

definition readable_by :: "('w, 'c) machine \<Rightarrow> 'w \<Rightarrow> string \<Rightarrow> nat \<Rightarrow> nat \<Rightarrow> bool" where
  "readable_by m w p uid gid =
     (let (u, g, mode) = m_stat m w p
      in uid = u \<and> odd (mode div 256) \<or> gid = g \<and> odd (mode div 32) \<or> odd (mode div 4))"

text \<open>
  \<open>data_folder_contains\<close>: the real path begins with the characters of a data folder. A data folder that cannot
  be resolved ends the search. \<open>std::mismatch\<close> reads past the end of a path that is a proper prefix of the folder.
\<close>

fun folders_contain :: "('w, 'c) machine \<Rightarrow> 'w \<Rightarrow> string list \<Rightarrow> string \<Rightarrow> (exn, bool) result" where
  "folders_contain m w [] path = Inr False"
| "folders_contain m w (df # dfs) path =
     (case (m_realpath m w path, m_realpath m w df) of
        (Inr p, Inr f) \<Rightarrow>
          (if take (length f) p = f then Inr True
           else if take (length p) f = p then Inl Undefined
           else folders_contain m w dfs path)
      | _ \<Rightarrow> Inr False)"

definition data_folder_contains :: "('w, 'c) dtn \<Rightarrow> string \<Rightarrow> (exn, bool) result" where
  "data_folder_contains s = folders_contain (d_machine s) (d_world s) (data_folders s)"

definition check_expand_params :: "('w, 'c) dtn \<Rightarrow> string list \<Rightarrow> (exn, unit) result" where
  "check_expand_params s paths =
     fold_r (\<lambda>p _. bind_r (data_folder_contains s p) (\<lambda>ok.
       if ok then Inr () else Inl (Runtime_error (''path '' @ p @ '' is not under a data folder'')))) paths ()"

text \<open>The account of the user a request names; no name is no check.\<close>

definition request_user :: "('w, 'c) dtn \<Rightarrow> string \<Rightarrow> (exn, (nat \<times> nat) option) result" where
  "request_user s user =
     (if user = [] then Inr None
      else case m_passwd (d_machine s) (d_world s) user of
        Found uid gid \<Rightarrow> Inr (Some (uid, gid))
      | No_user \<Rightarrow> Inl (Runtime_error (''no such user: '' @ user))
      | Lookup_failed n \<Rightarrow> Inl (Runtime_error ''getpwnam_r() failed''))"

definition may_read :: "('w, 'c) dtn \<Rightarrow> (nat \<times> nat) option \<Rightarrow> string \<Rightarrow> bool" where
  "may_read s acct p = (case acct of None \<Rightarrow> True | Some (uid, gid) \<Rightarrow> readable_by (d_machine s) (d_world s) p uid gid)"

text \<open>
  Trailing slashes of the destination: the loop calls \<open>back()\<close> on the empty string when there is nothing else.
\<close>

definition strip_slashes :: "string \<Rightarrow> (exn, string) result" where
  "strip_slashes p =
     (let q = rev (dropWhile (\<lambda>c. c = CHR ''/'') (rev p)) in if q = [] then Inl Undefined else Inr q)"

definition make_dst_path_name :: "string \<Rightarrow> string \<Rightarrow> string" where
  "make_dst_path_name src_path dst_path =
     (if last dst_path \<noteq> CHR ''/'' then dst_path @ ''/'' @ basename src_path else dst_path @ basename src_path)"

section \<open>Interface statistics\<close>

definition rate_per_second :: "32 word \<Rightarrow> 32 word" where
  "rate_per_second n = n div 120"

definition zero_stats :: link_stats where
  "zero_stats = \<lparr>rx_packets = 0, tx_packets = 0, rx_bytes = 0, tx_bytes = 0, rx_errors = 0, tx_errors = 0, rx_dropped = 0, tx_dropped = 0\<rparr>"

definition new_rates :: "link_stats \<Rightarrow> link_stats \<Rightarrow> link_stats" where
  "new_rates stat newstat =
     \<lparr>rx_packets = rate_per_second (rx_packets newstat - rx_packets stat),
      tx_packets = rate_per_second (tx_packets newstat - tx_packets stat),
      rx_bytes = rate_per_second (rx_bytes newstat - rx_bytes stat),
      tx_bytes = rate_per_second (tx_bytes newstat - tx_bytes stat),
      rx_errors = rate_per_second (rx_errors newstat - rx_errors stat),
      tx_errors = rate_per_second (tx_errors newstat - tx_errors stat),
      rx_dropped = rate_per_second (rx_dropped newstat - rx_dropped stat),
      tx_dropped = rate_per_second (tx_dropped newstat - tx_dropped stat)\<rparr>"

text \<open>\<open>link_rates_[iface]\<close> creates a missing entry, before \<open>get_link_stats\<close> may throw.\<close>

definition update_interface_traffic :: "string \<Rightarrow> ('w, 'c, unit) dtn_act" where
  "update_interface_traffic iface =
     bind_a (upd_a (\<lambda>s. s\<lparr>link_rates := emplace iface zero_stats (link_rates s)\<rparr>)) (\<lambda>_.
     bind_a (\<lambda>s. (m_link_stats (d_machine s) (d_world s) iface, s)) (\<lambda>newstat.
     upd_a (\<lambda>s. s\<lparr>link_rates := adjust iface (\<lambda>stat. new_rates stat newstat) (link_rates s), link_rates_computed := True\<rparr>)))"

definition check_network_interface :: "string \<Rightarrow> ('w, 'c, unit) dtn_act" where
  "check_network_interface iface = (\<lambda>s. (m_check_iface (d_machine s) (d_world s) iface, s))"

definition check_network_interfaces :: "('w, 'c, unit) dtn_act" where
  "check_network_interfaces =
     catch_s
       (bind_a (get_a mgmt_iface) (\<lambda>mgmt.
        bind_a (check_network_interface mgmt) (\<lambda>_.
        bind_a (get_a data_ifaces) (\<lambda>ifaces.
        foreach_a (\<lambda>di. bind_a (check_network_interface di) (\<lambda>_. update_interface_traffic di)) ifaces))))
       (\<lambda>_. ())"

text \<open>\<open>do_init\<close> starts from the counters of the moment.\<close>

definition init_link_rates :: "('w, 'c, unit) dtn_act" where
  "init_link_rates =
     bind_a (get_a data_ifaces) (\<lambda>ifaces.
     foreach_a (\<lambda>di.
       bind_a (\<lambda>s. (m_link_stats (d_machine s) (d_world s) di, s)) (\<lambda>st.
       upd_a (\<lambda>s. s\<lparr>link_rates := emplace di st (link_rates s)\<rparr>))) ifaces)"

definition jword :: "32 word \<Rightarrow> json" where
  "jword w = JUInt (uint w)"

text \<open>The drop rates that are reported are the error rates.\<close>

definition get_interface_status :: "('w, 'c) dtn \<Rightarrow> string \<Rightarrow> json" where
  "get_interface_status s ifname =
     (case map_of (link_rates s) ifname of
        Some r \<Rightarrow> jobj
          [(''interface'', JStr ifname),
           (''rate'', jobj
             [(''rx-bytes'', jword (rx_bytes r)), (''tx-bytes'', jword (tx_bytes r)),
              (''rx-packets'', jword (rx_packets r)), (''tx-packets'', jword (tx_packets r)),
              (''rx-errors'', jword (rx_errors r)), (''tx-errors'', jword (tx_errors r)),
              (''rx-dropped'', jword (rx_errors r)), (''tx-dropped'', jword (tx_errors r))])]
      | None \<Rightarrow> jobj [(''interface'', JStr ifname), (''error'', JStr (''no stats for interface '' @ ifname))])"

definition with_role :: "string \<Rightarrow> json \<Rightarrow> (exn, json) result" where
  "with_role role v = opt_r Json_error (jset [K ''role''] (JStr role) v)"

definition handle_dtn_status_command :: "json \<Rightarrow> ('w, 'c) dtn \<Rightarrow> (exn, json) result" where
  "handle_dtn_status_command message s =
     bind_r (q_str message [K ''interface'']) (\<lambda>iface.
     if \<not> link_rates_computed s then Inr (json_response 1 ''link rates are not available yet'')
     else if iface \<noteq> [] then Inr (jobj [(''status'', get_interface_status s iface), (''code'', JInt 0)])
     else
       bind_r (with_role ''control interface'' (get_interface_status s (mgmt_iface s))) (\<lambda>c.
       bind_r (map_r (\<lambda>di. with_role ''data interface'' (get_interface_status s di)) (data_ifaces s)) (\<lambda>ds.
       bind_r (map_r (\<lambda>si. with_role ''storage interface'' (get_interface_status s si)) (storage_ifaces s)) (\<lambda>ss.
       Inr (jobj [(''status'', jarr (c # ds @ ss)), (''code'', JInt 0)])))))"

end
