(* ===== verification/Dtn_Files.thy ===== *)
theory Dtn_Files
  imports Dtn_Agent
begin

text \<open>
  The commands of the agent that are about files: expanding and grouping for a transfer, listing, sizes and
  checksums (\<open>src/agent/dtnagent.cc\<close>, lines 1418 to 2220 and 2612 to 2850, 3024 to 3280).
\<close>

section \<open>Expanding\<close>

definition file_entry :: "path \<Rightarrow> json" where
  "file_entry = (\<lambda>(p, x). jobj [(''name'', JStr p), (''size'', JUInt (int (psize x)))])"

text \<open>The entries of one path: everything below a directory, or the path itself.\<close>

definition expand_path :: "('w, 'c) dtn \<Rightarrow> string \<Rightarrow> (nat \<times> nat) option \<Rightarrow> string \<Rightarrow> (exn, path list) result" where
  "expand_path s user acct p =
     (let x = m_fs (d_machine s) (d_world s) p
      in if is_directory x then
           map_r (\<lambda>q. if may_read s acct (fst q) then Inr q
             else Inl (Runtime_error (''user '' @ user @ '' can't read '' @ fst q))) (walk True (p, x))
         else Inr [(p, x)])"

definition handle_expand_command :: "json \<Rightarrow> ('w, 'c) dtn \<Rightarrow> (exn, json) result" where
  "handle_expand_command message s =
     catch_r
       (bind_r (q_get message [K ''files'']) (\<lambda>files.
        if jempty files then Inl (Runtime_error ''empty parmeter: files'')
        else
          bind_r (string_list files) (\<lambda>paths.
          bind_r (check_expand_params s paths) (\<lambda>_.
          bind_r (q_str message [K ''user'']) (\<lambda>user.
          bind_r (request_user s user) (\<lambda>acct.
          bind_r (map_r (expand_path s user acct) paths) (\<lambda>pss.
          Inr (jobj
            [(''code'', JInt 0), (''error'', JStr ''OK''),
             (''total_size'', JUInt (int (sum_list (map (\<lambda>(p, x). psize x) (concat pss))))),
             (''files'', jlist (map file_entry (concat pss)))]))))))))
       (\<lambda>e. json_response 1 (''error: '' @ what (d_machine s) e))"

section \<open>Expanding and grouping, first version\<close>

definition group_entry :: "string \<Rightarrow> path \<Rightarrow> json" where
  "group_entry dst_path = (\<lambda>(p, x).
     let dst = make_dst_path_name p dst_path
     in jarr (if is_directory x then [JStr (p @ ''/''), JStr (dst @ ''/''), JUInt (int (psize x)), JInt 0]
              else [JStr p, JStr dst, JUInt (int (psize x)), JInt 0]))"

definition group_value :: "string \<Rightarrow> path list \<Rightarrow> json" where
  "group_value dst_path g =
     jobj [(''files'', jlist (map (group_entry dst_path) g)), (''size'', JUInt (int (paths_size g)))]"

definition fs_path :: "('w, 'c) dtn \<Rightarrow> string \<Rightarrow> path" where
  "fs_path s p = (p, m_fs (d_machine s) (d_world s) p)"

definition handle_expand_and_group_command :: "json \<Rightarrow> ('w, 'c) dtn \<Rightarrow> (exn, json) result" where
  "handle_expand_and_group_command message s =
     catch_r
       (bind_r (q_get message [K ''src_path'']) (\<lambda>files.
        if jempty files then Inl (Runtime_error ''empty parmeter: src_path'')
        else
          bind_r (string_list files) (\<lambda>src_paths.
          bind_r (check_expand_params s src_paths) (\<lambda>_.
          bind_r (q_str message [K ''dst_path'']) (\<lambda>dst0.
          if dst0 = [] then Inl (Runtime_error ''empty parmeter: dst_path'')
          else
            bind_r (strip_slashes dst0) (\<lambda>dst_path.
            bind_r (q_str message [K ''user'']) (\<lambda>user.
            bind_r (request_user s user) (\<lambda>_.
            bind_r (q_nat message [K ''group_size'']) (\<lambda>group_size.
            if group_size = 0 then Inl (Runtime_error ''group_size is empty or zero'')
            else
              bind_r (q_nat message [K ''max_files'']) (\<lambda>max_files.
              bind_r (map_r (dir_name (d_machine s) (d_world s)) src_paths) (\<lambda>_.
              bind_r (PathGroupsHelper (map (fs_path s) src_paths)) (\<lambda>interim.
              let gs = group_by_size interim group_size max_files
              in Inr (jobj
                   [(''code'', JInt 0), (''error'', JStr ''OK''),
                    (''total_size'', JUInt (int (sum_list (map paths_size gs)))),
                    (''files'', jobj [(''groups'', jarr (map (group_value dst_path) gs))])])))))))))))))
       (\<lambda>e. json_response 1 (''error: '' @ what (d_machine s) e))"

section \<open>Expanding and grouping, second version\<close>

text \<open>\<open>expand_and_group_v2_params\<close>; the digest is null when OpenSSL does not know the name.\<close>

record 'c v2_params =
  src_paths :: "string list"
  dst_path :: string
  v2_group_size :: nat
  v2_max_files :: nat
  v2_user :: string
  result_in_db :: bool
  compute_checksum :: bool
  checksum_algorithm :: string
  v2_md :: "'c evp option"

definition decode_v2_params :: "json \<Rightarrow> ('w, 'c) dtn \<Rightarrow> (exn, 'c v2_params) result" where
  "decode_v2_params message s =
     bind_r (q_get message [K ''src_path'']) (\<lambda>files.
     if jempty files then Inl (Runtime_error ''empty parmeter: src_path'')
     else
       bind_r (string_list files) (\<lambda>paths.
       bind_r (q_str message [K ''dst_path'']) (\<lambda>dst0.
       if dst0 = [] then Inl (Runtime_error ''empty parmeter: dst_path'')
       else
         bind_r (strip_slashes dst0) (\<lambda>dst.
         bind_r (q_nat message [K ''group_size'']) (\<lambda>group_size.
         if group_size = 0 then Inl (Runtime_error ''group_size is empty or zero'')
         else
           bind_r (q_nat message [K ''max_files'']) (\<lambda>max_files.
           bind_r (q_str message [K ''user'']) (\<lambda>user.
           bind_r (q_bool message [K ''result_in_db'']) (\<lambda>in_db.
           bind_r (q_bool message [K ''checksum'', K ''compute'']) (\<lambda>compute.
           bind_r (q_get message [K ''checksum'', K ''algorithm'']) (\<lambda>alg.
           let params = \<lparr>src_paths = paths, dst_path = dst, v2_group_size = group_size, v2_max_files = max_files,
                         v2_user = user, result_in_db = in_db, compute_checksum = compute,
                         checksum_algorithm = ''sha1'', v2_md = digestbyname (m_crypto (d_machine s)) ''sha1''\<rparr>
           in if compute \<and> \<not> jempty alg then
                bind_r (opt_r Json_error (asString alg)) (\<lambda>name.
                case digestbyname (m_crypto (d_machine s)) name of
                  None \<Rightarrow> Inl (Runtime_error (''Unknown message digest algorithm: '' @ name))
                | Some md \<Rightarrow> Inr (params\<lparr>checksum_algorithm := name, v2_md := Some md\<rparr>))
              else Inr params))))))))))"

text \<open>Checksums with a digest that may be null: initialising a context with it fails.\<close>

definition checksum_opt :: "'c evp option \<Rightarrow> disk \<Rightarrow> string \<Rightarrow> (exn, string) result" where
  "checksum_opt md d path =
     (case md of
        Some m \<Rightarrow> checksum_md m d path
      | None \<Rightarrow> bind_r (opt_r (Runtime_error (''Error opening '' @ path)) (d path)) (\<lambda>_. Inl (Runtime_error ''EVP_DigestInit_ex() failed'')))"

definition add_file_checksum :: "('w, 'c) dtn \<Rightarrow> 'c v2_params \<Rightarrow> string \<Rightarrow> string \<Rightarrow> (exn, json) result" where
  "add_file_checksum s params p dst =
     bind_r (canonical_name (d_machine s) (d_world s) p) (\<lambda>c.
     bind_r (checksum_opt (v2_md params) (m_disk (d_machine s) (d_world s)) c) (\<lambda>sum.
     Inr (jarr [JStr dst, JStr sum])))"

definition add_dir_checksum_of_checksums :: "('w, 'c) dtn \<Rightarrow> 'c v2_params \<Rightarrow> path \<Rightarrow> string \<Rightarrow> (exn, json) result" where
  "add_dir_checksum_of_checksums s params q dst =
     (case v2_md params of
        None \<Rightarrow> Inl (Runtime_error ''dir_checksum_of_checksums(): Received null message digest parameter'')
      | Some md \<Rightarrow>
          bind_r (fst (dir_checksum_of_checksums md (m_disk (d_machine s) (d_world s)) (m_tasks (d_machine s) (d_world s)) q True (checksum_threads s))) (\<lambda>sum.
          Inr (jarr [JStr (join_paths dst (basename (fst q)) @ ''/''), JStr sum])))"

text \<open>
  One path of a group: its entry, and its checksum. A large file may be read by a task of its own, whose result
  is waited for before the next path; that does not change the value.
\<close>

definition v2_path :: "('w, 'c) dtn \<Rightarrow> 'c v2_params \<Rightarrow> path \<Rightarrow> (exn, json \<times> json option) result" where
  "v2_path s params q =
     bind_r (canonical_name (d_machine s) (d_world s) (fst q)) (\<lambda>c.
     let dst = (if is_directory (snd q) then dst_path params else make_dst_path_name c (dst_path params));
         entry = jarr [JStr c, JStr (if is_directory (snd q) then dst @ ''/'' else dst), JUInt (int (psize (snd q))), JInt 0]
     in if compute_checksum params then
          bind_r (if is_directory (snd q) then add_dir_checksum_of_checksums s params q dst
                  else add_file_checksum s params (fst q) dst) (\<lambda>sum. Inr (entry, Some sum))
        else Inr (entry, None))"

text \<open>
  A group. \<open>checksums\<close> is a new value for every path, and each assignment to \<open>group["checksum"]["checksums"]\<close>
  replaces the one before.
\<close>

definition v2_group :: "('w, 'c) dtn \<Rightarrow> 'c v2_params \<Rightarrow> pathgroup \<Rightarrow> (exn, json) result" where
  "v2_group s params g =
     bind_r (map_r (v2_path s params) (pg_paths g)) (\<lambda>rs.
     let cks = map the (filter (\<lambda>c. c \<noteq> None) (map snd rs));
         base = (if rs = [] then [] else [(''files'', jarr (map fst rs))])
     in Inr (jobj (base @
          (if cks = [] then []
           else [(''checksum'', jobj [(''algorithm'', JStr (checksum_algorithm params)), (''checksums'', jarr [last cks])])]) @
          [(''size'', JUInt (int (pg_size g)))])))"

definition parent_entry :: "('w, 'c) dtn \<Rightarrow> 'c v2_params \<Rightarrow> path \<Rightarrow> (exn, json) result" where
  "parent_entry s params q =
     bind_r (canonical_name (d_machine s) (d_world s) (fst q)) (\<lambda>c.
     let dir = make_dst_path_name (fst q) (dst_path params)
     in Inr (jarr [JStr c, JStr (dir @ (if last dir = CHR ''/'' then [] else ''/'')), JInt 0, JInt 0]))"

definition head_group :: "('w, 'c) dtn \<Rightarrow> 'c v2_params \<Rightarrow> (string, fnode) stdmap \<Rightarrow> (exn, json list) result" where
  "head_group s params parents =
     (if use_parent_list s \<and> parents \<noteq> [] then
        bind_r (map_r (parent_entry s params) parents) (\<lambda>es.
        Inr [jobj [(''files'', jarr es), (''parent_folder_list'', JBool True)]])
      else Inr [])"

definition store_block :: "json \<Rightarrow> ('w, 'c, json) dtn_act" where
  "store_block g =
     bind_a (get_a d_machine) (\<lambda>m.
     bind_a (world_a (m_add_block m g)) (\<lambda>i.
     bind_a (lift_r (q_get g [K ''size''])) (\<lambda>size.
     ret_a (jobj [(''id'', JStr i), (''size'', size)]))))"

text \<open>What the loop over the source paths carries: total size, groups and parent folders, and the answer so far.\<close>

record v2_state =
  v2_total :: nat
  v2_groups :: "json list"
  v2_parents :: "(string, fnode) stdmap"
  v2_files :: json

definition v2_source :: "'c v2_params \<Rightarrow> string \<Rightarrow> v2_state \<Rightarrow> ('w, 'c, v2_state) dtn_act" where
  "v2_source params p st =
     bind_a (get_a (\<lambda>s. fs_path s p)) (\<lambda>q.
     let res = divide (v2_group_size params) (v2_max_files params) q;
         total = v2_total st + (if is_directory (snd q) then tree_size (snd q) else psize (snd q));
         parents = fold (\<lambda>(n, x). emplace n x) (sg_dirs res) (v2_parents st)
     in bind_a (\<lambda>s. (map_r (v2_group s params) (sg_groups res), s)) (\<lambda>gs.
        bind_a (\<lambda>s. (head_group s params parents, s)) (\<lambda>hd_gs.
        let groups = v2_groups st @ gs; res_groups = hd_gs @ groups
        in bind_a (if result_in_db params
                   then bind_a (map_a store_block res_groups) (\<lambda>bs. ret_a (jobj [(''result_in_db'', JBool True), (''groups'', jlist bs)]))
                   else ret_a (jobj [(''groups'', jlist res_groups)])) (\<lambda>files.
           ret_a \<lparr>v2_total = total, v2_groups = groups, v2_parents = parents, v2_files = files\<rparr>))))"

definition handle_expand_and_group_command_v2 :: "json \<Rightarrow> ('w, 'c, json) dtn_act" where
  "handle_expand_and_group_command_v2 message =
     (\<lambda>s0. catch_s
       (bind_a (\<lambda>s. (decode_v2_params message s, s)) (\<lambda>params.
        bind_a (\<lambda>s. (check_expand_params s (src_paths params), s)) (\<lambda>_.
        bind_a (\<lambda>s. (map_r (dir_name (d_machine s) (d_world s)) (src_paths params), s)) (\<lambda>_.
        bind_a (\<lambda>s. (request_user s (v2_user params), s)) (\<lambda>_.
        bind_a (fold_a (v2_source params) (sort (remdups (src_paths params)))
          \<lparr>v2_total = 0, v2_groups = [], v2_parents = [], v2_files = JNull\<rparr>) (\<lambda>st.
        ret_a (jobj
          [(''code'', JInt 0), (''error'', JStr ''OK''), (''total_size'', JUInt (int (v2_total st))), (''files'', v2_files st)])))))))
       (\<lambda>e. json_response 1 (''dtn_expand_and_group_v2 error: '' @ what (d_machine s0) e)) s0)"

section \<open>Listing\<close>

definition list_file :: "('w, 'c) dtn \<Rightarrow> path \<Rightarrow> bool \<Rightarrow> (exn, json) result" where
  "list_file s q with_sums =
     (let base = [JStr (basename (fst q)), JUInt (int (psize (snd q))), JBool False]
      in if with_sums then
           bind_r (checksum (m_crypto (d_machine s)) (m_disk (d_machine s) (d_world s)) (fst q) ''adler32'') (\<lambda>a.
           bind_r (checksum (m_crypto (d_machine s)) (m_disk (d_machine s) (d_world s)) (fst q) ''md5'') (\<lambda>h.
           Inr (jarr (base @ [jobj [(''adler32'', JStr a), (''md5'', JStr h)]]))))
         else Inr (jarr base))"

definition list_directory :: "path \<Rightarrow> json" where
  "list_directory q = jarr [JStr (basename (fst q)), JInt 0, JBool True]"

definition follow_symbolic_link :: "('w, 'c) dtn \<Rightarrow> string \<Rightarrow> (exn, path) result" where
  "follow_symbolic_link s p =
     (if \<not> m_link (d_machine s) (d_world s) p then Inl (Runtime_error ''not symbolic link'')
      else case m_realpath (d_machine s) (d_world s) p of
        Inl err \<Rightarrow> Inl (Runtime_error (''realpath() on '' @ p @ '' failed; reason: '' @ err))
      | Inr r \<Rightarrow> Inr (fs_path s r))"

text \<open>A link is listed as what it leads to; null where it is left out. Exceptions are caught and leave it out.\<close>

definition list_symlink :: "('w, 'c) dtn \<Rightarrow> path \<Rightarrow> string \<Rightarrow> (nat \<times> nat) option \<Rightarrow> string \<Rightarrow> (exn, json) result" where
  "list_symlink s p user acct parent =
     catch_r
       (bind_r (follow_symbolic_link s (fst p)) (\<lambda>newp.
        bind_r (data_folder_contains s (fst newp)) (\<lambda>inside.
        if \<not> inside then Inl (Runtime_error (''Symlink '' @ fst p @ '' expanded to '' @ fst newp @ '', which is outside data folder; omitting.''))
        else if \<not> may_read s acct (fst newp) then Inl (Runtime_error (''User '' @ user @ '' can't read '' @ fst newp @ ''; omitting.''))
        else
          bind_r (if parent = [] then Inr False else bind_r (dir_name (d_machine s) (d_world s) (fst newp)) (\<lambda>d. Inr (d = parent))) (\<lambda>same.
          if same then Inr JNull
          else if is_regular_file (snd newp) then list_file s newp False
          else if is_directory (snd newp) then Inr (list_directory newp)
          else Inr JNull))))
       (\<lambda>_. JNull)"

text \<open>The entries of a directory, each a list of at most one value.\<close>

definition list_entry :: "('w, 'c) dtn \<Rightarrow> string \<Rightarrow> (nat \<times> nat) option \<Rightarrow> string \<Rightarrow> path \<Rightarrow> (exn, json list) result" where
  "list_entry s user acct parent p =
     (if \<not> may_read s acct (fst p) then Inr []
      else if is_regular_file (snd p) then bind_r (list_file s p False) (\<lambda>v. Inr [v])
      else if is_directory (snd p) then Inr [list_directory p]
      else if m_link (d_machine s) (d_world s) (fst p) then
        bind_r (list_symlink s p user acct parent) (\<lambda>v. Inr (if v = JNull then [] else [v]))
      else Inr [])"

definition list_directory_entries :: "('w, 'c) dtn \<Rightarrow> path \<Rightarrow> string \<Rightarrow> (nat \<times> nat) option \<Rightarrow> (exn, json list) result" where
  "list_directory_entries s q user acct =
     bind_r (map_r (list_entry s user acct (fst q)) (walk False q)) (\<lambda>vss. Inr (concat vss))"

definition handle_list_command :: "json \<Rightarrow> ('w, 'c) dtn \<Rightarrow> (exn, json) result" where
  "handle_list_command message s =
     bind_r (q_bool message [K ''checksum'']) (\<lambda>with_sums.
     bind_r (q_str message [K ''path'']) (\<lambda>path.
     if path = [] then Inr (json_response 1 ''error: empty path'')
     else
       bind_r (q_str message [K ''user'']) (\<lambda>user.
       case (if user = [] then Inr None
             else case m_passwd (d_machine s) (d_world s) user of
               Found uid gid \<Rightarrow> Inr (Some (uid, gid))
             | No_user \<Rightarrow> Inl (''no such user: '' @ user)
             | Lookup_failed n \<Rightarrow> Inl (''getpwnam_r() failed; reason: '' @ m_strerror (d_machine s) n)) of
         Inl reason \<Rightarrow> Inr (json_response 1 (''Can't find user '' @ user @ '' (reason: '' @ reason @ '')''))
       | Inr acct \<Rightarrow>
           bind_r (data_folder_contains s path) (\<lambda>inside.
           if \<not> inside then Inr (json_response 1 (''Error: '' @ path @ '' is outside data folder.''))
           else
             let po = fs_path s path
             in if \<not> may_read s acct path then Inr (json_response 1 (''User '' @ user @ '' can't read '' @ path @ ''; omitting.''))
                else
                  bind_r
                    (if is_regular_file (snd po) then bind_r (list_file s po with_sums) (\<lambda>v. Inr (Inr [v]))
                     else if is_directory (snd po) then
                       (if with_sums then Inr (Inl (''list command requesting a folder ('' @ path @ '') with checksum enabled.''))
                        else bind_r (list_directory_entries s po user acct) (\<lambda>vs. Inr (Inr vs)))
                     else if m_link (d_machine s) (d_world s) path then
                       bind_r (list_symlink s po user acct []) (\<lambda>v. Inr (Inr (if v = JNull then [] else [v])))
                     else Inr (Inl (path @ '' is not regular file, symlink, or directory.''))) (\<lambda>res.
                  case res of
                    Inl status \<Rightarrow> Inr (json_response 1 status)
                  | Inr entries \<Rightarrow> Inr (jobj [(''code'', JInt 0), (''error'', JStr ''OK''), (''entries'', jarr entries)]))))))"

section \<open>Sizes\<close>

text \<open>\<open>DirectoryWalker\<close> with exceptions: the first directory that cannot be opened throws.\<close>

definition walk_strict :: "('w, 'c) dtn \<Rightarrow> path \<Rightarrow> (exn, path list) result" where
  "walk_strict s q =
     (if \<not> is_directory (snd q) then Inl (Runtime_error (fst q @ '' is not a directory''))
      else case find (\<lambda>r. snd r = Locked) (q # walk True q) of
        Some r \<Rightarrow> Inl (Runtime_error (fst r @ '': '' @ m_strerror (d_machine s) 13))
      | None \<Rightarrow> Inr (walk True q))"

definition sum_sizes :: "path list \<Rightarrow> nat" where
  "sum_sizes ps = sum_list (map (\<lambda>(p, x). psize x) ps)"

definition handle_path_size_command :: "json \<Rightarrow> ('w, 'c) dtn \<Rightarrow> (exn, json) result" where
  "handle_path_size_command message s =
     bind_r (q_str message [K ''path'']) (\<lambda>path.
     if path = [] then Inr (json_response 1 ''empty path parameter'')
     else
       catch_r
         (bind_r (data_folder_contains s path) (\<lambda>inside.
          if \<not> inside then Inr (json_response 1 (path @ '' is not within a data folder''))
          else
            let p = fs_path s path; ok = (\<lambda>sz. jobj [(''code'', JInt 0), (''error'', JStr ''OK''), (''path'', JStr path), (''size'', JUInt (int sz))])
            in if is_directory (snd p) then bind_r (walk_strict s p) (\<lambda>ps. Inr (ok (sum_sizes ps)))
               else if is_regular_file (snd p) then Inr (ok (psize (snd p)))
               else if m_link (d_machine s) (d_world s) path then
                 bind_r (follow_symbolic_link s path) (\<lambda>newp.
                 bind_r (data_folder_contains s (fst newp)) (\<lambda>inside2.
                 if \<not> inside2 then Inr (json_response 1 (fst newp @ '' is not within a data folder''))
                 else if is_directory (snd newp) then bind_r (walk_strict s newp) (\<lambda>ps. Inr (ok (sum_sizes ps)))
                 else if is_regular_file (snd newp) then Inr (ok (psize (snd newp)))
                 else Inr (ok 0)))
               else Inr (json_response 1 (path @ '' is not a regular file, directory or symlink''))))
         (\<lambda>e. json_response 1 (''Error with '' @ path @ '': '' @ what (d_machine s) e)))"

section \<open>Checksums\<close>

definition local_dir_checksum :: "('w, 'c) dtn \<Rightarrow> path \<Rightarrow> string \<Rightarrow> (exn, string) result" where
  "local_dir_checksum s p algorithm =
     fst (dir_checksum_named (m_crypto (d_machine s)) (m_disk (d_machine s) (d_world s)) (m_tasks (d_machine s) (d_world s)) p algorithm True (checksum_threads s))"

definition handle_compute_checksums_command :: "json \<Rightarrow> ('w, 'c) dtn \<Rightarrow> (exn, json) result" where
  "handle_compute_checksums_command message s =
     bind_r (q_str message [K ''algorithm'']) (\<lambda>alg0.
     let algorithm = (if alg0 = [] then ''sha1'' else alg0)
     in bind_r (q_str message [K ''src_path'']) (\<lambda>src_path.
        if src_path = [] then Inr (json_response 1 ''empty parameter: src_path'')
        else
          bind_r (q_str message [K ''dst_path'']) (\<lambda>dst0.
          if dst0 = [] then Inr (json_response 1 ''empty parmeter: dst_path'')
          else
            bind_r (strip_slashes dst0) (\<lambda>dst.
            catch_r
              (bind_r (opt_r (Runtime_error (''Unknown message digest '' @ algorithm)) (digestbyname (m_crypto (d_machine s)) algorithm)) (\<lambda>md.
               let root = fs_path s src_path;
                   done = (\<lambda>cs. Inr (jobj [(''code'', JInt 0), (''error'', JStr ''OK''),
                     (''result'', jobj ((''algorithm'', JStr algorithm) # cs))]))
               in if is_directory (snd root) then
                    bind_r (local_dir_checksum s root algorithm) (\<lambda>c.
                    done [(''checksums'', jarr [jarr [JStr (make_dst_path_name src_path dst), JStr c]])])
                  else if is_regular_file (snd root) then
                    bind_r (canonical_name (d_machine s) (d_world s) src_path) (\<lambda>name.
                    bind_r (checksum (m_crypto (d_machine s)) (m_disk (d_machine s) (d_world s)) name algorithm) (\<lambda>c.
                    done [(''checksums'', jarr [jarr [JStr (dst @ ''/'' @ basename src_path), JStr c]])]))
                  else done []))
              (\<lambda>e. json_response 2 (''Error when computing checksum: '' @ what (d_machine s) e))))))"

text \<open>The checksum of what is on this machine, and one claimed checksum against it.\<close>

definition local_checksum :: "('w, 'c) dtn \<Rightarrow> string \<Rightarrow> string \<Rightarrow> (exn, string) result" where
  "local_checksum s algorithm local_path =
     (let p = fs_path s local_path
      in if is_directory (snd p) then local_dir_checksum s p algorithm
         else checksum (m_crypto (d_machine s)) (m_disk (d_machine s) (d_world s)) local_path algorithm)"

definition mismatch_response :: "string \<Rightarrow> string \<Rightarrow> string \<Rightarrow> string \<Rightarrow> json" where
  "mismatch_response algorithm path computed claimed =
     jobj [(''code'', JInt 1), (''error'', JStr ''mismatch''),
       (''details'', jobj [(''algorithm'', JStr algorithm), (''path'', JStr path), (''computed'', JStr computed), (''claimed'', JStr claimed)])]"

fun verify_claims :: "('w, 'c) dtn \<Rightarrow> string \<Rightarrow> json list \<Rightarrow> (exn, json) result" where
  "verify_claims s algorithm [] = Inr (json_response 0 ''OK'')"
| "verify_claims s algorithm (c # cs) =
     bind_r (q_str c [I 0]) (\<lambda>local_path.
     if local_path = [] then Inl (Runtime_error ''No path given'')
     else
       bind_r (q_str c [I 1]) (\<lambda>remote_csum.
       if remote_csum = [] then Inl (Runtime_error ''No checksum given'')
       else
         bind_r (local_checksum s algorithm local_path) (\<lambda>local_csum.
         if remote_csum \<noteq> local_csum then Inr (mismatch_response algorithm local_path local_csum remote_csum)
         else verify_claims s algorithm cs)))"

definition handle_verify_checksums_command :: "json \<Rightarrow> ('w, 'c) dtn \<Rightarrow> (exn, json) result" where
  "handle_verify_checksums_command message s =
     bind_r (q_str message [K ''algorithm'']) (\<lambda>alg0.
     let algorithm = (if alg0 = [] then ''sha1'' else alg0)
     in bind_r (q_get message [K ''checksums'']) (\<lambda>checksums.
        if jempty checksums then Inr (json_response 1 ''Command contains no checksum'')
        else catch_r (verify_claims s algorithm (elems checksums))
          (\<lambda>e. json_response 2 (''Error when running checksum: '' @ what (d_machine s) e))))"

end
