(* ===== verification/Dtn_Commands.thy ===== *)
theory Dtn_Commands
  imports Dtn_Files
begin

text \<open>
  The other commands of the agent on a data transfer node, and the dispatch over all of them
  (\<open>src/agent/dtnagent.cc\<close>). \<open>dtn_send_ping\<close> is a conversation over sockets and a parameter.
\<close>

section \<open>Ping and pong\<close>

definition handle_send_icmp_ping_command :: "json \<Rightarrow> ('w, 'c, json) dtn_act" where
  "handle_send_icmp_ping_command message = (\<lambda>s0. catch_s
     (bind_a (lift_r (q_str message [K ''destination''])) (\<lambda>dest.
      if dest = [] then ret_a (json_response 1 (''error: parameter missing: 'destination'' @ [CHR 0x27]))
      else
        bind_a (lift_r (q_int message [K ''deadline''])) (\<lambda>deadline.
        bind_a (lift_r (q_int message [K ''count''])) (\<lambda>count.
        bind_a (lift_r (q_bool message [K ''ipv6''])) (\<lambda>ipv6.
        bind_a (get_a d_machine) (\<lambda>m.
        bind_a (world_a (m_ping m dest (if deadline = 0 then 2 else deadline) (if count = 0 then 2 else count) ipv6)) (\<lambda>(code, txt).
        ret_a (if code = 0 then json_response 0 (''Success: pinged '' @ dest)
               else json_response code (''Ping failed. Error: '' @ txt)))))))))
     (\<lambda>e. json_response 1 (''error: '' @ what (d_machine s0) e)) s0)"

text \<open>
  The pong thread runs the \<open>io_service\<close> of the agent; once that has been stopped, \<open>run()\<close> returns at once, since
  nothing resets it. The port is taken to be free: when it is not, the thread ends the process.
\<close>

definition handle_start_pong_command :: "json \<Rightarrow> ('w, 'c, json) dtn_act" where
  "handle_start_pong_command message =
     bind_a (lift_r (q_int message [K ''port''])) (\<lambda>port.
     bind_a (get_a pong) (\<lambda>running.
     if running then ret_a (json_response 1 ''a pong thread is already running here'')
     else
       bind_a (upd_a (\<lambda>s. s\<lparr>pong := True, pong_serving := \<not> pong_stopped s\<rparr>)) (\<lambda>_.
       ret_a (json_response 0 (''waiting for ping messages on port '' @ to_string port)))))"

definition handle_stop_pong_command :: "json \<Rightarrow> ('w, 'c, json) dtn_act" where
  "handle_stop_pong_command message =
     bind_a (get_a pong) (\<lambda>running.
     if running then
       bind_a (upd_a (\<lambda>s. s\<lparr>pong := False, pong_stopped := True, pong_serving := False\<rparr>)) (\<lambda>_.
       ret_a (json_response 0 ''stopped waiting for ping messages''))
     else ret_a (json_response 1 ''error: no pong is running here''))"

section \<open>Routes and neighbours\<close>

definition handle_add_route_command :: "json \<Rightarrow> ('w, 'c, json) dtn_act" where
  "handle_add_route_command message =
     bind_a (get_a ignore_route_cmds) (\<lambda>ignored.
     if ignored then ret_a (json_response 0 ''OK, but ignored by configuration'')
     else
       bind_a (lift_r (q_str message [K ''destination''])) (\<lambda>dst.
       bind_a (lift_r (q_str message [K ''via''])) (\<lambda>via.
       bind_a (lift_r (q_str message [K ''mask''])) (\<lambda>mask.
       bind_a (lift_r (q_str message [K ''dev''])) (\<lambda>dev.
       if dst = [] then ret_a (json_response 1 ''Error: empty destination parameter'')
       else
         bind_a (get_a d_machine) (\<lambda>m.
         catch_s (bind_a (world_a (m_add_route m dst via mask dev)) (\<lambda>_. ret_a (json_response 0 ''OK'')))
           (\<lambda>e. json_response 1 (''Error adding route: '' @ what m e))))))))"

definition handle_delete_route_command :: "json \<Rightarrow> ('w, 'c, json) dtn_act" where
  "handle_delete_route_command message =
     bind_a (get_a ignore_route_cmds) (\<lambda>ignored.
     if ignored then ret_a (json_response 0 ''OK, but ignored by configuration'')
     else
       bind_a (lift_r (q_str message [K ''destination''])) (\<lambda>dst.
       bind_a (lift_r (q_str message [K ''via''])) (\<lambda>via.
       bind_a (lift_r (q_str message [K ''dev''])) (\<lambda>dev.
       if dst = [] then ret_a (json_response 1 ''Error: empty destination parameter'')
       else
         bind_a (get_a d_machine) (\<lambda>m.
         catch_s (bind_a (world_a (m_delete_route m dst via dev)) (\<lambda>_. ret_a (json_response 0 ''OK'')))
           (\<lambda>e. json_response 1 (''Error deleteing route: '' @ what m e)))))))"

text \<open>Without a device the first data interface is used; \<open>at(0)\<close> throws when there is none.\<close>

definition handle_add_neighbor_command :: "json \<Rightarrow> ('w, 'c, json) dtn_act" where
  "handle_add_neighbor_command message =
     bind_a (get_a ignore_arp_cmds) (\<lambda>ignored.
     if ignored then ret_a (json_response 0 ''OK, but ignored by configuration'')
     else
       bind_a (lift_r (q_str message [K ''ip''])) (\<lambda>ip.
       bind_a (lift_r (q_str message [K ''mac''])) (\<lambda>mac.
       if ip = [] then ret_a (json_response 1 ''Error: empty ip parameter'')
       else if mac = [] then ret_a (json_response 1 ''Error: empty mac parameter'')
       else
         bind_a (lift_r (q_get message [K ''dev''])) (\<lambda>dev0.
         bind_a (if \<not> jempty dev0 then lift_r (opt_r Json_error (asString dev0))
                 else bind_a (get_a data_ifaces) (\<lambda>ifs. if ifs = [] then throw_a Out_of_range else ret_a (hd ifs))) (\<lambda>dev.
         bind_a (get_a d_machine) (\<lambda>m.
         catch_s (bind_a (world_a (m_add_arp m ip mac dev)) (\<lambda>_. ret_a (json_response 0 ''OK'')))
           (\<lambda>e. json_response 1 (''Error adding arp entry: '' @ what m e))))))))"

definition handle_delete_neighbor_command :: "json \<Rightarrow> ('w, 'c, json) dtn_act" where
  "handle_delete_neighbor_command message =
     bind_a (get_a ignore_arp_cmds) (\<lambda>ignored.
     if ignored then ret_a (json_response 0 ''OK, but ignored by configuration'')
     else
       bind_a (lift_r (q_str message [K ''ip''])) (\<lambda>ip.
       if ip = [] then ret_a (json_response 1 ''Error: empty IP parameter'')
       else
         bind_a (get_a d_machine) (\<lambda>m.
         catch_s (bind_a (world_a (m_delete_arp m ip)) (\<lambda>_. ret_a (json_response 0 ''OK'')))
           (\<lambda>e. json_response 1 (''Error deleting arp entry: '' @ what m e)))))"

section \<open>User mapping\<close>

definition map_entries :: "gridmap \<Rightarrow> json" where
  "map_entries es = jlist (map (\<lambda>(dn, acct). jobj [(''dn'', JStr dn), (''ln'', JStr acct)]) es)"

text \<open>Members of \<open>maps\<close> exist only for non-empty lists.\<close>

definition handle_get_gridmap_entries_command :: "json \<Rightarrow> ('w, 'c) dtn \<Rightarrow> (exn, json) result" where
  "handle_get_gridmap_entries_command message s =
     catch_r
       (bind_r (grid_mapfile_get_entries (m_gridmap (d_machine s) (d_world s))) (\<lambda>(sys, bde).
        let maps = (if sys = [] then [] else [(''system'', map_entries sys)]) @ (if bde = [] then [] else [(''bde'', map_entries bde)])
        in Inr (jobj [(''code'', JInt 0), (''error'', JStr ''OK''), (''mapfile'', JStr (gm_name (m_gridmap (d_machine s) (d_world s)))),
             (''maps'', if maps = [] then JNull else jobj maps)])))
       (\<lambda>e. json_response 1 (''get_gridmap_entries error: '' @ what (d_machine s) e))"

definition push_gridmap :: "gridmap \<Rightarrow> ('w, 'c, unit) dtn_act" where
  "push_gridmap es = (\<lambda>s.
     let m = d_machine s; w = d_world s;
         (r, fs) = grid_mapfile_push_entries (m_vcap m) (fst (m_renames m w)) (snd (m_renames m w)) es (m_gridmap m w)
     in (r, s\<lparr>d_world := m_set_gridmap m fs w\<rparr>))"

definition read_map_item :: "json \<Rightarrow> gridmap \<Rightarrow> (exn, gridmap) result" where
  "read_map_item v es = bind_r (q_str v [K ''dn'']) (\<lambda>dn. bind_r (q_str v [K ''ln'']) (\<lambda>acct. Inr (mm_emplace dn acct es)))"

definition handle_push_gridmap_entries_command :: "json \<Rightarrow> ('w, 'c, json) dtn_act" where
  "handle_push_gridmap_entries_command message = (\<lambda>s0. catch_s
     (bind_a (lift_r (q_get message [K ''map''])) (\<lambda>newmap.
      if \<not> isArray newmap then throw_a (Runtime_error ''params do not contain a map array'')
      else
        bind_a (lift_r (fold_r read_map_item (elems newmap) [])) (\<lambda>es.
        bind_a (push_gridmap es) (\<lambda>_.
        ret_a (json_response 0 ''OK'')))))
     (\<lambda>e. json_response 1 (''get_gridmap_entries error: '' @ what (d_machine s0) e)) s0)"

section \<open>Disk usage and folders\<close>

text \<open>The conversion of a \<open>float\<close> that is too large for 64 bits is undefined.\<close>

definition usage_percent :: "rat \<Rightarrow> (exn, json) result" where
  "usage_percent x = (if 2 ^ 64 \<le> \<lfloor>x\<rfloor> then Inl Undefined else Inr (JUInt \<lfloor>x\<rfloor>))"

definition usage_value :: "fs_usage \<Rightarrow> (exn, json) result" where
  "usage_value u =
     bind_r (usage_percent (blocks_usage u)) (\<lambda>b.
     bind_r (usage_percent (size_usage u)) (\<lambda>z.
     bind_r (usage_percent (inode_usage u)) (\<lambda>i.
     Inr (jobj ([(''type'', JStr (u_type u))] @ (if u_type u = ''quota'' then [(''quota-type'', JStr (quota_limit_type u))] else []) @
       [(''block_size'', JUInt (uint (fragment_size u))),
        (''blocks'', jobj [(''available'', JUInt (uint (available_blocks u))), (''usage'', b)]),
        (''size'', jobj [(''available'', JUInt (uint (available_size u))), (''usage'', z)]),
        (''inodes'', jobj [(''available'', JUInt (uint (available_inodes u))), (''usage'', i)])])))))"

definition handle_get_disk_usage_command :: "json \<Rightarrow> ('w, 'c) dtn \<Rightarrow> (exn, json) result" where
  "handle_get_disk_usage_command message s =
     bind_r (q_str message [K ''path'']) (\<lambda>path.
     bind_r (q_str message [K ''user'']) (\<lambda>user.
     bind_r (data_folder_contains s path) (\<lambda>inside.
     if \<not> inside then Inr (json_response 1 (''path '' @ path @ '' is not under a data folder''))
     else
       catch_r
         (bind_r (get_quota_or_fs_usage (fs_host_of (d_machine s) (d_world s)) path user) (\<lambda>u.
          bind_r (usage_value u) (\<lambda>v.
          Inr (jobj [(''code'', JInt 0), (''error'', JStr ''OK''), (''result'', v)]))))
         (\<lambda>e. json_response 1 (''error: '' @ what (d_machine s) e)))))"

text \<open>
  An error of \<open>mkdir\<close> does not end the command (a \<open>return\<close> is missing): an existing folder counts as success, and
  in every case the owner of the path is changed when a user is given. No data folder is looked at.
\<close>

definition handle_mkdir :: "json \<Rightarrow> ('w, 'c, json) dtn_act" where
  "handle_mkdir message =
     bind_a (lift_r (q_str message [K ''path''])) (\<lambda>path.
     bind_a (lift_r (q_str message [K ''user''])) (\<lambda>user.
     bind_a (get_a d_machine) (\<lambda>m.
     bind_a (get_a d_world) (\<lambda>w.
     let pwd = (if user = [] then None else case m_passwd m w user of Found uid gid \<Rightarrow> Some (uid, gid) | _ \<Rightarrow> None)
     in if user \<noteq> [] \<and> pwd = None then ret_a (json_response 201 (''cannot find user ('' @ user @ '')''))
        else
          bind_a (world_a (\<lambda>w. apfst Inr (m_mkdir m path w))) (\<lambda>err.
          let code = (if err = 17 then 0 else err); msg = (if err = 0 then ''OK'' else m_strerror m err)
          in case pwd of
               None \<Rightarrow> ret_a (json_response code msg)
             | Some (uid, gid) \<Rightarrow>
                 bind_a (world_a (\<lambda>w. apfst Inr (m_chown m path uid gid w))) (\<lambda>err2.
                 ret_a (if err2 \<noteq> 0 then json_response err2 (''chown error: '' @ m_strerror m err2)
                        else json_response code msg)))))))"

section \<open>Dispatch\<close>

definition handle_unknown_command :: "string \<Rightarrow> json" where
  "handle_unknown_command cmd = json_response 1 (''Unknown command: '' @ cmd)"

definition reading :: "(('w, 'c) dtn \<Rightarrow> (exn, json) result) \<Rightarrow> ('w, 'c, json) dtn_act" where
  "reading f = (\<lambda>s. (f s, s))"

definition dtn_do_command :: "string \<Rightarrow> json \<Rightarrow> ('w, 'c, json) dtn_act" where
  "dtn_do_command cmd params =
     (if cmd = ''dtn_status'' then reading (handle_dtn_status_command params)
      else if cmd = ''dtn_expand'' then reading (handle_expand_command params)
      else if cmd = ''dtn_expand_and_group'' then reading (handle_expand_and_group_command params)
      else if cmd = ''dtn_expand_and_group_v2'' then handle_expand_and_group_command_v2 params
      else if cmd = ''dtn_send_icmp_ping'' then handle_send_icmp_ping_command params
      else if cmd = ''dtn_send_ping'' then bind_a (get_a d_machine) (\<lambda>m. world_a (m_send_ping m params))
      else if cmd = ''dtn_start_pong'' then handle_start_pong_command params
      else if cmd = ''dtn_stop_pong'' then handle_stop_pong_command params
      else if cmd = ''dtn_list'' then reading (handle_list_command params)
      else if cmd = ''dtn_add_route'' then handle_add_route_command params
      else if cmd = ''dtn_delete_route'' then handle_delete_route_command params
      else if cmd = ''dtn_add_neighbor'' then handle_add_neighbor_command params
      else if cmd = ''dtn_delete_neighbor'' then handle_delete_neighbor_command params
      else if cmd = ''dtn_path_size'' then reading (handle_path_size_command params)
      else if cmd = ''dtn_compute_checksums'' then reading (handle_compute_checksums_command params)
      else if cmd = ''dtn_verify_checksums'' then reading (handle_verify_checksums_command params)
      else if cmd = ''dtn_get_gridmap_entries'' then reading (handle_get_gridmap_entries_command params)
      else if cmd = ''dtn_push_gridmap_entries'' then handle_push_gridmap_entries_command params
      else if cmd = ''dtn_get_disk_usage'' then reading (handle_get_disk_usage_command params)
      else if cmd = ''dtn_mkdir'' then handle_mkdir params
      else ret_a (handle_unknown_command cmd))"

end
