(* ===== verification/Dtn_Props.thy ===== *)
theory Dtn_Props
  imports Dtn_Commands
begin

text \<open>
  What the commands of the agent on a data transfer node guarantee: verification of checksums, confinement to
  names that begin with a data folder, sizes and destinations of grouped files, and interface rates.
\<close>

section \<open>Sequences of results\<close>

lemma catch_r_Inr: "catch_r r h = Inr v \<longleftrightarrow> r = Inr v \<or> (\<exists>e. r = Inl e \<and> std_exn e \<and> v = h e)"
  by (auto simp: catch_r_def split: sum.splits)

lemma response_code [simp]: "at_key (json_response code t) ''code'' = Some (JInt code)"
  by (simp add: json_response_def jobj_def)

section \<open>Verification\<close>

text \<open>A claim that the machine bears out.\<close>

definition vouched :: "('w, 'c) dtn \<Rightarrow> string \<Rightarrow> json \<Rightarrow> bool" where
  "vouched s algorithm c \<longleftrightarrow>
     (\<exists>path claimed. q_str c [I 0] = Inr path \<and> path \<noteq> [] \<and> q_str c [I 1] = Inr claimed \<and> claimed \<noteq> [] \<and>
       local_checksum s algorithm path = Inr claimed)"

lemma responses_differ:
  "json_response 2 t \<noteq> json_response 0 u" "json_response 1 t \<noteq> json_response 0 u" "mismatch_response a p c d \<noteq> json_response 0 u"
  by (simp_all add: json_response_def mismatch_response_def jobj_def)

lemma verify_claims_ok: "verify_claims s algorithm cs = Inr (json_response 0 ''OK'') \<longleftrightarrow> list_all (vouched s algorithm) cs"
proof (induction cs)
  case (Cons c cs)
  show ?case using Cons.IH responses_differ(3) by (auto simp: bind_r_Inr_iff vouched_def split: if_splits)
qed simp

text \<open>
  C25: a verification succeeds exactly when every claim holds. The answer with code 0 is given if and only if the
  request has claims, and for each of them the checksum computed on this machine is the claimed one.
\<close>

theorem verify_checksums_exact:
  "handle_verify_checksums_command message s = Inr (json_response 0 ''OK'') \<longleftrightarrow>
   (\<exists>alg cs. q_str message [K ''algorithm''] = Inr alg \<and> q_get message [K ''checksums''] = Inr cs \<and> \<not> jempty cs \<and>
     list_all (vouched s (if alg = [] then ''sha1'' else alg)) (elems cs))"
proof (cases "q_str message [K ''algorithm'']"; cases "q_get message [K ''checksums'']")
  fix alg cs
  assume r: "q_str message [K ''algorithm''] = Inr alg" "q_get message [K ''checksums''] = Inr cs"
  have "catch_r (verify_claims s a (elems cs)) (\<lambda>e. json_response 2 (t e)) = Inr (json_response 0 ''OK'') \<longleftrightarrow>
        list_all (vouched s a) (elems cs)" for a t
    using responses_differ(1) [symmetric] by (simp only: catch_r_Inr verify_claims_ok) blast
  then show ?thesis using r responses_differ(2) [symmetric] by (simp add: handle_verify_checksums_command_def Let_def) metis
qed (simp_all add: handle_verify_checksums_command_def)

section \<open>Confinement\<close>

text \<open>What \<open>data_folder_contains\<close> accepts: the real name begins with the characters of a data folder.\<close>

definition real_name_prefix :: "('w, 'c) dtn \<Rightarrow> string \<Rightarrow> bool" where
  "real_name_prefix s path \<longleftrightarrow>
     (\<exists>df \<in> set (data_folders s). \<exists>p f. m_realpath (d_machine s) (d_world s) path = Inr p \<and>
       m_realpath (d_machine s) (d_world s) df = Inr f \<and> take (length f) p = f)"

lemma folders_contain_True:
  "folders_contain m w dfs path = Inr True \<Longrightarrow>
   \<exists>df \<in> set dfs. \<exists>p f. m_realpath m w path = Inr p \<and> m_realpath m w df = Inr f \<and> take (length f) p = f"
  by (induction dfs) (auto split: sum.splits if_splits)

lemma contains_under: "data_folder_contains s p = Inr True \<Longrightarrow> real_name_prefix s p"
  unfolding data_folder_contains_def real_name_prefix_def by (rule folders_contain_True)

lemma check_params_under: "check_expand_params s ps = Inr () \<Longrightarrow> p \<in> set ps \<Longrightarrow> real_name_prefix s p"
proof (induction ps)
  case (Cons q ps)
  then have "data_folder_contains s q = Inr True" "check_expand_params s ps = Inr ()"
    by (auto simp: check_expand_params_def bind_r_Inr_iff split: if_splits)
  then show ?case using Cons contains_under by auto
qed simp

text \<open>The paths that a request is about.\<close>

definition requested_paths :: "string \<Rightarrow> json \<Rightarrow> string list" where
  "requested_paths cmd params =
     (let strings = (\<lambda>k. case bind_r (q_get params [K k]) string_list of Inr ps \<Rightarrow> ps | Inl e \<Rightarrow> []);
          single = (case q_str params [K ''path''] of Inr p \<Rightarrow> [p] | Inl e \<Rightarrow> [])
      in if cmd = ''dtn_expand'' then strings ''files''
         else if cmd = ''dtn_expand_and_group'' \<or> cmd = ''dtn_expand_and_group_v2'' then strings ''src_path''
         else if cmd \<in> {''dtn_list'', ''dtn_path_size'', ''dtn_get_disk_usage''} then single
         else [])"

abbreviation succeeded :: "json \<Rightarrow> bool" where
  "succeeded j \<equiv> jget j [K ''code''] = Some (JInt 0)"

lemma catch_fail:
  assumes "catch_r r (\<lambda>e. json_response 1 (t e)) = Inr j" and "succeeded j"
  shows "r = Inr j"
  using assms by (auto simp: catch_r_Inr)

lemma expand_confined:
  assumes "handle_expand_command params s = Inr j" and "succeeded j"
    and "q_get params [K ''files''] = Inr v" and "string_list v = Inr ps"
  shows "check_expand_params s ps = Inr ()"
  using catch_fail [OF assms(1) [unfolded handle_expand_command_def] assms(2)] assms(3,4)
  by (simp add: bind_r_Inr_iff split: if_splits)

lemma group_confined:
  assumes "handle_expand_and_group_command params s = Inr j" and "succeeded j"
    and "q_get params [K ''src_path''] = Inr v" and "string_list v = Inr ps"
  shows "check_expand_params s ps = Inr ()"
  using catch_fail [OF assms(1) [unfolded handle_expand_and_group_command_def] assms(2)] assms(3,4)
  by (simp add: bind_r_Inr_iff split: if_splits)

lemma decode_v2_src:
  assumes "decode_v2_params params s = Inr d" and "q_get params [K ''src_path''] = Inr v" and "string_list v = Inr ps"
  shows "src_paths d = ps"
  using assms by (auto simp: decode_v2_params_def bind_r_Inr_iff Let_def split: if_splits option.splits)

lemma get_r_run: "bind_a (\<lambda>s. (g s, s)) f s = (case g s of Inl e \<Rightarrow> (Inl e, s) | Inr a \<Rightarrow> f a s)"
  by (simp add: bind_a_def)

lemma v2_confined:
  assumes "fst (handle_expand_and_group_command_v2 params s) = Inr j" and "succeeded j"
    and "q_get params [K ''src_path''] = Inr v" and "string_list v = Inr ps"
  shows "check_expand_params s ps = Inr ()"
proof (cases "decode_v2_params params s")
  case (Inl e)
  then show ?thesis using assms(1,2)
    by (auto simp: handle_expand_and_group_command_v2_def catch_s_def get_r_run catch_r_Inr)
next
  case (Inr d)
  then show ?thesis using assms(1,2) decode_v2_src [OF Inr assms(3,4)]
    by (cases "check_expand_params s ps") (auto simp: handle_expand_and_group_command_v2_def catch_s_def get_r_run catch_r_Inr)
qed

lemma list_confined:
  assumes "handle_list_command params s = Inr j" and "succeeded j" and "q_str params [K ''path''] = Inr p"
  shows "real_name_prefix s p"
proof (cases "data_folder_contains s p")
  case (Inr inside)
  then show ?thesis using assms contains_under [of s p]
    by (cases inside) (auto simp: handle_list_command_def bind_r_Inr_iff split: if_splits sum.splits account.splits)
qed (use assms in \<open>auto simp: handle_list_command_def bind_r_Inr_iff split: if_splits sum.splits account.splits\<close>)

lemma size_confined:
  assumes "handle_path_size_command params s = Inr j" and "succeeded j" and "q_str params [K ''path''] = Inr p"
  shows "real_name_prefix s p"
proof (cases "data_folder_contains s p")
  case (Inr inside)
  then show ?thesis using assms contains_under [of s p]
    by (cases inside) (auto simp: handle_path_size_command_def catch_r_Inr split: if_splits)
qed (use assms in \<open>auto simp: handle_path_size_command_def catch_r_Inr split: if_splits\<close>)

lemma usage_confined:
  assumes "handle_get_disk_usage_command params s = Inr j" and "succeeded j" and "q_str params [K ''path''] = Inr p"
  shows "real_name_prefix s p"
proof (cases "data_folder_contains s p")
  case (Inr inside)
  then show ?thesis using assms contains_under [of s p]
    by (cases inside) (auto simp: handle_get_disk_usage_command_def bind_r_Inr_iff)
qed (use assms in \<open>auto simp: handle_get_disk_usage_command_def bind_r_Inr_iff\<close>)

text \<open>
  C23: what a request for files names passes the test for data folders. When one of the six commands that expand, list or
  measure files answers with code 0, the real name of every path of the request begins, as a text, with the real name of a
  data folder of the agent. This is not containment: \<open>/database\<close> passes for the folder \<open>/data\<close> (see \<open>confinement_is_textual\<close>).
\<close>

theorem dtn_confined:
  assumes "fst (dtn_do_command cmd params s) = Inr j" and "succeeded j" and "p \<in> set (requested_paths cmd params)"
  shows "real_name_prefix s p"
proof -
  have strings: "\<exists>v ps. q_get params [K k] = Inr v \<and> string_list v = Inr ps \<and> p \<in> set ps"
    if "p \<in> set (case bind_r (q_get params [K k]) string_list of Inr ps \<Rightarrow> ps | Inl e \<Rightarrow> [])" for k
    using that by (cases "q_get params [K k]") (auto split: sum.splits dest: sym)
  have single: "q_str params [K ''path''] = Inr p"
    if "p \<in> set (case q_str params [K ''path''] of Inr q \<Rightarrow> [q] | Inl e \<Rightarrow> [])"
    using that by (auto split: sum.splits)
  have "cmd \<in> {''dtn_expand'', ''dtn_expand_and_group'', ''dtn_expand_and_group_v2'', ''dtn_list'', ''dtn_path_size'', ''dtn_get_disk_usage''}"
    using assms(3) by (rule contrapos_pp) (simp add: requested_paths_def)
  then consider "cmd = ''dtn_expand''" | "cmd = ''dtn_expand_and_group''" | "cmd = ''dtn_expand_and_group_v2''"
    | "cmd = ''dtn_list''" | "cmd = ''dtn_path_size''" | "cmd = ''dtn_get_disk_usage''"
    unfolding insert_iff empty_iff by meson
  then show ?thesis
  proof cases
    case 1
    then show ?thesis using assms strings [of "''files''"] expand_confined check_params_under
      by (simp add: dtn_do_command_def reading_def requested_paths_def) blast
  next
    case 2
    then show ?thesis using assms strings [of "''src_path''"] group_confined check_params_under
      by (simp add: dtn_do_command_def reading_def requested_paths_def) blast
  next
    case 3
    then show ?thesis using assms strings [of "''src_path''"] v2_confined check_params_under
      by (simp add: dtn_do_command_def requested_paths_def) blast
  next
    case 4
    then show ?thesis using assms single list_confined [of params s j p] by (simp add: dtn_do_command_def reading_def requested_paths_def)
  next
    case 5
    then show ?thesis using assms single size_confined [of params s j p] by (simp add: dtn_do_command_def reading_def requested_paths_def)
  next
    case 6
    then show ?thesis using assms single usage_confined [of params s j p] by (simp add: dtn_do_command_def reading_def requested_paths_def)
  qed
qed

text \<open>A machine whose world is the list of paths that have changed hands.\<close>

definition demo_machine :: "((string \<times> nat) list, string) machine" where
  "demo_machine =
     \<lparr>m_what = (\<lambda>e. []),
      m_fs = (\<lambda>w p. if p = ''/data'' then Dir [(''f'', Reg 5)] else if p \<in> {''/data/f'', ''/data/s/f'', ''/database/x''} then Reg 5 else Missing),
      m_link = (\<lambda>w p. False), m_realpath = (\<lambda>w p. Inr p), m_stat = (\<lambda>w p. (0, 0, 420)),
      m_passwd = (\<lambda>w u. if u = ''joe'' then Found 500 500 else No_user),
      m_disk = (\<lambda>w p. Some \<lparr>st_data = p, st_bad = False\<rparr>),
      m_crypto = \<lparr>digestbyname = (\<lambda>n. Some \<lparr>evp_new = True, evp_init = Some [], evp_update = (\<lambda>c s. Some (c @ s)),
        evp_final = (\<lambda>c. Some (map of_char c))\<rparr>), adler32_init = 1, adler32 = (\<lambda>a s. a)\<rparr>,
      m_tasks = (\<lambda>w k. k),
      m_mounts = (\<lambda>w p. Inr (if p = ''/data'' then Some (Mount (Some ''/dev/sda'') (Some ''/data'') (Some ''xfs'') []) else None)),
      m_statvfs = (\<lambda>w p. Inl ''failed''), m_quota_info = (\<lambda>w k d. True),
      m_quota = (\<lambda>w d u. Inr \<lparr>bsoftlimit = 100, curspace = 4096, isoftlimit = 10, curinodes = 4\<rparr>), m_errno_text = (\<lambda>w. ''failed''),
      m_link_stats = (\<lambda>w i. Inr (zero_stats\<lparr>rx_bytes := 1200\<rparr>)), m_check_iface = (\<lambda>w i. Inr ()), m_strerror = (\<lambda>n. ''File exists''),
      m_add_route = (\<lambda>d v m i w. (Inr (), w)), m_delete_route = (\<lambda>d v i w. (Inr (), w)),
      m_add_arp = (\<lambda>a m i w. (Inr (), w)), m_delete_arp = (\<lambda>a w. (Inr (), w)),
      m_ping = (\<lambda>d t c six w. (Inr (0, []), w)), m_send_ping = (\<lambda>j w. (Inr JNull, w)),
      m_mkdir = (\<lambda>p w. (17, w)), m_chown = (\<lambda>p u g w. (0, (p, u) # w)), m_add_block = (\<lambda>g w. (Inr ''1'', w)),
      m_gridmap = (\<lambda>w. \<lparr>gm_name = ''grid-mapfile'', gm_file = None, gm_save = None, gm_work = None\<rparr>), m_set_gridmap = (\<lambda>f w. w), m_renames = (\<lambda>w. (True, True)),
      m_vcap = (\<lambda>n. n)\<rparr>"

definition demo_dtn :: "((string \<times> nat) list, string) dtn" where
  "demo_dtn =
     \<lparr>d_machine = demo_machine, d_world = [], data_folders = [''/data''], mgmt_iface = ''m0'', data_ifaces = [''d0''],
      storage_ifaces = [], link_rates = [], link_rates_computed = False, ignore_route_cmds = False, ignore_arp_cmds = False,
      use_parent_list = True, checksum_threads = 1, pong = False, pong_stopped = False, pong_serving = False\<rparr>"

theorem dtn_confined_witness:
  "(\<exists>j. fst (dtn_do_command ''dtn_path_size'' (jobj [(''path'', JStr ''/data/f'')]) demo_dtn) = Inr j \<and> succeeded j) \<and> real_name_prefix demo_dtn ''/data/f''"
proof -
  let ?q = "jobj [(''path'', JStr ''/data/f'')]"
  let ?j = "jobj [(''code'', JInt 0), (''error'', JStr ''OK''), (''path'', JStr ''/data/f''), (''size'', JUInt 5)]"
  have r: "fst (dtn_do_command ''dtn_path_size'' ?q demo_dtn) = Inr ?j"
    by (simp add: dtn_do_command_def reading_def handle_path_size_command_def q_str_def data_folder_contains_def
        demo_dtn_def demo_machine_def catch_r_def fs_path_def jobj_def)
  moreover have "succeeded ?j" by (simp add: jobj_def)
  moreover have "''/data/f'' \<in> set (requested_paths ''dtn_path_size'' ?q)" by (simp add: requested_paths_def q_str_def jobj_def)
  ultimately show ?thesis using dtn_confined [OF r] by blast
qed

text \<open>The comparison is one of characters, not of folders: \<open>/database\<close> counts as within \<open>/data\<close>.\<close>

lemma confinement_is_textual:
  assumes "m_realpath (d_machine s) (d_world s) path = Inr (f @ rest)" and "data_folders s = df # dfs"
    and "m_realpath (d_machine s) (d_world s) df = Inr f"
  shows "data_folder_contains s path = Inr True"
  using assms by (simp add: data_folder_contains_def)

section \<open>Groups\<close>

lemma v2_path_checksum:
  "v2_path s params q = Inr r \<Longrightarrow> compute_checksum params \<Longrightarrow> snd r \<noteq> None"
  by (auto simp: v2_path_def Let_def bind_r_Inr_iff split: if_splits)

lemma list_all2_left: "list_all2 P xs ys \<Longrightarrow> y \<in> set ys \<Longrightarrow> \<exists>x. P x y"
  by (induction rule: list_all2_induct) auto

lemma filter_checksums:
  assumes "list_all2 (\<lambda>q r. v2_path s params q = Inr r) qs rs" and "compute_checksum params"
  shows "map the (filter (\<lambda>c. c \<noteq> None) (map snd rs)) = map (\<lambda>r. the (snd r)) rs"
proof -
  have "c \<noteq> None" if "c \<in> set (map snd rs)" for c
  proof -
    from that obtain r where r: "r \<in> set rs" "c = snd r" by auto
    with list_all2_left [OF assms(1)] have "\<exists>q. v2_path s params q = Inr r" by blast
    then show ?thesis using v2_path_checksum assms(2) r(2) by blast
  qed
  then have "filter (\<lambda>c. c \<noteq> None) (map snd rs) = map snd rs" by (rule filter_True [OF ballI])
  then show ?thesis by (simp only: map_map o_def)
qed

text \<open>
  A group carries one checksum. When checksums are requested, the value for a group of files has a list of
  checksums with exactly one element, the checksum of the last path of the group; those of all other paths are
  computed and lost.
\<close>

lemma group_has_one_checksum:
  assumes "v2_group s params g = Inr v" and "compute_checksum params" and "pg_paths g \<noteq> []"
  shows "\<exists>e c. v2_path s params (last (pg_paths g)) = Inr (e, Some c) \<and> jget v [K ''checksum'', K ''checksums''] = Some (jarr [c])"
proof -
  from assms(1) obtain rs where rs: "list_all2 (\<lambda>q r. v2_path s params q = Inr r) (pg_paths g) rs"
    and v: "v = jobj ((if rs = [] then [] else [(''files'', jarr (map fst rs))]) @
      (if map the (filter (\<lambda>c. c \<noteq> None) (map snd rs)) = [] then []
       else [(''checksum'', jobj [(''algorithm'', JStr (checksum_algorithm params)),
         (''checksums'', jarr [last (map the (filter (\<lambda>c. c \<noteq> None) (map snd rs)))])])]) @ [(''size'', JUInt (int (pg_size g)))])"
    by (auto simp: v2_group_def bind_r_Inr_iff map_r_Inr Let_def)
  from rs assms(3) have ne: "rs \<noteq> []" by auto
  have "v2_path s params (last (pg_paths g)) = Inr (last rs)"
    using list_all2_nthD2 [OF rs, of "length rs - 1"] rs ne assms(3) by (simp add: last_conv_nth list_all2_lengthD)
  moreover obtain e c where "last rs = (e, Some c)"
    using v2_path_checksum [OF calculation assms(2)] by (cases "last rs") auto
  ultimately show ?thesis using ne v [unfolded filter_checksums [OF rs assms(2)]] by (simp add: jobj_def last_map)
qed

definition demo_params :: "string v2_params" where
  "demo_params = \<lparr>src_paths = [''/data/f'', ''/data/s/f''], dst_path = ''/out'', v2_group_size = 10, v2_max_files = 0, v2_user = [],
     result_in_db = False, compute_checksum = True, checksum_algorithm = ''sha1'', v2_md = digestbyname (m_crypto demo_machine) ''sha1''\<rparr>"

definition demo_group :: pathgroup where
  "demo_group = \<lparr>pg_size = 10, pg_paths = [(''/data/f'', Reg 5), (''/data/s/f'', Reg 5)]\<rparr>"

lemma group_has_one_checksum_witness:
  "\<exists>v e c. v2_group demo_dtn demo_params demo_group = Inr v \<and> v2_path demo_dtn demo_params (''/data/s/f'', Reg 5) = Inr (e, Some c) \<and>
     jget v [K ''checksum'', K ''checksums''] = Some (jarr [c])"
proof -
  have "\<exists>v. v2_group demo_dtn demo_params demo_group = Inr v"
    by (simp add: v2_group_def v2_path_def demo_group_def demo_params_def demo_dtn_def demo_machine_def canonical_name_def
        add_file_checksum_def checksum_opt_def checksum_md_def digest_init_def read_loop.simps BUFSIZ_def digest_update_def digest_final_def Let_def)
  then obtain v where v: "v2_group demo_dtn demo_params demo_group = Inr v" ..
  from group_has_one_checksum [OF this] show ?thesis using v by (simp add: demo_params_def demo_group_def)
qed

section \<open>Destinations\<close>

lemma takeWhile_name: "CHR ''/'' \<notin> set n \<Longrightarrow> takeWhile (\<lambda>c. c \<noteq> CHR ''/'') (rev n @ CHR ''/'' # xs) = rev n"
  by (subst takeWhile_append2) auto

lemma trim_end_plain: "n \<noteq> [] \<Longrightarrow> CHR ''/'' \<notin> set n \<Longrightarrow> trim_end (d @ n) = d @ n"
  by (subst trim_end.simps) (auto dest: last_in_set)

lemma basename_in: "n \<noteq> [] \<Longrightarrow> CHR ''/'' \<notin> set n \<Longrightarrow> basename (d @ ''/'' @ n) = n"
  using trim_end_plain [of n "d @ ''/''"] takeWhile_name [of n "rev d"] by (auto simp: basename_def append_eq_Cons_conv Let_def)

text \<open>
  The destination of a file keeps only the last part of its name. Two regular files of the same name, in
  whatever two directories of the sources, are given the same destination: the second of them to be transferred
  replaces the first.
\<close>

lemma destinations_collide:
  assumes "n \<noteq> []" and "CHR ''/'' \<notin> set n"
    and "m_realpath (d_machine s) (d_world s) p = Inr (d @ ''/'' @ n)" and "m_realpath (d_machine s) (d_world s) q = Inr (e @ ''/'' @ n)"
    and "m_fs (d_machine s) (d_world s) p = Reg a" and "m_fs (d_machine s) (d_world s) q = Reg b"
    and "\<not> compute_checksum params"
  shows "\<exists>v w dst. v2_path s params (p, Reg a) = Inr (v, None) \<and> v2_path s params (q, Reg b) = Inr (w, None) \<and>
     jget v [I 0] = Some (JStr (d @ ''/'' @ n)) \<and> jget w [I 0] = Some (JStr (e @ ''/'' @ n)) \<and>
     jget v [I 1] = Some (JStr dst) \<and> jget w [I 1] = Some (JStr dst)"
  using assms basename_in [OF assms(1,2)] by (simp add: v2_path_def canonical_name_def make_dst_path_name_def jarr_def)

lemma destinations_collide_witness:
  "\<exists>v w dst. v2_path demo_dtn (demo_params\<lparr>compute_checksum := False\<rparr>) (''/data/f'', Reg 5) = Inr (v, None) \<and>
     v2_path demo_dtn (demo_params\<lparr>compute_checksum := False\<rparr>) (''/data/s/f'', Reg 5) = Inr (w, None) \<and>
     jget v [I 1] = Some (JStr dst) \<and> jget w [I 1] = Some (JStr dst)"
  using destinations_collide [of "''f''" demo_dtn "''/data/f''" "''/data''" "''/data/s/f''" "''/data/s''" 5 5 "demo_params\<lparr>compute_checksum := False\<rparr>"]
  by (auto simp: demo_dtn_def demo_machine_def)

section \<open>Interface rates\<close>

definition after :: "('w, 'c, 'a) dtn_act \<Rightarrow> ('w, 'c) dtn \<Rightarrow> ('w, 'c) dtn" where
  "after m s = snd (m s)"

lemma poll_single:
  assumes "data_ifaces s = [i]" and "m_check_iface (d_machine s) (d_world s) = (\<lambda>k. Inr ())"
    and "m_link_stats (d_machine s) (d_world s) i = Inr c" and "map_ok (link_rates s)" and "map_of (link_rates s) i = Some r"
  shows "after check_network_interfaces s = s\<lparr>link_rates := adjust i (\<lambda>r. new_rates r c) (link_rates s), link_rates_computed := True\<rparr>"
  using assms
  by (simp add: after_def check_network_interfaces_def catch_s_def check_network_interface_def update_interface_traffic_def
      bind_a_run emplace_present)

text \<open>
  An idle link is reported as busy. The rates replace the counters they are computed from, so every other
  round compares a counter with a rate: with counters that do not move, the first round after the start gives rate
  0, and the second gives the whole counter divided by the length of a round.
\<close>

lemma idle_link_rate:
  assumes "data_ifaces s = [i]" and "m_check_iface (d_machine s) (d_world s) = (\<lambda>k. Inr ())"
    and "m_link_stats (d_machine s) (d_world s) i = Inr c" and "map_ok (link_rates s)" and "map_of (link_rates s) i = None"
  shows "\<exists>r1 r2. map_of (link_rates (after check_network_interfaces (after init_link_rates s))) i = Some r1 \<and> rx_bytes r1 = 0 \<and>
     map_of (link_rates (after check_network_interfaces (after check_network_interfaces (after init_link_rates s)))) i = Some r2 \<and>
     rx_bytes r2 = rx_bytes c div 120"
proof -
  have start: "after init_link_rates s = s\<lparr>link_rates := emplace i c (link_rates s)\<rparr>"
    using assms by (simp add: after_def init_link_rates_def bind_a_run)
  show ?thesis using assms by (simp add: start poll_single [where i = i and c = c] new_rates_def rate_per_second_def)
qed

lemma idle_link_rate_witness:
  "\<exists>r. map_of (link_rates (after check_network_interfaces (after check_network_interfaces (after init_link_rates demo_dtn)))) ''d0'' = Some r \<and>
     rx_bytes r = 10"
  using idle_link_rate [of demo_dtn "''d0''" "zero_stats\<lparr>rx_bytes := 1200\<rparr>"] by (auto simp: demo_dtn_def demo_machine_def)

section \<open>Folders\<close>

text \<open>
  Creating a folder that exists hands it over. A request to create a path for a user, where \<open>mkdir\<close> reports that
  the path exists already, changes the owner of that path to the user and answers with code 0, whether or not the
  path is within a data folder.
\<close>

lemma mkdir_takes_existing:
  assumes "q_str params [K ''path''] = Inr path" and "q_str params [K ''user''] = Inr user" and "user \<noteq> []"
    and "m_passwd (d_machine s) (d_world s) user = Found uid gid"
    and "m_mkdir (d_machine s) path (d_world s) = (17, w)" and "m_chown (d_machine s) path uid gid w = (0, w')"
  shows "\<exists>j. dtn_do_command ''dtn_mkdir'' params s = (Inr j, s\<lparr>d_world := w'\<rparr>) \<and> succeeded j"
  using assms by (simp add: dtn_do_command_def handle_mkdir_def bind_a_run world_a_def)

lemma mkdir_takes_existing_witness:
  "\<exists>j. dtn_do_command ''dtn_mkdir'' (jobj [(''path'', JStr ''/etc''), (''user'', JStr ''joe'')]) demo_dtn =
     (Inr j, demo_dtn\<lparr>d_world := [(''/etc'', 500)]\<rparr>) \<and> succeeded j"
  using mkdir_takes_existing [of "jobj [(''path'', JStr ''/etc''), (''user'', JStr ''joe'')]" "''/etc''" "''joe''" demo_dtn 500 500 "[]" "[(''/etc'', 500)]"]
  by (simp add: q_str_def jobj_def demo_dtn_def demo_machine_def)

section \<open>The answer to a request for groups\<close>

definition answer_groups :: "json \<Rightarrow> json list" where
  "answer_groups j = (case jget j [K ''files'', K ''groups''] of Some gs \<Rightarrow> elems gs | None \<Rightarrow> [])"

definition answer_entries :: "json \<Rightarrow> json list" where
  "answer_entries j = concat (map (\<lambda>g. case jget g [K ''files''] of Some v \<Rightarrow> elems v | None \<Rightarrow> []) (answer_groups j))"

definition request_files :: "('w, 'c) dtn \<Rightarrow> string list \<Rightarrow> (string \<times> nat) list" where
  "request_files s ps = concat (map (\<lambda>p. files p (m_fs (d_machine s) (d_world s) p)) ps)"

lemma elems_jlist [simp]: "elems (jlist vs) = vs"
  by (simp add: jlist_def)

lemma group_value_files: "jget (group_value dst g) [K ''files''] = Some (jlist (map (group_entry dst) g))"
  by (simp add: group_value_def jobj_def)

lemma paths_size_groupable: "list_all groupable es \<Longrightarrow> paths_size es = sum_list (map snd (reg_files es))"
proof (induction es)
  case (Cons q es)
  then show ?case by (cases q; cases "snd q") (auto simp: groupable_def)
qed simp

lemma paths_size_concat: "sum_list (map paths_size gs) = paths_size (concat gs)"
  by (induction gs) simp_all

lemma paths_size_mset: "mset ps = mset qs \<Longrightarrow> paths_size ps = paths_size qs"
  unfolding paths_size_def by (metis mset_map sum_mset_sum_list)

lemma grouped_total:
  assumes "PathGroupsHelper inp = Inr ps"
  shows "sum_list (map paths_size (group_by_size ps M F)) = sum_list (map snd (concat (map (\<lambda>(p, x). files p x) inp)))"
proof -
  have "sum_list (map paths_size (group_by_size ps M F)) = paths_size (filter groupable ps)"
    unfolding paths_size_concat by (rule paths_size_mset) (rule group_by_size_all)
  also have "\<dots> = sum_list (map snd (reg_files ps))"
    using paths_size_groupable [of "filter groupable ps"] by (simp add: reg_files_groupable list_all_iff)
  finally show ?thesis using fold_sub_path_files [of inp "[]" ps] assms by (simp add: PathGroupsHelper_def)
qed

lemma expand_group_answer:
  assumes "handle_expand_and_group_command params s = Inr j" and "succeeded j"
    and "q_get params [K ''src_path''] = Inr v" and "string_list v = Inr ps"
  obtains dst0 dst M F interim gs where "q_str params [K ''dst_path''] = Inr dst0" and "strip_slashes dst0 = Inr dst"
    and "PathGroupsHelper (map (fs_path s) ps) = Inr interim" and "gs = group_by_size interim M F"
    and "j = jobj [(''code'', JInt 0), (''error'', JStr ''OK''), (''total_size'', JUInt (int (sum_list (map paths_size gs)))),
      (''files'', jobj [(''groups'', jarr (map (group_value dst) gs))])]"
  using catch_fail [OF assms(1) [unfolded handle_expand_and_group_command_def] assms(2)] assms(3,4)
  by (auto simp: bind_r_Inr_iff Let_def split: if_splits)

text \<open>
  C24: a request for groups is answered with all files. When the first version of expanding and grouping succeeds,
  the entries of all groups together are those of paths whose regular files are exactly the regular files below
  the requested paths, each once, with a destination below the requested one; the total size is the sum of the
  sizes of those files.
\<close>

theorem expand_group_complete:
  assumes "handle_expand_and_group_command params s = Inr j" and "succeeded j"
    and "q_get params [K ''src_path''] = Inr v" and "string_list v = Inr ps"
  shows "\<exists>dst es. bind_r (q_str params [K ''dst_path'']) strip_slashes = Inr dst \<and>
     mset (answer_entries j) = mset (map (group_entry dst) es) \<and> list_all groupable es \<and>
     reg_files es = request_files s ps \<and>
     jget j [K ''total_size''] = Some (JUInt (int (sum_list (map snd (request_files s ps)))))"
proof -
  obtain dst0 dst M F interim gs where dst: "q_str params [K ''dst_path''] = Inr dst0" "strip_slashes dst0 = Inr dst"
    and i: "PathGroupsHelper (map (fs_path s) ps) = Inr interim" and gs: "gs = group_by_size interim M F"
    and j: "j = jobj [(''code'', JInt 0), (''error'', JStr ''OK''), (''total_size'', JUInt (int (sum_list (map paths_size gs)))),
      (''files'', jobj [(''groups'', jarr (map (group_value dst) gs))])]"
    by (rule expand_group_answer [OF assms])
  have req: "concat (map (\<lambda>(p, x). files p x) (map (fs_path s) ps)) = request_files s ps"
    by (simp add: request_files_def fs_path_def o_def)
  have "answer_groups j = map (group_value dst) gs" by (simp add: answer_groups_def j jobj_def)
  then have "answer_entries j = map (group_entry dst) (concat gs)"
    by (simp add: answer_entries_def o_def group_value_files map_concat del: jget.simps)
  then have "mset (answer_entries j) = mset (map (group_entry dst) (filter groupable interim))"
    by (simp only: mset_map gs group_by_size_all)
  moreover have "reg_files (filter groupable interim) = request_files s ps"
    using fold_sub_path_files [of _ "[]" interim] i req by (simp add: PathGroupsHelper_def reg_files_groupable)
  moreover have "jget j [K ''total_size''] = Some (JUInt (int (sum_list (map snd (request_files s ps)))))"
    using grouped_total [OF i, of M F] req by (simp add: j gs jobj_def)
  moreover have "list_all groupable (filter groupable interim)" by (simp add: list_all_iff)
  ultimately show ?thesis using dst by (intro exI [of _ dst] exI [of _ "filter groupable interim"]) simp
qed

definition demo_request :: json where
  "demo_request = jobj [(''src_path'', jarr [JStr ''/data'']), (''dst_path'', JStr ''/out/''), (''group_size'', JInt 100)]"

theorem expand_group_complete_witness:
  "\<exists>j dst es. handle_expand_and_group_command demo_request demo_dtn = Inr j \<and>
     mset (answer_entries j) = mset (map (group_entry dst) es) \<and> reg_files es = [(''/data/f'', 5)] \<and>
     jget j [K ''total_size''] = Some (JUInt 5)"
proof -
  have "case handle_expand_and_group_command demo_request demo_dtn of Inl e \<Rightarrow> False | Inr j \<Rightarrow> succeeded j"
    unfolding demo_dtn_def demo_machine_def demo_request_def by code_simp
  then obtain j where j: "handle_expand_and_group_command demo_request demo_dtn = Inr j" "succeeded j"
    by (auto split: sum.splits)
  have "q_get demo_request [K ''src_path''] = Inr (jarr [JStr ''/data''])" "string_list (jarr [JStr ''/data'']) = Inr [''/data'']"
    "request_files demo_dtn [''/data''] = [(''/data/f'', 5)]"
    by (simp_all add: demo_request_def q_get_def jobj_def string_list_def request_files_def demo_dtn_def demo_machine_def join_paths_def trim_end.simps, simp add: jarr_def isArray_def)
  with expand_group_complete [OF j] j(1) show ?thesis by fastforce
qed

end
