(* ===== verification/Agent_Manager.thy ===== *)
theory Agent_Manager
  imports Rpc_Server Std_Map
begin

text \<open>
  The framework of the agents, \<open>src/agent/agent.h\<close>, \<open>src/agent/agent.cc\<close>, \<open>src/agent/agentmanager.h\<close> and
  \<open>src/agent/agentmanager.cc\<close>: the modules of an agent process, their start-up in three stages, the registration
  message, and the dispatch of commands. What a module does at each stage and for each command are virtual
  functions: the parameter \<open>hooks\<close>, whose functions act on the manager and get the position of the module.
  \<open>am_mods\<close> is the state of the modules themselves.
\<close>

section \<open>Modules\<close>

record agent =
  ag_id :: string
  ag_name :: string
  ag_type :: string
  ag_queue :: string
  ag_prop :: json
  ag_managed :: bool
  ag_stage :: nat

definition new_agent :: "string \<Rightarrow> string \<Rightarrow> string \<Rightarrow> agent" where
  "new_agent i n t =
     \<lparr>ag_id = i, ag_name = n, ag_type = t, ag_queue = [],
      ag_prop = jobj [(''id'', JStr i), (''name'', JStr n), (''type'', JStr t), (''queue'', JStr [])], ag_managed = False, ag_stage = 0\<rparr>"

text \<open>Handlers that are posted to the \<open>io_service\<close>.\<close>

datatype am_task = T_command nat string json rpc_props | T_message nat string json

text \<open>
  The manager. \<open>am_cap\<close> is the capacity of the vector of modules; \<open>am_out\<close> are the messages given to
  \<open>publish\<close>, with quality of service and retain flag.
\<close>

record 'x am =
  am_cid :: string
  am_queue :: string
  mq_conf :: json
  mstore :: "agent list"
  am_cap :: nat
  am_topics :: "(string \<times> nat) list"
  am_tasks :: "am_task list"
  reg_val :: json
  de_reg_val :: json
  am_will :: "(string \<times> json) option"
  am_connected :: bool
  am_subs :: "(string \<times> int) list"
  am_out :: "(string \<times> json \<times> int \<times> bool) list"
  am_mods :: 'x

type_synonym ('x, 'a) am_act = "('x am, exn, 'a) act"

definition on_module :: "nat \<Rightarrow> (agent \<Rightarrow> agent) \<Rightarrow> 'x am \<Rightarrow> 'x am" where
  "on_module i f s = s\<lparr>mstore := (mstore s)[i := f (mstore s ! i)]\<rparr>"

definition set_prop_at :: "nat \<Rightarrow> string \<Rightarrow> json \<Rightarrow> ('x, unit) am_act" where
  "set_prop_at i k v =
     bind_a (get_a (\<lambda>s. ag_prop (mstore s ! i))) (\<lambda>p.
     bind_a (lift_r (opt_r Json_error (jset [K k] v p))) (\<lambda>p'.
     upd_a (on_module i (\<lambda>a. a\<lparr>ag_prop := p'\<rparr>))))"

definition has_module :: "string \<Rightarrow> 'x am \<Rightarrow> bool" where
  "has_module i s = list_ex (\<lambda>a. ag_id a = i) (mstore s)"

definition update_id :: "nat \<Rightarrow> string \<Rightarrow> ('x, unit) am_act" where
  "update_id i new =
     bind_a (get_a (\<lambda>s. 3 \<le> ag_stage (mstore s ! i))) (\<lambda>late.
     if late then throw_a (Runtime_error ''Agent::update_id() called at wrong stage'')
     else
       bind_a (get_a (has_module new)) (\<lambda>dup.
       if dup then throw_a (Runtime_error ''Agent::update_id() has a duplicated id'')
       else
         bind_a (upd_a (on_module i (\<lambda>a. a\<lparr>ag_id := new\<rparr>))) (\<lambda>_.
         set_prop_at i ''id'' (JStr new))))"

definition update_name :: "nat \<Rightarrow> string \<Rightarrow> ('x, unit) am_act" where
  "update_name i new =
     bind_a (get_a (\<lambda>s. 3 \<le> ag_stage (mstore s ! i))) (\<lambda>late.
     if late then throw_a (Runtime_error ''Agent::update_name() called at wrong stage'')
     else
       bind_a (upd_a (on_module i (\<lambda>a. a\<lparr>ag_name := new\<rparr>))) (\<lambda>_.
       set_prop_at i ''name'' (JStr new)))"

definition set_prop :: "nat \<Rightarrow> string \<Rightarrow> json \<Rightarrow> ('x, unit) am_act" where
  "set_prop i k v =
     (if k \<in> {''id'', ''name'', ''type'', ''queue''} then throw_a (Runtime_error ''reserved prop key'') else set_prop_at i k v)"

text \<open>\<open>Agent::manager\<close> and \<open>AgentManager::add\<close>; a full vector doubles its capacity.\<close>

definition manage :: "string \<Rightarrow> agent \<Rightarrow> (exn, agent) result" where
  "manage q a =
     (if 1 \<le> ag_stage a then Inl (Runtime_error ''Agent::set_manager() called at wrong stage'')
      else
        bind_r (opt_r Json_error (jset [K ''queue''] (JStr q) (ag_prop a))) (\<lambda>p.
        Inr (a\<lparr>ag_managed := True, ag_queue := q, ag_prop := p\<rparr>)))"

definition am_add :: "agent \<Rightarrow> ('x, nat) am_act" where
  "am_add a =
     bind_a (get_a am_queue) (\<lambda>q.
     bind_a (lift_r (manage q a)) (\<lambda>a'.
     bind_a (get_a (\<lambda>s. length (mstore s))) (\<lambda>n.
     bind_a (upd_a (\<lambda>s. s\<lparr>mstore := mstore s @ [a'], am_cap := if n = am_cap s then 2 * am_cap s else am_cap s\<rparr>)) (\<lambda>_.
     ret_a n))))"

text \<open>\<open>get<Agent>\<close>: the first module with the identifier.\<close>

definition find_module :: "string \<Rightarrow> 'x am \<Rightarrow> nat option" where
  "find_module i s = find (\<lambda>k. ag_id (mstore s ! k) = i) [0..<length (mstore s)]"

definition am_get :: "string \<Rightarrow> ('x, nat) am_act" where
  "am_get i = (\<lambda>s. (opt_r (Runtime_error (i @ '' agent module not found'')) (find_module i s), s))"

section \<open>Start\<close>

text \<open>
  The constructor: the queue of the RPC server, the connection settings and the two registration objects. The
  arguments are the settings \<open>agent.mq_server\<close> of the configuration.
\<close>

definition encryption_conf :: "string \<Rightarrow> string \<Rightarrow> string \<Rightarrow> (exn, (string \<times> json) list) result" where
  "encryption_conf ca psk_id psk =
     (if ca \<noteq> [] \<and> (psk \<noteq> [] \<or> psk_id \<noteq> []) then Inl (Runtime_error ''cant set both cafile and psk in the configuration.'')
      else if ca \<noteq> [] then Inr [(''encryption'', JStr ''certificate''), (''cacert'', JStr ca)]
      else if psk \<noteq> [] \<or> psk_id \<noteq> [] then Inr [(''encryption'', JStr ''psk''), (''psk_id'', JStr psk_id), (''psk'', JStr psk)]
      else Inr [(''encryption'', JStr ''none'')])"

definition registration_value :: "bool \<Rightarrow> string \<Rightarrow> json" where
  "registration_value online q = jobj [(''online'', JBool online), (''queue'', JStr q), (''modules'', jarr [])]"

definition AgentManager :: "string \<Rightarrow> string \<Rightarrow> int \<Rightarrow> string \<Rightarrow> string \<Rightarrow> string \<Rightarrow> 'x \<Rightarrow> (exn, 'x am) result" where
  "AgentManager cid host port ca psk_id psk ext =
     bind_r (encryption_conf ca psk_id psk) (\<lambda>enc.
     Inr \<lparr>am_cid = cid, am_queue = rpc_queue cid, mq_conf = jobj ([(''host'', JStr host), (''port'', JInt port)] @ enc),
          mstore = [], am_cap = 100, am_topics = [], am_tasks = [], reg_val = registration_value True (rpc_queue cid),
          de_reg_val = registration_value False (rpc_queue cid), am_will = None, am_connected = False, am_subs = [], am_out = [],
          am_mods = ext\<rparr>)"

record 'x hooks =
  do_bootstrap :: "nat \<Rightarrow> ('x, unit) am_act"
  do_init :: "nat \<Rightarrow> ('x, unit) am_act"
  do_registration :: "nat \<Rightarrow> ('x, unit) am_act"
  do_command :: "nat \<Rightarrow> string \<Rightarrow> json \<Rightarrow> ('x, json) am_act"
  do_on_message :: "nat \<Rightarrow> string \<Rightarrow> json \<Rightarrow> ('x, unit) am_act"

definition set_stage :: "nat \<Rightarrow> nat \<Rightarrow> ('x, unit) am_act" where
  "set_stage i n = upd_a (on_module i (\<lambda>a. a\<lparr>ag_stage := n\<rparr>))"

definition ag_bootstrap :: "'x hooks \<Rightarrow> nat \<Rightarrow> ('x, unit) am_act" where
  "ag_bootstrap h i = bind_a (do_bootstrap h i) (\<lambda>_. set_stage i 1)"

definition ag_init :: "'x hooks \<Rightarrow> nat \<Rightarrow> ('x, unit) am_act" where
  "ag_init h i = bind_a (do_init h i) (\<lambda>_. set_stage i 2)"

definition ag_registration :: "'x hooks \<Rightarrow> nat \<Rightarrow> ('x, unit) am_act" where
  "ag_registration h i = bind_a (do_registration h i) (\<lambda>_. set_stage i 3)"

text \<open>
  A range-based loop over the modules: its end is fixed when it starts, so that it does not reach modules that
  its body adds, and its iterators are invalid once the vector has been reallocated.
\<close>

definition each_module :: "(nat \<Rightarrow> ('x, unit) am_act) \<Rightarrow> ('x, unit) am_act" where
  "each_module f =
     bind_a (get_a (\<lambda>s. (length (mstore s), am_cap s))) (\<lambda>(n, cap).
     foreach_a (\<lambda>i.
       bind_a (f i) (\<lambda>_.
       bind_a (get_a am_cap) (\<lambda>cap'. if cap' = cap then ret_a () else throw_a Undefined))) [0..<n])"

definition append_module :: "nat \<Rightarrow> ('x, unit) am_act" where
  "append_module i =
     bind_a (get_a (\<lambda>s. ag_prop (mstore s ! i))) (\<lambda>p.
     bind_a (get_a reg_val) (\<lambda>r.
     bind_a (lift_r (opt_r Json_error (Option.bind (jget r [K ''modules'']) (append_j p)))) (\<lambda>ms.
     bind_a (lift_r (opt_r Json_error (jset [K ''modules''] ms r))) (\<lambda>r'.
     bind_a (get_a de_reg_val) (\<lambda>d.
     bind_a (lift_r (opt_r Json_error (Option.bind (jget d [K ''modules'']) (append_j p)))) (\<lambda>ms'.
     bind_a (lift_r (opt_r Json_error (jset [K ''modules''] ms' d))) (\<lambda>d'.
     upd_a (\<lambda>s. s\<lparr>reg_val := r', de_reg_val := d'\<rparr>))))))))"

definition reg_topic :: "'x am \<Rightarrow> string" where
  "reg_topic s = ''reg/'' @ am_cid s"

definition prepare :: "'x hooks \<Rightarrow> ('x, unit) am_act" where
  "prepare h = seq_a
     [each_module (ag_bootstrap h),
      upd_a (\<lambda>s. s\<lparr>am_subs := am_subs s @ [(am_queue s, 2)]\<rparr>),
      each_module (\<lambda>i. bind_a (ag_init h i) (\<lambda>_. ag_registration h i)),
      each_module append_module,
      upd_a (\<lambda>s. s\<lparr>am_will := Some (reg_topic s, de_reg_val s)\<rparr>)]"

section \<open>Messages\<close>

definition am_publish :: "string \<Rightarrow> json \<Rightarrow> int \<Rightarrow> bool \<Rightarrow> ('x, unit) am_act" where
  "am_publish topic msg qos retain = upd_a (\<lambda>s. s\<lparr>am_out := am_out s @ [(topic, msg, qos, retain)]\<rparr>)"

definition am_send_response :: "json \<Rightarrow> rpc_props \<Rightarrow> ('x, unit) am_act" where
  "am_send_response reply props = am_publish (reply_to props) (reply_message reply props) 1 False"

definition am_dispatch :: "am_task \<Rightarrow> ('x, unit) am_act" where
  "am_dispatch t = upd_a (\<lambda>s. s\<lparr>am_tasks := am_tasks s @ [t]\<rparr>)"

definition refusal :: "string \<Rightarrow> json" where
  "refusal status = jobj [(''code'', JInt 1), (''message'', JStr status)]"

text \<open>\<open>exn_text\<close> is \<open>what()\<close> of exceptions of libraries. The target is read before the \<open>try\<close>.\<close>

definition refusal_text :: "(exn \<Rightarrow> string) \<Rightarrow> exn \<Rightarrow> string" where
  "refusal_text exn_text e =
     (case e of Runtime_error t \<Rightarrow> ''Error: '' @ t | Text_thrown t \<Rightarrow> ''Exception caught; unsure what kind'' | _ \<Rightarrow> ''Error: '' @ exn_text e)"

definition dispatch_command :: "string \<Rightarrow> json \<Rightarrow> rpc_props \<Rightarrow> ('x, unit) am_act" where
  "dispatch_command tgt msg props =
     bind_a (am_get tgt) (\<lambda>i.
     bind_a (lift_r (opt_r Json_error (Option.bind (jget msg [K ''cmd'']) asString))) (\<lambda>cmd.
     bind_a (lift_r (opt_r Json_error (jget msg [K ''params'']))) (\<lambda>arg.
     am_dispatch (T_command i cmd arg props))))"

definition am_route :: "(exn \<Rightarrow> string) \<Rightarrow> string \<Rightarrow> json \<Rightarrow> rpc_props \<Rightarrow> ('x, unit) am_act" where
  "am_route exn_text tgt msg props =
     (if tgt = [] \<or> tgt = ''daemon'' then
        am_send_response (refusal (''Ignoring message; '' @ (if tgt = [] then ''no target.'' else ''daemon target.''))) props
      else (\<lambda>s. case dispatch_command tgt msg props s of
        (Inl e, s') \<Rightarrow> am_send_response (refusal (refusal_text exn_text e)) props s'
      | (Inr _, s') \<Rightarrow> (Inr (), s')))"

definition am_rpc_handler :: "(exn \<Rightarrow> string) \<Rightarrow> json \<Rightarrow> rpc_props \<Rightarrow> ('x, unit) am_act" where
  "am_rpc_handler exn_text msg props =
     bind_a (lift_r (opt_r Json_error (jget msg [K ''target'']))) (\<lambda>t.
     bind_a (if t = JNull then ret_a [] else lift_r (opt_r Json_error (asString t))) (\<lambda>tgt.
     am_route exn_text tgt msg props))"

definition am_rpc_msg :: "(exn \<Rightarrow> string) \<Rightarrow> json \<Rightarrow> ('x, unit) am_act" where
  "am_rpc_msg exn_text msg = bind_a (lift_r (rpc_request msg)) (\<lambda>(body, props). am_rpc_handler exn_text body props)"

text \<open>An exception of the module leaves the handler, and no reply is sent.\<close>

primrec run_am_task :: "'x hooks \<Rightarrow> am_task \<Rightarrow> ('x, unit) am_act" where
  "run_am_task h (T_command i cmd arg props) = bind_a (do_command h i cmd arg) (\<lambda>res. am_send_response res props)"
| "run_am_task h (T_message i topic msg) = do_on_message h i topic msg"

text \<open>Subscriptions of modules: \<open>topic_match\<close> is libmosquitto's.\<close>

definition on_mqtt_msg :: "(string \<Rightarrow> string \<Rightarrow> bool) \<Rightarrow> string \<Rightarrow> json \<Rightarrow> ('x, unit) am_act" where
  "on_mqtt_msg topic_match topic msg =
     bind_a (get_a am_topics) (\<lambda>ts.
     foreach_a (\<lambda>(sub, i). when_a (topic_match sub topic) (am_dispatch (T_message i topic msg))) ts)"

definition on_mqtt_conn :: "bool \<Rightarrow> ('x, unit) am_act" where
  "on_mqtt_conn conn =
     bind_a (upd_a (\<lambda>s. s\<lparr>am_connected := conn\<rparr>)) (\<lambda>_.
     when_a conn (\<lambda>s. am_publish (reg_topic s) (reg_val s) 1 True s))"

definition mqtt_subscribe :: "nat \<Rightarrow> string \<Rightarrow> int \<Rightarrow> ('x, bool) am_act" where
  "mqtt_subscribe i topic qos =
     bind_a (get_a am_connected) (\<lambda>conn.
     if \<not> conn then ret_a False
     else
       bind_a (upd_a (\<lambda>s. s\<lparr>am_subs := am_subs s @ [(topic, qos)], am_topics := am_topics s @ [(topic, i)]\<rparr>)) (\<lambda>_.
       ret_a True))"

definition mqtt_publish :: "int \<Rightarrow> string \<Rightarrow> json \<Rightarrow> int \<Rightarrow> bool \<Rightarrow> ('x, bool) am_act" where
  "mqtt_publish rc topic msg qos retain = bind_a (am_publish topic msg qos retain) (\<lambda>_. ret_a (rc = 0))"

text \<open>The end of \<open>run\<close>.\<close>

definition am_stop :: "('x, unit) am_act" where
  "am_stop = (\<lambda>s. am_publish (reg_topic s) (de_reg_val s) 1 True s)"

end
