(* ===== verification/Dtn_Setup.thy ===== *)
theory Dtn_Setup
  imports Agent_Manager Dtn_Commands Utils
begin

text \<open>
  Configuration, start-up and registration of the agent on a data transfer node, \<open>src/agent/dtnagent.cc\<close> lines 89
  to 985 and 3404 to 3548. \<open>host\<close> collects what the code asks of the machine here: names, addresses, link speeds,
  mounts and the clock.
\<close>

section \<open>State\<close>

record sysinfo =
  loads :: "int \<times> int \<times> int"
  totalram :: int
  freeram :: int
  totalswap :: int
  freeswap :: int

text \<open>
  \<open>h_popen\<close> is the output of a shell command, \<open>None\<close> when there is no pipe; \<open>h_run\<close> is \<open>run_process\<close>; \<open>h_blockstat\<close> the numbers
  that \<open>fscanf\<close> reads in a file of \<open>/sys/block\<close>; \<open>h_stat_files\<close> the pairs of numbers in the files of a directory of
  statistics, \<open>None\<close> when it cannot be opened. \<open>h_edge\<close> is the byte before the characters of an empty string.
  \<open>h_now\<close> counts milliseconds, \<open>h_uptime\<close> the seconds of the steady clock.
\<close>

record 'w host =
  h_name :: "'w \<Rightarrow> string option"
  h_first_mac :: "'w \<Rightarrow> string"
  h_ipv4 :: "'w \<Rightarrow> string \<Rightarrow> (exn, string) result"
  h_ipv6 :: "'w \<Rightarrow> string \<Rightarrow> (exn, string) result"
  h_mac :: "'w \<Rightarrow> string \<Rightarrow> (exn, string) result"
  h_speed :: "'w \<Rightarrow> string \<Rightarrow> (exn, int) result"
  h_vlan :: "'w \<Rightarrow> string \<Rightarrow> (exn, int) result"
  h_opendir :: "'w \<Rightarrow> string \<Rightarrow> bool"
  h_mkdtemp :: "string \<Rightarrow> 'w \<Rightarrow> (string + string) \<times> 'w"
  h_now :: "'w \<Rightarrow> int"
  h_uptime :: "'w \<Rightarrow> int"
  h_datetime :: "int \<Rightarrow> string"
  h_popen :: "string \<Rightarrow> 'w \<Rightarrow> string option \<times> 'w"
  h_run :: "string \<Rightarrow> 'w \<Rightarrow> (exn, unit) result \<times> 'w"
  h_sysinfo :: "'w \<Rightarrow> sysinfo option"
  h_blockstat :: "'w \<Rightarrow> string \<Rightarrow> int list option"
  h_stat_files :: "'w \<Rightarrow> string \<Rightarrow> (rat \<times> rat) list option"
  h_edge :: char

text \<open>What is sent to the database, \<open>src/agent/sitestore.cc\<close>.\<close>

datatype store_op = Del_one string string | Del_many string string | Insert_one string json

record storage_agent =
  sa_id :: string
  sa_name :: string
  sa_type :: string
  sa_device :: string
  sa_folders :: "string list"

text \<open>A storage module, \<open>LocalStorageAgent\<close> or \<open>SharedStorageAgent\<close>.\<close>

record storage_mod =
  st_conf :: json
  st_exe :: string
  st_test_dir :: string
  st_device :: string
  st_roots :: "string list"
  st_folders :: "string list"
  st_jbase :: json
  st_active :: bool
  st_thread :: bool

definition new_storage :: "json \<Rightarrow> storage_mod" where
  "new_storage conf =
     \<lparr>st_conf = conf, st_exe = [], st_test_dir = [], st_device = [], st_roots = [], st_folders = [], st_jbase = JNull, st_active = True,
      st_thread = False\<rparr>"

text \<open>A point of the time series: measurement, fields and tags.\<close>

type_synonym ts_point = "string \<times> (string \<times> rat) list \<times> (string \<times> string) list"

text \<open>
  The module. \<open>dm_port\<close> is \<open>None\<close> while the member has no value: no constructor gives it one. Sets of folders are
  sorted lists. The storage modules that the agent adds to the process, and their configurations, are kept here, by their
  positions among the modules and by their identifiers. \<open>dm_io_errored\<close> is a static variable of the storage agents.
\<close>

record ('w, 'c) dtn_module =
  dm_dtn :: "('w, 'c) dtn"
  dm_host :: "'w host"
  dm_conf :: json
  dm_agent_conf :: json
  dm_scan :: bool
  dm_iozone :: string
  dm_path :: string
  dm_args :: "string list"
  dm_env :: "(string, string) stdmap"
  dm_port :: "int option"
  dm_use_hostname :: bool
  dm_threshold :: int
  dm_storage_map :: "(string, string list) stdmap"
  dm_agents :: "storage_agent list"
  dm_store :: "store_op list"
  dm_confs :: "(string, json) stdmap"
  dm_storages :: "(nat \<times> storage_mod) list"
  dm_series :: "ts_point list"
  dm_io_errored :: bool

type_synonym ('w, 'c, 'a) setup_act = "(('w, 'c) dtn_module, exn, 'a) act"

definition dtn_upd :: "(('w, 'c) dtn \<Rightarrow> ('w, 'c) dtn) \<Rightarrow> ('w, 'c, unit) setup_act" where
  "dtn_upd f = upd_a (\<lambda>m. m\<lparr>dm_dtn := f (dm_dtn m)\<rparr>)"

definition ask_host :: "('w host \<Rightarrow> 'w \<Rightarrow> 'a) \<Rightarrow> ('w, 'c) dtn_module \<Rightarrow> 'a" where
  "ask_host f m = f (dm_host m) (d_world (dm_dtn m))"

definition host_a :: "('w host \<Rightarrow> 'w \<Rightarrow> (exn, 'a) result) \<Rightarrow> ('w, 'c, 'a) setup_act" where
  "host_a f = (\<lambda>m. (ask_host f m, m))"

section \<open>Arguments of the transfer program\<close>

text \<open>
  \<open>std::mismatch\<close> against a fixed prefix: it reads past the end of a string that is a proper prefix of it.
\<close>

definition begins_with :: "string \<Rightarrow> string \<Rightarrow> (exn, bool) result" where
  "begins_with pre str =
     (if take (length pre) str = pre then Inr True else if take (length str) pre = str then Inl Undefined else Inr False)"

definition interpret_data_interface :: "string list \<Rightarrow> string \<Rightarrow> (exn, string) result" where
  "interpret_data_interface ifaces name =
     (let s1 = split name (CHR ''['')
      in if length s1 \<noteq> 2 then Inl (Runtime_error (''Failed to parse '' @ name))
         else
           let s2 = split (s1 ! 1) (CHR '']'')
           in if length s2 \<noteq> 1 then Inl (Runtime_error (''Failed to parse '' @ name))
              else bind_r (stoi (s2 ! 0)) (\<lambda>idx.
                Inr (if 0 \<le> idx \<and> nat idx < length ifaces then ifaces ! nat idx else ''unknown'')))"

definition get_iface_name_from_ip_of :: "string \<Rightarrow> string list \<Rightarrow> string \<Rightarrow> (exn, string) result" where
  "get_iface_name_from_ip_of mgmt ifaces str =
     (let v1 = split str (CHR ''('')
      in if length v1 \<noteq> 2 then Inl (Runtime_error (''failed to parse '' @ str))
         else
           let v2 = split (v1 ! 1) (CHR '')'')
           in if length v2 \<noteq> 1 then Inl (Runtime_error (''failed to parse '' @ str))
              else
                let iface = v2 ! 0
                in if 1 < length iface \<and> iface ! 0 = CHR 0x26 then
                     (if str_find iface ''data_interfaces'' 0 \<noteq> None then interpret_data_interface ifaces iface
                      else if str_find iface ''management_interface'' 0 \<noteq> None then Inr mgmt
                      else Inr iface)
                   else Inr iface)"

text \<open>\<open>interpret_ip_of\<close> and \<open>interpret_ipv6_of\<close>; an exception gives the default.\<close>

definition interpret_addr :: "(string \<Rightarrow> (exn, string) result) \<Rightarrow> string \<Rightarrow> string \<Rightarrow> string list \<Rightarrow> string \<Rightarrow> (exn, string) result" where
  "interpret_addr addr dflt mgmt ifaces arg =
     catch_r (bind_r (get_iface_name_from_ip_of mgmt ifaces arg) addr) (\<lambda>_. dflt)"

definition program_arg :: "('w, 'c) dtn_module \<Rightarrow> json \<Rightarrow> (exn, string) result" where
  "program_arg m v =
     (let mgmt = mgmt_iface (dm_dtn m); ifaces = data_ifaces (dm_dtn m)
      in bind_r (opt_r Json_error (asString v)) (\<lambda>arg.
         bind_r (begins_with ''ip-of('' arg) (\<lambda>v4.
         if v4 then interpret_addr (ask_host h_ipv4 m) ''0.0.0.0'' mgmt ifaces arg
         else
           bind_r (begins_with ''ipv6-of('' arg) (\<lambda>v6.
           if v6 then interpret_addr (ask_host h_ipv6 m) ''::1'' mgmt ifaces arg else Inr arg))))"

text \<open>The value after an option; \<open>std::next\<close> of the last element is dereferenced when there is none.\<close>

fun option_value :: "string \<Rightarrow> string list \<Rightarrow> (exn, int) result option" where
  "option_value opt [] = None"
| "option_value opt (a # as) = (if a = opt then Some (case as of [] \<Rightarrow> Inl Undefined | b # bs \<Rightarrow> stoi b) else option_value opt as)"

definition find_port :: "string \<Rightarrow> string list \<Rightarrow> (exn, int option) result" where
  "find_port path args =
     bind_r (begins_with (rev ''mdtm-ftp-server'') (rev path)) (\<lambda>mdtm.
     if \<not> mdtm then Inr None
     else case option_value ''-p'' args of
       Some r \<Rightarrow> bind_r r (\<lambda>p. Inr (Some p))
     | None \<Rightarrow>
         (case option_value ''-port'' args of Some r \<Rightarrow> bind_r r (\<lambda>p. Inr (Some p)) | None \<Rightarrow> Inr None))"

text \<open>An environment setting: the first member of an object.\<close>

definition add_env :: "json \<Rightarrow> (string, string) stdmap \<Rightarrow> (exn, (string, string) stdmap) result" where
  "add_env item env =
     bind_r (opt_r Json_error (getMemberNames item)) (\<lambda>names.
     if names = [] then Inr env
     else bind_r (q_str item [K (hd names)]) (\<lambda>v. Inr (emplace (hd names) v env)))"

definition get_program_env :: "json \<Rightarrow> (string, string) stdmap \<Rightarrow> (exn, (string, string) stdmap) result" where
  "get_program_env conf_env env =
     (if jempty conf_env then Inr env else if isArray conf_env then fold_r add_env (elems conf_env) env else add_env conf_env env)"

section \<open>Configuration\<close>

definition string_values :: "json \<Rightarrow> (exn, string list) result" where
  "string_values j = (if jempty j then Inr [] else string_list j)"

definition conf_flag :: "json \<Rightarrow> string \<Rightarrow> (exn, bool) result" where
  "conf_flag conf k = bind_r (q_get conf [K k]) (\<lambda>v. if jempty v then Inr False else opt_r Json_error (asBool v))"

definition conf_size :: "json \<Rightarrow> string \<Rightarrow> int \<Rightarrow> (exn, int) result" where
  "conf_size conf k dflt =
     bind_r (q_get conf [K ''checksum'', K k]) (\<lambda>v. if jempty v then Inr dflt else opt_r Json_error (asUInt64 v))"

definition check_folders :: "json \<Rightarrow> ('w, 'c, unit) setup_act" where
  "check_folders conf =
     bind_a (lift_r (bind_r (q_get conf [K ''data_folders'', K ''path'']) string_values)) (\<lambda>dfs.
     bind_a (dtn_upd (\<lambda>d. d\<lparr>data_folders := data_folders d @ dfs\<rparr>)) (\<lambda>_.
     bind_a (lift_r (q_get conf [K ''data_folders'', K ''scan''])) (\<lambda>scan.
     upd_a (\<lambda>m. m\<lparr>dm_scan := (scan = JBool True)\<rparr>))))"

definition check_interfaces :: "json \<Rightarrow> ('w, 'c, unit) setup_act" where
  "check_interfaces conf =
     bind_a (lift_r (q_str conf [K ''management_interface''])) (\<lambda>mgmt.
     bind_a (dtn_upd (\<lambda>d. d\<lparr>mgmt_iface := mgmt\<rparr>)) (\<lambda>_.
     if mgmt = [] then throw_a (Runtime_error ''No management_interface found.'')
     else
       bind_a (lift_r (q_get conf [K ''data_interfaces''])) (\<lambda>di.
       if jempty di then throw_a (Runtime_error ''No data_interfaces found.'')
       else
         bind_a (lift_r (string_list di)) (\<lambda>dis.
         bind_a (dtn_upd (\<lambda>d. d\<lparr>data_ifaces := data_ifaces d @ dis\<rparr>)) (\<lambda>_.
         bind_a (lift_r (bind_r (q_get conf [K ''storage_interfaces'']) string_values)) (\<lambda>sis.
         dtn_upd (\<lambda>d. d\<lparr>storage_ifaces := storage_ifaces d @ sis\<rparr>)))))))"

definition check_program :: "json \<Rightarrow> ('w, 'c, unit) setup_act" where
  "check_program conf =
     bind_a (get_a dm_agent_conf) (\<lambda>agentconf.
     bind_a (lift_r (q_str agentconf [K ''agent'', K ''programs'', K ''iozone''])) (\<lambda>iozone.
     bind_a (upd_a (\<lambda>m. m\<lparr>dm_iozone := if iozone = [] then ''iozone'' else iozone\<rparr>)) (\<lambda>_.
     bind_a (lift_r (q_str conf [K ''data_transfer_program'', K ''path''])) (\<lambda>path.
     bind_a (upd_a (\<lambda>m. m\<lparr>dm_path := path\<rparr>)) (\<lambda>_.
     bind_a (lift_r (q_get conf [K ''data_transfer_program'', K ''args''])) (\<lambda>args.
     bind_a (\<lambda>m. (if jempty args then Inr []
                  else if isArray args then map_r (program_arg m) (elems args)
                  else bind_r (opt_r Json_error (asString args)) (\<lambda>a. Inr [a]), m)) (\<lambda>as.
     bind_a (upd_a (\<lambda>m. m\<lparr>dm_args := dm_args m @ as\<rparr>)) (\<lambda>_.
     bind_a (\<lambda>m. (find_port (dm_path m) (dm_args m), m)) (\<lambda>port.
     bind_a (upd_a (\<lambda>m. m\<lparr>dm_port := if port = None then dm_port m else port\<rparr>)) (\<lambda>_.
     bind_a (lift_r (q_get conf [K ''data_transfer_program'', K ''env''])) (\<lambda>env.
     bind_a (\<lambda>m. (get_program_env env (dm_env m), m)) (\<lambda>env'.
     upd_a (\<lambda>m. m\<lparr>dm_env := env'\<rparr>)))))))))))))"

definition check_flags :: "json \<Rightarrow> ('w, 'c, unit) setup_act" where
  "check_flags conf =
     bind_a (lift_r (conf_flag conf ''ignore_route_cmds'')) (\<lambda>ir.
     bind_a (dtn_upd (\<lambda>d. d\<lparr>ignore_route_cmds := ir \<or> ignore_route_cmds d\<rparr>)) (\<lambda>_.
     bind_a (lift_r (conf_flag conf ''ignore_arp_cmds'')) (\<lambda>ia.
     bind_a (dtn_upd (\<lambda>d. d\<lparr>ignore_arp_cmds := ia \<or> ignore_arp_cmds d\<rparr>)) (\<lambda>_.
     bind_a (lift_r (conf_flag conf ''use_hostname_for_control'')) (\<lambda>uh.
     bind_a (upd_a (\<lambda>m. m\<lparr>dm_use_hostname := uh \<or> dm_use_hostname m\<rparr>)) (\<lambda>_.
     bind_a (lift_r (q_get conf [K ''use_expand_v2_parent_list''])) (\<lambda>hg.
     bind_a (dtn_upd (\<lambda>d. d\<lparr>use_parent_list := case hg of JBool b \<Rightarrow> b | _ \<Rightarrow> use_parent_list d\<rparr>)) (\<lambda>_.
     bind_a (lift_r (conf_size conf ''threads'' 256)) (\<lambda>n.
     bind_a (lift_r (conf_size conf ''file_size_threshold'' (1024 * 1024 * 1024))) (\<lambda>t.
     bind_a (dtn_upd (\<lambda>d. d\<lparr>checksum_threads := nat n\<rparr>)) (\<lambda>_.
     upd_a (\<lambda>m. m\<lparr>dm_threshold := t\<rparr>))))))))))))"

definition check_configuration :: "json \<Rightarrow> ('w, 'c, unit) setup_act" where
  "check_configuration conf =
     (if jempty conf then throw_a (Runtime_error ''Empty DTN Agent configuration.'')
      else seq_a [check_folders conf, check_interfaces conf, check_program conf, check_flags conf])"

section \<open>Storage agents\<close>

definition add_folder :: "string \<Rightarrow> string \<Rightarrow> (string, string list) stdmap \<Rightarrow> (string, string list) stdmap" where
  "add_folder device path m =
     adjust device (\<lambda>ps. if path \<in> set ps then ps else insort path ps) (emplace device [] m)"

definition folder_devices :: "bool \<Rightarrow> string \<Rightarrow> ('w, 'c) dtn_module \<Rightarrow> (exn, string list) result" where
  "folder_devices scan path m =
     (let h = fs_host_of (d_machine (dm_dtn m)) (d_world (dm_dtn m))
      in bind_r (mounts_of (fs_mount h) (is_root_path h) scan path) (\<lambda>ms. Inr (map mount_source ms)))"

definition scan_folder :: "bool \<Rightarrow> string \<Rightarrow> ('w, 'c, unit) setup_act" where
  "scan_folder scan path =
     bind_a (\<lambda>m. (folder_devices scan path m, m)) (\<lambda>devices.
     upd_a (\<lambda>m. m\<lparr>dm_storage_map := fold (\<lambda>d. add_folder d path) devices (dm_storage_map m)\<rparr>))"

definition scan_data_folder :: "('w, 'c, unit) setup_act" where
  "scan_data_folder =
     bind_a (get_a (\<lambda>m. (data_folders (dm_dtn m), dm_scan m))) (\<lambda>(paths, scan). foreach_a (scan_folder scan) paths)"

definition world_upd :: "('w \<Rightarrow> 'a \<times> 'w) \<Rightarrow> ('w, 'c, 'a) setup_act" where
  "world_upd f = (\<lambda>m. let (a, w) = f (d_world (dm_dtn m)) in (Inr a, m\<lparr>dm_dtn := (dm_dtn m)\<lparr>d_world := w\<rparr>\<rparr>))"

definition mkdtemp_a :: "string \<Rightarrow> string \<Rightarrow> ('w, 'c, string) setup_act" where
  "mkdtemp_a template err =
     bind_a (get_a dm_host) (\<lambda>h.
     bind_a (world_upd (h_mkdtemp h template)) (\<lambda>r.
     case r of Inl e \<Rightarrow> throw_a (Runtime_error (err @ '', error: '' @ e)) | Inr dir \<Rightarrow> ret_a dir))"

definition get_iozone_work_folder :: "string \<Rightarrow> ('w, 'c, string) setup_act" where
  "get_iozone_work_folder path =
     (let basedir = path @ ''/bde-iozone''
      in bind_a (get_a (\<lambda>m. (ask_host h_opendir m basedir, d_machine (dm_dtn m)))) (\<lambda>(there, mach).
         bind_a (if there then ret_a 0 else world_upd (m_mkdir mach basedir)) (\<lambda>err.
         if err \<noteq> 0 then throw_a (Runtime_error (''Can't create a base directory for iozone work at '' @ basedir @ '', error: '' @ m_strerror mach err))
         else mkdtemp_a (basedir @ ''/work-XXXXXX'') (''Can't create a work directory for iozone at path '' @ path))))"

text \<open>The first folder in which a work folder for iozone can be made, unless the configuration switches iozone off.\<close>

fun iozone_folder :: "string list \<Rightarrow> ('w, 'c, string option) setup_act" where
  "iozone_folder [] = ret_a None"
| "iozone_folder (p # ps) =
     bind_a (get_a dm_conf) (\<lambda>conf.
     bind_a (lift_r (q_get conf [K ''iozone'', K ''enable''])) (\<lambda>en.
     bind_a (if jempty en then ret_a True else lift_r (opt_r Json_error (asBool en))) (\<lambda>enabled.
     if \<not> enabled then ret_a None
     else bind_a (catch_s (bind_a (get_iozone_work_folder p) (\<lambda>f. ret_a (Some f))) (\<lambda>_. None)) (\<lambda>r.
       case r of Some f \<Rightarrow> ret_a (Some f) | None \<Rightarrow> iozone_folder ps))))"

definition mods_a :: "('w, 'c, 'a) setup_act \<Rightarrow> (('w, 'c) dtn_module, 'a) am_act" where
  "mods_a f = (\<lambda>s. let (r, m) = f (am_mods s) in (r, s\<lparr>am_mods := m\<rparr>))"

definition my_id :: "nat \<Rightarrow> 'x am \<Rightarrow> string" where
  "my_id i s = ag_id (mstore s ! i)"

definition my_name :: "nat \<Rightarrow> 'x am \<Rightarrow> string" where
  "my_name i s = ag_name (mstore s ! i)"

text \<open>
  A storage agent for a device. The kind is a pointer to a literal; equal literals are taken to be one object, as
  compilers make them.
\<close>

definition storage_conf :: "string \<Rightarrow> string \<Rightarrow> string \<Rightarrow> string \<Rightarrow> json \<Rightarrow> string list \<Rightarrow> string \<Rightarrow> string option \<Rightarrow> json" where
  "storage_conf sid sname stype device mgs paths exe work =
     jobj ([(''id'', JStr sid), (''name'', JStr sname), (''type'', JStr stype), (''device'', JStr device)] @
       (if stype = ''shared'' then [(''MGS'', mgs)] else []) @
       (if paths = [] then [] else [(''root-folders'', jarr (map JStr paths))]) @
       [(''iozone-executable'', JStr exe)] @
       (case work of None \<Rightarrow> [] | Some f \<Rightarrow> [(''iozone-work-folder'', JStr f)]))"

definition add_storage :: "string \<Rightarrow> string \<Rightarrow> string \<Rightarrow> string \<Rightarrow> string list \<Rightarrow> (('w, 'c) dtn_module, unit) am_act" where
  "add_storage sid sname stype device paths =
     bind_a (get_a (\<lambda>s. or_null (map_of (dm_confs (am_mods s)) sid))) (\<lambda>c.
     bind_a (am_add (new_agent sid sname (if stype = ''local'' then ''LocalStorage'' else ''SharedStorage''))) (\<lambda>n.
     mods_a (upd_a (\<lambda>m. m\<lparr>dm_storages := dm_storages m @ [(n, new_storage c)],
       dm_agents := dm_agents m @ [\<lparr>sa_id = sid, sa_name = sname, sa_type = stype, sa_device = device, sa_folders = paths\<rparr>]\<rparr>))))"

definition init_storage_agent :: "nat \<Rightarrow> string \<times> string list \<Rightarrow> (('w, 'c) dtn_module, unit) am_act" where
  "init_storage_agent i = (\<lambda>(device, paths).
     bind_a (get_a (\<lambda>s. (my_id i s @ ''|'' @ device, my_name i s @ '':'' @ device))) (\<lambda>(sid, sname).
     bind_a (mods_a (bind_a (get_a dm_conf) (\<lambda>conf. lift_r (q_get conf [K ''shared_storage_agent''])))) (\<lambda>sh.
     let stype = (if jempty sh then ''local'' else ''shared'')
     in bind_a (if stype = ''shared'' then lift_r (q_get sh [K ''Lustre MGS'']) else ret_a JNull) (\<lambda>mgs.
        bind_a (mods_a (iozone_folder paths)) (\<lambda>work.
        bind_a (mods_a (upd_a (\<lambda>m. m\<lparr>dm_confs := emplace sid (storage_conf sid sname stype device mgs paths (dm_iozone m) work) (dm_confs m)\<rparr>))) (\<lambda>_.
        catch_s (add_storage sid sname stype device paths) (\<lambda>_. ())))))))"

definition init_storage_agents :: "nat \<Rightarrow> (('w, 'c) dtn_module, unit) am_act" where
  "init_storage_agents i = bind_a (get_a (\<lambda>s. dm_storage_map (am_mods s))) (foreach_a (init_storage_agent i))"

section \<open>Stages\<close>

definition dtn_bootstrap :: "nat \<Rightarrow> (('w, 'c) dtn_module, unit) am_act" where
  "dtn_bootstrap i =
     bind_a (mods_a (bind_a (get_a dm_conf) check_configuration)) (\<lambda>_.
     bind_a (\<lambda>s. (if my_id i s = [] then update_id i (ask_host h_first_mac (am_mods s)) else ret_a ()) s) (\<lambda>_.
     bind_a (\<lambda>s. update_name i (case ask_host h_name (am_mods s) of Some n \<Rightarrow> n | None \<Rightarrow> my_id i s) s) (\<lambda>_.
     bind_a (mods_a (bind_a (get_a dm_scan) (\<lambda>scan. when_a scan scan_data_folder))) (\<lambda>_.
     init_storage_agents i))))"

definition dtn_part :: "('w, 'c, 'a) dtn_act \<Rightarrow> ('w, 'c, 'a) setup_act" where
  "dtn_part f = (\<lambda>m. let (r, d) = f (dm_dtn m) in (r, m\<lparr>dm_dtn := d\<rparr>))"

definition dtn_init :: "nat \<Rightarrow> (('w, 'c) dtn_module, unit) am_act" where
  "dtn_init i = mods_a (dtn_part init_link_rates)"

section \<open>Registration\<close>

text \<open>Rates are multiples of 1000 of the link speed, as \<open>size_t\<close>.\<close>

definition iface_rate :: "('w, 'c) dtn_module \<Rightarrow> string \<Rightarrow> (exn, json) result" where
  "iface_rate m i = bind_r (ask_host h_speed m i) (\<lambda>v. Inr (JUInt (v * 1000 mod 2 ^ 64)))"

definition ctrl_interface :: "('w, 'c) dtn_module \<Rightarrow> string \<Rightarrow> (exn, json) result" where
  "ctrl_interface m name =
     (let mgmt = mgmt_iface (dm_dtn m)
      in bind_r (if dm_use_hostname m \<and> name \<noteq> [] then Inr name else ask_host h_ipv4 m mgmt) (\<lambda>ip.
         bind_r (ask_host h_ipv6 m mgmt) (\<lambda>ipv6.
         bind_r (iface_rate m mgmt) (\<lambda>rate.
         Inr (jobj [(''name'', JStr mgmt), (''ip'', JStr ip), (''ipv6'', JStr ipv6), (''rate'', rate)])))))"

definition data_interface :: "('w, 'c) dtn_module \<Rightarrow> string \<Rightarrow> (exn, json) result" where
  "data_interface m di =
     bind_r (ask_host h_ipv4 m di) (\<lambda>ip.
     bind_r (ask_host h_ipv6 m di) (\<lambda>ipv6.
     bind_r (ask_host h_mac m di) (\<lambda>mac.
     bind_r (iface_rate m di) (\<lambda>rate.
     bind_r (ask_host h_vlan m di) (\<lambda>vlan.
     Inr (jobj [(''name'', JStr di), (''ip'', JStr ip), (''ipv6'', JStr ipv6), (''mac'', JStr mac), (''rate'', rate), (''vlan_id'', JInt vlan)]))))))"

definition storage_interface :: "('w, 'c) dtn_module \<Rightarrow> string \<Rightarrow> (exn, json) result" where
  "storage_interface m si =
     bind_r (iface_rate m si) (\<lambda>rate. Inr (jobj [(''name'', JStr si), (''type'', JStr ''local''), (''rate'', rate)]))"

text \<open>The port is read although it may have no value.\<close>

definition transfer_program :: "('w, 'c) dtn_module \<Rightarrow> (exn, json) result" where
  "transfer_program m =
     bind_r (opt_r Undefined (dm_port m)) (\<lambda>port.
     Inr (jobj ([(''path'', JStr (dm_path m))] @ (if port \<noteq> 0 then [(''port'', JInt port)] else []) @
       (if dm_env m = [] then [] else [(''env'', jobj (map (\<lambda>(k, v). (k, JStr v)) (dm_env m)))]))))"

definition storage_value :: "storage_agent \<Rightarrow> json" where
  "storage_value a =
     jobj ([(''id'', JStr (sa_id a)), (''name'', JStr (sa_name a)), (''type'', JStr (sa_type a)), (''device'', JStr (sa_device a))] @
       (if sa_folders a = [] then [] else [(''data_folders'', jarr (map JStr (sa_folders a)))]))"

definition set_dtn_properties :: "nat \<Rightarrow> (('w, 'c) dtn_module, unit) am_act" where
  "set_dtn_properties i =
     bind_a (\<lambda>s. (ctrl_interface (am_mods s) (my_name i s), s)) (\<lambda>ctrl.
     bind_a (set_prop i ''ctrl_interface'' ctrl) (\<lambda>_.
     bind_a (\<lambda>s. (map_r (data_interface (am_mods s)) (data_ifaces (dm_dtn (am_mods s))), s)) (\<lambda>dis.
     bind_a (set_prop i ''data_interfaces'' (jlist dis)) (\<lambda>_.
     bind_a (\<lambda>s. (map_r (storage_interface (am_mods s)) (storage_ifaces (dm_dtn (am_mods s))), s)) (\<lambda>_.
     bind_a (\<lambda>s. set_prop i ''data_folders'' (jlist (map JStr (data_folders (dm_dtn (am_mods s))))) s) (\<lambda>_.
     bind_a (\<lambda>s. (if dm_path (am_mods s) = [] then ret_a ()
                  else bind_a (lift_r (transfer_program (am_mods s))) (set_prop i ''data_transfer_program'')) s) (\<lambda>_.
     (\<lambda>s. set_prop i ''storages'' (jlist (map storage_value (dm_agents (am_mods s)))) s))))))))"

definition expiry :: "('w, 'c) dtn_module \<Rightarrow> int" where
  "expiry m = ask_host h_now m + 120000"

definition store_a :: "store_op list \<Rightarrow> ('w, 'c, unit) setup_act" where
  "store_a ops = upd_a (\<lambda>m. m\<lparr>dm_store := dm_store m @ ops\<rparr>)"

definition dtn_document :: "string \<Rightarrow> string \<Rightarrow> string \<Rightarrow> ('w, 'c) dtn_module \<Rightarrow> (exn, json) result" where
  "dtn_document i name queue m =
     bind_r (ctrl_interface m name) (\<lambda>ctrl.
     bind_r (map_r (data_interface m) (data_ifaces (dm_dtn m))) (\<lambda>dis.
     bind_r (map_r (storage_interface m) (storage_ifaces (dm_dtn m))) (\<lambda>sis.
     bind_r (if dm_path m = [] then Inr [] else bind_r (transfer_program m) (\<lambda>p. Inr [(''data_transfer_program'', p)])) (\<lambda>prog.
     Inr (jobj ([(''id'', JStr i), (''name'', JStr name), (''expire_at'', JUInt (expiry m)), (''queue_name'', JStr queue),
       (''expiry_datetime'', JStr (h_datetime (dm_host m) (expiry m div 1000))), (''ctrl_interface'', ctrl), (''data_interfaces'', jlist dis),
       (''storage_interfaces'', jlist sis), (''data_folders'', jlist (map JStr (data_folders (dm_dtn m))))] @ prog))))))"

definition register_dtn :: "nat \<Rightarrow> (('w, 'c) dtn_module, unit) am_act" where
  "register_dtn i =
     bind_a (\<lambda>s. (dtn_document (my_id i s) (my_name i s) (ag_queue (mstore s ! i)) (am_mods s), s)) (\<lambda>val.
     (\<lambda>s. mods_a (store_a [Del_one ''dtn'' (my_id i s), Insert_one ''dtn'' val]) s))"

text \<open>\<open>name\<close> is written twice: the name of the storage agent is replaced by that of the node.\<close>

definition sdmap_document :: "string \<Rightarrow> string \<Rightarrow> ('w, 'c) dtn_module \<Rightarrow> storage_agent \<Rightarrow> json" where
  "sdmap_document i name m a =
     jobj [(''dtn'', JStr i), (''storage'', JStr (sa_id a)), (''storage_interface'', JStr (sa_type a)), (''name'', JStr (sa_name a)),
       (''type'', JStr (sa_type a)), (''expire_at'', JUInt (expiry m)), (''name'', JStr name),
       (''expiry_datetime'', JStr (h_datetime (dm_host m) (expiry m div 1000)))]"

definition register_all_sdmaps :: "nat \<Rightarrow> (('w, 'c) dtn_module, unit) am_act" where
  "register_all_sdmaps i = (\<lambda>s.
     mods_a (store_a (Del_many ''sdmap'' (my_id i s) #
       map (\<lambda>a. Insert_one ''sdmap'' (sdmap_document (my_id i s) (my_name i s) (am_mods s) a)) (dm_agents (am_mods s)))) s)"

definition dtn_registration :: "nat \<Rightarrow> (('w, 'c) dtn_module, unit) am_act" where
  "dtn_registration i = seq_a [register_dtn i, register_all_sdmaps i, set_dtn_properties i]"

text \<open>The round of the status timer.\<close>

definition dtn_round :: "nat \<Rightarrow> (('w, 'c) dtn_module, unit) am_act" where
  "dtn_round i = catch_s
     (seq_a [mods_a (dtn_part check_network_interfaces), register_dtn i, register_all_sdmaps i]) (\<lambda>_. ())"

section \<open>Timers\<close>

definition series_a :: "ts_point \<Rightarrow> ('w, 'c, unit) setup_act" where
  "series_a p = upd_a (\<lambda>m. m\<lparr>dm_series := dm_series m @ [p]\<rparr>)"

text \<open>Load averages are integers scaled by \<open>2\<^sup>1\<^sup>6\<close>; when the call fails, zeros are reported.\<close>

definition no_sysinfo :: sysinfo where
  "no_sysinfo = \<lparr>loads = (0, 0, 0), totalram = 0, freeram = 0, totalswap = 0, freeswap = 0\<rparr>"

definition load_avg :: "int \<Rightarrow> rat" where
  "load_avg l = of_int l / 65536"

definition update_time_series_sysinfo_stats :: "string \<Rightarrow> string \<Rightarrow> ('w, 'c, unit) setup_act" where
  "update_time_series_sysinfo_stats name i =
     bind_a (get_a (ask_host h_sysinfo)) (\<lambda>r.
     let info = (case r of Some x \<Rightarrow> x | None \<Rightarrow> no_sysinfo); (l1, l5, l15) = loads info
     in series_a (''sysinfo'',
       [(''loadavg-1m'', load_avg l1), (''loadavg-5m'', load_avg l5), (''loadavg-15m'', load_avg l15),
        (''total-ram'', of_int (totalram info)), (''free-ram'', of_int (freeram info)),
        (''total-swap'', of_int (totalswap info)), (''free-swap'', of_int (freeswap info))],
       [(''name'', name), (''id'', i)]))"

definition word_field :: "32 word \<Rightarrow> rat" where
  "word_field w = of_int (uint w)"

definition update_time_series_interface_stats :: "string \<Rightarrow> string \<Rightarrow> string \<Rightarrow> ('w, 'c, unit) setup_act" where
  "update_time_series_interface_stats name i iface = catch_s
     (bind_a (\<lambda>m. (m_link_stats (d_machine (dm_dtn m)) (d_world (dm_dtn m)) iface, m)) (\<lambda>st.
      series_a (''network'',
        [(''rx-bytes'', word_field (rx_bytes st)), (''rx-packets'', word_field (rx_packets st)), (''rx-dropped'', word_field (rx_dropped st)),
         (''rx-errors'', word_field (rx_errors st)), (''tx-bytes'', word_field (tx_bytes st)), (''tx-packets'', word_field (tx_packets st)),
         (''tx-dropped'', word_field (tx_dropped st)), (''tx-errors'', word_field (tx_errors st))],
        [(''name'', name), (''id'', i), (''interface'', iface)]))) (\<lambda>_. ())"

definition update_time_series_db :: "nat \<Rightarrow> (('w, 'c) dtn_module, unit) am_act" where
  "update_time_series_db i = (\<lambda>s. mods_a
     (bind_a (update_time_series_sysinfo_stats (my_name i s) (my_id i s)) (\<lambda>_.
      bind_a (get_a (\<lambda>m. data_ifaces (dm_dtn m))) (foreach_a (update_time_series_interface_stats (my_name i s) (my_id i s))))) s)"

definition run_process_a :: "string \<Rightarrow> ('w, 'c, unit) setup_act" where
  "run_process_a cmd = bind_a (get_a dm_host) (\<lambda>h. bind_a (world_upd (h_run h cmd)) lift_r)"

definition ping_with_data_interface :: "('w, 'c, unit) setup_act" where
  "ping_with_data_interface =
     bind_a (get_a (\<lambda>m. data_ifaces (dm_dtn m))) (\<lambda>ifs.
     if ifs = [] then ret_a ()
     else catch_s (foreach_a (\<lambda>di. run_process_a (''/bin/ping -I '' @ di @ '' -w 2 -c 2 fnal.gov'')) ifs) (\<lambda>_. ()))"

end
