(* ===== verification/Launcher_Agent.thy ===== *)
theory Launcher_Agent
  imports Dtn_Setup
begin

text \<open>
  The launcher, \<open>src/agent/launcheragent.cc\<close>: it runs the client of the data transfer program, passes the commands
  of the server on to it and its reports back. The call to the client and its process are parameters.
\<close>

section \<open>State\<close>

record 'w launcher =
  l_conf :: json
  l_world :: 'w
  l_hostname :: "string option"
  l_pid :: int
  l_now :: "'w \<Rightarrow> int"
  l_call :: "string \<Rightarrow> json \<Rightarrow> 'w \<Rightarrow> (exn, json) result \<times> 'w"
  l_path :: string
  l_args :: "string list"
  l_env :: "(string, string) stdmap"
  bde_server_queue :: string
  listen_queue :: string
  report_queue :: string
  l_listening :: bool
  l_supervised :: bool
  l_saved :: "(string \<times> json) list"
  l_store :: "store_op list"

type_synonym ('w, 'a) launcher_act = "('w launcher, 'a) am_act"

definition launcher_upd :: "('w launcher \<Rightarrow> 'w launcher) \<Rightarrow> ('w, unit) launcher_act" where
  "launcher_upd f = upd_a (\<lambda>s. s\<lparr>am_mods := f (am_mods s)\<rparr>)"

section \<open>Start\<close>

definition launcher_bootstrap :: "nat \<Rightarrow> ('w, unit) launcher_act" where
  "launcher_bootstrap i =
     bind_a (get_a (\<lambda>s. case l_hostname (am_mods s) of Some n \<Rightarrow> ''Launching Agent on '' @ n | None \<Rightarrow> ''Launching Agent'')) (\<lambda>new_name.
     bind_a (get_a (my_id i)) (\<lambda>old.
     bind_a (when_a (old \<noteq> ''launcher-agent'') (update_id i ''launcher-agent'')) (\<lambda>_.
     bind_a (get_a (my_name i)) (\<lambda>old_name.
     when_a (old_name \<noteq> new_name) (update_name i new_name)))))"

definition or_default :: "string \<Rightarrow> string \<Rightarrow> string" where
  "or_default s dflt = (if s = [] then dflt else s)"

text \<open>The argument of \<open>-msgq\<close>.\<close>

definition mq_args :: "json \<Rightarrow> string \<Rightarrow> string \<Rightarrow> (exn, string) result" where
  "mq_args conf listen report =
     bind_r (q_str conf [K ''host'']) (\<lambda>host0.
     bind_r (q_int conf [K ''port'']) (\<lambda>port0.
     bind_r (q_str conf [K ''encryption'']) (\<lambda>mode.
     let host = or_default host0 ''localhost''; port = (if port0 = 0 then 1883 else port0);
         base = host @ '':'' @ to_string port @ '':'' @ listen @ '':'' @ report
     in if mode = ''psk'' then
          bind_r (q_str conf [K ''psk'']) (\<lambda>psk. bind_r (q_str conf [K ''psk_id'']) (\<lambda>psk_id.
          Inr (base @ '':1:'' @ psk @ '':'' @ psk_id)))
        else if mode = ''certificate'' then
          bind_r (q_str conf [K ''cacert'']) (\<lambda>cert. Inr (base @ '':2:'' @ cert))
        else Inr base)))"

definition set_mdtm_queue_names :: "json \<Rightarrow> ('w, unit) launcher_act" where
  "set_mdtm_queue_names conf =
     bind_a (lift_r (q_str conf [K ''queues'', K ''bde_server_queue''])) (\<lambda>srv.
     bind_a (lift_r (q_str conf [K ''queues'', K ''mdtm_listen_queue''])) (\<lambda>lst.
     bind_a (lift_r (q_str conf [K ''queues'', K ''mdtm_report_queue''])) (\<lambda>rep.
     bind_a (launcher_upd (\<lambda>l. l\<lparr>bde_server_queue := or_default srv ''bdeserver'',
       listen_queue := or_default lst (''launcher-listen-'' @ to_string (l_pid l)),
       report_queue := or_default rep (''launcher-report-'' @ to_string (l_pid l))\<rparr>)) (\<lambda>_.
     bind_a (\<lambda>s. (mq_args (mq_conf s) (listen_queue (am_mods s)) (report_queue (am_mods s)), s)) (\<lambda>arg.
     launcher_upd (\<lambda>l. l\<lparr>l_args := l_args l @ [''-msgq'', arg]\<rparr>))))))"

definition run_subprocess :: "('w, unit) launcher_act" where
  "run_subprocess = launcher_upd (\<lambda>l. if l_path l = [] then l else l\<lparr>l_supervised := True\<rparr>)"

definition launcher_init :: "nat \<Rightarrow> ('w, unit) launcher_act" where
  "launcher_init i =
     bind_a (get_a (\<lambda>s. l_conf (am_mods s))) (\<lambda>conf0.
     bind_a (lift_r (q_get conf0 [K ''subprocess''])) (\<lambda>conf.
     if jempty conf then throw_a (Runtime_error ''No subprocess configuration'')
     else
       bind_a (lift_r (q_str conf [K ''path''])) (\<lambda>path.
       bind_a (lift_r (bind_r (q_get conf [K ''args'']) string_values)) (\<lambda>args.
       bind_a (lift_r (bind_r (q_get conf [K ''env'']) (\<lambda>e. get_program_env e []))) (\<lambda>env.
       bind_a (launcher_upd (\<lambda>l. l\<lparr>l_path := path, l_args := args, l_env := env\<rparr>)) (\<lambda>_.
       bind_a (lift_r (q_str conf [K ''type''])) (\<lambda>ptype.
       if ptype = ''mdtm-ftp-client'' \<or> ptype = [] then
         bind_a (lift_r (q_bool conf [K ''ipv6''])) (\<lambda>ipv6.
         bind_a (when_a ipv6 (launcher_upd (\<lambda>l. l\<lparr>l_args := l_args l @ [''-ipv6'']\<rparr>))) (\<lambda>_.
         bind_a (set_mdtm_queue_names conf) (\<lambda>_.
         bind_a (launcher_upd (\<lambda>l. l\<lparr>l_listening := True\<rparr>)) (\<lambda>_.
         run_subprocess))))
       else run_subprocess)))))))"

section \<open>Registration\<close>

definition register_launcher :: "nat \<Rightarrow> ('w, unit) launcher_act" where
  "register_launcher i =
     bind_a (get_a (\<lambda>s. jobj
       [(''id'', JStr (my_id i s)), (''name'', JStr (my_name i s)), (''type'', JStr (ag_type (mstore s ! i))),
        (''queue_name'', JStr (ag_queue (mstore s ! i))),
        (''expire_at'', JUInt (l_now (am_mods s) (l_world (am_mods s)) + 120000)),
        (''queues'', jobj [(''bde_server_queue'', JStr (bde_server_queue (am_mods s))),
          (''mdtm_listen_queue'', JStr (listen_queue (am_mods s))), (''mdtm_report_queue'', JStr (report_queue (am_mods s)))])])) (\<lambda>val.
     bind_a (set_prop i ''launcher'' val) (\<lambda>_.
     bind_a (get_a (my_id i)) (\<lambda>me.
     launcher_upd (\<lambda>l. l\<lparr>l_store := l_store l @ [Del_one ''launcher'' me, Insert_one ''launcher'' val]\<rparr>))))"

section \<open>Commands and reports\<close>

definition forward_call :: "json \<Rightarrow> ('w, json) launcher_act" where
  "forward_call newcmd = (\<lambda>s.
     let l = am_mods s; (r, w) = l_call l (listen_queue l) newcmd (l_world l) in (r, s\<lparr>am_mods := l\<lparr>l_world := w\<rparr>\<rparr>))"

text \<open>When the call throws, the name of the command is saved, not its parameters, and the answer is null.\<close>

definition launcher_command :: "nat \<Rightarrow> string \<Rightarrow> json \<Rightarrow> ('w, json) launcher_act" where
  "launcher_command i cmd params = (\<lambda>s.
     case forward_call (jobj [(''cmd'', JStr cmd), (''params'', params)]) s of
       (Inr resp, s') \<Rightarrow> (Inr resp, s')
     | (Inl e, s') \<Rightarrow>
         if std_exn e then (Inr JNull, snd (launcher_upd (\<lambda>l. l\<lparr>l_saved := l_saved l @ [(''dup-request'', JStr cmd)]\<rparr>) s'))
         else (Inl e, s'))"

definition report_task :: "json \<Rightarrow> (exn, string) result" where
  "report_task msg =
     bind_r (q_get msg [K ''params'', K ''task'']) (\<lambda>t.
     if \<not> jempty t then opt_r Json_error (asString t)
     else
       bind_r (q_get msg [K ''body'', K ''params'', K ''task'']) (\<lambda>t2.
       if \<not> jempty t2 then opt_r Json_error (asString t2) else Inr ''unknown''))"

definition report_topic :: "string \<Rightarrow> string" where
  "report_topic task = ''ld/status/'' @ task"

text \<open>\<open>rc\<close> is what libmosquitto returns for the message; the result of \<open>mqtt_publish\<close> is not looked at.\<close>

definition handle_mdtm_report :: "int \<Rightarrow> json \<Rightarrow> ('w, unit) launcher_act" where
  "handle_mdtm_report rc msg =
     bind_a (lift_r (report_task msg)) (\<lambda>task.
     bind_a (mqtt_publish rc (report_topic task) msg 1 True) (\<lambda>_. ret_a ()))"

definition launcher_hooks :: "'w launcher hooks" where
  "launcher_hooks =
     \<lparr>do_bootstrap = launcher_bootstrap, do_init = launcher_init, do_registration = register_launcher,
      do_command = launcher_command, do_on_message = (\<lambda>i topic msg. ret_a ())\<rparr>"

end
