(* ===== verification/Storage_Agent.thy ===== *)
theory Storage_Agent
  imports Dtn_Setup
begin

text \<open>
  The storage agents, \<open>src/agent/localstorageagent.cc\<close> and \<open>src/agent/sharedstorageagent.cc\<close>: they measure the rates of
  a device with shell commands, or add up files of statistics, and answer questions for these rates. Shell, mounts,
  files and clock are those of the host.
\<close>

section \<open>State and commands of the shell\<close>

definition st_get :: "nat \<Rightarrow> ('w, 'c, storage_mod) setup_act" where
  "st_get i = (\<lambda>m. (opt_r Undefined (map_of (dm_storages m) i), m))"

definition on_entry :: "nat \<Rightarrow> ('a \<Rightarrow> 'a) \<Rightarrow> (nat \<times> 'a) list \<Rightarrow> (nat \<times> 'a) list" where
  "on_entry i f = map (\<lambda>(k, x). (k, if k = i then f x else x))"

lemma map_of_on_entry [simp]: "map_of (on_entry i f xs) j = map_option (\<lambda>x. if j = i then f x else x) (map_of xs j)"
  by (induction xs) (auto simp: on_entry_def)

definition st_upd :: "nat \<Rightarrow> (storage_mod \<Rightarrow> storage_mod) \<Rightarrow> ('w, 'c, unit) setup_act" where
  "st_upd i f = upd_a (\<lambda>m. m\<lparr>dm_storages := on_entry i f (dm_storages m)\<rparr>)"

text \<open>\<open>m_jbase[device][key] = val\<close>, and the value back. A member that is missing reads as null.\<close>

definition jbase_set :: "nat \<Rightarrow> string \<Rightarrow> string \<Rightarrow> json \<Rightarrow> ('w, 'c, unit) setup_act" where
  "jbase_set i device key val =
     bind_a (st_get i) (\<lambda>x.
     bind_a (lift_r (opt_r Json_error (jset [K device, K key] val (st_jbase x)))) (\<lambda>j.
     st_upd i (\<lambda>x. x\<lparr>st_jbase := j\<rparr>)))"

definition jbase_get :: "storage_mod \<Rightarrow> string \<Rightarrow> json" where
  "jbase_get x key = or_null (jget (st_jbase x) [K (st_device x), K key])"

text \<open>
  \<open>run_cmd\<close>: the last line of the output, in the pieces that \<open>fgets\<close> reads into a buffer of \<open>n\<close> characters, its last one for the end
  of the string. The buffer has room for 2000 characters here, for \<open>BUFSIZ\<close> in the scanner of shared storage.
\<close>

definition fgets_chunk :: "nat \<Rightarrow> string \<Rightarrow> string" where
  "fgets_chunk n s = (let p = take (n - 1) s in take (Suc (length (takeWhile (\<lambda>c. c \<noteq> CHR 0x0A) p))) p)"

lemma fgets_chunk_nonempty: "s \<noteq> [] \<Longrightarrow> \<not> n < 2 \<Longrightarrow> fgets_chunk n s \<noteq> []"
  by (cases s) (simp_all add: fgets_chunk_def Let_def)

function last_chunk :: "nat \<Rightarrow> string \<Rightarrow> string \<Rightarrow> string" where
  "last_chunk n acc s = (if s = [] \<or> n < 2 then acc else last_chunk n (fgets_chunk n s) (drop (length (fgets_chunk n s)) s))"
  by pat_completeness auto
termination
  by (relation "measure (\<lambda>(n, acc, s). length s)") (use fgets_chunk_nonempty in auto)

declare last_chunk.simps [simp del]

definition run_cmd :: "string \<Rightarrow> ('w, 'c, string) setup_act" where
  "run_cmd cmd =
     bind_a (get_a dm_host) (\<lambda>h.
     bind_a (world_upd (h_popen h cmd)) (\<lambda>out.
     ret_a (case out of None \<Rightarrow> [] | Some t \<Rightarrow> last_chunk 2000 [] t)))"

section \<open>Words of a line\<close>

text \<open>
  \<open>is_empty\<close> looks at the character before the end, drops it when it is a newline, and tells whether the rest is white
  space. For an empty string that character lies before the string: it is read, and erased when it is a newline.
\<close>

definition is_empty_s :: "char \<Rightarrow> string \<Rightarrow> (exn, bool \<times> string) result" where
  "is_empty_s edge s =
     (if s = [] then (if edge = CHR 0x0A then Inl Undefined else Inr (True, []))
      else let t = (if last s = CHR 0x0A then butlast s else s) in Inr (list_all is_space t, t))"

function cut_at :: "char \<Rightarrow> string \<Rightarrow> string list" where
  "cut_at d s =
     takeWhile (\<lambda>c. c \<noteq> d) s #
     (if d \<in> set s then cut_at d (drop (Suc (length (takeWhile (\<lambda>c. c \<noteq> d) s))) s) else [])"
  by pat_completeness auto
termination
  by (relation "measure (\<lambda>(d, s). length s)") (auto intro!: diff_less dest: length_pos_if_in_set)

declare cut_at.simps [simp del]

definition st_split_string :: "char \<Rightarrow> string \<Rightarrow> char \<Rightarrow> (exn, string list) result" where
  "st_split_string edge str delimiter =
     bind_r (map_r (is_empty_s edge) (cut_at delimiter str)) (\<lambda>rs. Inr (map snd (filter (\<lambda>(empty, t). \<not> empty) rs)))"

definition words_a :: "string \<Rightarrow> ('w, 'c, string list) setup_act" where
  "words_a line = (\<lambda>m. (st_split_string (h_edge (dm_host m)) line (CHR '' ''), m))"

definition size_unit :: "char \<Rightarrow> double option" where
  "size_unit c =
     (if c = CHR ''T'' then Some 1000000 else if c = CHR ''G'' then Some 1000 else if c = CHR ''M'' then Some 1
      else if c = CHR ''K'' then Some (1 / 1000) else if c = CHR ''%'' then Some 1 else None)"

definition parse_size_local :: "string \<Rightarrow> (exn, double) result" where
  "parse_size_local s =
     (if s = [] then Inl Undefined
      else
        let c = (case size_unit (last s) of Some u \<Rightarrow> u | None \<Rightarrow> 0); t = butlast s
        in Inr (if t = [] then c else case stod t of Inr x \<Rightarrow> c * x | Inl _ \<Rightarrow> c))"

text \<open>In the shared agent the factor of an unknown unit has no value, and what \<open>stof\<close> throws is not caught.\<close>

definition parse_size_shared :: "string \<Rightarrow> (exn, double) result" where
  "parse_size_shared s =
     (if s = [] then Inl Undefined
      else bind_r (stod (butlast s)) (\<lambda>x. case size_unit (last s) of Some u \<Rightarrow> Inr (u * x) | None \<Rightarrow> Inl Undefined))"

definition get_usage :: "string \<Rightarrow> (string \<Rightarrow> (exn, double) result) \<Rightarrow> nat \<Rightarrow> string \<Rightarrow> ('w, 'c, int) setup_act" where
  "get_usage cmd parse_size i device =
     bind_a (run_cmd cmd) (\<lambda>ret.
     if ret = [] then ret_a (- 1)
     else
       bind_a (words_a ret) (\<lambda>result.
       if length result < 6 then throw_a Undefined
       else
         bind_a (lift_r (map_r parse_size (take 4 (drop 1 result)))) (\<lambda>sizes.
         bind_a (seq_a (map (\<lambda>(k, x). jbase_set i device k (JReal x)) (zip [''size'', ''used'', ''available'', ''percent''] sizes))) (\<lambda>_.
         bind_a (jbase_set i device ''mount'' (JStr (result ! 5))) (\<lambda>_.
         ret_a 0)))))"

section \<open>The local storage agent\<close>

definition rate_command :: "string \<Rightarrow> string \<Rightarrow> string" where
  "rate_command fstype device =
     (if str_find fstype ''nfs'' 0 \<noteq> None
      then ''nfsiostat |grep -A3 read|grep -v read|grep -v write|awk '{print $2}'|awk '{ORS=(NR%2?FS:RS)}1'' @ [CHR 0x27]
      else ''iostat '' @ device @ '' | grep -A1 Device | grep -v Device |awk {'print $3, $4'}'')"

text \<open>When a number does not parse, its variable has no value, but is stored.\<close>

definition two_rates :: "string list \<Rightarrow> (exn, double \<times> double) result" where
  "two_rates result =
     (case (stod (result ! 0), if length result < 2 then Inl Undefined else stod (result ! 1)) of
        (Inr r, Inr w) \<Rightarrow> Inr (r / 1000, w / 1000)
      | _ \<Rightarrow> Inl Undefined)"

definition root_mounts :: "string \<Rightarrow> ('w, 'c, mount_node list) setup_act" where
  "root_mounts path = (\<lambda>m.
     let h = fs_host_of (d_machine (dm_dtn m)) (d_world (dm_dtn m)) in (mounts_of (fs_mount h) (is_root_path h) False path, m))"

definition get_realtime_bandwidth :: "nat \<Rightarrow> string \<Rightarrow> ('w, 'c, int) setup_act" where
  "get_realtime_bandwidth i device =
     bind_a (\<lambda>m. (st_split_string (h_edge (dm_host m)) device (CHR ''/''), m)) (\<lambda>raw_dev.
     bind_a (st_get i) (\<lambda>x.
     bind_a (case st_roots x of [] \<Rightarrow> throw_a Undefined | p # ps \<Rightarrow> root_mounts p) (\<lambda>ms.
     bind_a (run_cmd (rate_command (mount_type (hd ms)) device)) (\<lambda>ret.
     if ret = [] then ret_a (- 1)
     else
       bind_a (words_a ret) (\<lambda>result.
       if result = [] then ret_a (- 1)
       else
         bind_a (lift_r (two_rates result)) (\<lambda>(readbw, writebw).
         bind_a (jbase_set i device ''realtime_read_bandwidth'' (JReal readbw)) (\<lambda>_.
         bind_a (jbase_set i device ''realtime_write_bandwidth'' (JReal writebw)) (\<lambda>_.
         ret_a 0))))))))"

text \<open>
  The benchmark: eight rounds, in round \<open>k\<close> with \<open>k + 1\<close> processes. The names of files not yet used are empty. The best read
  rate is compared with the best write rate.
\<close>

definition test_file :: "string \<Rightarrow> nat \<Rightarrow> string" where
  "test_file dir k = dir @ ''/testiozone'' @ to_string (int k)"

definition file_args :: "string \<Rightarrow> nat \<Rightarrow> string" where
  "file_args dir k = concat (map (\<lambda>j. (if j \<le> k then test_file dir j else []) @ '' '') [0..<8])"

definition iozone_command :: "string \<Rightarrow> string \<Rightarrow> string \<Rightarrow> nat \<Rightarrow> string" where
  "iozone_command exe test dir k =
     exe @ test @ '' -w -I -r 4M -s 128M -t '' @ to_string (int k + 1) @ '' -F '' @ file_args dir k @ '' 2>&1 | grep 'Children see throughput for'' @ [CHR 0x27]"

definition throughput :: "string list \<Rightarrow> double option" where
  "throughput result = (case stod (result ! 7) of Inr x \<Rightarrow> Some (x / 1000) | Inl _ \<Rightarrow> None)"

definition better :: "double option \<Rightarrow> double \<Rightarrow> double \<Rightarrow> double" where
  "better bw best old = (case bw of Some x \<Rightarrow> if best < x then x else old | None \<Rightarrow> old)"

fun iozone_rounds :: "string \<Rightarrow> string \<Rightarrow> nat list \<Rightarrow> double \<Rightarrow> double \<Rightarrow> ('w, 'c, (double \<times> double) option) setup_act" where
  "iozone_rounds exe dir [] writebw readbw = ret_a (Some (writebw, readbw))"
| "iozone_rounds exe dir (k # ks) writebw readbw =
     bind_a (run_cmd (iozone_command exe '' -i0'' dir k)) (\<lambda>ret.
     bind_a (words_a ret) (\<lambda>result.
     if length result < 8 then ret_a None
     else
       let writebw' = better (throughput result) writebw writebw
       in bind_a (run_cmd (iozone_command exe '' -i1'' dir k)) (\<lambda>ret2.
          bind_a (words_a ret2) (\<lambda>result2.
          if length result2 < 8 then ret_a None
          else iozone_rounds exe dir ks writebw' (better (throughput result2) writebw' readbw)))))"

definition get_potential_bandwidth :: "nat \<Rightarrow> string \<Rightarrow> string \<Rightarrow> ('w, 'c, int) setup_act" where
  "get_potential_bandwidth i device dir =
     bind_a (st_get i) (\<lambda>x.
     bind_a (run_cmd (''mkdir -p '' @ dir)) (\<lambda>_.
     bind_a (iozone_rounds (st_exe x) dir [0..<8] 0 0) (\<lambda>best.
     case best of
       None \<Rightarrow> ret_a (- 1)
     | Some (writebw, readbw) \<Rightarrow>
         bind_a (jbase_set i device ''potential_write_bandwidth'' (JReal writebw)) (\<lambda>_.
         bind_a (jbase_set i device ''potential_read_bandwidth'' (JReal readbw)) (\<lambda>_.
         bind_a (run_cmd (''rm -f '' @ file_args dir 7)) (\<lambda>_.
         ret_a 0))))))"

text \<open>One round of the thread of a local agent.\<close>

definition iozone_round :: "nat \<Rightarrow> ('w, 'c, unit) setup_act" where
  "iozone_round i =
     bind_a (st_get i) (\<lambda>x.
     if st_thread x then bind_a (get_potential_bandwidth i (st_device x) (st_test_dir x)) (\<lambda>_. ret_a ()) else ret_a ())"

text \<open>The device when the configuration names none: that of all root folders.\<close>

definition common_device :: "string list \<Rightarrow> ('w, 'c, string) setup_act" where
  "common_device dirs =
     (if dirs = [] then throw_a Invalid_argument
      else (\<lambda>m. (case map_r (\<lambda>d. fst (root_mounts d m)) dirs of
          Inl e \<Rightarrow> Inl e
        | Inr mss \<Rightarrow>
            let devs = map (\<lambda>ms. mount_source (hd ms)) mss
            in if list_all (\<lambda>d. d = hd devs) devs then Inr (hd devs) else Inl Invalid_argument, m)))"

definition settle_device :: "nat \<Rightarrow> ('w, 'c, unit) setup_act" where
  "settle_device i =
     bind_a (st_get i) (\<lambda>x.
     if st_device x \<noteq> [] then ret_a ()
     else bind_a (common_device (st_roots x)) (\<lambda>d. st_upd i (\<lambda>x. x\<lparr>st_device := d\<rparr>)))"

definition local_init :: "nat \<Rightarrow> ('w, 'c, unit) setup_act" where
  "local_init i =
     bind_a (st_get i) (\<lambda>x0.
     bind_a (lift_r (q_str (st_conf x0) [K ''iozone-executable''])) (\<lambda>exe.
     bind_a (lift_r (q_str (st_conf x0) [K ''iozone-work-folder''])) (\<lambda>dir.
     bind_a (st_upd i (\<lambda>x. x\<lparr>st_exe := exe, st_test_dir := dir\<rparr>)) (\<lambda>_.
     if dir = [] \<or> exe = [] then st_upd i (\<lambda>x. x\<lparr>st_active := False\<rparr>)
     else
       bind_a (lift_r (q_str (st_conf x0) [K ''device''])) (\<lambda>dev.
       bind_a (lift_r (bind_r (q_get (st_conf x0) [K ''root-folders'']) (\<lambda>fs. map_r (\<lambda>f. opt_r Json_error (asString f)) (elems fs)))) (\<lambda>roots.
       bind_a (st_upd i (\<lambda>x. x\<lparr>st_device := dev, st_roots := st_roots x @ roots\<rparr>)) (\<lambda>_.
       bind_a (settle_device i) (\<lambda>_.
       bind_a (st_get i) (\<lambda>x.
       bind_a (get_realtime_bandwidth i (st_device x)) (\<lambda>code.
       if code < 0 then ret_a ()
       else
         bind_a (get_usage (''df -h '' @ st_device x) parse_size_local i (st_device x)) (\<lambda>_.
         st_upd i (\<lambda>x. x\<lparr>st_thread := True\<rparr>))))))))))))"

definition folders_value :: "storage_mod \<Rightarrow> json" where
  "folders_value x = or_null (jget (st_conf x) [K ''root-folders''])"

definition local_document :: "agent \<Rightarrow> int \<Rightarrow> storage_mod \<Rightarrow> json" where
  "local_document a now x = jobj
     [(''id'', JStr (ag_id a)), (''name'', JStr (ag_name a)), (''type'', JStr (ag_type a)), (''queue_name'', JStr (ag_queue a)),
      (''expired_at'', JUInt now), (''device'', JStr (st_device x)), (''root_folders'', folders_value x),
      (''io_capacity_write'', jbase_get x ''potential_write_bandwidth''), (''io_capacity_read'', jbase_get x ''potential_read_bandwidth'')]"

definition reg_local_storage :: "json \<Rightarrow> ('w, 'c, unit) setup_act" where
  "reg_local_storage v = bind_a (lift_r (q_str v [K ''id''])) (\<lambda>k. store_a [Del_one ''storage'' k, Insert_one ''storage'' v])"

definition local_registration :: "nat \<Rightarrow> (('w, 'c) dtn_module, unit) am_act" where
  "local_registration i =
     bind_a (mods_a (st_get i)) (\<lambda>x.
     bind_a (get_a (\<lambda>s. local_document (mstore s ! i) (ask_host h_uptime (am_mods s)) x)) (\<lambda>v.
     bind_a (mods_a (reg_local_storage v)) (\<lambda>_.
     bind_a (set_prop i ''device'' (JStr (st_device x))) (\<lambda>_.
     bind_a (set_prop i ''root_folders'' (folders_value x)) (\<lambda>_.
     bind_a (set_prop i ''io_capacity_write'' (jbase_get x ''potential_write_bandwidth'')) (\<lambda>_.
     set_prop i ''io_capacity_read'' (jbase_get x ''potential_read_bandwidth'')))))))"

definition local_command :: "nat \<Rightarrow> string \<Rightarrow> ('w, 'c, json) setup_act" where
  "local_command i cmd =
     bind_a (st_get i) (\<lambda>x.
     if \<not> st_active x then
       ret_a (jobj ([(''code'', JInt (- 100))] @
         (if cmd = ''ls_get_rate'' \<or> cmd = ''ls_estimate_total_rate'' then [(''message'', JStr ''Local Storage Agent is inactive'')] else [])))
     else if cmd = ''ls_get_rate'' then
       bind_a (get_realtime_bandwidth i (st_device x)) (\<lambda>code.
       bind_a (st_get i) (\<lambda>y.
       ret_a (jobj [(''code'', JInt code), (''rate_read'', jbase_get y ''realtime_read_bandwidth''), (''rate_write'', jbase_get y ''realtime_write_bandwidth'')])))
     else if cmd = ''ls_estimate_total_rate'' then
       ret_a (jobj [(''code'', JInt 0), (''total_rate_read'', jbase_get x ''potential_read_bandwidth''), (''total_rate_write'', jbase_get x ''potential_write_bandwidth'')])
     else ret_a (jobj [(''code'', JInt (- 100))]))"

text \<open>Reports to the time series. The device name is read from its sixth character on.\<close>

definition report_disk_io_stats :: "nat \<Rightarrow> (('w, 'c) dtn_module, unit) am_act" where
  "report_disk_io_stats i =
     bind_a (mods_a (get_a dm_io_errored)) (\<lambda>errored.
     if errored then ret_a ()
     else
       bind_a (mods_a (st_get i)) (\<lambda>x.
       if length (st_device x) < 5 then throw_a Undefined
       else
         bind_a (get_a (\<lambda>s. (ask_host h_blockstat (am_mods s) (''/sys/block/'' @ drop 5 (st_device x) @ ''/stat''), my_name i s, my_id i s))) (\<lambda>(r, name, me).
         case r of
           None \<Rightarrow> mods_a (upd_a (\<lambda>m. m\<lparr>dm_io_errored := True\<rparr>))
         | Some ns \<Rightarrow>
             if length ns < 5 then throw_a Undefined
             else mods_a (series_a (''disk_io'', [(''read_ios'', of_int (ns ! 0)), (''write_ios'', of_int (ns ! 4))],
               [(''name'', name), (''id'', me), (''device'', st_device x)])))))"

definition usage_point :: "string \<Rightarrow> string \<Rightarrow> string \<Rightarrow> vfs_stat \<Rightarrow> ts_point" where
  "usage_point name me folder st =
     (''disk_usage'',
      [(''block-size'', of_int (uint (f_bsize st))), (''total-blocks'', of_int (uint (f_blocks st))),
       (''available-blocks'', of_int (uint (f_bavail st))), (''total-inodes'', of_int (uint (f_files st))),
       (''available-inodes'', of_int (uint (f_favail st)))],
      [(''name'', name), (''id'', me), (''folder'', folder)])"

definition report_disk_usage_stats :: "nat \<Rightarrow> (('w, 'c) dtn_module, unit) am_act" where
  "report_disk_usage_stats i =
     bind_a (mods_a (st_get i)) (\<lambda>x.
     foreach_a (\<lambda>folder s.
       case m_statvfs (d_machine (dm_dtn (am_mods s))) (d_world (dm_dtn (am_mods s))) folder of
         Inl _ \<Rightarrow> (Inr (), s)
       | Inr st \<Rightarrow> mods_a (series_a (usage_point (my_name i s) (my_id i s) folder st)) s) (st_roots x))"

section \<open>The shared storage agent\<close>

definition shared_work_folder :: "string \<Rightarrow> ('w, 'c, string) setup_act" where
  "shared_work_folder path =
     mkdtemp_a (path @ ''/bde-iozone-work-XXXXXX'') (''Can't create a work folder for iozone at path '' @ path)"

definition shared_exe :: "json \<Rightarrow> bool \<Rightarrow> (exn, string) result" where
  "shared_exe conf folders =
     bind_r (q_str conf [K ''iozone-executable'']) (\<lambda>exe.
     if exe \<noteq> [] \<or> \<not> folders then Inr exe
     else
       bind_r (q_str conf [K ''local_storage_agent'', K ''iozone-executable'']) (\<lambda>exe1.
       if exe1 \<noteq> [] then Inr exe1
       else
         bind_r (q_str conf [K ''shared_storage_agent'', K ''iozone-executable'']) (\<lambda>exe2.
         if exe2 \<noteq> [] then Inr exe2 else Inl (Runtime_error ''No iozone-executable configuration found''))))"

text \<open>The first data folder is taken, also when there is none.\<close>

definition shared_check_configuration :: "nat \<Rightarrow> ('w, 'c, unit) setup_act" where
  "shared_check_configuration i =
     bind_a (st_get i) (\<lambda>x0.
     let conf = st_conf x0
     in if jempty conf then throw_a (Runtime_error ''Empty Shared Storage Agent configuration.'')
        else
          bind_a (lift_r (bind_r (q_get conf [K ''data_folders'', K ''path'']) string_values)) (\<lambda>dfs.
          bind_a (lift_r (q_get conf [K ''data_folders'', K ''OSTs''])) (\<lambda>_.
          bind_a (st_upd i (\<lambda>x. x\<lparr>st_folders := st_folders x @ dfs\<rparr>)) (\<lambda>_.
          bind_a (st_get i) (\<lambda>x.
          bind_a (lift_r (shared_exe conf (st_folders x \<noteq> []))) (\<lambda>exe.
          bind_a (st_upd i (\<lambda>x. x\<lparr>st_exe := exe\<rparr>)) (\<lambda>_.
          case st_folders x of
            [] \<Rightarrow> throw_a Undefined
          | p # ps \<Rightarrow> bind_a (shared_work_folder p) (\<lambda>dir. st_upd i (\<lambda>x. x\<lparr>st_test_dir := dir\<rparr>)))))))))"

text \<open>The sums of the rates in the files \<open>stat-\<close> of the folder \<open>.ssa\<close>; a folder that cannot be opened is read all the same.\<close>

definition scan_stats :: "nat \<Rightarrow> ('w, 'c, double \<times> double) setup_act" where
  "scan_stats i =
     bind_a (st_get i) (\<lambda>x.
     case st_folders x of
       [] \<Rightarrow> throw_a Undefined
     | p # ps \<Rightarrow>
         bind_a (get_a (\<lambda>m. ask_host h_stat_files m (p @ ''/.ssa/''))) (\<lambda>r.
         case r of
           None \<Rightarrow> throw_a Undefined
         | Some rates \<Rightarrow> ret_a (sum_list (map fst rates), sum_list (map snd rates))))"

text \<open>Both kinds of rates go to the time series under the names of the potential rates.\<close>

definition shared_rates :: "string \<Rightarrow> nat \<Rightarrow> string \<Rightarrow> (('w, 'c) dtn_module, int) am_act" where
  "shared_rates kind i device =
     bind_a (mods_a (scan_stats i)) (\<lambda>(w, r).
     bind_a (mods_a (jbase_set i device (kind @ ''_read_bandwidth'') (JReal r))) (\<lambda>_.
     bind_a (mods_a (jbase_set i device (kind @ ''_write_bandwidth'') (JReal w))) (\<lambda>_.
     bind_a (\<lambda>s. mods_a (series_a (''ssa'', [(''potential_read_bandwidth'', r), (''potential_write_bandwidth'', w)],
       [(''name'', my_name i s), (''id'', my_id i s)])) s) (\<lambda>_.
     ret_a 0))))"

definition shared_document :: "agent \<Rightarrow> int \<Rightarrow> storage_mod \<Rightarrow> json" where
  "shared_document a now x = jobj
     [(''id'', JStr (ag_id a)), (''name'', JStr (ag_name a)), (''type'', JStr (ag_type a)), (''device'', JStr (st_device x)),
      (''root_folders'', folders_value x), (''expired_at'', JUInt now), (''queue_name'', JStr (ag_queue a))]"

definition shared_registration :: "nat \<Rightarrow> (('w, 'c) dtn_module, unit) am_act" where
  "shared_registration i =
     bind_a (mods_a (st_get i)) (\<lambda>x.
     bind_a (get_a (\<lambda>s. shared_document (mstore s ! i) (ask_host h_uptime (am_mods s)) x)) (\<lambda>v.
     bind_a (set_prop i ''sharedstorageagent'' v) (\<lambda>_.
     mods_a (reg_local_storage v))))"

definition shared_init :: "nat \<Rightarrow> (('w, 'c) dtn_module, unit) am_act" where
  "shared_init i =
     bind_a (mods_a (st_get i)) (\<lambda>x0.
     if st_test_dir x0 = [] \<or> st_exe x0 = [] then mods_a (st_upd i (\<lambda>x. x\<lparr>st_active := False\<rparr>))
     else
       bind_a (lift_r (q_str (st_conf x0) [K ''device''])) (\<lambda>dev.
       bind_a (mods_a (st_upd i (\<lambda>x. x\<lparr>st_device := dev, st_roots := st_roots x @ st_folders x\<rparr>))) (\<lambda>_.
       bind_a (mods_a (settle_device i)) (\<lambda>_.
       bind_a (mods_a (st_get i)) (\<lambda>x.
       bind_a (shared_rates ''potential'' i (st_device x)) (\<lambda>_.
       bind_a (shared_rates ''realtime'' i (st_device x)) (\<lambda>_.
       bind_a (mods_a (get_usage (''df -h | grep '' @ st_device x) parse_size_shared i (st_device x))) (\<lambda>_.
       bind_a (shared_registration i) (\<lambda>_.
       mods_a (st_upd i (\<lambda>x. x\<lparr>st_thread := True\<rparr>)))))))))))"

text \<open>An agent that is not active answers with a string made from a null pointer.\<close>

definition shared_command :: "nat \<Rightarrow> string \<Rightarrow> (('w, 'c) dtn_module, json) am_act" where
  "shared_command i cmd =
     bind_a (mods_a (st_get i)) (\<lambda>x.
     if \<not> st_active x then throw_a Undefined
     else if cmd = ''ls_get_rate'' then
       bind_a (shared_rates ''realtime'' i (st_device x)) (\<lambda>code.
       bind_a (mods_a (st_get i)) (\<lambda>y.
       ret_a (jobj [(''code'', JInt code), (''rate_read'', jbase_get y ''realtime_read_bandwidth''), (''rate_write'', jbase_get y ''realtime_write_bandwidth'')])))
     else if cmd = ''ls_estimate_total_rate'' then
       ret_a (jobj [(''code'', JInt 0), (''total_rate_read'', jbase_get x ''potential_read_bandwidth''), (''total_rate_write'', jbase_get x ''potential_write_bandwidth'')])
     else ret_a (jobj [(''code'', JInt (- 100))]))"

section \<open>The modules\<close>

definition by_kind :: "(nat \<Rightarrow> ('x, 'a) am_act) \<Rightarrow> (nat \<Rightarrow> ('x, 'a) am_act) \<Rightarrow> nat \<Rightarrow> ('x, 'a) am_act" where
  "by_kind f g i = (\<lambda>s. (if ag_type (mstore s ! i) = ''SharedStorage'' then f i else g i) s)"

definition storage_hooks :: "('w, 'c) dtn_module hooks" where
  "storage_hooks =
     \<lparr>do_bootstrap = by_kind (\<lambda>i. mods_a (shared_check_configuration i)) (\<lambda>i. ret_a ()),
      do_init = by_kind shared_init (\<lambda>i. mods_a (local_init i)),
      do_registration = by_kind shared_registration local_registration,
      do_command = (\<lambda>i cmd params. by_kind (\<lambda>i. shared_command i cmd) (\<lambda>i. mods_a (local_command i cmd)) i),
      do_on_message = (\<lambda>i topic msg. ret_a ())\<rparr>"

end
