(* ===== verification/Agent_Frame.thy ===== *)
theory Agent_Frame
  imports Launcher_Agent Storage_Agent
begin

text \<open>
  What modules of an agent process may do to the manager: the interface between the manager and the virtual
  functions of its modules, and its interpretation on the modules of the development.
\<close>

section \<open>Actions that move along an order\<close>

locale action_order =
  fixes R :: "'s \<Rightarrow> 's \<Rightarrow> bool"
  assumes R_refl: "R s s"
    and R_trans: "R s t \<Longrightarrow> R t u \<Longrightarrow> R s u"
begin

definition moves :: "('s, 'e, 'a) act \<Rightarrow> bool" where
  "moves m \<longleftrightarrow> (\<forall>s. R s (snd (m s)))"

lemma movesD: "moves m \<Longrightarrow> R s (snd (m s))"
  by (simp add: moves_def)

lemma moves_pure [frame_intros]: "moves (ret_a a)" "moves (throw_a e)" "moves (get_a g)" "moves (lift_r r)" "moves (\<lambda>s. (f s, s))"
  by (simp_all add: moves_def R_refl)

lemma moves_upd [frame_intros]: "(\<And>s. R s (f s)) \<Longrightarrow> moves (upd_a f)"
  by (simp add: moves_def)

lemma moves_bind [frame_intros]:
  assumes "moves m" and "\<And>a. moves (f a)"
  shows "moves (bind_a m f)"
proof (unfold moves_def, intro allI)
  fix s
  obtain r u where m: "m s = (r, u)" by (cases "m s")
  show "R s (snd (bind_a m f s))"
    using movesD [OF assms(1), of s] m movesD [OF assms(2)] by (cases r) (auto intro: R_trans)
qed

lemma moves_foreach [frame_intros]: "(\<And>x. moves (f x)) \<Longrightarrow> moves (foreach_a f xs)"
  by (induction xs) (auto intro!: moves_bind moves_pure)

lemma moves_seq [frame_intros]: "(\<And>m. m \<in> set ms \<Longrightarrow> moves m) \<Longrightarrow> moves (seq_a ms)"
  by (induction ms) (auto intro!: moves_bind moves_pure)

lemma moves_cases [frame_intros]:
  "(b \<Longrightarrow> moves m) \<Longrightarrow> (\<not> b \<Longrightarrow> moves n) \<Longrightarrow> moves (if b then m else n)"
  "(b \<Longrightarrow> moves m') \<Longrightarrow> moves (when_a b m')"
  "(\<And>x y. moves (g x y)) \<Longrightarrow> moves (case q of (x, y) \<Rightarrow> g x y)"
  "moves k \<Longrightarrow> (\<And>x. moves (l x)) \<Longrightarrow> moves (case v of None \<Rightarrow> k | Some x \<Rightarrow> l x)"
  by (auto simp: moves_pure when_a_def split: prod.splits option.splits)

lemma moves_state: "(\<And>s. moves (g s)) \<Longrightarrow> moves (\<lambda>s. g s s)"
  by (simp add: moves_def)

lemma moves_let [frame_intros]: "(\<And>x. moves (g x)) \<Longrightarrow> moves (Let v g)"
  by (simp add: Let_def)

end

context action_order
begin

lemma moves_catch_s [frame_intros]: "moves m \<Longrightarrow> moves (catch_s m h)"
  unfolding moves_def catch_s_def by (metis (no_types, lifting) case_prod_conv prod.collapse snd_conv)

end

section \<open>The interface of modules\<close>

text \<open>
  Modules are added but never removed; what they do at a stage leaves the stages and queues of all modules and
  the registration objects of the manager alone.
\<close>

definition module_frame :: "'x am \<Rightarrow> 'x am \<Rightarrow> bool" where
  "module_frame s t \<longleftrightarrow>
     length (mstore s) \<le> length (mstore t) \<and>
     (\<forall>k < length (mstore s). ag_stage (mstore t ! k) = ag_stage (mstore s ! k) \<and> ag_type (mstore t ! k) = ag_type (mstore s ! k)) \<and>
     reg_val t = reg_val s \<and> de_reg_val t = de_reg_val s \<and> am_cid t = am_cid s \<and> am_queue t = am_queue s"

interpretation mf: action_order "module_frame"
  by unfold_locales (auto simp: module_frame_def)

locale module_hooks =
  fixes h :: "'x hooks"
  assumes bootstrap_frame: "mf.moves (do_bootstrap h i)"
    and init_frame: "mf.moves (do_init h i)"
    and registration_frame: "mf.moves (do_registration h i)"

text \<open>The virtual functions of \<open>Agent\<close> itself do nothing.\<close>

definition base_hooks :: "'x hooks" where
  "base_hooks =
     \<lparr>do_bootstrap = (\<lambda>i. ret_a ()), do_init = (\<lambda>i. ret_a ()), do_registration = (\<lambda>i. ret_a ()),
      do_command = (\<lambda>i cmd params. ret_a JNull), do_on_message = (\<lambda>i topic msg. ret_a ())\<rparr>"

interpretation base: module_hooks base_hooks
  by unfold_locales (simp_all add: base_hooks_def mf.moves_pure)

section \<open>What modules call\<close>

lemma frame_on_module:
  "(\<And>a. ag_stage (f a) = ag_stage a \<and> ag_type (f a) = ag_type a) \<Longrightarrow> module_frame s (on_module i f s)"
  by (auto simp: module_frame_def on_module_def) (metis nth_list_update_eq nth_list_update_neq)+

lemma moves_set_prop [frame_intros]: "mf.moves (set_prop_at i k v)" "mf.moves (set_prop i k v)"
  unfolding set_prop_def set_prop_at_def by (intro frame_intros frame_on_module conjI; simp)+

lemma moves_update [frame_intros]: "mf.moves (update_id i new)" "mf.moves (update_name i new)"
  unfolding update_id_def update_name_def by (intro frame_intros frame_on_module conjI; simp)+

lemma moves_add [frame_intros]: "mf.moves (am_add a)"
  unfolding am_add_def by (intro frame_intros) (auto simp: module_frame_def nth_append)

lemma moves_mods [frame_intros]: "mf.moves (mods_a f)" "mf.moves (launcher_upd g)"
  by (auto simp: mf.moves_def mods_a_def launcher_upd_def module_frame_def split: prod.splits)

section \<open>The modules of the development\<close>

lemma moves_add_storage [frame_intros]: "mf.moves (add_storage sid sname stype device paths)"
  unfolding add_storage_def by (intro frame_intros)

lemma moves_bootstrap: "mf.moves (dtn_bootstrap i)"
  unfolding dtn_bootstrap_def init_storage_agents_def init_storage_agent_def
  by (intro frame_intros) (rule mf.moves_state, intro frame_intros)+

lemma moves_dtn_registration: "mf.moves (dtn_registration i)"
proof -
  have "mf.moves (register_dtn i)" "mf.moves (register_all_sdmaps i)"
    unfolding register_dtn_def register_all_sdmaps_def by (intro frame_intros) (rule mf.moves_state, intro frame_intros)+
  moreover have "mf.moves (set_dtn_properties i)"
    unfolding set_dtn_properties_def by (intro frame_intros) (rule mf.moves_state, intro frame_intros)+
  ultimately show ?thesis unfolding dtn_registration_def by (intro frame_intros) auto
qed

lemma moves_by_kind: "mf.moves (f i) \<Longrightarrow> mf.moves (g i) \<Longrightarrow> mf.moves (by_kind f g i)"
  unfolding by_kind_def by (rule mf.moves_state) (intro frame_intros)

lemma moves_storage:
  "mf.moves (shared_registration i)" "mf.moves (shared_rates kind i d)" "mf.moves (local_registration i)" "mf.moves (shared_init i)"
proof -
  show reg: "mf.moves (shared_registration i)" for i :: nat and d :: string
    unfolding shared_registration_def by (intro frame_intros)
  show rates: "mf.moves (shared_rates kind i d)" for kind i d
    unfolding shared_rates_def by (intro frame_intros) (rule mf.moves_state, intro frame_intros)
  show "mf.moves (local_registration i)"
    unfolding local_registration_def by (intro frame_intros)
  show "mf.moves (shared_init i)"
    unfolding shared_init_def by (intro frame_intros reg rates)
qed

interpretation storage: module_hooks storage_hooks
  by unfold_locales (auto simp: storage_hooks_def intro!: moves_by_kind moves_storage moves_mods mf.moves_pure)

text \<open>
  A process with a data transfer node: the other modules, which are storage agents, do what \<open>others\<close> says.
\<close>

definition by_type :: "(nat \<Rightarrow> ('x, 'a) am_act) \<Rightarrow> (nat \<Rightarrow> ('x, 'a) am_act) \<Rightarrow> nat \<Rightarrow> ('x, 'a) am_act" where
  "by_type f g i = (\<lambda>s. (if ag_type (mstore s ! i) = ''DTN'' then f i else g i) s)"

definition dtn_hooks :: "('w, 'c) dtn_module hooks \<Rightarrow> ('w, 'c) dtn_module hooks" where
  "dtn_hooks others =
     \<lparr>do_bootstrap = by_type dtn_bootstrap (do_bootstrap others), do_init = by_type dtn_init (do_init others),
      do_registration = by_type dtn_registration (do_registration others),
      do_command = (\<lambda>i cmd params. by_type (\<lambda>_. mods_a (dtn_part (dtn_do_command cmd params))) (\<lambda>i. do_command others i cmd params) i),
      do_on_message = do_on_message others\<rparr>"

lemma moves_by_type: "mf.moves (f i) \<Longrightarrow> mf.moves (g i) \<Longrightarrow> mf.moves (by_type f g i)"
  unfolding by_type_def by (rule mf.moves_state) (intro frame_intros)

lemma moves_dtn_init: "mf.moves (dtn_init i)"
  unfolding dtn_init_def by (intro frame_intros)

lemma dtn_module_hooks: "module_hooks others \<Longrightarrow> module_hooks (dtn_hooks others)"
  unfolding module_hooks_def dtn_hooks_def
  by (simp add: moves_by_type moves_bootstrap moves_dtn_init moves_dtn_registration)

interpretation dtn: module_hooks "dtn_hooks storage_hooks"
  by (rule dtn_module_hooks) (rule storage.module_hooks_axioms)

lemma moves_launcher: "mf.moves (launcher_bootstrap i)" "mf.moves (launcher_init i)" "mf.moves (register_launcher i)"
  unfolding launcher_bootstrap_def launcher_init_def register_launcher_def set_mdtm_queue_names_def run_subprocess_def
  by (intro frame_intros; simp)+

interpretation launcher: module_hooks launcher_hooks
  by unfold_locales (simp_all add: launcher_hooks_def moves_launcher)

section \<open>Loops over the modules\<close>

lemma bind_a_Inr_iff: "bind_a m f s = (Inr b, t) \<longleftrightarrow> (\<exists>a u. m s = (Inr a, u) \<and> f a u = (Inr b, t))"
  by (auto simp: bind_a_def split: prod.splits sum.splits)

lemma foreach_upto:
  assumes "foreach_a f [j..<n] s = (Inr (), t)" and "P j s" and "j \<le> n"
    and "\<And>i u v. i < n \<Longrightarrow> P i u \<Longrightarrow> f i u = (Inr (), v) \<Longrightarrow> P (Suc i) v"
  shows "P n t"
  using assms(1-3)
proof (induction "n - j" arbitrary: j s)
  case (Suc d)
  then have "[j..<n] = j # [Suc j..<n]" by (simp add: upt_conv_Cons)
  with Suc.prems(1) obtain u where u: "f j s = (Inr (), u)" "foreach_a f [Suc j..<n] u = (Inr (), t)"
    by (auto simp: bind_a_Inr_iff)
  moreover have "j < n" using Suc.hyps(2) by simp
  moreover have "P (Suc j) u" using assms(4) Suc.prems(2) u(1) \<open>j < n\<close> by blast
  ultimately show ?case using Suc.hyps by (intro Suc.hyps(1) [of "Suc j" u]) auto
qed simp

lemma each_module_upto:
  assumes "each_module f s = (Inr (), t)" and "P 0 s"
    and "\<And>i u v. i < length (mstore s) \<Longrightarrow> P i u \<Longrightarrow> f i u = (Inr (), v) \<Longrightarrow> P (Suc i) v"
  shows "P (length (mstore s)) t"
proof -
  let ?g = "\<lambda>i. bind_a (f i) (\<lambda>_. bind_a (get_a am_cap) (\<lambda>cap'. if cap' = am_cap s then ret_a () else throw_a Undefined))"
  have run: "foreach_a ?g [0..<length (mstore s)] s = (Inr (), t)"
    using assms(1) by (simp add: each_module_def bind_a_run)
  have step: "P (Suc i) v" if "i < length (mstore s)" "P i u" "?g i u = (Inr (), v)" for i u v
  proof -
    note r = that
    obtain w where w: "f i u = (Inr (), w)" "bind_a (get_a am_cap) (\<lambda>cap'. if cap' = am_cap s then ret_a () else throw_a Undefined) w = (Inr (), v)"
      using r(3) unfolding bind_a_Inr_iff [of "f i"] by auto
    then have "v = w" by (simp add: bind_a_run split: if_splits)
    then show ?thesis using assms(3) [OF r(1,2)] w(1) by simp
  qed
  show ?thesis by (rule foreach_upto [where f = ?g and P = P, OF run assms(2) le0 step])
qed

end
