(* ===== verification/Agent_Props.thy ===== *)
theory Agent_Props
  imports Agent_Frame Rpc_Client Server_Props Dtn_Props
begin

text \<open>
  What the framework of the agents guarantees: start-up and registration, one reply per command; and what follows
  for agents and server together: a remote call through the RPC client, the manager and a module, the
  registration of an agent at the server, the report of a transfer.
\<close>

section \<open>Start-up\<close>

text \<open>A registration object with its modules.\<close>

definition announcement :: "bool \<Rightarrow> string \<Rightarrow> json list \<Rightarrow> json" where
  "announcement online q ms = jobj [(''online'', JBool online), (''queue'', JStr q), (''modules'', jarr ms)]"

lemma append_module_run:
  assumes "reg_val s = announcement True q ms" and "de_reg_val s = announcement False q ms"
  shows "append_module i s = (Inr (), s\<lparr>reg_val := announcement True q (ms @ [ag_prop (mstore s ! i)]),
    de_reg_val := announcement False q (ms @ [ag_prop (mstore s ! i)])\<rparr>)"
  using assms by (simp add: append_module_def bind_a_run announcement_def jobj_def jset_def)

lemma append_modules_run:
  assumes "each_module append_module s = (Inr (), t)"
    and "reg_val s = announcement True q []" and "de_reg_val s = announcement False q []"
  shows "mstore t = mstore s \<and> am_cid t = am_cid s \<and> am_queue t = am_queue s \<and>
     reg_val t = announcement True q (map ag_prop (mstore t)) \<and> de_reg_val t = announcement False q (map ag_prop (mstore t))"
proof -
  let ?P = "\<lambda>i u. mstore u = mstore s \<and> am_cid u = am_cid s \<and> am_queue u = am_queue s \<and>
    reg_val u = announcement True q (map ag_prop (take i (mstore s))) \<and> de_reg_val u = announcement False q (map ag_prop (take i (mstore s)))"
  have "?P (length (mstore s)) t"
  proof (rule each_module_upto [OF assms(1), where P = ?P])
    show "?P (Suc i) v" if "i < length (mstore s)" "?P i u" "append_module i u = (Inr (), v)" for i u v
      using that append_module_run [of u q "map ag_prop (take i (mstore s))" i] by (auto simp: take_Suc_conv_app_nth)
  qed (use assms in simp)
  then show ?thesis by simp
qed

context module_hooks
begin

text \<open>The manager after a hook: stages, registration objects and names of the manager are as before.\<close>

lemma hook_frame:
  assumes "do_bootstrap h i s = (r, t) \<or> do_init h i s = (r, t) \<or> do_registration h i s = (r, t)"
  shows "module_frame s t"
  using assms mf.movesD [OF bootstrap_frame, of s i] mf.movesD [OF init_frame, of s i] mf.movesD [OF registration_frame, of s i]
  by auto

definition same_manager :: "'x am \<Rightarrow> 'x am \<Rightarrow> bool" where
  "same_manager s t \<longleftrightarrow> length (mstore s) \<le> length (mstore t) \<and>
     reg_val t = reg_val s \<and> de_reg_val t = de_reg_val s \<and> am_cid t = am_cid s \<and> am_queue t = am_queue s"

lemma same_frame: "module_frame s t \<Longrightarrow> same_manager s t"
  by (simp add: module_frame_def same_manager_def)

lemma same_trans: "same_manager s t \<Longrightarrow> same_manager t u \<Longrightarrow> same_manager s u"
  by (simp add: same_manager_def)

lemma same_stage: "same_manager s (on_module i (\<lambda>a. a\<lparr>ag_stage := n\<rparr>) s)"
  by (simp add: same_manager_def on_module_def)

lemma bootstrap_same:
  assumes "ag_bootstrap h i s = (Inr (), t)"
  shows "same_manager s t"
proof -
  obtain u where "do_bootstrap h i s = (Inr (), u)" "t = on_module i (\<lambda>a. a\<lparr>ag_stage := 1\<rparr>) u"
    using assms by (auto simp: ag_bootstrap_def set_stage_def bind_a_Inr_iff)
  moreover from this have "module_frame s u" using hook_frame by blast
  ultimately show ?thesis using same_trans [OF same_frame same_stage] by simp
qed

definition registered_upto :: "nat \<Rightarrow> 'x am \<Rightarrow> bool" where
  "registered_upto n s \<longleftrightarrow> n \<le> length (mstore s) \<and> (\<forall>k < n. ag_stage (mstore s ! k) = 3)"

lemma start_module:
  assumes "bind_a (ag_init h i) (\<lambda>_. ag_registration h i) s = (Inr (), t)" and "i < length (mstore s)" and "registered_upto i s"
  shows "same_manager s t \<and> registered_upto (Suc i) t"
proof -
  obtain u v where u: "do_init h i s = (Inr (), u)" and v: "do_registration h i (on_module i (\<lambda>a. a\<lparr>ag_stage := 2\<rparr>) u) = (Inr (), v)"
    and t: "t = on_module i (\<lambda>a. a\<lparr>ag_stage := 3\<rparr>) v"
    using assms(1) by (auto simp: ag_init_def ag_registration_def set_stage_def bind_a_Inr_iff)
  have f: "module_frame s u" "module_frame (on_module i (\<lambda>a. a\<lparr>ag_stage := 2\<rparr>) u) v"
    using hook_frame [of i s _ u] hook_frame [of i "on_module i (\<lambda>a. a\<lparr>ag_stage := 2\<rparr>) u" _ v] u v by auto
  have "same_manager s t"
    unfolding t by (rule same_trans [OF same_frame [OF f(1)] same_trans [OF same_stage same_trans [OF same_frame [OF f(2)] same_stage]]])
  moreover have "registered_upto (Suc i) t"
    using f assms(2,3) unfolding t registered_upto_def module_frame_def on_module_def
    by (auto simp: nth_list_update less_Suc_eq)
  ultimately show ?thesis ..
qed

lemma each_start:
  assumes "each_module (\<lambda>i. bind_a (ag_init h i) (\<lambda>_. ag_registration h i)) s = (Inr (), t)"
  shows "same_manager s t \<and> registered_upto (length (mstore s)) t"
proof -
  let ?P = "\<lambda>i u. same_manager s u \<and> registered_upto i u"
  show ?thesis
  proof (rule each_module_upto [OF assms, where P = ?P])
    show "?P (Suc i) w" if "i < length (mstore s)" "?P i u" "bind_a (ag_init h i) (\<lambda>_. ag_registration h i) u = (Inr (), w)" for i u w
    proof -
      have "i < length (mstore u)" using that(1,2) by (simp add: same_manager_def)
      then show ?thesis using start_module [OF that(3)] that(2) same_trans by blast
    qed
  qed (simp add: same_manager_def registered_upto_def)
qed

lemma prepare_run:
  assumes "prepare h s = (Inr (), t)" and "reg_val s = announcement True q []" and "de_reg_val s = announcement False q []"
  shows "reg_val t = announcement True q (map ag_prop (mstore t)) \<and> de_reg_val t = announcement False q (map ag_prop (mstore t)) \<and>
     am_will t = Some (''reg/'' @ am_cid s, de_reg_val t) \<and> am_cid t = am_cid s \<and> am_queue t = am_queue s \<and> registered_upto (length (mstore s)) t"
proof -
  obtain u v w where u: "each_module (ag_bootstrap h) s = (Inr (), u)"
    and v: "each_module (\<lambda>i. bind_a (ag_init h i) (\<lambda>_. ag_registration h i)) (u\<lparr>am_subs := am_subs u @ [(am_queue u, 2)]\<rparr>) = (Inr (), v)"
    and w: "each_module append_module v = (Inr (), w)" and t: "t = w\<lparr>am_will := Some (reg_topic w, de_reg_val w)\<rparr>"
    using assms(1) by (auto simp: prepare_def bind_a_Inr_iff)
  have su: "same_manager s u"
    by (rule each_module_upto [OF u, where P = "\<lambda>i u. same_manager s u"]) (auto simp: same_manager_def dest: bootstrap_same)
  have sv: "same_manager u v" "registered_upto (length (mstore u)) v"
    using each_start [OF v] by (simp_all add: same_manager_def)
  have "reg_val v = announcement True q []" "de_reg_val v = announcement False q []"
    using su sv(1) assms(2,3) by (simp_all add: same_manager_def)
  from append_modules_run [OF w this] show ?thesis
    using su sv unfolding t by (auto simp: same_manager_def registered_upto_def reg_topic_def)
qed

end

text \<open>All modules of a list of modules have finished their registration.\<close>

definition all_registered :: "nat \<Rightarrow> 'x am \<Rightarrow> bool" where
  "all_registered n s \<longleftrightarrow> n \<le> length (mstore s) \<and> list_all (\<lambda>a. ag_stage a = 3) (take n (mstore s))"

text \<open>
  C28: a started agent announces all its modules. When \<open>prepare\<close> returns in a process with a data transfer node,
  whatever the storage agents do within the interface of modules, then all modules that were there at the start
  have passed all stages, the registration object has the properties of all modules, those included that were
  added during the start, and the last will is the same object with \<open>online\<close> false.
\<close>

theorem prepare_announces_all:
  assumes "module_hooks others" and "prepare (dtn_hooks others) s = (Inr (), t)"
    and "reg_val s = announcement True (am_queue s) []" and "de_reg_val s = announcement False (am_queue s) []"
  shows "all_registered (length (mstore s)) t \<and>
     reg_val t = announcement True (am_queue s) (map ag_prop (mstore t)) \<and>
     am_will t = Some (''reg/'' @ am_cid s, announcement False (am_queue s) (map ag_prop (mstore t)))"
proof -
  note hooks = dtn_module_hooks [OF assms(1)]
  from module_hooks.prepare_run [OF hooks assms(2-4)] show ?thesis
    by (auto simp: module_hooks.registered_upto_def [OF hooks] all_registered_def list_all_length)
qed

section \<open>Commands\<close>

definition reply_sent :: "json \<Rightarrow> rpc_props \<Rightarrow> string \<times> json \<times> int \<times> bool" where
  "reply_sent res props = (reply_to props, reply_message res props, 1, False)"

lemma send_response_run: "am_send_response res props s = (Inr (), s\<lparr>am_out := am_out s @ [reply_sent res props]\<rparr>)"
  by (simp add: am_send_response_def am_publish_def reply_sent_def)

lemma dispatch_cases:
  "(\<exists>e. dispatch_command tgt msg props s = (Inl e, s)) \<or>
   (\<exists>i cmd arg. find_module tgt s = Some i \<and>
      dispatch_command tgt msg props s = (Inr (), s\<lparr>am_tasks := am_tasks s @ [T_command i cmd arg props]\<rparr>))"
  by (auto simp: dispatch_command_def am_get_def bind_a_run am_dispatch_def opt_r_def split: option.splits)

text \<open>What the task of a command does: one reply with the value of the command, or none when it throws.\<close>

definition task_replies :: "'x hooks \<Rightarrow> rpc_props \<Rightarrow> nat \<Rightarrow> string \<Rightarrow> json \<Rightarrow> 'x am \<Rightarrow> bool" where
  "task_replies h props i cmd arg u \<longleftrightarrow>
     (case do_command h i cmd arg u of
        (Inr res, v) \<Rightarrow> run_am_task h (T_command i cmd arg props) u = (Inr (), v\<lparr>am_out := am_out v @ [reply_sent res props]\<rparr>)
      | (Inl e, v) \<Rightarrow> run_am_task h (T_command i cmd arg props) u = (Inl e, v))"

lemma task_replies_always: "task_replies h props i cmd arg u"
  by (auto simp: task_replies_def bind_a_run send_response_run split: prod.splits sum.splits)

text \<open>
  C29: a command is answered once. The handler of a request either sends one refusal at once, or posts one task,
  for a module of the manager; a task whose command returns a value sends one reply, with that value and the
  correlation identifier of the request, and one whose command throws sends none.
\<close>

theorem agent_one_reply:
  assumes "am_rpc_handler exn_text msg props s = (Inr (), t)"
  shows "(\<exists>res. t = s\<lparr>am_out := am_out s @ [reply_sent res props]\<rparr>) \<or>
     (\<exists>i cmd arg. i < length (mstore s) \<and> t = s\<lparr>am_tasks := am_tasks s @ [T_command i cmd arg props]\<rparr> \<and>
        (\<forall>u. task_replies h props i cmd arg u))"
proof -
  have found: "find_module tgt s = Some i \<Longrightarrow> i < length (mstore s)" for tgt i
    by (auto simp: find_module_def find_Some_iff)
  obtain tgt where t: "am_route exn_text tgt msg props s = (Inr (), t)"
    using assms by (auto simp: am_rpc_handler_def bind_a_Inr_iff split: if_splits)
  have "(\<exists>res. t = s\<lparr>am_out := am_out s @ [reply_sent res props]\<rparr>) \<or>
    (\<exists>i cmd arg. find_module tgt s = Some i \<and> t = s\<lparr>am_tasks := am_tasks s @ [T_command i cmd arg props]\<rparr>)"
  proof (cases "tgt = [] \<or> tgt = ''daemon''")
    case True
    then show ?thesis using t by (auto simp: am_route_def send_response_run)
  next
    case False
    from dispatch_cases [of tgt msg props s] show ?thesis
    proof (elim disjE exE conjE)
      fix e
      assume "dispatch_command tgt msg props s = (Inl e, s)"
      then show ?thesis using t False by (auto simp: am_route_def send_response_run)
    next
      fix i cmd arg
      assume i: "find_module tgt s = Some i"
        and "dispatch_command tgt msg props s = (Inr (), s\<lparr>am_tasks := am_tasks s @ [T_command i cmd arg props]\<rparr>)"
      then have "t = s\<lparr>am_tasks := am_tasks s @ [T_command i cmd arg props]\<rparr>" using t False by (simp add: am_route_def)
      with i show ?thesis by blast
    qed
  qed
  then show ?thesis using found task_replies_always by blast
qed

section \<open>A remote call\<close>

text \<open>
  The whole way of a call: the client publishes the request, the manager that listens on the topic routes it,
  a worker runs the task, the reply arrives at the client.
\<close>

definition sent_request :: "string \<Rightarrow> json \<Rightarrow> rpc_client \<Rightarrow> json" where
  "sent_request target params c = rpc_message (guid_of (rc_rand c)) (rc_queue c) params"

lemma call_sends:
  assumes "map_ok (rc_promises c)" and "\<not> has_key (rc_promises c) (guid_of (rc_rand c))" and "rpc_topic target \<noteq> ''rpc/''"
  shows "rc_sent (call_start target params False c) = rc_sent c @ [(rpc_topic target, sent_request target params c)]"
    and "map_of (rc_promises (call_start target params False c)) (guid_of (rc_rand c)) = Some (length (rc_calls c))"
    and "rc_calls (call_start target params False c) = rc_calls c @ [\<lparr>c_corr = guid_of (rc_rand c), c_params = params, c_verbose = False, c_state = Waiting\<rparr>]"
  using assms by (simp_all add: call_start_def Let_def sent_request_def has_key_def)

lemma request_parsed:
  "rpc_request (sent_request target params c) = Inr (params, \<lparr>correlation_id = guid_of (rc_rand c), reply_to = rc_queue c\<rparr>)"
  by (simp add: rpc_request_def sent_request_def rpc_message_def jobj_def)

definition command_request :: "string \<Rightarrow> string \<Rightarrow> json \<Rightarrow> json" where
  "command_request tgt cmd params = jobj [(''target'', JStr tgt), (''cmd'', JStr cmd), (''params'', params)]"

lemma request_routed:
  assumes "find_module tgt s = Some i" and "tgt \<noteq> []" and "tgt \<noteq> ''daemon''"
  shows "am_rpc_msg exn_text (sent_request target (command_request tgt cmd params) c) s =
    (Inr (), s\<lparr>am_tasks := am_tasks s @ [T_command i cmd params \<lparr>correlation_id = guid_of (rc_rand c), reply_to = rc_queue c\<rparr>]\<rparr>)"
  using assms
  by (simp add: am_rpc_msg_def bind_a_run request_parsed am_rpc_handler_def command_request_def jobj_def am_route_def
      dispatch_command_def am_get_def am_dispatch_def)

lemma reply_arrives:
  assumes "map_of (rc_promises c) corr = Some n" and "c_state (rc_calls c ! n) = Waiting" and "n < length (rc_calls c)"
  shows "\<exists>c'. rpcc_on_msg (reply_message res \<lparr>correlation_id = corr, reply_to = q\<rparr>) c = Inr c' \<and> c_state (rc_calls c' ! n) = Ready res"
  using assms by (simp add: rpcc_on_msg_def reply_message_def jobj_def set_value_def set_call_state_def)

text \<open>
  C15: a call of a command returns what the module computed. Take a client with a fresh identifier that calls a
  command of a module of an agent, and a manager that has this module. The one message the client publishes makes the
  manager post one task; when that task runs, in whatever state the manager then is, and the command returns a value,
  the manager publishes one message to the queue of the client; and this message, arriving while the client waits,
  makes the call ready with exactly that value.
\<close>

theorem remote_call_returns:
  assumes "map_ok (rc_promises c)" and "\<not> has_key (rc_promises c) (guid_of (rc_rand c))" and "rpc_topic target \<noteq> ''rpc/''"
    and "find_module tgt s = Some i" and "tgt \<noteq> []" and "tgt \<noteq> ''daemon''"
    and "do_command h i cmd params u = (Inr res, v)"
  shows "\<exists>c1 msg task reply c2. c1 = call_start target (command_request tgt cmd params) False c \<and>
     rc_sent c1 = rc_sent c @ [(rpc_topic target, msg)] \<and>
     am_rpc_msg exn_text msg s = (Inr (), s\<lparr>am_tasks := am_tasks s @ [task]\<rparr>) \<and>
     run_am_task h task u = (Inr (), v\<lparr>am_out := am_out v @ [(rc_queue c, reply, 1, False)]\<rparr>) \<and>
     rpcc_on_msg reply c1 = Inr c2 \<and> c_state (rc_calls c2 ! length (rc_calls c)) = Ready res"
proof -
  let ?p = "command_request tgt cmd params" and ?props = "\<lparr>correlation_id = guid_of (rc_rand c), reply_to = rc_queue c\<rparr>"
  let ?c1 = "call_start target ?p False c"
  note sends = call_sends [OF assms(1-3), of ?p]
  obtain c2 where c2: "rpcc_on_msg (reply_message res ?props) ?c1 = Inr c2" "c_state (rc_calls c2 ! length (rc_calls c)) = Ready res"
    using reply_arrives [OF sends(2), where res = res and q = "rc_queue c"] sends(3) by auto
  have "run_am_task h (T_command i cmd params ?props) u = (Inr (), v\<lparr>am_out := am_out v @ [(rc_queue c, reply_message res ?props, 1, False)]\<rparr>)"
    using assms(7) by (simp add: bind_a_run send_response_run reply_sent_def)
  then show ?thesis using sends(1) request_routed [OF assms(4-6), of exn_text target cmd params c] c2 by blast
qed

section \<open>Registration at the server\<close>

text \<open>The server has a DTN and reaches it through a queue; with \<open>b\<close> false, only that its table of DTNs is well-formed.\<close>

definition knows :: "bool \<Rightarrow> string \<Rightarrow> string \<Rightarrow> rgraph \<Rightarrow> bool" where
  "knows b i q g \<longleftrightarrow> map_ok (dtn_nodes g) \<and> (b \<longrightarrow> (\<exists>d. map_of (dtn_nodes g) i = Some d \<and> rqueue d = q))"

abbreviation keeps_known :: "bool \<Rightarrow> string \<Rightarrow> string \<Rightarrow> 'a rm_act \<Rightarrow> bool" where
  "keeps_known b i q \<equiv> keeps (\<lambda>s. knows b i q (rm_rg s))"

lemma knows_cong: "dtn_nodes g' = dtn_nodes g \<Longrightarrow> knows b i q g' = knows b i q g"
  by (simp add: knows_def)

lemma knows_adjust: "(\<And>d. rqueue (f d) = rqueue d \<or> rqueue (f d) = q) \<Longrightarrow> knows b i q g \<Longrightarrow> knows b i q (g\<lparr>dtn_nodes := adjust k f (dtn_nodes g)\<rparr>)"
  by (auto simp: knows_def)

lemma knows_node_ops:
  "knows b i q g \<Longrightarrow> knows b i q (node_add_in p e g)" "knows b i q g \<Longrightarrow> knows b i q (node_add_out p e g)"
  "knows b i q g \<Longrightarrow> knows b i q (node_del_in p e g)" "knows b i q g \<Longrightarrow> knows b i q (node_del_out p e g)"
  by (cases p; auto simp: knows_def node_add_in_def node_add_out_def node_del_in_def node_del_out_def
      add_in_edge_def add_out_edge_def del_in_edge_def del_out_edge_def)+

lemma knows_edges: "knows b i q (g\<lparr>edges := e\<rparr>) = knows b i q g"
  by (simp add: knows_def)

lemma knows_add_edge: "add_edge uid s d cap g = Inr g' \<Longrightarrow> knows b i q g \<Longrightarrow> knows b i q g'"
  by (auto simp: add_edge_def connect_def bind_r_Inr_iff knows_edges intro!: knows_node_ops split: if_splits)

lemma knows_add_dtn: "knows b i q g \<Longrightarrow> knows b i q (add_dtn_node k n c g)"
  by (auto simp: knows_def add_dtn_node_def)

lemma knows_others:
  "knows b i q (g\<lparr>s_nodes := x\<rparr>) = knows b i q g" "knows b i q (add_storage_node k n t c g) = knows b i q g"
  "knows b i q (add_launcher k r g) = knows b i q g" "knows b i q (add_sdn k r g) = knows b i q g" "knows b i q (set_one_dtn_node s d g) = knows b i q g"
  by (simp_all add: knows_def add_storage_node_def add_launcher_def add_sdn_def set_general_queue_def add_general_node_def set_one_dtn_node_def)

lemma knows_erase_edges:
  "erase_in_edge e g = Inr g' \<Longrightarrow> knows b i q g \<Longrightarrow> knows b i q g'"
  "erase_out_edge e g = Inr g' \<Longrightarrow> knows b i q g \<Longrightarrow> knows b i q g'"
  by (auto simp: erase_in_edge_def erase_out_edge_def knows_edges intro!: knows_node_ops split: option.splits if_splits)

lemma knows_erase_all:
  "fold_r erase_in_edge es g = Inr g' \<Longrightarrow> knows b i q g \<Longrightarrow> knows b i q g'"
  "fold_r erase_out_edge es g = Inr g' \<Longrightarrow> knows b i q g \<Longrightarrow> knows b i q g'"
  by (erule fold_r_invariant, assumption, erule (1) knows_erase_edges)+

lemma knows_erase_node: "knows b i q g \<Longrightarrow> i \<noteq> n \<Longrightarrow> knows b i q (erase_node n g)"
  by (auto simp: erase_node_def knows_def)

lemma knows_del_node:
  assumes "del_node k g = Inr g'" and "knows b i q g" and "i \<notin> {k, launcher_id, sdn_id}"
  shows "knows b i q g'"
proof -
  have "i \<noteq> n" if "special_node_id g k = Some n" for n
    using that assms(3) by (auto simp: special_node_id_def split: if_splits option.splits)
  then show ?thesis using assms(1,2)
    by (auto simp: del_node_def bind_r_Inr_iff split: if_splits option.splits intro!: knows_erase_node dest: knows_erase_all)
qed

lemma keeps_known_ops:
  "(\<And>g. knows b i q g \<Longrightarrow> knows b i q (f g)) \<Longrightarrow> keeps_known b i q (on_graph f)"
  "(\<And>g g'. knows b i q g \<Longrightarrow> h g = Inr g' \<Longrightarrow> knows b i q g') \<Longrightarrow> keeps_known b i q (try_graph h)"
  "(\<And>g g' u. knows b i q g \<Longrightarrow> k u g = Inr g' \<Longrightarrow> knows b i q g') \<Longrightarrow> keeps_known b i q (with_guid k)"
  by (auto simp: keeps_def on_graph_def try_graph_def with_guid_def split: sum.splits)

lemmas known_intros = frame_intros keeps_known_ops

lemma keeps_known_add_module:
  assumes "i \<notin> {launcher_id, sdn_id}"
  shows "keeps_known b i q (add_module q m)"
  using assms
  unfolding add_module_def add_module_dtn_def add_module_storage_def del_launcher_def del_sdn_def upd_dtn_def upd_storage_def
    rm_add_edge_to_gateway_def add_edge_to_gateway_def
  by (intro known_intros)
     (auto simp: knows_others intro: knows_add_dtn knows_adjust knows_add_edge knows_del_node split: if_splits)

lemma keeps_known_link_module: "keeps_known b i q (link_module m)"
  unfolding link_module_def link_module_storage_def link_storage_dtn_def rm_add_edge_def
  by (intro known_intros) (auto simp: knows_others intro: knows_add_edge)

lemma add_module_knows:
  assumes "add_module q m s = (Inr (), t)" and "str_at m [''id''] = Inr i" and "str_at m [''type''] = Inr ''DTN''"
    and "map_ok (dtn_nodes (rm_rg s))"
  shows "knows True i q (rm_rg t)"
proof -
  obtain n where run: "add_module_dtn i n q m s = (Inr (), t)"
    using assms(1-3) by (auto simp: add_module_def bind_a_Inr_iff)
  let ?g = "add_dtn_node i n 0 (rm_rg s)"
  obtain ip rate where t: "rm_add_edge_to_gateway i rate (s\<lparr>rm_rg := ?g\<lparr>dtn_nodes := adjust i (\<lambda>x. x\<lparr>properties := m\<rparr>)
      (adjust i (\<lambda>x. x\<lparr>rqueue := q\<rparr>) (adjust i (\<lambda>x. x\<lparr>ctrl_ip := ip\<rparr>) (dtn_nodes ?g)))\<rparr>\<rparr>) = (Inr (), t)"
    (is "rm_add_edge_to_gateway _ _ ?s = _")
    using run by (auto simp: add_module_dtn_def upd_dtn_def on_graph_def bind_a_Inr_iff)
  have "keeps_known True i q (rm_add_edge_to_gateway i rate)"
    unfolding rm_add_edge_to_gateway_def add_edge_to_gateway_def
    by (intro known_intros) (auto intro: knows_add_edge split: if_splits)
  moreover have "knows True i q (rm_rg ?s)" using assms(4) by (auto simp: knows_def add_dtn_node_def)
  ultimately show ?thesis using keepsD [of "\<lambda>s. knows True i q (rm_rg s)" "rm_add_edge_to_gateway i rate" ?s] t by simp
qed

lemma add_modules_knows:
  assumes "foreach_a (add_module q) ms s = (Inr (), t)" and "m \<in> set ms" and "str_at m [''id''] = Inr i"
    and "str_at m [''type''] = Inr ''DTN''" and "i \<notin> {launcher_id, sdn_id}" and "map_ok (dtn_nodes (rm_rg s))"
  shows "knows True i q (rm_rg t)"
  using assms(1,2,6)
proof (induction ms arbitrary: s)
  case (Cons x ms)
  then obtain u where u: "add_module q x s = (Inr (), u)" "foreach_a (add_module q) ms u = (Inr (), t)"
    by (auto simp: bind_a_Inr_iff)
  show ?case
  proof (cases "x = m")
    case True
    then have "knows True i q (rm_rg u)" using add_module_knows [OF _ assms(3,4)] u(1) Cons.prems(3) by blast
    moreover have "keeps_known True i q (foreach_a (add_module q) ms)"
      by (intro keeps_foreach keeps_known_add_module assms(5))
    ultimately show ?thesis using u(2) by (auto dest: keepsD)
  next
    case False
    have "knows False i q (rm_rg s)" using Cons.prems(3) by (simp add: knows_def)
    with keeps_known_add_module [OF assms(5), of False q x] have "knows False i q (rm_rg u)" using u(1) by (auto dest: keepsD)
    then show ?thesis using Cons.IH [OF u(2)] Cons.prems(2) False by (simp add: knows_def)
  qed
qed simp

lemma construct_knows:
  assumes "resource_construct True cid q (jarr ms) s = (Inr (), t)" and "m \<in> set ms" and "str_at m [''id''] = Inr i"
    and "str_at m [''type''] = Inr ''DTN''" and "i \<notin> {launcher_id, sdn_id}" and "map_ok (dtn_nodes (rm_rg (s_rm s)))"
  shows "\<exists>d. map_of (dtn_nodes (rm_rg (s_rm t))) i = Some d \<and> rqueue d = q"
proof -
  have "add_modules q (jarr ms) (s_rm s) = (Inr (), s_rm t)"
    using assms(1) by (auto simp: resource_construct_def on_rm_def split: prod.splits)
  then obtain u where u: "foreach_a (add_module q) ms (s_rm s) = (Inr (), u)"
    and t: "bind_a (foreach_a link_module ms) (\<lambda>_. bind_a (bind_a (get_a rm_rg) (\<lambda>g. bind_a (lift_r (get_active_dtn_topology g)) (\<lambda>_. ret_a ()))) (\<lambda>_. ret_a ())) u = (Inr (), s_rm t)"
    by (auto simp: add_modules_def bind_a_Inr_iff)
  have "keeps_known True i q (bind_a (foreach_a link_module ms) (\<lambda>_. bind_a (bind_a (get_a rm_rg) (\<lambda>g. bind_a (lift_r (get_active_dtn_topology g)) (\<lambda>_. ret_a ()))) (\<lambda>_. ret_a ())))"
    by (intro known_intros keeps_known_link_module)
  from keepsD [OF this add_modules_knows [OF u assms(2-6)]] t show ?thesis by (simp add: knows_def)
qed

text \<open>
  The topics of libmosquitto: \<open>reg/+\<close> and \<open>ld/status/+\<close> match a topic with one more level that is not empty, and a topic is split at
  its slashes.
\<close>

definition topics_work :: "(string \<Rightarrow> string \<Rightarrow> bool) \<Rightarrow> (string \<Rightarrow> string list) \<Rightarrow> bool" where
  "topics_work topic_match topic_tokenise \<longleftrightarrow>
     (\<forall>x. x \<noteq> [] \<and> CHR ''/'' \<notin> set x \<longrightarrow> topic_match ''reg/+'' (''reg/'' @ x) \<and> topic_tokenise (''reg/'' @ x) = [''reg'', x] \<and>
        \<not> topic_match ''reg/+'' (''ld/status/'' @ x) \<and> topic_match ''ld/status/+'' (''ld/status/'' @ x) \<and>
        topic_tokenise (''ld/status/'' @ x) = [''ld'', ''status'', x])"

lemma registration_posted:
  assumes "topics_work topic_match topic_tokenise" and "cid \<noteq> [] \<and> CHR ''/'' \<notin> set cid"
  shows "main_on_msg topic_match topic_tokenise (''reg/'' @ cid) (announcement True q ms) s =
    (Inr [T_resource_construct True cid q (jarr ms)], s)"
  using assms
  by (simp add: main_on_msg_def topics_work_def on_registration_def typed_member_def is_member_a_def json_acts announcement_def jobj_def
      token_a_def bind_a_run has_key_def or_null_def isBool_def isString_def cong: bind_a_lazy)

lemma prop_str: "jget p [K k] = Some (JStr x) \<Longrightarrow> str_at p [k] = Inr x"
  by (simp add: str_at_def getk_def)

text \<open>
  C14: the server finds every DTN of an agent that it was told of. After the start of an agent process, the message
  that the agent publishes when it is connected makes the server post one task; when that task succeeds, every
  module of the agent that says it is a DTN is a node of the resource graph of the server, and its queue is the one
  the agent listens on.
\<close>

theorem registered_dtn_reachable:
  assumes "topics_work topic_match topic_tokenise" and "am_cid a \<noteq> [] \<and> CHR ''/'' \<notin> set (am_cid a)"
    and "module_hooks others" and "prepare (dtn_hooks others) a = (Inr (), b)"
    and "reg_val a = announcement True (am_queue a) []" and "de_reg_val a = announcement False (am_queue a) []"
    and "m \<in> set (mstore b)" and "jget (ag_prop m) [K ''id''] = Some (JStr i)" and "jget (ag_prop m) [K ''type''] = Some (JStr ''DTN'')"
    and "i \<notin> {launcher_id, sdn_id}" and "map_ok (dtn_nodes (rm_rg (s_rm s)))"
  shows "\<exists>msg task. on_mqtt_conn True b = (Inr (), b\<lparr>am_connected := True, am_out := am_out b @ [(''reg/'' @ am_cid a, msg, 1, True)]\<rparr>) \<and>
     main_on_msg topic_match topic_tokenise (''reg/'' @ am_cid a) msg s = (Inr [task], s) \<and>
     (case run_task gen task s of
        (Inr _, t) \<Rightarrow> \<exists>d. map_of (dtn_nodes (rm_rg (s_rm t))) i = Some d \<and> rqueue d = am_queue a
      | (Inl e, t) \<Rightarrow> True)"
proof -
  let ?ms = "map ag_prop (mstore b)"
  note b = module_hooks.prepare_run [OF dtn_module_hooks [OF assms(3)] assms(4-6)]
  have "on_mqtt_conn True b = (Inr (), b\<lparr>am_connected := True, am_out := am_out b @ [(''reg/'' @ am_cid a, announcement True (am_queue a) ?ms, 1, True)]\<rparr>)"
    using b by (simp add: on_mqtt_conn_def bind_a_run am_publish_def reg_topic_def)
  moreover have "case run_task gen (T_resource_construct True (am_cid a) (am_queue a) (jarr ?ms)) s of
      (Inr _, t) \<Rightarrow> \<exists>d. map_of (dtn_nodes (rm_rg (s_rm t))) i = Some d \<and> rqueue d = am_queue a | (Inl e, t) \<Rightarrow> True"
    using construct_knows [of "am_cid a" "am_queue a" ?ms s _ "ag_prop m" i] assms(7-11) prop_str
    by (auto split: prod.splits sum.splits)
  ultimately show ?thesis using registration_posted [OF assms(1,2), of "am_queue a" ?ms s]
    by (intro exI [of _ "announcement True (am_queue a) ?ms"] exI [of _ "T_resource_construct True (am_cid a) (am_queue a) (jarr ?ms)"] conjI)
qed

section \<open>Reports of a transfer\<close>

text \<open>
  A report of the transfer program reaches the handler of the server for its task. The launcher publishes a
  report that names a task once, retained, on the topic of that task, whatever libmosquitto returns; and the server,
  when this message arrives, clears the retained message and posts the task that handles the report, with the
  parameters of the report.
\<close>

lemma report_reaches_server:
  assumes "topics_work topic_match topic_tokenise"
    and "jget msg [K ''params'', K ''task''] = Some (JStr x)" and "x \<noteq> []" and "CHR ''/'' \<notin> set x"
  shows "\<exists>topic params. handle_mdtm_report rc msg a = (Inr (), a\<lparr>am_out := am_out a @ [(topic, msg, 1, True)]\<rparr>) \<and>
     jget msg [K ''params''] = Some params \<and>
     main_on_msg topic_match topic_tokenise topic msg s = bind_a (clr_retain topic 1) (\<lambda>_. ret_a [T_mld_status x params]) s"
proof -
  obtain params where p: "jget msg [K ''params''] = Some params" using assms(2) by (auto split: Option.bind_splits)
  have "handle_mdtm_report rc msg a = (Inr (), a\<lparr>am_out := am_out a @ [(report_topic x, msg, 1, True)]\<rparr>)"
    using assms(2) by (simp add: handle_mdtm_report_def report_task_def q_get_def bind_a_run mqtt_publish_def am_publish_def
        jempty_def isNull_def isArray_def isObject_def)
  moreover have "main_on_msg topic_match topic_tokenise (report_topic x) msg s = bind_a (clr_retain (report_topic x) 1) (\<lambda>_. ret_a [T_mld_status x params]) s"
    using assms(1,3,4) p by (simp add: main_on_msg_def report_topic_def topics_work_def token_a_def json_acts bind_a_run)
  ultimately show ?thesis using p by blast
qed

section \<open>Examples\<close>

definition demo_host :: "(string \<times> nat) list host" where
  "demo_host =
     \<lparr>h_name = (\<lambda>w. Some ''host1''), h_first_mac = (\<lambda>w. ''00:11''), h_ipv4 = (\<lambda>w i. Inr ''10.0.0.1''), h_ipv6 = (\<lambda>w i. Inr ''::1''),
      h_mac = (\<lambda>w i. Inr ''00:12''), h_speed = (\<lambda>w i. Inr 10000), h_vlan = (\<lambda>w i. Inr 0), 
      h_opendir = (\<lambda>w p. True), h_mkdtemp = (\<lambda>p w. (Inr p, w)), h_now = (\<lambda>w. 1000), h_uptime = (\<lambda>w. 5), h_datetime = (\<lambda>t. ''later''),
      h_popen = (\<lambda>cmd w. (None, w)), h_run = (\<lambda>cmd w. (Inr (), w)), h_sysinfo = (\<lambda>w. None), h_blockstat = (\<lambda>w p. None),
      h_stat_files = (\<lambda>w p. None), h_edge = CHR 0x00\<rparr>"

definition demo_conf :: json where
  "demo_conf = jobj [(''id'', JStr ''dtn1''), (''management_interface'', JStr ''m0''), (''data_interfaces'', JStr ''d0''),
     (''data_folders'', jobj [(''path'', JStr ''/data'')]),
     (''data_transfer_program'', jobj [(''path'', JStr ''mdtm-ftp-server''), (''args'', jarr [JStr ''-p'', JStr ''5''])])]"

definition demo_module :: "((string \<times> nat) list, string) dtn_module" where
  "demo_module =
     \<lparr>dm_dtn = demo_dtn\<lparr>data_folders := [], data_ifaces := []\<rparr>, dm_host = demo_host, dm_conf = demo_conf, dm_agent_conf = JNull, dm_scan = False,
      dm_iozone = [], dm_path = [], dm_args = [], dm_env = [], dm_port = None, dm_use_hostname = False, dm_threshold = 0,
      dm_storage_map = [], dm_agents = [], dm_store = [], dm_confs = [], dm_storages = [], dm_series = [], dm_io_errored = False\<rparr>"

definition demo_am :: "((string \<times> nat) list, string) dtn_module am" where
  "demo_am =
     (case AgentManager ''c1'' ''localhost'' 1883 [] [] [] demo_module of Inr a \<Rightarrow> snd (am_add (new_agent ''dtn1'' [] ''DTN'') a))"

definition demo_agent :: "((string \<times> nat) list, string) dtn_module am" where
  "demo_agent = snd (prepare (dtn_hooks storage_hooks) demo_am)"

definition demo_query :: json where
  "demo_query = jobj [(''path'', JStr ''/data/f'')]"

definition demo_answer :: json where
  "demo_answer = jobj [(''code'', JInt 0), (''error'', JStr ''OK''), (''path'', JStr ''/data/f''), (''size'', JUInt 5)]"

lemma demo_facts:
  "(case prepare (dtn_hooks storage_hooks) demo_am of (r, b) \<Rightarrow>
      (r, map (\<lambda>m. (jget (ag_prop m) [K ''id''], jget (ag_prop m) [K ''type''])) (mstore b), find_module ''dtn1'' b,
       fst (do_command (dtn_hooks storage_hooks) 0 ''dtn_path_size'' demo_query b),
       fst (add_modules ''rpc/c1'' (jarr (map ag_prop (mstore b))) (ResourceManager JobManager int)))) =
     (Inr (), [(Some (JStr ''dtn1''), Some (JStr ''DTN''))], Some 0, Inr demo_answer, Inr ())"
  by code_simp

lemma demo_prepared: "prepare (dtn_hooks storage_hooks) demo_am = (Inr (), demo_agent)"
  and demo_agent_modules: "map (\<lambda>m. (jget (ag_prop m) [K ''id''], jget (ag_prop m) [K ''type''])) (mstore demo_agent) =
     [(Some (JStr ''dtn1''), Some (JStr ''DTN''))]"
  and demo_found: "find_module ''dtn1'' demo_agent = Some 0"
  and demo_command: "fst (do_command (dtn_hooks storage_hooks) 0 ''dtn_path_size'' demo_query demo_agent) = Inr demo_answer"
  and demo_registers: "fst (add_modules ''rpc/c1'' (jarr (map ag_prop (mstore demo_agent))) (ResourceManager JobManager int)) = Inr ()"
  using demo_facts by (auto simp: demo_agent_def split: prod.splits)

lemma demo_am_announces: "reg_val demo_am = announcement True (am_queue demo_am) []" "de_reg_val demo_am = announcement False (am_queue demo_am) []"
  and demo_am_names: "am_cid demo_am = ''c1''" "am_queue demo_am = ''rpc/c1''" "length (mstore demo_am) = 1"
  by code_simp+

theorem prepare_announces_all_witness:
  "\<exists>t. prepare (dtn_hooks storage_hooks) demo_am = (Inr (), t) \<and> all_registered 1 t \<and>
     reg_val t = announcement True ''rpc/c1'' (map ag_prop (mstore t)) \<and> length (mstore t) = 1 \<and>
     am_will t = Some (''reg/c1'', announcement False ''rpc/c1'' (map ag_prop (mstore t)))"
  using prepare_announces_all [OF storage.module_hooks_axioms demo_prepared demo_am_announces] demo_prepared
    arg_cong [OF demo_agent_modules, of length]
  by (auto simp: demo_am_names)

definition demo_props :: rpc_props where
  "demo_props = \<lparr>correlation_id = ''x1'', reply_to = ''rpc-res/x''\<rparr>"

lemma demo_handled:
  "am_rpc_handler (\<lambda>e. []) (command_request ''dtn1'' ''dtn_path_size'' JNull) demo_props demo_agent =
     (Inr (), demo_agent\<lparr>am_tasks := am_tasks demo_agent @ [T_command 0 ''dtn_path_size'' JNull demo_props]\<rparr>)"
  by (simp add: am_rpc_handler_def command_request_def jobj_def am_route_def bind_a_run dispatch_command_def am_get_def
      am_dispatch_def demo_found)

theorem agent_one_reply_witness:
  "task_replies (dtn_hooks storage_hooks) demo_props 0 ''dtn_path_size'' JNull demo_agent"
proof -
  let ?t = "\<lambda>i cmd arg. demo_agent\<lparr>am_tasks := am_tasks demo_agent @ [T_command i cmd arg demo_props]\<rparr>"
  have "?t 0 ''dtn_path_size'' JNull \<noteq> demo_agent\<lparr>am_out := am_out demo_agent @ [r]\<rparr>" for r
    by (rule notI, drule arg_cong [where f = am_tasks]) simp
  moreover have "i = 0 \<and> cmd = ''dtn_path_size'' \<and> arg = JNull" if "?t 0 ''dtn_path_size'' JNull = ?t i cmd arg" for i cmd arg
    using arg_cong [OF that, of am_tasks] by simp
  ultimately show ?thesis using agent_one_reply [OF demo_handled, of "dtn_hooks storage_hooks"] by blast
qed

theorem remote_call_returns_witness:
  "\<exists>c msg task reply v c2.
     rc_sent c = [(''rpc/c1'', msg)] \<and>
     am_rpc_msg (\<lambda>e. []) msg demo_agent = (Inr (), demo_agent\<lparr>am_tasks := am_tasks demo_agent @ [task]\<rparr>) \<and>
     run_am_task (dtn_hooks storage_hooks) task demo_agent = (Inr (), v) \<and> rpcc_on_msg reply c = Inr c2 \<and>
     c_state (rc_calls c2 ! 0) = Ready demo_answer"
proof -
  let ?c = "RpcClient (\<lambda>n. 0)"
  have c: "map_ok (rc_promises ?c)" "\<not> has_key (rc_promises ?c) k" "rpc_topic ''c1'' \<noteq> ''rpc/''" for k
    by (simp_all add: RpcClient_def rpc_topic_def has_key_def)
  have run: "do_command (dtn_hooks storage_hooks) 0 ''dtn_path_size'' demo_query demo_agent =
      (Inr demo_answer,
       snd (do_command (dtn_hooks storage_hooks) 0 ''dtn_path_size'' demo_query demo_agent))"
    using demo_command by (simp add: prod_eq_iff)
  have "rc_sent ?c = []" "rpc_topic ''c1'' = ''rpc/c1''" "rc_calls ?c = []" by (simp_all add: RpcClient_def rpc_topic_def)
  then show ?thesis
    using remote_call_returns [OF c(1) c(2) c(3) demo_found _ _ run, of "\<lambda>e. []"]
    by (simp, elim exE conjE, blast)
qed

definition level_match :: "string \<Rightarrow> string \<Rightarrow> bool" where
  "level_match sub topic \<longleftrightarrow> sub = ''reg/+'' \<and> take 4 topic = ''reg/'' \<or> sub = ''ld/status/+'' \<and> take 10 topic = ''ld/status/''"

lemma demo_topics: "topics_work level_match topic_split"
proof -
  have "topic_split (''reg/'' @ x) = [''reg'', x] \<and> topic_split (''ld/status/'' @ x) = [''ld'', ''status'', x]"
    if "x \<noteq> []" "CHR ''/'' \<notin> set x" for x
    using that split_cons [of "CHR ''/''" "''reg''" x] split_cons [of "CHR ''/''" "''ld''" "''status/'' @ x"]
      split_cons [of "CHR ''/''" "''status''" x] split_single [of "CHR ''/''" x]
    by (simp add: topic_split_def)
  then show ?thesis by (auto simp: topics_work_def level_match_def)
qed

theorem registered_dtn_reachable_witness:
  "\<exists>msg task t d. on_mqtt_conn True demo_agent =
       (Inr (), demo_agent\<lparr>am_connected := True, am_out := am_out demo_agent @ [(''reg/c1'', msg, 1, True)]\<rparr>) \<and>
     main_on_msg level_match topic_split ''reg/c1'' msg started = (Inr [task], started) \<and>
     run_task quiet_gen task started = (Inr (), t) \<and> map_of (dtn_nodes (rm_rg (s_rm t))) ''dtn1'' = Some d \<and> rqueue d = ''rpc/c1''"
proof -
  obtain m where m: "m \<in> set (mstore demo_agent)" "jget (ag_prop m) [K ''id''] = Some (JStr ''dtn1'')" "jget (ag_prop m) [K ''type''] = Some (JStr ''DTN'')"
    using demo_agent_modules that [of "hd (mstore demo_agent)"] by (cases "mstore demo_agent") auto
  have ok: "map_ok (dtn_nodes (rm_rg (s_rm started)))" "am_cid demo_am \<noteq> [] \<and> CHR ''/'' \<notin> set (am_cid demo_am)" "''dtn1'' \<notin> {launcher_id, sdn_id}"
    by (simp_all add: started_rm ResourceManager_def RGraph_def add_gateway_def add_general_node_def demo_am_names launcher_id_def sdn_id_def)
  obtain msg task where r: "on_mqtt_conn True demo_agent = (Inr (), demo_agent\<lparr>am_connected := True, am_out := am_out demo_agent @ [(''reg/c1'', msg, 1, True)]\<rparr>)"
    "main_on_msg level_match topic_split ''reg/c1'' msg started = (Inr [task], started)"
    "case run_task quiet_gen task started of
        (Inr _, t) \<Rightarrow> \<exists>d. map_of (dtn_nodes (rm_rg (s_rm t))) ''dtn1'' = Some d \<and> rqueue d = ''rpc/c1'' | (Inl e, t) \<Rightarrow> True"
    using registered_dtn_reachable [OF demo_topics ok(2) storage.module_hooks_axioms demo_prepared demo_am_announces m ok(3,1), of quiet_gen]
    unfolding demo_am_names by auto
  have "msg = announcement True ''rpc/c1'' (map ag_prop (mstore demo_agent))"
    using arg_cong [OF r(1), of "am_out \<circ> snd"] module_hooks.prepare_run [OF dtn.module_hooks_axioms demo_prepared demo_am_announces]
    by (simp add: on_mqtt_conn_def bind_a_run am_publish_def reg_topic_def demo_am_names)
  then have "task = T_resource_construct True ''c1'' ''rpc/c1'' (jarr (map ag_prop (mstore demo_agent)))"
    using r(2) registration_posted [OF demo_topics, of "''c1''" "''rpc/c1''" "map ag_prop (mstore demo_agent)" started] by simp
  then have "fst (run_task quiet_gen task started) = Inr ()"
    using demo_registers by (auto simp: resource_construct_def on_rm_def started_rm split: prod.splits)
  then show ?thesis using r by (cases "run_task quiet_gen task started") auto
qed

definition demo_launcher :: "unit launcher am" where
  "demo_launcher =
     (case AgentManager ''l1'' ''localhost'' 1883 [] [] []
        \<lparr>l_conf = JNull, l_world = (), l_hostname = None, l_pid = 1, l_now = (\<lambda>w. 0), l_call = (\<lambda>q m w. (Inr JNull, w)), l_path = [], l_args = [],
         l_env = [], bde_server_queue = [], listen_queue = [], report_queue = [], l_listening = True, l_supervised = False, l_saved = [], l_store = []\<rparr>
      of Inr a \<Rightarrow> a)"

definition demo_report :: json where
  "demo_report = jobj [(''cmd'', JStr ''status''), (''params'', jobj [(''task'', JStr ''t1''), (''status'', JStr ''running'')])]"

lemma report_reaches_server_witness:
  "\<exists>topic params. handle_mdtm_report 0 demo_report demo_launcher = (Inr (), demo_launcher\<lparr>am_out := am_out demo_launcher @ [(topic, demo_report, 1, True)]\<rparr>) \<and>
     jget demo_report [K ''params''] = Some params \<and>
     main_on_msg level_match topic_split topic demo_report started = bind_a (clr_retain topic 1) (\<lambda>_. ret_a [T_mld_status ''t1'' params]) started"
proof -
  have "jget demo_report [K ''params'', K ''task''] = Some (JStr ''t1'')" by (simp add: demo_report_def jobj_def)
  from report_reaches_server [OF demo_topics this] show ?thesis by simp
qed

end
