(* ===== verification/Storage_Props.thy ===== *)
theory Storage_Props
  imports Agent_Props
begin

text \<open>
  What the agents find out about storages: the devices of the data folders, the rates of a device, and what becomes of the
  storage modules that a data transfer node adds to its process.
\<close>

section \<open>Devices of the data folders\<close>













section \<open>The benchmark\<close>

text \<open>A shell whose answers depend on the command only, and what the agent reads in them.\<close>

definition shell_line :: "string option \<Rightarrow> string" where
  "shell_line out = (case out of None \<Rightarrow> [] | Some t \<Rightarrow> last_chunk 2000 [] t)"

definition measured :: "char \<Rightarrow> string option \<Rightarrow> double \<Rightarrow> bool" where
  "measured edge out rate \<longleftrightarrow>
     (case st_split_string edge (shell_line out) (CHR '' '') of
        Inl e \<Rightarrow> False
      | Inr ws \<Rightarrow> 8 \<le> length ws \<and> throughput ws = Some rate)"

lemma run_cmd_det: "h_popen (dm_host m) = (\<lambda>cmd w. (out cmd, w)) \<Longrightarrow> run_cmd cmd m = (Inr (shell_line (out cmd)), m)"
  by (simp add: run_cmd_def bind_a_run world_upd_def shell_line_def)

lemma words_measured:
  assumes "measured (h_edge (dm_host m)) (out cmd) rate"
  obtains ws where "words_a (shell_line (out cmd)) m = (Inr ws, m)" and "8 \<le> length ws" and "throughput ws = Some rate"
  using assms by (auto simp: measured_def words_a_def split: sum.splits)

lemma better_max: "better (Some x) w w = max w x"
  by (simp add: better_def)

lemma iozone_rounds_run:
  assumes "h_popen (dm_host m) = (\<lambda>cmd w. (out cmd, w))"
    and "\<forall>k \<in> set ks. measured (h_edge (dm_host m)) (out (iozone_command exe '' -i0'' dir k)) (wr k) \<and>
       measured (h_edge (dm_host m)) (out (iozone_command exe '' -i1'' dir k)) (rd k) \<and> rd k \<le> wr k"
  shows "iozone_rounds exe dir ks w r m = (Inr (Some (fold max (map wr ks) w, r)), m)"
  using assms(2)
proof (induction ks arbitrary: w)
  case (Cons k ks)
  obtain ws where ws: "words_a (shell_line (out (iozone_command exe '' -i0'' dir k))) m = (Inr ws, m)" "8 \<le> length ws" "throughput ws = Some (wr k)"
    using words_measured [of m out "iozone_command exe '' -i0'' dir k" "wr k"] Cons.prems by auto
  obtain rs where rs: "words_a (shell_line (out (iozone_command exe '' -i1'' dir k))) m = (Inr rs, m)" "8 \<le> length rs" "throughput rs = Some (rd k)"
    using words_measured [of m out "iozone_command exe '' -i1'' dir k" "rd k"] Cons.prems by auto
  have "better (Some (rd k)) (max w (wr k)) r = r" using Cons.prems by (auto simp: better_def)
  then show ?case using Cons.IH [of "max w (wr k)"] Cons.prems ws rs
    by (simp add: bind_a_run run_cmd_det [OF assms(1)] better_max max.commute Let_def)
qed simp

text \<open>
  A device that reads no faster than it writes is reported not to read at all. The benchmark compares read
  rates with the best write rate: when no round reads faster than it writes, the read rate in the
  table of the agent, which it registers as capacity and gives as total rate, is 0, while the write rate is the best of the rounds.
\<close>

lemma slow_reads_report_zero:
  assumes "h_popen (dm_host m) = (\<lambda>cmd w. (out cmd, w))"
    and "map_of (dm_storages m) i = Some x" and "st_jbase x = JNull"
    and "\<forall>k < 8. measured (h_edge (dm_host m)) (out (iozone_command (st_exe x) '' -i0'' dir k)) (wr k) \<and>
       measured (h_edge (dm_host m)) (out (iozone_command (st_exe x) '' -i1'' dir k)) (rd k) \<and> rd k \<le> wr k"
  shows "\<exists>m' y. get_potential_bandwidth i device dir m = (Inr 0, m') \<and> map_of (dm_storages m') i = Some y \<and>
     jget (st_jbase y) [K device, K ''potential_read_bandwidth''] = Some (JReal 0) \<and>
     jget (st_jbase y) [K device, K ''potential_write_bandwidth''] = Some (JReal (fold max (map wr [0..<8]) 0))"
proof -
  let ?best = "fold max (map wr [0..<8]) 0"
  have rounds: "iozone_rounds (st_exe x) dir [0..<8] 0 0 m = (Inr (Some (?best, 0)), m)"
    using assms(4) by (intro iozone_rounds_run [OF assms(1), where rd = rd]) auto
  let ?j = "jobj [(device, jobj [(''potential_write_bandwidth'', JReal ?best), (''potential_read_bandwidth'', JReal 0)])]"
  have "\<exists>m'. get_potential_bandwidth i device dir m = (Inr 0, m') \<and> map_of (dm_storages m') i = Some (x\<lparr>st_jbase := ?j\<rparr>)"
    using assms(1-3) rounds
    by (simp add: get_potential_bandwidth_def bind_a_run st_get_def run_cmd_det jbase_set_def st_upd_def jset_def jobj_def run_cmd_def world_upd_def)
  moreover have "jget ?j [K device, K ''potential_read_bandwidth''] = Some (JReal 0)"
    "jget ?j [K device, K ''potential_write_bandwidth''] = Some (JReal ?best)" by (simp_all add: jobj_def)
  ultimately show ?thesis by fastforce
qed

definition demo_shell :: "string \<Rightarrow> string option" where
  "demo_shell cmd = Some (if take 5 cmd = ''x -i0'' then ''a b c d e f g 5'' else ''a b c d e f g 4'')"

lemma demo_shell_measured:
  "measured (CHR 0x00) (demo_shell (iozone_command ''x'' '' -i0'' dir k)) (1 / 200)"
  "measured (CHR 0x00) (demo_shell (iozone_command ''x'' '' -i1'' dir k)) (1 / 250)"
proof -
  have "demo_shell (iozone_command ''x'' '' -i0'' dir k) = Some ''a b c d e f g 5''" "demo_shell (iozone_command ''x'' '' -i1'' dir k) = Some ''a b c d e f g 4''"
    by (simp_all add: demo_shell_def iozone_command_def)
  moreover have "measured (CHR 0x00) (Some ''a b c d e f g 5'') (1 / 200)" "measured (CHR 0x00) (Some ''a b c d e f g 4'') (1 / 250)"
    by code_simp+
  ultimately show "measured (CHR 0x00) (demo_shell (iozone_command ''x'' '' -i0'' dir k)) (1 / 200)"
    "measured (CHR 0x00) (demo_shell (iozone_command ''x'' '' -i1'' dir k)) (1 / 250)" by simp_all
qed

definition demo_bench :: "((string \<times> nat) list, string) dtn_module" where
  "demo_bench = demo_module\<lparr>dm_host := demo_host\<lparr>h_popen := (\<lambda>cmd w. (demo_shell cmd, w))\<rparr>, dm_storages := [(1, (new_storage JNull)\<lparr>st_exe := ''x''\<rparr>)]\<rparr>"

lemma slow_reads_report_zero_witness:
  "\<exists>m' y. get_potential_bandwidth 1 ''/dev/sda'' ''/d'' demo_bench = (Inr 0, m') \<and>
     map_of (dm_storages m') 1 = Some y \<and> jget (st_jbase y) [K ''/dev/sda'', K ''potential_read_bandwidth''] = Some (JReal 0)"
proof -
  have "\<exists>m' y. get_potential_bandwidth 1 ''/dev/sda'' ''/d'' demo_bench = (Inr 0, m') \<and> map_of (dm_storages m') 1 = Some y \<and>
      jget (st_jbase y) [K ''/dev/sda'', K ''potential_read_bandwidth''] = Some (JReal 0) \<and>
      jget (st_jbase y) [K ''/dev/sda'', K ''potential_write_bandwidth''] = Some (JReal (fold max (map (\<lambda>k. 1 / 200) [0..<8]) 0))"
    by (rule slow_reads_report_zero [where out = demo_shell and x = "(new_storage JNull)\<lparr>st_exe := ''x''\<rparr>" and wr = "\<lambda>k. 1 / 200" and rd = "\<lambda>k. 1 / 250"])
       (simp_all add: demo_bench_def new_storage_def demo_shell_measured demo_host_def)
  then show ?thesis by blast
qed

section \<open>Storage modules of a process\<close>

text \<open>Actions on the module that leave the storage modules alone, or all but one.\<close>

interpretation ss: action_order "\<lambda>m m'. dm_storages m' = dm_storages m"
  by unfold_locales simp_all

interpretation so: action_order "\<lambda>m m'. \<forall>j. j \<noteq> i \<longrightarrow> map_of (dm_storages m') j = map_of (dm_storages m) j" for i
  by unfold_locales simp_all

lemma ss_ops [frame_intros]:
  "ss.moves (dtn_upd f)" "ss.moves (dtn_part g)" "ss.moves (store_a ops)" "ss.moves (series_a p)" "ss.moves (world_upd h)" "ss.moves (st_get i)"
  by (auto simp: ss.moves_def dtn_upd_def dtn_part_def store_a_def series_a_def world_upd_def st_get_def Let_def split: prod.splits)

lemma ss_config: "ss.moves (check_configuration conf)"
proof -
  have "ss.moves (check_folders conf)" "ss.moves (check_interfaces conf)" "ss.moves (check_program conf)" "ss.moves (check_flags conf)"
    unfolding check_folders_def check_interfaces_def check_program_def check_flags_def by (intro frame_intros; simp)+
  then show ?thesis unfolding check_configuration_def by (intro frame_intros) auto
qed

lemma ss_mkdtemp [frame_intros]: "ss.moves (mkdtemp_a t e)"
  unfolding mkdtemp_a_def by (intro frame_intros) (auto intro!: ss.moves_pure split: sum.splits)

lemma ss_iozone [frame_intros]: "ss.moves (iozone_folder ps)"
proof (induction ps)
  case (Cons p ps)
  then show ?case unfolding iozone_folder.simps get_iozone_work_folder_def Let_def by (intro frame_intros)
qed (simp add: ss.moves_pure)

lemma ss_scan: "ss.moves scan_data_folder"
  unfolding scan_data_folder_def scan_folder_def by (intro frame_intros) simp

lemma so_from_ss: "ss.moves f \<Longrightarrow> so.moves i f"
  by (simp add: ss.moves_def so.moves_def)

lemma so_ops [frame_intros]: "so.moves i (st_upd i f)" "so.moves i (st_get j)" "so.moves i (world_upd h)" "so.moves i (store_a ops)" "so.moves i (series_a p)"
  by (simp add: so.moves_def st_upd_def option.map_ident) (intro so_from_ss ss_ops)+

lemma so_cmd [frame_intros]: "so.moves i (run_cmd cmd)" "so.moves i (words_a line)" "so.moves i (jbase_set i d k v)" "so.moves i (root_mounts p)" "so.moves i (common_device ds)"
  unfolding run_cmd_def words_a_def jbase_set_def root_mounts_def common_device_def Let_def by (intro frame_intros)+

lemma so_measure [frame_intros]:
  "so.moves i (get_usage cmd ps i d)" "so.moves i (settle_device i)" "so.moves i (get_realtime_bandwidth i d)" "so.moves i (scan_stats i)"
  unfolding get_usage_def settle_device_def get_realtime_bandwidth_def scan_stats_def
  by (intro frame_intros; auto intro!: frame_intros split: list.splits option.splits)+

lemma so_local_init: "so.moves i (local_init i)"
  unfolding local_init_def by (intro frame_intros)

text \<open>The same for actions on the manager.\<close>

interpretation ma: action_order "\<lambda>s t :: ('w, 'c) dtn_module am. \<forall>j. j \<noteq> i \<longrightarrow> map_of (dm_storages (am_mods t)) j = map_of (dm_storages (am_mods s)) j" for i
  by unfold_locales simp_all

text \<open>Storage modules that no bootstrap has given a work folder; each belongs to a module of the manager.\<close>

definition no_work_folders :: "('w, 'c) dtn_module am \<Rightarrow> bool" where
  "no_work_folders s \<longleftrightarrow> list_all (\<lambda>(k, x). k < length (mstore s) \<and> st_test_dir x = []) (dm_storages (am_mods s))"

interpretation nw: action_order "\<lambda>s t :: ('w, 'c) dtn_module am. no_work_folders s \<longrightarrow> no_work_folders t"
  by unfold_locales simp_all

lemma ma_ops [frame_intros]:
  "ma.moves i (set_prop_at k key v)" "ma.moves i (set_prop k key v)" "ma.moves i (set_stage k n)"
  "ma.moves i (update_id k new)" "ma.moves i (update_name k new)"
  unfolding set_prop_def set_prop_at_def set_stage_def update_id_def update_name_def by (intro frame_intros; simp add: on_module_def)+

lemma nw_ops [frame_intros]:
  "nw.moves (set_prop_at k key v)" "nw.moves (set_stage k n)" "nw.moves (update_id k new)" "nw.moves (update_name k new)" "nw.moves (am_add a)"
  unfolding set_prop_at_def set_stage_def update_id_def update_name_def am_add_def
  by (intro frame_intros; auto simp: on_module_def no_work_folders_def list_all_iff)+

lemma mods_a_snd: "am_mods (snd (mods_a f s)) = snd (f (am_mods s))"
  by (simp add: mods_a_def split: prod.splits)

lemma mods_a_store: "mstore (snd (mods_a f s)) = mstore s"
  by (simp add: mods_a_def split: prod.splits)

lemma ma_mods: "so.moves i f \<Longrightarrow> ma.moves i (mods_a f)"
  using so.movesD [of i f] unfolding ma.moves_def mods_a_snd by blast

lemma nw_mods: "ss.moves f \<Longrightarrow> nw.moves (mods_a f)"
  using ss.movesD [of f] unfolding nw.moves_def by (simp add: mods_a_snd mods_a_store no_work_folders_def)

lemma nw_add_storage [frame_intros]: "nw.moves (add_storage sid sname stype device paths)"
proof -
  have "no_work_folders (snd (add_storage sid sname stype device paths s))" if old: "no_work_folders s" for s :: "('w, 'c) dtn_module am"
  proof (cases "manage (am_queue s) (new_agent sid sname (if stype = ''local'' then ''LocalStorage'' else ''SharedStorage''))")
    case (Inr a)
    then show ?thesis using old
      by (auto simp: add_storage_def am_add_def bind_a_run mods_a_def no_work_folders_def new_storage_def list_all_iff)
  qed (use old in \<open>simp add: add_storage_def am_add_def bind_a_run\<close>)
  then show ?thesis unfolding nw.moves_def by blast
qed

lemma nw_bootstrap: "nw.moves (dtn_bootstrap i)"
proof -
  have "nw.moves (init_storage_agent i p)" for p
    unfolding init_storage_agent_def
    by (intro frame_intros nw_mods; simp)
  moreover have "nw.moves (mods_a (bind_a (get_a dm_conf) check_configuration))" "nw.moves (mods_a (bind_a (get_a dm_scan) (\<lambda>scan. when_a scan scan_data_folder)))"
    by (intro nw_mods frame_intros ss_config ss_scan)+
  moreover have "nw.moves (\<lambda>s. (if my_id i s = [] then update_id i (ask_host h_first_mac (am_mods s)) else ret_a ()) s)"
    "nw.moves (\<lambda>s. update_name i (case ask_host h_name (am_mods s) of Some n \<Rightarrow> n | None \<Rightarrow> my_id i s) s)"
    by (rule nw.moves_state, intro frame_intros)+
  ultimately show ?thesis unfolding dtn_bootstrap_def init_storage_agents_def by (intro frame_intros)
qed

lemma ma_start:
  "ma.moves i (dtn_init k)" "ma.moves i (dtn_registration k)" "ma.moves i (shared_registration k)" "ma.moves i (local_registration k)"
proof -
  have part: "ma.moves i (mods_a (dtn_part f))" for i f by (intro ma_mods so_from_ss ss_ops)
  show "ma.moves i (dtn_init k)" unfolding dtn_init_def by (rule part)
  have "ma.moves i (register_dtn k)"
    unfolding register_dtn_def by (intro frame_intros) (rule ma.moves_state, intro ma_mods frame_intros)
  moreover have "ma.moves i (register_all_sdmaps k)"
    unfolding register_all_sdmaps_def by (rule ma.moves_state) (intro ma_mods frame_intros)
  moreover have "ma.moves i (set_dtn_properties k)"
    unfolding set_dtn_properties_def by (intro frame_intros) (rule ma.moves_state, intro frame_intros)+
  ultimately show "ma.moves i (dtn_registration k)" unfolding dtn_registration_def by (intro frame_intros) auto
  have "so.moves i (reg_local_storage v)" for v unfolding reg_local_storage_def by (intro frame_intros)
  then show "ma.moves i (shared_registration k)" "ma.moves i (local_registration k)"
    unfolding shared_registration_def local_registration_def by (intro frame_intros ma_mods; assumption?)+
qed

abbreviation process_hooks :: "('w, 'c) dtn_module hooks" where
  "process_hooks \<equiv> dtn_hooks storage_hooks"

abbreviation storage_of :: "('w, 'c) dtn_module am \<Rightarrow> nat \<Rightarrow> storage_mod option" where
  "storage_of s k \<equiv> map_of (dm_storages (am_mods s)) k"

lemma init_step:
  assumes "do_init process_hooks i u = (Inr (), v)" and "\<forall>x. storage_of u i = Some x \<longrightarrow> st_test_dir x = []"
  shows "(\<forall>j. j \<noteq> i \<longrightarrow> storage_of v j = storage_of u j) \<and>
     (ag_type (mstore u ! i) = ''SharedStorage'' \<longrightarrow> (\<forall>x. storage_of v i = Some x \<longrightarrow> \<not> st_active x))"
proof -
  consider (dtn) "dtn_init i u = (Inr (), v)" "ag_type (mstore u ! i) = ''DTN''"
    | (shared) "shared_init i u = (Inr (), v)"
    | (local) "mods_a (local_init i) u = (Inr (), v)" "ag_type (mstore u ! i) \<noteq> ''SharedStorage''"
    using assms(1) by (auto simp: dtn_hooks_def by_type_def storage_hooks_def by_kind_def split: if_splits)
  then show ?thesis
  proof cases
    case dtn
    then show ?thesis using ma.movesD [OF ma_start(1) [of i i], of u] by simp
  next
    case shared
    obtain x where x: "storage_of u i = Some x"
      using shared by (cases "storage_of u i") (auto simp: shared_init_def st_get_def mods_a_def bind_a_run opt_r_def)
    then have "v = u\<lparr>am_mods := (am_mods u)\<lparr>dm_storages := on_entry i (\<lambda>x. x\<lparr>st_active := False\<rparr>) (dm_storages (am_mods u))\<rparr>\<rparr>"
      using shared assms(2) by (simp add: shared_init_def st_get_def mods_a_def bind_a_run st_upd_def)
    then show ?thesis using x by (auto simp: option.map_ident)
  next
    case local
    then show ?thesis using ma.movesD [OF ma_mods [OF so_local_init [of i]], of u] by simp
  qed
qed

lemma registration_step:
  assumes "do_registration process_hooks i u = (Inr (), v)"
  shows "storage_of v j = storage_of u j"
proof -
  consider "dtn_registration i u = (Inr (), v)" | "shared_registration i u = (Inr (), v)" | "local_registration i u = (Inr (), v)"
    using assms by (auto simp: dtn_hooks_def by_type_def storage_hooks_def by_kind_def split: if_splits)
  then show ?thesis
    by cases (use ma.movesD [OF ma_start(2) [of "Suc j" i], of u] ma.movesD [OF ma_start(3) [of "Suc j" i], of u] ma.movesD [OF ma_start(4) [of "Suc j" i], of u] in auto)
qed

lemma type_kept: "k < length (mstore s) \<Longrightarrow> ag_type (mstore (on_module i (\<lambda>a. a\<lparr>ag_stage := n\<rparr>) s) ! k) = ag_type (mstore s ! k)"
  by (cases "k = i") (simp_all add: on_module_def)

lemma length_kept: "length (mstore (on_module i f s)) = length (mstore s)"
  by (simp add: on_module_def)

text \<open>While the modules start: those not yet reached have no work folder, and the shared ones that have started are not active.\<close>

definition started_upto :: "nat \<Rightarrow> nat \<Rightarrow> ('w, 'c) dtn_module am \<Rightarrow> bool" where
  "started_upto n i u \<longleftrightarrow> (\<forall>k x. storage_of u k = Some x \<longrightarrow>
     (if k < i then ag_type (mstore u ! k) = ''SharedStorage'' \<longrightarrow> \<not> st_active x else k < n \<and> st_test_dir x = []))"

lemma start_step:
  assumes "bind_a (ag_init process_hooks i) (\<lambda>_. ag_registration process_hooks i) u = (Inr (), w)" and "i < length (mstore u)" and "started_upto n i u"
  shows "started_upto n (Suc i) w \<and> length (mstore u) \<le> length (mstore w)"
proof -
  obtain v v' where v: "do_init process_hooks i u = (Inr (), v)" and v': "do_registration process_hooks i (on_module i (\<lambda>a. a\<lparr>ag_stage := 2\<rparr>) v) = (Inr (), v')"
    and w: "w = on_module i (\<lambda>a. a\<lparr>ag_stage := 3\<rparr>) v'"
    using assms(1) by (auto simp: ag_init_def ag_registration_def set_stage_def bind_a_Inr_iff)
  have f: "module_frame u v" "module_frame (on_module i (\<lambda>a. a\<lparr>ag_stage := 2\<rparr>) v) v'"
    using dtn.hook_frame [of i u _ v] dtn.hook_frame [of i "on_module i (\<lambda>a. a\<lparr>ag_stage := 2\<rparr>) v" _ v'] v v' by auto
  have types: "ag_type (mstore w ! k) = ag_type (mstore u ! k)" if "k < length (mstore u)" for k
    using f that by (simp add: w module_frame_def type_kept length_kept)
  have same: "storage_of w j = storage_of v j" for j
    using registration_step [OF v', of j] by (simp add: w on_module_def)
  have fresh: "\<forall>x. storage_of u i = Some x \<longrightarrow> st_test_dir x = []" using assms(3) by (simp add: started_upto_def)
  have step: "(if k < Suc i then ag_type (mstore w ! k) = ''SharedStorage'' \<longrightarrow> \<not> st_active x else k < n \<and> st_test_dir x = [])"
    if "storage_of w k = Some x" for k x
  proof (cases "k = i")
    case True
    then show ?thesis using init_step [OF v fresh] that same [of i] types [OF assms(2)] by simp
  next
    case False
    then have "storage_of u k = Some x" using init_step [OF v fresh] that same [of k] by simp
    then have old: "(if k < i then ag_type (mstore u ! k) = ''SharedStorage'' \<longrightarrow> \<not> st_active x else k < n \<and> st_test_dir x = [])"
      using assms(3) unfolding started_upto_def by blast
    show ?thesis using old False assms(2) types [of k] by (auto simp: less_Suc_eq)
  qed
  have "length (mstore u) \<le> length (mstore w)" using f by (simp add: w module_frame_def length_kept)
  then show ?thesis using step unfolding started_upto_def by blast
qed

lemma append_module_frame: "append_module i s = (Inr (), t) \<Longrightarrow> am_mods t = am_mods s \<and> mstore t = mstore s"
  by (auto simp: append_module_def bind_a_Inr_iff)

lemma append_module_kept:
  assumes "each_module append_module v = (Inr (), w)"
  shows "am_mods w = am_mods v \<and> mstore w = mstore v"
  by (rule each_module_upto [OF assms, where P = "\<lambda>i s. am_mods s = am_mods v \<and> mstore s = mstore v"]) (use append_module_frame in fastforce)+

lemma bootstrap_first:
  assumes "each_module (ag_bootstrap process_hooks) a = (Inr (), u)" and "mstore a = [d]" and "ag_type d = ''DTN''" and "no_work_folders a"
  shows "no_work_folders u"
proof -
  let ?P = "\<lambda>i s. if i = 0 then s = a else no_work_folders s"
  have "?P (length (mstore a)) u"
  proof (rule each_module_upto [OF assms(1), where P = ?P])
    fix i s t
    assume i: "i < length (mstore a)" and "?P i s" and run: "ag_bootstrap process_hooks i s = (Inr (), t)"
    then have "s = a" using assms(2) by simp
    then obtain v where v: "dtn_bootstrap i a = (Inr (), v)" "t = on_module i (\<lambda>x. x\<lparr>ag_stage := 1\<rparr>) v"
      using run i assms(2,3) by (auto simp: ag_bootstrap_def dtn_hooks_def by_type_def set_stage_def bind_a_Inr_iff)
    then show "?P (Suc i) t" using nw.movesD [OF nw_bootstrap, of a i] assms(4) by (simp add: on_module_def no_work_folders_def)
  qed simp
  then show ?thesis using assms(2) by simp
qed

lemma all_started:
  assumes "each_module (\<lambda>i. bind_a (ag_init process_hooks i) (\<lambda>_. ag_registration process_hooks i)) u = (Inr (), v)" and "no_work_folders u"
  shows "started_upto (length (mstore u)) (length (mstore u)) v"
proof -
  let ?P = "\<lambda>i s. started_upto (length (mstore u)) i s \<and> length (mstore u) \<le> length (mstore s)"
  have "?P (length (mstore u)) v"
  proof (rule each_module_upto [OF assms(1), where P = ?P])
    show "?P 0 u" using assms(2) by (auto simp: started_upto_def no_work_folders_def list_all_iff dest!: map_of_SomeD)
  qed (use start_step in fastforce)
  then show ?thesis ..
qed

text \<open>
  C31: the shared storage agents of a data transfer node are dead. A process that starts with the one module of a data transfer node
  adds storage modules while it bootstraps, after the loop over the modules has fixed its end; so the bootstrap of
  a shared storage agent is never run, its initialisation finds no work folder and switches it off, and every command
  sent to it makes a string from a null pointer.
\<close>

theorem shared_storage_dead:
  assumes "prepare process_hooks a = (Inr (), b)" and "mstore a = [d]" and "ag_type d = ''DTN''" and "dm_storages (am_mods a) = []"
    and "i < length (mstore b)" and "ag_type (mstore b ! i) = ''SharedStorage''"
  shows "fst (run_am_task process_hooks (T_command i cmd params props) b) = Inl Undefined"
proof -
  obtain u v w where u: "each_module (ag_bootstrap process_hooks) a = (Inr (), u)"
    and v: "each_module (\<lambda>i. bind_a (ag_init process_hooks i) (\<lambda>_. ag_registration process_hooks i)) (u\<lparr>am_subs := am_subs u @ [(am_queue u, 2)]\<rparr>) = (Inr (), v)"
    and w: "each_module append_module v = (Inr (), w)" and b: "b = w\<lparr>am_will := Some (reg_topic w, de_reg_val w)\<rparr>"
    using assms(1) by (auto simp: prepare_def bind_a_Inr_iff)
  have eqs: "am_mods b = am_mods v" "mstore b = mstore v" using append_module_kept [OF w] by (simp_all add: b)
  have "no_work_folders (u\<lparr>am_subs := am_subs u @ [(am_queue u, 2)]\<rparr>)"
    using bootstrap_first [OF u assms(2,3)] assms(4) by (simp add: no_work_folders_def)
  from all_started [OF v this] have "started_upto (length (mstore u)) (length (mstore u)) v" by simp
  then have st: "started_upto (length (mstore u)) (length (mstore u)) b"
    unfolding started_upto_def eqs .
  have act: "\<not> st_active x" if "storage_of b i = Some x" for x
    using st [unfolded started_upto_def, rule_format, OF that] assms(6) by (simp split: if_split_asm)
  have "fst (shared_command i cmd b) = Inl Undefined"
    using act by (cases "storage_of b i") (auto simp: shared_command_def st_get_def mods_a_def bind_a_run opt_r_def)
  then have "fst (do_command process_hooks i cmd params b) = Inl Undefined"
    using assms(6) by (simp add: dtn_hooks_def storage_hooks_def by_type_def by_kind_def)
  then show ?thesis by (cases "do_command process_hooks i cmd params b") (simp add: bind_a_run)
qed


definition demo_shared :: "((string \<times> nat) list, string) dtn_module am" where
  "demo_shared =
     (case AgentManager ''c1'' ''localhost'' 1883 [] [] []
        (demo_module\<lparr>dm_conf := jobj [(''id'', JStr ''dtn1''), (''management_interface'', JStr ''m0''), (''data_interfaces'', JStr ''d0''),
     (''data_folders'', jobj [(''path'', JStr ''/data''), (''scan'', JBool True)]),
     (''data_transfer_program'', jobj [(''path'', JStr ''mdtm-ftp-server''), (''args'', jarr [JStr ''-p'', JStr ''5''])]), (''shared_storage_agent'', jobj [(''Lustre MGS'', JStr ''mgs'')])]\<rparr>) of
      Inr a \<Rightarrow> snd (am_add (new_agent ''dtn1'' [] ''DTN'') a))"

lemma demo_shared_facts:
  "(case prepare process_hooks demo_shared of (r, b) \<Rightarrow> (r, map ag_type (mstore b))) = (Inr (), [''DTN'', ''SharedStorage''])"
  by code_simp


theorem shared_storage_dead_witness:
  "\<exists>b. prepare process_hooks demo_shared = (Inr (), b) \<and> map ag_type (mstore b) = [''DTN'', ''SharedStorage''] \<and>
     fst (run_am_task process_hooks (T_command 1 ''get_usage'' JNull demo_props) b) = Inl Undefined"
proof -
  obtain b where b: "prepare process_hooks demo_shared = (Inr (), b)" "map ag_type (mstore b) = [''DTN'', ''SharedStorage'']"
    using demo_shared_facts by (cases "prepare process_hooks demo_shared") auto
  have a: "map ag_type (mstore demo_shared) = [''DTN'']" "dm_storages (am_mods demo_shared) = []"
    by code_simp+
  have i: "1 < length (mstore b)" "ag_type (mstore b ! 1) = ''SharedStorage''"
    using b(2) by (auto simp: map_eq_Cons_conv)
  obtain d where d: "mstore demo_shared = [d]" "ag_type d = ''DTN''" using a(1) by auto
  show ?thesis by (intro exI [of _ b] conjI b shared_storage_dead [OF b(1) d a(2) i])
qed

end
