(* ===== verification/Json_Text.thy ===== *)
theory Json_Text
  imports Json_Value Utils
begin

text \<open>
  JSON as text, \<open>src/utils/jsoncpp.cc\<close>: \<open>FastWriter\<close>, which writes every message and database document, and \<open>Reader\<close> with the
  features of \<open>Features::all()\<close>, which reads them. The position in the document is the rest of the text from there on.
  Comments are skipped, not attached to values; the list of errors is not kept, only that there was one.
\<close>

section \<open>The writer\<close>

definition upper_hex :: "nat \<Rightarrow> char" where
  "upper_hex n = char_of (if n < 10 then n + 48 else n + 55)"

definition isControlCharacter :: "char \<Rightarrow> bool" where
  "isControlCharacter c \<longleftrightarrow> 0 < (of_char c :: nat) \<and> (of_char c :: nat) \<le> 31"

text \<open>\<open>std::hex << std::uppercase << std::setfill('0') << std::setw(4)\<close> of a character below 32.\<close>

definition escape_char :: "char \<Rightarrow> string" where
  "escape_char c =
     (if c = CHR 0x22 then [CHR 0x5C, CHR 0x22]
      else if c = CHR 0x5C then [CHR 0x5C, CHR 0x5C]
      else if c = CHR 0x08 then [CHR 0x5C, CHR ''b'']
      else if c = CHR 0x0C then [CHR 0x5C, CHR ''f'']
      else if c = CHR 0x0A then [CHR 0x5C, CHR ''n'']
      else if c = CHR 0x0D then [CHR 0x5C, CHR ''r'']
      else if c = CHR 0x09 then [CHR 0x5C, CHR ''t'']
      else if isControlCharacter c \<or> c = CHR 0x00
        then [CHR 0x5C, CHR ''u'', CHR ''0'', CHR ''0'', upper_hex (of_char c div 16), upper_hex (of_char c mod 16)]
      else [c])"

definition valueToQuotedStringN :: "string \<Rightarrow> string" where
  "valueToQuotedStringN value =
     (if list_all (\<lambda>c. c \<notin> {CHR 0x22, CHR 0x5C, CHR 0x08, CHR 0x0C, CHR 0x0A, CHR 0x0D, CHR 0x09} \<and> \<not> isControlCharacter c \<and> c \<noteq> CHR 0x00) value
      then CHR 0x22 # value @ [CHR 0x22]
      else CHR 0x22 # concat (map escape_char value) @ [CHR 0x22])"

fun comma_separated :: "string list \<Rightarrow> string" where
  "comma_separated [] = []"
| "comma_separated [x] = x"
| "comma_separated (x # y # xs) = x @ '','' @ comma_separated (y # xs)"

text \<open>Elements of an array that were never set are written as null.\<close>

fun writeValue :: "json \<Rightarrow> string" where
  "writeValue JNull = ''null''"
| "writeValue (JInt n) = valueToString_int n"
| "writeValue (JUInt n) = valueToString_uint n"
| "writeValue (JReal x) = valueToString_double x"
| "writeValue (JStr s) = valueToQuotedStringN s"
| "writeValue (JBool b) = (if b then ''true'' else ''false'')"
| "writeValue (JArr m) =
     (let ts = map (\<lambda>(i, v). (i, writeValue v)) m
      in ''['' @ comma_separated (map (\<lambda>i. case map_of ts i of None \<Rightarrow> ''null'' | Some t \<Rightarrow> t) [0..<jsize (JArr m)]) @ '']'')"
| "writeValue (JObj m) = ''{'' @ comma_separated (map (\<lambda>(k, v). valueToQuotedStringN k @ '':'' @ writeValue v) m) @ ''}''"

definition fast_write :: "json \<Rightarrow> string" where
  "fast_write v = writeValue v @ [CHR 0x0A]"

section \<open>Tokens\<close>

datatype token_type = TEnd | TObjectBegin | TObjectEnd | TArrayBegin | TArrayEnd | TString | TNumber | TTrue | TFalse | TNull
  | TArraySeparator | TMemberSeparator | TComment | TError

definition is_json_space :: "char \<Rightarrow> bool" where
  "is_json_space c \<longleftrightarrow> c = CHR '' '' \<or> c = CHR 0x09 \<or> c = CHR 0x0D \<or> c = CHR 0x0A"

definition skipSpaces :: "string \<Rightarrow> string" where
  "skipSpaces = dropWhile is_json_space"

text \<open>\<open>readString\<close> and the comments give whether the token is complete, and the rest; the caller knows the text read.\<close>

fun readString :: "string \<Rightarrow> bool \<times> string" where
  "readString [] = (False, [])"
| "readString [c] = (c = CHR 0x22, [])"
| "readString (c # d # s) = (if c = CHR 0x5C then readString s else if c = CHR 0x22 then (True, d # s) else readString (d # s))"

fun readCStyleComment :: "string \<Rightarrow> bool \<times> string" where
  "readCStyleComment [] = (False, [])"
| "readCStyleComment [c] = (False, [])"
| "readCStyleComment (c # d # s) = (if c = CHR ''*'' \<and> d = CHR ''/'' then (True, s) else readCStyleComment (d # s))"

fun readCppStyleComment :: "string \<Rightarrow> string" where
  "readCppStyleComment [] = []"
| "readCppStyleComment (c # s) =
     (if c = CHR 0x0A then s
      else if c = CHR 0x0D then (case s of d # t \<Rightarrow> if d = CHR 0x0A then t else s | [] \<Rightarrow> [])
      else readCppStyleComment s)"

definition readComment :: "string \<Rightarrow> bool \<times> string" where
  "readComment s =
     (case s of
        [] \<Rightarrow> (False, [])
      | c # t \<Rightarrow> if c = CHR ''*'' then readCStyleComment t else if c = CHR ''/'' then (True, readCppStyleComment t) else (False, t))"

definition match_word :: "string \<Rightarrow> string \<Rightarrow> bool \<times> string" where
  "match_word pat s = (if take (length pat) s = pat then (True, drop (length pat) s) else (False, s))"

definition skip_digits :: "string \<Rightarrow> string" where
  "skip_digits = dropWhile is_digit"

definition after_point :: "string \<Rightarrow> string" where
  "after_point s = (case s of c # t \<Rightarrow> if c = CHR ''.'' then skip_digits t else s | [] \<Rightarrow> [])"

definition after_sign :: "string \<Rightarrow> string" where
  "after_sign s = (case s of c # t \<Rightarrow> if c = CHR ''+'' \<or> c = CHR ''-'' then t else s | [] \<Rightarrow> [])"

definition after_exponent :: "string \<Rightarrow> string" where
  "after_exponent s = (case s of c # t \<Rightarrow> if c = CHR ''e'' \<or> c = CHR ''E'' then skip_digits (after_sign t) else s | [] \<Rightarrow> [])"

definition readNumber :: "string \<Rightarrow> string" where
  "readNumber s = after_exponent (after_point (skip_digits s))"

definition token_if :: "token_type \<Rightarrow> bool \<times> string \<Rightarrow> token_type \<times> string" where
  "token_if ty = (\<lambda>(ok, s). (if ok then ty else TError, s))"

definition token_at :: "char \<Rightarrow> string \<Rightarrow> token_type \<times> string" where
  "token_at c s =
     (if c = CHR ''{'' then (TObjectBegin, s)
      else if c = CHR ''}'' then (TObjectEnd, s)
      else if c = CHR ''['' then (TArrayBegin, s)
      else if c = CHR '']'' then (TArrayEnd, s)
      else if c = CHR 0x22 then token_if TString (readString s)
      else if c = CHR ''/'' then token_if TComment (readComment s)
      else if is_digit c \<or> c = CHR ''-'' then (TNumber, readNumber s)
      else if c = CHR ''t'' then token_if TTrue (match_word ''rue'' s)
      else if c = CHR ''f'' then token_if TFalse (match_word ''alse'' s)
      else if c = CHR ''n'' then token_if TNull (match_word ''ull'' s)
      else if c = CHR '','' then (TArraySeparator, s)
      else if c = CHR '':'' then (TMemberSeparator, s)
      else if c = CHR 0x00 then (TEnd, s)
      else (TError, s))"

text \<open>\<open>readToken\<close> gives the type, the text from \<open>start_\<close> to \<open>end_\<close>, and the rest.\<close>

definition readToken :: "string \<Rightarrow> token_type \<times> string \<times> string" where
  "readToken s =
     (case skipSpaces s of
        [] \<Rightarrow> (TEnd, [], [])
      | c # t \<Rightarrow> let (ty, r) = token_at c t in (ty, take (Suc (length t) - length r) (c # t), r))"

lemma readString_length: "length (snd (readString s)) \<le> length s"
  by (induction s rule: readString.induct) auto

lemma readCStyleComment_length: "length (snd (readCStyleComment s)) \<le> length s"
  by (induction s rule: readCStyleComment.induct) auto

lemma readCppStyleComment_length: "length (readCppStyleComment s) \<le> length s"
proof (induction s)
  case (Cons c s)
  then show ?case by (cases s) auto
qed simp

lemma readComment_length: "length (snd (readComment s)) \<le> length s"
proof (cases s)
  case (Cons c t)
  then show ?thesis using readCStyleComment_length [of t] readCppStyleComment_length [of t] by (simp add: readComment_def)
qed (simp add: readComment_def)

lemma skip_digits_length: "length (skip_digits s) \<le> length s"
  by (simp add: skip_digits_def length_dropWhile_le)

lemma after_point_length: "length (after_point s) \<le> length s"
  using skip_digits_length by (cases s) (auto simp: after_point_def intro: le_SucI)

lemma after_sign_length: "length (after_sign s) \<le> length s"
  by (cases s) (auto simp: after_sign_def)

lemma after_exponent_length: "length (after_exponent s) \<le> length s"
proof (cases s)
  case (Cons c t)
  then show ?thesis using skip_digits_length [of "after_sign t"] after_sign_length [of t] by (simp add: after_exponent_def)
qed (simp add: after_exponent_def)

lemma readNumber_length: "length (readNumber s) \<le> length s"
  using after_point_length [of "skip_digits s"] after_exponent_length [of "after_point (skip_digits s)"] skip_digits_length [of s]
  by (simp add: readNumber_def)

lemma token_at_length: "length (snd (token_at c s)) \<le> length s"
  using readString_length [of s] readComment_length [of s] readNumber_length [of s]
  by (cases "readString s"; cases "readComment s") (simp add: token_at_def token_if_def match_word_def)

lemma readToken_length:
  assumes "readToken s = (ty, tx, r)" and "ty \<noteq> TEnd"
  shows "length r < length s"
proof (cases "skipSpaces s")
  case (Cons c t)
  then have "length (c # t) \<le> length s" using length_dropWhile_le [of is_json_space s] by (simp add: skipSpaces_def)
  then show ?thesis using assms Cons token_at_length [of c t] by (auto simp: readToken_def split: prod.splits)
qed (use assms in \<open>simp add: readToken_def\<close>)

lemma readToken_length_le: "readToken s = (ty, tx, r) \<Longrightarrow> length r \<le> length s"
proof (cases "skipSpaces s")
  case (Cons c t)
  assume "readToken s = (ty, tx, r)"
  moreover have "length (c # t) \<le> length s" using length_dropWhile_le [of is_json_space s] Cons by (simp add: skipSpaces_def)
  ultimately show ?thesis using Cons token_at_length [of c t] by (auto simp: readToken_def split: prod.splits)
qed (simp add: readToken_def)

function skipCommentTokens :: "string \<Rightarrow> token_type \<times> string \<times> string" where
  "skipCommentTokens s = (case readToken s of (ty, text, r) \<Rightarrow> if ty = TComment then skipCommentTokens r else (ty, text, r))"
  by pat_completeness auto
termination
  by (relation "measure length") (auto dest: readToken_length [OF sym])

declare skipCommentTokens.simps [simp del]

function recoverFromError :: "token_type \<Rightarrow> string \<Rightarrow> string" where
  "recoverFromError skipUntil s =
     (case readToken s of (ty, text, r) \<Rightarrow> if ty = skipUntil \<or> ty = TEnd then r else recoverFromError skipUntil r)"
  by pat_completeness auto
termination
  by (relation "measure (length \<circ> snd)") (auto dest: readToken_length [OF sym])

declare recoverFromError.simps [simp del]

section \<open>Strings and numbers\<close>

definition codePointToUTF8 :: "nat \<Rightarrow> string" where
  "codePointToUTF8 cp =
     (if cp \<le> 0x7F then [char_of cp]
      else if cp \<le> 0x7FF then [char_of (0xC0 + cp div 64 mod 32), char_of (0x80 + cp mod 64)]
      else if cp \<le> 0xFFFF then [char_of (0xE0 + cp div 4096 mod 16), char_of (0x80 + cp div 64 mod 64), char_of (0x80 + cp mod 64)]
      else if cp \<le> 0x10FFFF then
        [char_of (0xF0 + cp div 262144 mod 8), char_of (0x80 + cp div 4096 mod 64), char_of (0x80 + cp div 64 mod 64), char_of (0x80 + cp mod 64)]
      else [])"

definition hex_value :: "char \<Rightarrow> nat option" where
  "hex_value c =
     (let n = of_char c
      in if 48 \<le> n \<and> n \<le> 57 then Some (n - 48) else if 97 \<le> n \<and> n \<le> 102 then Some (n - 87)
         else if 65 \<le> n \<and> n \<le> 70 then Some (n - 55) else None)"

fun hex_number :: "nat \<Rightarrow> string \<Rightarrow> nat option" where
  "hex_number acc [] = Some acc"
| "hex_number acc (c # s) = (case hex_value c of None \<Rightarrow> None | Some d \<Rightarrow> hex_number (16 * acc + d) s)"

definition decodeUnicodeEscapeSequence :: "string \<Rightarrow> (nat \<times> string) option" where
  "decodeUnicodeEscapeSequence s = (if length s < 4 then None else map_option (\<lambda>u. (u, drop 4 s)) (hex_number 0 (take 4 s)))"

definition decodeUnicodeCodePoint :: "string \<Rightarrow> (nat \<times> string) option" where
  "decodeUnicodeCodePoint s =
     (case decodeUnicodeEscapeSequence s of
        None \<Rightarrow> None
      | Some (u, r) \<Rightarrow>
          if 0xD800 \<le> u \<and> u \<le> 0xDBFF then
            if length r < 6 then None
            else if take 2 r = [CHR 0x5C, CHR ''u''] then
              map_option (\<lambda>(p, r'). (0x10000 + (u mod 1024) * 1024 + p mod 1024, r')) (decodeUnicodeEscapeSequence (drop 2 r))
            else None
          else Some (u, r))"

lemma decodeUnicodeEscapeSequence_length: "decodeUnicodeEscapeSequence s = Some (u, r) \<Longrightarrow> length r < length s"
  by (auto simp: decodeUnicodeEscapeSequence_def split: if_splits)

lemma decodeUnicodeCodePoint_length: "decodeUnicodeCodePoint s = Some (u, r) \<Longrightarrow> length r < length s"
  by (fastforce simp: decodeUnicodeCodePoint_def split: option.splits if_splits prod.splits dest: decodeUnicodeEscapeSequence_length)

definition unescape :: "char \<Rightarrow> char option" where
  "unescape e =
     (if e = CHR 0x22 \<or> e = CHR ''/'' \<or> e = CHR 0x5C then Some e
      else if e = CHR ''b'' then Some (CHR 0x08) else if e = CHR ''f'' then Some (CHR 0x0C)
      else if e = CHR ''n'' then Some (CHR 0x0A) else if e = CHR ''r'' then Some (CHR 0x0D)
      else if e = CHR ''t'' then Some (CHR 0x09) else None)"

text \<open>The characters between the quotes.\<close>

function decode_chars :: "string \<Rightarrow> string option" where
  "decode_chars [] = Some []"
| "decode_chars (c # s) =
     (if c = CHR 0x22 then Some []
      else if c \<noteq> CHR 0x5C then map_option ((#) c) (decode_chars s)
      else case s of
        [] \<Rightarrow> None
      | e # t \<Rightarrow>
          if e = CHR ''u'' then
            (case decodeUnicodeCodePoint t of
               None \<Rightarrow> None
             | Some (u, r) \<Rightarrow> map_option (\<lambda>d. codePointToUTF8 u @ d) (decode_chars r))
          else (case unescape e of None \<Rightarrow> None | Some d \<Rightarrow> map_option ((#) d) (decode_chars t)))"
  by pat_completeness auto
termination
  by (relation "measure length") (auto dest: decodeUnicodeCodePoint_length)

declare decode_chars.simps(2) [simp del]

definition decodeString :: "string \<Rightarrow> string option" where
  "decodeString token = decode_chars (butlast (tl token))"


text \<open>
  Digits are collected as long as the value stays below the largest one of its sign; anything else is read as a double. The negation
  of the least integer wraps around, as it does in two's complement.
\<close>

definition digit_value :: "char \<Rightarrow> int" where
  "digit_value c = int (of_char c) - 48"

fun decode_digits :: "int \<Rightarrow> int \<Rightarrow> string \<Rightarrow> int option" where
  "decode_digits maxv value [] = Some value"
| "decode_digits maxv value (c # cs) =
     (if \<not> is_digit c then None
      else if maxv div 10 \<le> value \<and> (maxv div 10 < value \<or> cs \<noteq> [] \<or> maxv mod 10 < digit_value c) then None
      else decode_digits maxv (value * 10 + digit_value c) cs)"

text \<open>Extraction from a stream fails for a number without digits, without digits after its exponent sign, or beyond the doubles.\<close>

definition decodeDouble :: "string \<Rightarrow> double option" where
  "decodeDouble token =
     (if last token \<in> {CHR ''e'', CHR ''E'', CHR ''+'', CHR ''-''} then None
      else case stod token of Inl _ \<Rightarrow> None | Inr x \<Rightarrow> if \<bar>x\<bar> < 2 ^ 1024 - 2 ^ 970 then Some x else None)"

definition decodeNumber :: "string \<Rightarrow> json option" where
  "decodeNumber token =
     (let isNegative = (take 1 token = ''-''); ds = (if isNegative then drop 1 token else token);
          maxv = (if isNegative then - minInt64 else maxUInt64)
      in case decode_digits maxv 0 ds of
           None \<Rightarrow> map_option JReal (decodeDouble token)
         | Some value \<Rightarrow> Some (if isNegative then JInt (- value) else if value \<le> maxInt then JInt value else JUInt value))"

section \<open>The reader\<close>

text \<open>
  A reader of values gets what the value has been so far and the text, and gives whether it was successful, the value,
  and the rest. \<open>read_members\<close> is the loop of \<open>readObject\<close>, with the last member name; \<open>read_elements\<close> that of \<open>readArray\<close>.
  Their first argument after the reader bounds the number of rounds by the length of the text.
\<close>

type_synonym reading = "(exn, bool \<times> json \<times> string) result"

definition failed :: "token_type \<Rightarrow> json \<Rightarrow> string \<Rightarrow> reading" where
  "failed skipUntil v s = Inr (False, v, recoverFromError skipUntil s)"

primrec read_members :: "(json \<Rightarrow> string \<Rightarrow> reading) \<Rightarrow> nat \<Rightarrow> string \<Rightarrow> (string \<times> json) list \<Rightarrow> string \<Rightarrow> reading" where
  "read_members readv 0 name m s = Inl Undefined"
| "read_members readv (Suc n) name m s =
     (case skipCommentTokens s of (ty, token, s1) \<Rightarrow>
      if ty = TObjectEnd \<and> name = [] then Inr (True, JObj m, s1)
      else if ty \<noteq> TString then failed TObjectEnd (JObj m) s1
      else (case decodeString token of
        None \<Rightarrow> failed TObjectEnd (JObj m) s1
      | Some key \<Rightarrow>
          (case readToken s1 of (ty2, _, s2) \<Rightarrow>
           if ty2 \<noteq> TMemberSeparator then failed TObjectEnd (JObj m) s2
           else bind_r (readv (or_null (map_of m key)) s2) (\<lambda>(ok, v, s3).
             let m' = put key v m
             in if \<not> ok then failed TObjectEnd (JObj m') s3
                else (case readToken s3 of (ty4, _, s4) \<Rightarrow>
                  if ty4 \<notin> {TObjectEnd, TArraySeparator, TComment} then failed TObjectEnd (JObj m') s4
                  else (case (if ty4 = TComment then skipCommentTokens s4 else (ty4, [], s4)) of (ty5, _, s5) \<Rightarrow>
                    if ty5 = TObjectEnd then Inr (True, JObj m', s5) else read_members readv n key m' s5))))))"

primrec read_elements :: "(json \<Rightarrow> string \<Rightarrow> reading) \<Rightarrow> nat \<Rightarrow> nat \<Rightarrow> (nat \<times> json) list \<Rightarrow> string \<Rightarrow> reading" where
  "read_elements readv 0 index m s = Inl Undefined"
| "read_elements readv (Suc n) index m s =
     bind_r (readv (or_null (map_of m index)) s) (\<lambda>(ok, v, s1).
       let m' = put index v m
       in if \<not> ok then failed TArrayEnd (JArr m') s1
          else (case skipCommentTokens s1 of (ty, _, s2) \<Rightarrow>
            if ty = TArrayEnd then Inr (True, JArr m', s2)
            else if ty = TArraySeparator then read_elements readv n (Suc index) m' s2
            else failed TArrayEnd (JArr m') s2))"

definition readObject :: "(json \<Rightarrow> string \<Rightarrow> reading) \<Rightarrow> string \<Rightarrow> reading" where
  "readObject readv s = read_members readv (Suc (length s)) [] [] s"

definition readArray :: "(json \<Rightarrow> string \<Rightarrow> reading) \<Rightarrow> string \<Rightarrow> reading" where
  "readArray readv s =
     (let s1 = skipSpaces s
      in if take 1 s1 = '']'' then Inr (True, JArr [], snd (snd (readToken s1)))
         else read_elements readv (Suc (length s1)) 0 [] s1)"

definition decoded :: "json \<Rightarrow> json option \<Rightarrow> string \<Rightarrow> reading" where
  "decoded cur v s = Inr (case v of Some w \<Rightarrow> (True, w, s) | None \<Rightarrow> (False, cur, s))"

text \<open>The first argument is how many levels of nesting the stack limit still allows.\<close>

primrec readValue :: "nat \<Rightarrow> json \<Rightarrow> string \<Rightarrow> reading" where
  "readValue 0 cur s = Inl Json_error"
| "readValue (Suc n) cur s =
     (case skipCommentTokens s of (ty, token, s1) \<Rightarrow>
      (case ty of
        TObjectBegin \<Rightarrow> readObject (readValue n) s1
      | TArrayBegin \<Rightarrow> readArray (readValue n) s1
      | TNumber \<Rightarrow> decoded cur (decodeNumber token) s1
      | TString \<Rightarrow> decoded cur (map_option JStr (decodeString token)) s1
      | TTrue \<Rightarrow> decoded cur (Some (JBool True)) s1
      | TFalse \<Rightarrow> decoded cur (Some (JBool False)) s1
      | TNull \<Rightarrow> decoded cur (Some JNull) s1
      | _ \<Rightarrow> decoded cur None s1))"

definition stackLimit :: nat where
  "stackLimit = 1000"

definition parse :: "string \<Rightarrow> json \<Rightarrow> (exn, bool \<times> json) result" where
  "parse document cur = bind_r (readValue stackLimit cur document) (\<lambda>(ok, v, s). Inr (ok, v))"

end
