(* ===== verification/Json_Text_Props.thy ===== *)
theory Json_Text_Props
  imports Json_Text
begin

text \<open>
  Properties of the reader and the writer: the reader always returns, with values of the right type, and reads back what the
  writer has written.
\<close>

section \<open>Lengths\<close>

lemma skipCommentTokens_length:
  "skipCommentTokens s = (ty, tx, r) \<Longrightarrow> length r \<le> length s \<and> (ty \<noteq> TEnd \<longrightarrow> length r < length s)"
proof (induction s rule: skipCommentTokens.induct)
  case (1 s)
  obtain ty' tx' r' where t: "readToken s = (ty', tx', r')" by (cases "readToken s")
  show ?case
  proof (cases "ty' = TComment")
    case True
    then have "length r' < length s" using readToken_length [OF t] by simp
    moreover have "skipCommentTokens r' = (ty, tx, r)" using "1.prems" t True by (subst (asm) skipCommentTokens.simps) simp
    ultimately show ?thesis using "1.IH" [OF t [symmetric] refl True] by fastforce
  next
    case False
    then have "(ty, tx, r) = (ty', tx', r')" using "1.prems" t by (subst (asm) skipCommentTokens.simps) simp
    then show ?thesis using readToken_length [OF t] readToken_length_le [OF t] by simp
  qed
qed

lemma recoverFromError_length: "length (recoverFromError ty s) \<le> length s"
proof (induction ty s rule: recoverFromError.induct)
  case (1 ty s)
  obtain ty' tx' r' where t: "readToken s = (ty', tx', r')" by (cases "readToken s")
  then show ?case using 1 [OF t [symmetric] refl] readToken_length_le [OF t]
    by (subst recoverFromError.simps) auto
qed

section \<open>What the reader returns\<close>

definition returns :: "(json \<Rightarrow> bool) \<Rightarrow> string \<Rightarrow> reading \<Rightarrow> bool" where
  "returns P s r \<longleftrightarrow> (case r of Inl e \<Rightarrow> e = Json_error | Inr (ok, v, t) \<Rightarrow> P v \<and> length t \<le> length s)"

definition reads :: "(json \<Rightarrow> bool) \<Rightarrow> (json \<Rightarrow> string \<Rightarrow> reading) \<Rightarrow> bool" where
  "reads P readv \<longleftrightarrow> (\<forall>cur s. P cur \<longrightarrow> returns P s (readv cur s))"

lemma returns_mono: "returns P s r \<Longrightarrow> length s \<le> length t \<Longrightarrow> returns P t r"
  by (auto simp: returns_def split: sum.splits)

lemma returns_bind:
  assumes "returns P s r" and "\<And>ok v t. P v \<Longrightarrow> length t \<le> length s \<Longrightarrow> returns P u (f (ok, v, t))"
  shows "returns P u (bind_r r f)"
proof (cases r)
  case (Inr x)
  obtain ok v t where x: "x = (ok, v, t)" by (cases x)
  then have "P v" "length t \<le> length s" using assms(1) Inr by (auto simp: returns_def)
  from assms(2) [OF this, of ok] show ?thesis by (simp add: Inr x bind_r_def)
qed (use assms(1) in \<open>simp add: returns_def bind_r_def\<close>)

lemma returns_failed: "P v \<Longrightarrow> length s \<le> length t \<Longrightarrow> returns P t (failed ty v s)"
  using recoverFromError_length [of ty s] by (simp add: returns_def failed_def)

text \<open>A property of values that all values the reader builds have.\<close>

locale value_invariant =
  fixes P :: "json \<Rightarrow> bool"
  assumes null: "P JNull" and bool: "P (JBool b)" and str: "P (JStr s)"
    and number: "decodeNumber token = Some v \<Longrightarrow> P v"
    and obj_nil: "P (JObj [])"
    and obj_put: "P (JObj m) \<Longrightarrow> P v \<Longrightarrow> P (JObj (put k v m))"
    and obj_get: "P (JObj m) \<Longrightarrow> P (or_null (map_of m k))"
    and arr: "list_all P vs \<Longrightarrow> P (jarr vs)"
begin

lemma read_members_returns:
  assumes "reads P readv"
  shows "P (JObj m) \<Longrightarrow> length s < n \<Longrightarrow> returns P s (read_members readv n name m s)"
proof (induction n arbitrary: name m s)
  case (Suc n)
  obtain ty tx s1 where t1: "skipCommentTokens s = (ty, tx, s1)" by (cases "skipCommentTokens s")
  note l1 = skipCommentTokens_length [OF t1]
  show ?case
  proof (cases "ty = TString \<and> decodeString tx \<noteq> None")
    case False
    then show ?thesis using t1 l1 Suc.prems by (auto simp: returns_def failed_def intro: le_trans [OF recoverFromError_length])
  next
    case True
    then obtain key where key: "ty = TString" "decodeString tx = Some key" by auto
    obtain ty2 tx2 s2 where t2: "readToken s1 = (ty2, tx2, s2)" by (cases "readToken s1")
    note l2 = readToken_length_le [OF t2]
    let ?after = "\<lambda>(ok, v, s3). let m' = put key v m
             in if \<not> ok then failed TObjectEnd (JObj m') s3
                else (case readToken s3 of (ty4, _, s4) \<Rightarrow>
                  if ty4 \<notin> {TObjectEnd, TArraySeparator, TComment} then failed TObjectEnd (JObj m') s4
                  else (case (if ty4 = TComment then skipCommentTokens s4 else (ty4, [], s4)) of (ty5, _, s5) \<Rightarrow>
                    if ty5 = TObjectEnd then Inr (True, JObj m', s5) else read_members readv n key m' s5))"
    have after: "returns P s (?after (ok, v, s3))" if "P v" and "length s3 \<le> length s2" for ok v s3
    proof -
      have m: "P (JObj (put key v m))" by (rule obj_put [OF Suc.prems(1) that(1)])
      obtain ty4 tx4 s4 where t4: "readToken s3 = (ty4, tx4, s4)" by (cases "readToken s3")
      obtain ty5 tx5 s5 where t5: "(if ty4 = TComment then skipCommentTokens s4 else (ty4, [], s4)) = (ty5, tx5, s5)"
        by (cases "if ty4 = TComment then skipCommentTokens s4 else (ty4, [], s4)")
      have l5: "length s5 \<le> length s4" using t5 skipCommentTokens_length [of s4 ty5 tx5 s5] by (auto split: if_splits)
      have lens: "length s5 < length s" "length s4 \<le> length s" "length s3 \<le> length s"
        using l1 l2 that(2) l5 readToken_length_le [OF t4] key(1) by auto
      have "returns P s (read_members readv n key (put key v m) s5)"
        using returns_mono [OF Suc.IH [OF m, of s5 key]] lens Suc.prems(2) by auto
      then show ?thesis using t4 t5 m lens returns_failed [of P, OF m] by (auto simp: Let_def returns_def)
    qed
    have "returns P s2 (readv (or_null (map_of m key)) s2)"
      using assms obj_get [OF Suc.prems(1)] by (simp add: reads_def)
    then have "returns P s (bind_r (readv (or_null (map_of m key)) s2) ?after)" by (rule returns_bind) (rule after)
    then show ?thesis
      using t1 t2 key l1 l2 returns_failed [of P, OF Suc.prems(1), of s2 s] by (auto simp: Let_def)
  qed
qed simp

lemma read_elements_returns:
  assumes "reads P readv"
  shows "list_all P vs \<Longrightarrow> length s < n \<Longrightarrow> returns P s (read_elements readv n (length vs) (zip [0..<length vs] vs) s)"
proof (induction n arbitrary: vs s)
  case (Suc n)
  let ?m = "zip [0..<length vs] vs"
  have fresh: "map_of ?m (length vs) = None" by (auto simp: map_of_eq_None_iff set_zip)
  have new: "put (length vs) v ?m = zip [0..<length (vs @ [v])] (vs @ [v])" for v
    by (subst put_snoc) (auto simp: keys_def set_zip)
  let ?after = "\<lambda>(ok, v, s1). let m' = put (length vs) v ?m
       in if \<not> ok then failed TArrayEnd (JArr m') s1
          else (case skipCommentTokens s1 of (ty, _, s2) \<Rightarrow>
            if ty = TArrayEnd then Inr (True, JArr m', s2)
            else if ty = TArraySeparator then read_elements readv n (Suc (length vs)) m' s2
            else failed TArrayEnd (JArr m') s2)"
  have after: "returns P s (?after (ok, v, s1))" if "P v" and "length s1 \<le> length s" for ok v s1
  proof -
    have vs: "list_all P (vs @ [v])" using Suc.prems(1) that(1) by simp
    have m: "P (JArr (put (length vs) v ?m))" using arr [OF vs] unfolding new jarr_def .
    obtain ty tx s2 where t: "skipCommentTokens s1 = (ty, tx, s2)" by (cases "skipCommentTokens s1")
    note l = skipCommentTokens_length [OF t]
    have "returns P s (read_elements readv n (Suc (length vs)) (put (length vs) v ?m) s2)" if "ty = TArraySeparator"
      using returns_mono [OF Suc.IH [OF vs, of s2], of s] l that Suc.prems(2) \<open>length s1 \<le> length s\<close> unfolding new by auto
    then show ?thesis using t l m that(2) returns_failed [of P, OF m] by (auto simp: Let_def returns_def)
  qed
  have "returns P s (readv JNull s)" using assms null by (simp add: reads_def)
  then have "returns P s (bind_r (readv JNull s) ?after)" by (rule returns_bind) (rule after)
  then show ?case by (simp only: read_elements.simps fresh or_null_simps)
qed simp

lemma readValue_returns: "reads P (readValue n)"
proof (induction n)
  case 0
  then show ?case by (simp add: reads_def returns_def)
next
  case (Suc n)
  have "returns P s (readValue (Suc n) cur s)" if "P cur" for cur s
  proof -
    obtain ty tx s1 where t: "skipCommentTokens s = (ty, tx, s1)" by (cases "skipCommentTokens s")
    then have l: "length s1 \<le> length s" using skipCommentTokens_length by blast
    have scalar: "returns P s (decoded cur v s1)" if "\<And>w. v = Some w \<Longrightarrow> P w" for v
      using that l \<open>P cur\<close> by (auto simp: decoded_def returns_def split: option.splits)
    have object: "returns P s (readObject (readValue n) s1)"
      unfolding readObject_def by (rule returns_mono [OF read_members_returns [OF Suc.IH obj_nil] l]) simp
    have array: "returns P s (readArray (readValue n) s1)"
    proof -
      let ?u = "skipSpaces s1"
      have u: "length ?u \<le> length s" using l length_dropWhile_le [of is_json_space s1] by (simp add: skipSpaces_def)
      have "returns P s (read_elements (readValue n) (Suc (length ?u)) 0 [] ?u)"
        using returns_mono [OF read_elements_returns [OF Suc.IH, of "[]" ?u "Suc (length ?u)"] u] by simp
      moreover have "length (snd (snd (readToken ?u))) \<le> length s"
        using u readToken_length_le [of ?u] by (cases "readToken ?u") fastforce
      ultimately show ?thesis using arr [of "[]"] by (simp add: readArray_def returns_def Let_def jarr_def)
    qed
    have string: "returns P s (decoded cur (map_option JStr (decodeString tx)) s1)" by (rule scalar) (use str in auto)
    show ?thesis using t object array string scalar null bool number by (cases ty) auto
  qed
  then show ?case by (simp add: reads_def)
qed

lemma parse_returns:
  assumes "P cur"
  shows "case parse document cur of Inl e \<Rightarrow> e = Json_error | Inr (ok, v) \<Rightarrow> P v"
  using readValue_returns [of stackLimit] assms
  by (auto simp: parse_def reads_def returns_def bind_r_def split: sum.splits dest!: spec [where x = cur] spec [where x = document])

lemma parse_gives: "P cur \<Longrightarrow> parse document cur = Inr (ok, v) \<Longrightarrow> P v"
  using parse_returns [of cur document] by simp

end

section \<open>Types\<close>

text \<open>Values within the ranges of their types, with arrays without gaps and members in order.\<close>

fun json_typed :: "json \<Rightarrow> bool" where
  "json_typed (JInt n) \<longleftrightarrow> minInt64 \<le> n \<and> n \<le> maxInt64"
| "json_typed (JUInt n) \<longleftrightarrow> 0 \<le> n \<and> n \<le> maxUInt64"
| "json_typed (JReal x) \<longleftrightarrow> \<bar>x\<bar> < 2 ^ 1024 - 2 ^ 970"
| "json_typed (JArr m) \<longleftrightarrow> keys m = [0..<length m] \<and> list_all (\<lambda>e. json_typed (snd e)) m"
| "json_typed (JObj m) \<longleftrightarrow> map_ok m \<and> list_all (\<lambda>e. json_typed (snd e)) m"
| "json_typed _ \<longleftrightarrow> True"

lemma digit_range: "is_digit c \<Longrightarrow> 0 \<le> digit_value c \<and> digit_value c \<le> 9"
  by (auto simp: is_digit_def digit_value_def)

lemma decode_digits_range:
  "decode_digits maxv acc ds = Some n \<Longrightarrow> 0 \<le> acc \<Longrightarrow> acc \<le> maxv \<Longrightarrow> 0 \<le> n \<and> n \<le> maxv"
proof (induction ds arbitrary: acc)
  case (Cons c cs)
  then have d: "0 \<le> digit_value c" "digit_value c \<le> 9" and small: "acc < maxv div 10 \<or> acc = maxv div 10 \<and> digit_value c \<le> maxv mod 10"
    using digit_range [of c] by (auto split: if_splits)
  then have "acc * 10 + digit_value c \<le> maxv" by presburger
  then show ?case using Cons d by (auto split: if_splits)
qed simp

lemma decodeNumber_typed: "decodeNumber token = Some v \<Longrightarrow> json_typed v"
  using decode_digits_range [of maxUInt64 0 token] decode_digits_range [of "- minInt64" 0 "drop 1 token"]
  by (fastforce simp: decodeNumber_def Let_def decodeDouble_def int_limits split: option.splits if_splits sum.splits)

interpretation any: value_invariant "\<lambda>_. True"
  by unfold_locales simp_all

interpretation typed: value_invariant json_typed
proof unfold_locales
  show "json_typed (JObj (put k v m))" if "json_typed (JObj m)" and "json_typed v" for m v and k :: string
    using that by (induction k v m rule: put.induct) auto
  show "json_typed (or_null (map_of m k))" if "json_typed (JObj m)" for m and k :: string
    using that by (cases "map_of m k") (auto simp: list_all_iff dest!: map_of_SomeD)
  show "json_typed (jarr vs)" if "list_all json_typed vs" for vs
    using that by (auto simp: jarr_def keys_def list_all_iff set_zip)
qed (simp_all add: decodeNumber_typed)

text \<open>
  Reading always returns. Whatever the text, the reader comes back with success or failure and a value, or throws
  that the nesting is too deep.
\<close>

lemma parse_terminates:
  "(\<exists>ok v. parse document cur = Inr (ok, v)) \<or> parse document cur = Inl Json_error"
  using any.parse_returns [of document cur] by (auto split: sum.splits)

text \<open>
  C33: a value that was read has the type the program relies on: integers lie within their 64 bits, doubles are finite, arrays
  have the elements 0 to size - 1, and the members of objects are in strictly ascending order, also where reading has failed
  half-way.
\<close>

theorem parse_typed: "parse document JNull = Inr (ok, v) \<Longrightarrow> json_typed v"
  by (rule typed.parse_gives [of JNull]) simp_all


section \<open>Strings\<close>

lemma readString_cons:
  "s \<noteq> [] \<Longrightarrow> readString (c # s) = (if c = CHR 0x5C then readString (tl s) else if c = CHR 0x22 then (True, s) else readString s)"
  by (cases s) auto

lemma upper_hex_value: "n < 16 \<Longrightarrow> hex_value (upper_hex n) = Some n"
  by (simp add: hex_value_def upper_hex_def Let_def)

lemma upper_hex_plain: "n < 16 \<Longrightarrow> upper_hex n \<noteq> CHR 0x5C \<and> upper_hex n \<noteq> CHR 0x22"
  using upper_hex_value [of n] by (auto simp: hex_value_def)

lemma quoted_escaped: "valueToQuotedStringN s = CHR 0x22 # concat (map escape_char s) @ [CHR 0x22]"
proof (cases "list_all (\<lambda>c. c \<notin> {CHR 0x22, CHR 0x5C, CHR 0x08, CHR 0x0C, CHR 0x0A, CHR 0x0D, CHR 0x09} \<and> \<not> isControlCharacter c \<and> c \<noteq> CHR 0x00) s")
  case True
  then have "concat (map escape_char s) = s" by (induction s) (auto simp: escape_char_def)
  then show ?thesis by (simp add: valueToQuotedStringN_def True)
qed (simp only: valueToQuotedStringN_def if_False)

definition coded :: "char \<Rightarrow> bool" where
  "coded c \<longleftrightarrow> c \<notin> {CHR 0x22, CHR 0x5C, CHR 0x08, CHR 0x0C, CHR 0x0A, CHR 0x0D, CHR 0x09} \<and> (isControlCharacter c \<or> c = CHR 0x00)"

lemma escape_coded:
  assumes "coded c"
  shows "escape_char c = [CHR 0x5C, CHR ''u'', CHR ''0'', CHR ''0'', upper_hex (of_char c div 16), upper_hex (of_char c mod 16)]"
    and "(of_char c :: nat) < 32"
  using assms by (auto simp: coded_def escape_char_def isControlCharacter_def)

lemma escape_plain: "\<not> coded c \<Longrightarrow> c \<notin> {CHR 0x22, CHR 0x5C, CHR 0x08, CHR 0x0C, CHR 0x0A, CHR 0x0D, CHR 0x09} \<Longrightarrow> escape_char c = [c]"
  by (auto simp: coded_def escape_char_def)

lemma readString_escape:
  assumes "s \<noteq> []"
  shows "readString (escape_char c @ s) = readString s"
proof (cases "coded c")
  case True
  have "(of_char c :: nat) div 16 < 16" "(of_char c :: nat) mod 16 < 16" using escape_coded(2) [OF True] by auto
  then show ?thesis using assms upper_hex_plain by (simp add: escape_coded(1) [OF True] readString_cons)
next
  case False
  show ?thesis
  proof (cases "c \<in> {CHR 0x22, CHR 0x5C, CHR 0x08, CHR 0x0C, CHR 0x0A, CHR 0x0D, CHR 0x09}")
    case True
    then show ?thesis using assms by (auto simp: escape_char_def readString_cons)
  next
    case plain: False
    then show ?thesis using assms escape_plain [OF False plain] by (simp add: readString_cons)
  qed
qed

lemma readString_quoted: "readString (concat (map escape_char k) @ CHR 0x22 # rest) = (True, rest)"
proof (induction k)
  case Nil
  then show ?case by (cases rest) auto
qed (simp add: readString_escape)

lemma decodeUnicode_coded:
  assumes "(of_char c :: nat) < 32"
  shows "decodeUnicodeCodePoint (CHR ''0'' # CHR ''0'' # upper_hex (of_char c div 16) # upper_hex (of_char c mod 16) # s) = Some (of_char c, s)"
proof -
  have "(of_char c :: nat) div 16 < 16" "(of_char c :: nat) mod 16 < 16" using assms by auto
  moreover have "hex_value (CHR ''0'') = Some 0" by (simp add: hex_value_def)
  ultimately show ?thesis using assms
    by (simp add: decodeUnicodeCodePoint_def decodeUnicodeEscapeSequence_def upper_hex_value)
qed

lemma decode_escape: "decode_chars (escape_char c @ s) = map_option ((#) c) (decode_chars s)"
proof (cases "coded c")
  case True
  have "(@) [c] = (#) c" by auto
  then show ?thesis using escape_coded [OF True] decodeUnicode_coded [of c s]
    by (simp add: decode_chars.simps(2) codePointToUTF8_def)
next
  case False
  show ?thesis
  proof (cases "c \<in> {CHR 0x22, CHR 0x5C, CHR 0x08, CHR 0x0C, CHR 0x0A, CHR 0x0D, CHR 0x09}")
    case True
    then show ?thesis by (auto simp: escape_char_def decode_chars.simps(2) unescape_def)
  next
    case plain: False
    then show ?thesis using escape_plain [OF False plain] by (simp add: decode_chars.simps(2))
  qed
qed

lemma decode_quoted: "decodeString (valueToQuotedStringN k) = Some k"
proof -
  have "decode_chars (concat (map escape_char k)) = Some k" by (induction k) (simp_all add: decode_escape)
  then show ?thesis by (simp add: decodeString_def quoted_escaped)
qed

text \<open>The token at the start of a text.\<close>

lemma token_here:
  assumes "\<not> is_json_space c" and "token_at c t = (ty, r)" and "ty \<noteq> TComment" and "c # t = tx @ r"
  shows "readToken (c # t) = (ty, tx, r)" and "skipCommentTokens (c # t) = (ty, tx, r)"
proof -
  have "Suc (length t) = length tx + length r" using arg_cong [OF assms(4), of length] by simp
  then have "take (Suc (length t) - length r) (tx @ r) = tx" by simp
  then have "take (Suc (length t) - length r) (c # t) = tx" by (simp only: assms(4))
  then show "readToken (c # t) = (ty, tx, r)" using assms(1-3) by (simp only: readToken_def skipSpaces_def dropWhile.simps if_False list.case Let_def prod.case)
  then show "skipCommentTokens (c # t) = (ty, tx, r)" using assms(3) by (subst skipCommentTokens.simps) simp
qed

lemma string_token: "skipCommentTokens (valueToQuotedStringN k @ rest) = (TString, valueToQuotedStringN k, rest)"
  using readString_quoted [of k rest]
  by (simp add: quoted_escaped token_here(2) is_json_space_def token_at_def token_if_def)

lemma mark_tokens:
  "skipCommentTokens (CHR '','' # s) = (TArraySeparator, '','', s)" "readToken (CHR '','' # s) = (TArraySeparator, '','', s)"
  "skipCommentTokens (CHR ''}'' # s) = (TObjectEnd, ''}'', s)" "readToken (CHR ''}'' # s) = (TObjectEnd, ''}'', s)"
  "skipCommentTokens (CHR '']'' # s) = (TArrayEnd, '']'', s)" "readToken (CHR '']'' # s) = (TArrayEnd, '']'', s)"
  "skipCommentTokens (CHR ''{'' # s) = (TObjectBegin, ''{'', s)" "skipCommentTokens (CHR ''['' # s) = (TArrayBegin, ''['', s)"
  "readToken (CHR '':'' # s) = (TMemberSeparator, '':'', s)"
  by (simp_all add: token_here is_json_space_def token_at_def is_digit_def)

lemma word_tokens:
  "skipCommentTokens (''true'' @ s) = (TTrue, ''true'', s)" "skipCommentTokens (''false'' @ s) = (TFalse, ''false'', s)"
  "skipCommentTokens (''null'' @ s) = (TNull, ''null'', s)"
  by (simp_all add: token_here is_json_space_def token_at_def token_if_def match_word_def is_digit_def)

section \<open>Numbers\<close>

definition digit_char :: "int \<Rightarrow> char" where
  "digit_char d = char_of (d + 48)"

lemma digit_char_value:
  assumes "0 \<le> d" and "d \<le> 9"
  shows "is_digit (digit_char d)" and "digit_value (digit_char d) = d"
proof -
  obtain n where n: "d = int n" using assms(1) nonneg_int_cases by blast
  then have "digit_char d = char_of (n + 48)" unfolding digit_char_def using char_of_nat [of "n + 48", where ?'a = int] by simp
  then show "is_digit (digit_char d)" "digit_value (digit_char d) = d" using assms n by (simp_all add: is_digit_def digit_value_def)
qed

lemma uint_acc: "uintToString n (xs @ ys) = uintToString n xs @ ys"
proof (induction n xs rule: uintToString.induct)
  case (1 n current)
  then show ?case by (subst (1 2) uintToString.simps) (simp add: Let_def)
qed

lemma uint_digits1: "0 \<le> n \<Longrightarrow> n < 10 \<Longrightarrow> uintToString n [] = [digit_char n]"
  by (subst uintToString.simps) (simp add: digit_char_def)

lemma uint_digits2:
  assumes "10 \<le> n"
  shows "uintToString n [] = uintToString (n div 10) [] @ [digit_char (n mod 10)]"
proof -
  have "0 < n div 10" using assms by linarith
  then have "uintToString n [] = uintToString (n div 10) [digit_char (n mod 10)]"
    by (subst uintToString.simps) (simp add: Let_def digit_char_def)
  also have "\<dots> = uintToString (n div 10) [] @ [digit_char (n mod 10)]"
    using uint_acc [of "n div 10" "[]" "[digit_char (n mod 10)]"] by (simp only: append_Nil)
  finally show ?thesis .
qed

lemma uint_all_digits: "0 \<le> n \<Longrightarrow> list_all is_digit (uintToString n []) \<and> uintToString n [] \<noteq> []"
proof (induction "nat n" arbitrary: n rule: less_induct)
  case less
  show ?case
  proof (cases "n < 10")
    case True
    then show ?thesis using less.prems digit_char_value(1) [of n] by (simp add: uint_digits1)
  next
    case False
    then show ?thesis using less.hyps [of "n div 10"] digit_char_value(1) [of "n mod 10"] by (simp add: uint_digits2)
  qed
qed

lemma decode_uint:
  "0 \<le> n \<Longrightarrow> 0 < maxv div 10 \<Longrightarrow> n div 10 < maxv div 10 \<Longrightarrow> decode_digits maxv 0 (uintToString n [] @ cs) = decode_digits maxv n cs"
proof (induction "nat n" arbitrary: n cs rule: less_induct)
  case less
  show ?case
  proof (cases "n < 10")
    case True
    then show ?thesis using less.prems digit_char_value [of n] by (simp add: uint_digits1)
  next
    case False
    then have "decode_digits maxv 0 (uintToString n [] @ cs) = decode_digits maxv (n div 10) (digit_char (n mod 10) # cs)"
      using less.hyps [of "n div 10" "digit_char (n mod 10) # cs"] less.prems by (simp add: uint_digits2)
    then show ?thesis using digit_char_value [of "n mod 10"] less.prems False by simp
  qed
qed

lemma decode_uint_all:
  assumes "0 \<le> n" and "n \<le> maxv" and "100 \<le> maxv"
  shows "decode_digits maxv 0 (uintToString n []) = Some n"
proof (cases "n < 10")
  case True
  then show ?thesis using assms decode_uint [of n maxv "[]"] by simp
next
  case False
  let ?t = "maxv div 10"
  have "n div 10 \<le> ?t" using assms(2) by (rule zdiv_mono1) simp
  moreover have "?t div 10 < ?t" using assms(3) by linarith
  ultimately have "n div 10 div 10 < ?t" using zdiv_mono1 [of "n div 10" ?t 10] by linarith
  then have "decode_digits maxv 0 (uintToString n []) = decode_digits maxv (n div 10) [digit_char (n mod 10)]"
    using False assms decode_uint [of "n div 10" maxv "[digit_char (n mod 10)]"] by (simp add: uint_digits2)
  moreover have "\<not> (?t \<le> n div 10 \<and> (?t < n div 10 \<or> maxv mod 10 < n mod 10))" using \<open>n div 10 \<le> ?t\<close> assms(2) by presburger
  ultimately show ?thesis using digit_char_value [of "n mod 10"] by simp
qed

text \<open>What may follow a value in a document of the writer.\<close>

definition stops :: "string \<Rightarrow> bool" where
  "stops s \<longleftrightarrow> (case s of [] \<Rightarrow> True | c # t \<Rightarrow> c \<in> {CHR '','', CHR '']'', CHR ''}''} \<or> is_json_space c)"

abbreviation blanks :: "string \<Rightarrow> bool" where
  "blanks \<equiv> list_all is_json_space"

lemma stops_simps [simp]: "stops []" "stops (CHR '','' # s)" "stops (CHR '']'' # s)" "stops (CHR ''}'' # s)" "stops (CHR 0x0A # s)"
  by (simp_all add: stops_def is_json_space_def)

lemma stops_blanks: "blanks w \<Longrightarrow> stops s \<Longrightarrow> stops (w @ s)"
  by (cases w) (auto simp: stops_def)

lemma readNumber_digits:
  assumes "list_all is_digit ds" and "stops s"
  shows "readNumber (ds @ s) = s"
proof -
  have "dropWhile is_digit s = s" using assms(2) by (cases s) (auto simp: stops_def is_digit_def is_json_space_def)
  then have "skip_digits (ds @ s) = s" using assms(1) by (simp add: skip_digits_def dropWhile_append2 list_all_iff)
  moreover have "after_point s = s" "after_exponent s = s"
    using assms(2) by (cases s; auto simp: stops_def is_json_space_def after_point_def after_exponent_def)+
  ultimately show ?thesis by (simp add: readNumber_def)
qed

lemma number_token:
  assumes "list_all is_digit ds" and "is_digit c \<or> c = CHR ''-''" and "stops s"
  shows "skipCommentTokens (c # ds @ s) = (TNumber, c # ds, s)"
  using assms(2) readNumber_digits [OF assms(1,3)]
  by (intro token_here(2)) (auto simp: is_json_space_def token_at_def is_digit_def)

lemma uint_token:
  assumes "0 \<le> n" and "stops s"
  shows "skipCommentTokens (uintToString n [] @ s) = (TNumber, uintToString n [], s)"
  using uint_all_digits [OF assms(1)] number_token [of "tl (uintToString n [])" "hd (uintToString n [])" s] assms(2)
  by (cases "uintToString n []") auto

lemma uint_not_minus: "0 \<le> n \<Longrightarrow> take 1 (uintToString n []) \<noteq> ''-''"
  using uint_all_digits [of n] by (cases "uintToString n []") (auto simp: is_digit_def)

fun as_read :: "json \<Rightarrow> json" where
  "as_read (JInt n) = (if n \<le> maxInt then JInt n else JUInt n)"
| "as_read (JUInt n) = (if n \<le> maxInt then JInt n else JUInt n)"
| "as_read (JArr m) = JArr (map (\<lambda>(i, v). (i, as_read v)) m)"
| "as_read (JObj m) = JObj (map (\<lambda>(k, v). (k, as_read v)) m)"
| "as_read v = v"

lemma decodeNumber_uint:
  assumes "0 \<le> n" and "n \<le> maxUInt64"
  shows "decodeNumber (uintToString n []) = Some (as_read (JUInt n))"
  using decode_uint_all [OF assms] uint_not_minus [OF assms(1)] by (simp add: decodeNumber_def Let_def int_limits)

lemma decodeNumber_neg:
  assumes "n < 0" and "minInt64 \<le> n"
  shows "decodeNumber (CHR ''-'' # uintToString (- n) []) = Some (JInt n)"
  using decode_uint_all [of "- n" "- minInt64"] assms by (simp add: decodeNumber_def int_limits)

text \<open>Values without doubles, and how deep they are nested.\<close>

fun no_reals :: "json \<Rightarrow> bool" where
  "no_reals (JReal x) \<longleftrightarrow> False"
| "no_reals (JArr m) \<longleftrightarrow> list_all (\<lambda>e. no_reals (snd e)) m"
| "no_reals (JObj m) \<longleftrightarrow> list_all (\<lambda>e. no_reals (snd e)) m"
| "no_reals _ \<longleftrightarrow> True"

fun nests_within :: "nat \<Rightarrow> json \<Rightarrow> bool" where
  "nests_within n (JArr m) \<longleftrightarrow> 0 < n \<and> list_all (\<lambda>e. nests_within (n - 1) (snd e)) m"
| "nests_within n (JObj m) \<longleftrightarrow> 0 < n \<and> list_all (\<lambda>e. nests_within (n - 1) (snd e)) m"
| "nests_within n _ \<longleftrightarrow> 0 < n"

definition sendable :: "nat \<Rightarrow> json \<Rightarrow> bool" where
  "sendable n v \<longleftrightarrow> json_typed v \<and> no_reals v \<and> nests_within n v"

lemma sendable_elements:
  "sendable (Suc n) (JArr m) \<Longrightarrow> (i, v) \<in> set m \<Longrightarrow> sendable n v"
  "sendable (Suc n) (JObj kvs) \<Longrightarrow> (k, w) \<in> set kvs \<Longrightarrow> sendable n w"
  by (auto simp: sendable_def list_all_iff)

section \<open>Spellings\<close>

text \<open>A text spells a value when the reader makes the value of it, whatever follows.\<close>

definition spells :: "nat \<Rightarrow> string \<Rightarrow> json \<Rightarrow> bool" where
  "spells n t v \<longleftrightarrow> (\<forall>cur s. stops s \<longrightarrow> readValue n cur (t @ s) = Inr (True, as_read v, s))"

lemma spellsD: "spells n t v \<Longrightarrow> stops s \<Longrightarrow> readValue n cur (t @ s) = Inr (True, as_read v, s)"
  by (simp add: spells_def)

lemma skip_blanks:
  assumes "blanks w"
  shows "skipSpaces (w @ s) = skipSpaces s" and "readToken (w @ s) = readToken s" and "skipCommentTokens (w @ s) = skipCommentTokens s"
proof -
  show e: "skipSpaces (w @ s) = skipSpaces s" using assms by (induction w) (simp_all add: skipSpaces_def)
  then show r: "readToken (w @ s) = readToken s" by (simp add: readToken_def)
  show "skipCommentTokens (w @ s) = skipCommentTokens s" by (subst (1 2) skipCommentTokens.simps) (simp add: r)
qed

lemma skipSpaces_split: "\<exists>w. blanks w \<and> s = w @ skipSpaces s"
  by (rule exI [of _ "takeWhile is_json_space s"]) (auto simp: skipSpaces_def list_all_iff dest: set_takeWhileD)

lemma readValue_blanks: "blanks w \<Longrightarrow> readValue n cur (w @ s) = readValue n cur s"
  by (cases n) (simp_all add: skip_blanks)

lemma readValue_skip: "readValue n cur (skipSpaces s) = readValue n cur s"
  using skipSpaces_split [of s] readValue_blanks by metis

lemma spells_blanks: "blanks w \<Longrightarrow> spells n t v \<Longrightarrow> spells n (w @ t) v"
  by (simp add: spells_def readValue_blanks)

lemma spells_open:
  assumes "spells n t v" and "stops s"
  shows "take 1 (skipSpaces (t @ s)) \<noteq> '']''"
proof
  assume "take 1 (skipSpaces (t @ s)) = '']''"
  then obtain r where "skipSpaces (t @ s) = CHR '']'' # r" by (cases "skipSpaces (t @ s)") auto
  then have "readValue n JNull (t @ s) = readValue n JNull (CHR '']'' # r)" using readValue_skip [of n JNull "t @ s"] by simp
  then show False using spellsD [OF assms, of JNull] by (cases n) (simp_all add: mark_tokens decoded_def)
qed

lemma elements_spelled:
  assumes "list_all2 (spells n) ts vs" and "ts \<noteq> []" and "length ts \<le> f" and "\<forall>k \<in> set (keys m). k < i" and "blanks w"
  shows "read_elements (readValue n) f i m (comma_separated ts @ w @ CHR '']'' # s) = Inr (True, JArr (m @ enumerate i (map as_read vs)), s)"
  using assms
proof (induction ts arbitrary: vs f i m)
  case (Cons t ts)
  then obtain v us where vs: "vs = v # us" "spells n t v" "list_all2 (spells n) ts us" by (auto simp: list_all2_Cons1)
  obtain g where g: "f = Suc g" using Cons.prems(3) by (cases f) auto
  note snoc = put_snoc [OF Cons.prems(4), of "as_read v"]
  show ?case
  proof (cases ts)
    case Nil
    have "stops (w @ CHR '']'' # s)" using assms(5) by (simp add: stops_blanks)
    then show ?thesis using vs Nil by (simp add: g spellsD bind_r_def mark_tokens skip_blanks(3) [OF assms(5)] snoc)
  next
    case (Cons t2 ts2)
    have "\<forall>k \<in> set (keys (m @ [(i, as_read v)])). k < Suc i" using Cons.prems(4) by (auto simp: keys_def less_SucI)
    from Cons.IH [OF vs(3) _ _ this assms(5), of g] show ?thesis using Cons.prems(3) Cons vs
      by (simp add: g spellsD bind_r_def mark_tokens snoc)
  qed
qed simp

lemma comma_separated_commas: "length ts \<le> Suc (length (filter (\<lambda>c. c = CHR '','') (comma_separated ts)))"
  by (induction ts rule: comma_separated.induct) auto

lemma rounds_enough: "length ts \<le> Suc (length (skipSpaces (comma_separated ts @ s)))"
proof -
  let ?P = "\<lambda>c. c = CHR '',''"
  have skip: "filter ?P (skipSpaces x) = filter ?P x" for x
    by (induction x) (auto simp: skipSpaces_def is_json_space_def)
  have "length ts \<le> Suc (length (filter ?P (comma_separated ts @ s)))" using comma_separated_commas [of ts] by simp
  also have "\<dots> \<le> Suc (length (skipSpaces (comma_separated ts @ s)))"
    using length_filter_le [of ?P "skipSpaces (comma_separated ts @ s)"] by (simp only: skip Suc_le_mono)
  finally show ?thesis .
qed

lemma array_spelled:
  assumes "list_all2 (spells n) ts vs" and "blanks w"
  shows "spells (Suc n) (CHR ''['' # comma_separated ts @ w @ '']'') (jarr vs)"
proof -
  have read: "as_read (jarr vs) = JArr (enumerate 0 (map as_read vs))" by (simp add: jarr_def enumerate_eq_zip zip_map2 split_def)
  have "readArray (readValue n) (comma_separated ts @ w @ CHR '']'' # s) = Inr (True, as_read (jarr vs), s)" if "stops s" for s
  proof (cases ts)
    case Nil
    have "skipSpaces (w @ CHR '']'' # s) = CHR '']'' # s"
      using skip_blanks(1) [OF assms(2)] by (simp add: skipSpaces_def is_json_space_def)
    then show ?thesis using assms Nil by (simp add: readArray_def mark_tokens jarr_def)
  next
    case (Cons t us)
    let ?x = "comma_separated ts @ w @ CHR '']'' # s"
    obtain v where v: "spells n t v" using assms(1) Cons by (auto simp: list_all2_Cons1)
    have "take 1 (skipSpaces ?x) \<noteq> '']''"
      using Cons spells_open [OF v, of "w @ CHR '']'' # s"] spells_open [OF v, of "CHR '','' # comma_separated us @ w @ CHR '']'' # s"] assms(2)
      by (cases us) (simp_all add: stops_blanks)
    moreover have "read_elements (readValue n) (Suc (length (skipSpaces ?x))) 0 [] (skipSpaces ?x) = Inr (True, as_read (jarr vs), s)"
      using elements_spelled [OF assms(1) _ rounds_enough [of ts "w @ CHR '']'' # s"] _ assms(2), of "[]" 0 s] Cons
      by (simp add: read readValue_skip del: comma_separated.simps)
    ultimately show ?thesis by (simp only: readArray_def Let_def if_False)
  qed
  then show ?thesis by (simp add: spells_def mark_tokens)
qed

text \<open>Members: a name, a colon and a spelling of the value, with blanks around.\<close>

definition spells_member :: "nat \<Rightarrow> string \<Rightarrow> string \<times> json \<Rightarrow> bool" where
  "spells_member n t e \<longleftrightarrow> (\<exists>w w' u. blanks w \<and> blanks w' \<and> t = w @ valueToQuotedStringN (fst e) @ w' @ CHR '':'' # u \<and> spells n u (snd e))"

lemma spells_memberI: "blanks w \<Longrightarrow> blanks w' \<Longrightarrow> spells n u v \<Longrightarrow> spells_member n (w @ valueToQuotedStringN k @ w' @ CHR '':'' # u) (k, v)"
  by (auto simp: spells_member_def)

lemma members_spelled:
  assumes "list_all2 (spells_member n) ts es" and "ts \<noteq> []" and "length ts \<le> f" and "map_ok (m @ es)" and "blanks w"
  shows "read_members (readValue n) f name m (comma_separated ts @ w @ CHR ''}'' # s) =
     Inr (True, JObj (m @ map (\<lambda>(k, v). (k, as_read v)) es), s)"
  using assms
proof (induction ts arbitrary: es f name m)
  case (Cons t ts)
  then obtain k v es' where es: "es = (k, v) # es'" "spells_member n t (k, v)" "list_all2 (spells_member n) ts es'" by (auto simp: list_all2_Cons1)
  obtain w1 w2 u where t: "blanks w1" "blanks w2" "t = w1 @ valueToQuotedStringN k @ w2 @ CHR '':'' # u" "spells n u v"
    using es(2) by (auto simp: spells_member_def)
  obtain g where g: "f = Suc g" using Cons.prems(3) by (cases f) auto
  have "\<forall>k' \<in> set (keys m). k' < k" using Cons.prems(4) by (auto simp: map_ok_def keys_def es(1) sorted_wrt_append)
  note snoc = put_snoc [OF this, of "as_read v"]
  note run = g t(3) string_token skip_blanks [OF t(1)] skip_blanks [OF t(2)] decode_quoted mark_tokens spellsD [OF t(4)] bind_r_def snoc
  show ?case
  proof (cases ts)
    case Nil
    have "stops (w @ CHR ''}'' # s)" using assms(5) by (simp add: stops_blanks)
    then show ?thesis using es Nil by (simp add: run skip_blanks [OF assms(5)])
  next
    case (Cons t2 ts2)
    have "map_ok ((m @ [(k, as_read v)]) @ es')" using Cons.prems(4) by (simp add: map_ok_def keys_def es(1))
    from Cons.IH [OF es(3) _ _ this assms(5), of g] show ?thesis using Cons.prems(3) Cons es
      by (simp add: run)
  qed
qed simp

lemma object_spelled:
  assumes "list_all2 (spells_member n) ts es" and "map_ok es" and "blanks w"
  shows "spells (Suc n) (CHR ''{'' # comma_separated ts @ w @ ''}'') (JObj es)"
proof -
  have "readObject (readValue n) (comma_separated ts @ w @ CHR ''}'' # s) = Inr (True, as_read (JObj es), s)" for s
  proof (cases ts)
    case Nil
    then show ?thesis using assms by (simp add: readObject_def skip_blanks mark_tokens)
  next
    case (Cons t us)
    have "length ts \<le> Suc (length (comma_separated ts @ w @ CHR ''}'' # s))"
      using rounds_enough [of ts "[]"] length_dropWhile_le [of is_json_space "comma_separated ts"] by (simp add: skipSpaces_def)
    from members_spelled [OF assms(1) _ this, of "[]" w "[]" s] show ?thesis using Cons assms by (simp add: readObject_def del: comma_separated.simps)
  qed
  then show ?thesis by (simp add: spells_def mark_tokens)
qed

text \<open>The scalar values, which both writers print alike.\<close>

lemma int_text: "writeValue (JInt i) = (if i < 0 then CHR ''-'' # uintToString (- i) [] else uintToString i [])"
  by (simp add: valueToString_int_def)

definition scalar :: "json \<Rightarrow> bool" where
  "scalar v \<longleftrightarrow> \<not> isArray v \<and> \<not> isObject v"

lemma scalar_spelled:
  assumes "sendable (Suc n) v" and "scalar v"
  shows "spells (Suc n) (writeValue v) v"
proof -
  have "readValue (Suc n) cur (writeValue v @ s) = Inr (True, as_read v, s)" if s: "stops s" for cur s
  proof (cases v)
    case (JInt i)
    then show ?thesis
      using assms(1) s uint_token [of i s] decodeNumber_uint [of i] decodeNumber_neg [of i]
        number_token [of "uintToString (- i) []" "CHR ''-''" s] uint_all_digits [of "- i"]
      by (cases "i < 0") (simp_all add: sendable_def int_text decoded_def int_limits del: writeValue.simps(2))
  next
    case (JUInt i)
    then show ?thesis using assms(1) s uint_token [of i s] decodeNumber_uint [of i]
      by (simp add: sendable_def valueToString_uint_def decoded_def)
  next
    case (JBool b)
    then show ?thesis using word_tokens(1,2) [of s] by (simp add: decoded_def)
  next
    case JNull
    then show ?thesis using word_tokens(3) [of s] by (simp add: decoded_def)
  qed (use assms in \<open>simp_all add: string_token decode_quoted decoded_def sendable_def scalar_def isArray_def isObject_def\<close>)
  then show ?thesis by (simp add: spells_def)
qed

lemma typed_array: "json_typed (JArr m) \<Longrightarrow> JArr m = jarr (map snd m)"
  by (simp add: jarr_def keys_def) (metis zip_map_fst_snd)

lemma array_text: "writeValue (jarr ws) = CHR ''['' # comma_separated (map writeValue ws) @ '']''"
proof -
  let ?m = "zip [0..<length ws] ws"
  let ?ts = "map (\<lambda>(i, v). (i, writeValue v)) ?m"
  have "?ts = zip [0..<length ws] (map writeValue ws)" by (simp add: zip_map2)
  moreover have "map_of (zip [0..<length ws] (map writeValue ws)) i = Some (writeValue (ws ! i))" if "i < length ws" for i
    using that map_of_zip_nth [of "[0..<length ws]" "map writeValue ws" i] by simp
  ultimately have "map (\<lambda>i. case map_of ?ts i of None \<Rightarrow> ''null'' | Some t \<Rightarrow> t) [0..<length ws] = map writeValue ws"
    by (intro nth_equalityI) (simp_all only: length_map length_upt nth_map nth_upt diff_zero add_0 option.case)
  moreover have "jsize (JArr ?m) = length ws" using jsize_jarr [of ws] by (simp only: jarr_def)
  ultimately show ?thesis by (simp only: jarr_def writeValue.simps Let_def append_Cons append_Nil)
qed

lemma sendable_array: "sendable (Suc n) (JArr m) \<Longrightarrow> JArr m = jarr (map snd m) \<and> (\<forall>v \<in> set (map snd m). sendable n v)"
proof -
  assume m: "sendable (Suc n) (JArr m)"
  have "\<forall>v \<in> set (map snd m). sendable n v" using sendable_elements(1) [OF m] by auto
  then show ?thesis using typed_array [of m] m unfolding sendable_def [of "Suc n"] by blast
qed

lemma fast_spelled: "sendable n v \<Longrightarrow> spells n (writeValue v) v"
proof (induction n arbitrary: v)
  case 0
  then show ?case by (cases v) (simp_all add: sendable_def)
next
  case (Suc n)
  show ?case
  proof (cases v)
    case (JArr m)
    let ?ws = "map snd m"
    have v: "v = jarr ?ws" and ws: "\<forall>w \<in> set ?ws. sendable n w" using sendable_array [of n m] Suc.prems JArr by blast+
    have "list_all2 (spells n) (map writeValue ?ws) ?ws" using ws Suc.IH by (simp add: list_all2_conv_all_nth)
    from array_spelled [OF this, of "[]"] show ?thesis unfolding v array_text by simp
  next
    case (JObj m)
    have "spells_member n (valueToQuotedStringN (fst e) @ '':'' @ writeValue (snd e)) e" if "e \<in> set m" for e
      using Suc.IH [of "snd e"] Suc.prems JObj sendable_elements(2) [of n m "fst e" "snd e"] that
        spells_memberI [of "[]" "[]" n "writeValue (snd e)" "snd e" "fst e"] by simp
    then have "list_all2 (spells_member n) (map (\<lambda>(k, v). valueToQuotedStringN k @ '':'' @ writeValue v) m) m"
      by (auto simp: list_all2_conv_all_nth split_def)
    from object_spelled [OF this, of "[]"] show ?thesis using Suc.prems by (simp add: JObj sendable_def)
  qed (use scalar_spelled [OF Suc.prems] in \<open>simp_all add: scalar_def isArray_def isObject_def\<close>)
qed

lemma spelled_document:
  assumes "spells 1000 t v" and "blanks w"
  shows "parse (t @ w) cur = Inr (True, as_read v)"
proof -
  have "stops (w @ [])" using assms(2) by (intro stops_blanks) simp_all
  then show ?thesis using spellsD [OF assms(1), of w cur] by (simp add: parse_def stackLimit_def bind_r_def)
qed

text \<open>
  C32: what one side sends the other side reads. For a value of the right type, without doubles and nested less than a thousand deep, the reader
  is successful on the text of the writer and gives the value back, except that integers up to the largest \<open>int\<close> come back as
  signed and larger ones as unsigned.
\<close>

theorem write_parse:
  assumes "json_typed v" and "no_reals v" and "nests_within 1000 v"
  shows "parse (fast_write v) cur = Inr (True, as_read v)"
  unfolding fast_write_def
  by (rule spelled_document [OF fast_spelled]) (use assms in \<open>simp_all add: sendable_def is_json_space_def\<close>)

text \<open>No conversion sees that difference.\<close>

lemma as_read_conversions:
  assumes "json_typed v"
  shows "asInt (as_read v) = asInt v" "asInt64 (as_read v) = asInt64 v" "asUInt64 (as_read v) = asUInt64 v"
    "asDouble (as_read v) = asDouble v" "asBool (as_read v) = asBool v" "asString (as_read v) = asString v"
  using assms by (cases v; auto simp: int_limits valueToString_int_def valueToString_uint_def)+

definition demo_message :: json where
  "demo_message = jobj [(''cmd'', JStr ''a b''), (''n'', jarr [JInt (- 5), JUInt 3, JBool True, JNull]), ([], JObj [])]"

lemma demo_message_facts: "json_typed demo_message" "no_reals demo_message" "nests_within 1000 demo_message"
  by (simp_all add: demo_message_def jarr_def int_limits)

theorem write_parse_witness:
  "parse (fast_write demo_message) JNull =
     Inr (True, jobj [(''cmd'', JStr ''a b''), (''n'', jarr [JInt (- 5), JInt 3, JBool True, JNull]), ([], JObj [])])"
  using write_parse [OF demo_message_facts, of JNull] by (simp add: demo_message_def jarr_def int_limits)

theorem parse_typed_witness: "parse (fast_write demo_message) JNull = Inr (True, as_read demo_message) \<and> json_typed (as_read demo_message)"
proof -
  have "parse (fast_write demo_message) JNull = Inr (True, as_read demo_message)"
    unfolding fast_write_def
    by (rule spelled_document [OF fast_spelled]) (simp_all add: sendable_def demo_message_facts is_json_space_def)
  from this parse_typed [OF this] show ?thesis ..
qed

end
