(* ===== verification/Json_Styled.thy ===== *)
theory Json_Styled
  imports Json_Text_Props
begin

text \<open>
  \<open>StyledWriter\<close> of \<open>src/utils/jsoncpp.cc\<close>, which writes configuration files, for values without comments, and that the reader
  reads what it has written.
\<close>

section \<open>The writer\<close>

text \<open>\<open>document_\<close> is passed along; the indentation is its length. Names are written as C strings.\<close>

definition valueToQuotedString :: "string \<Rightarrow> string" where
  "valueToQuotedString s = valueToQuotedStringN (takeWhile (\<lambda>c. c \<noteq> CHR 0x00) s)"

definition writeIndent :: "nat \<Rightarrow> string \<Rightarrow> string" where
  "writeIndent ind doc =
     (if doc \<noteq> [] \<and> last doc = CHR '' '' then doc
      else (if doc \<noteq> [] \<and> last doc \<noteq> CHR 0x0A then doc @ [CHR 0x0A] else doc) @ replicate ind (CHR '' ''))"

definition writeWithIndent :: "nat \<Rightarrow> string \<Rightarrow> string \<Rightarrow> string" where
  "writeWithIndent ind val doc = writeIndent ind doc @ val"

text \<open>What \<open>isMultineArray\<close> collects in \<open>childValues_\<close>; it does so only when no element is a container with elements.\<close>

definition child_text :: "json \<Rightarrow> string" where
  "child_text v = (if isArray v then ''[]'' else if isObject v then ''{}'' else writeValue v)"

definition isMultineArray :: "json list \<Rightarrow> bool" where
  "isMultineArray cs \<longleftrightarrow>
     74 \<le> length cs * 3 \<or> list_ex (\<lambda>c. (isArray c \<or> isObject c) \<and> 0 < jsize c) cs \<or>
     74 \<le> 4 + (length cs - 1) * 2 + sum_list (map (length \<circ> child_text) cs)"

definition array_elements :: "(nat \<times> json) list \<Rightarrow> json list" where
  "array_elements m = map (\<lambda>i. or_null (map_of m i)) [0..<jsize (JArr m)]"

text \<open>One entry per line, each written by a function on the document, with commas between.\<close>

fun entry_lines :: "nat \<Rightarrow> (string \<Rightarrow> string) list \<Rightarrow> string \<Rightarrow> string" where
  "entry_lines ind [] doc = doc"
| "entry_lines ind [f] doc = f (writeIndent ind doc)"
| "entry_lines ind (f # g # fs) doc = entry_lines ind (g # fs) (f (writeIndent ind doc) @ '','')"

fun spaced :: "string list \<Rightarrow> string" where
  "spaced [] = []"
| "spaced [x] = x"
| "spaced (x # y # xs) = x @ '', '' @ spaced (y # xs)"

text \<open>
  In an array of several lines an element is written from \<open>childValues_\<close> when they were collected, and else by \<open>writeValue\<close>;
  for the elements that can be collected the text is the same.
\<close>

fun styled :: "nat \<Rightarrow> json \<Rightarrow> string \<Rightarrow> string" where
  "styled ind (JArr m) =
     (let fs = map (\<lambda>(i, v). (i, styled (ind + 3) v)) m; cs = array_elements m
      in (\<lambda>doc.
        if cs = [] then doc @ ''[]''
        else if isMultineArray cs then
          writeWithIndent ind '']'' (entry_lines (ind + 3)
            (map (\<lambda>i. case map_of fs i of None \<Rightarrow> (\<lambda>d. d @ ''null'') | Some f \<Rightarrow> f) [0..<jsize (JArr m)]) (writeWithIndent ind ''['' doc))
        else doc @ ''[ '' @ spaced (map child_text cs) @ '' ]''))"
| "styled ind (JObj m) =
     (let fs = map (\<lambda>(k, v). (k, styled (ind + 3) v)) m
      in (\<lambda>doc.
        if m = [] then doc @ ''{}''
        else
          writeWithIndent ind ''}'' (entry_lines (ind + 3)
            (map (\<lambda>(k, f) d. f (d @ valueToQuotedString k @ '' : '')) fs) (writeWithIndent ind ''{'' doc))))"
| "styled ind v = (\<lambda>doc. doc @ writeValue v)"

definition styled_write :: "json \<Rightarrow> string" where
  "styled_write v = styled 0 v [] @ [CHR 0x0A]"

section \<open>What it writes is read back\<close>

lemma writeIndent_blanks: "\<exists>w. writeIndent ind doc = doc @ w \<and> blanks w"
  by (auto simp: writeIndent_def is_json_space_def list_all_iff intro: exI [of _ "CHR 0x0A # replicate ind (CHR '' '')"])

definition appends :: "(string \<Rightarrow> 'a \<Rightarrow> bool) \<Rightarrow> (string \<Rightarrow> string) \<Rightarrow> 'a \<Rightarrow> bool" where
  "appends S f v \<longleftrightarrow> (\<forall>doc. \<exists>t. f doc = doc @ t \<and> S t v)"

lemma entry_lines_appends:
  assumes "\<And>w t v. blanks w \<Longrightarrow> S t v \<Longrightarrow> S (w @ t) v"
  shows "list_all2 (appends S) fs vs \<Longrightarrow> \<exists>ts. entry_lines ind fs doc = doc @ comma_separated ts \<and> list_all2 S ts vs"
proof (induction ind fs doc arbitrary: vs rule: entry_lines.induct)
  case (1 ind doc)
  then show ?case by (auto intro: exI [of _ "[]"])
next
  case (2 ind f doc)
  then obtain v where v: "vs = [v]" "appends S f v" by (auto simp: list_all2_Cons1)
  obtain w where w: "writeIndent ind doc = doc @ w" "blanks w" using writeIndent_blanks by blast
  obtain t where "f (doc @ w) = (doc @ w) @ t" "S t v" using v(2) unfolding appends_def by blast
  then show ?case using v(1) w assms by (auto intro!: exI [of _ "[w @ t]"])
next
  case (3 ind f g fs doc)
  then obtain v us where v: "vs = v # us" "appends S f v" "list_all2 (appends S) (g # fs) us" by (auto simp: list_all2_Cons1)
  obtain w where w: "writeIndent ind doc = doc @ w" "blanks w" using writeIndent_blanks by blast
  obtain t where t: "f (doc @ w) = (doc @ w) @ t" "S t v" using v(2) unfolding appends_def by blast
  obtain ts where ts: "entry_lines ind (g # fs) (f (writeIndent ind doc) @ '','') = (f (writeIndent ind doc) @ '','') @ comma_separated ts" "list_all2 S ts us"
    using "3.IH" [OF v(3)] by blast
  obtain t2 ts2 where "ts = t2 # ts2" using ts(2) v(3) by (cases ts; cases us) auto
  then show ?case using ts t w v(1) assms by (auto intro!: exI [of _ "(w @ t) # ts"])
qed

lemma spaced_separated: "ts \<noteq> [] \<Longrightarrow> CHR '' '' # spaced ts = comma_separated (map ((#) (CHR '' '')) ts)"
  by (induction ts rule: spaced.induct) auto

fun plain_names :: "json \<Rightarrow> bool" where
  "plain_names (JArr m) \<longleftrightarrow> list_all (\<lambda>e. plain_names (snd e)) m"
| "plain_names (JObj m) \<longleftrightarrow> list_all (\<lambda>e. CHR 0x00 \<notin> set (fst e) \<and> plain_names (snd e)) m"
| "plain_names _ \<longleftrightarrow> True"


lemma plain_name: "CHR 0x00 \<notin> set k \<Longrightarrow> valueToQuotedString k = valueToQuotedStringN k"
proof -
  assume "CHR 0x00 \<notin> set k"
  then have "takeWhile (\<lambda>c. c \<noteq> CHR 0x00) k = k" by (intro iffD2 [OF takeWhile_eq_all_conv]) auto
  then show ?thesis by (simp only: valueToQuotedString_def)
qed

lemma empty_spelled: "spells (Suc n) ''[]'' (JArr [])" "spells (Suc n) ''{}'' (JObj [])"
  using array_spelled [of n "[]" "[]" "[]"] object_spelled [of n "[]" "[]" "[]"] by (simp_all add: jarr_def)

lemma child_spelled:
  assumes "sendable n c" and "\<not> ((isArray c \<or> isObject c) \<and> 0 < jsize c)"
  shows "spells n (child_text c) c"
proof -
  obtain k where n: "n = Suc k" using assms(1) by (cases n; cases c) (auto simp: sendable_def)
  show ?thesis
  proof (cases c)
    case (JArr m)
    then show ?thesis using assms(2) by (auto simp: child_text_def isArray_def n empty_spelled split: if_splits)
  next
    case (JObj m)
    then show ?thesis using assms(2) by (auto simp: child_text_def isArray_def isObject_def n empty_spelled)
  qed (use scalar_spelled [OF assms(1) [unfolded n]] in \<open>simp_all add: n child_text_def scalar_def isArray_def isObject_def\<close>)
qed

lemma array_elements_jarr: "array_elements (zip [0..<length ws] ws) = ws"
proof -
  have "jsize (JArr (zip [0..<length ws] ws)) = length ws" using jsize_jarr [of ws] by (simp only: jarr_def)
  moreover have "map_of (zip [0..<length ws] ws) i = Some (ws ! i)" if "i < length ws" for i
    using that map_of_zip_nth [of "[0..<length ws]" ws i] by simp
  ultimately show ?thesis unfolding array_elements_def
    by (intro nth_equalityI) (simp_all only: length_map length_upt nth_map nth_upt diff_zero add_0 or_null_simps)
qed

lemma styled_array:
  "styled ind (jarr ws) doc =
     (if ws = [] then doc @ ''[]''
      else if isMultineArray ws then
        writeWithIndent ind '']'' (entry_lines (ind + 3) (map (styled (ind + 3)) ws) (writeWithIndent ind ''['' doc))
      else doc @ ''[ '' @ spaced (map child_text ws) @ '' ]'')"
proof -
  let ?m = "zip [0..<length ws] ws"
  let ?fs = "map (\<lambda>(i, v). (i, styled (ind + 3) v)) ?m"
  have "?fs = zip [0..<length ws] (map (styled (ind + 3)) ws)" by (simp add: zip_map2)
  moreover have "map_of (zip [0..<length ws] (map (styled (ind + 3)) ws)) i = Some (styled (ind + 3) (ws ! i))" if "i < length ws" for i
    using that map_of_zip_nth [of "[0..<length ws]" "map (styled (ind + 3)) ws" i] by simp
  ultimately have "map (\<lambda>i. case map_of ?fs i of None \<Rightarrow> (\<lambda>d. d @ ''null'') | Some f \<Rightarrow> f) [0..<length ws] = map (styled (ind + 3)) ws"
    by (intro nth_equalityI) (simp_all only: length_map length_upt nth_map nth_upt diff_zero add_0 option.case)
  moreover have "jsize (JArr ?m) = length ws" using jsize_jarr [of ws] by (simp only: jarr_def)
  ultimately show ?thesis by (simp only: jarr_def styled.simps Let_def array_elements_jarr)
qed

lemma bracketed:
  assumes "writeWithIndent ind op doc = d1" and "entry_lines ind' fs d1 = d1 @ x"
  shows "\<exists>w1 w2. blanks w1 \<and> blanks w2 \<and> writeWithIndent ind cl (entry_lines ind' fs (writeWithIndent ind op doc)) = doc @ w1 @ op @ x @ w2 @ cl"
proof -
  obtain w1 where w1: "writeIndent ind doc = doc @ w1" "blanks w1" using writeIndent_blanks by blast
  obtain w2 where w2: "writeIndent ind (d1 @ x) = (d1 @ x) @ w2" "blanks w2" using writeIndent_blanks by blast
  have "d1 = doc @ w1 @ op" using assms(1) w1(1) by (simp add: writeWithIndent_def)
  then have "writeWithIndent ind cl (entry_lines ind' fs (writeWithIndent ind op doc)) = doc @ w1 @ op @ x @ w2 @ cl"
    using assms w2(1) by (simp add: writeWithIndent_def)
  then show ?thesis using w1(2) w2(2) by blast
qed

lemma array_styled:
  assumes "\<And>w ind. w \<in> set ws \<Longrightarrow> sendable n w \<and> appends (spells n) (styled ind w) w"
  shows "appends (spells (Suc n)) (styled ind (jarr ws)) (jarr ws)"
proof -
  have "\<exists>t. styled ind (jarr ws) doc = doc @ t \<and> spells (Suc n) t (jarr ws)" for doc
  proof -
    consider (empty) "ws = []" | (lines) "ws \<noteq> []" "isMultineArray ws" | (line) "ws \<noteq> []" "\<not> isMultineArray ws" by blast
    then show ?thesis
    proof cases
      case empty
      then show ?thesis using empty_spelled(1) [of n] by (simp only: styled_array) (auto simp: jarr_def)
    next
      case lines
      let ?d = "writeWithIndent ind ''['' doc"
      have "list_all2 (appends (spells n)) (map (styled (ind + 3)) ws) ws" using assms by (simp add: list_all2_conv_all_nth)
      from entry_lines_appends [OF spells_blanks this] obtain ts
        where ts: "entry_lines (ind + 3) (map (styled (ind + 3)) ws) ?d = ?d @ comma_separated ts" "list_all2 (spells n) ts ws" by blast
      obtain w1 w2 where w: "blanks w1" "blanks w2"
        "styled ind (jarr ws) doc = doc @ w1 @ ''['' @ comma_separated ts @ w2 @ '']''"
        using bracketed [OF refl ts(1), of "'']''"] lines by (auto simp: styled_array)
      then show ?thesis using spells_blanks [OF w(1) array_spelled [OF ts(2) w(2)]] by (intro exI conjI) auto
    next
      case line
      have "spells n (child_text c) c" if "c \<in> set ws" for c
        using line(2) that assms [OF that] by (intro child_spelled) (auto simp: isMultineArray_def list_ex_iff)
      then have "list_all2 (spells n) (map ((#) (CHR '' '')) (map child_text ws)) ws"
        using spells_blanks [of "'' ''" n] by (auto simp: list_all2_conv_all_nth is_json_space_def)
      from array_spelled [OF this, of "'' ''"] show ?thesis
        using line spaced_separated [of "map child_text ws", symmetric] by (simp only: styled_array) (auto simp: is_json_space_def)
    qed
  qed
  then show ?thesis by (simp add: appends_def)
qed


lemma object_styled:
  assumes "map_ok m" and "\<And>k v ind. (k, v) \<in> set m \<Longrightarrow> CHR 0x00 \<notin> set k \<and> appends (spells n) (styled ind v) v"
  shows "appends (spells (Suc n)) (styled ind (JObj m)) (JObj m)"
proof -
  have "\<exists>t. styled ind (JObj m) doc = doc @ t \<and> spells (Suc n) t (JObj m)" for doc
  proof (cases m)
    case Nil
    then show ?thesis using empty_spelled(2) [of n] by auto
  next
    case (Cons e es)
    let ?d = "writeWithIndent ind ''{'' doc"
    let ?f = "\<lambda>e d. styled (ind + 3) (snd e) (d @ valueToQuotedString (fst e) @ '' : '')"
    have member: "appends (spells_member n) (?f e) e" if "e \<in> set m" for e
    proof -
      have e: "CHR 0x00 \<notin> set (fst e)" "appends (spells n) (styled (ind + 3) (snd e)) (snd e)" using assms(2) [of "fst e" "snd e"] that by auto
      have "\<exists>t. ?f e d = d @ t \<and> spells_member n t e" for d
      proof -
        obtain t where t: "styled (ind + 3) (snd e) (d @ valueToQuotedString (fst e) @ '' : '') = (d @ valueToQuotedString (fst e) @ '' : '') @ t"
          "spells n t (snd e)" using e(2) unfolding appends_def by blast
        then have "spells_member n ([] @ valueToQuotedStringN (fst e) @ '' '' @ CHR '':'' # ('' '' @ t)) (fst e, snd e)"
          by (intro spells_memberI spells_blanks) (simp_all add: is_json_space_def)
        then show ?thesis using t(1) plain_name [OF e(1)] by auto
      qed
      then show ?thesis by (simp add: appends_def)
    qed
    then have "list_all2 (appends (spells_member n)) (map ?f m) m" by (simp add: list_all2_conv_all_nth)
    moreover have "spells_member n (w @ t) e" if "blanks w" and "spells_member n t e" for w t e
      using that unfolding spells_member_def by (metis append.assoc list_all_append)
    ultimately obtain ts where ts: "entry_lines (ind + 3) (map ?f m) ?d = ?d @ comma_separated ts" "list_all2 (spells_member n) ts m"
      using entry_lines_appends [of "spells_member n" "map ?f m" m] by blast
    have "map (\<lambda>(k, f) d. f (d @ valueToQuotedString k @ '' : '')) (map (\<lambda>(k, v). (k, styled (ind + 3) v)) m) = map ?f m" by auto
    then obtain w1 w2 where w: "blanks w1" "blanks w2"
      "styled ind (JObj m) doc = doc @ w1 @ ''{'' @ comma_separated ts @ w2 @ ''}''"
      using bracketed [OF refl ts(1), of "''}''"] Cons by (simp only: styled.simps Let_def if_False list.distinct) blast
    then show ?thesis using spells_blanks [OF w(1) object_spelled [OF ts(2) assms(1) w(2)]] by (intro exI conjI) auto
  qed
  then show ?thesis by (simp add: appends_def)
qed

lemma styled_spelled: "sendable n v \<Longrightarrow> plain_names v \<Longrightarrow> appends (spells n) (styled ind v) v"
proof (induction n arbitrary: v ind)
  case 0
  then show ?case by (cases v) (simp_all add: sendable_def)
next
  case (Suc n)
  show ?case
  proof (cases v)
    case (JArr m)
    have v: "v = jarr (map snd m)" and ws: "\<forall>w \<in> set (map snd m). sendable n w" using sendable_array [of n m] Suc.prems(1) JArr by blast+
    have "plain_names w" if "w \<in> set (map snd m)" for w using Suc.prems(2) that JArr by (auto simp: list_all_iff)
    then show ?thesis unfolding v using ws Suc.IH by (intro array_styled) blast
  next
    case (JObj m)
    have "CHR 0x00 \<notin> set k \<and> appends (spells n) (styled ind w) w" if "(k, w) \<in> set m" for k w ind
      using Suc.IH [of w ind] Suc.prems JObj sendable_elements(2) [of n m k w] that by (auto simp: list_all_iff)
    then show ?thesis unfolding JObj using Suc.prems(1) JObj by (intro object_styled) (auto simp: sendable_def)
  qed (use scalar_spelled [OF Suc.prems(1)] in \<open>auto simp: scalar_def isArray_def isObject_def appends_def\<close>)
qed

text \<open>
  The reader reads what the styled writer has written, for values as for the other writer whose names have no zero character, with blank space after.
\<close>

lemma styled_parse:
  assumes "json_typed v" and "no_reals v" and "nests_within 1000 v" and "plain_names v" and "blanks w"
  shows "parse (styled_write v @ w) cur = Inr (True, as_read v)"
proof -
  have "appends (spells 1000) (styled 0 v) v" using assms by (intro styled_spelled) (simp_all add: sendable_def)
  then obtain t where t: "styled 0 v [] = [] @ t" "spells 1000 t v" unfolding appends_def by blast
  have "parse (t @ CHR 0x0A # w) cur = Inr (True, as_read v)"
    using assms(5) by (intro spelled_document [OF t(2)]) (simp add: is_json_space_def)
  then show ?thesis using t(1) by (simp add: styled_write_def)
qed

end
