(* ===== verification/Conf.thy ===== *)
theory Conf
  imports Json_Styled
begin

text \<open>
  Configuration files: \<open>BaseConf\<close> of \<open>src/utils/baseconf.h\<close> and the \<open>Conf\<close> of the server and of the agents
  (\<open>src/server/conf.h\<close>, \<open>src/agent/conf.h\<close>). The files that can be opened are a map from names to texts; \<open>writable\<close>
  tells which can be opened for writing.
\<close>

section \<open>Reading and writing\<close>

text \<open>
  jsoncpp keeps the comments of a text with the values it reads, and \<open>StyledWriter\<close> writes them again. The values of the model have
  no comments: a configuration remembers the text it was read from when this has comments, and what is written for it is given by
  a parameter, \<open>commented\<close>, of which nothing is known. A text has comments when it has a slash outside of its strings.
\<close>

record base_conf =
  pset :: json
  conf_file :: string
  need_write :: bool
  comments_of :: "string option"

fun no_comments :: "bool \<Rightarrow> string \<Rightarrow> bool" where
  "no_comments in_string [] \<longleftrightarrow> True"
| "no_comments True [c] \<longleftrightarrow> True"
| "no_comments True (c # d # s) \<longleftrightarrow> (if c = CHR 0x5C then no_comments True s else no_comments (c \<noteq> CHR 0x22) (d # s))"
| "no_comments False (c # s) \<longleftrightarrow> c \<noteq> CHR ''/'' \<and> no_comments (c = CHR 0x22) s"

type_synonym files = "string \<rightharpoonup> string"

text \<open>
  \<open>operator>>\<close> reads with \<open>CharReaderBuilder\<close> in its default settings, which differs from \<open>Reader\<close> in numbers beyond the
  range of doubles only; this is the value that is read, its comments aside.
\<close>

definition read_stream :: "string \<Rightarrow> (exn, json) result" where
  "read_stream doc = bind_r (parse doc JNull) (\<lambda>(ok, v). if ok then Inr v else Inl Json_error)"

definition BaseConf :: "files \<Rightarrow> string option \<Rightarrow> (exn, base_conf) result" where
  "BaseConf files filename =
     (case filename of
        None \<Rightarrow> Inr \<lparr>pset = JNull, conf_file = ''aaa'', need_write = False, comments_of = None\<rparr>
      | Some f \<Rightarrow>
          (case files f of
             None \<Rightarrow> Inr \<lparr>pset = JNull, conf_file = f, need_write = True, comments_of = None\<rparr>
           | Some doc \<Rightarrow> bind_r (read_stream doc) (\<lambda>v.
               Inr \<lparr>pset = v, conf_file = f, need_write = False, comments_of = if no_comments False doc then None else Some doc\<rparr>)))"

definition conf_text :: "(string \<Rightarrow> json \<Rightarrow> string) \<Rightarrow> base_conf \<Rightarrow> string" where
  "conf_text commented c = (case comments_of c of None \<Rightarrow> styled_write (pset c) | Some doc \<Rightarrow> commented doc (pset c))"

definition write_to_file :: "(string \<Rightarrow> json \<Rightarrow> string) \<Rightarrow> (string \<Rightarrow> bool) \<Rightarrow> base_conf \<Rightarrow> files \<Rightarrow> files" where
  "write_to_file commented writable c files =
     (if need_write c \<and> writable (conf_file c) then files(conf_file c \<mapsto> conf_text commented c @ [CHR 0x0A]) else files)"

section \<open>Looking up\<close>

definition getv :: "string \<Rightarrow> base_conf \<Rightarrow> (exn, json) result" where
  "getv key c = opt_r Json_error (getk (pset c) (split key (CHR ''.'')))"

definition conf_get :: "(json \<Rightarrow> 'a option) \<Rightarrow> string \<Rightarrow> base_conf \<Rightarrow> (exn, 'a) result" where
  "conf_get convert key c =
     bind_r (getv key c) (\<lambda>v.
       if isNull v then Inl (Runtime_error (''conf::get() key '' @ key @ '' not found'')) else opt_r Json_error (convert v))"

definition conf_get_default :: "(json \<Rightarrow> 'a option) \<Rightarrow> string \<Rightarrow> 'a \<Rightarrow> base_conf \<Rightarrow> (exn, 'a) result" where
  "conf_get_default convert key def c = bind_r (getv key c) (\<lambda>v. if isNull v then Inr def else opt_r Json_error (convert v))"

definition conf_has :: "string \<Rightarrow> base_conf \<Rightarrow> (exn, bool) result" where
  "conf_has key c = bind_r (getv key c) (\<lambda>v. Inr (\<not> isNull v))"

definition conf_get_keys :: "string \<Rightarrow> base_conf \<Rightarrow> (exn, string list) result" where
  "conf_get_keys key c =
     bind_r (getv key c) (\<lambda>v.
       if isNull v then Inl (Runtime_error (''conf::get_keys() key '' @ key @ '' not found'')) else opt_r Json_error (getMemberNames v))"

definition conf_get_type :: "string \<Rightarrow> base_conf \<Rightarrow> (exn, nat) result" where
  "conf_get_type key c = bind_r (getv key c) (\<lambda>v. Inr (value_type v))"

section \<open>Defaults\<close>

text \<open>The macro \<open>CONF\<close>: a member that is null, or not there, gets the default.\<close>

definition conf_default :: "string list \<Rightarrow> json \<Rightarrow> base_conf \<Rightarrow> (exn, base_conf) result" where
  "conf_default ks v c =
     (case getk (pset c) ks of
        None \<Rightarrow> Inl Json_error
      | Some w \<Rightarrow>
          if isNull w then (case setk ks v (pset c) of None \<Rightarrow> Inl Json_error | Some p \<Rightarrow> Inr (c\<lparr>pset := p, need_write := True\<rparr>))
          else Inr c)"

fun construct_conf :: "(string list \<times> json) list \<Rightarrow> base_conf \<Rightarrow> (exn, base_conf) result" where
  "construct_conf [] c = Inr c"
| "construct_conf ((ks, v) # ds) c = bind_r (conf_default ks v c) (construct_conf ds)"

definition server_defaults :: "(string list \<times> json) list" where
  "server_defaults =
     [([''bde'', ''mq_server'', ''host''], JStr ''localhost''),
      ([''bde'', ''mq_server'', ''port''], JInt 1883),
      ([''bde'', ''mq_server'', ''queue''], JStr ''bdeserver''),
      ([''bde'', ''store'', ''host''], JStr ''localhost''),
      ([''bde'', ''store'', ''port''], JInt 27017),
      ([''bde'', ''store'', ''db''], JStr ''bde''),
      ([''bde'', ''agents'', ''ld'', ''authentication''], JStr ''cert''),
      ([''bde'', ''agents'', ''ld'', ''auth_username''], JStr ''test''),
      ([''bde'', ''agents'', ''ld'', ''auth_password''], JStr ''secret''),
      ([''bde'', ''agents'', ''ld'', ''write_command_files''], JBool False),
      ([''bde'', ''agents'', ''ld'', ''checksum_enable''], JBool False),
      ([''bde'', ''agents'', ''ld'', ''checksum_algorithm''], JStr ''sha1''),
      ([''bde'', ''agents'', ''ld'', ''group_size''], JStr ''20GB'')]"

definition agent_defaults :: "(string list \<times> json) list" where
  "agent_defaults =
     [([''agent'', ''mq_server'', ''host''], JStr ''yosemite.fnal.gov''),
      ([''agent'', ''mq_server'', ''port''], JInt 5671),
      ([''agent'', ''mq_server'', ''cacert''], JStr ''/home/jason/certificates/cacert.pem''),
      ([''agent'', ''store'', ''host''], JStr ''yosemite.fnal.gov''),
      ([''agent'', ''store'', ''port''], JInt 27017),
      ([''agent'', ''store'', ''db''], JStr ''bde'')]"

definition server_conf :: "(string \<Rightarrow> json \<Rightarrow> string) \<Rightarrow> files \<Rightarrow> (string \<Rightarrow> bool) \<Rightarrow> string option \<Rightarrow> (exn, base_conf \<times> files) result" where
  "server_conf commented files writable filename =
     bind_r (BaseConf files filename) (\<lambda>c0.
     bind_r (construct_conf server_defaults c0) (\<lambda>c.
     Inr (c, if need_write c then write_to_file commented writable c files else files)))"

definition agent_conf :: "(string \<Rightarrow> json \<Rightarrow> string) \<Rightarrow> files \<Rightarrow> (string \<Rightarrow> bool) \<Rightarrow> string option \<Rightarrow> (exn, base_conf \<times> files) result" where
  "agent_conf commented files writable filename =
     bind_r (BaseConf files filename) (\<lambda>c0.
     if need_write c0 then bind_r (construct_conf agent_defaults c0) (\<lambda>c. Inr (c, write_to_file commented writable c files))
     else Inr (c0, files))"

section \<open>A configuration survives a restart\<close>

lemma at_key_as_read: "at_key (as_read v) k = map_option as_read (at_key v k)"
proof (cases v)
  case (JObj m)
  have "map_of (map (\<lambda>(k, v). (k, as_read v)) m) k = map_option as_read (map_of m k)" by (induction m) auto
  then show ?thesis by (cases "map_of m k") (simp_all add: JObj)
qed auto

lemma getk_as_read: "getk (as_read v) ks = map_option as_read (getk v ks)"
  by (induction ks arbitrary: v) (auto simp: getk_def at_key_as_read split: Option.bind_splits)

lemma isNull_as_read: "isNull (as_read v) = isNull v"
  by (cases v) (simp_all add: isNull_def)

lemma typed_getk: "json_typed v \<Longrightarrow> getk v ks = Some w \<Longrightarrow> json_typed w"
proof (induction ks arbitrary: v)
  case (Cons k ks)
  then obtain u where u: "at_key v k = Some u" "getk u ks = Some w" by (auto simp: getk_def split: Option.bind_splits)
  have "json_typed u" using u(1) Cons.prems(1) typed.obj_get [of _ k] by (cases v) auto
  then show ?case using Cons.IH u(2) by blast
qed (simp add: getk_def)

lemma typed_setk: "json_typed v \<Longrightarrow> json_typed x \<Longrightarrow> setk ks x v = Some w \<Longrightarrow> json_typed w"
proof (induction ks arbitrary: v w)
  case (Cons k ks)
  then obtain u where u: "setk ks x (case v of JNull \<Rightarrow> JNull | JObj m \<Rightarrow> or_null (map_of m k)) = Some u"
    and v: "v = JNull \<and> w = JObj [(k, u)] \<or> (\<exists>m. v = JObj m \<and> w = JObj (put k u m))"
    by (cases v) (auto simp: setk_def jset_def)
  have "json_typed u" using Cons.IH [OF _ Cons.prems(2) u] Cons.prems(1) v typed.obj_get [of _ k] by auto
  then show ?case using v Cons.prems(1) typed.obj_put [of _ u k] by auto
qed (simp add: setk_def jset_def)

lemma getk_null: "getk JNull ks = Some JNull"
  by (induction ks) (simp_all add: getk_def)

lemma setk_keeps:
  assumes "setk ks' x p = Some p'" and "getk p ks' = Some JNull" and "x \<noteq> JNull" and "getk p ks = Some w" and "w \<noteq> JNull"
  shows "\<exists>w'. getk p' ks = Some w' \<and> w' \<noteq> JNull"
  using assms
proof (induction ks arbitrary: ks' p p')
  case Nil
  then show ?case by (cases ks'; cases p) (auto simp: getk_def setk_def jset_def)
next
  case (Cons k ks)
  then obtain m where p: "p = JObj m" using getk_null [of "k # ks"] by (cases p) (auto simp: getk_def split: Option.bind_splits)
  show ?case
  proof (cases ks')
    case Nil
    then show ?thesis using Cons.prems p by (simp add: getk_def)
  next
    case (Cons k' js)
    then obtain u where u: "setk js x (or_null (map_of m k')) = Some u" "p' = JObj (put k' u m)"
      using Cons.prems(1) p by (auto simp: setk_def jset_def)
    then show ?thesis using Cons.IH [OF u(1)] Cons.prems Cons p by (cases "k = k'") (auto simp: getk_def)
  qed
qed


definition settled :: "(string list \<times> json) list \<Rightarrow> json \<Rightarrow> bool" where
  "settled ds p \<longleftrightarrow> list_all (\<lambda>(ks, v). \<exists>w. getk p ks = Some w \<and> w \<noteq> JNull) ds"

lemma isNull_iff: "isNull v \<longleftrightarrow> v = JNull"
  by (cases v) (simp_all add: isNull_def)

lemma conf_default_run:
  assumes "conf_default ks v c = Inr c'" and "v \<noteq> JNull" and "json_typed v" and "json_typed (pset c)" and "settled ds (pset c)"
  shows "json_typed (pset c') \<and> settled ((ks, v) # ds) (pset c') \<and> conf_file c' = conf_file c \<and>
     (need_write c' = need_write c \<and> pset c' = pset c \<or> need_write c')"
proof -
  obtain w where w: "getk (pset c) ks = Some w" using assms(1) by (auto simp: conf_default_def split: option.splits)
  show ?thesis
  proof (cases "w = JNull")
    case True
    then obtain p where p: "setk ks v (pset c) = Some p" "c' = c\<lparr>pset := p, need_write := True\<rparr>"
      using assms(1) w by (auto simp: conf_default_def isNull_iff split: option.splits)
    have "getk p ks = Some v" using jget_jset p(1) unfolding getk_def setk_def by blast
    moreover have "settled ds p" using assms(5) setk_keeps [OF p(1)] w True assms(2) by (fastforce simp: settled_def list_all_iff)
    ultimately show ?thesis using p typed_setk [OF assms(4,3) p(1)] assms(2) by (simp add: settled_def)
  next
    case False
    then have "c' = c" using assms(1) w by (simp add: conf_default_def isNull_iff)
    then show ?thesis using assms w False by (simp add: settled_def)
  qed
qed

lemma construct_conf_run:
  assumes "construct_conf ds c = Inr c'" and "\<forall>(ks, v) \<in> set ds. v \<noteq> JNull \<and> json_typed v" and "json_typed (pset c)" and "settled es (pset c)"
  shows "json_typed (pset c') \<and> settled (ds @ es) (pset c') \<and> conf_file c' = conf_file c \<and> (\<not> need_write c' \<longrightarrow> pset c' = pset c \<and> \<not> need_write c)"
  using assms
proof (induction ds arbitrary: c es)
  case (Cons d ds)
  obtain ks v where d: "d = (ks, v)" by (cases d)
  obtain c1 where c1: "conf_default ks v c = Inr c1" "construct_conf ds c1 = Inr c'" using Cons.prems(1) d by (auto simp: bind_r_Inr_iff)
  note step = conf_default_run [OF c1(1) _ _ Cons.prems(3,4)]
  have "settled (ds @ (ks, v) # es) (pset c') \<longleftrightarrow> settled ((d # ds) @ es) (pset c')" by (auto simp: settled_def d)
  then show ?case using Cons.IH [OF c1(2), of "(ks, v) # es"] step Cons.prems(2) by (auto simp: d)
qed simp

lemma construct_conf_settled: "settled ds (pset c) \<Longrightarrow> construct_conf ds c = Inr c"
  by (induction ds) (auto simp: settled_def conf_default_def isNull_iff bind_r_def)

lemma settled_as_read: "settled ds p \<Longrightarrow> settled ds (as_read p)"
  using isNull_as_read by (fastforce simp: settled_def list_all_iff getk_as_read isNull_iff)

lemma base_conf_typed: "BaseConf files filename = Inr c \<Longrightarrow> json_typed (pset c)"
  by (auto simp: BaseConf_def read_stream_def bind_r_Inr_iff split: option.splits if_splits intro: typed.parse_gives [of JNull])

text \<open>What the accessors make of two configurations is the same.\<close>

definition same_settings :: "base_conf \<Rightarrow> base_conf \<Rightarrow> bool" where
  "same_settings c c' \<longleftrightarrow>
     (\<forall>key. conf_get asString key c' = conf_get asString key c \<and> conf_get asInt key c' = conf_get asInt key c \<and>
        conf_get asBool key c' = conf_get asBool key c \<and> conf_get asDouble key c' = conf_get asDouble key c \<and> conf_has key c' = conf_has key c)"

lemma conf_get_as_read:
  assumes "json_typed (pset c)" and "\<And>w. json_typed w \<Longrightarrow> conv (as_read w) = conv w"
  shows "conf_get conv key (c'\<lparr>pset := as_read (pset c)\<rparr>) = conf_get conv key c"
  using typed_getk [OF assms(1), of "split key (CHR ''.'')"] assms(2)
  by (cases "getk (pset c) (split key (CHR ''.''))") (auto simp: conf_get_def getv_def getk_as_read isNull_as_read bind_r_def opt_r_def)

lemma same_settings_as_read:
  assumes "json_typed (pset c)"
  shows "same_settings c (c'\<lparr>pset := as_read (pset c)\<rparr>)"
proof -
  have "conf_has key (c'\<lparr>pset := as_read (pset c)\<rparr>) = conf_has key c" for key
    by (cases "getk (pset c) (split key (CHR ''.''))") (simp_all add: conf_has_def getv_def getk_as_read isNull_as_read bind_r_def opt_r_def)
  then show ?thesis by (simp add: same_settings_def conf_get_as_read [OF assms] as_read_conversions)
qed

lemma server_defaults_ok: "\<forall>(ks, v) \<in> set server_defaults. v \<noteq> JNull \<and> json_typed v"
  by (simp add: server_defaults_def int_limits)

lemma construct_conf_comments: "construct_conf ds c = Inr c' \<Longrightarrow> comments_of c' = comments_of c"
proof (induction ds arbitrary: c)
  case (Cons d ds)
  obtain ks v where d: "d = (ks, v)" by (cases d)
  then obtain c1 where c1: "conf_default ks v c = Inr c1" "construct_conf ds c1 = Inr c'" using Cons.prems by (auto simp: bind_r_Inr_iff)
  have "comments_of c1 = comments_of c" using c1(1) by (auto simp: conf_default_def split: option.splits if_splits)
  with Cons.IH [OF c1(2)] show ?case by simp
qed simp

text \<open>
  C37: the configuration of a server survives a restart. Let the configuration file not exist or have no comments, let a start
  have completed the configuration with defaults and written it, and let it have no real numbers, no nesting beyond the limit of
  the reader and no names with a zero character. Then the next start reads the file, finds nothing to add, leaves the file alone,
  and all settings have the values they had.
\<close>

theorem server_conf_restart:
  assumes "server_conf commented files writable (Some f) = Inr (c, files')" and "need_write c" and "writable f"
    and "no_reals (pset c)" and "nests_within 1000 (pset c)" and "plain_names (pset c)"
    and "case files f of None \<Rightarrow> True | Some doc \<Rightarrow> no_comments False doc"
  shows "\<exists>c'. server_conf commented files' writable (Some f) = Inr (c', files') \<and> \<not> need_write c' \<and> same_settings c c'"
proof -
  obtain c0 where c0: "BaseConf files (Some f) = Inr c0" "construct_conf server_defaults c0 = Inr c" "files' = write_to_file commented writable c files"
    using assms(1,2) by (auto simp: server_conf_def bind_r_Inr_iff)
  note run = construct_conf_run [OF c0(2) server_defaults_ok base_conf_typed [OF c0(1)], of "[]"]
  have typed: "json_typed (pset c)" and settled: "settled server_defaults (pset c)" and fname: "conf_file c = f"
    using run c0(1) by (auto simp: settled_def BaseConf_def bind_r_Inr_iff split: option.splits)
  have "comments_of c = None"
    using construct_conf_comments [OF c0(2)] c0(1) assms(7) by (auto simp: BaseConf_def bind_r_Inr_iff split: option.splits)
  then have "files' f = Some (styled_write (pset c) @ [CHR 0x0A])" using c0(3) assms(2,3) fname by (simp add: write_to_file_def conf_text_def)
  moreover have "parse (styled_write (pset c) @ [CHR 0x0A]) JNull = Inr (True, as_read (pset c))"
    using styled_parse [OF typed assms(4-6), of "[CHR 0x0A]" JNull] by (simp add: is_json_space_def)
  moreover define cm where "cm = (if no_comments False (styled_write (pset c) @ [CHR 0x0A]) then None else Some (styled_write (pset c) @ [CHR 0x0A]))"
  ultimately have b: "BaseConf files' (Some f) = Inr (c\<lparr>need_write := False, comments_of := cm, pset := as_read (pset c)\<rparr>)"
    using fname by (cases c) (simp add: BaseConf_def read_stream_def bind_r_def)
  let ?c = "c\<lparr>need_write := False, comments_of := cm, pset := as_read (pset c)\<rparr>"
  have "construct_conf server_defaults ?c = Inr ?c"
    using settled_as_read [OF settled] by (intro construct_conf_settled) simp
  with b have "server_conf commented files' writable (Some f) = Inr (?c, files')"
    by (simp add: server_conf_def bind_r_def)
  then show ?thesis using same_settings_as_read [OF typed, of "c\<lparr>need_write := False, comments_of := cm\<rparr>"] by auto
qed

definition first_conf :: base_conf where
  "first_conf = (case server_conf (\<lambda>_ _. []) (\<lambda>_. None) (\<lambda>_. True) (Some ''bde.json'') of Inr (c, fs) \<Rightarrow> c)"

lemma first_start:
  "\<exists>fs. server_conf (\<lambda>_ _. []) (\<lambda>_. None) (\<lambda>_. True) (Some ''bde.json'') = Inr (first_conf, fs)" "need_write first_conf"
  "no_reals (pset first_conf)" "nests_within 1000 (pset first_conf)" "plain_names (pset first_conf)"
  by (auto simp: first_conf_def server_conf_def BaseConf_def server_defaults_def conf_default_def getk_def setk_def jset_def bind_r_def isNull_def)

theorem server_conf_restart_witness:
  "\<exists>fs c'. server_conf (\<lambda>_ _. []) (\<lambda>_. None) (\<lambda>_. True) (Some ''bde.json'') = Inr (first_conf, fs) \<and>
     server_conf (\<lambda>_ _. []) fs (\<lambda>_. True) (Some ''bde.json'') = Inr (c', fs) \<and> same_settings first_conf c'"
proof -
  obtain fs where fs: "server_conf (\<lambda>_ _. []) (\<lambda>_. None) (\<lambda>_. True) (Some ''bde.json'') = Inr (first_conf, fs)" using first_start(1) by blast
  from server_conf_restart [OF fs first_start(2) _ first_start(3-5)] fs show ?thesis by auto
qed

end
