(* ===== verification/Agent_Process.thy ===== *)
theory Agent_Process
  imports Agent_Manager Dtn_Agent Conf
begin

text \<open>
  The process of the agents, \<open>src/agent/main.cc\<close>: the manager takes its settings from the configuration, and for every
  member of \<open>modules\<close> a module of the given type is made. What the modules keep is the list of their types and configurations,
  in the order of the modules of the manager.
\<close>

type_synonym modules = "(string \<times> json) list"

section \<open>The settings of the manager\<close>

text \<open>The members of \<open>AgentManager\<close> that read settings, in the order of their declaration: the store, the time series and the queue.\<close>

definition manager_settings :: "base_conf \<Rightarrow> (exn, string \<times> int) result" where
  "manager_settings conf =
     bind_r (conf_get asString ''agent.store.host'' conf) (\<lambda>_.
     bind_r (conf_get asInt ''agent.store.port'' conf) (\<lambda>_.
     bind_r (conf_get asString ''agent.store.db'' conf) (\<lambda>_.
     bind_r (conf_get asString ''agent.tsdb.host'' conf) (\<lambda>_.
     bind_r (conf_get asInt ''agent.tsdb.port'' conf) (\<lambda>_.
     bind_r (conf_get asString ''agent.tsdb.db'' conf) (\<lambda>_.
     bind_r (conf_get asString ''agent.mq_server.host'' conf) (\<lambda>host.
     bind_r (conf_get asInt ''agent.mq_server.port'' conf) (\<lambda>port.
     Inr (host, port)))))))))"

definition manager_of :: "string \<Rightarrow> base_conf \<Rightarrow> (exn, modules am) result" where
  "manager_of cid conf =
     bind_r (manager_settings conf) (\<lambda>(host, port).
     bind_r (conf_get_default asString ''agent.mq_server.cacert'' [] conf) (\<lambda>ca.
     bind_r (conf_get_default asString ''agent.mq_server.psk_id'' [] conf) (\<lambda>psk_id.
     bind_r (conf_get_default asString ''agent.mq_server.psk'' [] conf) (\<lambda>psk.
     AgentManager cid host port ca psk_id psk []))))"

section \<open>The modules\<close>

definition module_types :: "string list" where
  "module_types = [''LocalStorage'', ''SharedStorage'', ''DTN'', ''Launcher'']"

text \<open>The constructors of the four kinds of modules differ in the type only.\<close>

definition construct_agent :: "string \<Rightarrow> json \<Rightarrow> (exn, agent) result" where
  "construct_agent type conf =
     bind_r (q_str conf [K ''id'']) (\<lambda>i. bind_r (q_str conf [K ''name'']) (\<lambda>n. Inr (new_agent i n type)))"

definition make_module :: "string \<Rightarrow> json \<Rightarrow> (modules, unit) am_act" where
  "make_module type conf =
     bind_a (lift_r (construct_agent type conf)) (\<lambda>a.
     bind_a (am_add a) (\<lambda>_.
     upd_a (\<lambda>s. s\<lparr>am_mods := am_mods s @ [(type, conf)]\<rparr>)))"

definition init_module :: "base_conf \<Rightarrow> string \<Rightarrow> (modules, unit) am_act" where
  "init_module conf k =
     (let base = ''modules.'' @ k
      in bind_a (lift_r (conf_get_type base conf)) (\<lambda>ty.
         if ty \<noteq> 7 then ret_a ()
         else
           bind_a (lift_r (conf_get_default asString (base @ ''.id'') [] conf)) (\<lambda>_.
           bind_a (lift_r (conf_get_default asString (base @ ''.name'') [] conf)) (\<lambda>_.
           bind_a (lift_r (conf_get asString (base @ ''.type'') conf)) (\<lambda>type.
           if type \<in> set module_types
           then bind_a (lift_r (q_get (pset conf) [K ''modules'', K k])) (make_module type)
           else ret_a ())))))"

definition init_modules :: "base_conf \<Rightarrow> (modules, unit) am_act" where
  "init_modules conf = bind_a (lift_r (conf_get_keys ''modules'' conf)) (foreach_a (init_module conf))"

definition agent_main :: "string \<Rightarrow> base_conf \<Rightarrow> (exn, modules am) result" where
  "agent_main cid conf =
     bind_r (manager_of cid conf) (\<lambda>s. case init_modules conf s of (Inl e, _) \<Rightarrow> Inl e | (Inr _, s') \<Rightarrow> Inr s')"

section \<open>Which modules are made\<close>

text \<open>
  An entry of the configuration as it is meant: its name has no dot; when it is an object, it has a type, and identifier and name
  are missing or texts.
\<close>

definition text_or_null :: "json \<Rightarrow> bool" where
  "text_or_null v \<longleftrightarrow> v = JNull \<or> isString v"

fun entry_ok :: "string \<times> json \<Rightarrow> bool" where
  "entry_ok (k, JObj m) \<longleftrightarrow>
     k \<noteq> [] \<and> CHR ''.'' \<notin> set k \<and> text_or_null (or_null (map_of m ''id'')) \<and> text_or_null (or_null (map_of m ''name'')) \<and>
     isString (or_null (map_of m ''type''))"
| "entry_ok (k, v) \<longleftrightarrow> k \<noteq> [] \<and> CHR ''.'' \<notin> set k"

definition text_of :: "json \<Rightarrow> string" where
  "text_of v = (case asString v of Some s \<Rightarrow> s | None \<Rightarrow> [])"

fun known_module :: "string \<times> json \<Rightarrow> bool" where
  "known_module (k, JObj m) \<longleftrightarrow> text_of (or_null (map_of m ''type'')) \<in> set module_types"
| "known_module (k, v) \<longleftrightarrow> False"

fun member_text :: "json \<Rightarrow> string \<Rightarrow> string" where
  "member_text (JObj m) k = text_of (or_null (map_of m k))"
| "member_text v k = []"

definition module_agent :: "string \<Rightarrow> json \<Rightarrow> agent" where
  "module_agent q v =
     (let i = member_text v ''id''; n = member_text v ''name''; t = member_text v ''type''
      in \<lparr>ag_id = i, ag_name = n, ag_type = t, ag_queue = q,
          ag_prop = jobj [(''id'', JStr i), (''name'', JStr n), (''type'', JStr t), (''queue'', JStr q)], ag_managed = True, ag_stage = 0\<rparr>)"

lemma text_or_null_asString: "text_or_null v \<Longrightarrow> asString v = Some (text_of v)"
  by (cases v) (auto simp: text_or_null_def text_of_def isString_def)

lemma isString_asString: "isString v \<Longrightarrow> asString v = Some (text_of v) \<and> v \<noteq> JNull"
  by (cases v) (auto simp: text_of_def isString_def)

lemma split_module_key:
  assumes "k \<noteq> []" and "CHR ''.'' \<notin> set k"
  shows "split (''modules.'' @ k) (CHR ''.'') = [''modules'', k]"
    and "x \<noteq> [] \<Longrightarrow> CHR ''.'' \<notin> set x \<Longrightarrow> split ((''modules.'' @ k) @ CHR ''.'' # x) (CHR ''.'') = [''modules'', k, x]"
proof -
  have m: "CHR ''.'' \<notin> set ''modules''" by simp
  show "split (''modules.'' @ k) (CHR ''.'') = [''modules'', k]"
    using split_cons [OF m, of k] split_single [OF assms(2)] assms(1) by simp
  show "split ((''modules.'' @ k) @ CHR ''.'' # x) (CHR ''.'') = [''modules'', k, x]" if "x \<noteq> []" "CHR ''.'' \<notin> set x"
    using split_cons [OF m, of "k @ CHR ''.'' # x"] split_cons [OF assms(2), of x] split_single [OF that(2)] that(1) by simp
qed

lemma getk_member:
  assumes "pset conf = JObj os" and "map_of os ''modules'' = Some (JObj ms)" and "map_of ms k = Some v"
    and "k \<noteq> []" and "CHR ''.'' \<notin> set k"
  shows "getv (''modules.'' @ k) conf = Inr v" "jget (pset conf) [K ''modules'', K k] = Some v"
    and "v = JObj m \<Longrightarrow> x \<noteq> [] \<Longrightarrow> CHR ''.'' \<notin> set x \<Longrightarrow>
      getv ((''modules.'' @ k) @ CHR ''.'' # x) conf = Inr (or_null (map_of m x))"
proof -
  show "getv (''modules.'' @ k) conf = Inr v" "jget (pset conf) [K ''modules'', K k] = Some v"
    using assms(1-3) by (simp_all only: getv_def split_module_key(1) [OF assms(4,5)]) (simp_all add: getk_def)
  show "getv ((''modules.'' @ k) @ CHR ''.'' # x) conf = Inr (or_null (map_of m x))" if "v = JObj m" "x \<noteq> []" "CHR ''.'' \<notin> set x"
    using assms(1-3) that(1) by (simp only: getv_def split_module_key(2) [OF assms(4,5) that(2,3)]) (simp add: getk_def)
qed

text \<open>One entry: a module is added exactly for an object with one of the four types.\<close>

definition with_module :: "json \<Rightarrow> modules am \<Rightarrow> modules am" where
  "with_module v s =
     s\<lparr>mstore := mstore s @ [module_agent (am_queue s) v],
       am_cap := (if length (mstore s) = am_cap s then 2 * am_cap s else am_cap s), am_mods := am_mods s @ [(member_text v ''type'', v)]\<rparr>"

lemma make_module_run:
  assumes "text_or_null (or_null (map_of m ''id''))" and "text_or_null (or_null (map_of m ''name''))"
  shows "make_module (member_text (JObj m) ''type'') (JObj m) s = (Inr (), with_module (JObj m) s)"
  using assms [THEN text_or_null_asString]
  by (simp add: make_module_def construct_agent_def q_str_def am_add_def manage_def new_agent_def with_module_def module_agent_def bind_a_run
    bind_r_def jset_def jobj_def Let_def)

lemma init_module_run:
  assumes "pset conf = JObj os" and "map_of os ''modules'' = Some (JObj ms)" and "map_of ms k = Some v" and "entry_ok (k, v)"
  shows "init_module conf k s = (Inr (), if known_module (k, v) then with_module v s else s)"
proof -
  have k: "k \<noteq> []" "CHR ''.'' \<notin> set k" using assms(4) by (cases v; simp)+
  note get = getk_member [OF assms(1-3) k]
  show ?thesis
  proof (cases v)
    case (JObj m)
    have id: "getv ((''modules.'' @ k) @ ''.id'') conf = Inr (or_null (map_of m ''id''))"
      and name: "getv ((''modules.'' @ k) @ ''.name'') conf = Inr (or_null (map_of m ''name''))"
      and type: "getv ((''modules.'' @ k) @ ''.type'') conf = Inr (or_null (map_of m ''type''))"
      using get(3) [OF JObj] by simp_all
    have ok: "text_or_null (or_null (map_of m ''id''))" "text_or_null (or_null (map_of m ''name''))"
      "asString (or_null (map_of m ''type'')) = Some (text_of (or_null (map_of m ''type'')))" "or_null (map_of m ''type'') \<noteq> JNull"
      using assms(4) JObj isString_asString by auto
    have "\<exists>i. conf_get_default asString ((''modules.'' @ k) @ ''.id'') [] conf = Inr i"
      "\<exists>n. conf_get_default asString ((''modules.'' @ k) @ ''.name'') [] conf = Inr n"
      using text_or_null_asString [OF ok(1)] text_or_null_asString [OF ok(2)]
      unfolding conf_get_default_def id name by (auto simp: bind_r_def isNull_iff)
    moreover have "conf_get asString ((''modules.'' @ k) @ ''.type'') conf = Inr (text_of (or_null (map_of m ''type'')))"
      using ok(3,4) unfolding conf_get_def type by (simp add: bind_r_def isNull_iff)
    moreover have "conf_get_type (''modules.'' @ k) conf = Inr 7" using get(1) JObj by (simp add: conf_get_type_def bind_r_def)
    ultimately show ?thesis using JObj get(2) make_module_run [OF ok(1,2), of s]
      unfolding init_module_def Let_def by (auto simp only: bind_a_run lift_r_def) (auto simp: q_get_def ret_a_def)
  qed (use get(1) in \<open>simp_all add: init_module_def Let_def conf_get_type_def bind_a_run bind_r_def\<close>)
qed

lemma init_modules_each:
  assumes "pset conf = JObj os" and "map_of os ''modules'' = Some (JObj ms)" and "distinct (keys ms)"
    and "set es \<subseteq> set ms" and "list_all entry_ok es"
  shows "foreach_a (init_module conf) (map fst es) s = (Inr (), fold with_module (map snd (filter known_module es)) s)"
  using assms(4,5)
proof (induction es arbitrary: s)
  case (Cons e es)
  obtain k v where e: "e = (k, v)" by (cases e)
  have "map_of ms k = Some v" using Cons.prems(1) assms(3) e by (auto simp: keys_def)
  then show ?case using init_module_run [OF assms(1,2), of k v s] Cons by (simp add: e bind_a_run)
qed simp

lemma fold_with_module:
  "am_queue (fold with_module vs s) = am_queue s"
  "mstore (fold with_module vs s) = mstore s @ map (module_agent (am_queue s)) vs"
  "am_mods (fold with_module vs s) = am_mods s @ map (\<lambda>v. (member_text v ''type'', v)) vs"
  by (induction vs arbitrary: s) (simp_all add: with_module_def)

text \<open>
  C34: let the names of the entries under \<open>modules\<close> be non-empty and without dots, let those of the entries that are objects have a
  textual \<open>type\<close> and a textual \<open>id\<close> and \<open>name\<close> or none, and let the settings of the manager be present. Then the start makes a module,
  managed and with the queue of the process, for exactly the entries that are objects of one of the four types, in the order of
  their names.
\<close>

theorem configured_modules_made:
  assumes "pset conf = JObj os" and "map_of os ''modules'' = Some (JObj ms)" and "distinct (keys ms)" and "list_all entry_ok ms"
    and "manager_of cid conf = Inr s"
  shows "\<exists>s'. agent_main cid conf = Inr s' \<and>
     mstore s' = map (\<lambda>(k, v). module_agent (rpc_queue cid) v) (filter known_module ms) \<and>
     am_mods s' = map (\<lambda>(k, v). (member_text v ''type'', v)) (filter known_module ms)"
proof -
  have keys: "conf_get_keys ''modules'' conf = Inr (keys ms)"
  proof -
    have "split ''modules'' (CHR ''.'') = [''modules'']" using split_single [of "CHR ''.''" "''modules''"] by simp
    then show ?thesis using assms(1,2) by (simp add: conf_get_keys_def getv_def getk_def bind_r_def isNull_def)
  qed
  have s: "am_queue s = rpc_queue cid" "mstore s = []" "am_mods s = []"
    using assms(5) by (auto simp: manager_of_def AgentManager_def bind_r_def split: sum.splits prod.splits)
  have "init_modules conf s = (Inr (), fold with_module (map snd (filter known_module ms)) s)"
    using init_modules_each [OF assms(1-3) _ assms(4)] by (simp add: init_modules_def keys bind_a_run keys_def)
  then show ?thesis using assms(5) s by (simp add: agent_main_def bind_r_def fold_with_module comp_def split_beta)
qed

definition example_settings :: json where
  "example_settings =
     JObj [(''mq_server'', JObj [(''host'', JStr ''mq''), (''port'', JInt 1883)]),
           (''store'', JObj [(''db'', JStr ''bde''), (''host'', JStr ''db''), (''port'', JInt 27017)]),
           (''tsdb'', JObj [(''db'', JStr ''bde''), (''host'', JStr ''ts''), (''port'', JInt 8086)])]"

definition example_conf :: "(string \<times> json) list \<Rightarrow> base_conf" where
  "example_conf ms = \<lparr>pset = JObj [(''agent'', example_settings), (''modules'', JObj ms)], conf_file = ''agent.json'', need_write = False, comments_of = None\<rparr>"

lemma dotted_split:
  assumes "CHR ''.'' \<notin> set a" and "CHR ''.'' \<notin> set b" and "CHR ''.'' \<notin> set c" and "c \<noteq> []"
  shows "split (a @ CHR ''.'' # b @ CHR ''.'' # c) (CHR ''.'') = [a, b, c]"
  using split_cons [OF assms(1)] split_cons [OF assms(2)] split_single [OF assms(3)] assms(4) by simp

lemma setting_paths:
  "split ''agent.store.host'' (CHR ''.'') = [''agent'', ''store'', ''host'']"
  "split ''agent.store.port'' (CHR ''.'') = [''agent'', ''store'', ''port'']"
  "split ''agent.store.db'' (CHR ''.'') = [''agent'', ''store'', ''db'']"
  "split ''agent.tsdb.host'' (CHR ''.'') = [''agent'', ''tsdb'', ''host'']"
  "split ''agent.tsdb.port'' (CHR ''.'') = [''agent'', ''tsdb'', ''port'']"
  "split ''agent.tsdb.db'' (CHR ''.'') = [''agent'', ''tsdb'', ''db'']"
  "split ''agent.mq_server.host'' (CHR ''.'') = [''agent'', ''mq_server'', ''host'']"
  "split ''agent.mq_server.port'' (CHR ''.'') = [''agent'', ''mq_server'', ''port'']"
  "split ''agent.mq_server.cacert'' (CHR ''.'') = [''agent'', ''mq_server'', ''cacert'']"
  "split ''agent.mq_server.psk_id'' (CHR ''.'') = [''agent'', ''mq_server'', ''psk_id'']"
  "split ''agent.mq_server.psk'' (CHR ''.'') = [''agent'', ''mq_server'', ''psk'']"
  by (simp_all add: split.simps)

lemmas conf_exec = conf_get_def conf_get_default_def getv_def getk_def bind_r_def isNull_def setting_paths

lemma example_manager: "\<exists>s. manager_of cid (example_conf ms) = Inr s"
  by (simp add: manager_of_def manager_settings_def conf_exec example_conf_def example_settings_def AgentManager_def encryption_conf_def
    minInt_def maxInt_def)

theorem configured_modules_made_witness:
  "\<exists>s'. agent_main ''c1'' (example_conf [(''a'', JObj [(''id'', JStr ''d1''), (''type'', JStr ''DTN'')]), (''b'', JObj [(''type'', JStr ''Printer'')]),
       (''c'', JStr ''note'')]) = Inr s' \<and>
     map ag_id (mstore s') = [''d1''] \<and> map ag_type (mstore s') = [''DTN''] \<and> map ag_queue (mstore s') = [rpc_queue ''c1'']"
proof -
  define ms where "ms = [(''a'', JObj [(''id'', JStr ''d1''), (''type'', JStr ''DTN'')]), (''b'', JObj [(''type'', JStr ''Printer'')]), (''c'', JStr ''note'')]"
  obtain s where "manager_of ''c1'' (example_conf ms) = Inr s" using example_manager by blast
  from configured_modules_made [OF _ _ _ _ this, of _ ms] show ?thesis unfolding ms_def [symmetric]
    by (fastforce simp: example_conf_def ms_def text_or_null_def isString_def text_of_def module_types_def module_agent_def Let_def)
qed

text \<open>
  A name with a dot is looked up as a path: the module is left out without a word. The settings that the configuration of the agents
  is completed with are not enough for a start.
\<close>

lemma dotted_module_ignored:
  assumes "CHR ''.'' \<notin> set a" and "CHR ''.'' \<notin> set b" and "a \<noteq> []" and "b \<noteq> []"
  shows "init_modules (example_conf [(a @ CHR ''.'' # b, v)]) s = (Inr (), s)"
proof -
  have m: "CHR ''.'' \<notin> set ''modules''" by simp
  have "split ''modules'' (CHR ''.'') = [''modules'']" using split_single [OF m] by simp
  then have keys: "conf_get_keys ''modules'' (example_conf [(a @ CHR ''.'' # b, v)]) = Inr [a @ CHR ''.'' # b]"
    by (simp add: conf_get_keys_def getv_def getk_def bind_r_def isNull_def example_conf_def)
  have "split (''modules.'' @ a @ CHR ''.'' # b) (CHR ''.'') = [''modules'', a, b]"
    using dotted_split [OF m assms(1,2,4)] by simp
  then have "conf_get_type (''modules.'' @ a @ CHR ''.'' # b) (example_conf [(a @ CHR ''.'' # b, v)]) = Inr 0"
    using assms(1,3) by (simp only: conf_get_type_def getv_def) (auto simp: getk_def bind_r_def example_conf_def)
  then show ?thesis by (simp add: init_modules_def keys init_module_def bind_a_run Let_def ret_a_def)
qed

lemma default_conf_cannot_start:
  assumes "agent_conf commented (\<lambda>_. None) writable (Some f) = Inr (c, fs)"
  shows "agent_main cid c = Inl (Runtime_error ''conf::get() key agent.tsdb.host not found'')"
proof -
  have "manager_of cid c = Inl (Runtime_error ''conf::get() key agent.tsdb.host not found'')"
    using assms by (auto simp: agent_conf_def BaseConf_def agent_defaults_def conf_default_def setk_def jset_def manager_of_def
      manager_settings_def conf_exec minInt_def maxInt_def)
  then show ?thesis by (simp add: agent_main_def bind_r_def)
qed

end
