(* ===== verification/Ssa_Scanner.thy ===== *)
theory Ssa_Scanner
  imports Storage_Agent Conf
begin

text \<open>
  The scanner of shared storage, \<open>src/agent/scanner.cc\<close>: a process of its own that measures the object storage targets
  (OSTs) of a file system in turn and leaves the sum of their rates in a file, which the shared storage agent reads. The world
  is changed by the functions of a record: the output of a shell command, \<open>mkdir\<close> and writing a file; \<open>sh_edge\<close> is
  the character in front of an empty string.
\<close>

section \<open>State\<close>

record 'w scan_host =
  sh_popen :: "string \<Rightarrow> 'w \<Rightarrow> string option \<times> 'w"
  sh_mkdir :: "string \<Rightarrow> 'w \<Rightarrow> bool \<times> 'w"
  sh_write :: "string \<Rightarrow> string \<Rightarrow> 'w \<Rightarrow> 'w"
  sh_edge :: char

type_synonym ('w, 'a) scan_act = "('w, exn, 'a) act"

text \<open>The rates have no value until the first scan.\<close>

record scanner =
  m_id :: string
  m_scan_dir :: string
  m_stats_file :: string
  m_sleep_mins :: int
  m_iozone_exe :: string
  m_ost_low :: int
  m_ost_high :: int
  m_writebw :: "double option"
  m_readbw :: "double option"

definition tell :: "('w \<Rightarrow> 'a \<times> 'w) \<Rightarrow> ('w, 'a) scan_act" where
  "tell f = (\<lambda>w. let (a, w') = f w in (Inr a, w'))"

definition scan_cmd :: "'w scan_host \<Rightarrow> string \<Rightarrow> ('w, string) scan_act" where
  "scan_cmd h cmd = bind_a (tell (sh_popen h cmd)) (\<lambda>out. ret_a (case out of None \<Rightarrow> [] | Some t \<Rightarrow> last_chunk BUFSIZ [] t))"

section \<open>Configuration\<close>

definition ost_range :: "char \<Rightarrow> string \<Rightarrow> (exn, int \<times> int) result" where
  "ost_range edge s =
     bind_r (st_split_string edge s (CHR ''-'')) (\<lambda>parts.
     if length parts \<noteq> 2 then Inl (Runtime_error ''[SSA Scanner] OSTs needs to be in the format of OST1-OST2'')
     else
       case (stoi (parts ! 0), stoi (parts ! 1)) of
         (Inr low, Inr high) \<Rightarrow> Inr (low, high)
       | _ \<Rightarrow> Inl (Runtime_error ''[SSA Scanner] Parsing error in OST range in JSON.''))"

text \<open>The directory is made before the rest is looked at; that it cannot be made is only logged.\<close>

definition Scanner :: "'w scan_host \<Rightarrow> base_conf \<Rightarrow> ('w, scanner) scan_act" where
  "Scanner h conf =
     bind_a (lift_r (q_get (pset conf) [K ''data_folders'', K ''path''])) (\<lambda>path.
     if jempty path then throw_a (Runtime_error ''[SSA Scanner] data_folders path is required.'')
     else
       bind_a (lift_r (opt_r Json_error (asString path))) (\<lambda>p.
       bind_a (tell (sh_mkdir h (p @ ''/.ssa''))) (\<lambda>_.
       bind_a (lift_r (q_str (pset conf) [K ''id''])) (\<lambda>i.
       bind_a (lift_r (q_get (pset conf) [K ''iozone-executable''])) (\<lambda>iozone_path.
       if jempty iozone_path then throw_a (Runtime_error ''[SSA Scanner] iozone path is required.'')
       else
         bind_a (lift_r (opt_r Json_error (asString iozone_path))) (\<lambda>exe.
         bind_a (lift_r (bind_r (q_str (pset conf) [K ''sleep time'']) stoi)) (\<lambda>mins.
         bind_a (lift_r (bind_r (q_str (pset conf) [K ''OSTs'']) (ost_range (sh_edge h)))) (\<lambda>(low, high).
         ret_a \<lparr>m_id = i, m_scan_dir = p @ ''/.ssa'', m_stats_file = p @ ''/.ssa'' @ ''/stat-'' @ i, m_sleep_mins = mins,
           m_iozone_exe = exe, m_ost_low = low, m_ost_high = high, m_writebw = None, m_readbw = None\<rparr>))))))))"

section \<open>Measuring\<close>

text \<open>The names of the test files are kept from one target to the next.\<close>

definition scan_test_file :: "scanner \<Rightarrow> nat \<Rightarrow> string" where
  "scan_test_file sc k = m_scan_dir sc @ ''/testiozone.'' @ m_id sc @ ''.'' @ to_string (int k)"

definition spaced_names :: "string list \<Rightarrow> string" where
  "spaced_names fs = concat (map (\<lambda>j. j @ '' '') fs)"

definition setstripe_command :: "string \<Rightarrow> int \<Rightarrow> string" where
  "setstripe_command name ostid = ''lfs setstripe '' @ name @ '' -c 1 -i '' @ to_string ostid"

definition scan_iozone :: "string \<Rightarrow> string \<Rightarrow> nat \<Rightarrow> string list \<Rightarrow> string" where
  "scan_iozone exe test k fs =
     exe @ test @ '' -w -I -r 16M -s 16M -t '' @ to_string (int k + 1) @ '' -F '' @ spaced_names fs @
     '' 2>&1 | grep 'Children see throughput for'' @ [CHR 0x27]"

definition scan_throughput :: "string list \<Rightarrow> double option" where
  "scan_throughput result = (case stod (result ! 7) of Inr x \<Rightarrow> Some (x / 1024) | Inl _ \<Rightarrow> None)"

text \<open>The test of one kind with \<open>k + 1\<close> processes; \<open>None\<close> when iozone gave no result line.\<close>

definition iozone_test :: "'w scan_host \<Rightarrow> scanner \<Rightarrow> string \<Rightarrow> nat \<Rightarrow> string list \<Rightarrow> ('w, string list option) scan_act" where
  "iozone_test h sc test k fs =
     bind_a (scan_cmd h (scan_iozone (m_iozone_exe sc) test k fs)) (\<lambda>ret.
     bind_a (lift_r (st_split_string (sh_edge h) ret (CHR '' ''))) (\<lambda>result.
     ret_a (if length result < 8 then None else Some result)))"

fun ost_rounds :: "'w scan_host \<Rightarrow> scanner \<Rightarrow> int \<Rightarrow> nat list \<Rightarrow> string list \<Rightarrow> double \<Rightarrow> double \<Rightarrow>
    ('w, (string list \<times> double \<times> double) option) scan_act" where
  "ost_rounds h sc ostid [] fs writebw readbw = ret_a (Some (fs, writebw, readbw))"
| "ost_rounds h sc ostid (k # ks) fs writebw readbw =
     (let name = scan_test_file sc k; fs' = fs[k := name]
      in bind_a (scan_cmd h (setstripe_command name ostid)) (\<lambda>_.
         bind_a (iozone_test h sc '' -i0'' k fs') (\<lambda>w.
         case w of
           None \<Rightarrow> ret_a None
         | Some wr \<Rightarrow>
             let writebw' = better (scan_throughput wr) writebw writebw
             in bind_a (iozone_test h sc '' -i1'' k fs') (\<lambda>r.
                case r of
                  None \<Rightarrow> ret_a None
                | Some rr \<Rightarrow> ost_rounds h sc ostid ks fs' writebw' (better (scan_throughput rr) writebw' readbw)))))"

text \<open>
  The loop over the targets. The best rates are not reset between them. A scan that is given up keeps the sums it has; the
  counter of a range that ends at the largest integer overflows.
\<close>

definition add_rate :: "double \<Rightarrow> double option \<Rightarrow> double option" where
  "add_rate x = map_option (\<lambda>y. y + x)"

fun scan_osts :: "'w scan_host \<Rightarrow> int list \<Rightarrow> string list \<Rightarrow> double \<Rightarrow> double \<Rightarrow> scanner \<Rightarrow> ('w, int \<times> scanner) scan_act" where
  "scan_osts h [] fs writebw readbw sc = ret_a (0, sc)"
| "scan_osts h (ostid # osts) fs writebw readbw sc =
     bind_a (ost_rounds h sc ostid [0..<4] fs writebw readbw) (\<lambda>best.
     case best of
       None \<Rightarrow> ret_a (- 1, sc)
     | Some (fs', writebw', readbw') \<Rightarrow>
         let sc' = sc\<lparr>m_writebw := add_rate writebw' (m_writebw sc), m_readbw := add_rate readbw' (m_readbw sc)\<rparr>
         in bind_a (scan_cmd h (''rm -f '' @ spaced_names fs')) (\<lambda>_.
            if ostid = 2 ^ 31 - 1 then throw_a Undefined else scan_osts h osts fs' writebw' readbw' sc'))"

definition scan_potential_bandwidth :: "'w scan_host \<Rightarrow> scanner \<Rightarrow> ('w, int \<times> scanner) scan_act" where
  "scan_potential_bandwidth h sc =
     scan_osts h [m_ost_low sc..m_ost_high sc] (replicate 4 []) 0 0 (sc\<lparr>m_writebw := Some 0, m_readbw := Some 0\<rparr>)"

section \<open>The statistics file\<close>

text \<open>A stream writes doubles with six significant digits.\<close>

definition stats_text :: "double \<Rightarrow> double \<Rightarrow> string" where
  "stats_text writebw readbw = printf_g 6 writebw @ [CHR 0x0A] @ printf_g 6 readbw"

definition update_stats :: "'w scan_host \<Rightarrow> scanner \<Rightarrow> ('w, int) scan_act" where
  "update_stats h sc =
     (case (m_writebw sc, m_readbw sc) of
        (Some writebw, Some readbw) \<Rightarrow> bind_a (upd_a (sh_write h (m_stats_file sc) (stats_text writebw readbw))) (\<lambda>_. ret_a 0)
      | _ \<Rightarrow> throw_a Undefined)"

text \<open>
  How the shared storage agent reads the file, \<open>ifs >> writebw >> readbw\<close>: both variables start at 0, and a number that cannot be
  read is 0 and ends the reading. The numbers are separated by white space.
\<close>

definition read_rates :: "string \<Rightarrow> double \<times> double" where
  "read_rates s =
     (let second = dropWhile (\<lambda>c. \<not> is_space c) (dropWhile is_space s)
      in case stod s of Inl _ \<Rightarrow> (0, 0) | Inr w \<Rightarrow> (w, case stod second of Inl _ \<Rightarrow> 0 | Inr r \<Rightarrow> r))"

text \<open>The loop of \<open>run\<close> has no end; this is its first \<open>n\<close> rounds. That a scan was given up is not looked at; the
  seconds to sleep are an integer of 32 bits.\<close>

fun scan_run :: "'w scan_host \<Rightarrow> nat \<Rightarrow> scanner \<Rightarrow> ('w, scanner) scan_act" where
  "scan_run h 0 sc = ret_a sc"
| "scan_run h (Suc n) sc =
     bind_a (scan_potential_bandwidth h sc) (\<lambda>(code, sc').
     bind_a (update_stats h sc') (\<lambda>_.
     if - (2 ^ 31) \<le> m_sleep_mins sc' * 60 \<and> m_sleep_mins sc' * 60 < 2 ^ 31 then scan_run h n sc' else throw_a Undefined))"

end
