(* ===== verification/Decimals.thy ===== *)
theory Decimals
  imports Json_Text_Props
begin

text \<open>
  What \<open>strtod\<close> reads of a number that \<open>printf\<close> or a stream has written with \<open>p\<close> significant digits: a number whose
  relative error is at most half a unit of the last digit.
\<close>

section \<open>Digits\<close>

lemma digits_value_append: "digits_value (xs @ ys) = digits_value xs * 10 ^ length ys + digits_value ys"
proof (induction ys rule: rev_induct)
  case (snoc c ys)
  have "digits_value (zs @ [c]) = 10 * digits_value zs + (of_char c - 48)" for zs by (simp add: digits_value_def)
  from this [of ys] this [of "xs @ ys"] snoc show ?case by (simp add: algebra_simps)
qed (simp add: digits_value_def)

lemma digits_value_digit: "0 \<le> n \<Longrightarrow> n < 10 \<Longrightarrow> digits_value [digit_char n] = nat n"
  using digit_char_value(2) [of n] by (simp add: digits_value_def digit_value_def nat_eq_iff)

lemma digits_value_zeros: "digits_value (replicate k (CHR ''0'')) = 0"
  by (induction k) (simp_all add: digits_value_append [of "[CHR ''0'']", simplified] digits_value_def)

lemma digits_value_uint: "0 \<le> n \<Longrightarrow> digits_value (uintToString n []) = nat n"
proof (induction "nat n" arbitrary: n rule: less_induct)
  case less
  show ?case
  proof (cases "n < 10")
    case True
    then show ?thesis using less.prems by (simp add: uint_digits1 digits_value_digit)
  next
    case False
    then have "digits_value (uintToString (n div 10) []) = nat (n div 10)" using less.hyps [of "n div 10"] by simp
    then have "digits_value (uintToString n []) = nat (n div 10) * 10 + nat (n mod 10)"
      using False by (simp add: uint_digits2 digits_value_append digits_value_digit)
    also have "\<dots> = nat n" using less.prems nat_mult_distrib [of 10 "n div 10"] nat_add_distrib [of "10 * (n div 10)" "n mod 10"] by simp
    finally show ?thesis .
  qed
qed

lemma uint_length: "1 \<le> n \<Longrightarrow> 10 ^ (length (uintToString n []) - 1) \<le> n \<and> n < 10 ^ length (uintToString n [])"
proof (induction "nat n" arbitrary: n rule: less_induct)
  case less
  show ?case
  proof (cases "n < 10")
    case True
    then show ?thesis using less.prems by (simp add: uint_digits1)
  next
    case False
    define k where "k = length (uintToString (n div 10) [])"
    have ih: "10 ^ (k - 1) \<le> n div 10" "n div 10 < 10 ^ k" using less.hyps [of "n div 10"] False by (simp_all add: k_def)
    have "uintToString (n div 10) [] \<noteq> []" using uint_all_digits [of "n div 10"] False by simp
    then have "(10 :: int) ^ k = 10 * 10 ^ (k - 1)" by (cases k) (simp_all add: k_def)
    then show ?thesis using ih False by (simp add: uint_digits2 k_def [symmetric]) linarith
  qed
qed

lemma uint_length_eq:
  assumes "10 ^ k \<le> n" and "n < 10 ^ Suc k"
  shows "length (uintToString n []) = Suc k"
proof -
  have n: "1 \<le> n" using assms(1) by (smt (verit) one_le_power)
  define l where "l = length (uintToString n [])"
  have "l \<noteq> 0" using uint_all_digits [of n] n by (simp add: l_def)
  have "(10 :: int) ^ (l - 1) < 10 ^ Suc k" "(10 :: int) ^ k < 10 ^ l" using uint_length [OF n] assms unfolding l_def
    by (meson le_less_trans)+
  then have "l - 1 < Suc k" "k < l" by (meson one_less_numeral_iff power_less_imp_less_exp semiring_norm(76))+
  then show ?thesis using \<open>l \<noteq> 0\<close> by (simp add: l_def)
qed

section \<open>The decimal exponent\<close>

lemma scale10_eq: "scale10 x k = x * 10 powi k"
proof (cases "0 \<le> k")
  case True
  then have "(10 :: double) powi k = 10 ^ nat k" by (simp add: power_int_def)
  then show ?thesis using True by (simp add: scale10_def)
next
  case False
  then have "(10 :: double) powi k = inverse (10 ^ nat (- k))" using power_int_minus [of "10 :: double" "- k"] by (simp add: power_int_def)
  then show ?thesis using False by (simp add: scale10_def divide_inverse)
qed

lemma dec_exponent_bounds:
  assumes "0 < x"
  shows "10 powi dec_exponent x \<le> x \<and> x < 10 powi (dec_exponent x + 1)"
proof (cases "1 \<le> x")
  case True
  define k where "k = length (uintToString \<lfloor>x\<rfloor> [])"
  have n: "1 \<le> \<lfloor>x\<rfloor>" using True by simp
  have k: "0 < k" using uint_all_digits [of "\<lfloor>x\<rfloor>"] n by (simp add: k_def)
  have "10 ^ (k - 1) \<le> x" "x < 10 ^ k"
    using uint_length [OF n] by (simp_all add: k_def le_floor_iff floor_less_iff)
  moreover have "\<lfloor>x\<rfloor> \<noteq> 0" using n by linarith
  then have "dec_exponent x = int (k - 1)" using True k by (simp add: dec_exponent_def num_digits_def k_def [symmetric] of_nat_diff)
  moreover have "int (k - 1) + 1 = int k" using k by simp
  ultimately show ?thesis by (simp only: power_int_of_nat)
next
  case False
  define m where "m = \<lceil>1 / x\<rceil> - 1"
  have "1 < 1 / x" using False assms by simp
  then have "1 < \<lceil>1 / x\<rceil>" by (simp only: less_ceiling_iff of_int_1)
  then have m: "1 \<le> m" by (simp add: m_def)
  define k where "k = length (uintToString m [])"
  have k: "0 < k" using uint_all_digits [of m] m by (simp add: k_def)
  have b: "10 ^ (k - 1) < \<lceil>1 / x\<rceil>" "\<lceil>1 / x\<rceil> \<le> 10 ^ k" using uint_length [OF m] by (auto simp: k_def m_def)
  then have "10 ^ (k - 1) < 1 / x" "1 / x \<le> 10 ^ k" by (simp_all only: less_ceiling_iff ceiling_le_iff) simp_all
  then have "x < 1 / 10 ^ (k - 1)" "1 / 10 ^ k \<le> x" using assms by (simp_all add: field_simps)
  moreover have "m \<noteq> 0" using m by linarith
  then have "dec_exponent x = - int k" using False by (simp add: dec_exponent_def num_digits_def k_def m_def [symmetric])
  moreover have "- int k + 1 = - int (k - 1)" using k by simp
  ultimately show ?thesis by (simp only: power_int_minus power_int_of_nat inverse_eq_divide)
qed

lemma round_even_bounds: "\<bar>of_int (round_even y) - y\<bar> \<le> 1 / 2" "\<lfloor>y\<rfloor> \<le> round_even y" "round_even y \<le> \<lfloor>y\<rfloor> + 1"
proof -
  define r where "r = y - of_int \<lfloor>y\<rfloor>"
  have r: "0 \<le> r" "r < 1" using floor_correct [of y] unfolding r_def by linarith+
  have y: "y = of_int \<lfloor>y\<rfloor> + r" by (simp add: r_def)
  have "round_even y = (if r < 1 / 2 then \<lfloor>y\<rfloor> else if 1 / 2 < r then \<lfloor>y\<rfloor> + 1 else if even \<lfloor>y\<rfloor> then \<lfloor>y\<rfloor> else \<lfloor>y\<rfloor> + 1)"
    by (simp add: round_even_def Let_def r_def)
  then consider "round_even y = \<lfloor>y\<rfloor>" "r \<le> 1 / 2" | "round_even y = \<lfloor>y\<rfloor> + 1" "1 / 2 \<le> r" by (fastforce split: if_splits)
  then have "\<bar>of_int (round_even y) - y\<bar> \<le> 1 / 2 \<and> \<lfloor>y\<rfloor> \<le> round_even y \<and> round_even y \<le> \<lfloor>y\<rfloor> + 1"
  proof cases
    case 1
    then have "of_int (round_even y) - y = - r" by (simp add: r_def)
    then show ?thesis using 1 r by simp
  next
    case 2
    then have "of_int (round_even y) - y = 1 - r" by (simp add: r_def)
    then show ?thesis using 2 r by simp
  qed
  then show "\<bar>of_int (round_even y) - y\<bar> \<le> 1 / 2" "\<lfloor>y\<rfloor> \<le> round_even y" "round_even y \<le> \<lfloor>y\<rfloor> + 1" by blast+
qed

section \<open>Reading\<close>

text \<open>What may follow a number: nothing, or a character that is no part of one.\<close>

definition ends_number :: "string \<Rightarrow> bool" where
  "ends_number rest \<longleftrightarrow> (case rest of [] \<Rightarrow> True | c # cs \<Rightarrow> \<not> is_digit c \<and> c \<notin> {CHR ''.'', CHR ''e'', CHR ''E''})"

lemma takeWhile_digits:
  assumes "list_all is_digit ds" and "\<And>c cs. rest = c # cs \<Longrightarrow> \<not> is_digit c"
  shows "takeWhile is_digit (ds @ rest) = ds" "dropWhile is_digit (ds @ rest) = rest"
proof -
  have "takeWhile is_digit rest = []" "dropWhile is_digit rest = rest" using assms(2) by (cases rest; simp)+
  then show "takeWhile is_digit (ds @ rest) = ds" "dropWhile is_digit (ds @ rest) = rest"
    using assms(1) by (induction ds) auto
qed

lemma dropped_zeros: "\<exists>k. f = drop_trailing_zeros f @ replicate k (CHR ''0'')"
proof
  have "takeWhile (\<lambda>c. c = CHR ''0'') (rev f) = replicate (length (takeWhile (\<lambda>c. c = CHR ''0'') (rev f))) (CHR ''0'')"
    by (rule replicate_eqI [symmetric, THEN sym]) (auto dest: set_takeWhileD)
  then show "f = drop_trailing_zeros f @ replicate (length (takeWhile (\<lambda>c. c = CHR ''0'') (rev f))) (CHR ''0'')"
    unfolding drop_trailing_zeros_def by (metis rev_append rev_replicate rev_rev_ident takeWhile_dropWhile_id)
qed

lemma digit_start:
  assumes "list_all is_digit ds" and "ds \<noteq> []"
  shows "dropWhile is_space (ds @ rest) = ds @ rest" "sign_of (ds @ rest) = (1, ds @ rest)"
  using assms by (cases ds; auto simp: is_space_def is_digit_def sign_of_def)+

text \<open>A number in fixed notation, with or without a fraction; what follows may be an exponent.\<close>

lemma stod_with_fraction:
  assumes "list_all is_digit i" and "i \<noteq> []" and "list_all is_digit f"
    and "\<And>c cs. tail = c # cs \<Longrightarrow> \<not> is_digit c \<and> c \<noteq> CHR ''.''"
  shows "stod (with_fraction i f @ tail) = Inr (of_nat (digits_value (i @ f)) / 10 ^ length f * 10 powi exponent_of tail)"
proof -
  obtain k where f: "f = drop_trailing_zeros f @ replicate k (CHR ''0'')" using dropped_zeros by blast
  define g where "g = drop_trailing_zeros f"
  have g: "list_all is_digit g" using assms(3) f unfolding g_def by (metis list_all_append)
  have "digits_value (i @ f) = digits_value (i @ g) * 10 ^ k"
    by (subst f) (simp add: g_def [symmetric] digits_value_append digits_value_zeros algebra_simps power_add)
  moreover have "length f = length g + k" by (subst f) (simp add: g_def)
  ultimately have val: "(of_nat (digits_value (i @ f)) / 10 ^ length f :: double) = of_nat (digits_value (i @ g)) / 10 ^ length g"
    by (simp add: power_add)
  have scale: "(if 0 \<le> e then m * 10 ^ nat e else m / 10 ^ nat (- e)) = m * 10 powi e" for m :: double and e
    using scale10_eq [of m e] by (simp add: scale10_def)
  have tail: "\<And>c cs. tail = c # cs \<Longrightarrow> \<not> is_digit c" using assms(4) by blast
  have dot: "\<not> is_digit (CHR ''.'')" by (simp add: is_digit_def)
  show ?thesis
  proof (cases "g = []")
    case True
    then have w: "with_fraction i f @ tail = i @ tail" by (simp add: with_fraction_def g_def)
    have 1: "takeWhile is_digit (i @ tail) = i" "dropWhile is_digit (i @ tail) = tail" using takeWhile_digits [OF assms(1) tail] by auto
    have 2: "takeWhile is_digit i = i" "dropWhile is_digit i = []" using takeWhile_digits [OF assms(1), of "[]"] by auto
    show ?thesis unfolding w val using True assms(2,4) digit_start [OF assms(1,2), of tail] 1
      by (cases tail) (simp_all add: stod_def Let_def scale 2)
  next
    case False
    then have w: "with_fraction i f @ tail = i @ (CHR ''.'' # g @ tail)" by (simp add: with_fraction_def g_def)
    have "takeWhile is_digit (i @ CHR ''.'' # g @ tail) = i" "dropWhile is_digit (i @ CHR ''.'' # g @ tail) = CHR ''.'' # g @ tail"
      using takeWhile_digits [OF assms(1), of "CHR ''.'' # g @ tail"] dot by auto
    then show ?thesis unfolding w
      using False assms(2) digit_start [OF assms(1,2), of "CHR ''.'' # g @ tail"] takeWhile_digits [OF g tail]
      by (simp add: stod_def Let_def val scale)
  qed
qed

lemma exponent_of_printed:
  assumes "ends_number rest"
  shows "exponent_of (''e'' @ (if e < 0 then ''-'' else ''+'') @
     (let es = uintToString \<bar>e\<bar> [] in if length es < 2 then ''0'' @ es else es) @ rest) = e"
proof -
  define es where "es = (let es = uintToString \<bar>e\<bar> [] in if length es < 2 then ''0'' @ es else es)"
  have zero: "digits_value (''0'' @ ds) = digits_value ds" for ds by (simp only: digits_value_append) (simp add: digits_value_def)
  have "digits_value es = nat \<bar>e\<bar>" unfolding es_def Let_def using zero digits_value_uint [of "\<bar>e\<bar>"] by simp
  moreover have "list_all is_digit es" unfolding es_def Let_def using uint_all_digits [of "\<bar>e\<bar>"] by (simp add: is_digit_def)
  then have "takeWhile is_digit (es @ rest) = es" using assms by (intro takeWhile_digits) (auto simp: ends_number_def)
  ultimately show ?thesis unfolding es_def [symmetric] by (simp add: exponent_of_def sign_of_def)
qed

text \<open>The digits and the exponent that are printed of a positive number.\<close>

lemma printed_digits:
  assumes "0 < x" and "0 < p"
  obtains d e where "10 ^ (p - 1) \<le> d" and "d < 10 ^ p"
    and "\<bar>of_int d * 10 powi (e - int p + 1) - x\<bar> \<le> x / (2 * 10 ^ (p - 1))"
    and "printf_g p x =
      (let ds = uintToString d []
       in if e < -4 \<or> int p \<le> e then
            with_fraction (take 1 ds) (drop 1 ds) @ ''e'' @ (if e < 0 then ''-'' else ''+'') @
              (let es = uintToString \<bar>e\<bar> [] in if length es < 2 then ''0'' @ es else es)
          else if 0 \<le> e then with_fraction (take (Suc (nat e)) ds) (drop (Suc (nat e)) ds)
          else with_fraction ''0'' (replicate (nat (- e) - 1) (CHR ''0'') @ ds))"
proof -
  define e0 where "e0 = dec_exponent x"
  define y where "y = x * 10 powi (int p - 1 - e0)"
  define d0 where "d0 = round_even y"
  have b: "10 powi e0 \<le> x" "x < 10 powi (e0 + 1)" using dec_exponent_bounds [OF assms(1)] by (simp_all add: e0_def)
  have inv: "(10 :: double) powi a * 10 powi b = 10 powi (a + b)" for a b by (simp add: power_int_add)
  have lo: "(10 :: double) ^ (p - 1) = 10 powi e0 * 10 powi (int p - 1 - e0)" and hi: "(10 :: double) ^ p = 10 powi (e0 + 1) * 10 powi (int p - 1 - e0)"
    using assms(2) by (simp_all only: inv) (simp_all add: power_int_def nat_diff_distrib)
  have pw: "(10 :: double) ^ (p - Suc 0) = 10 powi (int p - 1)" using assms(2) by (simp add: power_int_def nat_diff_distrib)
  have pos: "0 < (10 :: double) powi k" for k by (simp add: zero_less_power_int)
  have y: "10 ^ (p - 1) \<le> y" "y < 10 ^ p"
    unfolding y_def lo hi using b pos [of "int p - 1 - e0"] by (simp_all add: mult_right_mono)
  have "10 ^ (p - 1) \<le> \<lfloor>y\<rfloor>" "\<lfloor>y\<rfloor> < 10 ^ p" using y by (simp_all add: le_floor_iff floor_less_iff)
  then have d0: "10 ^ (p - 1) \<le> d0" "d0 \<le> 10 ^ p" using round_even_bounds(2,3) [of y] unfolding d0_def by linarith+
  have undo: "y * 10 powi (e0 - int p + 1) = x" unfolding y_def using inv [of "int p - 1 - e0" "e0 - int p + 1"] by (simp add: mult.assoc)
  have "\<bar>of_int d0 * 10 powi (e0 - int p + 1) - x\<bar> = \<bar>of_int d0 - y\<bar> * 10 powi (e0 - int p + 1)"
    using pos [of "e0 - int p + 1"] by (subst undo [symmetric]) (simp add: left_diff_distrib [symmetric] abs_mult)
  also have "\<dots> \<le> 1 / 2 * 10 powi (e0 - int p + 1)"
    using round_even_bounds(1) [of y] pos [of "e0 - int p + 1"] by (intro mult_right_mono) (simp_all add: d0_def)
  also have "\<dots> = 10 powi e0 / (2 * 10 ^ (p - 1))"
    using inv [of "e0 - int p + 1" "int p - 1"] by (simp add: pw field_simps)
  also have "\<dots> \<le> x / (2 * 10 ^ (p - 1))" using b(1) by (intro divide_right_mono) simp_all
  finally have err: "\<bar>of_int d0 * 10 powi (e0 - int p + 1) - x\<bar> \<le> x / (2 * 10 ^ (p - 1))" .
  define e where "e = (if d0 = 10 ^ p then e0 + 1 else e0)"
  define d where "d = (if d0 = 10 ^ p then 10 ^ (p - 1) else d0)"
  have "(10 :: int) ^ (p - 1) < 10 ^ p" using assms(2) by (intro power_strict_increasing) simp_all
  then have d: "10 ^ (p - 1) \<le> d" "d < 10 ^ p" using d0 by (auto simp: d_def)
  have "of_int d * (10 :: double) powi (e - int p + 1) = of_int d0 * 10 powi (e0 - int p + 1)"
  proof (cases "d0 = 10 ^ p")
    case True
    then show ?thesis using inv [of "int p - 1" "e0 + 1 - int p + 1"] inv [of "int p" "e0 - int p + 1"]
      by (simp add: d_def e_def pw add.commute)
  qed (simp add: d_def e_def)
  then have err': "\<bar>of_int d * 10 powi (e - int p + 1) - x\<bar> \<le> x / (2 * 10 ^ (p - 1))" using err by simp
  have x: "x \<noteq> 0" "\<not> x < 0" "\<bar>x\<bar> = x" using assms(1) by simp_all
  show thesis
  proof (rule that [OF d err'])
  qed (unfold printf_g_def Let_def scale10_eq d_def e_def d0_def y_def e0_def, simp only: x if_False append_Nil)
qed

text \<open>A number that was printed with \<open>p\<close> significant digits is read with a relative error of at most half a unit of the last.\<close>

lemma printf_g_read:
  assumes "0 \<le> x" and "0 < p" and "ends_number rest"
  shows "\<exists>y. stod (printf_g p x @ rest) = Inr y \<and> \<bar>y - x\<bar> \<le> x / (2 * 10 ^ (p - 1))"
proof (cases "x = 0")
  case True
  have "exponent_of rest = 0" using assms(3) by (cases rest) (auto simp: exponent_of_def ends_number_def)
  then have "stod (''0'' @ rest) = Inr 0"
    using stod_with_fraction [of "''0''" "[]" rest] assms(3)
    by (cases rest) (simp_all add: ends_number_def with_fraction_def drop_trailing_zeros_def is_digit_def digits_value_def)
  then show ?thesis using True by (simp add: printf_g_def)
next
  case False
  then obtain d e where d: "10 ^ (p - 1) \<le> d" "d < 10 ^ p"
    and err: "\<bar>of_int d * 10 powi (e - int p + 1) - x\<bar> \<le> x / (2 * 10 ^ (p - 1))"
    and out: "printf_g p x =
      (let ds = uintToString d []
       in if e < -4 \<or> int p \<le> e then
            with_fraction (take 1 ds) (drop 1 ds) @ ''e'' @ (if e < 0 then ''-'' else ''+'') @
              (let es = uintToString \<bar>e\<bar> [] in if length es < 2 then ''0'' @ es else es)
          else if 0 \<le> e then with_fraction (take (Suc (nat e)) ds) (drop (Suc (nat e)) ds)
          else with_fraction ''0'' (replicate (nat (- e) - 1) (CHR ''0'') @ ds))"
    using printed_digits [of x p] assms(1,2) by (metis less_eq_rat_def)
  define ds where "ds = uintToString d []"
  have "(0 :: int) < 10 ^ (p - 1)" by simp
  then have "0 \<le> d" using d(1) by linarith
  then have ds: "list_all is_digit ds" "digits_value ds = nat d" "ds \<noteq> []" using uint_all_digits [of d] digits_value_uint [of d] by (simp_all add: ds_def)
  have len: "length ds = p" using uint_length_eq [of "p - 1" d] d assms(2) by (simp add: ds_def)
  have all: "list_all is_digit (take n ds)" "list_all is_digit (drop n ds)" for n
    using ds(1) by (auto simp: list_all_iff dest: in_set_takeD in_set_dropD)
  have val: "(of_nat (nat d) :: double) = of_int d" using \<open>0 \<le> d\<close> by simp
  have shift: "(of_int d / 10 ^ n * 10 powi k :: double) = of_int d * 10 powi (k - int n)" for n k
    by (simp add: power_int_diff)
  have shift': "(of_int d / 10 ^ n :: double) = of_int d * 10 powi k" if "int n = - k" for n k
    using shift [of n 0] that by simp
  have tail: "exponent_of rest = 0" "\<And>c cs. rest = c # cs \<Longrightarrow> \<not> is_digit c \<and> c \<noteq> CHR ''.''"
    using assms(3) by (cases rest; auto simp: exponent_of_def ends_number_def)+
  have plain: "stod (with_fraction i f @ rest) = Inr (of_nat (digits_value (i @ f)) / 10 ^ length f)"
    if "list_all is_digit i" "i \<noteq> []" "list_all is_digit f" for i f
    using stod_with_fraction [OF that tail(2)] tail(1) by simp
  have "stod (printf_g p x @ rest) = Inr (of_int d * 10 powi (e - int p + 1))"
  proof -
    consider "e < -4 \<or> int p \<le> e" | "0 \<le> e" "e < int p" | "-4 \<le> e" "e < 0" by linarith
    then show ?thesis
    proof cases
      case 1
      define tl where "tl = ''e'' @ (if e < 0 then ''-'' else ''+'') @ (let es = uintToString \<bar>e\<bar> [] in if length es < 2 then ''0'' @ es else es) @ rest"
      have tl: "exponent_of tl = e" unfolding tl_def by (rule exponent_of_printed [OF assms(3)])
      have "printf_g p x @ rest = with_fraction (take 1 ds) (drop 1 ds) @ tl" using 1 by (simp add: out Let_def ds_def tl_def)
      moreover have "stod (with_fraction (take 1 ds) (drop 1 ds) @ tl) = Inr (of_int d / 10 ^ (p - 1) * 10 powi e)"
        using stod_with_fraction [OF all(1) _ all(2), of 1 tl 1] ds len val tl by (simp add: tl_def is_digit_def)
      moreover have "e - int (p - 1) = e - int p + 1" using assms(2) by simp
      ultimately show ?thesis by (simp only: shift)
    next
      case 2
      then have "printf_g p x @ rest = with_fraction (take (Suc (nat e)) ds) (drop (Suc (nat e)) ds) @ rest" by (simp add: out Let_def ds_def)
      moreover have "int (length (drop (Suc (nat e)) ds)) = int p - 1 - e" using 2 len by simp
      ultimately show ?thesis using plain [OF all(1) _ all(2), of "Suc (nat e)" "Suc (nat e)"] ds val shift' [of "length (drop (Suc (nat e)) ds)" "e - int p + 1"]
        by simp
    next
      case 3
      then have "printf_g p x @ rest = with_fraction ''0'' (replicate (nat (- e) - 1) (CHR ''0'') @ ds) @ rest" by (simp add: out Let_def ds_def)
      moreover have "digits_value (''0'' @ replicate (nat (- e) - 1) (CHR ''0'') @ ds) = nat d"
        by (simp only: digits_value_append digits_value_zeros ds(2)) (simp add: digits_value_def)
      moreover have "int (nat (- e) - 1 + p) = int p - 1 - e" using 3 by simp
      moreover have "list_all is_digit ''0''" "list_all is_digit (replicate (nat (- e) - 1) (CHR ''0'') @ ds)"
        using ds(1) by (auto simp: is_digit_def list_all_iff)
      ultimately show ?thesis
        using plain [of "''0''" "replicate (nat (- e) - 1) (CHR ''0'') @ ds"] ds(1) len val shift' [of "nat (- e) - 1 + p" "e - int p + 1"]
        by simp
    qed
  qed
  then show ?thesis using err by blast
qed

end
