(* ===== verification/Scanner_Props.thy ===== *)
theory Scanner_Props
  imports Ssa_Scanner Decimals
begin

text \<open>
  What a scan leaves in the file of statistics: the best rate of a target counts for all targets after it, reads no faster than
  writes count nothing, and the numbers are written with six digits.
\<close>

section \<open>Recording a scan\<close>

text \<open>Any machine, with a record of the commands and their outputs beside its world.\<close>

type_synonym cmd_log = "(string \<times> string option) list"

definition recording :: "'w scan_host \<Rightarrow> ('w \<times> cmd_log) scan_host" where
  "recording h =
     \<lparr>sh_popen = (\<lambda>cmd (w, l). let (out, w') = sh_popen h cmd w in (out, (w', l @ [(cmd, out)]))),
      sh_mkdir = (\<lambda>p (w, l). let (ok, w') = sh_mkdir h p w in (ok, (w', l))),
      sh_write = (\<lambda>p t (w, l). (sh_write h p t w, l)),
      sh_edge = sh_edge h\<rparr>"

text \<open>The record is only looked on: without it everything is the same.\<close>

definition mirrors :: "('w \<times> cmd_log, 'a) scan_act \<Rightarrow> ('w, 'a) scan_act \<Rightarrow> bool" where
  "mirrors m m' \<longleftrightarrow> (\<forall>w l. m' w = (fst (m (w, l)), fst (snd (m (w, l)))))"

lemma mirrors_ret: "mirrors (ret_a a) (ret_a a)"
  by (simp add: mirrors_def)

lemma mirrors_lift: "mirrors (lift_r r) (lift_r r)"
  by (simp add: mirrors_def)

lemma mirrors_throw: "mirrors (throw_a e) (throw_a e)"
  by (simp add: mirrors_def)

lemma mirrors_bind:
  assumes "mirrors m m'" and "\<And>a. mirrors (f a) (f' a)"
  shows "mirrors (bind_a m f) (bind_a m' f')"
  unfolding mirrors_def
proof (intro allI)
  fix w l
  obtain r w1 l1 where 1: "m (w, l) = (r, (w1, l1))" by (cases "m (w, l)") auto
  then have "m' w = (r, w1)" using assms(1) unfolding mirrors_def by (metis fst_conv snd_conv)
  moreover have "f' a w1 = (fst (f a (w1, l1)), fst (snd (f a (w1, l1))))" for a using assms(2) unfolding mirrors_def by blast
  ultimately show "bind_a m' f' w = (fst (bind_a m f (w, l)), fst (snd (bind_a m f (w, l))))"
    using 1 by (cases r) (simp_all add: bind_a_def)
qed

lemma mirrors_cmd: "mirrors (scan_cmd (recording h) cmd) (scan_cmd h cmd)"
  by (simp add: mirrors_def scan_cmd_def tell_def recording_def bind_a_def ret_a_def split_beta)

lemma mirrors_test: "mirrors (iozone_test (recording h) sc test k fs) (iozone_test h sc test k fs)"
  unfolding iozone_test_def recording_def scan_host.select_convs
  by (intro mirrors_bind mirrors_ret mirrors_lift mirrors_cmd [unfolded recording_def])

lemma mirrors_rounds: "mirrors (ost_rounds (recording h) sc ost ks fs b c) (ost_rounds h sc ost ks fs b c)"
proof (induction ks arbitrary: fs b c)
  case (Cons k ks)
  have "mirrors (case x of None \<Rightarrow> ret_a None | Some r \<Rightarrow> f r) (case x of None \<Rightarrow> ret_a None | Some r \<Rightarrow> g r)"
    if "\<And>r. mirrors (f r) (g r)" for x :: "'x option" and f :: "'x \<Rightarrow> ('a \<times> cmd_log, 'y option) scan_act" and g
    using that mirrors_ret by (cases x) simp_all
  note opt = this
  show ?case unfolding ost_rounds.simps Let_def by (intro mirrors_bind mirrors_cmd mirrors_test opt Cons.IH)
qed (simp add: mirrors_ret)

lemma mirrors_osts: "mirrors (scan_osts (recording h) osts fs b c sc) (scan_osts h osts fs b c sc)"
proof (induction osts arbitrary: fs b c sc)
  case (Cons ost osts)
  show ?case unfolding scan_osts.simps Let_def
    apply (rule mirrors_bind, rule mirrors_rounds)
    subgoal for best
      by (cases best) (auto simp: mirrors_ret mirrors_throw split_beta intro!: mirrors_bind mirrors_cmd Cons.IH)
    done
qed (simp add: mirrors_ret)

lemma recording_transparent:
  "scan_potential_bandwidth (recording h) sc (w, l) = (r, (w', l')) \<Longrightarrow> scan_potential_bandwidth h sc w = (r, w')"
  using mirrors_osts [of h] unfolding mirrors_def scan_potential_bandwidth_def by (metis fst_conv snd_conv)

section \<open>What a scan does\<close>

text \<open>The rules for the record: what was added to it when an action has returned.\<close>

definition records :: "('w \<times> cmd_log, 'a) scan_act \<Rightarrow> ('a \<Rightarrow> cmd_log \<Rightarrow> bool) \<Rightarrow> bool" where
  "records m \<Phi> \<longleftrightarrow> (\<forall>w l a w' l'. m (w, l) = (Inr a, (w', l')) \<longrightarrow> (\<exists>k. l' = l @ k \<and> \<Phi> a k))"

lemma records_ret: "\<Phi> a [] \<Longrightarrow> records (ret_a a) \<Phi>"
  by (simp add: records_def)

lemma records_throw: "records (throw_a e) \<Phi>"
  by (simp add: records_def)

lemma records_if: "(b \<Longrightarrow> records m \<Phi>) \<Longrightarrow> (\<not> b \<Longrightarrow> records m' \<Phi>) \<Longrightarrow> records (if b then m else m') \<Phi>"
  by simp

lemma records_mono: "records m \<Phi> \<Longrightarrow> (\<And>a k. \<Phi> a k \<Longrightarrow> \<Psi> a k) \<Longrightarrow> records m \<Psi>"
  unfolding records_def by metis

lemma records_bind:
  assumes "records m \<Phi>" and "\<And>a k. \<Phi> a k \<Longrightarrow> records (f a) (\<lambda>b k'. \<Psi> b (k @ k'))"
  shows "records (bind_a m f) \<Psi>"
  unfolding records_def
proof (intro allI impI)
  fix w l b w' l' assume "bind_a m f (w, l) = (Inr b, (w', l'))"
  then obtain a w1 l1 where 1: "m (w, l) = (Inr a, (w1, l1))" and 2: "f a (w1, l1) = (Inr b, (w', l'))"
    by (auto elim!: bind_a_InrE)
  obtain k where k: "l1 = l @ k" "\<Phi> a k" using assms(1) 1 unfolding records_def by blast
  obtain k' where "l' = l1 @ k'" "\<Psi> b (k @ k')" using assms(2) [OF k(2)] 2 unfolding records_def by blast
  with k(1) show "\<exists>k. l' = l @ k \<and> \<Psi> b k" by auto
qed

lemma records_lift: "(\<And>a. r = Inr a \<Longrightarrow> \<Phi> a []) \<Longrightarrow> records (lift_r r) \<Phi>"
  by (auto simp: records_def)

definition line_of :: "string option \<Rightarrow> string" where
  "line_of out = (case out of None \<Rightarrow> [] | Some t \<Rightarrow> last_chunk BUFSIZ [] t)"

lemma records_cmd: "records (scan_cmd (recording h) cmd) (\<lambda>line k. \<exists>out. k = [(cmd, out)] \<and> line = line_of out)"
  by (auto simp: records_def scan_cmd_def tell_def recording_def bind_a_def ret_a_def line_of_def split_beta)

text \<open>The words of the last line of an output, and the rate among them.\<close>

definition out_words :: "char \<Rightarrow> string option \<Rightarrow> string list option" where
  "out_words edge out = (case st_split_string edge (line_of out) (CHR '' '') of Inr ws \<Rightarrow> Some ws | Inl e \<Rightarrow> None)"

definition out_rate :: "char \<Rightarrow> string option \<Rightarrow> double option" where
  "out_rate edge out = Option.bind (out_words edge out) scan_throughput"

definition no_result :: "char \<Rightarrow> cmd_log \<Rightarrow> bool" where
  "no_result edge k \<longleftrightarrow> k \<noteq> [] \<and> (\<exists>ws. out_words edge (snd (last k)) = Some ws \<and> length ws < 8)"

lemma records_test:
  "records (iozone_test (recording h) sc test k fs) (\<lambda>r l. \<exists>out. l = [(scan_iozone (m_iozone_exe sc) test k fs, out)] \<and>
     (case r of None \<Rightarrow> no_result (sh_edge h) l | Some ws \<Rightarrow> scan_throughput ws = out_rate (sh_edge h) out))"
  unfolding iozone_test_def
  apply (rule records_bind [OF records_cmd])
  apply (rule records_bind [OF records_lift [where \<Phi> = "\<lambda>a k. k = [] \<and> st_split_string (sh_edge (recording h)) _ (CHR '' '') = Inr a"]], simp)
  apply (rule records_ret)
  by (auto simp: recording_def out_rate_def out_words_def no_result_def)

text \<open>
  The outputs of one round (\<open>lfs setstripe\<close>, the write test, the read test) and of one target (its rounds and \<open>rm\<close>), and the
  record they make. In the rounds of the first target the later test files have no name yet.
\<close>

type_synonym measurement = "string option \<times> string option \<times> string option"

definition round_log :: "scanner \<Rightarrow> int \<Rightarrow> nat \<Rightarrow> string list \<Rightarrow> measurement \<Rightarrow> cmd_log" where
  "round_log sc ost k fs = (\<lambda>(a, wr, rd).
     [(setstripe_command (scan_test_file sc k) ost, a), (scan_iozone (m_iozone_exe sc) '' -i0'' k fs, wr),
      (scan_iozone (m_iozone_exe sc) '' -i1'' k fs, rd)])"

definition all_files :: "scanner \<Rightarrow> string list" where
  "all_files sc = map (scan_test_file sc) [0..<4]"

definition round_files :: "scanner \<Rightarrow> bool \<Rightarrow> nat \<Rightarrow> string list" where
  "round_files sc first k = map (\<lambda>j. if first \<and> k < j then [] else scan_test_file sc j) [0..<4]"

definition target_log :: "scanner \<Rightarrow> bool \<Rightarrow> int \<Rightarrow> measurement list \<times> string option \<Rightarrow> cmd_log" where
  "target_log sc first ost = (\<lambda>(ms, d).
     concat (map2 (\<lambda>k m. round_log sc ost k (round_files sc first k) m) [0..<4] ms) @ [(''rm -f '' @ spaced_names (all_files sc), d)])"

fun targets_log :: "scanner \<Rightarrow> bool \<Rightarrow> int list \<Rightarrow> (measurement list \<times> string option) list \<Rightarrow> cmd_log" where
  "targets_log sc first (ost # osts) (t # ts) = target_log sc first ost t @ targets_log sc False osts ts"
| "targets_log sc first osts ts = []"

text \<open>The rounds as the code goes through them.\<close>

fun rounds_log :: "scanner \<Rightarrow> int \<Rightarrow> nat list \<Rightarrow> string list \<Rightarrow> measurement list \<Rightarrow> cmd_log" where
  "rounds_log sc ost (k # ks) fs (m # ms) =
     round_log sc ost k (fs[k := scan_test_file sc k]) m @ rounds_log sc ost ks (fs[k := scan_test_file sc k]) ms"
| "rounds_log sc ost ks fs ms = []"

definition best_rates :: "char \<Rightarrow> measurement \<Rightarrow> double \<times> double \<Rightarrow> double \<times> double" where
  "best_rates edge = (\<lambda>(a, wr, rd) (b, c). let b' = better (out_rate edge wr) b b in (b', better (out_rate edge rd) b' c))"

definition rounds_done :: "'w scan_host \<Rightarrow> scanner \<Rightarrow> int \<Rightarrow> nat list \<Rightarrow> string list \<Rightarrow> double \<times> double \<Rightarrow>
    (string list \<times> double \<times> double) option \<Rightarrow> cmd_log \<Rightarrow> bool" where
  "rounds_done h sc ost ks fs bc best l \<longleftrightarrow> (case best of
       None \<Rightarrow> no_result (sh_edge h) l
     | Some (fs', bc') \<Rightarrow> \<exists>ms. length ms = length ks \<and> l = rounds_log sc ost ks fs ms \<and>
         fs' = fold (\<lambda>k fs. fs[k := scan_test_file sc k]) ks fs \<and> bc' = fold (best_rates (sh_edge h)) ms bc)"

lemma no_result_append: "no_result edge k \<Longrightarrow> no_result edge (l @ k)"
  by (simp add: no_result_def)

lemma rounds_done_step:
  assumes "rounds_done h sc ost ks fs' bc' best l" and "fs' = fs[k := scan_test_file sc k]" and "bc' = best_rates (sh_edge h) m bc"
  shows "rounds_done h sc ost (k # ks) fs bc best (round_log sc ost k fs' m @ l)"
proof (cases best)
  case None
  then show ?thesis using assms(1) no_result_append by (simp add: rounds_done_def)
next
  case (Some x)
  obtain fs1 bc1 where x: "x = (fs1, bc1)" by (cases x)
  obtain ms where "length ms = length ks" "l = rounds_log sc ost ks fs' ms"
    "fs1 = fold (\<lambda>k fs. fs[k := scan_test_file sc k]) ks fs'" "bc1 = fold (best_rates (sh_edge h)) ms bc'"
    using assms(1) unfolding rounds_done_def Some x by auto
  then show ?thesis unfolding rounds_done_def Some x option.case prod.case
    using assms(2,3) by (intro exI [of _ "m # ms"]) simp
qed

lemma records_rounds: "records (ost_rounds (recording h) sc ost ks fs b c) (rounds_done h sc ost ks fs (b, c))"
proof (induction ks arbitrary: fs b c)
  case Nil
  show ?case unfolding ost_rounds.simps by (rule records_ret) (simp add: rounds_done_def)
next
  case (Cons k ks)
  let ?fs = "fs[k := scan_test_file sc k]"
  show ?case unfolding ost_rounds.simps Let_def
    apply (rule records_bind [OF records_cmd], rule records_bind [OF records_test])
    subgoal for _ ka wr kb
      apply (cases wr; simp only: option.case)
       apply (rule records_ret, simp only: rounds_done_def option.case append_Nil2, blast intro: no_result_append)
      apply (rule records_bind [OF records_test])
      subgoal for ws rd kc
        apply (cases rd; simp only: option.case)
         apply (rule records_ret, simp only: rounds_done_def option.case append_Nil2, blast intro: no_result_append)
        subgoal premises prems for ws'
        proof -
          obtain a o1 o2 where k: "ka = [(setstripe_command (scan_test_file sc k) ost, a)]"
            "kb = [(scan_iozone (m_iozone_exe sc) '' -i0'' k ?fs, o1)]" "scan_throughput ws = out_rate (sh_edge h) o1"
            "kc = [(scan_iozone (m_iozone_exe sc) '' -i1'' k ?fs, o2)]" "scan_throughput ws' = out_rate (sh_edge h) o2"
            using prems by auto
          show ?thesis
            using rounds_done_step [of h sc ost ks ?fs _ _ _ fs k "(a, o1, o2)" "(b, c)"] k
            by (intro records_mono [OF Cons.IH]) (simp add: round_log_def best_rates_def Let_def)
        qed
        done
      done
    done
qed

lemma four_rounds:
  assumes "length ms = 4" and "fs = (if first then replicate 4 [] else all_files sc)"
  shows "rounds_log sc ost [0..<4] fs ms = concat (map2 (\<lambda>k m. round_log sc ost k (round_files sc first k) m) [0..<4] ms)"
    and "fold (\<lambda>k fs. fs[k := scan_test_file sc k]) [0..<4] fs = all_files sc"
proof -
  obtain m0 m1 m2 m3 where "ms = [m0, m1, m2, m3]" using assms(1) by (auto simp: numeral_eq_Suc length_Suc_conv)
  moreover have "[0..<4] = [0, 1, 2, 3 :: nat]" by (simp add: upt_rec numeral_eq_Suc)
  ultimately show "rounds_log sc ost [0..<4] fs ms = concat (map2 (\<lambda>k m. round_log sc ost k (round_files sc first k) m) [0..<4] ms)"
    "fold (\<lambda>k fs. fs[k := scan_test_file sc k]) [0..<4] fs = all_files sc"
    using assms(2) by (auto simp: all_files_def round_files_def numeral_eq_Suc)
qed

text \<open>The sums over the targets, \<open>bc\<close> the best rates carried over.\<close>

fun rate_sums :: "char \<Rightarrow> double \<times> double \<Rightarrow> (measurement list \<times> string option) list \<Rightarrow> double \<times> double" where
  "rate_sums edge bc [] = (0, 0)"
| "rate_sums edge bc (t # ts) =
     (let bc' = fold (best_rates edge) (fst t) bc; s = rate_sums edge bc' ts in (fst bc' + fst s, snd bc' + snd s))"

definition scan_done :: "'w scan_host \<Rightarrow> scanner \<Rightarrow> bool \<Rightarrow> int list \<Rightarrow> double \<times> double \<Rightarrow> double \<Rightarrow> double \<Rightarrow>
    int \<times> scanner \<Rightarrow> cmd_log \<Rightarrow> bool" where
  "scan_done h sc first osts bc x y = (\<lambda>(code, sc') l.
     if code = 0 then \<exists>ts. length ts = length osts \<and> list_all (\<lambda>t. length (fst t) = 4) ts \<and> l = targets_log sc first osts ts \<and>
       m_writebw sc' = Some (x + fst (rate_sums (sh_edge h) bc ts)) \<and> m_readbw sc' = Some (y + snd (rate_sums (sh_edge h) bc ts))
     else code = - 1 \<and> no_result (sh_edge h) l)"

lemma targets_log_rates [simp]: "targets_log (sc\<lparr>m_writebw := u, m_readbw := v\<rparr>) first osts ts = targets_log sc first osts ts"
proof -
  have "scan_test_file (sc\<lparr>m_writebw := u, m_readbw := v\<rparr>) = scan_test_file sc" by (rule ext) (simp add: scan_test_file_def)
  then have "target_log (sc\<lparr>m_writebw := u, m_readbw := v\<rparr>) first ost t = target_log sc first ost t" for first ost t
    unfolding target_log_def round_log_def round_files_def all_files_def by (simp cong: if_cong)
  then show ?thesis by (induction sc first osts ts rule: targets_log.induct) simp_all
qed

lemma scan_done_step:
  assumes "length ms = 4" and "bc' = fold (best_rates (sh_edge h)) ms bc"
    and "scan_done h (sc\<lparr>m_writebw := u, m_readbw := v\<rparr>) False osts bc' (x + fst bc') (y + snd bc') r l"
  shows "scan_done h sc first (ost # osts) bc x y r (target_log sc first ost (ms, d) @ l)"
proof -
  obtain code sc' where r: "r = (code, sc')" by (cases r)
  show ?thesis
  proof (cases "code = 0")
    case True
    then obtain ts where "length ts = length osts" "list_all (\<lambda>t. length (fst t) = 4) ts" "l = targets_log sc False osts ts"
      "m_writebw sc' = Some (x + fst bc' + fst (rate_sums (sh_edge h) bc' ts))" "m_readbw sc' = Some (y + snd bc' + snd (rate_sums (sh_edge h) bc' ts))"
      using assms(3) by (auto simp: scan_done_def r)
    then show ?thesis using assms(1,2) True
      by (simp add: scan_done_def r) (intro exI [of _ "(ms, d) # ts"], simp add: Let_def add.assoc)
  next
    case False
    then show ?thesis using assms(3) no_result_append by (auto simp: scan_done_def r)
  qed
qed

lemma records_osts:
  assumes "m_writebw sc = Some x" and "m_readbw sc = Some y" and "fs = (if first then replicate 4 [] else all_files sc)"
  shows "records (scan_osts (recording h) osts fs b c sc) (scan_done h sc first osts (b, c) x y)"
  using assms
proof (induction osts arbitrary: fs first b c sc x y)
  case Nil
  show ?case unfolding scan_osts.simps by (rule records_ret) (use Nil in \<open>simp add: scan_done_def\<close>)
next
  case (Cons ost osts)
  show ?case unfolding scan_osts.simps Let_def
    apply (rule records_bind [OF records_rounds])
    subgoal premises prems for best k
    proof (cases best)
      case None
      then show ?thesis using prems by (auto intro!: records_ret simp: rounds_done_def scan_done_def)
    next
      case (Some z)
      obtain fs' b' c' where z: "z = (fs', b', c')" by (cases z) auto
      obtain ms where ms: "length ms = 4" and k: "k = rounds_log sc ost [0..<4] fs ms"
        and fs': "fs' = fold (\<lambda>k fs. fs[k := scan_test_file sc k]) [0..<4] fs" and bc: "(b', c') = fold (best_rates (sh_edge h)) ms (b, c)"
        using prems unfolding rounds_done_def Some z by auto
      note four = four_rounds [OF ms Cons.prems(3)]
      let ?sc = "sc\<lparr>m_writebw := Some (x + b'), m_readbw := Some (y + c')\<rparr>"
      have names: "fs' = all_files sc" using fs' four(2) by simp
      have "all_files ?sc = all_files sc" by (simp add: all_files_def scan_test_file_def)
      with names have "fs' = (if False then replicate 4 [] else all_files ?sc)" by simp
      then have rest: "records (scan_osts (recording h) osts fs' b' c' ?sc) (scan_done h ?sc False osts (b', c') (x + b') (y + c'))"
        by (intro Cons.IH) simp_all
      have step: "scan_done h sc first (ost # osts) (b, c) x y r (k @ [(''rm -f '' @ spaced_names fs', d)] @ l)"
        if "scan_done h ?sc False osts (b', c') (x + b') (y + c') r l" for r d l
        using scan_done_step [OF ms bc, where sc = sc and u = "Some (x + b')" and v = "Some (y + c')" and x = x and y = y and d = d] that
        by (simp add: k four(1) target_log_def names)
      show ?thesis unfolding Some z option.case prod.case using Cons.prems(1,2)
        apply (simp only: add_rate_def option.map)
        apply (rule records_bind [OF records_cmd], rule records_if, rule records_throw)
        by (rule records_mono [OF rest]) (use step in auto)
    qed
    done
qed

text \<open>The rates of the write tests of some targets, and targets on which no read is faster than the write before it.\<close>

definition write_rates :: "char \<Rightarrow> (measurement list \<times> string option) list \<Rightarrow> double set" where
  "write_rates edge ts = {x. \<exists>t \<in> set ts. \<exists>(a, wr, rd) \<in> set (fst t). out_rate edge wr = Some x}"

definition slow_reads :: "char \<Rightarrow> (measurement list \<times> string option) list \<Rightarrow> bool" where
  "slow_reads edge ts \<longleftrightarrow> list_all (\<lambda>t. list_all (\<lambda>(a, wr, rd).
     case out_rate edge rd of None \<Rightarrow> True | Some x \<Rightarrow> (case out_rate edge wr of None \<Rightarrow> x \<le> 0 | Some y \<Rightarrow> x \<le> y)) (fst t)) ts"

lemma write_rates_Cons: "write_rates edge (t # ts) = write_rates edge [t] \<union> write_rates edge ts"
  by (auto simp: write_rates_def)

lemma finite_write_rates: "finite (write_rates edge ts)"
proof -
  have "write_rates edge ts \<subseteq> (\<Union>t \<in> set ts. (\<lambda>(a, wr, rd). the (out_rate edge wr)) ` set (fst t))"
    by (force simp: write_rates_def)
  then show ?thesis by (rule finite_subset) simp
qed

lemma Max_insert_max: "finite W \<Longrightarrow> Max (insert (max a b) W) = Max (insert a (insert b W))" for a :: double
  by (cases "W = {}") (simp_all add: max.assoc)

lemma best_write: "fst (fold (best_rates edge) ms bc) = Max (insert (fst bc) (write_rates edge [(ms, d)]))"
proof (induction ms arbitrary: bc)
  case Nil
  show ?case by (simp add: write_rates_def)
next
  case (Cons m ms)
  obtain a wr rd where m: "m = (a, wr, rd)" by (cases m)
  let ?W = "write_rates edge [(ms, d)]"
  have fin: "finite ?W" by (rule finite_write_rates)
  have "write_rates edge [(m # ms, d)] = set_option (out_rate edge wr) \<union> ?W" by (auto simp: write_rates_def m)
  moreover have "fst (best_rates edge m bc) = (case out_rate edge wr of None \<Rightarrow> fst bc | Some x \<Rightarrow> max (fst bc) x)"
    by (cases bc; cases "out_rate edge wr") (simp_all add: best_rates_def m better_def Let_def max_def)
  ultimately show ?case
    using Cons.IH [of "best_rates edge m bc"] fin by (cases "out_rate edge wr") (simp_all add: Max_insert_max del: Max_insert)
qed

lemma rate_sums_write:
  "fst (rate_sums edge bc ts) = (\<Sum>i\<leftarrow>[0..<length ts]. Max (insert (fst bc) (write_rates edge (take (Suc i) ts))))"
proof (induction ts arbitrary: bc)
  case (Cons t ts)
  let ?bc = "fold (best_rates edge) (fst t) bc"
  have b: "fst ?bc = Max (insert (fst bc) (write_rates edge [t]))" using best_write [of edge "fst t" bc "snd t"] by simp
  have "Max (insert (fst ?bc) (write_rates edge ts')) = Max (insert (fst bc) (write_rates edge (t # ts')))" for ts'
    using Max_Un [of "insert (fst bc) (write_rates edge [t])" "write_rates edge ts'"] finite_write_rates [of edge]
    unfolding b by (subst write_rates_Cons) (cases "write_rates edge ts' = {}", simp_all add: max.commute)
  moreover have "[0..<length (t # ts)] = 0 # map Suc [0..<length ts]" by (simp add: upt_conv_Cons map_Suc_upt del: upt_Suc)
  ultimately show ?case using b Cons.IH [of ?bc] by (simp add: Let_def comp_def del: upt_Suc)
qed simp

lemma best_read:
  assumes "slow_reads edge [(ms, d)]" and "0 \<le> b"
  shows "snd (fold (best_rates edge) ms (b, 0)) = 0 \<and> 0 \<le> fst (fold (best_rates edge) ms (b, 0))"
  using assms
proof (induction ms arbitrary: b)
  case (Cons m ms)
  obtain a wr rd where m: "m = (a, wr, rd)" by (cases m)
  have "\<exists>b'. best_rates edge m (b, 0) = (b', 0) \<and> 0 \<le> b'"
    using Cons.prems by (auto simp: slow_reads_def m best_rates_def better_def Let_def split: option.splits)
  then obtain b' where b': "best_rates edge m (b, 0) = (b', 0)" "0 \<le> b'" by blast
  have "slow_reads edge [(ms, d)]" using Cons.prems(1) by (simp add: slow_reads_def)
  from Cons.IH [OF this b'(2)] b'(1) show ?case by simp
qed simp

lemma rate_sums_read: "slow_reads edge ts \<Longrightarrow> 0 \<le> b \<Longrightarrow> snd (rate_sums edge (b, 0) ts) = 0"
proof (induction ts arbitrary: b)
  case (Cons t ts)
  then have "snd (fold (best_rates edge) (fst t) (b, 0)) = 0 \<and> 0 \<le> fst (fold (best_rates edge) (fst t) (b, 0))"
    by (intro best_read [where d = "snd t"]) (simp_all add: slow_reads_def)
  then obtain b' where b': "fold (best_rates edge) (fst t) (b, 0) = (b', 0)" "0 \<le> b'"
    by (cases "fold (best_rates edge) (fst t) (b, 0)") auto
  then show ?case using Cons by (simp add: Let_def slow_reads_def)
qed simp

text \<open>
  C35: what a scan of shared storage measures and adds up, on any machine, seen by recording its commands and their outputs. A scan
  that returns 0 has run, for every target of the range in turn, four rounds of \<open>lfs setstripe\<close> for this target, the write test and
  the read test, with 1, 2, 3 and 4 processes, and then removed the test files, and nothing else. The sum of the write rates it
  leaves has, for each target, the largest rate of all write tests of this and of all earlier targets. When no read test was
  faster than the write test before it, the sum of the read rates is 0. A scan that does not return 0 has returned -1 after a
  command whose output had fewer than eight words. The recording changes nothing.
\<close>

theorem scan_carries_over:
  assumes "scan_potential_bandwidth (recording h) sc (w, []) = (Inr (code, sc'), (w', l))"
  shows "scan_potential_bandwidth h sc w = (Inr (code, sc'), w') \<and>
    (if code = 0 then \<exists>ts. length ts = length [m_ost_low sc..m_ost_high sc] \<and> list_all (\<lambda>t. length (fst t) = 4) ts \<and>
       l = targets_log sc True [m_ost_low sc..m_ost_high sc] ts \<and>
       m_writebw sc' = Some (\<Sum>i\<leftarrow>[0..<length ts]. Max (insert 0 (write_rates (sh_edge h) (take (Suc i) ts)))) \<and>
       (slow_reads (sh_edge h) ts \<longrightarrow> m_readbw sc' = Some 0)
     else code = - 1 \<and> no_result (sh_edge h) l)"
proof -
  let ?sc = "sc\<lparr>m_writebw := Some 0, m_readbw := Some 0\<rparr>"
  have "records (scan_osts (recording h) [m_ost_low sc..m_ost_high sc] (replicate 4 []) 0 0 ?sc)
      (scan_done h ?sc True [m_ost_low sc..m_ost_high sc] (0, 0) 0 0)"
    by (rule records_osts) simp_all
  with assms have "scan_done h ?sc True [m_ost_low sc..m_ost_high sc] (0, 0) 0 0 (code, sc') l"
    unfolding records_def scan_potential_bandwidth_def by fastforce
  note finish = this [unfolded scan_done_def prod.case targets_log_rates]
  show ?thesis
  proof (cases "code = 0")
    case True
    with finish obtain ts where ts: "length ts = length [m_ost_low sc..m_ost_high sc]" "list_all (\<lambda>t. length (fst t) = 4) ts"
      "l = targets_log sc True [m_ost_low sc..m_ost_high sc] ts"
      and rates: "m_writebw sc' = Some (0 + fst (rate_sums (sh_edge h) (0, 0) ts))" "m_readbw sc' = Some (0 + snd (rate_sums (sh_edge h) (0, 0) ts))"
      by (auto simp del: length_upto)
    have "m_writebw sc' = Some (\<Sum>i\<leftarrow>[0..<length ts]. Max (insert 0 (write_rates (sh_edge h) (take (Suc i) ts))))"
      using rates(1) unfolding rate_sums_write by simp
    moreover have "slow_reads (sh_edge h) ts \<longrightarrow> m_readbw sc' = Some 0" using rates(2) rate_sums_read [of "sh_edge h" ts 0] by simp
    ultimately show ?thesis using recording_transparent [OF assms] ts True by (auto simp del: length_upto)
  next
    case False
    with finish show ?thesis using recording_transparent [OF assms] by simp
  qed
qed

text \<open>A machine with two targets, the first twice as fast as the second.\<close>

definition two_targets :: "int scan_host" where
  "two_targets =
     \<lparr>sh_popen = (\<lambda>cmd w.
        if take 13 cmd = ''lfs setstripe'' then (None, if last cmd = CHR ''1'' then 1 else 2)
        else if take 10 cmd = ''iozone -i0'' then
          (Some (''Children see throughput for  1 rewriters = '' @ (if w = 1 then ''2048.00'' else ''1024.00'') @ '' KB/sec''), w)
        else if take 10 cmd = ''iozone -i1'' then (Some ''Children see throughput for  1 re-readers = 512.00 KB/sec'', w)
        else (None, w)),
      sh_mkdir = (\<lambda>p w. (True, w)), sh_write = (\<lambda>p t w. w), sh_edge = CHR 0x00\<rparr>"

definition two_target_scanner :: scanner where
  "two_target_scanner =
     \<lparr>m_id = ''2'', m_scan_dir = ''/lustre/.ssa'', m_stats_file = ''/lustre/.ssa/stat-2'', m_sleep_mins = 1, m_iozone_exe = ''iozone'',
      m_ost_low = 1, m_ost_high = 2, m_writebw = None, m_readbw = None\<rparr>"

lemma last_chunk_line:
  assumes "s \<noteq> []" and "length s < n" and "CHR 0x0A \<notin> set s"
  shows "last_chunk n [] s = s"
proof -
  have "length (takeWhile (\<lambda>c. c \<noteq> CHR 0x0A) s) = length s" using assms(3) by (induction s) auto
  then have "fgets_chunk n s = s" using assms(2) by (simp add: fgets_chunk_def Let_def)
  moreover have "\<not> n < 2" using assms(1,2) by (cases s) auto
  ultimately show ?thesis using assms(1) by (simp add: last_chunk.simps [of n "[]" s] last_chunk.simps [of n s "[]"])
qed

lemma two_target_lines:
  "st_split_string (CHR 0x00) ''Children see throughput for  1 rewriters = 2048.00 KB/sec'' (CHR '' '') =
     Inr [''Children'', ''see'', ''throughput'', ''for'', ''1'', ''rewriters'', ''='', ''2048.00'', ''KB/sec'']"
  "st_split_string (CHR 0x00) ''Children see throughput for  1 rewriters = 1024.00 KB/sec'' (CHR '' '') =
     Inr [''Children'', ''see'', ''throughput'', ''for'', ''1'', ''rewriters'', ''='', ''1024.00'', ''KB/sec'']"
  "st_split_string (CHR 0x00) ''Children see throughput for  1 re-readers = 512.00 KB/sec'' (CHR '' '') =
     Inr [''Children'', ''see'', ''throughput'', ''for'', ''1'', ''re-readers'', ''='', ''512.00'', ''KB/sec'']"
  by (simp_all add: st_split_string_def cut_at.simps is_empty_s_def Let_def is_space_def)

lemma two_target_popen:
  "sh_popen two_targets (scan_iozone ''iozone'' '' -i0'' k fs) w =
     (Some (''Children see throughput for  1 rewriters = '' @ (if w = 1 then ''2048.00'' else ''1024.00'') @ '' KB/sec''), w)"
  "sh_popen two_targets (scan_iozone ''iozone'' '' -i1'' k fs) w = (Some ''Children see throughput for  1 re-readers = 512.00 KB/sec'', w)"
  by (simp_all add: two_targets_def scan_iozone_def)

lemma two_target_test:
  assumes "m_iozone_exe sc = ''iozone''" and "test = '' -i0'' \<or> test = '' -i1''"
  shows "\<exists>ws w'. iozone_test two_targets sc test k fs w = (Inr (Some ws), w')"
proof -
  have e: "sh_edge two_targets = CHR 0x00" by (simp add: two_targets_def)
  from assms(2) show ?thesis
    using two_target_lines assms(1)
    by (cases "w = 1")
      (auto simp: iozone_test_def scan_cmd_def tell_def two_target_popen last_chunk_line BUFSIZ_def e bind_a_def ret_a_def)
qed

lemma two_target_rounds:
  "m_iozone_exe sc = ''iozone'' \<Longrightarrow> \<exists>x w'. ost_rounds two_targets sc ost ks fs b c w = (Inr (Some x), w')"
proof (induction ks arbitrary: fs b c w)
  case (Cons k ks)
  let ?fs = "fs[k := scan_test_file sc k]"
  let ?w = "snd (sh_popen two_targets (setstripe_command (scan_test_file sc k) ost) w)"
  obtain ws w1 where 1: "iozone_test two_targets sc '' -i0'' k ?fs ?w = (Inr (Some ws), w1)"
    using two_target_test [OF Cons.prems] by blast
  obtain ws' w2 where 2: "iozone_test two_targets sc '' -i1'' k ?fs w1 = (Inr (Some ws'), w2)"
    using two_target_test [OF Cons.prems] by blast
  show ?case
    using Cons.IH [OF Cons.prems, of ?fs "better (scan_throughput ws) b b" "better (scan_throughput ws') (better (scan_throughput ws) b b) c" w2] 1 2
    by (simp add: Let_def bind_a_def scan_cmd_def tell_def ret_a_def split_beta)
qed (simp add: ret_a_def)

lemma two_target_scan: "\<exists>sc' w'. scan_potential_bandwidth two_targets two_target_scanner w = (Inr (0, sc'), w')"
proof -
  have "\<exists>sc' w'. scan_osts two_targets osts fs b c sc w = (Inr (0, sc'), w')"
    if "m_iozone_exe sc = ''iozone''" and "\<forall>ost \<in> set osts. ost < 2 ^ 31 - 1" for osts fs b c sc w
    using that
  proof (induction osts arbitrary: fs b c sc w)
    case (Cons ost osts)
    obtain fs' b' c' w1 where "ost_rounds two_targets sc ost [0..<4] fs b c w = (Inr (Some (fs', b', c')), w1)"
      using two_target_rounds [OF Cons.prems(1)] by (metis prod_cases3)
    moreover have "ost \<noteq> 2 ^ 31 - 1" using Cons.prems(2) by auto
    ultimately show ?case using Cons.prems
      by (simp add: Let_def bind_a_def scan_cmd_def tell_def ret_a_def split_beta) (rule Cons.IH, simp_all)
  qed (simp add: ret_a_def)
  then show ?thesis by (simp add: scan_potential_bandwidth_def two_target_scanner_def)
qed

theorem scan_carries_over_witness:
  "\<exists>sc' w' l ts. scan_potential_bandwidth (recording two_targets) two_target_scanner (0, []) = (Inr (0, sc'), (w', l)) \<and> length ts = 2 \<and>
     l = targets_log two_target_scanner True [1, 2] ts \<and>
     m_writebw sc' = Some (\<Sum>i\<leftarrow>[0, 1]. Max (insert 0 (write_rates (CHR 0x00) (take (Suc i) ts))))"
proof -
  obtain r w' l where run: "scan_potential_bandwidth (recording two_targets) two_target_scanner (0, []) = (r, (w', l))"
    by (metis prod_cases3)
  with recording_transparent [OF run] two_target_scan [of 0] obtain sc' where r: "r = Inr (0, sc')" by auto
  have e: "sh_edge two_targets = CHR 0x00" by (simp add: two_targets_def)
  have "[m_ost_low two_target_scanner..m_ost_high two_target_scanner] = [1, 2]" by (simp add: two_target_scanner_def upto_rec1)
  from conjunct2 [OF scan_carries_over [OF run [unfolded r]], unfolded this e if_P [OF refl]] obtain ts
    where "length ts = length [1, 2 :: int]" "l = targets_log two_target_scanner True [1, 2] ts"
    "m_writebw sc' = Some (\<Sum>i\<leftarrow>[0..<length ts]. Max (insert 0 (write_rates (CHR 0x00) (take (Suc i) ts))))" by blast
  moreover have "[0..<length [1, 2 :: int]] = [0, 1 :: nat]" by (simp add: upt_rec)
  ultimately show ?thesis using run r by (intro exI [of _ sc'] exI [of _ w'] exI [of _ l] exI [of _ ts]) simp
qed

section \<open>The statistics file\<close>

definition no_space :: "string \<Rightarrow> bool" where
  "no_space s \<longleftrightarrow> list_all (\<lambda>c. \<not> is_space c) s"

lemma no_space_append [simp]: "no_space (xs @ ys) \<longleftrightarrow> no_space xs \<and> no_space ys"
  by (simp add: no_space_def)

lemma no_space_uint: "0 \<le> n \<Longrightarrow> no_space (uintToString n [])"
  using uint_all_digits [of n] by (auto simp: no_space_def list_all_iff is_digit_def is_space_def)

lemma no_space_part: "no_space s \<Longrightarrow> no_space (take n s)" "no_space s \<Longrightarrow> no_space (drop n s)"
  by (auto simp: no_space_def list_all_iff dest: in_set_takeD in_set_dropD)

lemma no_space_fraction: "no_space i \<Longrightarrow> no_space f \<Longrightarrow> no_space (with_fraction i f)"
proof -
  assume "no_space i" "no_space f"
  moreover obtain k where "f = drop_trailing_zeros f @ replicate k (CHR ''0'')" using dropped_zeros by blast
  ultimately have "no_space (drop_trailing_zeros f)" by (metis no_space_append)
  moreover have "no_space ''.''" by (simp add: no_space_def is_space_def)
  ultimately show ?thesis using \<open>no_space i\<close> by (simp only: with_fraction_def Let_def no_space_append split: if_split) simp
qed

lemma no_space_printed:
  assumes "0 \<le> x" and "0 < p"
  shows "no_space (printf_g p x)"
proof (cases "x = 0")
  case True
  then show ?thesis by (simp add: printf_g_def no_space_def is_space_def)
next
  case False
  then obtain d e where d: "10 ^ (p - 1) \<le> d" and out: "printf_g p x =
      (let ds = uintToString d []
       in if e < -4 \<or> int p \<le> e then
            with_fraction (take 1 ds) (drop 1 ds) @ ''e'' @ (if e < 0 then ''-'' else ''+'') @
              (let es = uintToString \<bar>e\<bar> [] in if length es < 2 then ''0'' @ es else es)
          else if 0 \<le> e then with_fraction (take (Suc (nat e)) ds) (drop (Suc (nat e)) ds)
          else with_fraction ''0'' (replicate (nat (- e) - 1) (CHR ''0'') @ ds))"
    using printed_digits [of x p] assms by (metis less_eq_rat_def)
  have "(0 :: int) < 10 ^ (p - 1)" by simp
  then have "0 \<le> d" using d by linarith
  then have "no_space (uintToString d [])" "no_space (uintToString \<bar>e\<bar> [])" using no_space_uint by simp_all
  moreover have "no_space ''e''" "no_space ''-''" "no_space ''+''" "no_space ''0''" "no_space (replicate k (CHR ''0''))" for k
    by (simp_all add: no_space_def is_space_def list_all_iff)
  ultimately show ?thesis unfolding out Let_def by (simp only: no_space_append no_space_fraction no_space_part split: if_split) simp
qed

lemma skip_number:
  assumes "no_space s" and "s \<noteq> []"
  shows "dropWhile (\<lambda>c. \<not> is_space c) (dropWhile is_space (s @ CHR 0x0A # t)) = CHR 0x0A # t"
proof -
  have "dropWhile is_space (s @ CHR 0x0A # t) = s @ CHR 0x0A # t" using assms by (cases s) (simp_all add: no_space_def)
  moreover have "dropWhile (\<lambda>c. \<not> is_space c) (s @ CHR 0x0A # t) = CHR 0x0A # t"
    using assms(1) by (induction s) (simp_all add: no_space_def is_space_def)
  ultimately show ?thesis by simp
qed

text \<open>
  C36: whatever non-negative rates the scanner writes into its file of statistics, the shared storage agent reads them back with a
  relative error of at most half a unit of the sixth digit.
\<close>

theorem stats_file_precise:
  assumes "0 \<le> w" and "0 \<le> r"
  shows "\<bar>fst (read_rates (stats_text w r)) - w\<bar> \<le> w / 200000 \<and> \<bar>snd (read_rates (stats_text w r)) - r\<bar> \<le> r / 200000"
proof -
  obtain a where a: "stod (stats_text w r) = Inr a" "\<bar>a - w\<bar> \<le> w / 200000"
    using printf_g_read [OF assms(1), of 6 "CHR 0x0A # printf_g 6 r"] by (auto simp: stats_text_def ends_number_def is_digit_def)
  obtain b where b: "stod (printf_g 6 r) = Inr b" "\<bar>b - r\<bar> \<le> r / 200000"
    using printf_g_read [OF assms(2), of 6 "[]"] by (auto simp: ends_number_def)
  have "stod (CHR 0x0A # s) = stod s" for s by (simp add: stod_def is_space_def)
  moreover have "stod [] = Inl Invalid_argument" by (simp add: stod_def sign_of_def)
  then have "printf_g 6 w \<noteq> []" using printf_g_read [OF assms(1), of 6 "[]"] by (auto simp: ends_number_def)
  then have "dropWhile (\<lambda>c. \<not> is_space c) (dropWhile is_space (stats_text w r)) = CHR 0x0A # printf_g 6 r"
    using skip_number [of "printf_g 6 w"] no_space_printed [OF assms(1), of 6] by (simp add: stats_text_def)
  ultimately show ?thesis using a b by (simp add: read_rates_def)
qed

theorem stats_file_precise_witness:
  "\<bar>fst (read_rates (stats_text (10 / 3) 0)) - 10 / 3\<bar> \<le> 1 / 60000"
  using stats_file_precise [of "10 / 3" 0] by simp

end
