(* ===== verification/Spec2Isabelle.thy ===== *)
theory Spec2Isabelle
  imports Block_Props Poll_Props Bootstrap_Props Server_Props Store_Props Path_Groups Checksum_Props Rpc_Client Dtn_Props Agent_Props Storage_Props Agent_Process Scanner_Props
begin

text \<open>
  Big Data Express schedules bulk transfers between sites. Every site runs a server (\<open>src/server\<close>), a
  MongoDB database and a time-series database; agents on its machines (\<open>src/agent\<close>) drive the data transfer
  nodes (DTNs), the storages, the launcher of transfers and the SDN controller. Servers and agents talk over
  MQTT, servers of different sites over the HTTP portals of the sites, and a server to the SENSE controller of
  the wide area network over HTTP. This development models the server, the agents and what they share.

  \<^bold>\<open>How the parts interact.\<close> A user submits a raw job. \<open>bootstrap_transfer_job\<close> parses it, asks the sites to
  expand the files and stores one sjob per source storage, with its blocks. Every few seconds \<open>schedule\<close>
  takes the sjobs that have no flow, pairs DTNs of the two sites, sets WAN and SDN paths up, pings, records
  a flow and sends the launch command; any failure takes the paths down and sets sjob and raw job to error.
  The launcher reports through \<open>mld_status\<close> that a block has started, failed or arrived; an arrived block is
  counted and, when so configured, its checksums are verified at the destination; then the next block is
  launched or the flow closed. Meanwhile \<open>poll_rate\<close> asks the launcher for the bytes of every flow. Agents
  register with the resource manager, a graph of storages, DTNs, the gateway, the launcher and the SDN agent.
  An agent process starts its modules in stages (bootstrap, init, registration), announces their properties, and hands
  every request to the module it names: a DTN module expands paths into groups of files, computes checksums, sets routes up and
  measures interfaces; it adds a storage module for each device of its data folders; the launcher module forwards
  commands to the transfer program and its reports to the server.

  \<^bold>\<open>Theories and sources.\<close>
  \<^item> \<open>BDE_Prelude\<close>, \<open>Std_Map\<close>: results and actions with exceptions (\<open>bind_a\<close> keeps the state of a failing step, as
    C++ does), the frame judgement \<open>keeps\<close>, the collections \<open>run_simps\<close>, \<open>exec\<close>, \<open>frame_intros\<close>; \<open>std::map\<close> as a
    sorted association list, its contract the locale \<open>ordered_map\<close>.
  \<^item> \<open>Json_Value\<close>: \<open>Json::Value\<close> of \<open>src/utils/jsoncpp.cc\<close> with its exceptions; access by key and by index share
    the locale \<open>json_field\<close>. \<open>Json_Text\<close>, \<open>Json_Styled\<close>: its reader and writers, \<open>Json_Text_Props\<close> with the locale
    \<open>value_invariant\<close> for what holds of all values that are read. \<open>Conf\<close>: \<open>src/utils/baseconf.h\<close>, \<open>conf.h\<close>. \<open>Utils\<close>: \<open>src/utils/utils.cc\<close>. \<open>Tsdb\<close>: the line protocol of \<open>src/utils/tsdb.cc\<close>.
  \<^item> \<open>Job_Manager\<close>, \<open>Resource_Graph\<close>, \<open>Resource_Manager\<close>: \<open>jobmanager.h\<close>, \<open>resourcegraph.cc\<close>, \<open>resourcemanager.cc\<close>.
    Pointers between nodes and edges are keys into the maps that own them. \<open>rm_step\<close> is the step relation.
  \<^item> \<open>Server_Env\<close>: the state \<open>srv\<close> of the scheduler and its surroundings. \<open>Site_Store\<close>: \<open>sitestore.cc\<close>, every query and
    update as the document it sends. \<open>Wan\<close>: \<open>wan.cc\<close>. \<open>Log_Logic\<close>: rules for statements about the log.
  \<^item> \<open>Network_Path\<close>, \<open>Job_Schedule\<close>, \<open>Transfer_Status\<close>, \<open>Rate_Poll\<close>, \<open>Bootstrap\<close>, \<open>Site_Commands\<close>: \<open>scheduler.cc\<close>, in this
    order paths and network planning; \<open>schedule\<close>; \<open>mld_status\<close>; \<open>poll_rate\<close>; the bootstrap of raw jobs; the commands
    a site answers.
  \<^item> \<open>Server_Main\<close>: the handlers of \<open>main.cc\<close>, \<open>rpcserver.cc\<close>, the queue behind \<open>dispatch\<close>, and \<open>server_step\<close>, which
    interleaves messages, queued tasks and timers. \<open>Server_Frame\<close>: the locale \<open>surroundings\<close>, the frame of every
    operation that does not go to the resource manager.
  \<^item> \<open>Network_Props\<close>, \<open>Schedule_Props\<close>, \<open>Status_Props\<close>, \<open>Block_Props\<close>, \<open>Poll_Props\<close>, \<open>Bootstrap_Props\<close>, \<open>Server_Props\<close>, \<open>Store_Props\<close>: the
    properties of these components; those of the resource manager and the utilities stand in their theories.

  \<^item> \<open>Rpc_Server\<close>, \<open>Rpc_Client\<close>: \<open>src/utils/rpcserver.cc\<close> and \<open>src/utils/rpcclient.cc\<close>, the latter as the step relation \<open>rpc_step\<close> over
    calls, replies and timeouts.
  \<^item> \<open>File_Tree\<close>, \<open>Dir_Tree\<close>, \<open>Path_Groups\<close>: \<open>src/utils/paths\<close>, walking and dividing directory trees. \<open>Checksum\<close>,
    \<open>Checksum_Props\<close>: \<open>src/utils/checksum.cc\<close>. \<open>Grid_Map\<close>: \<open>src/utils/grid-mapfile.cc\<close>. \<open>Mounts\<close>, \<open>Fs_Usage\<close>: \<open>src/utils/mounts.cc\<close> and
    \<open>src/utils/fsusage.cc\<close>.
  \<^item> \<open>Agent_Manager\<close>: \<open>agent.cc\<close> and \<open>agentmanager.cc\<close> of \<open>src/agent\<close>, over a record \<open>hooks\<close> of the virtual functions of modules.
    \<open>Dtn_Agent\<close>, \<open>Dtn_Files\<close>, \<open>Dtn_Commands\<close>: the commands of \<open>dtnagent.cc\<close>; \<open>Dtn_Setup\<close>: its configuration, start-up, registration
    and time series. \<open>Launcher_Agent\<close>: \<open>launcheragent.cc\<close>. \<open>Storage_Agent\<close>: \<open>localstorageagent.cc\<close>, \<open>sharedstorageagent.cc\<close>.
    \<open>Agent_Process\<close>: \<open>main.cc\<close>, the modules a configuration names. \<open>Ssa_Scanner\<close>: \<open>scanner.cc\<close>, the program that measures
    the targets of shared storage; \<open>Decimals\<close>, \<open>Scanner_Props\<close>: what its file of statistics says.
  \<^item> \<open>Agent_Frame\<close>: the locales \<open>action_order\<close> (a reflexive and transitive relation that actions move along) and
    \<open>module_hooks\<close> (what a module may do to the manager), interpreted on the launcher, the storages and the DTN.
    \<open>Dtn_Props\<close>, \<open>Agent_Props\<close>, \<open>Storage_Props\<close>: the properties of the agents, and those that join agent and server.

  \<^bold>\<open>State and effects.\<close> What the server talks to is a record \<open>env\<close> of functions on an opaque world: each may
  answer anything, throw and change the world. All exchanges are appended to a log, and most properties are
  about the log of an operation, for every environment: \<open>emits P m\<close> bounds what an operation may do,
  \<open>sees Q m \<Phi>\<close> says which relevant events it has caused when it returns, \<open>at_most\<close> counts, \<open>guarded\<close> orders,
  and \<open>preceded\<close>, \<open>guarded_by\<close> tie an event to the stretch of the log before it.
  The agents run on a \<open>machine\<close> (files, accounts, digests, routes, sockets) and a \<open>host\<close> (interfaces, clock, shell,
  work folders), again records of functions on a world; \<open>fs_host\<close> is the part of them that mounts and quotas use.
  C++ exceptions are values of \<open>exn\<close>; \<open>Undefined\<close> stands for undefined behaviour, such as following a dangling
  pointer, indexing out of range, a write through the iterators of a vector that has grown, or clearing a
  record of strings byte by byte. One such place is not in the model: \<open>add_edge\<close> ends without its return
  statement when it has connected two nodes. No caller uses the reference it should return, and the model gives
  the edge that was made, which is what the code does where a function may run off its end.

  \<^bold>\<open>What the lemmas show.\<close> Well-formedness of graph and job table in every reachable state of the resource
  manager and of the server; refinement of \<open>del_node\<close> to the removal of a node from a set of edges; exact
  provisioning and confined preemption; that a dispatched job ends either transferring with its paths kept
  or in error with exactly its paths released; that a launch is of a recorded flow whose paths were pinged
  before; what each status report may do, that bytes are counted once and that a finished block has no checksums
  or they were confirmed by the site it went to; that a poll books what its launchers reported; that a bootstrap is all or nothing; that requests are answered exactly once;
  that files are expanded, divided and checksummed without loss, by whatever number of threads; that an agent
  makes the modules of its configuration, answers only for names that begin with one of its data folders, announces all its modules and answers each request once, and that a call
  returns the value its module computed; bounds on all retry loops; round trips of JSON texts, configuration files,
  grid map files and \<open>split\<close>, and printed rates to their precision; and, as theorems about the
  code as it is, the places where it does not do what it means to.

  \<^bold>\<open>Bounds and parameters.\<close> The loops of the code have attempt counters or run over a finite collection, so all
  functions are total; \<open>suspend_loop\<close> and \<open>match_loop\<close> have termination proofs, \<open>find_and_replace\<close> is a partial
  function proved to return, and the search for a mount, which for relative paths never ends, gives
  Undefined where a folder is its own parent. The reader of JSON has the stack limit of the code as its depth; its loops have
  the length of the text as bound, which is shown never to be reached. Doubles are rationals (no rounding, infinities or NaN). Byte counts of 64 bits are integers;
  sizes in strings are 64 bit words and wrap around. Parameters are the generator of proxy certificates
  (OpenSSL), the digests of OpenSSL and zlib, the client of the transfer program and the topic functions of libmosquitto.

  \<^bold>\<open>Not modelled.\<close> Threads, mutexes and strands: an operation runs to its end before the next one starts.
  Logging and the debug copy of launch commands. Documents enter server and agents parsed, so their branches for text that does not
  parse are missing; of jsoncpp error messages and the stream writers, and comments: operator>> keeps them with the values and
  the styled writer writes them. Values of the model have none, so the text written from a configuration that was read
  with comments is a parameter (\<open>commented\<close> in \<open>Conf\<close>), and what is proved of a restart is about files without them. \<open>Scheduler::admission\<close>, which nothing
  calls. The transports (curl, mosquitto, mongocxx), command lines and start of the
  processes but for the modules of an agent. In the agents: timers (a round of each is an operation), threads of benchmarks, the supervision of the transfer
  program, the sockets of the ping. Proxy certificates (OpenSSL), netlink (\<open>network.cc\<close>) and subprocesses (\<open>process.cc\<close>)
  are calls of libraries and of the kernel.
\<close>

end
